(* ===== verification/Prelude.thy ===== *)
theory Prelude
  imports Main "HOL-Library.Word" "HOL-Library.List_Lexorder" "HOL-Library.Multiset"
begin

text \<open>
  Shared vocabulary of the development: the names of the machine types, Rust's \<open>Result\<close> as a
  sum type with its combinators, big-endian byte strings and their order, and the generic facts
  on lists, options and words the components rely on.  Nothing here is specific to one component.

  Collections of facts:
  \<^item> \<open>res_simps\<close>: the computation rules of the \<open>Result\<close> combinators;
  \<^item> \<open>codec_simps\<close>: lengths and round trips of byte encodings;
  \<^item> \<open>table_simps\<close>: what a table operation does to a later lookup.
\<close>

named_theorems res_simps \<open>computation rules of the Result combinators\<close>
named_theorems codec_simps \<open>lengths and round trips of the byte encodings\<close>
named_theorems table_simps \<open>lookups after an update of a key-value table\<close>

section \<open>Machine types\<close>

type_synonym u8 = "8 word"
type_synonym u32 = "32 word"
type_synonym u64 = "64 word"
type_synonym u128 = "128 word"
type_synonym bytes = "u8 list"

section \<open>Results\<close>

text \<open>Rust's \<open>Result<T, E>\<close>: \<open>Inl\<close> is \<open>Err\<close>, \<open>Inr\<close> is \<open>Ok\<close>.\<close>

type_synonym ('a, 'e) result = "'e + 'a"

abbreviation Ok :: "'a \<Rightarrow> ('a, 'e) result" where
  "Ok \<equiv> Inr"

abbreviation Err :: "'e \<Rightarrow> ('a, 'e) result" where
  "Err \<equiv> Inl"

text \<open>The \<open>?\<close> operator, \<open>Option::ok_or\<close>, \<open>Result::map\<close>.\<close>

primrec and_then :: "('a, 'e) result \<Rightarrow> ('a \<Rightarrow> ('b, 'e) result) \<Rightarrow> ('b, 'e) result" where
  "and_then (Inl e) f = Inl e"
| "and_then (Inr a) f = f a"

primrec ok_or :: "'a option \<Rightarrow> 'e \<Rightarrow> ('a, 'e) result" where
  "ok_or None e = Inl e"
| "ok_or (Some a) e = Inr a"

primrec map_ok :: "('a \<Rightarrow> 'b) \<Rightarrow> ('a, 'e) result \<Rightarrow> ('b, 'e) result" where
  "map_ok f (Inl e) = Inl e"
| "map_ok f (Inr a) = Inr (f a)"

text \<open>A \<open>for\<close> loop whose body may leave with an error, and which pushes zero or one item per
  round: the shape of every range read of the storage provider.\<close>

fun collect_map :: "('i \<Rightarrow> ('a option, 'e) result) \<Rightarrow> 'i list \<Rightarrow> ('a list, 'e) result" where
  "collect_map f [] = Inr []"
| "collect_map f (i # is) =
     (case f i of
        Inl e \<Rightarrow> Inl e
      | Inr None \<Rightarrow> collect_map f is
      | Inr (Some a) \<Rightarrow> map_ok ((#) a) (collect_map f is))"

lemmas result_combinators [res_simps] = and_then.simps ok_or.simps map_ok.simps

lemma and_then_Ok_iff: "and_then r f = Inr b \<longleftrightarrow> (\<exists>a. r = Inr a \<and> f a = Inr b)"
  by (cases r) auto

lemma map_ok_Ok_iff: "map_ok f r = Inr b \<longleftrightarrow> (\<exists>a. r = Inr a \<and> b = f a)"
  by (cases r) auto

lemma ok_or_Ok_iff: "ok_or x e = Inr a \<longleftrightarrow> x = Some a"
  by (cases x) auto

lemma collect_map_all:
  assumes "\<And>i. i \<in> set is \<Longrightarrow> f i = Inr (Some (g i))"
  shows "collect_map f is = Inr (map g is)"
  using assms by (induction "is") auto

lemma collect_map_total:
  assumes "\<And>i. i \<in> set is \<Longrightarrow> f i = Inr (g i)"
  shows "collect_map f is = Inr (List.map_filter g is)"
  using assms by (induction "is") (auto simp: List.map_filter_def split: option.split)

section \<open>Big-endian byte strings\<close>

primrec be_bytes :: "nat \<Rightarrow> nat \<Rightarrow> bytes" where
  "be_bytes 0 x = []"
| "be_bytes (Suc n) x = be_bytes n (x div 256) @ [of_nat (x mod 256)]"

definition from_be_bytes :: "bytes \<Rightarrow> nat" where
  "from_be_bytes bs = foldl (\<lambda>acc b. acc * 256 + unat b) 0 bs"

lemma length_be_bytes [simp, codec_simps]: "length (be_bytes n x) = n"
  by (induction n arbitrary: x) auto

lemma from_be_bytes_Nil [simp]: "from_be_bytes [] = 0"
  by (simp add: from_be_bytes_def)

lemma from_be_bytes_snoc [simp]: "from_be_bytes (bs @ [b]) = from_be_bytes bs * 256 + unat b"
  by (simp add: from_be_bytes_def)

lemma u8_unat_bound: "unat (b :: u8) < 256"
  using unsigned_less [of b] by simp

lemma unat_of_nat_u8: "unat (of_nat x :: u8) = x mod 256"
  by (simp add: unat_of_nat)

lemma from_be_bytes_append:
  "from_be_bytes (xs @ ys) = from_be_bytes xs * 256 ^ length ys + from_be_bytes ys"
proof (induction ys rule: rev_induct)
  case Nil
  then show ?case by simp
next
  case (snoc y ys)
  have "from_be_bytes (xs @ ys @ [y]) = from_be_bytes (xs @ ys) * 256 + unat y"
    using from_be_bytes_snoc [of "xs @ ys" y] by simp
  with snoc show ?case by (simp add: algebra_simps)
qed

lemma from_be_bytes_Cons:
  "from_be_bytes (x # xs) = unat x * 256 ^ length xs + from_be_bytes xs"
  using from_be_bytes_append [of "[x]" xs] from_be_bytes_snoc [of "[]" x] by simp

lemma from_be_bytes_bound: "from_be_bytes bs < 256 ^ length bs"
proof (induction bs)
  case Nil
  then show ?case by simp
next
  case (Cons b bs)
  have "unat b * 256 ^ length bs + from_be_bytes bs < (unat b + 1) * 256 ^ length bs"
    using Cons by (simp add: algebra_simps)
  also have "\<dots> \<le> 256 * 256 ^ length bs"
    using u8_unat_bound [of b] by (intro mult_right_mono) auto
  finally show ?case by (simp add: from_be_bytes_Cons)
qed

lemma from_be_bytes_be_bytes [codec_simps]: "from_be_bytes (be_bytes n x) = x mod 256 ^ n"
proof (induction n arbitrary: x)
  case 0
  then show ?case by simp
next
  case (Suc n)
  have "from_be_bytes (be_bytes (Suc n) x) = (x div 256) mod 256 ^ n * 256 + x mod 256"
    by (simp add: Suc unat_of_nat_u8)
  also have "\<dots> = x mod (256 * 256 ^ n)"
    by (simp add: mod_mult2_eq)
  finally show ?case by simp
qed

lemma from_be_bytes_inj:
  "length xs = length ys \<Longrightarrow> from_be_bytes xs = from_be_bytes ys \<Longrightarrow> xs = ys"
proof (induction xs arbitrary: ys rule: rev_induct)
  case Nil
  then show ?case by simp
next
  case (snoc x xs)
  then obtain y zs where ys: "ys = zs @ [y]"
    by (metis length_0_conv length_append_singleton nat.distinct(1) rev_exhaust)
  have eq: "from_be_bytes xs * 256 + unat x = from_be_bytes zs * 256 + unat y"
    using snoc.prems ys by simp
  have "(from_be_bytes xs * 256 + unat x) mod 256 = (from_be_bytes zs * 256 + unat y) mod 256"
    "(from_be_bytes xs * 256 + unat x) div 256 = (from_be_bytes zs * 256 + unat y) div 256"
    using eq by simp_all
  then have "unat x = unat y" "from_be_bytes xs = from_be_bytes zs"
    using u8_unat_bound [of x] u8_unat_bound [of y] by simp_all
  then show ?case
    using snoc ys by (auto simp: word_unat_eq_iff)
qed

lemma be_bytes_from_be_bytes [codec_simps]: "be_bytes (length bs) (from_be_bytes bs) = bs"
  by (rule from_be_bytes_inj)
     (use from_be_bytes_bound [of bs] in \<open>simp_all add: from_be_bytes_be_bytes\<close>)

lemma be_bytes_inj:
  assumes "be_bytes n x = be_bytes n y" "x < 256 ^ n" "y < 256 ^ n"
  shows "x = y"
  using arg_cong [OF assms(1), of from_be_bytes] assms(2,3)
  by (simp add: from_be_bytes_be_bytes)

text \<open>For strings of equal length the lexicographic order of the bytes, which is the order of
  the keys in the database, is the order of the numbers they encode.\<close>

lemma bytes_less_iff:
  "length xs = length ys \<Longrightarrow> (xs < ys) = (from_be_bytes xs < from_be_bytes ys)"
proof (induction xs ys rule: list_induct2)
  case Nil
  then show ?case by simp
next
  case (Cons x xs y ys)
  let ?p = "256 ^ length ys :: nat"
  have bx: "from_be_bytes xs < ?p" and b_y: "from_be_bytes ys < ?p"
    using from_be_bytes_bound [of xs] from_be_bytes_bound [of ys] Cons.hyps by simp_all
  have less: "a * ?p + from_be_bytes xs < b * ?p + from_be_bytes ys" if "a < b" for a b :: nat
  proof -
    have "a * ?p + from_be_bytes xs < (a + 1) * ?p"
      using bx by simp
    also have "\<dots> \<le> b * ?p"
      using that by (intro mult_right_mono) auto
    finally show ?thesis by simp
  qed
  have greater: "\<not> a * ?p + from_be_bytes xs < b * ?p + from_be_bytes ys" if "b < a" for a b :: nat
  proof -
    have "b * ?p + from_be_bytes ys < (b + 1) * ?p"
      using b_y by simp
    also have "\<dots> \<le> a * ?p"
      using that by (intro mult_right_mono) auto
    finally show ?thesis by simp
  qed
  consider "x < y" | "x = y" | "y < x" by fastforce
  then show ?case
  proof cases
    case 1
    with less [of "unat x" "unat y"] Cons.hyps show ?thesis
      by (simp add: from_be_bytes_Cons word_less_nat_alt)
  next
    case 2
    with Cons show ?thesis by (simp add: from_be_bytes_Cons)
  next
    case 3
    with greater [of "unat y" "unat x"] Cons.hyps show ?thesis
      by (auto simp: from_be_bytes_Cons word_less_nat_alt)
  qed
qed

lemma be_bytes_less_iff:
  "x < 256 ^ n \<Longrightarrow> y < 256 ^ n \<Longrightarrow> (be_bytes n x < be_bytes n y) = (x < y)"
  by (simp add: bytes_less_iff from_be_bytes_be_bytes)

text \<open>Prefixes: a string sorts at or below its extensions, and strings that differ on a prefix
  of fixed length are ordered by that prefix.\<close>

lemma list_le_append [simp]: "(xs :: 'a :: linorder list) \<le> xs @ ys"
  by (induction xs) auto

lemma append_less_append_iff:
  "length xs = length ys \<Longrightarrow> xs \<noteq> ys \<Longrightarrow>
    ((xs :: 'a :: linorder list) @ us < ys @ vs) = (xs < ys)"
  by (induction xs ys rule: list_induct2) auto

lemma append_less_same_iff [simp]:
  "((zs :: 'a :: linorder list) @ us < zs @ vs) = (us < vs)"
  by (induction zs) auto

lemma less_append_iff:
  "length xs = length ys \<Longrightarrow> xs \<noteq> ys \<Longrightarrow>
    ((xs :: 'a :: linorder list) < ys @ vs) = (xs < ys)"
  using append_less_append_iff [of xs ys "[]" vs] by simp

lemma append_le_iff:
  "length xs = length ys \<Longrightarrow> ((xs :: 'a :: linorder list) \<le> ys @ vs) = (xs \<le> ys)"
proof (cases "xs = ys")
  case True
  then show ?thesis by simp
next
  case False
  assume "length xs = length ys"
  with False have "(ys @ vs < xs) = (ys < xs)"
    using append_less_append_iff [of ys xs vs "[]"] by simp
  then show ?thesis
    by (metis not_less)
qed

section \<open>Words\<close>

lemma unat_u64_bound: "unat (x :: u64) < 2 ^ 64"
  using unsigned_less [of x] by simp

text \<open>The \<open>u64\<close> range \<open>a..b\<close> of Rust, ascending and empty when \<open>b \<le> a\<close>.\<close>

definition range_u64 :: "u64 \<Rightarrow> u64 \<Rightarrow> u64 list" where
  "range_u64 a b = map of_nat [unat a ..< unat b]"

lemma set_range_u64: "set (range_u64 a b) = {i. a \<le> i \<and> i < b}"
proof (intro equalityI subsetI)
  fix i assume "i \<in> set (range_u64 a b)"
  then obtain n where n: "i = of_nat n" "unat a \<le> n" "n < unat b"
    by (auto simp: range_u64_def)
  then have "unat i = n"
    using unat_u64_bound [of b] by (simp add: unat_of_nat)
  with n show "i \<in> {i. a \<le> i \<and> i < b}"
    by (simp add: word_le_nat_alt word_less_nat_alt)
next
  fix i assume "i \<in> {i. a \<le> i \<and> i < b}"
  then have "i = of_nat (unat i)" "unat i \<in> set [unat a ..< unat b]"
    by (auto simp: word_le_nat_alt word_less_nat_alt)
  then show "i \<in> set (range_u64 a b)"
    unfolding range_u64_def by (metis image_eqI list.set_map)
qed

lemma range_u64_offset:
  assumes "unat a + n < 2 ^ 64"
  shows "range_u64 a (a + of_nat n) = map (\<lambda>i. a + of_nat i) [0 ..< n]"
proof -
  have n: "unat (of_nat n :: u64) = n"
    using assms by (simp add: unat_of_nat)
  have "unat (a + of_nat n) = unat a + n"
    using assms n by (simp add: unat_word_ariths)
  moreover have "[unat a ..< unat a + n] = map (\<lambda>i. i + unat a) [0 ..< n]"
    using map_add_upt [of "unat a" n] by (simp add: add.commute)
  ultimately show ?thesis
    by (simp add: range_u64_def comp_def add.commute)
qed

section \<open>Lists\<close>

text \<open>\<open>slice::iter().find(p)\<close> on a sorted list finds the least element that satisfies an upward
  closed predicate.\<close>

lemma find_append:
  "find P (xs @ ys) = (case find P xs of None \<Rightarrow> find P ys | Some x \<Rightarrow> Some x)"
  by (induction xs) auto

lemma find_Some_in: "find P xs = Some x \<Longrightarrow> x \<in> set xs \<and> P x"
  by (auto simp: find_Some_iff)

text \<open>A loop leaves alone what its body leaves alone, and keeps what its body keeps.\<close>

lemma fold_frame: "(\<And>e d. f (g e d) = f d) \<Longrightarrow> f (fold g es d) = f d"
  by (induction es arbitrary: d) simp_all

lemma fold_field: "(\<And>e d. f (g e d) = h e (f d)) \<Longrightarrow> f (fold g es d) = fold h es (f d)"
  by (induction es arbitrary: d) simp_all

lemma fold_inv: "(\<And>e d. P d \<Longrightarrow> P (g e d)) \<Longrightarrow> P d \<Longrightarrow> P (fold g es d)"
  by (induction es arbitrary: d) simp_all

lemma fold_concat_map: "fold (\<lambda>u. fold (f u) (g u)) us d = fold (\<lambda>(u, e). f u e) (concat (map (\<lambda>u. map (Pair u) (g u)) us)) d"
proof (induction us arbitrary: d)
  case Nil
  then show ?case by simp
next
  case (Cons u us)
  have "fold (f u) xs d = fold (\<lambda>(u, e). f u e) (map (Pair u) xs) d" for xs
    by (induction xs arbitrary: d) simp_all
  with Cons show ?case by simp
qed

lemma disjoint_by_image:
  "a \<notin> f ` Y \<Longrightarrow> (\<And>x. x \<in> X \<Longrightarrow> f x = a) \<Longrightarrow> X \<inter> Y = {}"
  by blast

section \<open>Checked 64 bit arithmetic\<close>

text \<open>With overflow checks (\<open>oc\<close>) an overflow panics, without them the sum wraps.\<close>

definition rust_add :: "bool \<Rightarrow> u64 \<Rightarrow> u64 \<Rightarrow> u64 option" where
  "rust_add oc a b = (if oc \<and> 2 ^ 64 \<le> unat a + unat b then None else Some (a + b))"

definition rust_sub :: "bool \<Rightarrow> u64 \<Rightarrow> u64 \<Rightarrow> u64 option" where
  "rust_sub oc a b = (if oc \<and> a < b then None else Some (a - b))"

lemma rust_add_no_overflow: "unat a + unat b < 2 ^ 64 \<Longrightarrow> rust_add oc a b = Some (a + b)"
  by (simp add: rust_add_def)

lemma unat_add_no_overflow: "unat a + unat b < 2 ^ 64 \<Longrightarrow> unat (a + b :: u64) = unat a + unat b"
  by (simp add: unat_word_ariths)

lemma u64_less_bound: "a < (b :: u64) \<Longrightarrow> unat a + 1 < 2 ^ 64"
  using unat_u64_bound [of b] by (simp add: word_less_nat_alt)

end
