(* ===== verification/Felt.thy ===== *)
theory Felt
  imports Prelude
begin

text \<open>
  The field element \<open>Felt\<close> of the Starknet types crate, the type of every hash, address, nonce,
  storage key and storage value in the program: a number below the prime
  \<open>2^251 + 17 * 2^192 + 1\<close> with arithmetic modulo it.  The program uses of it equality, the order
  of the numbers, \<open>+ 1\<close>, \<open>- 1\<close>, the 32 byte big-endian form and the conversion from bytes, which
  reduces modulo the prime; these are what this theory provides.
\<close>

definition stark_prime :: nat where
  "stark_prime = 2 ^ 251 + 17 * 2 ^ 192 + 1"

lemma stark_prime_gt_1: "Suc 0 < stark_prime"
  by (simp add: stark_prime_def)

lemma stark_prime_pos [simp]: "0 < stark_prime"
  by (simp add: stark_prime_def)

lemma stark_prime_lt_256_32: "stark_prime < 256 ^ 32"
  by (simp add: stark_prime_def)

typedef felt = "{n :: nat. n < stark_prime}"
  morphisms nat_of_felt Abs_felt
  by (rule exI [of _ 0]) simp

setup_lifting type_definition_felt

lift_definition felt :: "nat \<Rightarrow> felt" is "\<lambda>n. n mod stark_prime"
  by simp

instantiation felt :: "{zero, one, plus, minus}"
begin

lift_definition zero_felt :: felt is 0
  by simp

lift_definition one_felt :: felt is 1
  by (simp add: stark_prime_gt_1)

lift_definition plus_felt :: "felt \<Rightarrow> felt \<Rightarrow> felt" is "\<lambda>a b. (a + b) mod stark_prime"
  by simp

lift_definition minus_felt :: "felt \<Rightarrow> felt \<Rightarrow> felt" is
  "\<lambda>a b. (a + (stark_prime - b)) mod stark_prime"
  by simp

instance ..

end

instantiation felt :: linorder
begin

lift_definition less_eq_felt :: "felt \<Rightarrow> felt \<Rightarrow> bool" is "(\<le>)" .

lift_definition less_felt :: "felt \<Rightarrow> felt \<Rightarrow> bool" is "(<)" .

instance
  by standard (transfer; auto)+

end

instantiation felt :: equal
begin

definition equal_felt :: "felt \<Rightarrow> felt \<Rightarrow> bool" where
  "equal_felt a b \<longleftrightarrow> nat_of_felt a = nat_of_felt b"

instance
  by standard (simp add: equal_felt_def nat_of_felt_inject)

end

section \<open>Reading a felt as a number\<close>

lemma nat_of_felt_bound: "nat_of_felt a < stark_prime"
  using nat_of_felt [of a] by simp

lemma nat_of_felt_felt: "nat_of_felt (felt n) = n mod stark_prime"
  by transfer simp

lemma felt_nat_of_felt [simp]: "felt (nat_of_felt a) = a"
  by transfer simp

lemma felt_eq_iff: "felt m = felt n \<longleftrightarrow> m mod stark_prime = n mod stark_prime"
  by transfer simp

lemma felt_eq_iff_small [simp]:
  "m < stark_prime \<Longrightarrow> n < stark_prime \<Longrightarrow> felt m = felt n \<longleftrightarrow> m = n"
  by (simp add: felt_eq_iff)

lemma felt_less_iff: "a < b \<longleftrightarrow> nat_of_felt a < nat_of_felt b"
  by transfer simp

lemma felt_le_iff: "a \<le> b \<longleftrightarrow> nat_of_felt a \<le> nat_of_felt b"
  by transfer simp

lemma zero_felt_eq: "0 = felt 0"
  by transfer simp

lemma one_felt_eq: "1 = felt 1"
  by transfer (use stark_prime_gt_1 in simp)

lemma zero_neq_one_felt [simp]: "(0 :: felt) \<noteq> 1" "(1 :: felt) \<noteq> 0"
  by (transfer; simp)+

lemma felt_zero_le [simp]: "(0 :: felt) \<le> a"
  by transfer simp

lemma felt_not_less_zero [simp]: "\<not> a < (0 :: felt)"
  by transfer simp

lemma nat_of_felt_plus: "nat_of_felt (a + b) = (nat_of_felt a + nat_of_felt b) mod stark_prime"
  by transfer simp

lemma felt_plus_felt: "felt m + felt n = felt (m + n)"
  by transfer (simp add: mod_simps)

lemma felt_add_diff [simp]: "a + b - b = (a :: felt)"
proof transfer
  fix a b :: nat
  assume a: "a < stark_prime" and b: "b < stark_prime"
  have "((a + b) mod stark_prime + (stark_prime - b)) mod stark_prime
      = (a + b + (stark_prime - b)) mod stark_prime"
    by (simp add: mod_simps)
  also have "\<dots> = (a + stark_prime) mod stark_prime"
    using b by simp
  finally show "((a + b) mod stark_prime + (stark_prime - b)) mod stark_prime = a"
    using a by simp
qed

lemma felt_diff_add [simp]: "a - b + b = (a :: felt)"
proof transfer
  fix a b :: nat
  assume a: "a < stark_prime" and b: "b < stark_prime"
  have "((a + (stark_prime - b)) mod stark_prime + b) mod stark_prime
      = (a + (stark_prime - b) + b) mod stark_prime"
    by (simp add: mod_simps)
  then show "((a + (stark_prime - b)) mod stark_prime + b) mod stark_prime = a"
    using a b by simp
qed

text \<open>The successor of a felt is greater unless it wraps around the prime.\<close>

lemma felt_less_succ: "nat_of_felt a + 1 < stark_prime \<Longrightarrow> a < a + 1"
  by (simp add: felt_less_iff nat_of_felt_plus one_felt.rep_eq)

lemma felt_succ_neq [simp]: "a + 1 \<noteq> (a :: felt)"
proof
  assume "a + 1 = a"
  then have eq: "(nat_of_felt a + 1) mod stark_prime = nat_of_felt a"
    using nat_of_felt_plus [of a 1] by (simp add: one_felt.rep_eq)
  show False
  proof (cases "nat_of_felt a + 1 < stark_prime")
    case True
    with eq show False by simp
  next
    case False
    with nat_of_felt_bound [of a] have "nat_of_felt a + 1 = stark_prime" by simp
    with eq have "stark_prime = 1" by simp
    then show False using stark_prime_gt_1 by simp
  qed
qed

section \<open>Bytes\<close>

text \<open>\<open>Felt::to_bytes_be\<close> and \<open>Felt::from_bytes_be_slice\<close>.\<close>

definition felt_to_bytes_be :: "felt \<Rightarrow> bytes" where
  "felt_to_bytes_be a = be_bytes 32 (nat_of_felt a)"

definition felt_from_bytes_be_slice :: "bytes \<Rightarrow> felt" where
  "felt_from_bytes_be_slice bs = felt (from_be_bytes bs)"

lemma length_felt_to_bytes_be [simp, codec_simps]: "length (felt_to_bytes_be a) = 32"
  by (simp add: felt_to_bytes_be_def)

lemma nat_of_felt_lt_256_32: "nat_of_felt a < 256 ^ 32"
  using nat_of_felt_bound [of a] stark_prime_lt_256_32 by (rule less_trans)

lemma felt_bytes_roundtrip [simp, codec_simps]:
  "felt_from_bytes_be_slice (felt_to_bytes_be a) = a"
  using nat_of_felt_lt_256_32 [of a]
  by (simp add: felt_from_bytes_be_slice_def felt_to_bytes_be_def from_be_bytes_be_bytes)

lemma felt_to_bytes_be_eq_iff [simp]: "felt_to_bytes_be a = felt_to_bytes_be b \<longleftrightarrow> a = b"
  by (metis felt_bytes_roundtrip)

lemma felt_to_bytes_be_less_iff: "felt_to_bytes_be a < felt_to_bytes_be b \<longleftrightarrow> a < b"
  using nat_of_felt_lt_256_32 [of a] nat_of_felt_lt_256_32 [of b]
  by (simp add: felt_to_bytes_be_def be_bytes_less_iff felt_less_iff)

end
