(* ===== verification/Block_List.thy ===== *)
theory Block_List
  imports Prelude
begin

text \<open>
  \<open>models/list.rs\<close> of the database crate: the set of block numbers (\<open>IntegerSet\<close>, alias
  \<open>BlockList\<close>) at which a value changed.  The roaring bitmap is represented by the ascending list
  of its members; \<open>rank\<close> and \<open>select\<close> are the operations the file documents.  On top of them
  \<open>recent_change_from_block\<close>, which the historical state provider and the trie snapshots share,
  is shown to return the last change at or before a block.
\<close>

type_synonym block_number = u64
type_synonym block_list = "block_number list"

definition block_list_new :: block_list where
  "block_list_new = []"

fun block_list_insert :: "block_number \<Rightarrow> block_list \<Rightarrow> block_list" where
  "block_list_insert n [] = [n]"
| "block_list_insert n (m # ms) =
     (if n < m then n # m # ms else if n = m then m # ms else m # block_list_insert n ms)"

definition block_list_contains :: "block_list \<Rightarrow> block_number \<Rightarrow> bool" where
  "block_list_contains l n \<longleftrightarrow> n \<in> set l"

definition block_list_rank :: "block_list \<Rightarrow> block_number \<Rightarrow> u64" where
  "block_list_rank l v = of_nat (length (filter (\<lambda>x. x \<le> v) l))"

definition block_list_select :: "block_list \<Rightarrow> u64 \<Rightarrow> block_number option" where
  "block_list_select l n = (if unat n < length l then Some (l ! unat n) else None)"

definition block_list_from :: "block_number list \<Rightarrow> block_list" where
  "block_list_from arr = foldl (\<lambda>l n. block_list_insert n l) block_list_new arr"

definition recent_change_from_block :: "block_number \<Rightarrow> block_list \<Rightarrow> block_number option" where
  "recent_change_from_block target l =
     (let rank = block_list_rank l target
      in if rank = 0 then None else block_list_select l (rank - 1))"

text \<open>The representation invariant: strictly ascending.  A set of 64 bit numbers has fewer than
  \<open>2^64\<close> members unless it holds every number, so \<open>rank\<close> does not wrap.\<close>

definition block_list_ok :: "block_list \<Rightarrow> bool" where
  "block_list_ok l \<longleftrightarrow> sorted_wrt (<) l \<and> length l < 2 ^ 64"

lemma set_block_list_insert [simp]: "set (block_list_insert n l) = insert n (set l)"
  by (induction l) auto

lemma sorted_block_list_insert: "sorted_wrt (<) l \<Longrightarrow> sorted_wrt (<) (block_list_insert n l)"
  by (induction l) auto

lemma block_list_insert_neq_Nil [simp]: "block_list_insert n l \<noteq> []"
  by (cases l) auto

lemma block_list_from_single [simp]: "block_list_from [n] = block_list_insert n []"
  by (simp add: block_list_from_def block_list_new_def)

lemma filter_le_take:
  "sorted_wrt (<) (l :: block_list) \<Longrightarrow>
    filter (\<lambda>x. x \<le> v) l = take (length (filter (\<lambda>x. x \<le> v) l)) l"
proof (induction l)
  case Nil
  then show ?case by simp
next
  case (Cons a l)
  show ?case
  proof (cases "a \<le> v")
    case True
    with Cons show ?thesis by simp
  next
    case False
    with Cons.prems have "filter (\<lambda>x. x \<le> v) l = []"
      by (fastforce simp: filter_empty_conv)
    with False show ?thesis by simp
  qed
qed

lemma recent_change_eq:
  assumes "block_list_ok l"
  shows "recent_change_from_block v l =
    (let changes = filter (\<lambda>x. x \<le> v) l in if changes = [] then None else Some (last changes))"
proof -
  let ?c = "filter (\<lambda>x. x \<le> v) l"
  have len: "length ?c \<le> length l"
    by simp
  also have "\<dots> < 2 ^ 64"
    using assms by (simp add: block_list_ok_def)
  finally have len64: "length ?c < 2 ^ 64" .
  then have u: "unat (block_list_rank l v) = length ?c"
    by (simp add: block_list_rank_def unat_of_nat)
  have tk: "?c = take (length ?c) l"
    using assms by (intro filter_le_take) (simp add: block_list_ok_def)
  show ?thesis
  proof (cases "?c = []")
    case True
    then show ?thesis by (simp add: recent_change_from_block_def block_list_rank_def)
  next
    case False
    then have nz: "block_list_rank l v \<noteq> 0"
      using u by (metis length_0_conv unat_0)
    then have "unat (block_list_rank l v - 1) = length ?c - 1"
      using u by (metis unat_minus_one)
    moreover have "last ?c = l ! (length ?c - 1)"
    proof -
      have "last ?c = ?c ! (length ?c - 1)"
        using False by (rule last_conv_nth)
      also have "\<dots> = take (length ?c) l ! (length ?c - 1)"
        by (rule arg_cong [OF tk])
      also have "\<dots> = l ! (length ?c - 1)"
        using False by (intro nth_take) (metis diff_less length_greater_0_conv less_numeral_extra(1))
      finally show ?thesis .
    qed
    moreover have "length ?c - 1 < length l"
      using len False by (meson diff_less length_greater_0_conv less_le_trans less_numeral_extra(1))
    ultimately show ?thesis
      using False nz by (simp add: recent_change_from_block_def block_list_select_def)
  qed
qed

lemma recent_change_empty [simp]: "recent_change_from_block b [] = None"
  by (simp add: recent_change_from_block_def block_list_rank_def)

lemma recent_change_None_iff:
  "block_list_ok l \<Longrightarrow> recent_change_from_block v l = None \<longleftrightarrow> (\<forall>n \<in> set l. v < n)"
  by (auto simp: recent_change_eq Let_def filter_empty_conv not_le)

lemma sorted_last_max:
  "sorted_wrt (<) (l :: block_list) \<Longrightarrow> l \<noteq> [] \<Longrightarrow> m \<in> set l \<Longrightarrow> m \<le> last l"
  by (induction l rule: rev_induct) (auto simp: sorted_wrt_append)

lemma recent_change_Some_iff:
  assumes "block_list_ok l"
  shows "recent_change_from_block v l = Some n \<longleftrightarrow>
    n \<in> set l \<and> n \<le> v \<and> (\<forall>m \<in> set l. m \<le> v \<longrightarrow> m \<le> n)"
proof -
  let ?c = "filter (\<lambda>x. x \<le> v) l"
  have srt: "sorted_wrt (<) ?c"
    using assms by (auto simp: block_list_ok_def intro: sorted_wrt_filter)
  show ?thesis
  proof (cases "?c = []")
    case True
    then show ?thesis
      using assms by (auto simp: recent_change_eq filter_empty_conv)
  next
    case False
    have "last ?c \<in> set ?c" "\<forall>m \<in> set ?c. m \<le> last ?c"
      using False srt by (auto simp del: set_filter intro: sorted_last_max)
    with False show ?thesis
      using assms by (auto simp: recent_change_eq Let_def intro: antisym)
  qed
qed


section \<open>Properties\<close>

text \<open>The most recent change relative to a block is the greatest block number of the list at
  or below it, and there is none exactly when every change is later.\<close>

theorem recent_change_is_last_before:
  assumes "block_list_ok l"
  shows "(recent_change_from_block v l = Some n \<longleftrightarrow>
      n \<in> set l \<and> n \<le> v \<and> (\<forall>m \<in> set l. m \<le> v \<longrightarrow> m \<le> n)) \<and>
    (recent_change_from_block v l = None \<longleftrightarrow> (\<forall>m \<in> set l. v < m))"
  using recent_change_Some_iff [OF assms] recent_change_None_iff [OF assms] by blast

theorem recent_change_is_last_before_witness:
  "recent_change_from_block 3 (block_list_from [1, 2, 5, 6, 10]) = Some 2"
proof -
  have l: "block_list_from [1, 2, 5, 6, 10] = [1, 2, 5, 6, 10]"
    by code_simp
  have "block_list_ok [1, 2, 5, 6, 10]"
    by (simp add: block_list_ok_def)
  from recent_change_is_last_before [OF this, of 3 2] show ?thesis
    unfolding l by simp
qed

end
