(* ===== verification/Codec.thy ===== *)
theory Codec
  imports Felt Block_List
begin

text \<open>
  The byte encodings of the database crate: \<open>codecs/mod.rs\<close> (keys: \<open>Encode\<close>/\<open>Decode\<close>), the
  hand-written \<open>Compress\<close>/\<open>Decompress\<close> implementations of \<open>models/{contract,storage,trie}.rs\<close>, the
  data types of \<open>models/\<close> and the version file of \<open>version.rs\<close>.

  A decoder that panics returns \<open>None\<close>; otherwise it returns the \<open>Result\<close> of the source.
  Two functions are not part of the repository and are parameters: the postcard codec of a single
  felt or byte vector (\<open>pc\<close>, \<open>pd\<close>) and \<open>normalize_address\<close> (\<open>norm\<close>), which
  \<open>ContractAddress::from\<close> applies to every decoded address.

  The interface \<open>codec\<close> states the round trip of an encoder on the keys it is valid for; it gives
  \<open>table_key\<close>, the injectivity the key-value tables rely on.  Both are interpreted on every key
  encoding of the source.
\<close>

section \<open>Data\<close>

datatype codec_error = Decode string | Decompress string

datatype finality_status = AcceptedOnL2 | AcceptedOnL1

record contract_class_change =
  ccc_contract_address :: felt
  ccc_class_hash :: felt

record contract_nonce_change =
  cnc_contract_address :: felt
  cnc_nonce :: felt

record storage_entry =
  se_key :: felt
  se_value :: felt

record contract_storage_key =
  csk_contract_address :: felt
  csk_key :: felt

record contract_storage_entry =
  cse_key :: contract_storage_key
  cse_value :: felt

record contract_info_change_list =
  class_change_list :: block_list
  nonce_change_list :: block_list

record stored_block_body_indices =
  tx_offset :: u64
  tx_count :: u64

record stage_checkpoint =
  sc_block :: u64

datatype trie_key_type = Trie | Flat | TrieLog

record trie_database_key =
  tk_type :: trie_key_type
  tk_key :: bytes

record trie_history_entry =
  the_key :: trie_database_key
  the_value :: bytes

text \<open>\<open>impl From<StoredBlockBodyIndices> for Range<u64>\<close>: start and end of the range.\<close>

definition body_indices_range :: "stored_block_body_indices \<Rightarrow> u64 \<times> u64" where
  "body_indices_range i = (tx_offset i, tx_offset i + tx_count i)"

section \<open>Keys\<close>

text \<open>A slice \<open>&bytes[a..b]\<close> panics when it reaches past the end.\<close>

definition slice :: "bytes \<Rightarrow> nat \<Rightarrow> nat \<Rightarrow> bytes option" where
  "slice bs a b = (if a \<le> b \<and> b \<le> length bs then Some (take (b - a) (drop a bs)) else None)"

definition encode_u64 :: "u64 \<Rightarrow> bytes" where
  "encode_u64 x = be_bytes 8 (unat x)"

definition decode_u64 :: "bytes \<Rightarrow> (u64, codec_error) result option" where
  "decode_u64 bs =
     (if length bs = 8 then Some (Ok (of_nat (from_be_bytes bs))) else None)"

definition encode_felt :: "felt \<Rightarrow> bytes" where
  "encode_felt a = felt_to_bytes_be a"

definition decode_felt :: "bytes \<Rightarrow> (felt, codec_error) result option" where
  "decode_felt bs = Some (Ok (felt_from_bytes_be_slice bs))"

definition decode_contract_address ::
  "(felt \<Rightarrow> felt) \<Rightarrow> bytes \<Rightarrow> (felt, codec_error) result option" where
  "decode_contract_address norm bs = Some (Ok (norm (felt_from_bytes_be_slice bs)))"

definition encode_string :: "string \<Rightarrow> bytes" where
  "encode_string s = map (\<lambda>c. of_nat (of_char c)) s"

definition encode_contract_storage_key :: "contract_storage_key \<Rightarrow> bytes" where
  "encode_contract_storage_key k =
     encode_felt (csk_contract_address k) @ encode_felt (csk_key k)"

definition decode_contract_storage_key ::
  "(felt \<Rightarrow> felt) \<Rightarrow> bytes \<Rightarrow> (contract_storage_key, codec_error) result option" where
  "decode_contract_storage_key norm bs =
     (case slice bs 0 32 of
        None \<Rightarrow> None
      | Some ab \<Rightarrow>
          (case decode_contract_address norm ab of
             None \<Rightarrow> None
           | Some (Inl e) \<Rightarrow> Some (Inl e)
           | Some (Inr a) \<Rightarrow>
               (case slice bs 32 (length bs) of
                  None \<Rightarrow> None
                | Some kb \<Rightarrow>
                    (case decode_felt kb of
                       None \<Rightarrow> None
                     | Some (Inl e) \<Rightarrow> Some (Inl e)
                     | Some (Inr k) \<Rightarrow>
                         Some (Ok \<lparr>csk_contract_address = a, csk_key = k\<rparr>)))))"

primrec trie_key_type_byte :: "trie_key_type \<Rightarrow> u8" where
  "trie_key_type_byte Trie = 0"
| "trie_key_type_byte Flat = 1"
| "trie_key_type_byte TrieLog = 2"

definition trie_key_type_try_from :: "u8 \<Rightarrow> (trie_key_type, u8) result" where
  "trie_key_type_try_from b =
     (if b = 0 then Ok Trie else if b = 1 then Ok Flat else if b = 2 then Ok TrieLog else Err b)"

text \<open>\<open>self.key.len() as u8\<close> keeps the low eight bits of the length.\<close>

definition encode_trie_key :: "trie_database_key \<Rightarrow> bytes" where
  "encode_trie_key k =
     trie_key_type_byte (tk_type k) # of_nat (length (tk_key k)) # tk_key k"

definition decode_trie_key ::
  "bytes \<Rightarrow> (trie_database_key, codec_error) result option" where
  "decode_trie_key bs =
     (if length bs < 2 then None
      else case trie_key_type_try_from (bs ! 0) of
             Inl _ \<Rightarrow> None
           | Inr t \<Rightarrow>
               (let key_len = unat (bs ! 1)
                in if length bs < 2 + key_len then None
                   else Some (Ok \<lparr>tk_type = t, tk_key = take key_len (drop 2 bs)\<rparr>)))"

section \<open>Values\<close>

definition compress_finality_status :: "finality_status \<Rightarrow> bytes" where
  "compress_finality_status s = [case s of AcceptedOnL2 \<Rightarrow> 0 | AcceptedOnL1 \<Rightarrow> 1]"

definition decompress_finality_status ::
  "bytes \<Rightarrow> (finality_status, codec_error) result option" where
  "decompress_finality_status bs =
     Some (case bs of
             [] \<Rightarrow> Err (Decode ''Invalid status'')
           | b # _ \<Rightarrow>
               if b = 0 then Ok AcceptedOnL2
               else if b = 1 then Ok AcceptedOnL1
               else Err (Decode ''Invalid status''))"

text \<open>\<open>ContractClassChange\<close> and \<open>ContractNonceChange\<close> have the same layout: the encoded address,
  then the postcard form of the felt.  \<open>StorageEntry\<close> reads its key back without normalising it.\<close>

definition compress_class_change :: "(felt \<Rightarrow> bytes) \<Rightarrow> contract_class_change \<Rightarrow> bytes" where
  "compress_class_change pc c =
     encode_felt (ccc_contract_address c) @ pc (ccc_class_hash c)"

definition decompress_class_change ::
  "(felt \<Rightarrow> felt) \<Rightarrow> (bytes \<Rightarrow> (felt, codec_error) result) \<Rightarrow> bytes
    \<Rightarrow> (contract_class_change, codec_error) result option" where
  "decompress_class_change norm pd bs =
     (case slice bs 0 32 of
        None \<Rightarrow> None
      | Some ab \<Rightarrow>
          Some (and_then (Ok (norm (felt_from_bytes_be_slice ab))) (\<lambda>a.
            and_then (pd (drop 32 bs)) (\<lambda>h.
              Ok \<lparr>ccc_contract_address = a, ccc_class_hash = h\<rparr>))))"

definition compress_nonce_change :: "(felt \<Rightarrow> bytes) \<Rightarrow> contract_nonce_change \<Rightarrow> bytes" where
  "compress_nonce_change pc c =
     encode_felt (cnc_contract_address c) @ pc (cnc_nonce c)"

definition decompress_nonce_change ::
  "(felt \<Rightarrow> felt) \<Rightarrow> (bytes \<Rightarrow> (felt, codec_error) result) \<Rightarrow> bytes
    \<Rightarrow> (contract_nonce_change, codec_error) result option" where
  "decompress_nonce_change norm pd bs =
     (case slice bs 0 32 of
        None \<Rightarrow> None
      | Some ab \<Rightarrow>
          Some (and_then (Ok (norm (felt_from_bytes_be_slice ab))) (\<lambda>a.
            and_then (pd (drop 32 bs)) (\<lambda>n.
              Ok \<lparr>cnc_contract_address = a, cnc_nonce = n\<rparr>))))"

definition compress_storage_entry :: "(felt \<Rightarrow> bytes) \<Rightarrow> storage_entry \<Rightarrow> bytes" where
  "compress_storage_entry pc e = felt_to_bytes_be (se_key e) @ pc (se_value e)"

definition decompress_storage_entry ::
  "(bytes \<Rightarrow> (felt, codec_error) result) \<Rightarrow> bytes
    \<Rightarrow> (storage_entry, codec_error) result option" where
  "decompress_storage_entry pd bs =
     (case slice bs 0 32 of
        None \<Rightarrow> None
      | Some kb \<Rightarrow>
          Some (and_then (pd (drop 32 bs)) (\<lambda>v.
            Ok \<lparr>se_key = felt_from_bytes_be_slice kb, se_value = v\<rparr>)))"

definition compress_contract_storage_entry ::
  "(felt \<Rightarrow> bytes) \<Rightarrow> contract_storage_entry \<Rightarrow> bytes" where
  "compress_contract_storage_entry pc e =
     encode_contract_storage_key (cse_key e) @ pc (cse_value e)"

definition decompress_contract_storage_entry ::
  "(felt \<Rightarrow> felt) \<Rightarrow> (bytes \<Rightarrow> (felt, codec_error) result) \<Rightarrow> bytes
    \<Rightarrow> (contract_storage_entry, codec_error) result option" where
  "decompress_contract_storage_entry norm pd bs =
     (case slice bs 0 64 of
        None \<Rightarrow> None
      | Some kb \<Rightarrow>
          (case decode_contract_storage_key norm kb of
             None \<Rightarrow> None
           | Some kr \<Rightarrow>
               Some (and_then kr (\<lambda>k. and_then (pd (drop 64 bs)) (\<lambda>v.
                 Ok \<lparr>cse_key = k, cse_value = v\<rparr>)))))"

definition compress_trie_history_entry :: "(bytes \<Rightarrow> bytes) \<Rightarrow> trie_history_entry \<Rightarrow> bytes" where
  "compress_trie_history_entry pc e = encode_trie_key (the_key e) @ pc (the_value e)"

definition decompress_trie_history_entry ::
  "(bytes \<Rightarrow> (bytes, codec_error) result) \<Rightarrow> bytes
    \<Rightarrow> (trie_history_entry, codec_error) result option" where
  "decompress_trie_history_entry pd bs =
     (case decode_trie_key bs of
        None \<Rightarrow> None
      | Some kr \<Rightarrow>
          Some (and_then kr (\<lambda>k.
            and_then (pd (drop (1 + 1 + length (tk_key k)) bs)) (\<lambda>v.
              Ok \<lparr>the_key = k, the_value = v\<rparr>))))"

section \<open>The version file\<close>

datatype database_version_error =
    FileNotFound
  | MalformedContent
  | MismatchVersion u32 u32

definition CURRENT_DB_VERSION :: u32 where
  "CURRENT_DB_VERSION = 6"

text \<open>The content of the file at the path, if there is one, stands for the file system.\<close>

definition create_db_version_file :: "u32 \<Rightarrow> bytes option" where
  "create_db_version_file version = Some (be_bytes 4 (unat version))"

definition get_db_version :: "bytes option \<Rightarrow> (u32, database_version_error) result" where
  "get_db_version file =
     (case file of
        None \<Rightarrow> Err FileNotFound
      | Some buf \<Rightarrow>
          if length buf = 4 then Ok (of_nat (from_be_bytes buf)) else Err MalformedContent)"

definition check_db_version :: "bytes option \<Rightarrow> (unit, database_version_error) result" where
  "check_db_version file =
     (case get_db_version file of
        Inl e \<Rightarrow> Err e
      | Inr version \<Rightarrow>
          if version \<noteq> CURRENT_DB_VERSION
          then Err (MismatchVersion CURRENT_DB_VERSION version)
          else Ok ())"

section \<open>The interfaces\<close>

text \<open>What a table relies on: different keys have different encodings.\<close>

locale table_key =
  fixes enc :: "'k \<Rightarrow> bytes"
    and valid :: "'k \<Rightarrow> bool"
  assumes enc_inj: "valid a \<Longrightarrow> valid b \<Longrightarrow> enc a = enc b \<Longrightarrow> a = b"
begin

lemma enc_eq_iff: "valid a \<Longrightarrow> valid b \<Longrightarrow> enc a = enc b \<longleftrightarrow> a = b"
  using enc_inj by blast

end

text \<open>What a codec promises: a decoder inverts its encoder.\<close>

locale codec =
  fixes encode :: "'k \<Rightarrow> bytes"
    and decode :: "bytes \<Rightarrow> ('k, codec_error) result option"
    and valid :: "'k \<Rightarrow> bool"
  assumes roundtrip: "valid k \<Longrightarrow> decode (encode k) = Some (Ok k)"
begin

lemma encode_inj:
  assumes "valid a" "valid b" "encode a = encode b"
  shows "a = b"
proof -
  have "Some (Ok a) = decode (encode a)"
    using roundtrip [OF assms(1)] by simp
  also have "\<dots> = Some (Ok b)"
    using roundtrip [OF assms(2)] assms(3) by simp
  finally show ?thesis by simp
qed

end

sublocale codec \<subseteq> key: table_key encode valid
  by unfold_locales (rule encode_inj)

section \<open>The encodings implement the interfaces\<close>

lemma slice_prefix [simp]: "length xs = n \<Longrightarrow> slice (xs @ ys) 0 n = Some xs"
  by (simp add: slice_def)

lemma slice_suffix [simp]: "length xs = n \<Longrightarrow> slice (xs @ ys) n (n + length ys) = Some ys"
  by (simp add: slice_def)

lemma length_encode_u64 [simp, codec_simps]: "length (encode_u64 x) = 8"
  by (simp add: encode_u64_def)

lemma length_encode_felt [simp, codec_simps]: "length (encode_felt x) = 32"
  by (simp add: encode_felt_def)

lemma length_encode_contract_storage_key [simp, codec_simps]:
  "length (encode_contract_storage_key k) = 64"
  by (simp add: encode_contract_storage_key_def)

lemma u64_encode_decode: "decode_u64 (encode_u64 x) = Some (Ok x)"
  using unat_u64_bound [of x]
  by (simp add: decode_u64_def encode_u64_def from_be_bytes_be_bytes)

interpretation u64_codec: codec encode_u64 decode_u64 "\<lambda>_. True"
  by unfold_locales (rule u64_encode_decode)

interpretation felt_codec: codec encode_felt decode_felt "\<lambda>_. True"
  by unfold_locales (simp add: decode_felt_def encode_felt_def)

interpretation address_codec: codec encode_felt "decode_contract_address norm" "\<lambda>a. norm a = a"
  by unfold_locales (simp add: decode_contract_address_def encode_felt_def)

lemma contract_storage_key_decode:
  assumes "norm (csk_contract_address k) = csk_contract_address k"
  shows "decode_contract_storage_key norm (encode_contract_storage_key k) = Some (Ok k)"
proof -
  let ?a = "encode_felt (csk_contract_address k)" and ?k = "encode_felt (csk_key k)"
  have "slice (?a @ ?k) 32 (length (?a @ ?k)) = Some ?k"
    using slice_suffix [of ?a 32 ?k] by simp
  with assms show ?thesis
    by (simp add: decode_contract_storage_key_def encode_contract_storage_key_def
        decode_contract_address_def decode_felt_def encode_felt_def)
qed

interpretation storage_key_codec:
  codec encode_contract_storage_key "decode_contract_storage_key norm"
    "\<lambda>k. norm (csk_contract_address k) = csk_contract_address k"
  by unfold_locales (rule contract_storage_key_decode)

lemma trie_key_type_roundtrip [simp]: "trie_key_type_try_from (trie_key_type_byte t) = Ok t"
  by (cases t) (simp_all add: trie_key_type_try_from_def)

lemma trie_key_decode_append:
  assumes "length (tk_key k) < 256"
  shows "decode_trie_key (encode_trie_key k @ rest) = Some (Ok k)"
  using assms
  by (simp add: decode_trie_key_def encode_trie_key_def unat_of_nat_u8 Let_def)

interpretation trie_key_codec: codec encode_trie_key decode_trie_key "\<lambda>k. length (tk_key k) < 256"
  by unfold_locales (use trie_key_decode_append [of _ "[]"] in simp)

text \<open>Every encoding of a key used by the state tables is injective without restriction.\<close>

lemma encode_u64_eq_iff [simp]: "encode_u64 a = encode_u64 b \<longleftrightarrow> a = b"
  by (rule u64_codec.key.enc_eq_iff) simp_all

lemma encode_felt_eq_iff [simp]: "encode_felt a = encode_felt b \<longleftrightarrow> a = b"
  by (rule felt_codec.key.enc_eq_iff) simp_all

lemma encode_contract_storage_key_eq_iff [simp]:
  "encode_contract_storage_key a = encode_contract_storage_key b \<longleftrightarrow> a = b"
  by (rule storage_key_codec.key.enc_eq_iff [of "\<lambda>x. x"]) simp_all

lemma char_byte_inj: "inj (\<lambda>c :: char. of_nat (of_char c) :: u8)"
proof (rule injI)
  fix c d :: char
  assume "(of_nat (of_char c) :: u8) = of_nat (of_char d)"
  then have "unat (of_nat (of_char c) :: u8) = unat (of_nat (of_char d) :: u8)"
    by (rule arg_cong)
  then have "(of_char c :: nat) = of_char d"
    unfolding unat_of_nat_u8 by (simp only: of_char_mod_256)
  then show "c = d" by (rule iffD1 [OF of_char_eq_iff])
qed

lemma encode_string_eq_iff [simp]: "encode_string a = encode_string b \<longleftrightarrow> a = b"
  unfolding encode_string_def by (rule inj_map_eq_map) (rule char_byte_inj)

text \<open>The order of the encodings, which is the order of the tables, is the order of the numbers.\<close>

lemma encode_u64_less_iff: "encode_u64 a < encode_u64 b \<longleftrightarrow> a < b"
  using unat_u64_bound [of a] unat_u64_bound [of b]
  by (simp add: encode_u64_def be_bytes_less_iff word_less_nat_alt)

lemma encode_felt_less_iff: "encode_felt a < encode_felt b \<longleftrightarrow> a < b"
  by (simp add: encode_felt_def felt_to_bytes_be_less_iff)


lemma encode_contract_storage_key_less_iff:
  "encode_contract_storage_key a < encode_contract_storage_key b \<longleftrightarrow>
    csk_contract_address a < csk_contract_address b \<or>
    csk_contract_address a = csk_contract_address b \<and> csk_key a < csk_key b"
proof (cases "csk_contract_address a = csk_contract_address b")
  case True
  then show ?thesis
    by (simp add: encode_contract_storage_key_def append_less_same_iff encode_felt_less_iff)
next
  case False
  then show ?thesis
    by (simp add: encode_contract_storage_key_def append_less_append_iff encode_felt_less_iff)
qed

section \<open>Properties\<close>

text \<open>The tables are ordered by the bytes of their keys, and this is the order of the keys:
  of the numbers for block and transaction numbers and for felts, and first by address, then by
  storage key for the keys of storage changes.\<close>

theorem keys_in_order:
  "(encode_u64 m < encode_u64 n \<longleftrightarrow> m < n) \<and>
   (encode_felt x < encode_felt y \<longleftrightarrow> x < y) \<and>
   (encode_contract_storage_key a < encode_contract_storage_key b \<longleftrightarrow>
      csk_contract_address a < csk_contract_address b \<or>
      csk_contract_address a = csk_contract_address b \<and> csk_key a < csk_key b)"
  by (simp add: encode_u64_less_iff encode_felt_less_iff encode_contract_storage_key_less_iff)

text \<open>Decoding an encoded trie key gives the key back exactly when the key is shorter than
  256 bytes: the encoding keeps only the low eight bits of the length.\<close>

theorem trie_key_roundtrip_iff:
  "decode_trie_key (encode_trie_key k) = Some (Ok k) \<longleftrightarrow> length (tk_key k) < 256"
proof
  assume dec: "decode_trie_key (encode_trie_key k) = Some (Ok k)"
  define n where "n = length (tk_key k) mod 256"
  have "decode_trie_key (encode_trie_key k) = Some (Ok \<lparr>tk_type = tk_type k, tk_key = take n (tk_key k)\<rparr>)"
    by (simp add: decode_trie_key_def encode_trie_key_def unat_of_nat_u8 Let_def n_def)
  with dec have "tk_key k = take n (tk_key k)"
    by (metis Inr_inject option.inject trie_database_key.select_convs(2))
  then have "length (tk_key k) \<le> n"
    by (metis length_take min.cobounded2)
  moreover have "n < 256" by (simp add: n_def)
  ultimately show "length (tk_key k) < 256" by simp
qed (use trie_key_decode_append [of k "[]"] in simp)

text \<open>Every record with a hand-written codec is read back as it was written, when postcard
  reads back the single value it is given, the addresses are normalised and the trie key is
  shorter than 256 bytes.\<close>

theorem changes_roundtrip:
  assumes felt_codec: "\<And>x. pd (pc x) = Ok x"
    and bytes_codec: "\<And>bs. pdb (pcb bs) = Ok bs"
    and class_addr: "norm (ccc_contract_address c) = ccc_contract_address c"
    and nonce_addr: "norm (cnc_contract_address n) = cnc_contract_address n"
    and storage_addr: "norm (csk_contract_address (cse_key s)) = csk_contract_address (cse_key s)"
    and trie_len: "length (tk_key (the_key t)) < 256"
  shows "decompress_class_change norm pd (compress_class_change pc c) = Some (Ok c) \<and>
    decompress_nonce_change norm pd (compress_nonce_change pc n) = Some (Ok n) \<and>
    decompress_storage_entry pd (compress_storage_entry pc e) = Some (Ok e) \<and>
    decompress_contract_storage_entry norm pd (compress_contract_storage_entry pc s) = Some (Ok s) \<and>
    decompress_trie_history_entry pdb (compress_trie_history_entry pcb t) = Some (Ok t)"
proof (intro conjI)
  show "decompress_class_change norm pd (compress_class_change pc c) = Some (Ok c)"
    using felt_codec class_addr
    by (simp add: decompress_class_change_def compress_class_change_def encode_felt_def)
  show "decompress_nonce_change norm pd (compress_nonce_change pc n) = Some (Ok n)"
    using felt_codec nonce_addr
    by (simp add: decompress_nonce_change_def compress_nonce_change_def encode_felt_def)
  show "decompress_storage_entry pd (compress_storage_entry pc e) = Some (Ok e)"
    using felt_codec by (simp add: decompress_storage_entry_def compress_storage_entry_def)
  show "decompress_contract_storage_entry norm pd (compress_contract_storage_entry pc s) = Some (Ok s)"
    using felt_codec contract_storage_key_decode [of norm "cse_key s"] storage_addr
    by (simp add: decompress_contract_storage_entry_def compress_contract_storage_entry_def)
  show "decompress_trie_history_entry pdb (compress_trie_history_entry pcb t) = Some (Ok t)"
    using bytes_codec trie_key_decode_append [OF trie_len]
    by (simp add: decompress_trie_history_entry_def compress_trie_history_entry_def
        encode_trie_key_def)
qed

text \<open>At concrete records, with the big-endian form in the place of postcard.\<close>

theorem changes_roundtrip_witness:
  "decompress_class_change (\<lambda>a. a) (\<lambda>bs. Ok (felt_from_bytes_be_slice bs))
     (compress_class_change felt_to_bytes_be
       \<lparr>ccc_contract_address = felt 1, ccc_class_hash = felt 7\<rparr>)
   = Some (Ok \<lparr>ccc_contract_address = felt 1, ccc_class_hash = felt 7\<rparr>)"
  using changes_roundtrip [where pc = felt_to_bytes_be and norm = "\<lambda>a. a"
      and pd = "\<lambda>bs. Ok (felt_from_bytes_be_slice bs)" and pcb = "\<lambda>bs. bs" and pdb = "\<lambda>bs. Ok bs"
      and c = "\<lparr>ccc_contract_address = felt 1, ccc_class_hash = felt 7\<rparr>"
      and n = "\<lparr>cnc_contract_address = felt 1, cnc_nonce = felt 2\<rparr>"
      and e = "\<lparr>se_key = felt 3, se_value = felt 4\<rparr>"
      and s = "\<lparr>cse_key = \<lparr>csk_contract_address = felt 1, csk_key = felt 3\<rparr>, cse_value = felt 4\<rparr>"
      and t = "\<lparr>the_key = \<lparr>tk_type = Flat, tk_key = [1, 2]\<rparr>, the_value = [9]\<rparr>"]
  by simp

text \<open>A key of the storage change set is decoded to itself exactly when its address is
  normalised.\<close>

lemma contract_storage_key_roundtrip_iff:
  "decode_contract_storage_key norm (encode_contract_storage_key k) = Some (Ok k) \<longleftrightarrow>
    norm (csk_contract_address k) = csk_contract_address k"
proof
  let ?a = "encode_felt (csk_contract_address k)" and ?k = "encode_felt (csk_key k)"
  assume dec: "decode_contract_storage_key norm (encode_contract_storage_key k) = Some (Ok k)"
  have "slice (?a @ ?k) 32 (length (?a @ ?k)) = Some ?k"
    using slice_suffix [of ?a 32 ?k] by simp
  then have "decode_contract_storage_key norm (encode_contract_storage_key k)
    = Some (Ok \<lparr>csk_contract_address = norm (csk_contract_address k), csk_key = csk_key k\<rparr>)"
    by (simp add: decode_contract_storage_key_def encode_contract_storage_key_def
        decode_contract_address_def decode_felt_def encode_felt_def)
  with dec show "norm (csk_contract_address k) = csk_contract_address k"
    by (metis Inr_inject option.inject contract_storage_key.select_convs(1))
qed (rule contract_storage_key_decode)

text \<open>A database written with version \<open>v\<close> is accepted exactly when \<open>v\<close> is the current version,
  and otherwise refused with both versions named.\<close>

theorem db_version_check:
  "check_db_version (create_db_version_file v) =
    (if v = CURRENT_DB_VERSION then Ok () else Err (MismatchVersion CURRENT_DB_VERSION v))"
proof -
  have "unat v < 2 ^ 32"
    using unsigned_less [of v] by simp
  then have "get_db_version (create_db_version_file v) = Ok v"
    by (simp add: get_db_version_def create_db_version_file_def from_be_bytes_be_bytes)
  then show ?thesis
    by (simp add: check_db_version_def)
qed

end
