(* ===== verification/Ordered_Map.thy ===== *)
theory Ordered_Map
  imports Prelude
begin

text \<open>
  Maps kept in the order of their keys: Rust's \<open>BTreeMap\<close> and, with byte strings as keys, the
  B-tree tables of the database.  A map is the list of its entries in ascending order; \<open>om_ok\<close> is
  the representation invariant.  A \<open>BTreeSet\<close> is the ascending list of its members.
\<close>

type_synonym ('k, 'v) ordered_map = "('k \<times> 'v) list"

fun om_insert :: "'k :: linorder \<Rightarrow> 'v \<Rightarrow> ('k, 'v) ordered_map \<Rightarrow> ('k, 'v) ordered_map" where
  "om_insert k v [] = [(k, v)]"
| "om_insert k v ((k', v') # m) =
     (if k < k' then (k, v) # (k', v') # m
      else if k = k' then (k, v) # m
      else (k', v') # om_insert k v m)"

definition om_remove :: "'k :: linorder \<Rightarrow> ('k, 'v) ordered_map \<Rightarrow> ('k, 'v) ordered_map" where
  "om_remove k m = filter (\<lambda>e. fst e \<noteq> k) m"

definition om_get :: "('k, 'v) ordered_map \<Rightarrow> 'k \<Rightarrow> 'v option" where
  "om_get m k = map_of m k"

definition om_keys :: "('k, 'v) ordered_map \<Rightarrow> 'k list" where
  "om_keys m = map fst m"

text \<open>\<open>iter().collect::<BTreeMap<_, _>>()\<close>: a later entry replaces an earlier one.\<close>

definition om_collect :: "('k :: linorder \<times> 'v) list \<Rightarrow> ('k, 'v) ordered_map" where
  "om_collect es = fold (\<lambda>(k, v). om_insert k v) es []"

definition om_ok :: "('k :: linorder, 'v) ordered_map \<Rightarrow> bool" where
  "om_ok m \<longleftrightarrow> sorted_wrt (<) (map fst m)"

section \<open>Lookups\<close>

lemma map_of_om_insert [simp]: "map_of (om_insert k v m) = (map_of m)(k \<mapsto> v)"
  by (induction m rule: om_insert.induct) auto

lemma map_of_om_remove [simp]:
  "map_of (om_remove k m) = (map_of m)(k := None)"
  by (induction m) (auto simp: om_remove_def)

lemma om_get_insert [simp]:
  "om_get (om_insert k v m) k' = (if k' = k then Some v else om_get m k')"
  by (simp add: om_get_def)

lemma om_get_remove [simp]:
  "om_get (om_remove k m) k' = (if k' = k then None else om_get m k')"
  by (simp add: om_get_def)

lemma om_get_Nil [simp]: "om_get [] k = None"
  by (simp add: om_get_def)

lemma keys_om_insert [simp]: "fst ` set (om_insert k v m) = insert k (fst ` set m)"
  by (induction m rule: om_insert.induct) auto

lemma keys_om_remove [simp]: "fst ` set (om_remove k m) = fst ` set m - {k}"
  by (auto simp: om_remove_def)

lemma om_insert_neq_Nil [simp]: "om_insert k v m \<noteq> []"
  by (cases m) (auto split: if_splits)

section \<open>The invariant\<close>

lemma om_ok_Nil [simp]: "om_ok []"
  by (simp add: om_ok_def)

lemma om_ok_Cons: "om_ok ((k, v) # m) \<longleftrightarrow> om_ok m \<and> (\<forall>k' \<in> fst ` set m. k < k')"
  by (auto simp: om_ok_def)

lemma om_ok_insert [simp]: "om_ok m \<Longrightarrow> om_ok (om_insert k v m)"
  by (induction m rule: om_insert.induct) (auto simp: om_ok_Cons)

lemma om_ok_remove [simp]: "om_ok m \<Longrightarrow> om_ok (om_remove k m)"
  by (induction m) (auto simp: om_ok_def om_remove_def)

lemma om_ok_distinct: "om_ok m \<Longrightarrow> distinct (map fst m)"
  by (induction m) (auto simp: om_ok_def)

lemma om_ok_tail [dest]: "om_ok (e # m) \<Longrightarrow> om_ok m"
  by (cases e) (simp add: om_ok_Cons)

lemma om_get_Some_iff: "om_ok m \<Longrightarrow> om_get m k = Some v \<longleftrightarrow> (k, v) \<in> set m"
  by (simp add: om_get_def om_ok_distinct)

lemma om_get_None_iff: "om_get m k = None \<longleftrightarrow> k \<notin> fst ` set m"
  by (simp add: om_get_def map_of_eq_None_iff)

text \<open>A map is determined by its lookups.\<close>

lemma om_eqI:
  assumes "om_ok m" "om_ok n" "\<And>k. om_get m k = om_get n k"
  shows "m = n"
proof (rule map_sorted_distinct_set_unique [where f = fst])
  have set: "set m = set n"
    using om_get_Some_iff [OF assms(1)] om_get_Some_iff [OF assms(2)] assms(3) by auto
  show "inj_on fst (set m \<union> set n)"
    using om_ok_distinct [OF assms(1)] set by (simp add: distinct_map)
  show "sorted (map fst m)" "sorted (map fst n)"
    using assms(1,2) by (simp_all add: om_ok_def strict_sorted_imp_sorted)
  show "distinct (map fst m)" "distinct (map fst n)"
    using assms(1,2) by (simp_all add: om_ok_distinct)
  show "set m = set n" by (rule set)
qed

lemma om_last_max:
  assumes "om_ok m" "m \<noteq> []"
  shows "\<forall>k \<in> fst ` set m. k \<le> fst (last m)"
  using assms
proof (induction m)
  case Nil
  then show ?case by simp
next
  case (Cons e m)
  then have "m \<noteq> [] \<Longrightarrow> fst e < fst (last m)"
    by (cases e) (auto simp: om_ok_Cons)
  with Cons show ?case by (auto simp: less_imp_le)
qed

section \<open>Sizes\<close>

lemma length_om_insert:
  "length (om_insert k v m) = (if k \<in> fst ` set m then length m else Suc (length m))"
  if "om_ok m"
  using that by (induction m rule: om_insert.induct) (auto simp: om_ok_Cons)

section \<open>Collecting\<close>

lemma om_collect_gen:
  "om_ok m \<Longrightarrow> om_ok (fold (\<lambda>(k, v). om_insert k v) es m) \<and>
    om_get (fold (\<lambda>(k, v). om_insert k v) es m) k
      = (case om_get (rev es) k of None \<Rightarrow> om_get m k | Some v \<Rightarrow> Some v)"
proof (induction es arbitrary: m)
  case Nil
  then show ?case by simp
next
  case (Cons e es)
  obtain a b where e: "e = (a, b)" by (cases e)
  show ?case
    using Cons.IH [of "om_insert a b m"] Cons.prems
    by (auto simp: e om_get_def map_add_def split: option.splits)
qed

lemma om_ok_collect [simp]: "om_ok (om_collect es)"
  unfolding om_collect_def using om_collect_gen [of "[]" es] by simp

lemma om_get_collect: "om_get (om_collect es) k = om_get (rev es) k"
  unfolding om_collect_def using om_collect_gen [of "[]" es k] by (auto split: option.splits)

lemma om_get_collect_distinct:
  assumes "distinct (map fst es)"
  shows "om_get (om_collect es) k = om_get es k"
proof -
  have "map_of (rev es) = map_of es"
    using assms by (intro map_of_inject_set [THEN iffD2]) (auto simp: rev_map [symmetric])
  then show ?thesis
    by (simp add: om_get_collect) (simp add: om_get_def)
qed

text \<open>Collecting the entries of a map, in any order, gives the map.\<close>

lemma om_collect_eq:
  assumes "om_ok m" "distinct (map fst es)" "set es = set m"
  shows "om_collect es = m"
proof (rule om_eqI)
  fix k
  have "map_of es = map_of m"
    using assms by (intro map_of_inject_set [THEN iffD2]) (auto simp: om_ok_distinct)
  then show "om_get (om_collect es) k = om_get m k"
    using om_get_collect_distinct [OF assms(2), of k] by (simp add: om_get_def)
qed (use assms in simp_all)

end
