(* ===== verification/Version.thy ===== *)
theory Version
  imports Prelude
begin

text \<open>
  \<open>version.rs\<close> of the primitives crate: the Starknet protocol version, its parser and its printer.
  The version is stored in the database and hashed into the block in its printed form, so the
  parser must read back what the printer wrote.  The parts of the standard library the source
  calls (\<open>str::split\<close>, \<open>u8::from_str\<close>, the decimal form of a number) are defined here.
\<close>

section \<open>Decimal numbers of the standard library\<close>

definition digit_char :: "nat \<Rightarrow> char" where
  "digit_char d = char_of (48 + d)"

definition to_digit :: "char \<Rightarrow> nat option" where
  "to_digit c =
     (let n = of_char c :: nat in if 48 \<le> n \<and> n \<le> 57 then Some (n - 48) else None)"

fun dec_string :: "nat \<Rightarrow> string" where
  "dec_string n =
     (if n < 10 then [digit_char n] else dec_string (n div 10) @ [digit_char (n mod 10)])"

declare dec_string.simps [simp del]

datatype int_error_kind = Empty | InvalidDigit | PosOverflow

text \<open>\<open>u8::from_str\<close>: an optional plus sign, then digits, checked for overflow at every digit.\<close>

fun parse_digits :: "nat \<Rightarrow> string \<Rightarrow> (nat, int_error_kind) result" where
  "parse_digits acc [] = Ok acc"
| "parse_digits acc (c # cs) =
     (case to_digit c of
        None \<Rightarrow> Err InvalidDigit
      | Some d \<Rightarrow> if acc * 10 + d < 256 then parse_digits (acc * 10 + d) cs else Err PosOverflow)"

definition parse_u8 :: "string \<Rightarrow> (u8, int_error_kind) result" where
  "parse_u8 s =
     (case s of
        [] \<Rightarrow> Err Empty
      | c # cs \<Rightarrow>
          if cs = [] \<and> (c = CHR ''+'' \<or> c = CHR ''-'') then Err InvalidDigit
          else map_ok of_nat (parse_digits 0 (if c = CHR ''+'' then cs else s)))"

text \<open>\<open>str::split\<close> on a character: one more piece than separators.\<close>

fun split_on :: "char \<Rightarrow> string \<Rightarrow> string list" where
  "split_on sep [] = [[]]"
| "split_on sep (c # cs) =
     (if c = sep then [] # split_on sep cs
      else case split_on sep cs of [] \<Rightarrow> [[c]] | s # ss \<Rightarrow> (c # s) # ss)"

definition split_once :: "char \<Rightarrow> string \<Rightarrow> (string \<times> string) option" where
  "split_once c s = (if c \<in> set s then Some (takeWhile ((\<noteq>) c) s, tl (dropWhile ((\<noteq>) c) s)) else None)"

text \<open>A number of any size from its decimal digits.\<close>

fun parse_nat :: "nat \<Rightarrow> string \<Rightarrow> nat option" where
  "parse_nat acc [] = Some acc"
| "parse_nat acc (c # cs) = (case to_digit c of None \<Rightarrow> None | Some d \<Rightarrow> parse_nat (acc * 10 + d) cs)"

section \<open>Versions\<close>

text \<open>The four segments of the array \<open>segments\<close>.\<close>

datatype protocol_version = ProtocolVersion u8 u8 u8 u8

datatype parse_version_error = InvalidFormat | ParseSegment int_error_kind

definition CURRENT_STARKNET_VERSION :: protocol_version where
  "CURRENT_STARKNET_VERSION = ProtocolVersion 0 13 1 1"

definition protocol_version_default :: protocol_version where
  "protocol_version_default = ProtocolVersion 0 1 0 0"

definition parse_segment :: "string \<Rightarrow> (u8, parse_version_error) result" where
  "parse_segment seg =
     (if seg = [] then Ok 0
      else case parse_u8 seg of Inl e \<Rightarrow> Err (ParseSegment e) | Inr v \<Rightarrow> Ok v)"

text \<open>The loop over \<open>buffer.iter_mut().zip(segments)\<close>: the buffer holds the segments read so far.\<close>

fun parse_segments :: "u8 list \<Rightarrow> string list \<Rightarrow> (u8 list, parse_version_error) result" where
  "parse_segments buffer [] = Ok buffer"
| "parse_segments buffer (seg # segs) =
     and_then (parse_segment seg) (\<lambda>v. parse_segments (buffer @ [v]) segs)"

definition version_new :: "u8 list \<Rightarrow> protocol_version" where
  "version_new buffer =
     (let seg = (\<lambda>i. if i < length buffer then buffer ! i else 0)
      in ProtocolVersion (seg 0) (seg 1) (seg 2) (seg 3))"

definition protocol_version_parse :: "string \<Rightarrow> (protocol_version, parse_version_error) result" where
  "protocol_version_parse version =
     (if version = [] then Err InvalidFormat
      else let segments = split_on (CHR ''.'') version
           in if length segments > 4 then Err InvalidFormat
              else map_ok version_new (parse_segments [] segments))"

fun protocol_version_to_string :: "protocol_version \<Rightarrow> string" where
  "protocol_version_to_string (ProtocolVersion a b c d) =
     dec_string (unat a) @ ''.'' @ dec_string (unat b) @ ''.'' @ dec_string (unat c) @
     (if d \<noteq> 0 then ''.'' @ dec_string (unat d) else [])"

section \<open>Digits\<close>

lemma of_char_digit: "d < 10 \<Longrightarrow> of_char (digit_char d) = (48 + d :: nat)"
  by (simp add: digit_char_def of_char_of)

lemma to_digit_digit_char [simp]: "d < 10 \<Longrightarrow> to_digit (digit_char d) = Some d"
  by (simp add: to_digit_def of_char_digit)

lemma parse_nat_append: "parse_nat acc (s @ t) = Option.bind (parse_nat acc s) (\<lambda>a. parse_nat a t)"
  by (induction acc s rule: parse_nat.induct) (auto split: option.split)

lemma parse_nat_dec_string: "parse_nat 0 (dec_string n) = Some n"
proof (induction n rule: dec_string.induct)
  case (1 n)
  then show ?case
    by (subst dec_string.simps) (auto simp: parse_nat_append to_digit_digit_char)
qed

lemma digit_char_neq:
  assumes "d < 10"
  shows "digit_char d \<noteq> CHR ''.''" "digit_char d \<noteq> CHR ''+''" "digit_char d \<noteq> CHR ''-''"
  using of_char_digit [OF assms] by auto

lemma parse_digits_append:
  "parse_digits acc (xs @ ys) = and_then (parse_digits acc xs) (\<lambda>r. parse_digits r ys)"
  by (induction acc xs rule: parse_digits.induct) (auto split: option.split)

lemma parse_digits_dec_string: "n < 256 \<Longrightarrow> parse_digits 0 (dec_string n) = Ok n"
proof (induction n rule: dec_string.induct)
  case (1 n)
  show ?case
  proof (cases "n < 10")
    case True
    then show ?thesis by (simp add: dec_string.simps)
  next
    case False
    then have "parse_digits 0 (dec_string (n div 10)) = Ok (n div 10)"
      using 1 by simp
    moreover have "n div 10 * 10 + n mod 10 = n" by simp
    ultimately show ?thesis
      using False 1(2)
      by (subst dec_string.simps) (simp add: parse_digits_append mult.commute)
  qed
qed

lemma dec_string_chars: "c \<in> set (dec_string n) \<Longrightarrow> \<exists>d < 10. c = digit_char d"
proof (induction n rule: dec_string.induct)
  case (1 n)
  show ?case
  proof (cases "n < 10")
    case True
    with 1(2) show ?thesis by (auto simp: dec_string.simps [of n])
  next
    case False
    with 1(2) have "c \<in> set (dec_string (n div 10)) \<or> c = digit_char (n mod 10)"
      by (auto simp: dec_string.simps [of n])
    then show ?thesis
      using 1(1) [OF False] by (metis mod_less_divisor zero_less_numeral)
  qed
qed

lemma dec_string_neq_Nil [simp]: "dec_string n \<noteq> []"
  by (subst dec_string.simps) simp

lemma dec_string_no_dot: "CHR ''.'' \<notin> set (dec_string n)"
  using dec_string_chars digit_char_neq(1) by metis

lemma parse_segment_dec_string: "parse_segment (dec_string (unat v)) = Ok v"
proof -
  obtain c cs where s: "dec_string (unat v) = c # cs"
    by (cases "dec_string (unat v)") auto
  then have "c \<in> set (dec_string (unat v))" by simp
  then obtain d where "d < 10" "c = digit_char d"
    using dec_string_chars by blast
  then have "c \<noteq> CHR ''+''" "c \<noteq> CHR ''-''"
    using digit_char_neq by auto
  moreover have "parse_digits 0 (c # cs) = Ok (unat v)"
    using parse_digits_dec_string [of "unat v"] u8_unat_bound [of v] s by simp
  ultimately show ?thesis
    by (simp add: parse_segment_def parse_u8_def s del: parse_digits.simps)
qed

section \<open>Splitting\<close>

lemma split_on_no_sep: "sep \<notin> set s \<Longrightarrow> split_on sep s = [s]"
  by (induction s) auto

lemma split_on_append:
  "sep \<notin> set s \<Longrightarrow> split_on sep (s @ sep # t) = s # split_on sep t"
  by (induction s) auto

lemmas split_dec = split_on_append [OF dec_string_no_dot] split_on_no_sep [OF dec_string_no_dot]

text \<open>A version string with more than four segments, and the empty string, are refused; fewer
  segments are completed with zeros.\<close>

lemma version_format:
  "length (split_on (CHR ''.'') s) > 4 \<Longrightarrow> protocol_version_parse s = Err InvalidFormat"
  "protocol_version_parse [] = Err InvalidFormat"
  "protocol_version_parse (dec_string (unat a) @ ''.'' @ dec_string (unat b)) =
     Ok (ProtocolVersion a b 0 0)"
  by (auto simp: protocol_version_parse_def Let_def split_dec parse_segment_dec_string
      version_new_def)

lemma version_parse_print: "protocol_version_parse (protocol_version_to_string v) = Ok v"
  by (cases v)
     (auto simp: protocol_version_parse_def Let_def split_dec parse_segment_dec_string
        version_new_def)

lemma protocol_version_to_string_inj:
  assumes "protocol_version_to_string v = protocol_version_to_string w"
  shows "v = w"
proof -
  have "(Ok v :: (protocol_version, parse_version_error) result) = Ok w"
    using version_parse_print [of v] version_parse_print [of w] unfolding assms by (rule subst)
  then show ?thesis by (rule Inr_inject)
qed

section \<open>Properties\<close>

text \<open>Parsing a printed version gives the version back, whatever its segments, although the
  printer leaves out a last segment that is zero; so different versions print differently.\<close>

theorem version_roundtrip:
  "protocol_version_parse (protocol_version_to_string v) = Ok v \<and>
   (protocol_version_to_string v = protocol_version_to_string w \<longleftrightarrow> v = w)"
  by (auto simp: version_parse_print dest: protocol_version_to_string_inj)

end
