(* ===== verification/Primitives.thy ===== *)
theory Primitives
  imports Codec Ordered_Map Version
begin

text \<open>
  The data of the primitives crate the storage works on: headers and blocks (\<open>block.rs\<close>), state
  updates (\<open>state.rs\<close>), contract information (\<open>contract.rs\<close>) and the block environment
  (\<open>env.rs\<close>).  The Poseidon hash and the conversion of a short string to a felt come from the
  Starknet crates and are parameters (\<open>poseidon\<close>, \<open>short_string\<close>).  Transactions, receipts, traces
  and classes are type parameters: the storage moves them without looking inside.
\<close>

section \<open>Blocks\<close>

type_synonym contract_address = felt
type_synonym class_hash = felt
type_synonym compiled_class_hash = felt
type_synonym storage_key = felt
type_synonym storage_value = felt
type_synonym nonce = felt
type_synonym block_hash = felt
type_synonym tx_hash = felt
type_synonym tx_number = u64

datatype block_hash_or_number = Hash block_hash | Num block_number

datatype l1_da_mode = Blob | Calldata

record gas_prices =
  gp_eth :: u128
  gp_strk :: u128

definition gas_prices_new :: "u128 \<Rightarrow> u128 \<Rightarrow> gas_prices" where
  "gas_prices_new wei_gas_price fri_gas_price = \<lparr>gp_eth = wei_gas_price, gp_strk = fri_gas_price\<rparr>"

definition gas_prices_default :: gas_prices where
  "gas_prices_default = \<lparr>gp_eth = 1, gp_strk = 1\<rparr>"

record partial_header =
  ph_parent_hash :: block_hash
  ph_number :: block_number
  ph_timestamp :: u64
  ph_sequencer_address :: contract_address
  ph_l1_gas_prices :: gas_prices
  ph_l1_data_gas_prices :: gas_prices
  ph_l1_da_mode :: l1_da_mode
  ph_protocol_version :: protocol_version

record header =
  h_parent_hash :: block_hash
  h_number :: block_number
  h_state_diff_commitment :: felt
  h_transactions_commitment :: felt
  h_receipts_commitment :: felt
  h_events_commitment :: felt
  h_state_root :: felt
  h_transaction_count :: u32
  h_events_count :: u32
  h_state_diff_length :: u32
  h_timestamp :: u64
  h_sequencer_address :: contract_address
  h_l1_gas_prices :: gas_prices
  h_l1_data_gas_prices :: gas_prices
  h_l1_da_mode :: l1_da_mode
  h_protocol_version :: protocol_version

definition header_default :: header where
  "header_default =
     \<lparr>h_parent_hash = 0, h_number = 0, h_state_diff_commitment = 0, h_transactions_commitment = 0,
      h_receipts_commitment = 0, h_events_commitment = 0, h_state_root = 0,
      h_transaction_count = 0, h_events_count = 0, h_state_diff_length = 0, h_timestamp = 0,
      h_sequencer_address = 0, h_l1_gas_prices = gas_prices_default,
      h_l1_data_gas_prices = gas_prices_default, h_l1_da_mode = Calldata,
      h_protocol_version = protocol_version_default\<rparr>"

definition to_64_bits :: "u32 \<Rightarrow> bytes" where
  "to_64_bits num = be_bytes 8 (unat num)"

definition l1_da_byte :: "l1_da_mode \<Rightarrow> u8" where
  "l1_da_byte m = (case m of Calldata \<Rightarrow> 0 | Blob \<Rightarrow> 128)"

definition concat_bytes :: "u32 \<Rightarrow> u32 \<Rightarrow> u32 \<Rightarrow> l1_da_mode \<Rightarrow> bytes" where
  "concat_bytes transaction_count event_count state_diff_length l1_data_availability_mode =
     to_64_bits transaction_count @ to_64_bits event_count @ to_64_bits state_diff_length @
     [l1_da_byte l1_data_availability_mode] @ replicate 7 0"

definition concat_counts :: "u32 \<Rightarrow> u32 \<Rightarrow> u32 \<Rightarrow> l1_da_mode \<Rightarrow> felt" where
  "concat_counts transaction_count event_count state_diff_length l1_data_availability_mode =
     felt_from_bytes_be_slice
       (concat_bytes transaction_count event_count state_diff_length l1_data_availability_mode)"

text \<open>The array \<open>compute_hash\<close> gives to Poseidon, and the hash.\<close>

definition header_hash_elements :: "(string \<Rightarrow> felt) \<Rightarrow> header \<Rightarrow> felt list" where
  "header_hash_elements short_string h =
     [short_string ''STARKNET_BLOCK_HASH0'',
      felt (unat (h_number h)),
      h_state_root h,
      h_sequencer_address h,
      felt (unat (h_timestamp h)),
      concat_counts (h_transaction_count h) (h_events_count h) (h_state_diff_length h)
        (h_l1_da_mode h),
      h_state_diff_commitment h,
      h_transactions_commitment h,
      h_events_commitment h,
      h_receipts_commitment h,
      felt (unat (gp_eth (h_l1_gas_prices h))),
      felt (unat (gp_strk (h_l1_gas_prices h))),
      felt (unat (gp_eth (h_l1_data_gas_prices h))),
      felt (unat (gp_strk (h_l1_data_gas_prices h))),
      short_string (protocol_version_to_string (h_protocol_version h)),
      0,
      h_parent_hash h]"

definition compute_hash :: "(felt list \<Rightarrow> felt) \<Rightarrow> (string \<Rightarrow> felt) \<Rightarrow> header \<Rightarrow> felt" where
  "compute_hash poseidon short_string h = poseidon (header_hash_elements short_string h)"

record 'tx tx_with_hash =
  twh_hash :: tx_hash
  twh_transaction :: 'tx

record 'tx block =
  b_header :: header
  b_body :: "'tx tx_with_hash list"

record block_with_tx_hashes =
  bth_header :: header
  bth_body :: "tx_hash list"

record 'tx sealed_block =
  sb_hash :: block_hash
  sb_header :: header
  sb_body :: "'tx tx_with_hash list"

record 'tx sealed_block_with_status =
  sbs_block :: "'tx sealed_block"
  sbs_status :: finality_status

definition seal_with_hash :: "'tx block \<Rightarrow> block_hash \<Rightarrow> 'tx sealed_block" where
  "seal_with_hash b hash = \<lparr>sb_hash = hash, sb_header = b_header b, sb_body = b_body b\<rparr>"

definition seal :: "(felt list \<Rightarrow> felt) \<Rightarrow> (string \<Rightarrow> felt) \<Rightarrow> 'tx block \<Rightarrow> 'tx sealed_block" where
  "seal poseidon short_string b =
     \<lparr>sb_hash = compute_hash poseidon short_string (b_header b), sb_header = b_header b,
      sb_body = b_body b\<rparr>"

definition seal_with_hash_and_status ::
  "'tx block \<Rightarrow> block_hash \<Rightarrow> finality_status \<Rightarrow> 'tx sealed_block_with_status" where
  "seal_with_hash_and_status b hash status =
     \<lparr>sbs_block = seal_with_hash b hash, sbs_status = status\<rparr>"

definition unseal :: "'tx sealed_block \<Rightarrow> 'tx block" where
  "unseal b = \<lparr>b_header = sb_header b, b_body = sb_body b\<rparr>"

record block_env =
  be_number :: block_number
  be_timestamp :: u64
  be_l1_gas_prices :: gas_prices
  be_l1_data_gas_prices :: gas_prices
  be_sequencer_address :: contract_address

section \<open>State\<close>

record generic_contract_info =
  ci_nonce :: nonce
  ci_class_hash :: class_hash

definition contract_info_default :: generic_contract_info where
  "contract_info_default = \<lparr>ci_nonce = 0, ci_class_hash = 0\<rparr>"

record state_updates =
  nonce_updates :: "(contract_address, nonce) ordered_map"
  storage_updates :: "(contract_address, (storage_key, storage_value) ordered_map) ordered_map"
  deployed_contracts :: "(contract_address, class_hash) ordered_map"
  declared_classes :: "(class_hash, compiled_class_hash) ordered_map"
  deprecated_declared_classes :: "class_hash list"
  replaced_classes :: "(contract_address, class_hash) ordered_map"

definition state_updates_default :: state_updates where
  "state_updates_default =
     \<lparr>nonce_updates = [], storage_updates = [], deployed_contracts = [], declared_classes = [],
      deprecated_declared_classes = [], replaced_classes = []\<rparr>"

definition state_updates_len :: "state_updates \<Rightarrow> nat" where
  "state_updates_len s =
     length (deployed_contracts s) + length (replaced_classes s) + length (declared_classes s)
     + length (deprecated_declared_classes s) + length (nonce_updates s)
     + sum_list (map (\<lambda>u. length (snd u)) (storage_updates s))"

record 'cls state_updates_with_classes =
  suc_state_updates :: state_updates
  suc_classes :: "(class_hash, 'cls) ordered_map"

text \<open>The maps and the set of an update are B-trees.\<close>

definition state_updates_ok :: "state_updates \<Rightarrow> bool" where
  "state_updates_ok s \<longleftrightarrow>
     om_ok (nonce_updates s) \<and> om_ok (storage_updates s) \<and>
     (\<forall>(a, m) \<in> set (storage_updates s). om_ok m) \<and>
     om_ok (deployed_contracts s) \<and> om_ok (declared_classes s) \<and>
     sorted_wrt (<) (deprecated_declared_classes s) \<and> om_ok (replaced_classes s)"

definition flat_pairs :: "(felt \<times> felt) list \<Rightarrow> felt list" where
  "flat_pairs es = concat (map (\<lambda>(a, b). [a, b]) es)"

definition felt_len :: "'a list \<Rightarrow> felt" where
  "felt_len xs = felt (length xs)"

definition flat_storage :: "(felt \<times> (felt \<times> felt) list) list \<Rightarrow> felt list" where
  "flat_storage us = concat (map (\<lambda>(a, m). [a, felt_len m] @ flat_pairs m) us)"

definition state_diff_elements :: "(string \<Rightarrow> felt) \<Rightarrow> state_updates \<Rightarrow> felt list" where
  "state_diff_elements short_string s =
     [short_string ''STARKNET_STATE_DIFF0'']
     @ [felt_len (deployed_contracts s @ replaced_classes s)]
     @ flat_pairs (deployed_contracts s @ replaced_classes s)
     @ [felt_len (declared_classes s)] @ flat_pairs (declared_classes s)
     @ [felt_len (deprecated_declared_classes s)] @ deprecated_declared_classes s
     @ [1] @ [0]
     @ [felt_len (storage_updates s)] @ flat_storage (storage_updates s)
     @ [felt_len (nonce_updates s)] @ flat_pairs (nonce_updates s)"

definition compute_state_diff_hash ::
  "(felt list \<Rightarrow> felt) \<Rightarrow> (string \<Rightarrow> felt) \<Rightarrow> state_updates \<Rightarrow> felt" where
  "compute_state_diff_hash poseidon short_string s = poseidon (state_diff_elements short_string s)"

section \<open>The header determines its hash input\<close>

lemma unat_u128_less_prime: "unat (x :: u128) < stark_prime"
proof -
  have "unat x < 2 ^ 128"
    using unsigned_less [of x] by simp
  also have "\<dots> < stark_prime"
    by (simp add: stark_prime_def)
  finally show ?thesis .
qed

lemma unat_u64_less_prime: "unat (x :: u64) < stark_prime"
proof -
  have "unat x < 2 ^ 64"
    using unsigned_less [of x] by simp
  also have "\<dots> < stark_prime"
    by (simp add: stark_prime_def)
  finally show ?thesis .
qed

lemma felt_unat_u128_eq [simp]: "felt (unat (x :: u128)) = felt (unat y) \<longleftrightarrow> x = y"
  by (simp add: unat_u128_less_prime word_unat_eq_iff)

lemma felt_unat_u64_eq [simp]: "felt (unat (x :: u64)) = felt (unat y) \<longleftrightarrow> x = y"
  by (simp add: unat_u64_less_prime word_unat_eq_iff)

lemma length_to_64_bits [simp]: "length (to_64_bits n) = 8"
  by (simp add: to_64_bits_def)

lemma unat_u32_bound: "unat (n :: u32) < 2 ^ 32"
  using unsigned_less [of n] by simp

lemma to_64_bits_eq_iff [simp]: "to_64_bits m = to_64_bits n \<longleftrightarrow> m = n"
proof
  assume "to_64_bits m = to_64_bits n"
  then have "unat m = unat n"
    using unat_u32_bound [of m] unat_u32_bound [of n]
    by (intro be_bytes_inj [of 8]) (simp_all add: to_64_bits_def)
  then show "m = n" by (simp add: word_unat_eq_iff)
qed simp

lemma l1_da_byte_eq_iff [simp]: "l1_da_byte a = l1_da_byte b \<longleftrightarrow> a = b"
  by (cases a; cases b) (simp_all add: l1_da_byte_def)

lemma from_be_bytes_to_64_bits: "from_be_bytes (to_64_bits n) = unat n"
  using unat_u32_bound [of n] by (simp add: to_64_bits_def from_be_bytes_be_bytes)

text \<open>The first four of the 32 bytes are zero, so no reduction modulo the prime takes place.\<close>

lemma concat_bytes_less_prime: "from_be_bytes (concat_bytes t e s m) < stark_prime"
proof -
  define rest where "rest = to_64_bits e @ to_64_bits s @ [l1_da_byte m] @ replicate 7 0"
  have len: "length rest = 24" by (simp add: rest_def)
  have "from_be_bytes (concat_bytes t e s m) = unat t * 256 ^ 24 + from_be_bytes rest"
    unfolding concat_bytes_def rest_def [symmetric] from_be_bytes_append [of "to_64_bits t"] len
      from_be_bytes_to_64_bits ..
  also have "\<dots> < (2 ^ 32 - 1) * 256 ^ 24 + 256 ^ 24"
    using from_be_bytes_bound [of rest] unat_u32_bound [of t] unfolding len
    by (intro add_le_less_mono mult_right_mono) auto
  also have "\<dots> < stark_prime"
    by (simp add: stark_prime_def)
  finally show ?thesis .
qed

lemma concat_counts_eq_iff [simp]:
  "concat_counts t e s m = concat_counts t' e' s' m' \<longleftrightarrow> t = t' \<and> e = e' \<and> s = s' \<and> m = m'"
proof
  assume "concat_counts t e s m = concat_counts t' e' s' m'"
  then have "from_be_bytes (concat_bytes t e s m) = from_be_bytes (concat_bytes t' e' s' m')"
    by (simp add: concat_counts_def felt_from_bytes_be_slice_def concat_bytes_less_prime)
  then have "concat_bytes t e s m = concat_bytes t' e' s' m'"
    by (rule from_be_bytes_inj [rotated]) (simp add: concat_bytes_def)
  then show "t = t' \<and> e = e' \<and> s = s' \<and> m = m'"
    by (simp add: concat_bytes_def)
qed simp

section \<open>The state diff determines its hash input\<close>

lemma flat_pairs_append_eq:
  "length xs = length ys \<Longrightarrow> flat_pairs xs @ r = flat_pairs ys @ r' \<Longrightarrow> xs = ys \<and> r = r'"
  by (induction xs ys rule: list_induct2) (auto simp: flat_pairs_def)

lemma felt_len_eq:
  "felt_len xs = felt_len ys \<Longrightarrow> length xs < stark_prime \<Longrightarrow> length ys < stark_prime \<Longrightarrow>
    length xs = length ys"
  by (simp add: felt_len_def)

lemma len_flat_pairs_eq:
  assumes "[felt_len xs] @ flat_pairs xs @ r = [felt_len ys] @ flat_pairs ys @ r'"
    "length xs < stark_prime" "length ys < stark_prime"
  shows "xs = ys \<and> r = r'"
proof -
  have "length xs = length ys" "flat_pairs xs @ r = flat_pairs ys @ r'"
    using assms felt_len_eq [of xs ys] by auto
  then show ?thesis by (rule flat_pairs_append_eq)
qed

lemma flat_storage_append_eq:
  assumes "length us = length vs" "flat_storage us @ r = flat_storage vs @ r'"
    "\<forall>(a, m) \<in> set us. length m < stark_prime" "\<forall>(a, m) \<in> set vs. length m < stark_prime"
  shows "us = vs \<and> r = r'"
  using assms
proof (induction us vs rule: list_induct2)
  case Nil
  then show ?case by (simp add: flat_storage_def)
next
  case (Cons u us v vs)
  obtain a m b n where uv: "u = (a, m)" "v = (b, n)"
    by (cases u, cases v)
  have "a = b" and "[felt_len m] @ flat_pairs m @ flat_storage us @ r
      = [felt_len n] @ flat_pairs n @ flat_storage vs @ r'"
    using Cons.prems(1) by (simp_all add: uv flat_storage_def)
  then have "m = n" "flat_storage us @ r = flat_storage vs @ r'"
    using len_flat_pairs_eq [of m "flat_storage us @ r" n "flat_storage vs @ r'"] Cons.prems(2,3)
    by (simp_all add: uv)
  with Cons \<open>a = b\<close> show ?case
    by (simp add: uv)
qed

text \<open>The sizes of an update fit the machine's \<open>usize\<close>.\<close>

definition state_updates_sized :: "state_updates \<Rightarrow> bool" where
  "state_updates_sized s \<longleftrightarrow> state_updates_len s < 2 ^ 64 \<and> length (storage_updates s) < 2 ^ 64"

lemma sized_storage:
  assumes "state_updates_sized s" "(a, m) \<in> set (storage_updates s)"
  shows "length m < stark_prime"
proof -
  have "length m \<le> sum_list (map (\<lambda>u. length (snd u)) (storage_updates s))"
    using assms(2) by (intro member_le_sum_list) force+
  also have "\<dots> < 2 ^ 64"
    using assms(1) by (simp add: state_updates_sized_def state_updates_len_def)
  also have "\<dots> < stark_prime" by (simp add: stark_prime_def)
  finally show ?thesis .
qed

lemma sized_lengths:
  assumes "state_updates_sized s"
  shows "length (deployed_contracts s @ replaced_classes s) < stark_prime"
    "length (declared_classes s) < stark_prime"
    "length (deprecated_declared_classes s) < stark_prime"
    "length (storage_updates s) < stark_prime"
    "length (nonce_updates s) < stark_prime"
proof -
  have "(2 :: nat) ^ 64 < stark_prime" by (simp add: stark_prime_def)
  then show "length (deployed_contracts s @ replaced_classes s) < stark_prime"
    "length (declared_classes s) < stark_prime"
    "length (deprecated_declared_classes s) < stark_prime"
    "length (storage_updates s) < stark_prime"
    "length (nonce_updates s) < stark_prime"
    using assms by (simp_all add: state_updates_sized_def state_updates_len_def)
qed

section \<open>Properties\<close>

text \<open>The input of the block hash determines the header: two headers with the same input are
  equal, when the short strings of different protocol versions are different felts.\<close>

theorem header_hash_input_determines_header:
  assumes "\<And>v w. short_string (protocol_version_to_string v) = short_string (protocol_version_to_string w)
      \<Longrightarrow> protocol_version_to_string v = protocol_version_to_string w"
    and "header_hash_elements short_string h = header_hash_elements short_string k"
  shows "(h :: header) = k"
proof -
  have "protocol_version_to_string (h_protocol_version h)
      = protocol_version_to_string (h_protocol_version k)"
    using assms by (simp add: header_hash_elements_def)
  then have "h_protocol_version h = h_protocol_version k"
    by (rule protocol_version_to_string_inj)
  moreover have "h_l1_gas_prices h = h_l1_gas_prices k"
    "h_l1_data_gas_prices h = h_l1_data_gas_prices k"
    using assms(2) by (auto simp: header_hash_elements_def intro: gas_prices.equality)
  ultimately show ?thesis
    using assms(2) by (intro header.equality) (simp_all add: header_hash_elements_def)
qed

text \<open>Two headers that differ in a count have different inputs; a version string is read as the number
  of its four segments.\<close>

theorem header_hash_input_determines_header_witness:
  "\<exists>short_string. header_hash_elements short_string header_default
     \<noteq> header_hash_elements short_string (header_default\<lparr>h_events_count := 1\<rparr>)"
proof -
  define segs where "segs v = (case v of ProtocolVersion a b c d \<Rightarrow> [a, b, c, d])" for v
  define num where "num v = from_be_bytes (segs v)" for v
  define ss where "ss str = felt (case protocol_version_parse str of Inl _ \<Rightarrow> 0 | Inr v \<Rightarrow> num v)" for str
  have ss: "ss (protocol_version_to_string v) = felt (num v)" for v
    by (simp add: ss_def version_parse_print)
  have len: "length (segs v) = 4" for v
    by (simp add: segs_def split: protocol_version.split)
  then have "num v < stark_prime" for v
    using from_be_bytes_bound [of "segs v"] by (simp add: num_def stark_prime_def)
  then have inj: "protocol_version_to_string v = protocol_version_to_string w"
    if "ss (protocol_version_to_string v) = ss (protocol_version_to_string w)" for v w
  proof -
    have "num v = num w"
      using that \<open>\<And>v. num v < stark_prime\<close> by (simp add: ss)
    then have "segs v = segs w"
      using from_be_bytes_inj [of "segs v" "segs w"] len by (simp add: num_def)
    then have "v = w" by (cases v; cases w) (simp add: segs_def)
    then show ?thesis by simp
  qed
  have "header_default \<noteq> header_default\<lparr>h_events_count := 1\<rparr>"
    by (simp add: header_default_def)
  then show ?thesis
    using header_hash_input_determines_header [of ss header_default "header_default\<lparr>h_events_count := 1\<rparr>"] inj
    by blast
qed

text \<open>The input of the state diff hash determines the nonce updates, the storage updates, the
  declared and the deprecated classes and the contract updates, deployed followed by replaced: no
  two different updates share an input by shifting an entry from one section to another.\<close>

theorem state_diff_hash_input_unambiguous:
  assumes "state_updates_sized s" "state_updates_sized t"
    and "state_diff_elements short_string s = state_diff_elements short_string t"
  shows "deployed_contracts s @ replaced_classes s = deployed_contracts t @ replaced_classes t \<and>
    declared_classes s = declared_classes t \<and>
    deprecated_declared_classes s = deprecated_declared_classes t \<and>
    storage_updates s = storage_updates t \<and> nonce_updates s = nonce_updates t"
proof -
  note len = sized_lengths [OF assms(1)] sized_lengths [OF assms(2)]
  define nonces where "nonces u = [felt_len (nonce_updates u)] @ flat_pairs (nonce_updates u)" for u :: state_updates
  define storage where "storage u = [felt_len (storage_updates u)] @ flat_storage (storage_updates u)
      @ nonces u" for u :: state_updates
  define old where "old u = [felt_len (deprecated_declared_classes u)]
      @ deprecated_declared_classes u @ [1, 0] @ storage u" for u :: state_updates
  define decl where "decl u = [felt_len (declared_classes u)] @ flat_pairs (declared_classes u)
      @ old u" for u :: state_updates
  let ?c = "\<lambda>u. deployed_contracts u @ replaced_classes u"
  have "[felt_len (?c s)] @ flat_pairs (?c s) @ decl s = [felt_len (?c t)] @ flat_pairs (?c t) @ decl t"
    using assms(3)
    by (simp add: state_diff_elements_def decl_def old_def storage_def nonces_def)
  then have 1: "?c s = ?c t" "decl s = decl t"
    using len_flat_pairs_eq len(1,6) by blast+
  then have 2: "declared_classes s = declared_classes t" "old s = old t"
    unfolding decl_def using len_flat_pairs_eq len(2,7) by blast+
  then have "length (deprecated_declared_classes s) = length (deprecated_declared_classes t)"
    using len(3,8) by (intro felt_len_eq) (simp_all add: old_def)
  with 2(2) have 3: "deprecated_declared_classes s = deprecated_declared_classes t"
    "storage s = storage t"
    by (simp_all add: old_def)
  then have "length (storage_updates s) = length (storage_updates t)"
    using len(4,9) by (intro felt_len_eq) (simp_all add: storage_def)
  moreover have "flat_storage (storage_updates s) @ nonces s = flat_storage (storage_updates t) @ nonces t"
    using 3(2) by (simp add: storage_def)
  ultimately have 4: "storage_updates s = storage_updates t" "nonces s = nonces t"
    using flat_storage_append_eq [of "storage_updates s" "storage_updates t" "nonces s" "nonces t"]
      sized_storage [OF assms(1)] sized_storage [OF assms(2)] by blast+
  then have "nonce_updates s = nonce_updates t"
    unfolding nonces_def using len_flat_pairs_eq [of _ "[]" _ "[]"] len(5,10) by simp
  with 1 2 3 4 show ?thesis by blast
qed

text \<open>An update of a nonce and the declaration of a class with the same two felts.\<close>

theorem state_diff_hash_input_unambiguous_witness:
  "state_diff_elements (\<lambda>_. 0) (state_updates_default\<lparr>nonce_updates := [(1, 1)]\<rparr>)
     \<noteq> state_diff_elements (\<lambda>_. 0) (state_updates_default\<lparr>declared_classes := [(1, 1)]\<rparr>)"
proof
  let ?s = "state_updates_default\<lparr>nonce_updates := [(1, 1)]\<rparr>"
  let ?t = "state_updates_default\<lparr>declared_classes := [(1, 1)]\<rparr>"
  assume eq: "state_diff_elements (\<lambda>_. 0) ?s = state_diff_elements (\<lambda>_. 0) ?t"
  have sized: "state_updates_sized ?s" "state_updates_sized ?t"
    by (simp_all add: state_updates_sized_def state_updates_len_def state_updates_default_def)
  show False
    using state_diff_hash_input_unambiguous [OF sized eq] by (simp add: state_updates_default_def)
qed

end
