(* ===== verification/Kv_Table.thy ===== *)
theory Kv_Table
  imports Codec Ordered_Map "HOL-Library.Sublist"
begin

text \<open>
  The key-value tables of the database crate, as the traits of \<open>abstraction/{transaction,cursor}.rs\<close>
  document them and \<open>mdbx/{tx,cursor}.rs\<close> call them: every operation encodes the key and works on
  a B-tree ordered by the encoded bytes.  A table with duplicates (\<open>DupSort\<close>) keeps for every key
  the set of its values ordered by their compressed bytes; a value is kept beside its bytes.
  Failures of the storage device are not modelled, so the operations return plain values.

  The interface \<open>table_key\<close> gives the lookups of a table after an update; the interface \<open>subkeyed\<close>
  states what makes \<open>seek_by_key_subkey\<close> find the value with a given subkey: the compressed value
  starts with the encoded subkey and no encoded subkey is a prefix of another.
\<close>

section \<open>Tables\<close>

type_synonym 'v table = "(bytes, 'v) ordered_map"

definition tbl_get :: "('k \<Rightarrow> bytes) \<Rightarrow> 'v table \<Rightarrow> 'k \<Rightarrow> 'v option" where
  "tbl_get enc t k = om_get t (enc k)"

definition tbl_put :: "('k \<Rightarrow> bytes) \<Rightarrow> 'k \<Rightarrow> 'v \<Rightarrow> 'v table \<Rightarrow> 'v table" where
  "tbl_put enc k v t = om_insert (enc k) v t"

text \<open>\<open>delete(key, None)\<close>: the flag says whether the key was present.\<close>

definition tbl_delete :: "('k \<Rightarrow> bytes) \<Rightarrow> 'k \<Rightarrow> 'v table \<Rightarrow> 'v table \<times> bool" where
  "tbl_delete enc k t = (om_remove (enc k) t, om_get t (enc k) \<noteq> None)"

definition tbl_entries :: "'v table \<Rightarrow> nat" where
  "tbl_entries t = length t"

definition tbl_clear :: "'v table \<Rightarrow> 'v table" where
  "tbl_clear t = []"

definition tbl_first :: "'v table \<Rightarrow> (bytes \<times> 'v) option" where
  "tbl_first t = (case t of [] \<Rightarrow> None | e # _ \<Rightarrow> Some e)"

definition tbl_last :: "'v table \<Rightarrow> (bytes \<times> 'v) option" where
  "tbl_last t = (if t = [] then None else Some (last t))"

definition tbl_seek :: "('k \<Rightarrow> bytes) \<Rightarrow> 'v table \<Rightarrow> 'k \<Rightarrow> (bytes \<times> 'v) option" where
  "tbl_seek enc t k = find (\<lambda>e. enc k \<le> fst e) t"

text \<open>\<open>walk(start_key)\<close>: the entries the walker yields.\<close>

definition tbl_walk :: "('k \<Rightarrow> bytes) \<Rightarrow> 'v table \<Rightarrow> 'k option \<Rightarrow> (bytes \<times> 'v) list" where
  "tbl_walk enc t start =
     (case start of None \<Rightarrow> t | Some k \<Rightarrow> dropWhile (\<lambda>e. fst e < enc k) t)"

section \<open>Tables with duplicates\<close>

type_synonym 'v dup_table = "(bytes, (bytes, 'v) ordered_map) ordered_map"

definition dup_values :: "('k \<Rightarrow> bytes) \<Rightarrow> 'v dup_table \<Rightarrow> 'k \<Rightarrow> (bytes, 'v) ordered_map" where
  "dup_values enc t k = (case om_get t (enc k) of None \<Rightarrow> [] | Some vs \<Rightarrow> vs)"

definition dup_put ::
  "('k \<Rightarrow> bytes) \<Rightarrow> ('v \<Rightarrow> bytes) \<Rightarrow> 'k \<Rightarrow> 'v \<Rightarrow> 'v dup_table \<Rightarrow> 'v dup_table" where
  "dup_put enc com k v t = om_insert (enc k) (om_insert (com v) v (dup_values enc t k)) t"

text \<open>\<open>seek_by_key_subkey\<close> positions the cursor at the first value of the key whose bytes are at
  or above the encoded subkey; the position is the value's bytes.\<close>

definition seek_by_key_subkey ::
  "('k \<Rightarrow> bytes) \<Rightarrow> ('s \<Rightarrow> bytes) \<Rightarrow> 'v dup_table \<Rightarrow> 'k \<Rightarrow> 's \<Rightarrow> (bytes \<times> 'v) option" where
  "seek_by_key_subkey enc sub t k s = find (\<lambda>e. sub s \<le> fst e) (dup_values enc t k)"

text \<open>\<open>delete_current\<close> at the position of a value of \<open>k\<close>: a key without values disappears.\<close>

definition delete_current :: "('k \<Rightarrow> bytes) \<Rightarrow> 'k \<Rightarrow> bytes \<Rightarrow> 'v dup_table \<Rightarrow> 'v dup_table" where
  "delete_current enc k pos t =
     (let vs = om_remove pos (dup_values enc t k)
      in if vs = [] then om_remove (enc k) t else om_insert (enc k) vs t)"

text \<open>\<open>walk_dup(Some(key), None)\<close>: \<open>None\<close> when the key has no entry.\<close>

definition walk_dup :: "('k \<Rightarrow> bytes) \<Rightarrow> 'v dup_table \<Rightarrow> 'k \<Rightarrow> 'v list option" where
  "walk_dup enc t k = map_option (map snd) (om_get t (enc k))"

definition dup_entries_count :: "'v dup_table \<Rightarrow> nat" where
  "dup_entries_count t = sum_list (map (\<lambda>e. length (snd e)) t)"

text \<open>The invariant of a table with duplicates: no key without a value, the values of a key in
  order, each beside its own bytes.\<close>

definition dup_ok :: "('v \<Rightarrow> bytes) \<Rightarrow> 'v dup_table \<Rightarrow> bool" where
  "dup_ok com t \<longleftrightarrow>
     om_ok t \<and>
     (\<forall>(k, vs) \<in> set t. vs \<noteq> [] \<and> om_ok vs \<and> (\<forall>(b, v) \<in> set vs. b = com v))"

section \<open>Lookups after updates\<close>

context table_key
begin

lemma get_put:
  "valid k \<Longrightarrow> valid k' \<Longrightarrow>
    tbl_get enc (tbl_put enc k v t) k' = (if k' = k then Some v else tbl_get enc t k')"
  using enc_eq_iff [of k k'] by (auto simp: tbl_get_def tbl_put_def)

lemma get_delete:
  "valid k \<Longrightarrow> valid k' \<Longrightarrow>
    tbl_get enc (fst (tbl_delete enc k t)) k' = (if k' = k then None else tbl_get enc t k')"
  using enc_eq_iff [of k k'] by (auto simp: tbl_get_def tbl_delete_def)

lemma values_put:
  "valid k \<Longrightarrow> valid k' \<Longrightarrow>
    dup_values enc (dup_put enc com k v t) k' =
      (if k' = k then om_insert (com v) v (dup_values enc t k) else dup_values enc t k')"
  using enc_eq_iff [of k k'] by (auto simp: dup_values_def dup_put_def)

lemma values_delete_current:
  "valid k \<Longrightarrow> valid k' \<Longrightarrow>
    dup_values enc (delete_current enc k pos t) k' =
      (if k' = k then om_remove pos (dup_values enc t k) else dup_values enc t k')"
  using enc_eq_iff [of k k'] by (auto simp: dup_values_def delete_current_def Let_def)

end

lemmas u64_table [table_simps] =
  u64_codec.key.get_put [OF TrueI TrueI] u64_codec.key.values_put [OF TrueI TrueI]

lemmas felt_table [table_simps] =
  felt_codec.key.get_put [OF TrueI TrueI] felt_codec.key.values_put [OF TrueI TrueI]
  felt_codec.key.values_delete_current [OF TrueI TrueI]

lemma storage_key_get_put [table_simps]:
  "tbl_get encode_contract_storage_key (tbl_put encode_contract_storage_key k v t) k'
    = (if k' = k then Some v else tbl_get encode_contract_storage_key t k')"
  by (rule storage_key_codec.key.get_put [of "\<lambda>a. a"]) simp_all

interpretation string_key: table_key encode_string "\<lambda>_. True"
  by unfold_locales simp

lemmas string_table [table_simps] = string_key.get_put [OF TrueI TrueI]

section \<open>Invariants of the operations\<close>

lemma om_ok_tbl_put [simp]: "om_ok t \<Longrightarrow> om_ok (tbl_put enc k v t)"
  by (simp add: tbl_put_def)

lemma om_ok_tbl_delete [simp]: "om_ok t \<Longrightarrow> om_ok (fst (tbl_delete enc k t))"
  by (simp add: tbl_delete_def)

lemma dup_ok_Nil [simp]: "dup_ok com []"
  by (simp add: dup_ok_def)

lemma dup_ok_om_ok: "dup_ok com t \<Longrightarrow> om_ok t"
  by (simp add: dup_ok_def)

lemma dup_ok_values:
  assumes "dup_ok com t"
  shows "om_ok (dup_values enc t k)" "(b, v) \<in> set (dup_values enc t k) \<Longrightarrow> b = com v"
proof -
  have "om_ok (dup_values enc t k) \<and> (\<forall>(b, v) \<in> set (dup_values enc t k). b = com v)"
  proof (cases "om_get t (enc k)")
    case None
    then show ?thesis by (simp add: dup_values_def)
  next
    case (Some vs)
    then have "(enc k, vs) \<in> set t"
      by (simp add: om_get_def map_of_SomeD)
    with assms have "om_ok vs \<and> (\<forall>(b, v) \<in> set vs. b = com v)"
      unfolding dup_ok_def by fast
    with Some show ?thesis by (simp add: dup_values_def)
  qed
  then show "om_ok (dup_values enc t k)" "(b, v) \<in> set (dup_values enc t k) \<Longrightarrow> b = com v"
    by auto
qed

lemma set_om_insert_subset: "set (om_insert k v m) \<subseteq> insert (k, v) (set m)"
  by (induction m rule: om_insert.induct) auto

lemma dup_ok_insert:
  assumes "dup_ok com t" "vs \<noteq> []" "om_ok vs" "\<forall>(b, v) \<in> set vs. b = com v"
  shows "dup_ok com (om_insert k vs t)"
proof -
  have "om_ok (om_insert k vs t)"
    using assms(1) by (simp add: dup_ok_def)
  moreover have "us \<noteq> [] \<and> om_ok us \<and> (\<forall>(b, v) \<in> set us. b = com v)"
    if "(j, us) \<in> set (om_insert k vs t)" for j us
    using that set_om_insert_subset [of k vs t] assms unfolding dup_ok_def by blast
  ultimately show ?thesis
    unfolding dup_ok_def by blast
qed

lemma dup_ok_put [simp]:
  assumes "dup_ok com t"
  shows "dup_ok com (dup_put enc com k v t)"
  unfolding dup_put_def
proof (rule dup_ok_insert [OF assms])
  show "om_ok (om_insert (com v) v (dup_values enc t k))"
    using dup_ok_values(1) [OF assms, of enc k] by simp
  show "\<forall>(b, w) \<in> set (om_insert (com v) v (dup_values enc t k)). b = com w"
    using dup_ok_values(2) [OF assms, of _ _ enc k]
      set_om_insert_subset [of "com v" v "dup_values enc t k"] by fast
qed simp

lemma dup_ok_delete_current [simp]:
  assumes "dup_ok com t"
  shows "dup_ok com (delete_current enc k pos t)"
proof (cases "om_remove pos (dup_values enc t k) = []")
  case True
  then show ?thesis
    using assms by (auto simp: delete_current_def dup_ok_def om_remove_def om_ok_remove [unfolded om_remove_def])
next
  case False
  have "\<forall>(b, v) \<in> set (om_remove pos (dup_values enc t k)). b = com v"
    using dup_ok_values(2) [OF assms, of _ _ enc k] by (auto simp: om_remove_def)
  then have "dup_ok com (om_insert (enc k) (om_remove pos (dup_values enc t k)) t)"
    using False dup_ok_values(1) [OF assms, of enc k] by (intro dup_ok_insert [OF assms]) simp_all
  with False show ?thesis by (simp add: delete_current_def Let_def)
qed

lemma walk_dup_values:
  "(case walk_dup enc t k of None \<Rightarrow> [] | Some vs \<Rightarrow> vs) = map snd (dup_values enc t k)"
  by (simp add: walk_dup_def dup_values_def split: option.split)

section \<open>Finding a value by its subkey\<close>

text \<open>Between a string and its extensions lie only its extensions.\<close>

lemma between_prefix:
  "(xs :: 'a :: linorder list) \<le> ys \<Longrightarrow> ys \<le> xs @ zs \<Longrightarrow> \<exists>us. ys = xs @ us"
proof (induction xs arbitrary: ys)
  case Nil
  then show ?case by simp
next
  case (Cons x xs)
  then obtain y ys' where ys: "ys = y # ys'"
    by (cases ys) auto
  with Cons.prems have "y = x" "xs \<le> ys'" "ys' \<le> xs @ zs"
    by auto
  with Cons.IH [of ys'] ys show ?case by auto
qed

text \<open>The value with a given subkey among the values of a key: what a reader that checks the
  subkey of the value it is given obtains.\<close>

definition dup_lookup :: "('v \<Rightarrow> 's) \<Rightarrow> (bytes, 'v) ordered_map \<Rightarrow> 's \<Rightarrow> 'v option" where
  "dup_lookup key_of vs s = map_option snd (find (\<lambda>e. key_of (snd e) = s) vs)"

definition dup_distinct :: "('v \<Rightarrow> 's) \<Rightarrow> (bytes, 'v) ordered_map \<Rightarrow> bool" where
  "dup_distinct key_of vs \<longleftrightarrow> distinct (map (\<lambda>e. key_of (snd e)) vs)"

lemma dup_lookup_Nil [simp]: "dup_lookup key_of [] s = None"
  by (simp add: dup_lookup_def)

lemma dup_distinct_Nil [simp]: "dup_distinct key_of []"
  by (simp add: dup_distinct_def)

lemma dup_lookup_None_iff:
  "dup_lookup key_of vs s = None \<longleftrightarrow> (\<forall>v \<in> snd ` set vs. key_of v \<noteq> s)"
  by (force simp: dup_lookup_def find_None_iff)

lemma dup_lookup_key: "dup_lookup key_of vs s = Some v \<Longrightarrow> key_of v = s"
  by (auto simp: dup_lookup_def dest: find_Some_in)

lemma dup_lookup_in: "dup_lookup key_of vs s = Some v \<Longrightarrow> v \<in> snd ` set vs"
  by (force simp: dup_lookup_def dest: find_Some_in)

lemma dup_lookup_distinct:
  "dup_distinct key_of vs \<Longrightarrow> v \<in> snd ` set vs \<Longrightarrow> dup_lookup key_of vs (key_of v) = Some v"
  by (induction vs) (auto simp: dup_lookup_def dup_distinct_def)

lemma dup_lookup_insert_fresh:
  assumes "dup_lookup key_of vs (key_of v) = None" "b \<notin> fst ` set vs"
  shows "dup_lookup key_of (om_insert b v vs) s =
    (if s = key_of v then Some v else dup_lookup key_of vs s)"
  using assms
  by (induction b v vs rule: om_insert.induct) (auto simp: dup_lookup_def split: if_splits)

lemma mset_om_insert_fresh:
  "b \<notin> fst ` set vs \<Longrightarrow> mset (om_insert b v vs) = add_mset (b, v) (mset vs)"
  by (induction b v vs rule: om_insert.induct) auto

lemma dup_distinct_insert_fresh:
  assumes "dup_lookup key_of vs (key_of v) = None" "b \<notin> fst ` set vs" "dup_distinct key_of vs"
  shows "dup_distinct key_of (om_insert b v vs)"
proof -
  let ?f = "\<lambda>e. key_of (snd e)"
  have "mset (map ?f (om_insert b v vs)) = mset (map ?f ((b, v) # vs))"
    using mset_om_insert_fresh [OF assms(2), of v] by simp
  moreover have "distinct (map ?f ((b, v) # vs))"
    using assms(1,3) by (auto simp: dup_distinct_def dup_lookup_None_iff)
  ultimately show ?thesis
    unfolding dup_distinct_def using mset_eq_imp_distinct_iff by blast
qed

lemma dup_lookup_remove:
  assumes "dup_distinct key_of vs" "om_ok vs" "(pos, w) \<in> set vs" 
  shows "dup_lookup key_of (om_remove pos vs) s =
    (if s = key_of w then None else dup_lookup key_of vs s)"
  using assms
proof (induction vs)
  case Nil
  then show ?case by simp
next
  case (Cons e vs)
  obtain b u where e: "e = (b, u)" by (cases e)
  show ?case
  proof (cases "b = pos")
    case True
    with Cons.prems e have "pos \<notin> fst ` set vs" "u = w"
      by (force simp: om_ok_Cons)+
    moreover from this(1) have "om_remove pos vs = vs"
      by (force simp: om_remove_def filter_id_conv)
    ultimately show ?thesis
      using Cons.prems(1) True e
      by (force simp: om_remove_def dup_lookup_def dup_distinct_def find_None_iff)
  next
    case False
    with Cons e have "dup_lookup key_of (om_remove pos vs) s =
      (if s = key_of w then None else dup_lookup key_of vs s)"
      by (auto simp: dup_distinct_def)
    moreover have "key_of u \<noteq> key_of w"
      using False e Cons.prems(1,3) by (force simp: dup_distinct_def)
    ultimately show ?thesis
      using False e by (auto simp: om_remove_def dup_lookup_def)
  qed
qed

lemma dup_distinct_remove: "dup_distinct key_of vs \<Longrightarrow> dup_distinct key_of (om_remove pos vs)"
  by (induction vs) (auto simp: dup_distinct_def om_remove_def)

text \<open>The interface: a compressed value begins with its encoded subkey.\<close>

locale subkeyed =
  fixes sub :: "'s \<Rightarrow> bytes"
    and com :: "'v \<Rightarrow> bytes"
    and key_of :: "'v \<Rightarrow> 's"
    and valid :: "'s \<Rightarrow> bool"
  assumes com_prefix: "prefix (sub (key_of v)) (com v)"
    and prefix_free: "valid s \<Longrightarrow> valid s' \<Longrightarrow> prefix (sub s) (sub s' @ t) \<Longrightarrow> s = s'"
begin

lemma seek_is_lookup:
  assumes "om_ok vs" "\<forall>(b, v) \<in> set vs. b = com v \<and> valid (key_of v)" "valid s"
  shows "(case find (\<lambda>e. sub s \<le> fst e) vs of
            None \<Rightarrow> None
          | Some (b, w) \<Rightarrow> if key_of w = s then Some w else None) = dup_lookup key_of vs s"
  using assms(1,2)
proof (induction vs)
  case Nil
  then show ?case by simp
next
  case (Cons e vs)
  obtain b w where e: "e = (b, w)" by (cases e)
  have b: "b = com w" "valid (key_of w)"
    using Cons.prems e by auto
  show ?case
  proof (cases "sub s \<le> b")
    case False
    then have "key_of w \<noteq> s"
      using com_prefix [of w] b by (auto simp: prefix_def)
    with False Cons e show ?thesis
      by (auto simp: dup_lookup_def)
  next
    case True
    have "key_of v \<noteq> s" if "key_of w \<noteq> s" "(c, v) \<in> set vs" for c v
    proof
      assume v: "key_of v = s"
      have "b < c"
        using that(2) Cons.prems(1) e by (auto simp: om_ok_Cons)
      moreover have "c = com v"
        using that(2) Cons.prems(2) by auto
      moreover obtain z where "com v = sub s @ z"
        using com_prefix [of v] v by (auto simp: prefix_def)
      ultimately have "b \<le> sub s @ z" by simp
      with True obtain us where "b = sub s @ us"
        using between_prefix by blast
      moreover obtain y where "com w = sub (key_of w) @ y"
        using com_prefix [of w] by (auto simp: prefix_def)
      ultimately have "prefix (sub s) (sub (key_of w) @ y)"
        using b by (auto simp: prefix_def)
      with prefix_free [OF assms(3) b(2)] that(1) show False by simp
    qed
    with True e show ?thesis
      by (force simp: dup_lookup_def find_None_iff)
  qed
qed

lemma seek_miss:
  assumes "om_ok vs" "\<forall>(b, v) \<in> set vs. b = com v \<and> valid (key_of v)" "valid s"
    "find (\<lambda>e. sub s \<le> fst e) vs = None"
  shows "dup_lookup key_of vs s = None"
  using seek_is_lookup [OF assms(1-3)] assms(4) by simp

lemma bytes_fresh:
  assumes "\<forall>(b, v) \<in> set vs. b = com v \<and> valid (key_of v)" "valid (key_of v)"
    "dup_lookup key_of vs (key_of v) = None"
  shows "com v \<notin> fst ` set vs"
proof
  assume "com v \<in> fst ` set vs"
  then obtain w where w: "(com v, w) \<in> set vs" by auto
  with assms(1) have "com v = com w" "valid (key_of w)" by auto
  moreover obtain y z where "com v = sub (key_of v) @ y" "com w = sub (key_of w) @ z"
    using com_prefix [of v] com_prefix [of w] by (auto simp: prefix_def)
  ultimately have "prefix (sub (key_of v)) (sub (key_of w) @ z)"
    by (metis prefixI)
  then have "key_of v = key_of w"
    by (rule prefix_free [OF assms(2) \<open>valid (key_of w)\<close>])
  with w assms(3) show False
    by (force simp: dup_lookup_None_iff)
qed

end


section \<open>A fresh change enters a history\<close>

context subkeyed
begin

lemma lookup_dup_put:
  assumes "dup_ok com t" "valid (key_of v)"
    "\<And>w. w \<in> snd ` set (dup_values encode_u64 t n) \<Longrightarrow> valid (key_of w)"
    "dup_lookup key_of (dup_values encode_u64 t n) (key_of v) = None"
  shows "dup_lookup key_of (dup_values encode_u64 (dup_put encode_u64 com n v t) m) s =
    (if m = n \<and> s = key_of v then Some v else dup_lookup key_of (dup_values encode_u64 t m) s)"
proof -
  have "\<forall>(b, w) \<in> set (dup_values encode_u64 t n). b = com w \<and> valid (key_of w)"
    using dup_ok_values(2) [OF assms(1), of _ _ encode_u64 n] assms(3) by force
  then have "com v \<notin> fst ` set (dup_values encode_u64 t n)"
    using bytes_fresh assms(2,4) by blast
  with assms(4) show ?thesis
    by (auto simp: table_simps dup_lookup_insert_fresh)
qed

lemma distinct_dup_put:
  assumes "dup_ok com t" "valid (key_of v)"
    "\<And>w. w \<in> snd ` set (dup_values encode_u64 t n) \<Longrightarrow> valid (key_of w)"
    "dup_lookup key_of (dup_values encode_u64 t n) (key_of v) = None"
    "\<And>m. dup_distinct key_of (dup_values encode_u64 t m)"
  shows "dup_distinct key_of (dup_values encode_u64 (dup_put encode_u64 com n v t) m)"
proof -
  have "\<forall>(b, w) \<in> set (dup_values encode_u64 t n). b = com w \<and> valid (key_of w)"
    using dup_ok_values(2) [OF assms(1), of _ _ encode_u64 n] assms(3) by force
  then have "com v \<notin> fst ` set (dup_values encode_u64 t n)"
    using bytes_fresh assms(2,4) by blast
  with assms(4,5) show ?thesis
    by (auto simp: table_simps dup_distinct_insert_fresh)
qed

end

context subkeyed
begin

text \<open>A seek for a subkey that is present finds its value; the check of the subkey succeeds.\<close>

lemma seek_present:
  assumes "dup_ok com t" "dup_lookup key_of (dup_values enc t n) s = Some w" "valid s"
    "\<And>w. w \<in> snd ` set (dup_values enc t n) \<Longrightarrow> valid (key_of w)"
  shows "\<exists>pos. seek_by_key_subkey enc sub t n s = Some (pos, w) \<and> key_of w = s"
proof -
  let ?vs = "dup_values enc t n"
  have vs: "om_ok ?vs" "\<forall>(b, v) \<in> set ?vs. b = com v \<and> valid (key_of v)"
    using dup_ok_values [OF assms(1), where enc = enc and k = n] assms(4) by force+
  have "(case find (\<lambda>e. sub s \<le> fst e) ?vs of None \<Rightarrow> None
      | Some (b, w) \<Rightarrow> if key_of w = s then Some w else None) = Some w"
    using seek_is_lookup [OF vs assms(3)] assms(2) by simp
  then show ?thesis
    by (auto simp: seek_by_key_subkey_def split: option.splits if_splits)
qed

end

section \<open>The subkeys of the state tables\<close>

lemma fixed_prefix_free:
  assumes "prefix xs (ys @ t)" "length xs = length ys"
  shows "xs = ys"
  using assms by (auto simp: prefix_def append_eq_append_conv)

interpretation storage_subkey: subkeyed encode_felt "compress_storage_entry pc" se_key "\<lambda>_. True"
proof unfold_locales
  show "prefix (encode_felt (se_key v)) (compress_storage_entry pc v)" for v
    by (simp add: compress_storage_entry_def encode_felt_def)
  show "s = s'" if "prefix (encode_felt s) (encode_felt s' @ t)" for s s' t
    using fixed_prefix_free [OF that] by simp
qed

interpretation nonce_subkey:
  subkeyed encode_felt "compress_nonce_change pc" cnc_contract_address "\<lambda>_. True"
proof unfold_locales
  show "prefix (encode_felt (cnc_contract_address v)) (compress_nonce_change pc v)" for v
    by (simp add: compress_nonce_change_def)
qed (rule storage_subkey.prefix_free)

interpretation class_subkey:
  subkeyed encode_felt "compress_class_change pc" ccc_contract_address "\<lambda>_. True"
proof unfold_locales
  show "prefix (encode_felt (ccc_contract_address v)) (compress_class_change pc v)" for v
    by (simp add: compress_class_change_def)
qed (rule storage_subkey.prefix_free)

interpretation storage_change_subkey:
  subkeyed encode_contract_storage_key "compress_contract_storage_entry pc" cse_key "\<lambda>_. True"
proof unfold_locales
  show "prefix (encode_contract_storage_key (cse_key v)) (compress_contract_storage_entry pc v)"
    for v by (simp add: compress_contract_storage_entry_def)
  show "s = s'"
    if "prefix (encode_contract_storage_key s) (encode_contract_storage_key s' @ t)" for s s' t
    using fixed_prefix_free [OF that] by simp
qed

interpretation trie_subkey:
  subkeyed encode_trie_key "compress_trie_history_entry pc" the_key
    "\<lambda>k. length (tk_key k) < 256"
proof unfold_locales
  show "prefix (encode_trie_key (the_key v)) (compress_trie_history_entry pc v)" for v
    by (simp add: compress_trie_history_entry_def)
  show "s = s'"
    if v: "length (tk_key s) < 256" "length (tk_key s') < 256"
      and p: "prefix (encode_trie_key s) (encode_trie_key s' @ t)" for s s' t
  proof -
    obtain u where "encode_trie_key s' @ t = encode_trie_key s @ u"
      using p by (auto simp: prefix_def)
    with trie_key_decode_append [OF v(1), of u] trie_key_decode_append [OF v(2), of t]
    show ?thesis by simp
  qed
qed

end
