(* ===== verification/Db_Provider.thy ===== *)
theory Db_Provider
  imports Primitives Kv_Table
begin

text \<open>
  The database schema (\<open>tables.rs\<close>) and the block side of the persistent storage provider
  (\<open>providers/db/mod.rs\<close>): every read of \<open>BlockNumberProvider\<close>, \<open>BlockHashProvider\<close>,
  \<open>HeaderProvider\<close>, \<open>BlockProvider\<close>, \<open>BlockStatusProvider\<close>, \<open>StateUpdateProvider\<close>,
  \<open>TransactionProvider\<close>, \<open>TransactionStatusProvider\<close>, \<open>TransactionTraceProvider\<close>,
  \<open>ReceiptProvider\<close>, \<open>BlockEnvProvider\<close>, the writer
  \<open>insert_block_with_states_and_receipts\<close> and the stage checkpoints.

  A provider operation is a function of the whole database.  The types of transactions, receipts,
  execution traces, contract classes and compiled classes are parameters, in this order.  The
  postcard form \<open>pc\<close> of a felt enters through the order of the duplicates.
\<close>

section \<open>The schema\<close>

record ('tx, 'rcpt, 'trace, 'cls, 'ccls) db =
  StageCheckpoints :: "stage_checkpoint table"
  Headers :: "header table"
  BlockHashes :: "block_hash table"
  BlockNumbers :: "block_number table"
  BlockStatusses :: "finality_status table"
  BlockBodyIndices :: "stored_block_body_indices table"
  TxNumbers :: "tx_number table"
  TxHashes :: "tx_hash table"
  Transactions :: "'tx table"
  TxBlocks :: "block_number table"
  TxTraces :: "'trace table"
  Receipts :: "'rcpt table"
  CompiledClassHashes :: "compiled_class_hash table"
  CompiledClasses :: "'ccls table"
  Classes :: "'cls table"
  ContractInfo :: "generic_contract_info table"
  ContractStorage :: "storage_entry dup_table"
  ClassDeclarationBlock :: "block_number table"
  ClassDeclarations :: "class_hash dup_table"
  ContractInfoChangeSet :: "contract_info_change_list table"
  NonceChangeHistory :: "contract_nonce_change dup_table"
  ClassChangeHistory :: "contract_class_change dup_table"
  StorageChangeSet :: "block_list table"
  StorageChangeHistory :: "contract_storage_entry dup_table"
  ClassesTrie :: "bytes table"
  ContractsTrie :: "bytes table"
  StoragesTrie :: "bytes table"
  ClassesTrieHistory :: "trie_history_entry dup_table"
  ContractsTrieHistory :: "trie_history_entry dup_table"
  StoragesTrieHistory :: "trie_history_entry dup_table"
  ClassesTrieChangeSet :: "block_list table"
  ContractsTrieChangeSet :: "block_list table"
  StoragesTrieChangeSet :: "block_list table"

definition empty_db :: "('tx, 'rcpt, 'trace, 'cls, 'ccls) db" where
  "empty_db =
     \<lparr>StageCheckpoints = [], Headers = [], BlockHashes = [], BlockNumbers = [], BlockStatusses = [],
      BlockBodyIndices = [], TxNumbers = [], TxHashes = [], Transactions = [], TxBlocks = [],
      TxTraces = [], Receipts = [], CompiledClassHashes = [], CompiledClasses = [], Classes = [],
      ContractInfo = [], ContractStorage = [], ClassDeclarationBlock = [], ClassDeclarations = [],
      ContractInfoChangeSet = [], NonceChangeHistory = [], ClassChangeHistory = [],
      StorageChangeSet = [], StorageChangeHistory = [], ClassesTrie = [], ContractsTrie = [],
      StoragesTrie = [], ClassesTrieHistory = [], ContractsTrieHistory = [],
      StoragesTrieHistory = [], ClassesTrieChangeSet = [], ContractsTrieChangeSet = [],
      StoragesTrieChangeSet = []\<rparr>"

datatype provider_error =
    ParsingError string
  | MissingLatestBlockHash
  | MissingLatestBlockNumber
  | MissingBlockHash block_number
  | MissingBlockHeader block_number
  | MissingBlockTxs block_number
  | MissingBlockBodyIndices block_number
  | MissingBlockStatus block_number
  | MissingTx tx_number
  | MissingTxBlock tx_number
  | MissingTxHash tx_number
  | MissingTxReceipt tx_number
  | MissingTxExecution tx_number
  | MissingCompiledClassHash class_hash
  | MissingContractClassChangeEntry block_number contract_address
  | MissingContractNonceChangeEntry block_number contract_address
  | MissingStorageChangeEntry block_number contract_address storage_key
  | StateProofNotSupported
  | StateRootNotFound
  | Other string

type_synonym 'a provider_result = "('a, provider_error) result"

section \<open>Block numbers, hashes and headers\<close>

definition block_number_by_hash ::
  "('tx, 'rcpt, 'trace, 'cls, 'ccls) db \<Rightarrow> block_hash \<Rightarrow> block_number option provider_result" where
  "block_number_by_hash d hash = Ok (tbl_get encode_felt (BlockNumbers d) hash)"

text \<open>The key of the last entry is decoded from its bytes.\<close>

definition latest_number ::
  "('tx, 'rcpt, 'trace, 'cls, 'ccls) db \<Rightarrow> block_number provider_result" where
  "latest_number d =
     ok_or (map_option (\<lambda>(key, _). of_nat (from_be_bytes key)) (tbl_last (BlockHashes d)))
       MissingLatestBlockNumber"

definition latest_hash ::
  "('tx, 'rcpt, 'trace, 'cls, 'ccls) db \<Rightarrow> block_hash provider_result" where
  "latest_hash d =
     and_then (latest_number d) (\<lambda>latest_block.
       ok_or (tbl_get encode_u64 (BlockHashes d) latest_block) MissingLatestBlockHash)"

definition block_hash_by_num ::
  "('tx, 'rcpt, 'trace, 'cls, 'ccls) db \<Rightarrow> block_number \<Rightarrow> block_hash option provider_result" where
  "block_hash_by_num d num = Ok (tbl_get encode_u64 (BlockHashes d) num)"

definition block_hash_by_id ::
  "('tx, 'rcpt, 'trace, 'cls, 'ccls) db \<Rightarrow> block_hash_or_number
    \<Rightarrow> block_hash option provider_result" where
  "block_hash_by_id d i =
     (case i of Hash hash \<Rightarrow> Ok (Some hash) | Num number \<Rightarrow> block_hash_by_num d number)"

definition block_number_by_id ::
  "('tx, 'rcpt, 'trace, 'cls, 'ccls) db \<Rightarrow> block_hash_or_number
    \<Rightarrow> block_number option provider_result" where
  "block_number_by_id d i =
     (case i of Num number \<Rightarrow> Ok (Some number) | Hash hash \<Rightarrow> block_number_by_hash d hash)"

text \<open>The match on the block id that several reads start with.\<close>

definition resolve_id ::
  "('tx, 'rcpt, 'trace, 'cls, 'ccls) db \<Rightarrow> block_hash_or_number \<Rightarrow> block_number option" where
  "resolve_id d i =
     (case i of Num num \<Rightarrow> Some num | Hash hash \<Rightarrow> tbl_get encode_felt (BlockNumbers d) hash)"

definition header_of ::
  "('tx, 'rcpt, 'trace, 'cls, 'ccls) db \<Rightarrow> block_hash_or_number
    \<Rightarrow> header option provider_result" where
  "header_of d i =
     (case resolve_id d i of
        Some num \<Rightarrow>
          and_then (ok_or (tbl_get encode_u64 (Headers d) num) (MissingBlockHeader num))
            (\<lambda>h. Ok (Some h))
      | None \<Rightarrow> Ok None)"

section \<open>Transactions\<close>

definition block_body_indices ::
  "('tx, 'rcpt, 'trace, 'cls, 'ccls) db \<Rightarrow> block_hash_or_number
    \<Rightarrow> stored_block_body_indices option provider_result" where
  "block_body_indices d i =
     (case resolve_id d i of
        Some num \<Rightarrow> Ok (tbl_get encode_u64 (BlockBodyIndices d) num)
      | None \<Rightarrow> Ok None)"

definition transaction_in_range ::
  "('tx, 'rcpt, 'trace, 'cls, 'ccls) db \<Rightarrow> u64 \<times> u64 \<Rightarrow> 'tx tx_with_hash list provider_result" where
  "transaction_in_range d r =
     collect_map (\<lambda>i.
       case tbl_get encode_u64 (Transactions d) i of
         None \<Rightarrow> Ok None
       | Some transaction \<Rightarrow>
           and_then (ok_or (tbl_get encode_u64 (TxHashes d) i) (MissingTxHash i)) (\<lambda>hash.
             Ok (Some \<lparr>twh_hash = hash, twh_transaction = transaction\<rparr>)))
       (range_u64 (fst r) (snd r))"

definition transactions_by_block ::
  "('tx, 'rcpt, 'trace, 'cls, 'ccls) db \<Rightarrow> block_hash_or_number
    \<Rightarrow> 'tx tx_with_hash list option provider_result" where
  "transactions_by_block d i =
     and_then (block_body_indices d i) (\<lambda>io.
       case io of
         Some indices \<Rightarrow> map_ok Some (transaction_in_range d (body_indices_range indices))
       | None \<Rightarrow> Ok None)"

definition transaction_hashes_in_range ::
  "('tx, 'rcpt, 'trace, 'cls, 'ccls) db \<Rightarrow> u64 \<times> u64 \<Rightarrow> tx_hash list provider_result" where
  "transaction_hashes_in_range d r =
     collect_map (\<lambda>i. Ok (tbl_get encode_u64 (TxHashes d) i)) (range_u64 (fst r) (snd r))"

definition transaction_by_hash ::
  "('tx, 'rcpt, 'trace, 'cls, 'ccls) db \<Rightarrow> tx_hash \<Rightarrow> 'tx tx_with_hash option provider_result" where
  "transaction_by_hash d hash =
     (case tbl_get encode_felt (TxNumbers d) hash of
        Some num \<Rightarrow>
          and_then (ok_or (tbl_get encode_u64 (Transactions d) num) (MissingTx num)) (\<lambda>transaction.
            Ok (Some \<lparr>twh_hash = hash, twh_transaction = transaction\<rparr>))
      | None \<Rightarrow> Ok None)"

text \<open>The missing block hash is reported with the number of the transaction, as in the source.\<close>

definition transaction_block_num_and_hash ::
  "('tx, 'rcpt, 'trace, 'cls, 'ccls) db \<Rightarrow> tx_hash
    \<Rightarrow> (block_number \<times> block_hash) option provider_result" where
  "transaction_block_num_and_hash d hash =
     (case tbl_get encode_felt (TxNumbers d) hash of
        Some num \<Rightarrow>
          and_then (ok_or (tbl_get encode_u64 (TxBlocks d) num) (MissingTxBlock num)) (\<lambda>block_num.
            and_then (ok_or (tbl_get encode_u64 (BlockHashes d) block_num) (MissingBlockHash num))
              (\<lambda>block_hash. Ok (Some (block_num, block_hash))))
      | None \<Rightarrow> Ok None)"

definition transaction_by_block_and_idx ::
  "('tx, 'rcpt, 'trace, 'cls, 'ccls) db \<Rightarrow> block_hash_or_number \<Rightarrow> u64
    \<Rightarrow> 'tx tx_with_hash option provider_result" where
  "transaction_by_block_and_idx d i idx =
     and_then (block_body_indices d i) (\<lambda>io.
       case io of
         Some indices \<Rightarrow>
           if idx < tx_count indices
           then let num = tx_offset indices + idx
                in and_then (ok_or (tbl_get encode_u64 (TxHashes d) num) (MissingTxHash num)) (\<lambda>hash.
                   and_then (ok_or (tbl_get encode_u64 (Transactions d) num) (MissingTx num)) (\<lambda>tx.
                     Ok (Some \<lparr>twh_hash = hash, twh_transaction = tx\<rparr>)))
           else Ok None
       | None \<Rightarrow> Ok None)"

definition transaction_count_by_block ::
  "('tx, 'rcpt, 'trace, 'cls, 'ccls) db \<Rightarrow> block_hash_or_number \<Rightarrow> u64 option provider_result" where
  "transaction_count_by_block d i = map_ok (map_option tx_count) (block_body_indices d i)"

definition transaction_status ::
  "('tx, 'rcpt, 'trace, 'cls, 'ccls) db \<Rightarrow> tx_hash \<Rightarrow> finality_status option provider_result" where
  "transaction_status d hash =
     (case tbl_get encode_felt (TxNumbers d) hash of
        Some num \<Rightarrow>
          and_then (ok_or (tbl_get encode_u64 (TxBlocks d) num) (MissingTxBlock num)) (\<lambda>block_num.
            and_then (ok_or (tbl_get encode_u64 (BlockStatusses d) block_num)
                (MissingBlockStatus block_num))
              (\<lambda>status. Ok (Some status)))
      | None \<Rightarrow> Ok None)"

definition transaction_execution ::
  "('tx, 'rcpt, 'trace, 'cls, 'ccls) db \<Rightarrow> tx_hash \<Rightarrow> 'trace option provider_result" where
  "transaction_execution d hash =
     (case tbl_get encode_felt (TxNumbers d) hash of
        Some num \<Rightarrow>
          and_then (ok_or (tbl_get encode_u64 (TxTraces d) num) (MissingTxExecution num))
            (\<lambda>execution. Ok (Some execution))
      | None \<Rightarrow> Ok None)"

definition transaction_executions_in_range ::
  "('tx, 'rcpt, 'trace, 'cls, 'ccls) db \<Rightarrow> u64 \<times> u64 \<Rightarrow> 'trace list provider_result" where
  "transaction_executions_in_range d r =
     collect_map (\<lambda>i. Ok (tbl_get encode_u64 (TxTraces d) i)) (range_u64 (fst r) (snd r))"

definition transaction_executions_by_block ::
  "('tx, 'rcpt, 'trace, 'cls, 'ccls) db \<Rightarrow> block_hash_or_number
    \<Rightarrow> 'trace list option provider_result" where
  "transaction_executions_by_block d i =
     and_then (block_body_indices d i) (\<lambda>io.
       case io of
         Some index \<Rightarrow> map_ok Some (transaction_executions_in_range d (body_indices_range index))
       | None \<Rightarrow> Ok None)"

definition receipt_by_hash ::
  "('tx, 'rcpt, 'trace, 'cls, 'ccls) db \<Rightarrow> tx_hash \<Rightarrow> 'rcpt option provider_result" where
  "receipt_by_hash d hash =
     (case tbl_get encode_felt (TxNumbers d) hash of
        Some num \<Rightarrow>
          and_then (ok_or (tbl_get encode_u64 (Receipts d) num) (MissingTxReceipt num))
            (\<lambda>receipt. Ok (Some receipt))
      | None \<Rightarrow> Ok None)"

definition receipts_by_block ::
  "('tx, 'rcpt, 'trace, 'cls, 'ccls) db \<Rightarrow> block_hash_or_number
    \<Rightarrow> 'rcpt list option provider_result" where
  "receipts_by_block d i =
     and_then (block_body_indices d i) (\<lambda>io.
       case io of
         Some indices \<Rightarrow>
           map_ok Some
             (collect_map (\<lambda>j. Ok (tbl_get encode_u64 (Receipts d) j))
               (range_u64 (tx_offset indices) (tx_offset indices + tx_count indices)))
       | None \<Rightarrow> Ok None)"

section \<open>Blocks\<close>

definition block_of ::
  "('tx, 'rcpt, 'trace, 'cls, 'ccls) db \<Rightarrow> block_hash_or_number
    \<Rightarrow> 'tx block option provider_result" where
  "block_of d i =
     and_then (header_of d i) (\<lambda>ho.
       case ho of
         Some h \<Rightarrow>
           and_then (transactions_by_block d i) (\<lambda>res.
             and_then (ok_or res (MissingBlockTxs (h_number h))) (\<lambda>body.
               Ok (Some \<lparr>b_header = h, b_body = body\<rparr>)))
       | None \<Rightarrow> Ok None)"

definition block_with_tx_hashes_of ::
  "('tx, 'rcpt, 'trace, 'cls, 'ccls) db \<Rightarrow> block_hash_or_number
    \<Rightarrow> block_with_tx_hashes option provider_result" where
  "block_with_tx_hashes_of d i =
     (case resolve_id d i of
        None \<Rightarrow> Ok None
      | Some block_num \<Rightarrow>
          (case tbl_get encode_u64 (Headers d) block_num of
             None \<Rightarrow> Ok None
           | Some h \<Rightarrow>
               and_then (ok_or (tbl_get encode_u64 (BlockBodyIndices d) block_num)
                   (MissingBlockTxs block_num)) (\<lambda>body_indices.
                 and_then (transaction_hashes_in_range d (body_indices_range body_indices)) (\<lambda>body.
                   Ok (Some \<lparr>bth_header = h, bth_body = body\<rparr>)))))"

text \<open>\<open>None\<close>: the size of the range overflows.\<close>

definition blocks_in_range ::
  "('tx, 'rcpt, 'trace, 'cls, 'ccls) db \<Rightarrow> block_number \<Rightarrow> block_number
    \<Rightarrow> 'tx block list provider_result option" where
  "blocks_in_range d start stop =
     (if stop < start \<or> stop - start + 1 = 0 then None
      else Some (collect_map (\<lambda>num.
        case tbl_get encode_u64 (Headers d) num of
          None \<Rightarrow> Ok None
        | Some h \<Rightarrow>
            and_then (ok_or (tbl_get encode_u64 (BlockBodyIndices d) num)
                (MissingBlockBodyIndices num)) (\<lambda>body_indices.
              and_then (transaction_in_range d (body_indices_range body_indices)) (\<lambda>body.
                Ok (Some \<lparr>b_header = h, b_body = body\<rparr>))))
        (map of_nat [unat start ..< Suc (unat stop)])))"

definition block_status ::
  "('tx, 'rcpt, 'trace, 'cls, 'ccls) db \<Rightarrow> block_hash_or_number
    \<Rightarrow> finality_status option provider_result" where
  "block_status d i =
     (case resolve_id d i of
        Some block_num \<Rightarrow>
          and_then (ok_or (tbl_get encode_u64 (BlockStatusses d) block_num)
              (MissingBlockStatus block_num))
            (\<lambda>status. Ok (Some status))
      | None \<Rightarrow> Ok None)"

definition block_env_at ::
  "('tx, 'rcpt, 'trace, 'cls, 'ccls) db \<Rightarrow> block_hash_or_number
    \<Rightarrow> block_env option provider_result" where
  "block_env_at d i =
     and_then (header_of d i) (\<lambda>ho.
       case ho of
         None \<Rightarrow> Ok None
       | Some h \<Rightarrow>
           Ok (Some \<lparr>be_number = h_number h, be_timestamp = h_timestamp h,
                     be_l1_gas_prices = h_l1_gas_prices h,
                     be_l1_data_gas_prices = h_l1_data_gas_prices h,
                     be_sequencer_address = h_sequencer_address h\<rparr>))"

section \<open>State updates\<close>

text \<open>\<open>dup_entries\<close>: what the callback keeps of the entries of a key, as a list; the caller
  collects it into its container.\<close>

definition dup_entries ::
  "('k \<Rightarrow> bytes) \<Rightarrow> 'v dup_table \<Rightarrow> 'k \<Rightarrow> ('v \<Rightarrow> 'a option provider_result)
    \<Rightarrow> 'a list provider_result" where
  "dup_entries enc t key f =
     (case walk_dup enc t key of
        None \<Rightarrow> Ok []
      | Some vs \<Rightarrow> collect_map f vs)"

definition nonce_updates_at ::
  "('tx, 'rcpt, 'trace, 'cls, 'ccls) db \<Rightarrow> block_number
    \<Rightarrow> (contract_address, nonce) ordered_map provider_result" where
  "nonce_updates_at d n =
     map_ok om_collect (dup_entries encode_u64 (NonceChangeHistory d) n
       (\<lambda>c. Ok (Some (cnc_contract_address c, cnc_nonce c))))"

definition deployed_contracts_at ::
  "('tx, 'rcpt, 'trace, 'cls, 'ccls) db \<Rightarrow> block_number
    \<Rightarrow> (contract_address, class_hash) ordered_map provider_result" where
  "deployed_contracts_at d n =
     map_ok om_collect (dup_entries encode_u64 (ClassChangeHistory d) n
       (\<lambda>c. Ok (Some (ccc_contract_address c, ccc_class_hash c))))"

definition declared_classes_at ::
  "('tx, 'rcpt, 'trace, 'cls, 'ccls) db \<Rightarrow> block_number
    \<Rightarrow> (class_hash, compiled_class_hash) ordered_map provider_result" where
  "declared_classes_at d n =
     map_ok om_collect (dup_entries encode_u64 (ClassDeclarations d) n
       (\<lambda>h. Ok (map_option (\<lambda>compiled. (h, compiled))
                 (tbl_get encode_felt (CompiledClassHashes d) h))))"

text \<open>The loop over the declarations of a block: the legacy classes are those without a compiled
  class hash, inserted into a \<open>BTreeSet\<close>.\<close>

definition deprecated_classes_at ::
  "('tx, 'rcpt, 'trace, 'cls, 'ccls) db \<Rightarrow> block_number \<Rightarrow> class_hash list provider_result" where
  "deprecated_classes_at d n =
     map_ok (\<lambda>hs. om_keys (om_collect (map (\<lambda>h. (h, ())) hs)))
       (dup_entries encode_u64 (ClassDeclarations d) n
         (\<lambda>h. Ok (if tbl_get encode_felt (CompiledClassHashes d) h = None then Some h else None)))"

definition storage_map_insert ::
  "contract_storage_entry
    \<Rightarrow> (contract_address, (storage_key, storage_value) ordered_map) ordered_map
    \<Rightarrow> (contract_address, (storage_key, storage_value) ordered_map) ordered_map" where
  "storage_map_insert e m =
     (let addr = csk_contract_address (cse_key e);
          inner = (case om_get m addr of None \<Rightarrow> [] | Some i \<Rightarrow> i)
      in om_insert addr (om_insert (csk_key (cse_key e)) (cse_value e) inner) m)"

definition storage_updates_at ::
  "('tx, 'rcpt, 'trace, 'cls, 'ccls) db \<Rightarrow> block_number
    \<Rightarrow> (contract_address, (storage_key, storage_value) ordered_map) ordered_map provider_result"
  where
  "storage_updates_at d n =
     map_ok (\<lambda>es. fold storage_map_insert es [])
       (dup_entries encode_u64 (StorageChangeHistory d) n (\<lambda>e. Ok (Some e)))"

definition state_update ::
  "('tx, 'rcpt, 'trace, 'cls, 'ccls) db \<Rightarrow> block_hash_or_number
    \<Rightarrow> state_updates option provider_result" where
  "state_update d i =
     and_then (block_number_by_id d i) (\<lambda>block_num.
       case block_num of
         None \<Rightarrow> Ok None
       | Some n \<Rightarrow>
           and_then (nonce_updates_at d n) (\<lambda>nonces.
           and_then (deployed_contracts_at d n) (\<lambda>deployed.
           and_then (declared_classes_at d n) (\<lambda>declared.
           and_then (deprecated_classes_at d n) (\<lambda>deprecated.
           and_then (storage_updates_at d n) (\<lambda>storage.
             Ok (Some \<lparr>nonce_updates = nonces, storage_updates = storage,
                       deployed_contracts = deployed, declared_classes = declared,
                       deprecated_declared_classes = deprecated, replaced_classes = []\<rparr>)))))))"

definition declared_classes_of ::
  "('tx, 'rcpt, 'trace, 'cls, 'ccls) db \<Rightarrow> block_hash_or_number
    \<Rightarrow> (class_hash, compiled_class_hash) ordered_map option provider_result" where
  "declared_classes_of d i =
     and_then (block_number_by_id d i) (\<lambda>block_num.
       case block_num of None \<Rightarrow> Ok None | Some n \<Rightarrow> map_ok Some (declared_classes_at d n))"

definition deployed_contracts_of ::
  "('tx, 'rcpt, 'trace, 'cls, 'ccls) db \<Rightarrow> block_hash_or_number
    \<Rightarrow> (contract_address, class_hash) ordered_map option provider_result" where
  "deployed_contracts_of d i =
     and_then (block_number_by_id d i) (\<lambda>block_num.
       case block_num of None \<Rightarrow> Ok None | Some n \<Rightarrow> map_ok Some (deployed_contracts_at d n))"

end
