(* ===== verification/Block_Writer.thy ===== *)
theory Block_Writer
  imports Db_Provider
begin

text \<open>
  \<open>BlockWriter::insert_block_with_states_and_receipts\<close> and the stage checkpoints of
  \<open>providers/db/mod.rs\<close>.  The writer is one database transaction; its loops are one definition per
  loop body, folded over the items in the order the source iterates them, and composed in the
  order of the source.  The update of the tables runs to its end or not at all, so the result is
  the database after the whole transaction.
\<close>

section \<open>The loop bodies\<close>

definition insert_tx ::
  "block_number \<Rightarrow> tx_number \<Rightarrow> nat \<times> 'tx tx_with_hash
    \<Rightarrow> ('tx, 'rcpt, 'trace, 'cls, 'ccls) db \<Rightarrow> ('tx, 'rcpt, 'trace, 'cls, 'ccls) db" where
  "insert_tx block_number offset e d =
     (let tx_number = offset + of_nat (fst e);
          tx_hash = twh_hash (snd e)
      in d\<lparr>TxHashes := tbl_put encode_u64 tx_number tx_hash (TxHashes d),
           TxNumbers := tbl_put encode_felt tx_hash tx_number (TxNumbers d),
           TxBlocks := tbl_put encode_u64 tx_number block_number (TxBlocks d),
           Transactions := tbl_put encode_u64 tx_number (twh_transaction (snd e)) (Transactions d)\<rparr>)"

definition insert_receipt ::
  "tx_number \<Rightarrow> nat \<times> 'rcpt
    \<Rightarrow> ('tx, 'rcpt, 'trace, 'cls, 'ccls) db \<Rightarrow> ('tx, 'rcpt, 'trace, 'cls, 'ccls) db" where
  "insert_receipt offset e d =
     d\<lparr>Receipts := tbl_put encode_u64 (offset + of_nat (fst e)) (snd e) (Receipts d)\<rparr>"

definition insert_trace ::
  "tx_number \<Rightarrow> nat \<times> 'trace
    \<Rightarrow> ('tx, 'rcpt, 'trace, 'cls, 'ccls) db \<Rightarrow> ('tx, 'rcpt, 'trace, 'cls, 'ccls) db" where
  "insert_trace offset e d =
     d\<lparr>TxTraces := tbl_put encode_u64 (offset + of_nat (fst e)) (snd e) (TxTraces d)\<rparr>"

definition insert_declared ::
  "(felt \<Rightarrow> bytes) \<Rightarrow> block_number \<Rightarrow> class_hash \<times> compiled_class_hash
    \<Rightarrow> ('tx, 'rcpt, 'trace, 'cls, 'ccls) db \<Rightarrow> ('tx, 'rcpt, 'trace, 'cls, 'ccls) db" where
  "insert_declared pc n e d =
     d\<lparr>CompiledClassHashes := tbl_put encode_felt (fst e) (snd e) (CompiledClassHashes d),
       ClassDeclarationBlock := tbl_put encode_felt (fst e) n (ClassDeclarationBlock d),
       ClassDeclarations := dup_put encode_u64 pc n (fst e) (ClassDeclarations d)\<rparr>"

definition insert_deprecated ::
  "(felt \<Rightarrow> bytes) \<Rightarrow> block_number \<Rightarrow> class_hash
    \<Rightarrow> ('tx, 'rcpt, 'trace, 'cls, 'ccls) db \<Rightarrow> ('tx, 'rcpt, 'trace, 'cls, 'ccls) db" where
  "insert_deprecated pc n hash d =
     d\<lparr>ClassDeclarationBlock := tbl_put encode_felt hash n (ClassDeclarationBlock d),
       ClassDeclarations := dup_put encode_u64 pc n hash (ClassDeclarations d)\<rparr>"

definition insert_class ::
  "class_hash \<times> 'cls
    \<Rightarrow> ('tx, 'rcpt, 'trace, 'cls, 'ccls) db \<Rightarrow> ('tx, 'rcpt, 'trace, 'cls, 'ccls) db" where
  "insert_class e d = d\<lparr>Classes := tbl_put encode_felt (fst e) (snd e) (Classes d)\<rparr>"

text \<open>The cursor's part of a storage write: seek the slot, delete the entry found there when it
  has the same key, write the new entry.  \<open>set_storage\<close> of the state writer does the same.\<close>

definition storage_upsert ::
  "(felt \<Rightarrow> bytes) \<Rightarrow> contract_address \<Rightarrow> storage_entry \<Rightarrow> storage_entry dup_table
    \<Rightarrow> storage_entry dup_table" where
  "storage_upsert pc addr entry t =
     (let t' = (case seek_by_key_subkey encode_felt encode_felt t addr (se_key entry) of
                  Some (pos, current) \<Rightarrow>
                    if se_key current = se_key entry then delete_current encode_felt addr pos t else t
                | None \<Rightarrow> t)
      in dup_put encode_felt (compress_storage_entry pc) addr entry t')"

definition updated_list :: "block_number \<Rightarrow> block_list option \<Rightarrow> block_list" where
  "updated_list n l =
     (case l of Some l \<Rightarrow> block_list_insert n l | None \<Rightarrow> block_list_from [n])"

definition insert_storage ::
  "(felt \<Rightarrow> bytes) \<Rightarrow> block_number \<Rightarrow> contract_address \<Rightarrow> storage_key \<times> storage_value
    \<Rightarrow> ('tx, 'rcpt, 'trace, 'cls, 'ccls) db \<Rightarrow> ('tx, 'rcpt, 'trace, 'cls, 'ccls) db" where
  "insert_storage pc n addr e d =
     (let entry = \<lparr>se_key = fst e, se_value = snd e\<rparr>;
          changeset_key = \<lparr>csk_contract_address = addr, csk_key = fst e\<rparr>;
          list = tbl_get encode_contract_storage_key (StorageChangeSet d) changeset_key
      in d\<lparr>ContractStorage := storage_upsert pc addr entry (ContractStorage d),
           StorageChangeSet :=
             tbl_put encode_contract_storage_key changeset_key (updated_list n list)
               (StorageChangeSet d),
           StorageChangeHistory :=
             dup_put encode_u64 (compress_contract_storage_entry pc) n
               \<lparr>cse_key = changeset_key, cse_value = snd e\<rparr> (StorageChangeHistory d)\<rparr>)"

definition insert_contract_storage ::
  "(felt \<Rightarrow> bytes) \<Rightarrow> block_number
    \<Rightarrow> contract_address \<times> (storage_key, storage_value) ordered_map
    \<Rightarrow> ('tx, 'rcpt, 'trace, 'cls, 'ccls) db \<Rightarrow> ('tx, 'rcpt, 'trace, 'cls, 'ccls) db" where
  "insert_contract_storage pc n u d = fold (insert_storage pc n (fst u)) (snd u) d"

definition change_list_default :: contract_info_change_list where
  "change_list_default =
     \<lparr>class_change_list = block_list_new, nonce_change_list = block_list_new\<rparr>"

definition insert_deployed ::
  "(felt \<Rightarrow> bytes) \<Rightarrow> block_number \<Rightarrow> contract_address \<times> class_hash
    \<Rightarrow> ('tx, 'rcpt, 'trace, 'cls, 'ccls) db \<Rightarrow> ('tx, 'rcpt, 'trace, 'cls, 'ccls) db" where
  "insert_deployed pc n e d =
     (let addr = fst e; hash = snd e;
          value = (case tbl_get encode_felt (ContractInfo d) addr of
                     Some info \<Rightarrow> info\<lparr>ci_class_hash := hash\<rparr>
                   | None \<Rightarrow> contract_info_default\<lparr>ci_class_hash := hash\<rparr>);
          new_change_set =
            (case tbl_get encode_felt (ContractInfoChangeSet d) addr of
               Some cs \<Rightarrow> cs\<lparr>class_change_list := block_list_insert n (class_change_list cs)\<rparr>
             | None \<Rightarrow> change_list_default\<lparr>class_change_list := block_list_from [n]\<rparr>)
      in d\<lparr>ContractInfo := tbl_put encode_felt addr value (ContractInfo d),
           ClassChangeHistory :=
             dup_put encode_u64 (compress_class_change pc) n
               \<lparr>ccc_contract_address = addr, ccc_class_hash = hash\<rparr> (ClassChangeHistory d),
           ContractInfoChangeSet :=
             tbl_put encode_felt addr new_change_set (ContractInfoChangeSet d)\<rparr>)"

definition insert_nonce ::
  "(felt \<Rightarrow> bytes) \<Rightarrow> block_number \<Rightarrow> contract_address \<times> nonce
    \<Rightarrow> ('tx, 'rcpt, 'trace, 'cls, 'ccls) db \<Rightarrow> ('tx, 'rcpt, 'trace, 'cls, 'ccls) db" where
  "insert_nonce pc n e d =
     (let addr = fst e; nonce = snd e;
          value = (case tbl_get encode_felt (ContractInfo d) addr of
                     Some info \<Rightarrow> info\<lparr>ci_nonce := nonce\<rparr>
                   | None \<Rightarrow> contract_info_default\<lparr>ci_nonce := nonce\<rparr>);
          new_change_set =
            (case tbl_get encode_felt (ContractInfoChangeSet d) addr of
               Some cs \<Rightarrow> cs\<lparr>nonce_change_list := block_list_insert n (nonce_change_list cs)\<rparr>
             | None \<Rightarrow> change_list_default\<lparr>nonce_change_list := block_list_from [n]\<rparr>)
      in d\<lparr>ContractInfo := tbl_put encode_felt addr value (ContractInfo d),
           NonceChangeHistory :=
             dup_put encode_u64 (compress_nonce_change pc) n
               \<lparr>cnc_contract_address = addr, cnc_nonce = nonce\<rparr> (NonceChangeHistory d),
           ContractInfoChangeSet :=
             tbl_put encode_felt addr new_change_set (ContractInfoChangeSet d)\<rparr>)"

section \<open>The writer\<close>

definition insert_block_header ::
  "'tx sealed_block_with_status \<Rightarrow> tx_number
    \<Rightarrow> ('tx, 'rcpt, 'trace, 'cls, 'ccls) db \<Rightarrow> ('tx, 'rcpt, 'trace, 'cls, 'ccls) db" where
  "insert_block_header block offset d =
     (let hash = sb_hash (sbs_block block);
          header = sb_header (sbs_block block);
          n = h_number header;
          count = of_nat (length (sb_body (sbs_block block)))
      in d\<lparr>BlockHashes := tbl_put encode_u64 n hash (BlockHashes d),
           BlockNumbers := tbl_put encode_felt hash n (BlockNumbers d),
           BlockStatusses := tbl_put encode_u64 n (sbs_status block) (BlockStatusses d),
           Headers := tbl_put encode_u64 n header (Headers d),
           BlockBodyIndices :=
             tbl_put encode_u64 n \<lparr>tx_offset = offset, tx_count = count\<rparr> (BlockBodyIndices d)\<rparr>)"

definition insert_state ::
  "(felt \<Rightarrow> bytes) \<Rightarrow> block_number \<Rightarrow> 'cls state_updates_with_classes
    \<Rightarrow> ('tx, 'rcpt, 'trace, 'cls, 'ccls) db \<Rightarrow> ('tx, 'rcpt, 'trace, 'cls, 'ccls) db" where
  "insert_state pc n states d =
     (let su = suc_state_updates states;
          d = fold (insert_declared pc n) (declared_classes su) d;
          d = fold (insert_deprecated pc n) (deprecated_declared_classes su) d;
          d = fold insert_class (suc_classes states) d;
          d = fold (insert_contract_storage pc n) (storage_updates su) d;
          d = fold (insert_deployed pc n) (deployed_contracts su) d
      in fold (insert_nonce pc n) (nonce_updates su) d)"

definition insert_block_with_states_and_receipts ::
  "(felt \<Rightarrow> bytes) \<Rightarrow> 'tx sealed_block_with_status \<Rightarrow> 'cls state_updates_with_classes
    \<Rightarrow> 'rcpt list \<Rightarrow> 'trace list
    \<Rightarrow> ('tx, 'rcpt, 'trace, 'cls, 'ccls) db \<Rightarrow> ('tx, 'rcpt, 'trace, 'cls, 'ccls) db" where
  "insert_block_with_states_and_receipts pc block states receipts executions d =
     (let n = h_number (sb_header (sbs_block block));
          transactions = sb_body (sbs_block block);
          offset = of_nat (tbl_entries (Transactions d));
          d = insert_block_header block offset d;
          d = fold (insert_tx n offset) (enumerate 0 transactions) d;
          d = fold (insert_receipt offset) (enumerate 0 receipts) d;
          d = fold (insert_trace offset) (enumerate 0 executions) d
      in insert_state pc n states d)"

section \<open>Stage checkpoints\<close>

definition checkpoint ::
  "('tx, 'rcpt, 'trace, 'cls, 'ccls) db \<Rightarrow> string \<Rightarrow> block_number option provider_result" where
  "checkpoint d i = Ok (map_option sc_block (tbl_get encode_string (StageCheckpoints d) i))"

definition set_checkpoint ::
  "string \<Rightarrow> block_number
    \<Rightarrow> ('tx, 'rcpt, 'trace, 'cls, 'ccls) db \<Rightarrow> ('tx, 'rcpt, 'trace, 'cls, 'ccls) db" where
  "set_checkpoint i n d =
     d\<lparr>StageCheckpoints := tbl_put encode_string i \<lparr>sc_block = n\<rparr> (StageCheckpoints d)\<rparr>"

section \<open>What each part of the writer leaves alone\<close>

text \<open>The tables fall into four groups, each written by some of the loops only.\<close>

definition storage_view where
  "storage_view d = (StorageChangeSet d, StorageChangeHistory d, ContractStorage d)"

definition info_view where
  "info_view d =
     (ContractInfo d, ContractInfoChangeSet d, NonceChangeHistory d, ClassChangeHistory d)"

definition class_view where
  "class_view d =
     (CompiledClassHashes d, ClassDeclarationBlock d, ClassDeclarations d, Classes d)"

definition block_view where
  "block_view d =
     ((BlockHashes d, BlockNumbers d, BlockStatusses d, Headers d, BlockBodyIndices d),
      (TxHashes d, TxNumbers d, TxBlocks d, Transactions d, Receipts d, TxTraces d))"

lemmas writer_defs =
  insert_block_header_def insert_tx_def insert_receipt_def insert_trace_def insert_declared_def
  insert_deprecated_def insert_class_def insert_storage_def insert_deployed_def insert_nonce_def
  Let_def

lemmas view_defs = storage_view_def info_view_def class_view_def block_view_def

lemma insert_contract_storage_frames [simp]:
  "info_view (insert_contract_storage pc n u d) = info_view d"
  "class_view (insert_contract_storage pc n u d) = class_view d"
  "block_view (insert_contract_storage pc n u d) = block_view d"
  unfolding insert_contract_storage_def
  by (rule fold_frame, simp add: writer_defs view_defs)+

lemma insert_block_header_frames [simp]:
  "storage_view (insert_block_header b off d) = storage_view d"
  "info_view (insert_block_header b off d) = info_view d"
  "class_view (insert_block_header b off d) = class_view d"
  by (simp_all add: writer_defs view_defs)

lemma storage_frames [simp]:
  "storage_view (fold (insert_tx n off) txs d) = storage_view d"
  "storage_view (fold (insert_receipt off) rs d) = storage_view d"
  "storage_view (fold (insert_trace off) ts d) = storage_view d"
  "storage_view (fold (insert_declared pc n) cs d) = storage_view d"
  "storage_view (fold (insert_deprecated pc n) hs d) = storage_view d"
  "storage_view (fold insert_class ks d) = storage_view d"
  "storage_view (fold (insert_deployed pc n) es d) = storage_view d"
  "storage_view (fold (insert_nonce pc n) ns d) = storage_view d"
  by (rule fold_frame [where f = storage_view], simp add: writer_defs view_defs)+

lemma info_frames [simp]:
  "info_view (fold (insert_tx n off) txs d) = info_view d"
  "info_view (fold (insert_receipt off) rs d) = info_view d"
  "info_view (fold (insert_trace off) ts d) = info_view d"
  "info_view (fold (insert_declared pc n) cs d) = info_view d"
  "info_view (fold (insert_deprecated pc n) hs d) = info_view d"
  "info_view (fold insert_class ks d) = info_view d"
  by (rule fold_frame [where f = info_view], simp add: writer_defs view_defs)+

lemma class_frames [simp]:
  "class_view (fold (insert_tx n off) txs d) = class_view d"
  "class_view (fold (insert_receipt off) rs d) = class_view d"
  "class_view (fold (insert_trace off) ts d) = class_view d"
  "class_view (fold (insert_deployed pc n) es d) = class_view d"
  "class_view (fold (insert_nonce pc n) ns d) = class_view d"
  by (rule fold_frame [where f = class_view], simp add: writer_defs view_defs)+

lemma block_frames [simp]:
  "block_view (fold (insert_declared pc n) cs d) = block_view d"
  "block_view (fold (insert_deprecated pc n) hs d) = block_view d"
  "block_view (fold insert_class ks d) = block_view d"
  "block_view (fold (insert_deployed pc n) es d) = block_view d"
  "block_view (fold (insert_nonce pc n) ns d) = block_view d"
  by (rule fold_frame [where f = block_view], simp add: writer_defs view_defs)+

lemma contract_storage_frames [simp]:
  "info_view (fold (insert_contract_storage pc n) us d) = info_view d"
  "class_view (fold (insert_contract_storage pc n) us d) = class_view d"
  "block_view (fold (insert_contract_storage pc n) us d) = block_view d"
  by (rule fold_frame, rule insert_contract_storage_frames)+

end
