(* ===== verification/Db_State.thy ===== *)
theory Db_State
  imports Block_Writer
begin

text \<open>
  The state side of the persistent storage provider (\<open>providers/db/state.rs\<close> and the state factory
  of \<open>providers/db/mod.rs\<close>): the state and class writers, the reader of the latest state, the
  reader of the state as of a block, and the choice between the two.  State proofs and roots are
  computed by the trie library and are not part of this theory, except the state root of a
  historical block, which is read from its header.
\<close>

section \<open>Writers\<close>

definition set_nonce ::
  "contract_address \<Rightarrow> nonce
    \<Rightarrow> ('tx, 'rcpt, 'trace, 'cls, 'ccls) db \<Rightarrow> ('tx, 'rcpt, 'trace, 'cls, 'ccls) db" where
  "set_nonce address nonce d =
     (let value = (case tbl_get encode_felt (ContractInfo d) address of
                     Some info \<Rightarrow> info\<lparr>ci_nonce := nonce\<rparr>
                   | None \<Rightarrow> contract_info_default\<lparr>ci_nonce := nonce\<rparr>)
      in d\<lparr>ContractInfo := tbl_put encode_felt address value (ContractInfo d)\<rparr>)"

definition set_storage ::
  "(felt \<Rightarrow> bytes) \<Rightarrow> contract_address \<Rightarrow> storage_key \<Rightarrow> storage_value
    \<Rightarrow> ('tx, 'rcpt, 'trace, 'cls, 'ccls) db \<Rightarrow> ('tx, 'rcpt, 'trace, 'cls, 'ccls) db" where
  "set_storage pc address key value d =
     d\<lparr>ContractStorage :=
         storage_upsert pc address \<lparr>se_key = key, se_value = value\<rparr> (ContractStorage d)\<rparr>"

definition set_class_hash_of_contract ::
  "contract_address \<Rightarrow> class_hash
    \<Rightarrow> ('tx, 'rcpt, 'trace, 'cls, 'ccls) db \<Rightarrow> ('tx, 'rcpt, 'trace, 'cls, 'ccls) db" where
  "set_class_hash_of_contract address hash d =
     (let value = (case tbl_get encode_felt (ContractInfo d) address of
                     Some info \<Rightarrow> info\<lparr>ci_class_hash := hash\<rparr>
                   | None \<Rightarrow> contract_info_default\<lparr>ci_class_hash := hash\<rparr>)
      in d\<lparr>ContractInfo := tbl_put encode_felt address value (ContractInfo d)\<rparr>)"

definition set_class ::
  "class_hash \<Rightarrow> 'cls
    \<Rightarrow> ('tx, 'rcpt, 'trace, 'cls, 'ccls) db \<Rightarrow> ('tx, 'rcpt, 'trace, 'cls, 'ccls) db" where
  "set_class hash class d = d\<lparr>Classes := tbl_put encode_felt hash class (Classes d)\<rparr>"

definition set_compiled_class_hash_of_class_hash ::
  "class_hash \<Rightarrow> compiled_class_hash
    \<Rightarrow> ('tx, 'rcpt, 'trace, 'cls, 'ccls) db \<Rightarrow> ('tx, 'rcpt, 'trace, 'cls, 'ccls) db" where
  "set_compiled_class_hash_of_class_hash hash compiled_hash d =
     d\<lparr>CompiledClassHashes := tbl_put encode_felt hash compiled_hash (CompiledClassHashes d)\<rparr>"

definition set_compiled_class ::
  "class_hash \<Rightarrow> 'ccls
    \<Rightarrow> ('tx, 'rcpt, 'trace, 'cls, 'ccls) db \<Rightarrow> ('tx, 'rcpt, 'trace, 'cls, 'ccls) db" where
  "set_compiled_class hash class d =
     d\<lparr>CompiledClasses := tbl_put encode_felt hash class (CompiledClasses d)\<rparr>"

section \<open>The latest state\<close>

definition latest_class ::
  "('tx, 'rcpt, 'trace, 'cls, 'ccls) db \<Rightarrow> class_hash \<Rightarrow> 'cls option provider_result" where
  "latest_class d hash = Ok (tbl_get encode_felt (Classes d) hash)"

definition latest_compiled_class_hash ::
  "('tx, 'rcpt, 'trace, 'cls, 'ccls) db \<Rightarrow> class_hash
    \<Rightarrow> compiled_class_hash option provider_result" where
  "latest_compiled_class_hash d hash = Ok (tbl_get encode_felt (CompiledClassHashes d) hash)"

definition latest_nonce ::
  "('tx, 'rcpt, 'trace, 'cls, 'ccls) db \<Rightarrow> contract_address \<Rightarrow> nonce option provider_result" where
  "latest_nonce d address = Ok (map_option ci_nonce (tbl_get encode_felt (ContractInfo d) address))"

definition latest_class_hash_of_contract ::
  "('tx, 'rcpt, 'trace, 'cls, 'ccls) db \<Rightarrow> contract_address \<Rightarrow> class_hash option provider_result"
  where
  "latest_class_hash_of_contract d address =
     Ok (map_option ci_class_hash (tbl_get encode_felt (ContractInfo d) address))"

definition latest_storage ::
  "('tx, 'rcpt, 'trace, 'cls, 'ccls) db \<Rightarrow> contract_address \<Rightarrow> storage_key
    \<Rightarrow> storage_value option provider_result" where
  "latest_storage d address key =
     (case seek_by_key_subkey encode_felt encode_felt (ContractStorage d) address key of
        Some (_, entry) \<Rightarrow> if se_key entry = key then Ok (Some (se_value entry)) else Ok None
      | None \<Rightarrow> Ok None)"

section \<open>The state as of a block\<close>

definition is_class_declared_before_block ::
  "('tx, 'rcpt, 'trace, 'cls, 'ccls) db \<Rightarrow> block_number \<Rightarrow> class_hash \<Rightarrow> bool provider_result" where
  "is_class_declared_before_block d block_number hash =
     Ok (case tbl_get encode_felt (ClassDeclarationBlock d) hash of
           None \<Rightarrow> False
         | Some num \<Rightarrow> num \<le> block_number)"

definition historical_class ::
  "('tx, 'rcpt, 'trace, 'cls, 'ccls) db \<Rightarrow> block_number \<Rightarrow> class_hash
    \<Rightarrow> 'cls option provider_result" where
  "historical_class d block_number hash =
     and_then (is_class_declared_before_block d block_number hash) (\<lambda>declared.
       if declared then Ok (tbl_get encode_felt (Classes d) hash) else Ok None)"

definition historical_compiled_class_hash ::
  "('tx, 'rcpt, 'trace, 'cls, 'ccls) db \<Rightarrow> block_number \<Rightarrow> class_hash
    \<Rightarrow> compiled_class_hash option provider_result" where
  "historical_compiled_class_hash d block_number hash =
     and_then (is_class_declared_before_block d block_number hash) (\<lambda>declared.
       if declared then Ok (tbl_get encode_felt (CompiledClassHashes d) hash) else Ok None)"

definition historical_nonce ::
  "('tx, 'rcpt, 'trace, 'cls, 'ccls) db \<Rightarrow> block_number \<Rightarrow> contract_address
    \<Rightarrow> nonce option provider_result" where
  "historical_nonce d block_number address =
     (case Option.bind (tbl_get encode_felt (ContractInfoChangeSet d) address)
             (\<lambda>entry. recent_change_from_block block_number (nonce_change_list entry)) of
        None \<Rightarrow> Ok None
      | Some num \<Rightarrow>
          and_then (ok_or (seek_by_key_subkey encode_u64 encode_felt (NonceChangeHistory d) num address)
              (MissingContractNonceChangeEntry num address))
            (\<lambda>(_, entry).
               if cnc_contract_address entry = address then Ok (Some (cnc_nonce entry)) else Ok None))"

definition historical_class_hash_of_contract ::
  "('tx, 'rcpt, 'trace, 'cls, 'ccls) db \<Rightarrow> block_number \<Rightarrow> contract_address
    \<Rightarrow> class_hash option provider_result" where
  "historical_class_hash_of_contract d block_number address =
     (case Option.bind (tbl_get encode_felt (ContractInfoChangeSet d) address)
             (\<lambda>entry. recent_change_from_block block_number (class_change_list entry)) of
        None \<Rightarrow> Ok None
      | Some num \<Rightarrow>
          and_then (ok_or (seek_by_key_subkey encode_u64 encode_felt (ClassChangeHistory d) num address)
              (MissingContractClassChangeEntry num address))
            (\<lambda>(_, entry).
               if ccc_contract_address entry = address then Ok (Some (ccc_class_hash entry))
               else Ok None))"

definition historical_storage ::
  "('tx, 'rcpt, 'trace, 'cls, 'ccls) db \<Rightarrow> block_number \<Rightarrow> contract_address \<Rightarrow> storage_key
    \<Rightarrow> storage_value option provider_result" where
  "historical_storage d block_number address storage_key =
     (let key = \<lparr>csk_contract_address = address, csk_key = storage_key\<rparr>
      in case Option.bind (tbl_get encode_contract_storage_key (StorageChangeSet d) key)
                (\<lambda>list. recent_change_from_block block_number list) of
           None \<Rightarrow> Ok None
         | Some num \<Rightarrow>
             and_then (ok_or (seek_by_key_subkey encode_u64 encode_contract_storage_key
                   (StorageChangeHistory d) num key)
                 (MissingStorageChangeEntry num address storage_key))
               (\<lambda>(_, entry).
                  if csk_contract_address (cse_key entry) = address \<and> csk_key (cse_key entry) = storage_key
                  then Ok (Some (cse_value entry)) else Ok None))"

text \<open>\<open>expect("should exist")\<close>: the state root of a block without a header is a panic.\<close>

definition historical_state_root ::
  "('tx, 'rcpt, 'trace, 'cls, 'ccls) db \<Rightarrow> block_number \<Rightarrow> felt provider_result option" where
  "historical_state_root d block_number =
     map_option (\<lambda>h. Ok (h_state_root h)) (tbl_get encode_u64 (Headers d) block_number)"

section \<open>The state factory\<close>

datatype state_provider = LatestState | HistoricalState block_number

definition latest :: "('tx, 'rcpt, 'trace, 'cls, 'ccls) db \<Rightarrow> state_provider provider_result" where
  "latest d = Ok LatestState"

definition historical ::
  "('tx, 'rcpt, 'trace, 'cls, 'ccls) db \<Rightarrow> block_hash_or_number
    \<Rightarrow> state_provider option provider_result" where
  "historical d i =
     (case i of
        Num num \<Rightarrow>
          and_then (latest_number d) (\<lambda>latest_num.
            if num < latest_num then Ok (Some (HistoricalState num))
            else if latest_num < num then Ok None
            else map_ok Some (latest d))
      | Hash hash \<Rightarrow>
          and_then (block_number_by_hash d hash) (\<lambda>block_number.
            case block_number of
              None \<Rightarrow> Ok None
            | Some num \<Rightarrow> Ok (Some (HistoricalState num))))"

text \<open>The operations of the trait object \<open>StateProvider\<close>.\<close>

primrec storage_of ::
  "('tx, 'rcpt, 'trace, 'cls, 'ccls) db \<Rightarrow> state_provider \<Rightarrow> contract_address \<Rightarrow> storage_key
    \<Rightarrow> storage_value option provider_result" where
  "storage_of d LatestState = latest_storage d"
| "storage_of d (HistoricalState n) = historical_storage d n"

primrec nonce_of ::
  "('tx, 'rcpt, 'trace, 'cls, 'ccls) db \<Rightarrow> state_provider \<Rightarrow> contract_address
    \<Rightarrow> nonce option provider_result" where
  "nonce_of d LatestState = latest_nonce d"
| "nonce_of d (HistoricalState n) = historical_nonce d n"

primrec class_hash_of ::
  "('tx, 'rcpt, 'trace, 'cls, 'ccls) db \<Rightarrow> state_provider \<Rightarrow> contract_address
    \<Rightarrow> class_hash option provider_result" where
  "class_hash_of d LatestState = latest_class_hash_of_contract d"
| "class_hash_of d (HistoricalState n) = historical_class_hash_of_contract d n"

end
