(* ===== verification/Change_Log.thy ===== *)
theory Change_Log
  imports Block_List
begin

text \<open>
  The interface of a change log, which the storage, nonce and class histories of the database and
  the trie snapshots share: for every key the set of the blocks in which it changed (\<open>cset\<close>), for
  every block and key the value it changed to (\<open>hist\<close>), and the operation that records a change
  (\<open>ins\<close>).  The value as of a block is read from the most recent change at or before it.  The
  lemmas of the locale show that recording the changes of increasing blocks implements a versioned
  map: a read as of a block sees exactly the changes of the blocks up to it.
\<close>

text \<open>The read every client performs.\<close>

definition value_at ::
  "('k \<Rightarrow> block_list) \<Rightarrow> (block_number \<Rightarrow> 'k \<Rightarrow> 'v option) \<Rightarrow> block_number \<Rightarrow> 'k \<Rightarrow> 'v option" where
  "value_at cset hist b k =
     (case recent_change_from_block b (cset k) of None \<Rightarrow> None | Some n \<Rightarrow> hist n k)"

text \<open>The blocks recorded so far are below \<open>bound\<close>, and every recorded block has its value.\<close>

definition log_ok ::
  "('k \<Rightarrow> block_list) \<Rightarrow> (block_number \<Rightarrow> 'k \<Rightarrow> 'v option) \<Rightarrow> nat \<Rightarrow> bool" where
  "log_ok cset hist bound \<longleftrightarrow>
     (\<forall>k. sorted_wrt (<) (cset k)) \<and>
     (\<forall>k. \<forall>n \<in> set (cset k). unat n < bound \<and> hist n k \<noteq> None) \<and>
     (\<forall>n k. hist n k \<noteq> None \<longrightarrow> unat n < bound)"

lemma log_ok_block_list:
  assumes "log_ok cset hist bound" "bound < 2 ^ 64"
  shows "block_list_ok (cset k)"
proof -
  have "distinct (cset k)" and sub: "unat ` set (cset k) \<subseteq> {0 ..< bound}"
    using assms(1) by (auto simp: log_ok_def strict_sorted_iff)
  then have "length (cset k) = card (unat ` set (cset k))"
    by (metis card_image distinct_card inj_on_def word_unat_eq_iff)
  also have "\<dots> \<le> bound"
    using card_mono [OF _ sub] by simp
  finally show ?thesis
    using assms by (simp add: block_list_ok_def log_ok_def)
qed

lemma log_ok_empty [simp]: "log_ok (\<lambda>_. []) (\<lambda>_ _. None) b"
  by (simp add: log_ok_def)

lemma log_ok_mono: "log_ok cset hist b \<Longrightarrow> b \<le> b' \<Longrightarrow> log_ok cset hist b'"
  unfolding log_ok_def by (meson less_le_trans)

lemma log_fresh: "log_ok cset hist bound \<Longrightarrow> bound \<le> unat n \<Longrightarrow> hist n k = None"
  by (fastforce simp: log_ok_def)

text \<open>A read finds the value of the change it was directed to.\<close>

lemma recent_change_hist:
  assumes "log_ok cset hist bound" "bound < 2 ^ 64" "recent_change_from_block b (cset k) = Some n"
  shows "\<exists>v. hist n k = Some v"
  using recent_change_Some_iff [OF log_ok_block_list [OF assms(1,2)], of b k n] assms(1,3)
  by (auto simp: log_ok_def)

text \<open>The effect of one more block, whose changes are \<open>chg\<close>, on the log.\<close>

definition block_recorded ::
  "block_number \<Rightarrow> ('k \<Rightarrow> 'v option)
    \<Rightarrow> ('k \<Rightarrow> block_list) \<Rightarrow> (block_number \<Rightarrow> 'k \<Rightarrow> 'v option)
    \<Rightarrow> ('k \<Rightarrow> block_list) \<Rightarrow> (block_number \<Rightarrow> 'k \<Rightarrow> 'v option) \<Rightarrow> bool" where
  "block_recorded n chg cset hist cset' hist' \<longleftrightarrow>
     (\<forall>k. cset' k = (if chg k = None then cset k else block_list_insert n (cset k))) \<and>
     (\<forall>m k. hist' m k = (if m = n \<and> chg k \<noteq> None then chg k else hist m k))"

lemma log_ok_recorded:
  assumes "log_ok cset hist bound" "block_recorded n chg cset hist cset' hist'" "bound \<le> unat n"
  shows "log_ok cset' hist' (Suc (unat n))"
proof -
  have "sorted_wrt (<) (cset' k)" for k
    using assms(1,2) by (auto simp: log_ok_def block_recorded_def sorted_block_list_insert)
  moreover have "unat m < Suc (unat n) \<and> hist' m k \<noteq> None" if "m \<in> set (cset' k)" for m k
    using that assms by (fastforce simp: log_ok_def block_recorded_def split: if_splits)
  moreover have "unat m < Suc (unat n)" if "hist' m k \<noteq> None" for m k
    using that assms by (fastforce simp: log_ok_def block_recorded_def split: if_splits)
  ultimately show ?thesis
    by (simp add: log_ok_def)
qed

lemma recent_change_insert_new:
  assumes "block_list_ok l" "block_list_ok (block_list_insert n l)" "\<forall>m \<in> set l. m < n"
  shows "recent_change_from_block b (block_list_insert n l) =
    (if n \<le> b then Some n else recent_change_from_block b l)"
proof (cases "n \<le> b")
  case True
  with assms show ?thesis
    by (subst recent_change_Some_iff [THEN iffD2]) auto
next
  case False
  show ?thesis
  proof (cases "recent_change_from_block b l")
    case None
    with False have "recent_change_from_block b (block_list_insert n l) = None"
      using assms by (auto simp: recent_change_None_iff not_le)
    with None False show ?thesis by simp
  next
    case (Some m)
    with False have "recent_change_from_block b (block_list_insert n l) = Some m"
      using assms by (auto simp: recent_change_Some_iff)
    with Some False show ?thesis by simp
  qed
qed

text \<open>A read as of a block before the new one is unchanged; a read as of a later block sees the
  changes of the new block first.\<close>

lemma value_at_recorded:
  assumes "log_ok cset hist bound" "block_recorded n chg cset hist cset' hist'"
    "bound \<le> unat n" "Suc (unat n) < 2 ^ 64"
  shows "value_at cset' hist' b k =
    (if n \<le> b \<and> chg k \<noteq> None then chg k else value_at cset hist b k)"
proof (cases "chg k")
  case None
  with assms(2) show ?thesis
    by (simp add: value_at_def block_recorded_def split: option.split)
next
  case (Some v)
  have bound: "bound < 2 ^ 64" using assms(3,4) by simp
  have new: "block_list_ok (cset' k)"
    by (rule log_ok_block_list [OF log_ok_recorded [OF assms(1-3)] assms(4)])
  have less: "\<forall>m \<in> set (cset k). m < n"
    using assms(1,3) by (fastforce simp: log_ok_def word_less_nat_alt)
  have ins: "cset' k = block_list_insert n (cset k)"
    using assms(2) Some by (simp add: block_recorded_def)
  have rc: "recent_change_from_block b (cset' k) =
      (if n \<le> b then Some n else recent_change_from_block b (cset k))"
    unfolding ins
    by (rule recent_change_insert_new [OF log_ok_block_list [OF assms(1) bound] new [unfolded ins] less])
  show ?thesis
  proof (cases "n \<le> b")
    case True
    with rc Some assms(2) show ?thesis
      by (simp add: value_at_def block_recorded_def)
  next
    case False
    have "hist' m k = hist m k" if "recent_change_from_block b (cset k) = Some m" for m
    proof -
      have "m \<in> set (cset k)"
        using that recent_change_Some_iff [OF log_ok_block_list [OF assms(1) bound]] by blast
      with less have "m \<noteq> n" by auto
      with assms(2) show ?thesis by (simp add: block_recorded_def)
    qed
    with False rc show ?thesis
      by (auto simp: value_at_def split: option.split)
  qed
qed

section \<open>The interface\<close>

locale change_log =
  fixes cset :: "'d \<Rightarrow> 'k \<Rightarrow> block_list"
    and hist :: "'d \<Rightarrow> block_number \<Rightarrow> 'k \<Rightarrow> 'v option"
    and ins :: "block_number \<Rightarrow> 'k \<times> 'v \<Rightarrow> 'd \<Rightarrow> 'd"
    and inv :: "'d \<Rightarrow> bool"
  assumes inv_ins: "inv d \<Longrightarrow> hist d n k = None \<Longrightarrow> inv (ins n (k, v) d)"
    and cset_ins: "inv d \<Longrightarrow>
      cset (ins n (k, v) d) k' = (if k' = k then block_list_insert n (cset d k) else cset d k')"
    and hist_ins: "inv d \<Longrightarrow> hist d n k = None \<Longrightarrow>
      hist (ins n (k, v) d) m k' = (if m = n \<and> k' = k then Some v else hist d m k')"
begin

text \<open>Recording the changes of one block, whose keys are distinct.\<close>

lemma record_changes:
  assumes "inv d" "distinct (map fst es)" "\<forall>k \<in> fst ` set es. hist d n k = None"
  shows "inv (fold (ins n) es d) \<and>
    block_recorded n (map_of es) (cset d) (hist d) (cset (fold (ins n) es d)) (hist (fold (ins n) es d))"
  using assms
proof (induction es arbitrary: d)
  case Nil
  then show ?case by (simp add: block_recorded_def)
next
  case (Cons e es)
  obtain k v where e: "e = (k, v)" by (cases e)
  have fresh: "hist d n k = None" and k: "k \<notin> fst ` set es"
    using Cons.prems e by auto
  have "inv (ins n e d)"
    using Cons.prems(1) fresh e by (simp add: inv_ins)
  moreover have "\<forall>j \<in> fst ` set es. hist (ins n e d) n j = None"
    using Cons.prems k e hist_ins [OF Cons.prems(1) fresh] by force
  ultimately have "inv (fold (ins n) es (ins n e d))" and
    IH: "block_recorded n (map_of es) (cset (ins n e d)) (hist (ins n e d))
      (cset (fold (ins n) es (ins n e d))) (hist (fold (ins n) es (ins n e d)))"
    using Cons.IH [of "ins n e d"] Cons.prems by auto
  moreover have "map_of es k = None"
    using k by (simp add: map_of_eq_None_iff)
  ultimately show ?case
    unfolding block_recorded_def
    using cset_ins [OF Cons.prems(1)] hist_ins [OF Cons.prems(1) fresh] by (auto simp: e)
qed

end

end
