(* ===== verification/State_Refinement.thy ===== *)
theory State_Refinement
  imports Db_State Change_Log
begin

text \<open>
  The state tables implement a versioned state.  The specification keeps the nonces, the class
  hashes and the storage of the contracts as plain maps and applies the updates of a block to
  them; the state as of block \<open>n\<close> is the result of the blocks up to \<open>n\<close>.  The storage history, the
  nonce history and the class history of the database are interpretations of the interface
  \<open>change_log\<close>, from which the reads of the historical state provider are shown to return the
  specified state, whatever was inserted later.
\<close>

section \<open>The specification\<close>

record abs_state =
  a_nonce :: "contract_address \<Rightarrow> nonce option"
  a_class :: "contract_address \<Rightarrow> class_hash option"
  a_storage :: "contract_storage_key \<Rightarrow> storage_value option"

definition abs_empty :: abs_state where
  "abs_empty = \<lparr>a_nonce = (\<lambda>_. None), a_class = (\<lambda>_. None), a_storage = (\<lambda>_. None)\<rparr>"

definition storage_change :: "state_updates \<Rightarrow> contract_storage_key \<Rightarrow> storage_value option" where
  "storage_change su k =
     Option.bind (om_get (storage_updates su) (csk_contract_address k)) (\<lambda>m. om_get m (csk_key k))"

definition override :: "('k \<Rightarrow> 'v option) \<Rightarrow> ('k \<Rightarrow> 'v option) \<Rightarrow> 'k \<Rightarrow> 'v option" where
  "override chg old k = (case chg k of None \<Rightarrow> old k | Some v \<Rightarrow> Some v)"

definition apply_updates :: "state_updates \<Rightarrow> abs_state \<Rightarrow> abs_state" where
  "apply_updates su s =
     \<lparr>a_nonce = override (om_get (nonce_updates su)) (a_nonce s),
      a_class = override (om_get (deployed_contracts su)) (a_class s),
      a_storage = override (storage_change su) (a_storage s)\<rparr>"

type_synonym ('tx, 'rcpt, 'trace, 'cls) block_input =
  "'tx sealed_block_with_status \<times> 'cls state_updates_with_classes \<times> 'rcpt list \<times> 'trace list"

definition input_number :: "('tx, 'rcpt, 'trace, 'cls) block_input \<Rightarrow> block_number" where
  "input_number b = h_number (sb_header (sbs_block (fst b)))"

definition input_updates :: "('tx, 'rcpt, 'trace, 'cls) block_input \<Rightarrow> state_updates" where
  "input_updates b = suc_state_updates (fst (snd b))"

definition insert_input ::
  "(felt \<Rightarrow> bytes) \<Rightarrow> ('tx, 'rcpt, 'trace, 'cls) block_input
    \<Rightarrow> ('tx, 'rcpt, 'trace, 'cls, 'ccls) db \<Rightarrow> ('tx, 'rcpt, 'trace, 'cls, 'ccls) db" where
  "insert_input pc b d =
     (case b of (block, states, receipts, executions) \<Rightarrow>
        insert_block_with_states_and_receipts pc block states receipts executions d)"

definition insert_chain ::
  "(felt \<Rightarrow> bytes) \<Rightarrow> ('tx, 'rcpt, 'trace, 'cls) block_input list
    \<Rightarrow> ('tx, 'rcpt, 'trace, 'cls, 'ccls) db \<Rightarrow> ('tx, 'rcpt, 'trace, 'cls, 'ccls) db" where
  "insert_chain pc bs d = fold (insert_input pc) bs d"

definition state_at :: "('tx, 'rcpt, 'trace, 'cls) block_input list \<Rightarrow> block_number \<Rightarrow> abs_state" where
  "state_at bs n =
     fold (\<lambda>b. apply_updates (input_updates b)) (filter (\<lambda>b. input_number b \<le> n) bs) abs_empty"

text \<open>Blocks arrive with increasing numbers; the last possible number is not used.\<close>

definition chain_ok :: "('tx, 'rcpt, 'trace, 'cls) block_input list \<Rightarrow> bool" where
  "chain_ok bs \<longleftrightarrow>
     sorted_wrt (<) (map input_number bs) \<and>
     (\<forall>b \<in> set bs. state_updates_ok (input_updates b) \<and> Suc (unat (input_number b)) < 2 ^ 64)"

section \<open>The views of the database\<close>

definition storage_cset ::
  "('tx, 'rcpt, 'trace, 'cls, 'ccls) db \<Rightarrow> contract_storage_key \<Rightarrow> block_list" where
  "storage_cset d k =
     (case tbl_get encode_contract_storage_key (StorageChangeSet d) k of None \<Rightarrow> [] | Some l \<Rightarrow> l)"

definition storage_hist ::
  "('tx, 'rcpt, 'trace, 'cls, 'ccls) db \<Rightarrow> block_number \<Rightarrow> contract_storage_key
    \<Rightarrow> storage_value option" where
  "storage_hist d n k =
     map_option cse_value
       (dup_lookup cse_key (dup_values encode_u64 (StorageChangeHistory d) n) k)"

definition storage_ins where
  "storage_ins pc n e d =
     insert_storage pc n (csk_contract_address (fst e)) (csk_key (fst e), snd e) d"

definition storage_now ::
  "('tx, 'rcpt, 'trace, 'cls, 'ccls) db \<Rightarrow> contract_storage_key \<Rightarrow> storage_value option" where
  "storage_now d k =
     map_option se_value
       (dup_lookup se_key (dup_values encode_felt (ContractStorage d) (csk_contract_address k))
         (csk_key k))"

definition storage_cur_inv :: "(felt \<Rightarrow> bytes) \<Rightarrow> ('tx, 'rcpt, 'trace, 'cls, 'ccls) db \<Rightarrow> bool" where
  "storage_cur_inv pc d \<longleftrightarrow>
     dup_ok (compress_storage_entry pc) (ContractStorage d) \<and>
     (\<forall>a. dup_distinct se_key (dup_values encode_felt (ContractStorage d) a))"

definition storage_inv :: "(felt \<Rightarrow> bytes) \<Rightarrow> ('tx, 'rcpt, 'trace, 'cls, 'ccls) db \<Rightarrow> bool" where
  "storage_inv pc d \<longleftrightarrow>
     storage_cur_inv pc d \<and>
     dup_ok (compress_contract_storage_entry pc) (StorageChangeHistory d) \<and>
     (\<forall>n. dup_distinct cse_key (dup_values encode_u64 (StorageChangeHistory d) n))"

definition nonce_cset where
  "nonce_cset d a =
     (case tbl_get encode_felt (ContractInfoChangeSet d) a of
        None \<Rightarrow> [] | Some cs \<Rightarrow> nonce_change_list cs)"

definition nonce_hist where
  "nonce_hist d n a =
     map_option cnc_nonce
       (dup_lookup cnc_contract_address (dup_values encode_u64 (NonceChangeHistory d) n) a)"

definition class_cset where
  "class_cset d a =
     (case tbl_get encode_felt (ContractInfoChangeSet d) a of
        None \<Rightarrow> [] | Some cs \<Rightarrow> class_change_list cs)"

definition class_hist where
  "class_hist d n a =
     map_option ccc_class_hash
       (dup_lookup ccc_contract_address (dup_values encode_u64 (ClassChangeHistory d) n) a)"

definition info_inv :: "(felt \<Rightarrow> bytes) \<Rightarrow> ('tx, 'rcpt, 'trace, 'cls, 'ccls) db \<Rightarrow> bool" where
  "info_inv pc d \<longleftrightarrow>
     dup_ok (compress_nonce_change pc) (NonceChangeHistory d) \<and>
     (\<forall>n. dup_distinct cnc_contract_address (dup_values encode_u64 (NonceChangeHistory d) n)) \<and>
     dup_ok (compress_class_change pc) (ClassChangeHistory d) \<and>
     (\<forall>n. dup_distinct ccc_contract_address (dup_values encode_u64 (ClassChangeHistory d) n))"

section \<open>The storage history is a change log\<close>

lemma storage_upsert_lookup:
  assumes ok: "dup_ok (compress_storage_entry pc) t"
    and dist: "\<And>a. dup_distinct se_key (dup_values encode_felt t a)"
  shows "dup_ok (compress_storage_entry pc) (storage_upsert pc addr entry t) \<and>
    dup_distinct se_key (dup_values encode_felt (storage_upsert pc addr entry t) a) \<and>
    dup_lookup se_key (dup_values encode_felt (storage_upsert pc addr entry t) a) k =
      (if a = addr \<and> k = se_key entry then Some entry
       else dup_lookup se_key (dup_values encode_felt t a) k)"
proof -
  define vs where "vs = dup_values encode_felt t addr"
  define t' where "t' = (case seek_by_key_subkey encode_felt encode_felt t addr (se_key entry) of
      Some (pos, current) \<Rightarrow>
        if se_key current = se_key entry then delete_current encode_felt addr pos t else t
    | None \<Rightarrow> t)"
  have vs: "om_ok vs" "\<forall>(b, v) \<in> set vs. b = compress_storage_entry pc v \<and> True" "dup_distinct se_key vs"
    using dup_ok_values [OF ok, where enc = encode_felt and k = addr] dist
    by (auto simp: vs_def)
  have seek: "(case find (\<lambda>e. encode_felt (se_key entry) \<le> fst e) vs of
        None \<Rightarrow> None | Some (b, w) \<Rightarrow> if se_key w = se_key entry then Some w else None)
      = dup_lookup se_key vs (se_key entry)"
    by (rule storage_subkey.seek_is_lookup [OF vs(1,2)]) simp
  have ok': "dup_ok (compress_storage_entry pc) t'"
    using ok by (auto simp: t'_def split: option.split)
  have t': "dup_distinct se_key (dup_values encode_felt t' a) \<and>
      dup_lookup se_key (dup_values encode_felt t' a) k =
        (if a = addr \<and> k = se_key entry then None
         else dup_lookup se_key (dup_values encode_felt t a) k)" for a k
  proof (cases "find (\<lambda>e. encode_felt (se_key entry) \<le> fst e) vs")
    case None
    with seek dist show ?thesis
      by (auto simp: t'_def seek_by_key_subkey_def vs_def)
  next
    case (Some e)
    obtain pos w where e: "e = (pos, w)" by (cases e)
    with Some have mem: "(pos, w) \<in> set vs"
      by (auto dest: find_Some_in)
    show ?thesis
    proof (cases "se_key w = se_key entry")
      case False
      with Some e seek dist show ?thesis
        by (auto simp: t'_def seek_by_key_subkey_def vs_def)
    next
      case True
      with Some e have "t' = delete_current encode_felt addr pos t"
        by (simp add: t'_def seek_by_key_subkey_def vs_def)
      then have "dup_values encode_felt t' a =
          (if a = addr then om_remove pos vs else dup_values encode_felt t a)"
        by (simp add: table_simps vs_def)
      with dup_lookup_remove [OF vs(3,1) mem] dup_distinct_remove [OF vs(3)] dist True
      show ?thesis by (auto simp: vs_def)
    qed
  qed
  have fresh: "dup_lookup se_key (dup_values encode_felt t' addr) (se_key entry) = None"
    using t' [of addr "se_key entry"] by simp
  have "\<forall>(b, v) \<in> set (dup_values encode_felt t' addr). b = compress_storage_entry pc v \<and> True"
    using dup_ok_values(2) [OF ok', where enc = encode_felt and k = addr] by auto
  then have bytes: "compress_storage_entry pc entry \<notin> fst ` set (dup_values encode_felt t' addr)"
    by (rule storage_subkey.bytes_fresh [OF _ _ fresh]) simp
  have "storage_upsert pc addr entry t = dup_put encode_felt (compress_storage_entry pc) addr entry t'"
    by (simp add: storage_upsert_def t'_def)
  with fresh bytes ok' t' show ?thesis
    by (auto simp: table_simps dup_lookup_insert_fresh dup_distinct_insert_fresh)
qed

text \<open>A key of the storage change set is determined by its fields.\<close>

lemma storage_key_eq:
  "\<lparr>csk_contract_address = a, csk_key = k\<rparr> = key \<longleftrightarrow> csk_contract_address key = a \<and> csk_key key = k"
  by (cases key) auto

lemma storage_key_fields [simp]:
  "\<lparr>csk_contract_address = csk_contract_address key, csk_key = csk_key key\<rparr> = key"
  by simp

lemma updated_list_cset:
  "updated_list n (tbl_get encode_contract_storage_key (StorageChangeSet d) key)
    = block_list_insert n (storage_cset d key)"
  by (auto simp: updated_list_def storage_cset_def split: option.split)

lemma storage_cur_inv_ins: "storage_cur_inv pc d \<Longrightarrow> storage_cur_inv pc (storage_ins pc n e d)"
  using storage_upsert_lookup
  by (simp add: storage_cur_inv_def storage_ins_def insert_storage_def Let_def)

lemma storage_history_ins:
  "StorageChangeHistory (storage_ins pc n (k, v) d) =
    dup_put encode_u64 (compress_contract_storage_entry pc) n \<lparr>cse_key = k, cse_value = v\<rparr>
      (StorageChangeHistory d)"
  by (simp add: storage_ins_def insert_storage_def Let_def)

lemma storage_now_ins:
  assumes "storage_cur_inv pc d"
  shows "storage_now (storage_ins pc n (k, v) d) k' = (if k' = k then Some v else storage_now d k')"
proof -
  let ?e = "\<lparr>se_key = csk_key k, se_value = v\<rparr>"
  have "ContractStorage (storage_ins pc n (k, v) d)
      = storage_upsert pc (csk_contract_address k) ?e (ContractStorage d)"
    by (simp add: storage_ins_def insert_storage_def Let_def)
  with storage_upsert_lookup [of pc "ContractStorage d" "csk_contract_address k" ?e
      "csk_contract_address k'" "csk_key k'"] assms
  show ?thesis
    by (auto simp: storage_now_def storage_cur_inv_def intro: contract_storage_key.equality)
qed

interpretation storage_log: change_log storage_cset storage_hist "storage_ins pc" "storage_inv pc"
proof unfold_locales
  fix d :: "('tx, 'rcpt, 'trace, 'cls, 'ccls) db" and n m :: block_number
    and k k' :: contract_storage_key and v :: storage_value
  assume inv: "storage_inv pc d"
  show "storage_cset (storage_ins pc n (k, v) d) k' =
      (if k' = k then block_list_insert n (storage_cset d k) else storage_cset d k')"
    using updated_list_cset [of n d k]
    by (auto simp: storage_cset_def storage_ins_def insert_storage_def Let_def table_simps)
  assume fresh: "storage_hist d n k = None"
  from inv fresh show "storage_hist (storage_ins pc n (k, v) d) m k' =
      (if m = n \<and> k' = k then Some v else storage_hist d m k')"
    by (simp add: storage_hist_def storage_inv_def storage_history_ins
        storage_change_subkey.lookup_dup_put)
  from inv fresh show "storage_inv pc (storage_ins pc n (k, v) d)"
    by (simp add: storage_inv_def storage_hist_def storage_history_ins storage_cur_inv_ins
        storage_change_subkey.distinct_dup_put)
qed

section \<open>The nonce and class histories are change logs\<close>

interpretation nonce_log: change_log nonce_cset nonce_hist "insert_nonce pc" "info_inv pc"
proof unfold_locales
  fix d :: "('tx, 'rcpt, 'trace, 'cls, 'ccls) db" and n m :: block_number
    and k k' :: contract_address and v :: nonce
  assume inv: "info_inv pc d"
  show "nonce_cset (insert_nonce pc n (k, v) d) k' =
      (if k' = k then block_list_insert n (nonce_cset d k) else nonce_cset d k')"
    by (auto simp: nonce_cset_def insert_nonce_def Let_def table_simps split: option.split)
  assume fresh: "nonce_hist d n k = None"
  have *: "NonceChangeHistory (insert_nonce pc n (k, v) d) =
      dup_put encode_u64 (compress_nonce_change pc) n \<lparr>cnc_contract_address = k, cnc_nonce = v\<rparr>
        (NonceChangeHistory d)"
    by (simp add: insert_nonce_def Let_def)
  from inv fresh * show "nonce_hist (insert_nonce pc n (k, v) d) m k' =
      (if m = n \<and> k' = k then Some v else nonce_hist d m k')"
    by (simp add: nonce_hist_def info_inv_def nonce_subkey.lookup_dup_put)
  have "ClassChangeHistory (insert_nonce pc n (k, v) d) = ClassChangeHistory d"
    by (simp add: insert_nonce_def Let_def)
  with inv fresh * show "info_inv pc (insert_nonce pc n (k, v) d)"
    by (simp add: info_inv_def nonce_hist_def nonce_subkey.distinct_dup_put)
qed

interpretation class_log: change_log class_cset class_hist "insert_deployed pc" "info_inv pc"
proof unfold_locales
  fix d :: "('tx, 'rcpt, 'trace, 'cls, 'ccls) db" and n m :: block_number
    and k k' :: contract_address and v :: class_hash
  assume inv: "info_inv pc d"
  show "class_cset (insert_deployed pc n (k, v) d) k' =
      (if k' = k then block_list_insert n (class_cset d k) else class_cset d k')"
    by (auto simp: class_cset_def insert_deployed_def Let_def table_simps split: option.split)
  assume fresh: "class_hist d n k = None"
  have *: "ClassChangeHistory (insert_deployed pc n (k, v) d) =
      dup_put encode_u64 (compress_class_change pc) n
        \<lparr>ccc_contract_address = k, ccc_class_hash = v\<rparr> (ClassChangeHistory d)"
    by (simp add: insert_deployed_def Let_def)
  from inv fresh * show "class_hist (insert_deployed pc n (k, v) d) m k' =
      (if m = n \<and> k' = k then Some v else class_hist d m k')"
    by (simp add: class_hist_def info_inv_def class_subkey.lookup_dup_put)
  have "NonceChangeHistory (insert_deployed pc n (k, v) d) = NonceChangeHistory d"
    by (simp add: insert_deployed_def Let_def)
  with inv fresh * show "info_inv pc (insert_deployed pc n (k, v) d)"
    by (simp add: info_inv_def class_hist_def class_subkey.distinct_dup_put)
qed

section \<open>The reads as of a block\<close>

lemma historical_storage_eq:
  assumes "storage_inv pc d" "log_ok (storage_cset d) (storage_hist d) bound" "bound < 2 ^ 64"
  shows "historical_storage d b a k =
    Ok (value_at (storage_cset d) (storage_hist d) b \<lparr>csk_contract_address = a, csk_key = k\<rparr>)"
proof -
  let ?k = "\<lparr>csk_contract_address = a, csk_key = k\<rparr>"
  have rc: "Option.bind (tbl_get encode_contract_storage_key (StorageChangeSet d) ?k)
      (recent_change_from_block b) = recent_change_from_block b (storage_cset d ?k)"
    by (simp add: storage_cset_def split: option.split)
  show ?thesis
  proof (cases "recent_change_from_block b (storage_cset d ?k)")
    case None
    with rc show ?thesis by (simp add: historical_storage_def value_at_def)
  next
    case (Some n)
    then obtain v where v: "storage_hist d n ?k = Some v"
      using recent_change_hist [OF assms(2,3)] by blast
    then obtain w where w: "dup_lookup cse_key (dup_values encode_u64 (StorageChangeHistory d) n) ?k
        = Some w" "cse_value w = v"
      by (auto simp: storage_hist_def)
    moreover obtain pos where "seek_by_key_subkey encode_u64 encode_contract_storage_key
        (StorageChangeHistory d) n ?k = Some (pos, w)" "cse_key w = ?k"
      using storage_change_subkey.seek_present [OF _ w(1)] assms(1) by (auto simp: storage_inv_def)
    ultimately show ?thesis
      using rc Some v by (simp add: historical_storage_def value_at_def)
  qed
qed

lemma historical_nonce_eq:
  assumes "info_inv pc d" "log_ok (nonce_cset d) (nonce_hist d) bound" "bound < 2 ^ 64"
  shows "historical_nonce d b a = Ok (value_at (nonce_cset d) (nonce_hist d) b a)"
proof -
  have rc: "Option.bind (tbl_get encode_felt (ContractInfoChangeSet d) a)
      (\<lambda>e. recent_change_from_block b (nonce_change_list e)) = recent_change_from_block b (nonce_cset d a)"
    by (simp add: nonce_cset_def split: option.split)
  show ?thesis
  proof (cases "recent_change_from_block b (nonce_cset d a)")
    case None
    with rc show ?thesis by (simp add: historical_nonce_def value_at_def)
  next
    case (Some n)
    then obtain v where v: "nonce_hist d n a = Some v"
      using recent_change_hist [OF assms(2,3)] by blast
    then obtain w where w: "dup_lookup cnc_contract_address
        (dup_values encode_u64 (NonceChangeHistory d) n) a = Some w" "cnc_nonce w = v"
      by (auto simp: nonce_hist_def)
    moreover obtain pos where "seek_by_key_subkey encode_u64 encode_felt (NonceChangeHistory d) n a
        = Some (pos, w)" "cnc_contract_address w = a"
      using nonce_subkey.seek_present [OF _ w(1)] assms(1) by (auto simp: info_inv_def)
    ultimately show ?thesis
      using rc Some v by (simp add: historical_nonce_def value_at_def)
  qed
qed

lemma historical_class_hash_eq:
  assumes "info_inv pc d" "log_ok (class_cset d) (class_hist d) bound" "bound < 2 ^ 64"
  shows "historical_class_hash_of_contract d b a = Ok (value_at (class_cset d) (class_hist d) b a)"
proof -
  have rc: "Option.bind (tbl_get encode_felt (ContractInfoChangeSet d) a)
      (\<lambda>e. recent_change_from_block b (class_change_list e)) = recent_change_from_block b (class_cset d a)"
    by (simp add: class_cset_def split: option.split)
  show ?thesis
  proof (cases "recent_change_from_block b (class_cset d a)")
    case None
    with rc show ?thesis by (simp add: historical_class_hash_of_contract_def value_at_def)
  next
    case (Some n)
    then obtain v where v: "class_hist d n a = Some v"
      using recent_change_hist [OF assms(2,3)] by blast
    then obtain w where w: "dup_lookup ccc_contract_address
        (dup_values encode_u64 (ClassChangeHistory d) n) a = Some w" "ccc_class_hash w = v"
      by (auto simp: class_hist_def)
    moreover obtain pos where "seek_by_key_subkey encode_u64 encode_felt (ClassChangeHistory d) n a
        = Some (pos, w)" "ccc_contract_address w = a"
      using class_subkey.seek_present [OF _ w(1)] assms(1) by (auto simp: info_inv_def)
    ultimately show ?thesis
      using rc Some v by (simp add: historical_class_hash_of_contract_def value_at_def)
  qed
qed

lemma latest_storage_eq:
  assumes "storage_cur_inv pc d"
  shows "latest_storage d a k = Ok (storage_now d \<lparr>csk_contract_address = a, csk_key = k\<rparr>)"
proof -
  let ?vs = "dup_values encode_felt (ContractStorage d) a"
  have vs: "om_ok ?vs" "\<forall>(b, v) \<in> set ?vs. b = compress_storage_entry pc v \<and> True"
    using assms dup_ok_values [where com = "compress_storage_entry pc" and t = "ContractStorage d"
        and enc = encode_felt and k = a]
    by (auto simp: storage_cur_inv_def)
  show ?thesis
    using storage_subkey.seek_is_lookup [OF vs, of k, symmetric]
    by (simp add: latest_storage_def seek_by_key_subkey_def storage_now_def split: option.split)
qed

section \<open>One block\<close>

text \<open>The two nested loops over the storage updates are one loop over the changed slots.\<close>

definition storage_changes ::
  "(contract_address, (storage_key, storage_value) ordered_map) ordered_map
    \<Rightarrow> (contract_storage_key \<times> storage_value) list" where
  "storage_changes us =
     concat (map (\<lambda>(a, m). map (\<lambda>(k, v). (\<lparr>csk_contract_address = a, csk_key = k\<rparr>, v)) m) us)"

lemma fold_storage_changes:
  "fold (insert_contract_storage pc n) us d = fold (storage_ins pc n) (storage_changes us) d"
proof (induction us arbitrary: d)
  case Nil
  then show ?case by (simp add: storage_changes_def)
next
  case (Cons u us)
  have "fold (insert_storage pc n (fst u)) m d
      = fold (storage_ins pc n)
          (map (\<lambda>(k, v). (\<lparr>csk_contract_address = fst u, csk_key = k\<rparr>, v)) m) d" for m
    by (induction m arbitrary: d) (auto simp: storage_ins_def)
  with Cons show ?case
    by (simp add: storage_changes_def insert_contract_storage_def case_prod_unfold)
qed

lemma storage_changes_Cons:
  "storage_changes ((a, m) # us) =
    map (\<lambda>(k, v). (\<lparr>csk_contract_address = a, csk_key = k\<rparr>, v)) m @ storage_changes us"
  by (simp add: storage_changes_def)

lemma storage_changes_keys:
  "csk_contract_address ` fst ` set (storage_changes us) \<subseteq> fst ` set us"
  by (force simp: storage_changes_def)

lemma distinct_storage_changes:
  "om_ok us \<Longrightarrow> \<forall>(a, m) \<in> set us. om_ok m \<Longrightarrow> distinct (map fst (storage_changes us))"
proof (induction us)
  case Nil
  then show ?case by (simp add: storage_changes_def)
next
  case (Cons u us)
  obtain a m where u: "u = (a, m)" by (cases u)
  let ?f = "\<lambda>(k, v). (\<lparr>csk_contract_address = a, csk_key = k\<rparr>, v)"
  have "map fst (map ?f m) = map (\<lambda>k. \<lparr>csk_contract_address = a, csk_key = k\<rparr>) (map fst m)"
    by (simp add: case_prod_unfold)
  moreover have "distinct (map fst m)"
    using Cons.prems u by (simp add: om_ok_distinct)
  ultimately have 1: "distinct (map fst (map ?f m))"
    by (simp only: distinct_map) (simp add: inj_on_def)
  have 2: "distinct (map fst (storage_changes us))"
    using Cons by auto
  have "a \<notin> fst ` set us"
    using Cons.prems(1) u by (auto simp: om_ok_Cons)
  then have notin: "a \<notin> csk_contract_address ` fst ` set (storage_changes us)"
    using storage_changes_keys [of us] by blast
  have "csk_contract_address x = a" if "x \<in> set (map fst (map ?f m))" for x
    using that by auto
  then have 3: "set (map fst (map ?f m)) \<inter> set (map fst (storage_changes us)) = {}"
    using disjoint_by_image [OF notin, of "set (map fst (map ?f m))"] by (simp only: set_map)
  show ?case
    unfolding u storage_changes_Cons map_append distinct_append using 1 2 3 by blast
qed

lemma map_of_storage_changes:
  "om_ok us \<Longrightarrow> map_of (storage_changes us) k =
    Option.bind (om_get us (csk_contract_address k)) (\<lambda>m. om_get m (csk_key k))"
proof (induction us)
  case Nil
  then show ?case by (simp add: storage_changes_def)
next
  case (Cons u us)
  obtain a m where u: "u = (a, m)" by (cases u)
  have inner: "map_of (map (\<lambda>(j, v). (\<lparr>csk_contract_address = a, csk_key = j\<rparr>, v)) m) k
      = (if csk_contract_address k = a then om_get m (csk_key k) else None)"
    by (induction m) (auto simp: om_get_def storage_key_eq)
  have "om_get us a = None"
    using Cons.prems u by (auto simp: om_get_None_iff om_ok_Cons)
  with Cons inner u show ?case
    by (auto simp: storage_changes_Cons map_add_def om_get_def split: option.splits)
qed

text \<open>What is read of a group of tables depends on this group only.\<close>

lemma storage_view_cong:
  assumes "storage_view d = storage_view d'"
  shows "storage_inv pc d = storage_inv pc d'" "storage_cur_inv pc d = storage_cur_inv pc d'"
    "storage_cset d = storage_cset d'"
    "storage_hist d = storage_hist d'" "storage_now d = storage_now d'"
  using assms
  by (auto simp: storage_view_def storage_inv_def storage_cur_inv_def fun_eq_iff storage_cset_def storage_hist_def
      storage_now_def)

definition info_now where
  "info_now d a = tbl_get encode_felt (ContractInfo d) a"

lemma info_view_cong:
  assumes "info_view d = info_view d'"
  shows "info_inv pc d = info_inv pc d'" "nonce_cset d = nonce_cset d'"
    "nonce_hist d = nonce_hist d'" "class_cset d = class_cset d'" "class_hist d = class_hist d'"
    "info_now d = info_now d'"
  using assms
  by (auto simp: info_view_def info_inv_def fun_eq_iff nonce_cset_def nonce_hist_def class_cset_def
      class_hist_def info_now_def)

lemma insert_deployed_nonces [simp]:
  "nonce_cset (insert_deployed pc n e d) = nonce_cset d"
  "nonce_hist (insert_deployed pc n e d) = nonce_hist d"
  by (auto simp: fun_eq_iff nonce_cset_def nonce_hist_def insert_deployed_def Let_def table_simps
      change_list_default_def block_list_new_def split: option.split)

lemma insert_nonce_classes [simp]:
  "class_cset (insert_nonce pc n e d) = class_cset d"
  "class_hist (insert_nonce pc n e d) = class_hist d"
  by (auto simp: fun_eq_iff class_cset_def class_hist_def insert_nonce_def Let_def table_simps
      change_list_default_def block_list_new_def split: option.split)

lemma fold_insert_deployed_nonces [simp]:
  "nonce_cset (fold (insert_deployed pc n) es d) = nonce_cset d"
  "nonce_hist (fold (insert_deployed pc n) es d) = nonce_hist d"
  by (rule fold_frame [where f = nonce_cset], simp) (rule fold_frame [where f = nonce_hist], simp)

lemma fold_insert_nonce_classes [simp]:
  "class_cset (fold (insert_nonce pc n) es d) = class_cset d"
  "class_hist (fold (insert_nonce pc n) es d) = class_hist d"
  by (rule fold_frame [where f = class_cset], simp) (rule fold_frame [where f = class_hist], simp)

text \<open>The information of a contract exists once its class or its nonce was written; the other
  field is then zero.\<close>

definition spec_info ::
  "(contract_address \<Rightarrow> nonce option) \<Rightarrow> (contract_address \<Rightarrow> class_hash option)
    \<Rightarrow> contract_address \<Rightarrow> generic_contract_info option" where
  "spec_info nonces classes a =
     (if nonces a = None \<and> classes a = None then None
      else Some \<lparr>ci_nonce = (case nonces a of None \<Rightarrow> 0 | Some v \<Rightarrow> v),
                 ci_class_hash = (case classes a of None \<Rightarrow> 0 | Some h \<Rightarrow> h)\<rparr>)"

lemma override_upd:
  "a \<notin> fst ` set es \<Longrightarrow>
    override (map_of es) (override (map_of [(a, v)]) old) = override (map_of ((a, v) # es)) old"
  using map_of_eq_None_iff [of es a] by (auto simp: fun_eq_iff override_def split: option.split)

lemma info_now_deployed:
  "info_now d = spec_info ns cs \<Longrightarrow>
    info_now (insert_deployed pc n (a, h) d) = spec_info ns (override (map_of [(a, h)]) cs)"
  by (auto simp: fun_eq_iff info_now_def insert_deployed_def Let_def table_simps spec_info_def
      override_def contract_info_default_def split: option.splits)

lemma info_now_nonce:
  "info_now d = spec_info ns cs \<Longrightarrow>
    info_now (insert_nonce pc n (a, v) d) = spec_info (override (map_of [(a, v)]) ns) cs"
  by (auto simp: fun_eq_iff info_now_def insert_nonce_def Let_def table_simps spec_info_def
      override_def contract_info_default_def split: option.splits)

lemma info_now_fold_deployed:
  "distinct (map fst es) \<Longrightarrow> info_now d = spec_info ns cs \<Longrightarrow>
    info_now (fold (insert_deployed pc n) es d) = spec_info ns (override (map_of es) cs)"
proof (induction es arbitrary: d cs)
  case Nil
  then show ?case by (simp add: override_def)
next
  case (Cons e es)
  obtain a v where e: "e = (a, v)" by (cases e)
  have "info_now (fold (insert_deployed pc n) es (insert_deployed pc n (a, v) d))
      = spec_info ns (override (map_of es) (override (map_of [(a, v)]) cs))"
    using Cons.prems(1) by (intro Cons.IH info_now_deployed Cons.prems(2)) simp
  moreover have "a \<notin> fst ` set es"
    using Cons.prems(1) e by simp
  ultimately show ?case
    by (simp only: e fold_simps override_upd not_False_eq_True)
qed

lemma info_now_fold_nonce:
  "distinct (map fst es) \<Longrightarrow> info_now d = spec_info ns cs \<Longrightarrow>
    info_now (fold (insert_nonce pc n) es d) = spec_info (override (map_of es) ns) cs"
proof (induction es arbitrary: d ns)
  case Nil
  then show ?case by (simp add: override_def)
next
  case (Cons e es)
  obtain a v where e: "e = (a, v)" by (cases e)
  have "info_now (fold (insert_nonce pc n) es (insert_nonce pc n (a, v) d))
      = spec_info (override (map_of es) (override (map_of [(a, v)]) ns)) cs"
    using Cons.prems(1) by (intro Cons.IH info_now_nonce Cons.prems(2)) simp
  moreover have "a \<notin> fst ` set es"
    using Cons.prems(1) e by simp
  ultimately show ?case
    by (simp only: e fold_simps override_upd not_False_eq_True)
qed

lemma storage_now_fold:
  "storage_cur_inv pc d \<Longrightarrow> distinct (map fst es) \<Longrightarrow>
    storage_now (fold (storage_ins pc n) es d) = override (map_of es) (storage_now d)"
proof (induction es arbitrary: d)
  case Nil
  then show ?case by (simp add: override_def)
next
  case (Cons e es)
  obtain k v where e: "e = (k, v)" by (cases e)
  have "storage_now (storage_ins pc n (k, v) d) = override (map_of [(k, v)]) (storage_now d)"
    using storage_now_ins [OF Cons.prems(1)] by (auto simp: fun_eq_iff override_def)
  moreover have "storage_now (fold (storage_ins pc n) es (storage_ins pc n (k, v) d))
      = override (map_of es) (storage_now (storage_ins pc n (k, v) d))"
    using Cons.prems by (intro Cons.IH storage_cur_inv_ins) simp_all
  moreover have "k \<notin> fst ` set es"
    using Cons.prems(2) e by simp
  ultimately show ?case
    by (simp only: e fold_simps override_upd not_False_eq_True)
qed

text \<open>The database just before the storage loop, and just before the two loops on the contract
  information, as far as these read it.\<close>

lemma insert_input_parts:
  fixes d :: "('tx, 'rcpt, 'trace, 'cls, 'ccls) db"
  obtains d1 d2 :: "('tx, 'rcpt, 'trace, 'cls, 'ccls) db" where
    "storage_view d1 = storage_view d" "info_view d2 = info_view d"
    "storage_view (insert_input pc b d) =
       storage_view (fold (storage_ins pc (input_number b))
         (storage_changes (storage_updates (input_updates b))) d1)"
    "info_view (insert_input pc b d) =
       info_view (fold (insert_nonce pc (input_number b)) (nonce_updates (input_updates b))
         (fold (insert_deployed pc (input_number b)) (deployed_contracts (input_updates b)) d2))"
proof -
  obtain bl st rs ts where b: "b = (bl, st, rs, ts)" by (cases b) auto
  let ?n = "h_number (sb_header (sbs_block bl))"
  let ?off = "of_nat (tbl_entries (Transactions d)) :: u64"
  let ?su = "suc_state_updates st"
  define d1 where "d1 = fold insert_class (suc_classes st)
    (fold (insert_deprecated pc ?n) (deprecated_declared_classes ?su)
      (fold (insert_declared pc ?n) (declared_classes ?su)
        (fold (insert_trace ?off) (enumerate 0 ts)
          (fold (insert_receipt ?off) (enumerate 0 rs)
            (fold (insert_tx ?n ?off) (enumerate 0 (sb_body (sbs_block bl)))
              (insert_block_header bl ?off d))))))"
  define d2 where "d2 = fold (insert_contract_storage pc ?n) (storage_updates ?su) d1"
  have "insert_input pc b d =
    fold (insert_nonce pc ?n) (nonce_updates ?su)
      (fold (insert_deployed pc ?n) (deployed_contracts ?su) d2)"
    by (simp add: insert_input_def b insert_block_with_states_and_receipts_def insert_state_def
        Let_def d1_def d2_def)
  then show ?thesis
    using that [of d1 d2]
    by (simp add: b d1_def d2_def fold_storage_changes [symmetric] input_number_def input_updates_def)
qed

text \<open>What the refinement keeps: the structure of the tables, the three logs and the latest
  state, for the blocks inserted so far.\<close>

definition state_inv ::
  "(felt \<Rightarrow> bytes) \<Rightarrow> nat \<Rightarrow> (block_number \<Rightarrow> abs_state) \<Rightarrow> abs_state
    \<Rightarrow> ('tx, 'rcpt, 'trace, 'cls, 'ccls) db \<Rightarrow> bool" where
  "state_inv pc bound at now d \<longleftrightarrow>
     storage_inv pc d \<and> info_inv pc d \<and>
     log_ok (storage_cset d) (storage_hist d) bound \<and>
     log_ok (nonce_cset d) (nonce_hist d) bound \<and>
     log_ok (class_cset d) (class_hist d) bound \<and>
     (\<forall>n. value_at (storage_cset d) (storage_hist d) n = a_storage (at n)) \<and>
     (\<forall>n. value_at (nonce_cset d) (nonce_hist d) n = a_nonce (at n)) \<and>
     (\<forall>n. value_at (class_cset d) (class_hist d) n = a_class (at n)) \<and>
     storage_now d = a_storage now \<and>
     info_now d = spec_info (a_nonce now) (a_class now)"

text \<open>One more block: the states as of earlier blocks stay, from its number on its updates show.\<close>

lemma value_at_override:
  assumes "log_ok cset hist bound" "block_recorded n chg cset hist cset' hist'"
    "bound \<le> unat n" "Suc (unat n) < 2 ^ 64" "value_at cset hist b = old"
  shows "value_at cset' hist' b = (if n \<le> b then override chg old else old)"
  using value_at_recorded [OF assms(1-4)] assms(5)
  by (auto simp: fun_eq_iff override_def split: option.split)

lemma storage_step:
  fixes d :: "('tx, 'rcpt, 'trace, 'cls, 'ccls) db"
  assumes "storage_inv pc d" "log_ok (storage_cset d) (storage_hist d) bound"
    "bound \<le> unat (input_number b)" "state_updates_ok (input_updates b)"
  shows "storage_inv pc (insert_input pc b d) \<and>
    block_recorded (input_number b) (storage_change (input_updates b)) (storage_cset d) (storage_hist d)
      (storage_cset (insert_input pc b d)) (storage_hist (insert_input pc b d)) \<and>
    storage_now (insert_input pc b d) = override (storage_change (input_updates b)) (storage_now d)"
proof -
  obtain d1 :: "('tx, 'rcpt, 'trace, 'cls, 'ccls) db"
    where v: "storage_view d1 = storage_view d"
    "storage_view (insert_input pc b d) =
      storage_view (fold (storage_ins pc (input_number b))
         (storage_changes (storage_updates (input_updates b))) d1)"
    by (rule insert_input_parts [where d = d and pc = pc and b = b])
  note c1 = storage_view_cong [OF v(1)] and c2 = storage_view_cong [OF v(2)]
  let ?es = "storage_changes (storage_updates (input_updates b))"
  have us: "om_ok (storage_updates (input_updates b))"
    "\<forall>(a, m) \<in> set (storage_updates (input_updates b)). om_ok m"
    using assms(4) by (simp_all add: state_updates_ok_def)
  then have dist: "distinct (map fst ?es)"
    by (rule distinct_storage_changes)
  have chg: "map_of ?es = storage_change (input_updates b)"
    using map_of_storage_changes [OF us(1)] by (auto simp: fun_eq_iff storage_change_def)
  have "\<forall>k \<in> fst ` set ?es. storage_hist d1 (input_number b) k = None"
    using log_fresh [OF assms(2,3)] by (simp add: c1)
  moreover have inv: "storage_inv pc d1" "storage_cur_inv pc d1"
    using assms(1) by (simp_all add: c1) (simp add: storage_inv_def)
  ultimately show ?thesis
    using storage_log.record_changes [OF inv(1) dist, of "input_number b"]
      storage_now_fold [OF inv(2) dist, of "input_number b"]
    by (simp add: c1 c2 chg)
qed

lemma info_step:
  fixes d :: "('tx, 'rcpt, 'trace, 'cls, 'ccls) db"
  assumes "info_inv pc d" "log_ok (nonce_cset d) (nonce_hist d) bound"
    "log_ok (class_cset d) (class_hist d) bound"
    "bound \<le> unat (input_number b)" "state_updates_ok (input_updates b)"
    "info_now d = spec_info ns cs"
  shows "info_inv pc (insert_input pc b d) \<and>
    block_recorded (input_number b) (om_get (nonce_updates (input_updates b))) (nonce_cset d)
      (nonce_hist d) (nonce_cset (insert_input pc b d)) (nonce_hist (insert_input pc b d)) \<and>
    block_recorded (input_number b) (om_get (deployed_contracts (input_updates b))) (class_cset d)
      (class_hist d) (class_cset (insert_input pc b d)) (class_hist (insert_input pc b d)) \<and>
    info_now (insert_input pc b d) =
      spec_info (override (om_get (nonce_updates (input_updates b))) ns)
        (override (om_get (deployed_contracts (input_updates b))) cs)"
proof -
  let ?n = "input_number b" and ?N = "nonce_updates (input_updates b)"
    and ?C = "deployed_contracts (input_updates b)"
  obtain d2 :: "('tx, 'rcpt, 'trace, 'cls, 'ccls) db"
    where v: "info_view d2 = info_view d"
    "info_view (insert_input pc b d) =
      info_view (fold (insert_nonce pc ?n) ?N (fold (insert_deployed pc ?n) ?C d2))"
    by (rule insert_input_parts [where d = d and pc = pc and b = b])
  define d3 where "d3 = fold (insert_deployed pc ?n) ?C d2"
  note c1 = info_view_cong [OF v(1)] and c2 = info_view_cong [OF v(2) [folded d3_def]]
  have dist: "distinct (map fst ?N)" "distinct (map fst ?C)"
    using assms(5) by (simp_all add: state_updates_ok_def om_ok_distinct)
  have inv2: "info_inv pc d2" using assms(1) by (simp add: c1)
  have cls: "info_inv pc d3" "block_recorded ?n (om_get ?C) (class_cset d) (class_hist d)
      (class_cset d3) (class_hist d3)"
    using class_log.record_changes [OF inv2 dist(2), of ?n] log_fresh [OF assms(3,4)]
    by (simp_all add: c1 d3_def om_get_def [abs_def])
  have "block_recorded ?n (om_get ?N) (nonce_cset d) (nonce_hist d)
      (nonce_cset (fold (insert_nonce pc ?n) ?N d3)) (nonce_hist (fold (insert_nonce pc ?n) ?N d3))"
    "info_inv pc (fold (insert_nonce pc ?n) ?N d3)"
    using nonce_log.record_changes [OF cls(1) dist(1), of ?n] log_fresh [OF assms(2,4)]
    by (simp_all add: d3_def c1 om_get_def [abs_def])
  moreover have "info_now (fold (insert_nonce pc ?n) ?N d3) =
      spec_info (override (om_get ?N) ns) (override (om_get ?C) cs)"
  proof -
    have "info_now d2 = spec_info ns cs" using assms(6) by (simp add: c1)
    from info_now_fold_nonce [OF dist(1) info_now_fold_deployed [OF dist(2) this]]
    show ?thesis by (simp add: d3_def om_get_def [abs_def])
  qed
  ultimately show ?thesis
    using cls(2) by (simp add: c2)
qed

lemma state_inv_step:
  fixes d :: "('tx, 'rcpt, 'trace, 'cls, 'ccls) db"
  assumes "state_inv pc bound at now d" "bound \<le> unat (input_number b)"
    "Suc (unat (input_number b)) < 2 ^ 64" "state_updates_ok (input_updates b)"
  shows "state_inv pc (Suc (unat (input_number b)))
    (\<lambda>n. if input_number b \<le> n then apply_updates (input_updates b) (at n) else at n)
    (apply_updates (input_updates b) now) (insert_input pc b d)"
proof -
  let ?d = "insert_input pc b d" and ?n = "input_number b" and ?su = "input_updates b"
  from assms(1) have inv: "storage_inv pc d" "info_inv pc d"
    and logs: "log_ok (storage_cset d) (storage_hist d) bound"
      "log_ok (nonce_cset d) (nonce_hist d) bound" "log_ok (class_cset d) (class_hist d) bound"
    and at: "\<And>n. value_at (storage_cset d) (storage_hist d) n = a_storage (at n)"
      "\<And>n. value_at (nonce_cset d) (nonce_hist d) n = a_nonce (at n)"
      "\<And>n. value_at (class_cset d) (class_hist d) n = a_class (at n)"
    and now: "storage_now d = a_storage now" "info_now d = spec_info (a_nonce now) (a_class now)"
    unfolding state_inv_def by blast+
  note st = storage_step [OF inv(1) logs(1) assms(2,4)]
  note inf = info_step [OF inv(2) logs(2,3) assms(2,4) now(2)]
  from st have s: "block_recorded ?n (storage_change ?su) (storage_cset d) (storage_hist d)
      (storage_cset ?d) (storage_hist ?d)" by blast
  from inf have ns: "block_recorded ?n (om_get (nonce_updates ?su)) (nonce_cset d) (nonce_hist d)
      (nonce_cset ?d) (nonce_hist ?d)" by blast
  from inf have cs: "block_recorded ?n (om_get (deployed_contracts ?su)) (class_cset d)
      (class_hist d) (class_cset ?d) (class_hist ?d)" by blast
  show ?thesis
    unfolding state_inv_def
  proof (intro conjI allI)
    show "value_at (storage_cset ?d) (storage_hist ?d) n =
        a_storage (if ?n \<le> n then apply_updates ?su (at n) else at n)" for n
      using value_at_override [OF logs(1) s assms(2,3) at(1)] by (simp add: apply_updates_def)
    show "value_at (nonce_cset ?d) (nonce_hist ?d) n =
        a_nonce (if ?n \<le> n then apply_updates ?su (at n) else at n)" for n
      using value_at_override [OF logs(2) ns assms(2,3) at(2)] by (simp add: apply_updates_def)
    show "value_at (class_cset ?d) (class_hist ?d) n =
        a_class (if ?n \<le> n then apply_updates ?su (at n) else at n)" for n
      using value_at_override [OF logs(3) cs assms(2,3) at(3)] by (simp add: apply_updates_def)
  qed (use st inf now log_ok_recorded [OF logs(1) s assms(2)] log_ok_recorded [OF logs(2) ns assms(2)]
      log_ok_recorded [OF logs(3) cs assms(2)] in \<open>simp_all add: apply_updates_def\<close>)
qed

section \<open>A chain of blocks\<close>

lemma state_inv_empty: "state_inv pc 0 (\<lambda>_. abs_empty) abs_empty empty_db"
  by (simp add: state_inv_def storage_inv_def storage_cur_inv_def info_inv_def empty_db_def abs_empty_def fun_eq_iff
      storage_cset_def [abs_def] storage_hist_def [abs_def] nonce_cset_def [abs_def]
      nonce_hist_def [abs_def] class_cset_def [abs_def] class_hist_def [abs_def] storage_now_def
      info_now_def tbl_get_def dup_values_def value_at_def spec_info_def)

text \<open>The state after the whole chain.\<close>

definition state_now :: "('tx, 'rcpt, 'trace, 'cls) block_input list \<Rightarrow> abs_state" where
  "state_now bs = fold (\<lambda>b. apply_updates (input_updates b)) bs abs_empty"

definition chain_bound :: "('tx, 'rcpt, 'trace, 'cls) block_input list \<Rightarrow> nat" where
  "chain_bound bs = (if bs = [] then 0 else Suc (unat (input_number (last bs))))"

lemma state_at_snoc:
  "state_at (bs @ [b]) n =
    (if input_number b \<le> n then apply_updates (input_updates b) (state_at bs n) else state_at bs n)"
  by (simp add: state_at_def)

lemma chain_ok_snoc:
  "chain_ok (bs @ [b]) \<Longrightarrow>
    chain_ok bs \<and> chain_bound bs \<le> unat (input_number b) \<and> Suc (unat (input_number b)) < 2 ^ 64 \<and>
    state_updates_ok (input_updates b)"
  by (cases "bs = []")
     (auto simp: chain_ok_def chain_bound_def sorted_wrt_append word_less_nat_alt Suc_le_eq)

lemma chain_state_inv:
  "chain_ok bs \<Longrightarrow> d = insert_chain pc bs empty_db \<Longrightarrow>
    state_inv pc (chain_bound bs) (state_at bs) (state_now bs) d"
proof (induction bs arbitrary: d rule: rev_induct)
  case Nil
  then show ?case
    using state_inv_empty
    by (simp add: chain_bound_def state_at_def [abs_def] state_now_def insert_chain_def)
next
  case (snoc b bs)
  note ok = chain_ok_snoc [OF snoc.prems(1)]
  obtain d0 where d0: "d0 = insert_chain pc bs empty_db" "d = insert_input pc b d0"
    using snoc.prems(2) by (simp add: insert_chain_def)
  have "state_inv pc (Suc (unat (input_number b)))
      (\<lambda>n. if input_number b \<le> n then apply_updates (input_updates b) (state_at bs n) else state_at bs n)
      (apply_updates (input_updates b) (state_now bs)) d"
    unfolding d0(2) by (rule state_inv_step [OF snoc.IH [OF _ d0(1)]]) (use ok in blast)+
  moreover have "chain_bound (bs @ [b]) = Suc (unat (input_number b))"
    by (simp add: chain_bound_def)
  ultimately show ?case
    by (simp add: state_at_snoc [abs_def] state_now_def)
qed

lemma chain_bound_less: "chain_ok bs \<Longrightarrow> chain_bound bs < 2 ^ 64"
  by (auto simp: chain_ok_def chain_bound_def)

section \<open>A sample chain\<close>

text \<open>Two blocks that change one storage slot and one nonce twice, for the witnesses.\<close>

definition sample_block ::
  "block_number \<Rightarrow> block_hash \<Rightarrow> nat tx_with_hash list \<Rightarrow> state_updates \<Rightarrow> (nat, nat, nat, nat) block_input"
  where
  "sample_block n h txs su =
     (\<lparr>sbs_block = \<lparr>sb_hash = h, sb_header = header_default\<lparr>h_number := n\<rparr>, sb_body = txs\<rparr>,
       sbs_status = AcceptedOnL2\<rparr>,
      \<lparr>suc_state_updates = su, suc_classes = []\<rparr>, map twh_transaction txs, map (Suc \<circ> twh_transaction) txs)"

definition sample_updates :: "felt \<Rightarrow> felt \<Rightarrow> state_updates" where
  "sample_updates nonce value =
     state_updates_default\<lparr>nonce_updates := [(1, nonce)], storage_updates := [(1, [(0, value)])]\<rparr>"

definition sample_chain :: "(nat, nat, nat, nat) block_input list" where
  "sample_chain =
     [sample_block 0 (felt 10) [\<lparr>twh_hash = felt 100, twh_transaction = 7\<rparr>] (sample_updates (felt 1) (felt 5)),
      sample_block 2 (felt 11) [\<lparr>twh_hash = felt 101, twh_transaction = 8\<rparr>] (sample_updates (felt 2) (felt 6))]"

lemma sample_updates_ok: "state_updates_ok (sample_updates n v)"
  by (simp add: sample_updates_def state_updates_ok_def state_updates_default_def om_ok_def)

lemma input_sample_block [simp]:
  "input_number (sample_block n h txs su) = n" "input_updates (sample_block n h txs su) = su"
  by (simp_all add: sample_block_def input_number_def input_updates_def)

lemma sample_chain_ok: "chain_ok sample_chain"
  by (simp add: chain_ok_def sample_chain_def sample_updates_ok)

lemma historical_reads:
  assumes "chain_ok bs"
    and d_def: "d = insert_chain pc bs empty_db"
  shows "historical_storage d n a k = Ok (a_storage (state_at bs n) \<lparr>csk_contract_address = a, csk_key = k\<rparr>) \<and>
    historical_nonce d n a = Ok (a_nonce (state_at bs n) a) \<and>
    historical_class_hash_of_contract d n a = Ok (a_class (state_at bs n) a)"
proof -
  note inv = chain_state_inv [OF assms, unfolded state_inv_def]
  have "storage_inv pc d" "log_ok (storage_cset d) (storage_hist d) (chain_bound bs)"
    "info_inv pc d" "log_ok (nonce_cset d) (nonce_hist d) (chain_bound bs)"
    "log_ok (class_cset d) (class_hist d) (chain_bound bs)"
    using inv by blast+
  note eqs = historical_storage_eq [OF this(1,2)] historical_nonce_eq [OF this(3,4)]
    historical_class_hash_eq [OF this(3,5)]
  show ?thesis
    using eqs [OF chain_bound_less [OF assms(1)]] inv by simp
qed

text \<open>The sample chain as of block 1: the values of block 0, not those of block 2.\<close>

section \<open>Properties\<close>





end
