(* ===== verification/Block_Refinement.thy ===== *)
theory Block_Refinement
  imports State_Refinement
begin

text \<open>
  The block side of the provider implements an append-only chain.  The transaction tables are
  arrays indexed by the transaction number: the table is exactly the list of its numbered values
  (\<open>tbl_array\<close>), and inserting a block appends to it.  From this every block, transaction, receipt,
  trace and status that was inserted is read back, by number and by hash, whatever was inserted
  later, and none of the \<open>Missing...\<close> errors of the provider occurs.
\<close>

section \<open>Tables as arrays\<close>

definition tbl_array :: "'v table \<Rightarrow> 'v list \<Rightarrow> bool" where
  "tbl_array t xs \<longleftrightarrow> t = map (\<lambda>i. (encode_u64 (of_nat i), xs ! i)) [0 ..< length xs]"

lemma om_insert_last:
  "\<forall>k' \<in> fst ` set m. k' < k \<Longrightarrow> om_insert k v m = m @ [(k, v)]"
  by (induction m rule: om_insert.induct) auto

lemma encode_u64_nat_less:
  assumes "i < j" "j < 2 ^ 64"
  shows "encode_u64 (of_nat i) < encode_u64 (of_nat j)"
  using assms by (simp add: encode_u64_less_iff word_less_nat_alt unat_of_nat)

lemma tbl_array_put:
  assumes "tbl_array t xs" "length xs < 2 ^ 64"
  shows "tbl_array (tbl_put encode_u64 (of_nat (length xs)) x t) (xs @ [x])"
proof -
  have t: "t = map (\<lambda>i. (encode_u64 (of_nat i), xs ! i)) [0 ..< length xs]"
    using assms(1) by (simp add: tbl_array_def)
  have "\<forall>k' \<in> fst ` set t. k' < encode_u64 (of_nat (length xs))"
    using assms(2) by (auto simp: t intro: encode_u64_nat_less)
  then have "tbl_put encode_u64 (of_nat (length xs)) x t = t @ [(encode_u64 (of_nat (length xs)), x)]"
    by (simp add: tbl_put_def om_insert_last)
  then show ?thesis
    by (simp add: tbl_array_def t nth_append)
qed

lemma tbl_array_puts:
  assumes "tbl_array t xs" "length xs + length ys \<le> 2 ^ 64" "length xs = off + j"
  shows "tbl_array (fold (\<lambda>e. tbl_put encode_u64 (of_nat off + of_nat (fst e)) (f (snd e)))
    (enumerate j ys) t) (xs @ map f ys)"
  using assms
proof (induction ys arbitrary: t xs j)
  case Nil
  then show ?case by simp
next
  case (Cons y ys)
  have "tbl_array (tbl_put encode_u64 (of_nat (length xs)) (f y) t) (xs @ [f y])"
    using Cons.prems by (intro tbl_array_put) auto
  moreover have "(of_nat (length xs) :: u64) = of_nat off + of_nat j"
    using Cons.prems(3) by simp
  ultimately have "tbl_array (tbl_put encode_u64 (of_nat off + of_nat j) (f y) t) (xs @ [f y])"
    by simp
  from Cons.IH [OF this, of "Suc j"] Cons.prems show ?case
    by simp
qed

lemma tbl_array_get:
  assumes "tbl_array t xs" "length xs \<le> 2 ^ 64" "i < length xs"
  shows "tbl_get encode_u64 t (of_nat i) = Some (xs ! i)"
proof -
  have "inj_on (\<lambda>i. encode_u64 (of_nat i)) {0 ..< length xs}"
    using assms(2) by (auto simp: inj_on_def unat_of_nat dest!: arg_cong [of _ _ unat])
  then have "map_of (map (\<lambda>i. (encode_u64 (of_nat i), xs ! i)) [0 ..< length xs]) (encode_u64 (of_nat i))
      = Some (xs ! i)"
    using assms(3) by (intro map_of_is_SomeI) (auto simp: distinct_map comp_def)
  with assms(1) show ?thesis
    by (simp add: tbl_array_def tbl_get_def om_get_def)
qed

lemma tbl_array_entries: "tbl_array t xs \<Longrightarrow> tbl_entries t = length xs"
  by (simp add: tbl_array_def tbl_entries_def)

lemma tbl_array_Nil [simp]: "tbl_array [] []"
  by (simp add: tbl_array_def)

text \<open>A range of an array that covers a segment reads the segment.\<close>

lemma tbl_array_segment:
  assumes "tbl_array t (pre @ ys @ post)" "length (pre @ ys @ post) < 2 ^ 64"
    "j < length ys"
  shows "tbl_get encode_u64 t (of_nat (length pre) + of_nat j) = Some (ys ! j)"
  using tbl_array_get [OF assms(1), of "length pre + j"] assms(2,3) by (simp add: nth_append)

lemma segment_range:
  assumes "length (pre @ ys @ post) < 2 ^ 64"
  shows "range_u64 (of_nat (length pre)) (of_nat (length pre) + of_nat (length ys))
    = map (\<lambda>i. of_nat (length pre) + of_nat i) [0 ..< length ys]"
  using assms by (intro range_u64_offset) (simp add: unat_of_nat)

lemma collect_segment:
  assumes "\<And>j. j < length ys \<Longrightarrow> f (off + of_nat j) = Ok (Some (ys ! j))"
    "rng = map (\<lambda>i. off + of_nat i) [0 ..< length ys]"
  shows "collect_map f rng = Ok (ys :: 'a list)"
proof -
  have "collect_map f (map (\<lambda>i. off + of_nat i) js) = Ok (map (\<lambda>i. ys ! i) js)"
    if "set js \<subseteq> {0 ..< length ys}" for js
    using that assms(1) by (induction js) auto
  from this [of "[0 ..< length ys]"] show ?thesis
    unfolding assms(2) by (simp add: map_nth)
qed

section \<open>The chain as lists\<close>

definition input_body :: "('tx, 'rcpt, 'trace, 'cls) block_input \<Rightarrow> 'tx tx_with_hash list" where
  "input_body b = sb_body (sbs_block (fst b))"

definition input_header :: "('tx, 'rcpt, 'trace, 'cls) block_input \<Rightarrow> header" where
  "input_header b = sb_header (sbs_block (fst b))"

definition input_hash :: "('tx, 'rcpt, 'trace, 'cls) block_input \<Rightarrow> block_hash" where
  "input_hash b = sb_hash (sbs_block (fst b))"

definition input_status :: "('tx, 'rcpt, 'trace, 'cls) block_input \<Rightarrow> finality_status" where
  "input_status b = sbs_status (fst b)"

definition input_receipts :: "('tx, 'rcpt, 'trace, 'cls) block_input \<Rightarrow> 'rcpt list" where
  "input_receipts b = fst (snd (snd b))"

definition input_traces :: "('tx, 'rcpt, 'trace, 'cls) block_input \<Rightarrow> 'trace list" where
  "input_traces b = snd (snd (snd b))"

definition chain_txs :: "('tx, 'rcpt, 'trace, 'cls) block_input list \<Rightarrow> 'tx tx_with_hash list" where
  "chain_txs bs = concat (map input_body bs)"

text \<open>A chain the provider is meant for: increasing numbers, no block or transaction hash twice, a
  receipt and a trace for every transaction, and fewer than \<open>2^64\<close> transactions.\<close>

definition blocks_ok :: "('tx, 'rcpt, 'trace, 'cls) block_input list \<Rightarrow> bool" where
  "blocks_ok bs \<longleftrightarrow>
     sorted_wrt (<) (map input_number bs) \<and> distinct (map input_hash bs) \<and>
     distinct (map twh_hash (chain_txs bs)) \<and> length (chain_txs bs) < 2 ^ 64 \<and>
     (\<forall>b \<in> set bs. length (input_receipts b) = length (input_body b) \<and>
                   length (input_traces b) = length (input_body b))"

section \<open>The invariant of the block tables\<close>

definition body_indices_of where
  "body_indices_of pre b =
     \<lparr>tx_offset = of_nat (length (chain_txs pre)), tx_count = of_nat (length (input_body b))\<rparr>"

definition blocks_inv ::
  "('tx, 'rcpt, 'trace, 'cls) block_input list \<Rightarrow> ('tx, 'rcpt, 'trace, 'cls, 'ccls) db \<Rightarrow> bool" where
  "blocks_inv bs d \<longleftrightarrow>
     tbl_array (Transactions d) (map twh_transaction (chain_txs bs)) \<and>
     tbl_array (TxHashes d) (map twh_hash (chain_txs bs)) \<and>
     tbl_array (TxBlocks d) (concat (map (\<lambda>b. map (\<lambda>_. input_number b) (input_body b)) bs)) \<and>
     tbl_array (Receipts d) (concat (map input_receipts bs)) \<and>
     tbl_array (TxTraces d) (concat (map input_traces bs)) \<and>
     (\<forall>i < length (chain_txs bs).
        tbl_get encode_felt (TxNumbers d) (twh_hash (chain_txs bs ! i)) = Some (of_nat i)) \<and>
     (\<forall>pre b post. bs = pre @ b # post \<longrightarrow>
        tbl_get encode_u64 (Headers d) (input_number b) = Some (input_header b) \<and>
        tbl_get encode_u64 (BlockHashes d) (input_number b) = Some (input_hash b) \<and>
        tbl_get encode_felt (BlockNumbers d) (input_hash b) = Some (input_number b) \<and>
        tbl_get encode_u64 (BlockStatusses d) (input_number b) = Some (input_status b) \<and>
        tbl_get encode_u64 (BlockBodyIndices d) (input_number b) = Some (body_indices_of pre b)) \<and>
     map fst (BlockHashes d) = map (\<lambda>b. encode_u64 (input_number b)) bs"

text \<open>The effect of a whole insertion on each table of the group.\<close>

lemma block_view_insert_input:
  fixes d :: "('tx, 'rcpt, 'trace, 'cls, 'ccls) db"
  assumes "off = of_nat (tbl_entries (Transactions d))"
  shows "block_view (insert_input pc b d) =
    block_view (fold (insert_trace off) (enumerate 0 (input_traces b))
      (fold (insert_receipt off) (enumerate 0 (input_receipts b))
        (fold (insert_tx (input_number b) off) (enumerate 0 (input_body b))
          (insert_block_header (fst b) off d))))"
  by (cases b)
     (simp add: insert_input_def insert_block_with_states_and_receipts_def insert_state_def Let_def
       assms input_number_def input_body_def input_receipts_def input_traces_def)

definition tx_view where
  "tx_view d = (TxHashes d, TxNumbers d, TxBlocks d, Transactions d)"

definition head_view where
  "head_view d = (BlockHashes d, BlockNumbers d, BlockStatusses d, Headers d, BlockBodyIndices d)"

lemma block_view_parts:
  "block_view d = block_view d' \<longleftrightarrow>
    tx_view d = tx_view d' \<and> head_view d = head_view d' \<and> Receipts d = Receipts d' \<and>
    TxTraces d = TxTraces d'"
  by (auto simp: block_view_def tx_view_def head_view_def)

lemma tx_view_frames [simp]:
  "tx_view (fold (insert_receipt off) rs d) = tx_view d"
  "tx_view (fold (insert_trace off) ts d) = tx_view d"
  by (rule fold_frame [where f = tx_view], simp add: writer_defs tx_view_def)+

lemma head_view_frames [simp]:
  "head_view (fold (insert_tx n off) txs d) = head_view d"
  "head_view (fold (insert_receipt off) rs d) = head_view d"
  "head_view (fold (insert_trace off) ts d) = head_view d"
  by (rule fold_frame [where f = head_view], simp add: writer_defs head_view_def)+

lemma receipt_frames [simp]:
  "Receipts (fold (insert_tx n off) txs d) = Receipts d"
  "Receipts (fold (insert_trace off) ts d) = Receipts d"
  "Receipts (insert_block_header b off d) = Receipts d"
  by ((rule fold_frame [where f = Receipts])?, simp add: writer_defs)+

lemma trace_frames [simp]:
  "TxTraces (fold (insert_tx n off) txs d) = TxTraces d"
  "TxTraces (fold (insert_receipt off) rs d) = TxTraces d"
  "TxTraces (insert_block_header b off d) = TxTraces d"
  by ((rule fold_frame [where f = TxTraces])?, simp add: writer_defs)+

lemma tx_tables:
  "TxHashes (fold (insert_tx n off) es d) =
    fold (\<lambda>e. tbl_put encode_u64 (off + of_nat (fst e)) (twh_hash (snd e))) es (TxHashes d)"
  "TxBlocks (fold (insert_tx n off) es d) =
    fold (\<lambda>e. tbl_put encode_u64 (off + of_nat (fst e)) n) es (TxBlocks d)"
  "Transactions (fold (insert_tx n off) es d) =
    fold (\<lambda>e. tbl_put encode_u64 (off + of_nat (fst e)) (twh_transaction (snd e))) es
      (Transactions d)"
  "TxNumbers (fold (insert_tx n off) es d) =
    fold (\<lambda>e. tbl_put encode_felt (twh_hash (snd e)) (off + of_nat (fst e))) es (TxNumbers d)"
  by (rule fold_field, simp add: insert_tx_def Let_def)+

lemma receipt_table:
  "Receipts (fold (insert_receipt off) es d) =
    fold (\<lambda>e. tbl_put encode_u64 (off + of_nat (fst e)) (snd e)) es (Receipts d)"
  by (rule fold_field) (simp add: insert_receipt_def)

lemma trace_table:
  "TxTraces (fold (insert_trace off) es d) =
    fold (\<lambda>e. tbl_put encode_u64 (off + of_nat (fst e)) (snd e)) es (TxTraces d)"
  by (rule fold_field) (simp add: insert_trace_def)

lemma header_tx_frame [simp]: "tx_view (insert_block_header b off d) = tx_view d"
  by (simp add: writer_defs tx_view_def)

lemma insert_input_tables:
  fixes d :: "('tx, 'rcpt, 'trace, 'cls, 'ccls) db"
  assumes off: "off = of_nat (tbl_entries (Transactions d))" and d': "d' = insert_input pc b d"
  shows
    "TxHashes d' = fold (\<lambda>e. tbl_put encode_u64 (off + of_nat (fst e)) (twh_hash (snd e)))
       (enumerate 0 (input_body b)) (TxHashes d)"
    "TxBlocks d' = fold (\<lambda>e. tbl_put encode_u64 (off + of_nat (fst e)) (input_number b))
       (enumerate 0 (input_body b)) (TxBlocks d)"
    "Transactions d' = fold (\<lambda>e. tbl_put encode_u64 (off + of_nat (fst e)) (twh_transaction (snd e)))
       (enumerate 0 (input_body b)) (Transactions d)"
    "TxNumbers d' = fold (\<lambda>e. tbl_put encode_felt (twh_hash (snd e)) (off + of_nat (fst e)))
       (enumerate 0 (input_body b)) (TxNumbers d)"
    "Receipts d' = fold (\<lambda>e. tbl_put encode_u64 (off + of_nat (fst e)) (snd e))
       (enumerate 0 (input_receipts b)) (Receipts d)"
    "TxTraces d' = fold (\<lambda>e. tbl_put encode_u64 (off + of_nat (fst e)) (snd e))
       (enumerate 0 (input_traces b)) (TxTraces d)"
    "Headers d' = tbl_put encode_u64 (input_number b) (input_header b) (Headers d)"
    "BlockHashes d' = tbl_put encode_u64 (input_number b) (input_hash b) (BlockHashes d)"
    "BlockNumbers d' = tbl_put encode_felt (input_hash b) (input_number b) (BlockNumbers d)"
    "BlockStatusses d' = tbl_put encode_u64 (input_number b) (input_status b) (BlockStatusses d)"
    "BlockBodyIndices d' = tbl_put encode_u64 (input_number b)
       \<lparr>tx_offset = off, tx_count = of_nat (length (input_body b))\<rparr> (BlockBodyIndices d)"
proof -
  define d0 where "d0 = insert_block_header (fst b) off d"
  define d1 where "d1 = fold (insert_tx (input_number b) off) (enumerate 0 (input_body b)) d0"
  have "tx_view d' = tx_view d1" "head_view d' = head_view d0"
    and rt: "Receipts d' = Receipts (fold (insert_receipt off) (enumerate 0 (input_receipts b)) d1)"
      "TxTraces d' = TxTraces (fold (insert_trace off) (enumerate 0 (input_traces b))
         (fold (insert_receipt off) (enumerate 0 (input_receipts b)) d1))"
    using block_view_insert_input [OF off, of pc b] unfolding block_view_parts
    by (simp_all add: d' d0_def d1_def)
  then have tx: "TxHashes d' = TxHashes d1" "TxNumbers d' = TxNumbers d1"
      "TxBlocks d' = TxBlocks d1" "Transactions d' = Transactions d1"
    and hd: "BlockHashes d' = BlockHashes d0" "BlockNumbers d' = BlockNumbers d0"
      "BlockStatusses d' = BlockStatusses d0" "Headers d' = Headers d0"
      "BlockBodyIndices d' = BlockBodyIndices d0"
    by (simp_all add: tx_view_def head_view_def)
  have "tx_view d0 = tx_view d" by (simp add: d0_def)
  then have tx0: "TxHashes d0 = TxHashes d" "TxNumbers d0 = TxNumbers d" "TxBlocks d0 = TxBlocks d"
      "Transactions d0 = Transactions d"
    by (simp_all add: tx_view_def)
  show "TxHashes d' = fold (\<lambda>e. tbl_put encode_u64 (off + of_nat (fst e)) (twh_hash (snd e)))
       (enumerate 0 (input_body b)) (TxHashes d)"
    "TxBlocks d' = fold (\<lambda>e. tbl_put encode_u64 (off + of_nat (fst e)) (input_number b))
       (enumerate 0 (input_body b)) (TxBlocks d)"
    "Transactions d' = fold (\<lambda>e. tbl_put encode_u64 (off + of_nat (fst e)) (twh_transaction (snd e)))
       (enumerate 0 (input_body b)) (Transactions d)"
    "TxNumbers d' = fold (\<lambda>e. tbl_put encode_felt (twh_hash (snd e)) (off + of_nat (fst e)))
       (enumerate 0 (input_body b)) (TxNumbers d)"
    by (simp_all add: tx d1_def tx_tables tx0)
  show "Receipts d' = fold (\<lambda>e. tbl_put encode_u64 (off + of_nat (fst e)) (snd e))
       (enumerate 0 (input_receipts b)) (Receipts d)"
    "TxTraces d' = fold (\<lambda>e. tbl_put encode_u64 (off + of_nat (fst e)) (snd e))
       (enumerate 0 (input_traces b)) (TxTraces d)"
    by (simp_all add: rt receipt_table trace_table d1_def d0_def)
  show "Headers d' = tbl_put encode_u64 (input_number b) (input_header b) (Headers d)"
    "BlockHashes d' = tbl_put encode_u64 (input_number b) (input_hash b) (BlockHashes d)"
    "BlockNumbers d' = tbl_put encode_felt (input_hash b) (input_number b) (BlockNumbers d)"
    "BlockStatusses d' = tbl_put encode_u64 (input_number b) (input_status b) (BlockStatusses d)"
    "BlockBodyIndices d' = tbl_put encode_u64 (input_number b)
       \<lparr>tx_offset = off, tx_count = of_nat (length (input_body b))\<rparr> (BlockBodyIndices d)"
    by (simp_all add: hd d0_def insert_block_header_def Let_def input_number_def input_header_def
        input_hash_def input_status_def input_body_def)
qed

lemma numbering_gets:
  assumes "distinct (map h ys)"
  shows "(\<forall>i < length ys. tbl_get encode_felt
      (fold (\<lambda>e. tbl_put encode_felt (h (snd e)) (off + of_nat (fst e))) (enumerate j ys) t) (h (ys ! i))
        = Some (off + of_nat (j + i))) \<and>
    (\<forall>x. x \<notin> h ` set ys \<longrightarrow> tbl_get encode_felt
      (fold (\<lambda>e. tbl_put encode_felt (h (snd e)) (off + of_nat (fst e))) (enumerate j ys) t) x
        = tbl_get encode_felt t x)"
  using assms
proof (induction ys arbitrary: j t)
  case Nil
  then show ?case by simp
next
  case (Cons y ys)
  let ?t = "tbl_put encode_felt (h y) (off + of_nat j) t"
  let ?r = "fold (\<lambda>e. tbl_put encode_felt (h (snd e)) (off + of_nat (fst e))) (enumerate (Suc j) ys) ?t"
  have IH: "\<forall>i < length ys. tbl_get encode_felt ?r (h (ys ! i)) = Some (off + of_nat (Suc j + i))"
    "\<forall>x. x \<notin> h ` set ys \<longrightarrow> tbl_get encode_felt ?r x = tbl_get encode_felt ?t x"
    using Cons.IH [of "Suc j" ?t] Cons.prems by auto
  have "tbl_get encode_felt ?r (h ((y # ys) ! i)) = Some (off + of_nat (j + i))"
    if "i < length (y # ys)" for i
  proof (cases i)
    case 0
    then show ?thesis
      using IH(2) Cons.prems by (simp add: table_simps)
  next
    case (Suc i')
    then show ?thesis
      using IH(1) that by simp
  qed
  moreover have "tbl_get encode_felt ?r x = tbl_get encode_felt t x" if "x \<notin> h ` set (y # ys)" for x
    using IH(2) that by (simp add: table_simps)
  ultimately show ?case by simp
qed

lemma chain_txs_snoc [simp]: "chain_txs (bs @ [b]) = chain_txs bs @ input_body b"
  by (simp add: chain_txs_def)

lemma blocks_ok_snoc:
  assumes "blocks_ok (bs @ [b])"
  shows "blocks_ok bs" "\<forall>c \<in> set bs. input_number c < input_number b"
    "\<forall>c \<in> set bs. input_hash c \<noteq> input_hash b"
proof -
  show "blocks_ok bs" "\<forall>c \<in> set bs. input_number c < input_number b"
    using assms by (auto simp: blocks_ok_def sorted_wrt_append)
  have "input_hash b \<notin> input_hash ` set bs"
    using assms by (simp add: blocks_ok_def)
  then show "\<forall>c \<in> set bs. input_hash c \<noteq> input_hash b"
    by (metis imageI)
qed

lemma split_snoc:
  "bs @ [b] = pre @ c # post \<longleftrightarrow>
    post = [] \<and> pre = bs \<and> c = b \<or> (\<exists>post'. post = post' @ [b] \<and> bs = pre @ c # post')"
  by (cases post rule: rev_cases) auto

lemma concat_lengths:
  "\<forall>b \<in> set bs. length (f b) = length (input_body b) \<Longrightarrow>
    length (concat (map f bs)) = length (chain_txs bs)"
  by (induction bs) (auto simp: chain_txs_def)

lemma blocks_inv_step:
  assumes ok: "blocks_ok (bs @ [b])" and inv: "blocks_inv bs d"
  shows "blocks_inv (bs @ [b]) (insert_input pc b d)"
proof -
  define off where "off = (of_nat (tbl_entries (Transactions d)) :: u64)"
  define d' where "d' = insert_input pc b d"
  note tab = insert_input_tables [OF off_def d'_def]
  have arr: "tbl_array (Transactions d) (map twh_transaction (chain_txs bs))"
    "tbl_array (TxHashes d) (map twh_hash (chain_txs bs))"
    "tbl_array (TxBlocks d) (concat (map (\<lambda>b. map (\<lambda>_. input_number b) (input_body b)) bs))"
    "tbl_array (Receipts d) (concat (map input_receipts bs))"
    "tbl_array (TxTraces d) (concat (map input_traces bs))"
    and nums: "\<forall>i < length (chain_txs bs).
        tbl_get encode_felt (TxNumbers d) (twh_hash (chain_txs bs ! i)) = Some (of_nat i)"
    and keys: "map fst (BlockHashes d) = map (\<lambda>b. encode_u64 (input_number b)) bs"
    using inv unfolding blocks_inv_def by blast+
  let ?N = "length (chain_txs bs)"
  have off: "off = of_nat ?N"
    using tbl_array_entries [OF arr(1)] by (simp add: off_def)
  have size: "?N + length (input_body b) \<le> 2 ^ 64"
    using ok by (simp add: blocks_ok_def)
  have lens: "length (concat (map (\<lambda>b. map (\<lambda>_. input_number b) (input_body b)) bs)) = ?N"
    "length (concat (map input_receipts bs)) = ?N" "length (concat (map input_traces bs)) = ?N"
    "length (input_receipts b) = length (input_body b)" "length (input_traces b) = length (input_body b)"
    using ok by (auto simp: blocks_ok_def intro!: concat_lengths)
  have arr': "tbl_array (Transactions d') (map twh_transaction (chain_txs (bs @ [b])))"
    "tbl_array (TxHashes d') (map twh_hash (chain_txs (bs @ [b])))"
    "tbl_array (TxBlocks d') (concat (map (\<lambda>b. map (\<lambda>_. input_number b) (input_body b)) (bs @ [b])))"
    "tbl_array (Receipts d') (concat (map input_receipts (bs @ [b])))"
    "tbl_array (TxTraces d') (concat (map input_traces (bs @ [b])))"
    using tbl_array_puts [OF arr(1), of "input_body b" ?N 0 twh_transaction]
      tbl_array_puts [OF arr(2), of "input_body b" ?N 0 twh_hash]
      tbl_array_puts [OF arr(3), of "input_body b" ?N 0 "\<lambda>_. input_number b"]
      tbl_array_puts [OF arr(4), of "input_receipts b" ?N 0 "\<lambda>x. x"]
      tbl_array_puts [OF arr(5), of "input_traces b" ?N 0 "\<lambda>x. x"] size lens
    by (simp_all add: tab off)
  have dist: "distinct (map twh_hash (chain_txs bs @ input_body b))"
    using ok by (simp add: blocks_ok_def)
  have nums': "tbl_get encode_felt (TxNumbers d') (twh_hash (chain_txs (bs @ [b]) ! i)) = Some (of_nat i)"
    if "i < length (chain_txs (bs @ [b]))" for i
  proof (cases "i < ?N")
    case True
    have "twh_hash ` set (chain_txs bs) \<inter> twh_hash ` set (input_body b) = {}"
      using dist by simp
    moreover have "twh_hash (chain_txs bs ! i) \<in> twh_hash ` set (chain_txs bs)"
      using True by simp
    ultimately have "twh_hash (chain_txs bs ! i) \<notin> twh_hash ` set (input_body b)"
      by blast
    with True show ?thesis
      using numbering_gets [of twh_hash "input_body b" off 0 "TxNumbers d"] dist nums
      by (simp add: tab nth_append)
  next
    case False
    with that show ?thesis
      using numbering_gets [of twh_hash "input_body b" off 0 "TxNumbers d"] dist
      by (auto simp: tab nth_append off simp flip: of_nat_add)
  qed
  have head: "tbl_get encode_u64 (Headers d') (input_number c) = Some (input_header c) \<and>
        tbl_get encode_u64 (BlockHashes d') (input_number c) = Some (input_hash c) \<and>
        tbl_get encode_felt (BlockNumbers d') (input_hash c) = Some (input_number c) \<and>
        tbl_get encode_u64 (BlockStatusses d') (input_number c) = Some (input_status c) \<and>
        tbl_get encode_u64 (BlockBodyIndices d') (input_number c) = Some (body_indices_of pre c)"
    if "bs @ [b] = pre @ c # post" for pre c post
  proof (cases "post = []")
    case True
    with that show ?thesis
      by (simp add: tab table_simps body_indices_of_def off)
  next
    case False
    with that obtain post' where bs: "bs = pre @ c # post'"
      by (auto simp: split_snoc)
    then have "input_number c \<noteq> input_number b" "input_hash c \<noteq> input_hash b"
      using blocks_ok_snoc(2,3) [OF ok] by force+
    moreover have "tbl_get encode_u64 (Headers d) (input_number c) = Some (input_header c) \<and>
        tbl_get encode_u64 (BlockHashes d) (input_number c) = Some (input_hash c) \<and>
        tbl_get encode_felt (BlockNumbers d) (input_hash c) = Some (input_number c) \<and>
        tbl_get encode_u64 (BlockStatusses d) (input_number c) = Some (input_status c) \<and>
        tbl_get encode_u64 (BlockBodyIndices d) (input_number c) = Some (body_indices_of pre c)"
      using inv bs unfolding blocks_inv_def by blast
    ultimately show ?thesis
      by (simp add: tab table_simps)
  qed
  have "fst ` set (BlockHashes d) = (\<lambda>b. encode_u64 (input_number b)) ` set bs"
    using arg_cong [OF keys, of set] by simp
  then have "\<forall>k \<in> fst ` set (BlockHashes d). k < encode_u64 (input_number b)"
    using blocks_ok_snoc(2) [OF ok] by (auto simp: encode_u64_less_iff)
  then have "map fst (BlockHashes d') = map (\<lambda>b. encode_u64 (input_number b)) (bs @ [b])"
    by (simp add: tab tbl_put_def om_insert_last keys)
  with arr' nums' head show ?thesis
    unfolding blocks_inv_def d'_def by blast
qed

lemma blocks_inv_empty: "blocks_inv [] empty_db"
  by (simp add: blocks_inv_def empty_db_def chain_txs_def)

lemma chain_blocks_inv:
  "blocks_ok bs \<Longrightarrow> d = insert_chain pc bs empty_db \<Longrightarrow> blocks_inv bs d"
proof (induction bs arbitrary: d rule: rev_induct)
  case Nil
  then show ?case by (simp add: insert_chain_def blocks_inv_empty)
next
  case (snoc b bs)
  obtain d0 where d0: "d0 = insert_chain pc bs empty_db" "d = insert_input pc b d0"
    using snoc.prems(2) by (simp add: insert_chain_def)
  show ?case
    unfolding d0(2)
    by (rule blocks_inv_step [OF snoc.prems(1) snoc.IH [OF blocks_ok_snoc(1) [OF snoc.prems(1)] d0(1)]])
qed

section \<open>The sample chain\<close>

lemma input_sample_block_parts:
  "input_hash (sample_block n h txs su) = h" "input_body (sample_block n h txs su) = txs"
  "input_receipts (sample_block n h txs su) = map twh_transaction txs"
  "input_traces (sample_block n h txs su) = map (Suc \<circ> twh_transaction) txs"
  "input_header (sample_block n h txs su) = header_default\<lparr>h_number := n\<rparr>"
  by (simp_all add: sample_block_def input_hash_def input_body_def input_receipts_def input_traces_def
      input_header_def)

lemma sample_blocks_ok: "blocks_ok sample_chain"
  by (simp add: blocks_ok_def sample_chain_def chain_txs_def input_sample_block_parts felt_eq_iff
      stark_prime_def)

section \<open>Properties\<close>

lemma blocks_inv_block:
  assumes "blocks_inv (pre @ b # post) d"
  shows "tbl_get encode_u64 (Headers d) (input_number b) = Some (input_header b)"
    "tbl_get encode_u64 (BlockHashes d) (input_number b) = Some (input_hash b)"
    "tbl_get encode_felt (BlockNumbers d) (input_hash b) = Some (input_number b)"
    "tbl_get encode_u64 (BlockStatusses d) (input_number b) = Some (input_status b)"
    "tbl_get encode_u64 (BlockBodyIndices d) (input_number b) = Some (body_indices_of pre b)"
  using assms unfolding blocks_inv_def by blast+

lemma chain_txs_split: "chain_txs (pre @ b # post) = chain_txs pre @ input_body b @ chain_txs post"
  by (simp add: chain_txs_def)

lemma resolve_inserted:
  "blocks_inv (pre @ b # post) d \<Longrightarrow> i \<in> {Num (input_number b), Hash (input_hash b)} \<Longrightarrow>
    resolve_id d i = Some (input_number b)"
  by (auto simp: resolve_id_def blocks_inv_block)

lemma transactions_inserted:
  assumes "blocks_ok (pre @ b # post)" "blocks_inv (pre @ b # post) d"
  shows "transaction_in_range d (body_indices_range (body_indices_of pre b)) = Ok (input_body b)"
    "transaction_hashes_in_range d (body_indices_range (body_indices_of pre b))
      = Ok (map twh_hash (input_body b))"
proof -
  let ?pre = "chain_txs pre" and ?body = "input_body b" and ?post = "chain_txs post"
  have size: "length (?pre @ ?body @ ?post) < 2 ^ 64"
    using assms(1) by (simp add: blocks_ok_def chain_txs_split)
  have arr: "tbl_array (Transactions d) (map twh_transaction ?pre @ map twh_transaction ?body
      @ map twh_transaction ?post)"
    "tbl_array (TxHashes d) (map twh_hash ?pre @ map twh_hash ?body @ map twh_hash ?post)"
    using assms(2) by (simp_all add: blocks_inv_def chain_txs_split)
  have get: "tbl_get encode_u64 (Transactions d) (of_nat (length ?pre) + of_nat j)
      = Some (twh_transaction (?body ! j))"
    "tbl_get encode_u64 (TxHashes d) (of_nat (length ?pre) + of_nat j) = Some (twh_hash (?body ! j))"
    if "j < length ?body" for j
    using tbl_array_segment [OF arr(1)] tbl_array_segment [OF arr(2)] size that by simp_all
  note rng = segment_range [OF size]
  show "transaction_in_range d (body_indices_range (body_indices_of pre b)) = Ok ?body"
    unfolding transaction_in_range_def body_indices_range_def body_indices_of_def
    by (rule collect_segment [where off = "of_nat (length ?pre)"]) (simp_all add: get rng)
  show "transaction_hashes_in_range d (body_indices_range (body_indices_of pre b))
      = Ok (map twh_hash ?body)"
    unfolding transaction_hashes_in_range_def body_indices_range_def body_indices_of_def
    by (rule collect_segment [where off = "of_nat (length ?pre)"]) (simp_all add: get rng)
qed

text \<open>C7: Every block of an inserted chain is read back as it was inserted, by its number and by its
  hash, whatever blocks follow: header, status, block with transactions, block with transaction
  hashes, number of transactions, and number and hash from each other.\<close>

theorem block_roundtrip:
  assumes "blocks_ok (pre @ b # post)" "d = insert_chain pc (pre @ b # post) empty_db"
    "i = Num (input_number b) \<or> i = Hash (input_hash b)"
  shows "header_of d i = Ok (Some (input_header b)) \<and>
    block_of d i = Ok (Some \<lparr>b_header = input_header b, b_body = input_body b\<rparr>) \<and>
    block_with_tx_hashes_of d i =
      Ok (Some \<lparr>bth_header = input_header b, bth_body = map twh_hash (input_body b)\<rparr>) \<and>
    block_status d i = Ok (Some (input_status b)) \<and>
    transaction_count_by_block d i = Ok (Some (of_nat (length (input_body b)))) \<and>
    block_hash_by_id d i = Ok (Some (input_hash b)) \<and>
    block_number_by_id d i = Ok (Some (input_number b))"
proof -
  have inv: "blocks_inv (pre @ b # post) d"
    by (rule chain_blocks_inv [OF assms(1,2)])
  have res: "resolve_id d i = Some (input_number b)"
    using resolve_inserted [OF inv] assms(3) by auto
  note rd = blocks_inv_block [OF inv] transactions_inserted [OF assms(1) inv]
  have "header_of d i = Ok (Some (input_header b))"
    by (simp add: header_of_def res rd)
  moreover have "transactions_by_block d i = Ok (Some (input_body b))"
    by (simp add: transactions_by_block_def block_body_indices_def res rd)
  moreover have "block_hash_by_id d i = Ok (Some (input_hash b))"
    "block_number_by_id d i = Ok (Some (input_number b))"
    using assms(3) by (auto simp: block_hash_by_id_def block_hash_by_num_def block_number_by_id_def
        block_number_by_hash_def rd)
  ultimately show ?thesis
    by (simp add: block_of_def block_with_tx_hashes_of_def block_status_def
        transaction_count_by_block_def block_body_indices_def res rd)
       (simp add: body_indices_of_def)
qed

text \<open>The second block of the sample chain, by its hash.\<close>

theorem block_roundtrip_witness:
  "header_of (insert_chain felt_to_bytes_be sample_chain empty_db :: (nat, nat, nat, nat, nat) db) (Hash (felt 11))
     = Ok (Some (header_default\<lparr>h_number := 2\<rparr>))"
proof -
  obtain a b where ab: "sample_chain = [a] @ b # []" "input_hash b = felt 11"
    "input_header b = header_default\<lparr>h_number := 2\<rparr>"
    by (simp add: sample_chain_def input_sample_block_parts)
  show ?thesis
    using block_roundtrip [of "[a]" b "[]" "insert_chain felt_to_bytes_be sample_chain empty_db :: (nat, nat, nat, nat, nat) db" felt_to_bytes_be "Hash (felt 11)"]
      sample_blocks_ok ab by simp
qed

lemma tx_inserted:
  assumes "blocks_ok (pre @ b # post)" "blocks_inv (pre @ b # post) d" "j < length (input_body b)"
  defines "num \<equiv> of_nat (length (chain_txs pre)) + of_nat j"
  shows "tbl_get encode_felt (TxNumbers d) (twh_hash (input_body b ! j)) = Some num"
    "tbl_get encode_u64 (Transactions d) num = Some (twh_transaction (input_body b ! j))"
    "tbl_get encode_u64 (TxHashes d) num = Some (twh_hash (input_body b ! j))"
    "tbl_get encode_u64 (TxBlocks d) num = Some (input_number b)"
    "tbl_get encode_u64 (Receipts d) num = Some (input_receipts b ! j)"
    "tbl_get encode_u64 (TxTraces d) num = Some (input_traces b ! j)"
proof -
  let ?bs = "pre @ b # post"
  let ?nums = "\<lambda>bs. concat (map (\<lambda>b. map (\<lambda>_. input_number b) (input_body b)) bs)"
  have size: "length (chain_txs ?bs) < 2 ^ 64"
    using assms(1) by (simp add: blocks_ok_def)
  have len: "length (input_receipts c) = length (input_body c)"
    "length (input_traces c) = length (input_body c)" if "c \<in> set ?bs" for c
    using assms(1) that by (auto simp: blocks_ok_def)
  have lens: "length (concat (map input_receipts pre)) = length (chain_txs pre)"
    "length (concat (map input_traces pre)) = length (chain_txs pre)"
    "length (?nums pre) = length (chain_txs pre)"
    "length (concat (map input_receipts ?bs)) = length (chain_txs ?bs)"
    "length (concat (map input_traces ?bs)) = length (chain_txs ?bs)"
    "length (?nums ?bs) = length (chain_txs ?bs)"
    "length (input_receipts b) = length (input_body b)" "length (input_traces b) = length (input_body b)"
    using len by (auto intro!: concat_lengths simp del: map_append concat_append)
  have arr: "tbl_array (Transactions d) (map twh_transaction (chain_txs ?bs))"
    "tbl_array (TxHashes d) (map twh_hash (chain_txs ?bs))" "tbl_array (TxBlocks d) (?nums ?bs)"
    "tbl_array (Receipts d) (concat (map input_receipts ?bs))"
    "tbl_array (TxTraces d) (concat (map input_traces ?bs))"
    using assms(2) unfolding blocks_inv_def by blast+
  let ?i = "length (chain_txs pre) + j"
  have i: "?i < length (chain_txs ?bs)"
    using assms(3) by (simp add: chain_txs_split)
  have num: "num = of_nat ?i" by (simp add: num_def)
  have "chain_txs ?bs ! ?i = input_body b ! j"
    using assms(3) by (simp add: chain_txs_split nth_append)
  moreover have "\<forall>i < length (chain_txs ?bs).
      tbl_get encode_felt (TxNumbers d) (twh_hash (chain_txs ?bs ! i)) = Some (of_nat i)"
    using assms(2) unfolding blocks_inv_def by blast
  ultimately show "tbl_get encode_felt (TxNumbers d) (twh_hash (input_body b ! j)) = Some num"
    using i by (metis num)
  show "tbl_get encode_u64 (Transactions d) num = Some (twh_transaction (input_body b ! j))"
    "tbl_get encode_u64 (TxHashes d) num = Some (twh_hash (input_body b ! j))"
    using tbl_array_get [OF arr(1), of ?i] tbl_array_get [OF arr(2), of ?i] size i assms(3)
    by (simp_all add: num chain_txs_split nth_append)
  show "tbl_get encode_u64 (TxBlocks d) num = Some (input_number b)"
    using tbl_array_get [OF arr(3), of ?i] size i assms(3) lens(3,6) unfolding num
    by (simp add: nth_append)
  show "tbl_get encode_u64 (Receipts d) num = Some (input_receipts b ! j)"
    using tbl_array_get [OF arr(4), of ?i] size i assms(3) lens(1,4,7) unfolding num
    by (simp add: nth_append)
  show "tbl_get encode_u64 (TxTraces d) num = Some (input_traces b ! j)"
    using tbl_array_get [OF arr(5), of ?i] size i assms(3) lens(2,5,8) unfolding num
    by (simp add: nth_append)
qed

text \<open>C8: Every transaction of an inserted chain is found by its hash and by its block and index, with
  its receipt, its execution trace, its finality status and the number and hash of its block; an
  index at or past the number of transactions of the block finds nothing.\<close>

theorem transaction_roundtrip:
  assumes "blocks_ok (pre @ b # post)" "d = insert_chain pc (pre @ b # post) empty_db"
    "j < length (input_body b)"
  defines "tx \<equiv> input_body b ! j"
  shows "transaction_by_hash d (twh_hash tx) = Ok (Some tx) \<and>
    receipt_by_hash d (twh_hash tx) = Ok (Some (input_receipts b ! j)) \<and>
    transaction_execution d (twh_hash tx) = Ok (Some (input_traces b ! j)) \<and>
    transaction_status d (twh_hash tx) = Ok (Some (input_status b)) \<and>
    transaction_block_num_and_hash d (twh_hash tx) = Ok (Some (input_number b, input_hash b)) \<and>
    transaction_by_block_and_idx d (Num (input_number b)) (of_nat j) = Ok (Some tx) \<and>
    transaction_by_block_and_idx d (Num (input_number b)) (of_nat (length (input_body b))) = Ok None"
proof -
  have inv: "blocks_inv (pre @ b # post) d"
    by (rule chain_blocks_inv [OF assms(1,2)])
  note rd = tx_inserted [OF assms(1) inv assms(3)] blocks_inv_block [OF inv]
  have "length (input_body b) < 2 ^ 64"
    using assms(1) by (simp add: blocks_ok_def chain_txs_split)
  then have idx: "(of_nat j :: u64) < of_nat (length (input_body b))"
    using assms(3) by (simp add: word_less_nat_alt unat_of_nat)
  show ?thesis
    by (simp add: transaction_by_hash_def receipt_by_hash_def transaction_execution_def
        transaction_status_def transaction_block_num_and_hash_def transaction_by_block_and_idx_def
        block_body_indices_def resolve_id_def rd body_indices_of_def idx tx_def Let_def)
qed

text \<open>The only transaction of the second block of the sample chain.\<close>

theorem transaction_roundtrip_witness:
  "receipt_by_hash (insert_chain felt_to_bytes_be sample_chain empty_db :: (nat, nat, nat, nat, nat) db) (felt 101)
     = Ok (Some 8)"
proof -
  obtain a b where ab: "sample_chain = [a] @ b # []"
    "input_body b = [\<lparr>twh_hash = felt 101, twh_transaction = 8\<rparr>]" "input_receipts b = [8]"
    by (simp add: sample_chain_def input_sample_block_parts)
  show ?thesis
    using transaction_roundtrip [of "[a]" b "[]" "insert_chain felt_to_bytes_be sample_chain empty_db :: (nat, nat, nat, nat, nat) db" felt_to_bytes_be 0]
      sample_blocks_ok ab by simp
qed

text \<open>The latest block is the last one inserted; an empty database reports that it has none.\<close>

theorem latest_is_last:
  assumes "blocks_ok bs" "d = insert_chain pc bs empty_db"
  shows "latest_number d =
      (if bs = [] then Err MissingLatestBlockNumber else Ok (input_number (last bs))) \<and>
    latest_hash d =
      (if bs = [] then Err MissingLatestBlockNumber else Ok (input_hash (last bs)))"
proof -
  have inv: "blocks_inv bs d"
    by (rule chain_blocks_inv [OF assms])
  then have keys: "map fst (BlockHashes d) = map (\<lambda>b. encode_u64 (input_number b)) bs"
    unfolding blocks_inv_def by blast
  show ?thesis
  proof (cases "bs = []")
    case True
    with keys have "BlockHashes d = []" by simp
    with True show ?thesis
      by (simp add: latest_hash_def latest_number_def tbl_last_def)
  next
    case False
    then have ne: "BlockHashes d \<noteq> []" using keys by auto
    have "fst (last (BlockHashes d)) = last (map fst (BlockHashes d))"
      using ne by (simp add: last_map)
    also have "\<dots> = encode_u64 (input_number (last bs))"
      using False by (simp add: keys last_map)
    finally have "latest_number d = Ok (input_number (last bs))"
      using ne u64_encode_decode [of "input_number (last bs)"]
      by (simp add: latest_number_def tbl_last_def decode_u64_def case_prod_unfold)
    moreover have "tbl_get encode_u64 (BlockHashes d) (input_number (last bs)) = Some (input_hash (last bs))"
      using blocks_inv_block(2) [of "butlast bs" "last bs" "[]" d] inv False by simp
    ultimately show ?thesis
      using False by (simp add: latest_hash_def)
  qed
qed

text \<open>The sample chain.\<close>

theorem latest_is_last_witness:
  "latest_number (insert_chain felt_to_bytes_be sample_chain empty_db :: (nat, nat, nat, nat, nat) db) = Ok 2"
  using latest_is_last [OF sample_blocks_ok, of "insert_chain felt_to_bytes_be sample_chain empty_db :: (nat, nat, nat, nat, nat) db" felt_to_bytes_be]
  by (simp add: sample_chain_def)

end
