(* ===== verification/Trie_Db.thy ===== *)
theory Trie_Db
  imports Kv_Table Change_Log
begin

text \<open>
  The storage of the state tries (\<open>trie/{mod,snapshot}.rs\<close> of the database crate).
  A \<open>TrieDbMut\<close> works on one of the three trie tables with its change set and its history and keeps
  the entries written since the last commit; \<open>snapshot\<close> records them under a block number; a
  \<open>SnapshotTrieDb\<close> reads the entries as of a block.  The tree itself is the bonsai library's: it
  calls these operations with keys of its own.  The iteration order of the \<open>HashMap\<close> of pending
  entries is the parameter \<open>order\<close>.
\<close>

section \<open>Keys\<close>

text \<open>The key type of the trie library.\<close>

datatype database_key = TrieKey bytes | FlatKey bytes | TrieLogKey bytes

primrec database_key_as_slice :: "database_key \<Rightarrow> bytes" where
  "database_key_as_slice (TrieKey bs) = bs"
| "database_key_as_slice (FlatKey bs) = bs"
| "database_key_as_slice (TrieLogKey bs) = bs"

primrec to_db_key :: "database_key \<Rightarrow> trie_database_key" where
  "to_db_key (FlatKey bs) = \<lparr>tk_type = Flat, tk_key = bs\<rparr>"
| "to_db_key (TrieKey bs) = \<lparr>tk_type = Trie, tk_key = bs\<rparr>"
| "to_db_key (TrieLogKey bs) = \<lparr>tk_type = TrieLog, tk_key = bs\<rparr>"

section \<open>The mutable trie database\<close>

record trie_db_mut =
  td_table :: "bytes table"
  td_changeset :: "block_list table"
  td_history :: "trie_history_entry dup_table"
  td_write_cache :: "(trie_database_key \<times> bytes) list"

definition trie_db_mut_new :: "trie_db_mut \<Rightarrow> trie_db_mut" where
  "trie_db_mut_new t = t\<lparr>td_write_cache := []\<rparr>"

definition trie_get :: "trie_db_mut \<Rightarrow> database_key \<Rightarrow> bytes option" where
  "trie_get t key = tbl_get encode_trie_key (td_table t) (to_db_key key)"

definition trie_contains :: "trie_db_mut \<Rightarrow> database_key \<Rightarrow> bool" where
  "trie_contains t key \<longleftrightarrow> tbl_get encode_trie_key (td_table t) (to_db_key key) \<noteq> None"

text \<open>\<open>HashMap::insert\<close>.\<close>

definition cache_insert :: "'k \<Rightarrow> 'v \<Rightarrow> ('k \<times> 'v) list \<Rightarrow> ('k \<times> 'v) list" where
  "cache_insert k v c = (k, v) # filter (\<lambda>e. fst e \<noteq> k) c"

definition trie_insert ::
  "database_key \<Rightarrow> bytes \<Rightarrow> trie_db_mut \<Rightarrow> bytes option \<times> trie_db_mut" where
  "trie_insert key value t =
     (let k = to_db_key key;
          old_value = tbl_get encode_trie_key (td_table t) k
      in (old_value,
          t\<lparr>td_table := tbl_put encode_trie_key k value (td_table t),
            td_write_cache := cache_insert k value (td_write_cache t)\<rparr>))"

definition trie_remove :: "database_key \<Rightarrow> trie_db_mut \<Rightarrow> bytes option \<times> trie_db_mut" where
  "trie_remove key t =
     (let k = to_db_key key;
          old_value = tbl_get encode_trie_key (td_table t) k
      in (old_value, t\<lparr>td_table := fst (tbl_delete encode_trie_key k (td_table t))\<rparr>))"

text \<open>The walk decodes every key of the table; \<open>None\<close> is the panic of the decoder.\<close>

fun keys_with_prefix :: "bytes \<Rightarrow> (bytes \<times> bytes) list \<Rightarrow> trie_database_key list option" where
  "keys_with_prefix p [] = Some []"
| "keys_with_prefix p (e # es) =
     (case decode_trie_key (fst e) of
        Some (Inr key) \<Rightarrow>
          map_option (\<lambda>ks. if take (length p) (tk_key key) = p then key # ks else ks)
            (keys_with_prefix p es)
      | _ \<Rightarrow> None)"

definition trie_remove_by_prefix :: "database_key \<Rightarrow> trie_db_mut \<Rightarrow> trie_db_mut option" where
  "trie_remove_by_prefix pfx t =
     map_option (\<lambda>keys_to_remove.
         t\<lparr>td_table := fold (\<lambda>k tb. fst (tbl_delete encode_trie_key k tb)) keys_to_remove (td_table t)\<rparr>)
       (keys_with_prefix (database_key_as_slice pfx) (tbl_walk encode_trie_key (td_table t) None))"

text \<open>One round of the loop of \<open>snapshot\<close>: the block joins the change set of the key, the entry
  joins the history of the block.\<close>

definition snapshot_entry ::
  "(bytes \<Rightarrow> bytes) \<Rightarrow> block_number \<Rightarrow> trie_database_key \<times> bytes \<Rightarrow> trie_db_mut \<Rightarrow> trie_db_mut" where
  "snapshot_entry pc n e t =
     (let set = (case tbl_get encode_trie_key (td_changeset t) (fst e) of
                   Some s \<Rightarrow> s
                 | None \<Rightarrow> block_list_new)
      in t\<lparr>td_changeset := tbl_put encode_trie_key (fst e) (block_list_insert n set) (td_changeset t),
           td_history := dup_put encode_u64 (compress_trie_history_entry pc) n
             \<lparr>the_key = fst e, the_value = snd e\<rparr> (td_history t)\<rparr>)"

definition trie_snapshot ::
  "(bytes \<Rightarrow> bytes) \<Rightarrow> ((trie_database_key \<times> bytes) list \<Rightarrow> (trie_database_key \<times> bytes) list)
    \<Rightarrow> block_number \<Rightarrow> trie_db_mut \<Rightarrow> trie_db_mut" where
  "trie_snapshot pc order n t =
     fold (snapshot_entry pc n) (order (td_write_cache t)) (t\<lparr>td_write_cache := []\<rparr>)"

section \<open>Reading a snapshot\<close>

text \<open>\<open>None\<close>: the entry is missing although the change set names it (\<open>expect\<close>).\<close>

definition snapshot_get ::
  "trie_db_mut \<Rightarrow> block_number \<Rightarrow> database_key \<Rightarrow> bytes option option" where
  "snapshot_get t block_number key =
     (let k = to_db_key key
      in case Option.bind (tbl_get encode_trie_key (td_changeset t) k)
                (recent_change_from_block block_number) of
           None \<Rightarrow> Some None
         | Some num \<Rightarrow>
             (case seek_by_key_subkey encode_u64 encode_trie_key (td_history t) num k of
                None \<Rightarrow> None
              | Some (_, entry) \<Rightarrow>
                  Some (if the_key entry = k then Some (the_value entry) else None)))"

section \<open>The history of a trie is a change log\<close>

text \<open>Keys the encoding tells apart.\<close>

typedef trie_key = "{k :: trie_database_key. length (tk_key k) < 256}"
  by (rule exI [of _ "\<lparr>tk_type = Trie, tk_key = []\<rparr>"]) simp

lemma trie_key_len: "length (tk_key (Rep_trie_key k)) < 256"
  using Rep_trie_key [of k] by simp

definition trie_cset :: "trie_db_mut \<Rightarrow> trie_key \<Rightarrow> block_list" where
  "trie_cset t k =
     (case tbl_get encode_trie_key (td_changeset t) (Rep_trie_key k) of None \<Rightarrow> [] | Some l \<Rightarrow> l)"

definition trie_hist :: "trie_db_mut \<Rightarrow> block_number \<Rightarrow> trie_key \<Rightarrow> bytes option" where
  "trie_hist t n k =
     map_option the_value (dup_lookup the_key (dup_values encode_u64 (td_history t) n) (Rep_trie_key k))"

definition trie_ins ::
  "(bytes \<Rightarrow> bytes) \<Rightarrow> block_number \<Rightarrow> trie_key \<times> bytes \<Rightarrow> trie_db_mut \<Rightarrow> trie_db_mut" where
  "trie_ins pc n e t = snapshot_entry pc n (Rep_trie_key (fst e), snd e) t"

definition trie_log_inv :: "(bytes \<Rightarrow> bytes) \<Rightarrow> trie_db_mut \<Rightarrow> bool" where
  "trie_log_inv pc t \<longleftrightarrow>
     dup_ok (compress_trie_history_entry pc) (td_history t) \<and>
     (\<forall>n. \<forall>w \<in> snd ` set (dup_values encode_u64 (td_history t) n). length (tk_key (the_key w)) < 256)"

lemma trie_encode_eq_iff [simp]:
  "encode_trie_key (Rep_trie_key a) = encode_trie_key (Rep_trie_key b) \<longleftrightarrow> a = b"
  using trie_key_codec.key.enc_eq_iff [of "Rep_trie_key a" "Rep_trie_key b"] trie_key_len
  by (simp add: Rep_trie_key_inject)

lemma trie_get_put:
  "tbl_get encode_trie_key (tbl_put encode_trie_key (Rep_trie_key k) v t) (Rep_trie_key k') =
    (if k' = k then Some v else tbl_get encode_trie_key t (Rep_trie_key k'))"
  by (auto simp: tbl_get_def tbl_put_def)

interpretation trie_log: change_log trie_cset trie_hist "trie_ins pc" "trie_log_inv pc"
proof unfold_locales
  fix t :: trie_db_mut and n m :: block_number and k k' :: trie_key and v :: bytes
  assume inv: "trie_log_inv pc t"
  show "trie_cset (trie_ins pc n (k, v) t) k' =
      (if k' = k then block_list_insert n (trie_cset t k) else trie_cset t k')"
    by (auto simp: trie_cset_def trie_ins_def snapshot_entry_def Let_def trie_get_put
        block_list_new_def split: option.split)
  assume fresh: "trie_hist t n k = None"
  let ?e = "\<lparr>the_key = Rep_trie_key k, the_value = v\<rparr>"
  have hist: "td_history (trie_ins pc n (k, v) t) =
      dup_put encode_u64 (compress_trie_history_entry pc) n ?e (td_history t)"
    by (simp add: trie_ins_def snapshot_entry_def Let_def)
  have valid: "length (tk_key (the_key w)) < 256"
    if "w \<in> snd ` set (dup_values encode_u64 (td_history t) i)" for w i
    using inv that by (auto simp: trie_log_inv_def)
  show "trie_hist (trie_ins pc n (k, v) t) m k' = (if m = n \<and> k' = k then Some v else trie_hist t m k')"
    using inv fresh trie_key_len
      trie_subkey.lookup_dup_put [where t = "td_history t" and pc = pc and v = ?e and n = n
        and m = m and s = "Rep_trie_key k'"] valid
    by (auto simp: trie_hist_def trie_log_inv_def hist Rep_trie_key_inject)
  have "length (tk_key (the_key w)) < 256"
    if "w \<in> snd ` set (dup_values encode_u64 (td_history (trie_ins pc n (k, v) t)) i)" for w i
  proof (cases "i = n")
    case True
    with that have "w \<in> snd ` insert (compress_trie_history_entry pc ?e, ?e)
        (set (dup_values encode_u64 (td_history t) n))"
      using set_om_insert_subset by (fastforce simp: hist table_simps)
    then show ?thesis
      using valid trie_key_len [of k] by auto
  next
    case False
    with that valid show ?thesis by (simp add: hist table_simps)
  qed
  with inv show "trie_log_inv pc (trie_ins pc n (k, v) t)"
    by (simp add: trie_log_inv_def hist)
qed

section \<open>Commits\<close>

text \<open>What happens between two commits of a trie: the library inserts entries, then commits, which
  takes the snapshot.\<close>

definition trie_writes :: "(database_key \<times> bytes) list \<Rightarrow> trie_db_mut \<Rightarrow> trie_db_mut" where
  "trie_writes ws t = fold (\<lambda>w t. snd (trie_insert (fst w) (snd w) t)) ws t"

definition trie_commit where
  "trie_commit pc order n ws t = trie_snapshot pc order n (trie_writes ws t)"

definition empty_trie_db :: trie_db_mut where
  "empty_trie_db = \<lparr>td_table = [], td_changeset = [], td_history = [], td_write_cache = []\<rparr>"

text \<open>The specification: the last value written to a key up to a block.\<close>

definition last_write :: "(database_key \<times> bytes) list \<Rightarrow> database_key \<Rightarrow> bytes option" where
  "last_write ws k = map_of (rev ws) k"

fun trie_spec ::
  "(block_number \<times> (database_key \<times> bytes) list) list \<Rightarrow> block_number \<Rightarrow> database_key \<Rightarrow> bytes option"
  where
  "trie_spec [] b k = None"
| "trie_spec ((n, ws) # cs) b k =
     (case trie_spec cs b k of
        Some v \<Rightarrow> Some v
      | None \<Rightarrow> if n \<le> b then last_write ws k else None)"

definition commits_ok :: "(block_number \<times> (database_key \<times> bytes) list) list \<Rightarrow> bool" where
  "commits_ok cs \<longleftrightarrow>
     sorted_wrt (<) (map fst cs) \<and>
     (\<forall>(n, ws) \<in> set cs. Suc (unat n) < 2 ^ 64 \<and>
        (\<forall>w \<in> set ws. length (database_key_as_slice (fst w)) < 256))"

lemma trie_spec_snoc:
  "trie_spec (cs @ [(n, ws)]) b k =
    (if n \<le> b \<and> last_write ws k \<noteq> None then last_write ws k else trie_spec cs b k)"
  by (induction cs b k rule: trie_spec.induct) (auto split: option.split)

lemma to_db_key_inj [simp]: "to_db_key a = to_db_key b \<longleftrightarrow> a = b"
  by (cases a; cases b) auto

lemma tk_key_to_db_key [simp]: "tk_key (to_db_key k) = database_key_as_slice k"
  by (cases k) auto

definition vkey :: "database_key \<Rightarrow> trie_key" where
  "vkey k = Abs_trie_key (to_db_key k)"

lemma Rep_vkey: "length (database_key_as_slice k) < 256 \<Longrightarrow> Rep_trie_key (vkey k) = to_db_key k"
  by (simp add: vkey_def Abs_trie_key_inverse)

lemma cache_insert_map_of: "map_of (cache_insert k v c) = (map_of c)(k \<mapsto> v)"
proof -
  have "map_of (filter (\<lambda>e. fst e \<noteq> k) c) x = (if x = k then None else map_of c x)" for x
    by (induction c) auto
  then show ?thesis by (auto simp: cache_insert_def fun_eq_iff)
qed

lemma cache_insert_distinct: "distinct (map fst c) \<Longrightarrow> distinct (map fst (cache_insert k v c))"
  by (auto simp: cache_insert_def distinct_map intro: inj_on_subset)

lemma trie_writes_cache:
  assumes "td_write_cache t = []"
  shows "distinct (map fst (td_write_cache (trie_writes ws t))) \<and>
    fst ` set (td_write_cache (trie_writes ws t)) = to_db_key ` fst ` set ws \<and>
    (\<forall>k. map_of (td_write_cache (trie_writes ws t)) (to_db_key k) = last_write ws k) \<and>
    td_changeset (trie_writes ws t) = td_changeset t \<and> td_history (trie_writes ws t) = td_history t"
  using assms
proof (induction ws rule: rev_induct)
  case Nil
  then show ?case by (simp add: trie_writes_def last_write_def)
next
  case (snoc w ws)
  have "trie_writes (ws @ [w]) t = snd (trie_insert (fst w) (snd w) (trie_writes ws t))"
    by (simp add: trie_writes_def)
  moreover have "fst ` set (cache_insert k v c) = insert k (fst ` set c)" for k v
    and c :: "(trie_database_key \<times> bytes) list"
    by (auto simp: cache_insert_def)
  ultimately show ?case
    using snoc
    by (cases w)
       (auto simp: trie_insert_def Let_def cache_insert_map_of cache_insert_distinct last_write_def)
qed

text \<open>The loop of \<open>snapshot\<close> records the pending entries in the log, in any order.\<close>

lemma trie_snapshot_log:
  assumes "\<forall>e \<in> set (td_write_cache t). length (tk_key (fst e)) < 256"
    "mset (order (td_write_cache t)) = mset (td_write_cache t)"
  shows "trie_snapshot pc order n t =
    fold (trie_ins pc n) (map (\<lambda>e. (Abs_trie_key (fst e), snd e)) (order (td_write_cache t)))
      (t\<lparr>td_write_cache := []\<rparr>)"
proof -
  have set: "set (order (td_write_cache t)) = set (td_write_cache t)"
    using assms(2) by (rule mset_eq_setD)
  have "fold (snapshot_entry pc n) es t' =
      fold (trie_ins pc n) (map (\<lambda>e. (Abs_trie_key (fst e), snd e)) es) t'"
    if "\<forall>e \<in> set es. length (tk_key (fst e)) < 256" for es t'
    using that by (induction es arbitrary: t') (auto simp: trie_ins_def Abs_trie_key_inverse)
  then show ?thesis
    using assms(1) set by (simp add: trie_snapshot_def)
qed

lemma map_of_abs_keys:
  assumes "length (database_key_as_slice k) < 256"
    "\<And>e. e \<in> set es \<Longrightarrow> length (tk_key (fst e)) < 256"
  shows "map_of (map (\<lambda>e. (Abs_trie_key (fst e), snd e)) es) (vkey k) = map_of es (to_db_key k)"
  using assms by (induction es) (auto simp: vkey_def Abs_trie_key_inject)

lemma trie_commit_recorded:
  assumes "trie_log_inv pc t" "td_write_cache t = []" "log_ok (trie_cset t) (trie_hist t) bound"
    "bound \<le> unat n" "\<forall>w \<in> set ws. length (database_key_as_slice (fst w)) < 256"
    "\<And>c. mset (order c) = mset c"
  defines "t' \<equiv> trie_commit pc order n ws t"
  shows "\<exists>chg. trie_log_inv pc t' \<and> td_write_cache t' = [] \<and>
    block_recorded n chg (trie_cset t) (trie_hist t) (trie_cset t') (trie_hist t') \<and>
    (\<forall>k. length (database_key_as_slice k) < 256 \<longrightarrow> chg (vkey k) = last_write ws k)"
proof -
  define c where "c = td_write_cache (trie_writes ws t)"
  define t0 where "t0 = (trie_writes ws t)\<lparr>td_write_cache := []\<rparr>"
  define es where "es = map (\<lambda>e. (Abs_trie_key (fst e), snd e)) (order c)"
  have cache: "distinct (map fst c)" "fst ` set c = to_db_key ` fst ` set ws"
    "\<And>k. map_of c (to_db_key k) = last_write ws k"
    "td_changeset t0 = td_changeset t" "td_history t0 = td_history t"
    using trie_writes_cache [OF assms(2), of ws] by (auto simp: c_def t0_def)
  have valid: "length (tk_key (fst e)) < 256" if "e \<in> set c" for e
  proof -
    have "fst e \<in> to_db_key ` fst ` set ws" using that cache(2) by blast
    with assms(5) show ?thesis by auto
  qed
  have same: "trie_cset t0 = trie_cset t" "trie_hist t0 = trie_hist t" "trie_log_inv pc t0"
    using cache(4,5) assms(1)
    by (auto simp: trie_cset_def [abs_def] trie_hist_def [abs_def] trie_log_inv_def)
  have set: "set (order c) = set c"
    using assms(6) by (rule mset_eq_setD)
  have "mset (map fst (order c)) = mset (map fst c)"
    using assms(6) by simp
  then have dist: "distinct (map fst (order c))"
    using cache(1) by (metis mset_eq_imp_distinct_iff)
  have inj: "inj_on Abs_trie_key (fst ` set (order c))"
    using valid set by (auto simp: inj_on_def Abs_trie_key_inject)
  have "map fst es = map Abs_trie_key (map fst (order c))"
    by (simp add: es_def)
  then have dist': "distinct (map fst es)"
    using dist inj by (simp add: distinct_map comp_inj_on)
  have t': "t' = fold (trie_ins pc n) es t0"
    using trie_snapshot_log [of "trie_writes ws t" order pc n] valid assms(6)
    by (simp add: t'_def trie_commit_def es_def t0_def c_def)
  have "map_of es (vkey k) = last_write ws k" if "length (database_key_as_slice k) < 256" for k
  proof -
    have "map_of es (vkey k) = map_of (order c) (to_db_key k)"
      unfolding es_def using that
      by (rule map_of_abs_keys) (use valid set in blast)
    then show ?thesis
      using cache(3) map_of_inject_set [OF dist cache(1)] set by simp
  qed
  moreover have "\<forall>k \<in> fst ` set es. trie_hist t0 n k = None"
    using log_fresh [OF assms(3,4)] by (simp add: same)
  then have "trie_log_inv pc t'" "block_recorded n (map_of es) (trie_cset t) (trie_hist t) (trie_cset t') (trie_hist t')"
    using trie_log.record_changes [OF same(3) dist'] by (simp_all add: t' same)
  moreover have "td_write_cache t' = []"
    unfolding t' by (subst fold_frame [where f = td_write_cache])
      (simp_all add: trie_ins_def snapshot_entry_def Let_def t0_def)
  ultimately show ?thesis by blast
qed

lemma snapshot_get_eq:
  assumes "trie_log_inv pc t" "log_ok (trie_cset t) (trie_hist t) bound" "bound < 2 ^ 64"
    "length (database_key_as_slice k) < 256"
  shows "snapshot_get t b k = Some (value_at (trie_cset t) (trie_hist t) b (vkey k))"
proof -
  let ?k = "to_db_key k"
  have rep: "Rep_trie_key (vkey k) = ?k" by (rule Rep_vkey [OF assms(4)])
  have rc: "Option.bind (tbl_get encode_trie_key (td_changeset t) ?k) (recent_change_from_block b)
      = recent_change_from_block b (trie_cset t (vkey k))"
    by (simp add: trie_cset_def rep split: option.split)
  show ?thesis
  proof (cases "recent_change_from_block b (trie_cset t (vkey k))")
    case None
    with rc show ?thesis by (simp add: snapshot_get_def value_at_def)
  next
    case (Some n)
    then obtain v where v: "trie_hist t n (vkey k) = Some v"
      using recent_change_hist [OF assms(2,3)] by blast
    then obtain w where w: "dup_lookup the_key (dup_values encode_u64 (td_history t) n) ?k = Some w"
      "the_value w = v"
      by (auto simp: trie_hist_def rep)
    have "\<exists>pos. seek_by_key_subkey encode_u64 encode_trie_key (td_history t) n ?k = Some (pos, w)
        \<and> the_key w = ?k"
      using trie_subkey.seek_present [OF _ w(1)] assms(1,4) by (auto simp: trie_log_inv_def)
    with rc Some v w show ?thesis
      by (auto simp: snapshot_get_def value_at_def Let_def)
  qed
qed

definition trie_commits where
  "trie_commits pc order cs t = fold (\<lambda>(n, ws). trie_commit pc order n ws) cs t"

definition commits_bound :: "(block_number \<times> (database_key \<times> bytes) list) list \<Rightarrow> nat" where
  "commits_bound cs = (if cs = [] then 0 else Suc (unat (fst (last cs))))"

lemma commits_ok_snoc:
  "commits_ok (cs @ [(n, ws)]) \<Longrightarrow>
    commits_ok cs \<and> commits_bound cs \<le> unat n \<and> Suc (unat n) < 2 ^ 64 \<and>
    (\<forall>w \<in> set ws. length (database_key_as_slice (fst w)) < 256)"
  by (cases "cs = []")
     (auto simp: commits_ok_def commits_bound_def sorted_wrt_append word_less_nat_alt Suc_le_eq)

lemma trie_commits_inv:
  assumes "commits_ok cs" "\<And>c. mset (order c) = mset c" "t = trie_commits pc order cs empty_trie_db"
  shows "trie_log_inv pc t \<and> td_write_cache t = [] \<and>
    log_ok (trie_cset t) (trie_hist t) (commits_bound cs) \<and>
    (\<forall>b k. length (database_key_as_slice k) < 256 \<longrightarrow>
      value_at (trie_cset t) (trie_hist t) b (vkey k) = trie_spec cs b k)"
  using assms(1,3)
proof (induction cs arbitrary: t rule: rev_induct)
  case Nil
  then show ?case
    by (simp add: trie_commits_def empty_trie_db_def trie_log_inv_def trie_cset_def [abs_def]
        trie_hist_def [abs_def] tbl_get_def dup_values_def value_at_def)
next
  case (snoc c cs)
  obtain n ws where c: "c = (n, ws)" by (cases c)
  note ok = commits_ok_snoc [OF snoc.prems(1) [unfolded c]]
  define t0 where "t0 = trie_commits pc order cs empty_trie_db"
  have t: "t = trie_commit pc order n ws t0"
    using snoc.prems(2) by (simp add: c trie_commits_def t0_def)
  note IH = snoc.IH [OF _ t0_def]
  obtain chg where chg: "trie_log_inv pc t" "td_write_cache t = []"
    "block_recorded n chg (trie_cset t0) (trie_hist t0) (trie_cset t) (trie_hist t)"
    "\<forall>k. length (database_key_as_slice k) < 256 \<longrightarrow> chg (vkey k) = last_write ws k"
    using trie_commit_recorded [where pc = pc and t = t0 and order = order and n = n and ws = ws]
      IH ok assms(2) unfolding t by blast
  have log0: "log_ok (trie_cset t0) (trie_hist t0) (commits_bound cs)"
    using IH ok by blast
  have "value_at (trie_cset t) (trie_hist t) b (vkey k) = trie_spec (cs @ [c]) b k"
    if k: "length (database_key_as_slice k) < 256" for b k
  proof -
    have "value_at (trie_cset t) (trie_hist t) b (vkey k) =
        (if n \<le> b \<and> chg (vkey k) \<noteq> None then chg (vkey k) else value_at (trie_cset t0) (trie_hist t0) b (vkey k))"
      using value_at_recorded [OF log0 chg(3)] ok by blast
    then show ?thesis
      using chg(4) k IH ok by (auto simp: c trie_spec_snoc)
  qed
  moreover have "log_ok (trie_cset t) (trie_hist t) (commits_bound (cs @ [c]))"
    using log_ok_recorded [OF log0 chg(3)] ok by (simp add: c commits_bound_def)
  ultimately show ?case
    using chg(1,2) by blast
qed

section \<open>Properties\<close>

text \<open>C9: A snapshot of a trie as of any block returns for every key the last value written in the
  commits up to this block, whatever was committed later and in whatever order the pending entries
  are visited, and never panics.\<close>

theorem trie_snapshot_refines:
  assumes "commits_ok cs" "\<And>c. mset (order c) = mset c"
    "length (database_key_as_slice k) < 256"
  shows "snapshot_get (trie_commits pc order cs empty_trie_db) b k = Some (trie_spec cs b k)"
proof -
  define t where "t = trie_commits pc order cs empty_trie_db"
  note inv = trie_commits_inv [OF assms(1,2) t_def]
  have "commits_bound cs < 2 ^ 64"
    using assms(1) by (cases "cs = []") (auto simp: commits_ok_def commits_bound_def split_beta)
  then have "snapshot_get t b k = Some (value_at (trie_cset t) (trie_hist t) b (vkey k))"
    using inv assms(3) by (intro snapshot_get_eq [where pc = pc and bound = "commits_bound cs"]) simp_all
  with inv assms(3) show ?thesis
    by (simp add: t_def)
qed

text \<open>Two commits to one key, at blocks 0 and 2, read as of block 1.\<close>

theorem trie_snapshot_refines_witness:
  "snapshot_get (trie_commits id rev [(0, [(TrieKey [1], [10])]), (2, [(TrieKey [1], [11]), (FlatKey [1], [12])])]
      empty_trie_db) 1 (TrieKey [1]) = Some (Some [10])"
proof -
  let ?cs = "[(0, [(TrieKey [1], [10])]), (2, [(TrieKey [1], [11]), (FlatKey [1], [12])])]
    :: (block_number \<times> (database_key \<times> bytes) list) list"
  have "commits_ok ?cs" by (simp add: commits_ok_def)
  moreover have "trie_spec ?cs 1 (TrieKey [1]) = Some [10]" by (simp add: last_write_def word_le_nat_alt)
  ultimately show ?thesis
    using trie_snapshot_refines [of ?cs rev "TrieKey [1]" id 1] by simp
qed

text \<open>C26: Removing a key from a trie leaves every snapshot as it was, those of later blocks included:
  the removal is not recorded, neither among the pending entries nor in the change set, so a
  snapshot still returns the value the key had before.\<close>

theorem trie_remove_not_recorded:
  "snapshot_get (trie_snapshot pc order n (snd (trie_remove key t))) b k
    = snapshot_get (trie_snapshot pc order n t) b k"
proof -
  define f where "f t = (td_changeset t, td_history t)" for t :: trie_db_mut
  define h where "h e = (\<lambda>(cs, hs).
      (tbl_put encode_trie_key (fst e) (block_list_insert n
         (case tbl_get encode_trie_key cs (fst e) of Some s \<Rightarrow> s | None \<Rightarrow> block_list_new)) cs,
       dup_put encode_u64 (compress_trie_history_entry pc) n
         \<lparr>the_key = fst e, the_value = snd e\<rparr> hs))" for e
  have log: "f (fold (snapshot_entry pc n) es x) = fold h es (f x)" for es x
    by (rule fold_field) (simp add: f_def h_def snapshot_entry_def Let_def)
  have "f (trie_snapshot pc order n (snd (trie_remove key t))) = f (trie_snapshot pc order n t)"
    unfolding trie_snapshot_def log by (simp add: f_def trie_remove_def Let_def)
  then show ?thesis
    by (simp add: snapshot_get_def f_def Let_def split: option.split)
qed

end
