(* ===== verification/Trie_Writer.thy ===== *)
theory Trie_Writer
  imports Db_State Trie_Db
begin

text \<open>
  The writer of the state tries (\<open>providers/db/trie.rs\<close>) and the shims of the trie crate over the
  bonsai library (\<open>trie/src/{lib,classes,contracts,storages,id}.rs\<close>).  The library is a parameter:
  its constructor over a trie database, its insertion, commit and root, and the database it leaves
  behind.  The Pedersen and Poseidon hashes and the iteration order of the map of contract leaves
  (\<open>order\<close>) are parameters too.
\<close>

section \<open>The shims over the trie library\<close>

record 's bonsai =
  bonsai_new :: "trie_db_mut \<Rightarrow> 's"
  bonsai_insert :: "bytes \<Rightarrow> bool list \<Rightarrow> felt \<Rightarrow> 's \<Rightarrow> 's"
  bonsai_commit :: "block_number \<Rightarrow> 's \<Rightarrow> 's"
  bonsai_root :: "bytes \<Rightarrow> 's \<Rightarrow> felt"
  bonsai_into_db :: "'s \<Rightarrow> trie_db_mut"

text \<open>\<open>key.to_bytes_be().as_bits()[5..]\<close>, most significant bit first: the path of a key.\<close>

definition byte_bits :: "u8 \<Rightarrow> bool list" where
  "byte_bits b = rev (map (bit b) [0 ..< 8])"

definition trie_path :: "felt \<Rightarrow> bool list" where
  "trie_path key = drop 5 (concat (map byte_bits (felt_to_bytes_be key)))"

definition bonsai_trie_insert :: "'s bonsai \<Rightarrow> bytes \<Rightarrow> felt \<Rightarrow> felt \<Rightarrow> 's \<Rightarrow> 's" where
  "bonsai_trie_insert B ident key value s = bonsai_insert B ident (trie_path key) value s"

definition string_bytes :: "string \<Rightarrow> bytes" where
  "string_bytes s = map (\<lambda>c. of_nat (of_char c)) s"

definition compute_classes_trie_value ::
  "(felt \<Rightarrow> felt \<Rightarrow> felt) \<Rightarrow> (string \<Rightarrow> felt) \<Rightarrow> compiled_class_hash \<Rightarrow> felt" where
  "compute_classes_trie_value poseidon short_string compiled_class_hash =
     poseidon (short_string ''CONTRACT_CLASS_LEAF_V0'') compiled_class_hash"

definition classes_trie_insert ::
  "'s bonsai \<Rightarrow> (felt \<Rightarrow> felt \<Rightarrow> felt) \<Rightarrow> (string \<Rightarrow> felt) \<Rightarrow> class_hash \<Rightarrow> compiled_class_hash
    \<Rightarrow> 's \<Rightarrow> 's" where
  "classes_trie_insert B poseidon short_string hash compiled_hash s =
     bonsai_trie_insert B (string_bytes ''classes'') hash
       (compute_classes_trie_value poseidon short_string compiled_hash) s"

definition classes_trie_root :: "'s bonsai \<Rightarrow> 's \<Rightarrow> felt" where
  "classes_trie_root B s = bonsai_root B (string_bytes ''classes'') s"

definition contracts_trie_insert :: "'s bonsai \<Rightarrow> contract_address \<Rightarrow> felt \<Rightarrow> 's \<Rightarrow> 's" where
  "contracts_trie_insert B address state_hash s =
     bonsai_trie_insert B (string_bytes ''contracts'') address state_hash s"

definition contracts_trie_root :: "'s bonsai \<Rightarrow> 's \<Rightarrow> felt" where
  "contracts_trie_root B s = bonsai_root B (string_bytes ''contracts'') s"

definition storages_trie_insert ::
  "'s bonsai \<Rightarrow> contract_address \<Rightarrow> storage_key \<Rightarrow> storage_value \<Rightarrow> 's \<Rightarrow> 's" where
  "storages_trie_insert B address key value s =
     bonsai_trie_insert B (felt_to_bytes_be address) key value s"

definition storages_trie_root :: "'s bonsai \<Rightarrow> contract_address \<Rightarrow> 's \<Rightarrow> felt" where
  "storages_trie_root B address s = bonsai_root B (felt_to_bytes_be address) s"

section \<open>The leaves of the contract trie\<close>

record contract_leaf =
  leaf_class_hash :: "felt option"
  leaf_storage_root :: "felt option"
  leaf_nonce :: "felt option"

definition contract_leaf_default :: contract_leaf where
  "contract_leaf_default = \<lparr>leaf_class_hash = None, leaf_storage_root = None, leaf_nonce = None\<rparr>"

text \<open>\<open>entry(address).or_default()\<close> on the map of leaves, then an assignment to a field.\<close>

definition entry_update ::
  "'k \<Rightarrow> (contract_leaf \<Rightarrow> contract_leaf) \<Rightarrow> ('k \<times> contract_leaf) list
    \<Rightarrow> ('k \<times> contract_leaf) list" where
  "entry_update k f m =
     cache_insert k (f (case map_of m k of None \<Rightarrow> contract_leaf_default | Some l \<Rightarrow> l)) m"

definition contract_leafs :: "state_updates \<Rightarrow> (contract_address \<times> contract_leaf) list" where
  "contract_leafs su =
     (let m = fold (\<lambda>e. cache_insert (fst e) contract_leaf_default) (storage_updates su) [];
          m = fold (\<lambda>e. entry_update (fst e) (\<lambda>l. l\<lparr>leaf_nonce := Some (snd e)\<rparr>))
                (nonce_updates su) m;
          m = fold (\<lambda>e. entry_update (fst e) (\<lambda>l. l\<lparr>leaf_class_hash := Some (snd e)\<rparr>))
                (deployed_contracts su) m
      in fold (\<lambda>e. entry_update (fst e) (\<lambda>l. l\<lparr>leaf_class_hash := Some (snd e)\<rparr>))
           (replaced_classes su) m)"

definition compute_contract_state_hash ::
  "(felt \<Rightarrow> felt \<Rightarrow> felt) \<Rightarrow> felt \<Rightarrow> felt \<Rightarrow> felt \<Rightarrow> felt" where
  "compute_contract_state_hash pedersen class_hash storage_root nonce =
     pedersen (pedersen (pedersen class_hash storage_root) nonce) 0"

text \<open>\<open>None\<close>: an \<open>unwrap\<close> of a provider error, or a leaf without storage root.\<close>

definition contract_state_leaf_hash ::
  "(felt \<Rightarrow> felt \<Rightarrow> felt) \<Rightarrow> ('tx, 'rcpt, 'trace, 'cls, 'ccls) db \<Rightarrow> state_provider
    \<Rightarrow> contract_address \<Rightarrow> contract_leaf \<Rightarrow> felt option" where
  "contract_state_leaf_hash pedersen d provider address leaf =
     (case (nonce_of d provider address, class_hash_of d provider address, leaf_storage_root leaf) of
        (Inr n, Inr c, Some root) \<Rightarrow>
          (let nonce = (case leaf_nonce leaf of Some v \<Rightarrow> v
                        | None \<Rightarrow> (case n of Some v \<Rightarrow> v | None \<Rightarrow> 0));
               class_hash = (case leaf_class_hash leaf of Some v \<Rightarrow> v
                        | None \<Rightarrow> (case c of Some v \<Rightarrow> v | None \<Rightarrow> 0))
           in Some (compute_contract_state_hash pedersen class_hash root nonce))
      | _ \<Rightarrow> None)"

section \<open>The writer\<close>

definition trie_insert_declared_classes ::
  "'s bonsai \<Rightarrow> (felt \<Rightarrow> felt \<Rightarrow> felt) \<Rightarrow> (string \<Rightarrow> felt) \<Rightarrow> block_number
    \<Rightarrow> (class_hash, compiled_class_hash) ordered_map \<Rightarrow> trie_db_mut \<Rightarrow> felt \<times> trie_db_mut" where
  "trie_insert_declared_classes B poseidon short_string block_number updates classes_trie =
     (let trie = bonsai_new B (trie_db_mut_new classes_trie);
          trie = fold (\<lambda>(class_hash, compiled_hash).
                   classes_trie_insert B poseidon short_string class_hash compiled_hash) updates trie;
          trie = bonsai_commit B block_number trie
      in (classes_trie_root B trie, bonsai_into_db B trie))"

definition insert_storage_trie ::
  "'s bonsai \<Rightarrow> block_number \<Rightarrow> contract_address \<times> (storage_key, storage_value) ordered_map
    \<Rightarrow> trie_db_mut \<Rightarrow> trie_db_mut" where
  "insert_storage_trie B block_number u storages_trie =
     (let trie = bonsai_new B (trie_db_mut_new storages_trie);
          trie = fold (\<lambda>(key, value). storages_trie_insert B (fst u) key value) (snd u) trie
      in bonsai_into_db B (bonsai_commit B block_number trie))"

fun leaf_hashes ::
  "'s bonsai \<Rightarrow> (felt \<Rightarrow> felt \<Rightarrow> felt) \<Rightarrow> ('tx, 'rcpt, 'trace, 'cls, 'ccls) db \<Rightarrow> trie_db_mut
    \<Rightarrow> (contract_address \<times> contract_leaf) list \<Rightarrow> (contract_address \<times> felt) list option" where
  "leaf_hashes B pedersen d storages_trie [] = Some []"
| "leaf_hashes B pedersen d storages_trie ((address, leaf) # leafs) =
     (let storage_trie = bonsai_new B (trie_db_mut_new storages_trie);
          leaf = leaf\<lparr>leaf_storage_root := Some (storages_trie_root B address storage_trie)\<rparr>
      in case latest d of
           Inl _ \<Rightarrow> None
         | Inr latest_state \<Rightarrow>
             (case contract_state_leaf_hash pedersen d latest_state address leaf of
                None \<Rightarrow> None
              | Some leaf_hash \<Rightarrow>
                  map_option ((#) (address, leaf_hash)) (leaf_hashes B pedersen d storages_trie leafs)))"

definition trie_insert_contract_updates ::
  "'s bonsai \<Rightarrow> (felt \<Rightarrow> felt \<Rightarrow> felt)
    \<Rightarrow> ((contract_address \<times> contract_leaf) list \<Rightarrow> (contract_address \<times> contract_leaf) list)
    \<Rightarrow> ('tx, 'rcpt, 'trace, 'cls, 'ccls) db \<Rightarrow> block_number \<Rightarrow> state_updates
    \<Rightarrow> trie_db_mut \<times> trie_db_mut \<Rightarrow> (felt \<times> trie_db_mut \<times> trie_db_mut) option" where
  "trie_insert_contract_updates B pedersen order d block_number su tries =
     (let contract_trie_db = bonsai_new B (trie_db_mut_new (fst tries));
          storages_trie = fold (insert_storage_trie B block_number) (storage_updates su) (snd tries)
      in map_option (\<lambda>hashes.
             let trie = fold (\<lambda>(k, v). contracts_trie_insert B k v) hashes contract_trie_db;
                 trie = bonsai_commit B block_number trie
             in (contracts_trie_root B trie, bonsai_into_db B trie, storages_trie))
           (leaf_hashes B pedersen d storages_trie (order (contract_leafs su))))"

section \<open>Paths\<close>

lemma bit_concat_be_bytes:
  "concat (map byte_bits (be_bytes n x)) = rev (map (bit x) [0 ..< 8 * n])"
proof (induction n arbitrary: x)
  case 0
  then show ?case by simp
next
  case (Suc n)
  have byte: "bit (of_nat (x mod 256) :: u8) i = bit x i" if "i < 8" for i
  proof -
    have "x mod 256 = take_bit 8 x" by (simp add: take_bit_eq_mod)
    with that show ?thesis by (simp add: bit_of_nat_iff bit_take_bit_iff)
  qed
  have div: "bit (x div 256) i = bit x (i + 8)" for i
    using bit_drop_bit_eq [of 8 x] by (simp add: drop_bit_eq_div fun_eq_iff add.commute)
  have "[0 ..< 8 * Suc n] = [0 ..< 8] @ map (\<lambda>i. i + 8) [0 ..< 8 * n]"
    using upt_add_eq_append [of 0 8 "8 * n"] map_add_upt [of 8 "8 * n"]
    by (simp add: add.commute)
  moreover have "byte_bits (of_nat (x mod 256)) = rev (map (bit x) [0 ..< 8])"
    unfolding byte_bits_def by (simp add: byte cong: map_cong del: upt_Suc)
  ultimately show ?case
    by (simp add: Suc div comp_def del: upt_Suc)
qed

lemma trie_path_bits: "trie_path key = rev (map (bit (nat_of_felt key)) [0 ..< 251])"
proof -
  have "concat (map byte_bits (felt_to_bytes_be key)) = rev (map (bit (nat_of_felt key)) [0 ..< 256])"
    unfolding felt_to_bytes_be_def bit_concat_be_bytes by simp
  moreover have "drop 5 (rev (map f [0 ..< 256])) = rev (map f [0 ..< 251])" for f :: "nat \<Rightarrow> bool"
    unfolding drop_rev by (simp add: take_map del: upt_Suc)
  ultimately show ?thesis
    by (simp add: trie_path_def del: upt_Suc)
qed

section \<open>Leaves\<close>

lemma cache_insert_keys: "fst ` set (cache_insert k v c) = insert k (fst ` set c)"
  by (auto simp: cache_insert_def)

lemma entry_updates_map_of:
  fixes g :: "'a \<Rightarrow> contract_leaf \<Rightarrow> contract_leaf"
  assumes "\<And>a b l. g a (g b l) = g a l"
  shows "map_of (fold (\<lambda>e. entry_update (fst e) (g (snd e))) es m) k =
    (case map_of (rev es) k of
       None \<Rightarrow> map_of m k
     | Some a \<Rightarrow> Some (g a (case map_of m k of None \<Rightarrow> contract_leaf_default | Some l \<Rightarrow> l)))"
proof (induction es arbitrary: m)
  case Nil
  then show ?case by simp
next
  case (Cons e es)
  then show ?case
    by (simp add: entry_update_def cache_insert_map_of assms map_add_def split: option.split)
qed

lemma entry_updates_distinct:
  "distinct (map fst m) \<Longrightarrow> distinct (map fst (fold (\<lambda>e. entry_update (h e) (g e)) es m))"
  by (rule fold_inv [of "\<lambda>m. distinct (map fst m)"])
     (simp_all add: entry_update_def cache_insert_distinct)

lemma default_leafs_map_of:
  "map_of (fold (\<lambda>e. cache_insert (fst e) contract_leaf_default) es m) k =
    (if k \<in> fst ` set es then Some contract_leaf_default else map_of m k)"
  by (induction es arbitrary: m) (auto simp: cache_insert_map_of)

lemma contract_leafs_distinct: "distinct (map fst (contract_leafs su))"
proof -
  have "distinct (map fst (fold (\<lambda>e. cache_insert (fst e) contract_leaf_default) es []))" for es
    by (rule fold_inv [of "\<lambda>m. distinct (map fst m)"]) (simp_all add: cache_insert_distinct)
  then show ?thesis
    unfolding contract_leafs_def Let_def by (intro entry_updates_distinct)
qed

text \<open>What a leaf holds before its storage root is set.\<close>

definition touched_contracts :: "state_updates \<Rightarrow> contract_address set" where
  "touched_contracts su = fst ` set (storage_updates su) \<union> fst ` set (nonce_updates su)
     \<union> fst ` set (deployed_contracts su) \<union> fst ` set (replaced_classes su)"

definition updated_class :: "state_updates \<Rightarrow> contract_address \<Rightarrow> class_hash option" where
  "updated_class su a =
     (case map_of (rev (replaced_classes su)) a of
        Some c \<Rightarrow> Some c
      | None \<Rightarrow> map_of (rev (deployed_contracts su)) a)"

lemma map_of_rev_None: "map_of (rev es) k = None \<longleftrightarrow> k \<notin> fst ` set es"
  by (simp add: map_of_eq_None_iff)

lemma contract_leafs_map_of:
  "map_of (contract_leafs su) a =
    (if a \<in> touched_contracts su
     then Some \<lparr>leaf_class_hash = updated_class su a, leaf_storage_root = None,
            leaf_nonce = map_of (rev (nonce_updates su)) a\<rparr>
     else None)"
proof -
  let ?f = "\<lambda>v l. l\<lparr>leaf_nonce := Some v\<rparr>" and ?g = "\<lambda>v l. l\<lparr>leaf_class_hash := Some v\<rparr>"
  define m0 where "m0 = fold (\<lambda>e. cache_insert (fst e) contract_leaf_default) (storage_updates su) []"
  define m1 where "m1 = fold (\<lambda>e. entry_update (fst e) (?f (snd e))) (nonce_updates su) m0"
  define m2 where "m2 = fold (\<lambda>e. entry_update (fst e) (?g (snd e))) (deployed_contracts su) m1"
  have "contract_leafs su = fold (\<lambda>e. entry_update (fst e) (?g (snd e))) (replaced_classes su) m2"
    by (simp add: contract_leafs_def m0_def m1_def m2_def)
  then have leafs: "map_of (contract_leafs su) a = (case map_of (rev (replaced_classes su)) a of
      None \<Rightarrow> map_of m2 a
    | Some v \<Rightarrow> Some (?g v (case map_of m2 a of None \<Rightarrow> contract_leaf_default | Some l \<Rightarrow> l)))"
    using entry_updates_map_of [of ?g "replaced_classes su" m2 a] by simp
  have m2: "map_of m2 a = (case map_of (rev (deployed_contracts su)) a of
      None \<Rightarrow> map_of m1 a
    | Some v \<Rightarrow> Some (?g v (case map_of m1 a of None \<Rightarrow> contract_leaf_default | Some l \<Rightarrow> l)))"
    unfolding m2_def by (rule entry_updates_map_of) simp
  have m1: "map_of m1 a = (case map_of (rev (nonce_updates su)) a of
      None \<Rightarrow> map_of m0 a
    | Some v \<Rightarrow> Some (?f v (case map_of m0 a of None \<Rightarrow> contract_leaf_default | Some l \<Rightarrow> l)))"
    unfolding m1_def by (rule entry_updates_map_of) simp
  have m0: "map_of m0 a = (if a \<in> fst ` set (storage_updates su) then Some contract_leaf_default else None)"
    unfolding m0_def default_leafs_map_of by simp
  have touched: "a \<in> touched_contracts su \<longleftrightarrow> a \<in> fst ` set (storage_updates su)
      \<or> map_of (rev (nonce_updates su)) a \<noteq> None \<or> map_of (rev (deployed_contracts su)) a \<noteq> None
      \<or> map_of (rev (replaced_classes su)) a \<noteq> None"
    unfolding map_of_rev_None touched_contracts_def by blast
  show ?thesis
    unfolding leafs m2 m1 m0 touched updated_class_def
    by (simp add: contract_leaf_default_def split: option.split)
qed

lemma fst_contract_leafs: "fst ` set (contract_leafs su) = touched_contracts su"
proof (rule set_eqI)
  fix a
  have "a \<in> fst ` set (contract_leafs su) \<longleftrightarrow> map_of (contract_leafs su) a \<noteq> None"
    unfolding map_of_eq_None_iff by blast
  then show "a \<in> fst ` set (contract_leafs su) \<longleftrightarrow> a \<in> touched_contracts su"
    unfolding contract_leafs_map_of by simp
qed

definition leaf_hash_of where
  "leaf_hash_of pedersen d su root a =
     compute_contract_state_hash pedersen
       (case updated_class su a of Some c \<Rightarrow> c
        | None \<Rightarrow> (case latest_class_hash_of_contract d a of Inr (Some c) \<Rightarrow> c | _ \<Rightarrow> 0))
       root
       (case map_of (rev (nonce_updates su)) a of Some n \<Rightarrow> n
        | None \<Rightarrow> (case latest_nonce d a of Inr (Some n) \<Rightarrow> n | _ \<Rightarrow> 0))"

lemma leaf_hashes_eq:
  assumes "\<And>a l. (a, l) \<in> set ls \<Longrightarrow>
    leaf_class_hash l = updated_class su a \<and> leaf_nonce l = map_of (rev (nonce_updates su)) a"
  shows "leaf_hashes B pedersen d st ls =
    Some (map (\<lambda>(a, l). (a, leaf_hash_of pedersen d su
      (storages_trie_root B a (bonsai_new B (trie_db_mut_new st))) a)) ls)"
  using assms
proof (induction ls)
  case Nil
  then show ?case by simp
next
  case (Cons e ls)
  obtain a l where e: "e = (a, l)" by (cases e)
  have l: "leaf_class_hash l = updated_class su a" "leaf_nonce l = map_of (rev (nonce_updates su)) a"
    using Cons.prems [of a l] by (simp_all add: e)
  have IH: "leaf_hashes B pedersen d st ls =
      Some (map (\<lambda>(a, l). (a, leaf_hash_of pedersen d su
        (storages_trie_root B a (bonsai_new B (trie_db_mut_new st))) a)) ls)"
    by (rule Cons.IH) (use Cons.prems in simp)
  show ?case
    by (simp add: e IH Let_def latest_def contract_state_leaf_hash_def leaf_hash_of_def l
        latest_nonce_def latest_class_hash_of_contract_def split: option.split)
qed

section \<open>Properties\<close>

text \<open>The path of a key in a trie is its low 251 bits: two keys share a path exactly when they
  are equal modulo \<open>2 ^ 251\<close>.  Keys below \<open>2 ^ 251\<close> are told apart; the few felts above are not.\<close>

theorem trie_path_eq_iff:
  "trie_path a = trie_path b \<longleftrightarrow> nat_of_felt a mod 2 ^ 251 = nat_of_felt b mod 2 ^ 251"
proof -
  have "trie_path a = trie_path b \<longleftrightarrow> (\<forall>i < 251. bit (nat_of_felt a) i = bit (nat_of_felt b) i)"
    by (auto simp add: trie_path_bits simp del: upt_Suc)
  also have "\<dots> \<longleftrightarrow> take_bit 251 (nat_of_felt a) = take_bit 251 (nat_of_felt b)"
    by (auto simp: bit_eq_iff bit_take_bit_iff)
  finally show ?thesis by (simp add: take_bit_eq_mod)
qed

text \<open>C25: The update of the contract trie never panics.  Whatever the iteration order of the leaves,
  it writes exactly one leaf for every contract whose storage, nonce or class the block changes: the
  hash of its class (replaced, else deployed, else as in the latest state, else zero), the root of
  its storage trie after all storage changes of the block, and its nonce (updated, else as in the
  latest state, else zero).\<close>

theorem contract_trie_update_leaves:
  fixes B :: "'s bonsai" and d :: "('tx, 'rcpt, 'trace, 'cls, 'ccls) db" and n :: block_number
    and su :: state_updates and tries :: "trie_db_mut \<times> trie_db_mut" and pedersen
  assumes "\<And>c. mset (order c) = mset c"
  defines "st \<equiv> fold (insert_storage_trie B n) (storage_updates su) (snd tries)"
  defines "hash \<equiv> \<lambda>a. leaf_hash_of pedersen d su
    (storages_trie_root B a (bonsai_new B (trie_db_mut_new st))) a"
  shows "\<exists>leaves. distinct (map fst leaves) \<and>
    set leaves = (\<lambda>a. (a, hash a)) ` touched_contracts su \<and>
    trie_insert_contract_updates B pedersen order d n su tries =
      (let trie = bonsai_commit B n (fold (\<lambda>(k, v). contracts_trie_insert B k v) leaves
             (bonsai_new B (trie_db_mut_new (fst tries))))
       in Some (contracts_trie_root B trie, bonsai_into_db B trie, st))"
proof -
  define ls where "ls = order (contract_leafs su)"
  have mset: "mset ls = mset (contract_leafs su)"
    by (simp add: ls_def assms(1))
  then have set: "set ls = set (contract_leafs su)"
    by (rule mset_eq_setD)
  have "mset (map fst ls) = mset (map fst (contract_leafs su))"
    using mset by simp
  then have dist: "distinct (map fst ls)"
    using contract_leafs_distinct by (metis mset_eq_imp_distinct_iff)
  have leaf: "leaf_class_hash l = updated_class su a \<and> leaf_nonce l = map_of (rev (nonce_updates su)) a"
    if "(a, l) \<in> set ls" for a l
  proof -
    have "map_of (contract_leafs su) a = Some l"
      using that set contract_leafs_distinct by simp
    then show ?thesis
      by (auto simp: contract_leafs_map_of split: if_splits)
  qed
  define leaves where "leaves = map (\<lambda>(a, l). (a, hash a)) ls"
  have "leaf_hashes B pedersen d st ls = Some leaves"
    using leaf_hashes_eq [OF leaf] by (simp add: leaves_def hash_def)
  moreover have fst: "map fst leaves = map fst ls"
    by (simp add: leaves_def split_beta comp_def)
  moreover have "fst ` set ls = touched_contracts su"
    by (simp add: set fst_contract_leafs)
  then have "set leaves = (\<lambda>a. (a, hash a)) ` touched_contracts su"
    by (auto simp: leaves_def split_beta image_image)
  ultimately show ?thesis
    using dist unfolding trie_insert_contract_updates_def st_def [symmetric] ls_def [symmetric]
    by (intro exI [of _ leaves]) (simp add: Let_def)
qed

text \<open>A library that keeps the list of its insertions, on an update with one nonce and one class.\<close>

theorem contract_trie_update_leaves_witness:
  "\<exists>leaves :: (contract_address \<times> felt) list. distinct (map fst leaves) \<and> fst ` set leaves = {felt 1, felt 2} \<and>
    trie_insert_contract_updates
      \<lparr>bonsai_new = \<lambda>_. [], bonsai_insert = (\<lambda>i k v s. (i, k, v) # s), bonsai_commit = (\<lambda>_ s. s),
       bonsai_root = (\<lambda>_ s. felt (length s)), bonsai_into_db = (\<lambda>_. empty_trie_db)\<rparr>
      (+) rev (empty_db :: (nat, nat, nat, nat, nat) db) 0
      (state_updates_default\<lparr>nonce_updates := [(felt 1, felt 5)], deployed_contracts := [(felt 2, felt 7)]\<rparr>)
      (empty_trie_db, empty_trie_db) = Some (felt (length leaves), empty_trie_db, empty_trie_db)"
proof -
  define B where "B = \<lparr>bonsai_new = \<lambda>_. [], bonsai_insert = (\<lambda>i k v s. (i, k, v) # s), bonsai_commit = (\<lambda>_ s. s),
       bonsai_root = (\<lambda>_ s. felt (length s)), bonsai_into_db = (\<lambda>_. empty_trie_db)\<rparr>"
  have len: "length (fold (\<lambda>(k, v). contracts_trie_insert B k v) ls s) = length ls + length s"
    for ls and s :: "(bytes \<times> bool list \<times> felt) list"
    by (induction ls arbitrary: s)
       (auto simp: contracts_trie_insert_def bonsai_trie_insert_def B_def)
  define su where
    "su = state_updates_default\<lparr>nonce_updates := [(felt 1, felt 5)], deployed_contracts := [(felt 2, felt 7)]\<rparr>"
  have su: "touched_contracts su = {felt 1, felt 2}" "storage_updates su = []"
    by (auto simp: su_def touched_contracts_def state_updates_default_def)
  have fields: "bonsai_new B = (\<lambda>_. [])" "bonsai_commit B = (\<lambda>_ s. s)"
    "bonsai_root B = (\<lambda>_ s. felt (length s))" "bonsai_into_db B = (\<lambda>_. empty_trie_db)"
    by (simp_all add: B_def)
  let ?d = "empty_db :: (nat, nat, nat, nat, nat) db" and ?t = "(empty_trie_db, empty_trie_db)"
  obtain leaves where leaves: "distinct (map fst leaves)"
    "fst ` set leaves = touched_contracts su"
    "trie_insert_contract_updates B (+) rev ?d 0 su ?t =
      (let trie = bonsai_commit B 0 (fold (\<lambda>(k, v). contracts_trie_insert B k v) leaves
             (bonsai_new B (trie_db_mut_new (fst ?t))))
       in Some (contracts_trie_root B trie, bonsai_into_db B trie,
            fold (insert_storage_trie B 0) (storage_updates su) (snd ?t)))"
    using contract_trie_update_leaves [where order = rev and B = B and pedersen = "(+)" and n = 0
        and su = su and d = ?d and tries = ?t, OF mset_rev]
  proof (elim exE conjE)
    fix leaves and hash :: "felt \<Rightarrow> felt"
    assume "set leaves = (\<lambda>a. (a, hash a)) ` touched_contracts su"
    then have "fst ` set leaves = touched_contracts su" by (simp add: image_image)
    moreover assume "distinct (map fst leaves)" "trie_insert_contract_updates B (+) rev ?d 0 su ?t =
      (let trie = bonsai_commit B 0 (fold (\<lambda>(k, v). contracts_trie_insert B k v) leaves
             (bonsai_new B (trie_db_mut_new (fst ?t))))
       in Some (contracts_trie_root B trie, bonsai_into_db B trie,
            fold (insert_storage_trie B 0) (storage_updates su) (snd ?t)))"
    ultimately show thesis using that by blast
  qed
  have "distinct (map fst leaves) \<and> fst ` set leaves = {felt 1, felt 2} \<and>
    trie_insert_contract_updates B (+) rev ?d 0 su ?t = Some (felt (length leaves), empty_trie_db, empty_trie_db)"
    using leaves by (simp add: su contracts_trie_root_def len fields)
  then show ?thesis
    unfolding B_def su_def by (rule exI)
qed

end
