(* ===== verification/Tx.thy ===== *)
theory Tx
  imports Primitives
begin

text \<open>
  Transactions (\<open>primitives/src/transaction.rs\<close>), their parts (\<open>chain.rs\<close>, \<open>fee.rs\<close>, \<open>da/mod.rs\<close>)
  and their hashes (\<open>utils/transaction.rs\<close>).  The two hash functions of the Starknet crates are
  parameters: \<open>ped\<close> is the Pedersen hash on elements, \<open>pos\<close> is Poseidon on many elements; so is the
  conversion of a short string.  Contract classes are a type parameter.  A branch that is \<open>todo!()\<close>
  in the source is \<open>None\<close>.
\<close>

section \<open>Data\<close>

datatype named_chain_id = Mainnet | Goerli | Sepolia

primrec named_chain_name :: "named_chain_id \<Rightarrow> string" where
  "named_chain_name Mainnet = ''SN_MAIN''"
| "named_chain_name Goerli = ''SN_GOERLI''"
| "named_chain_name Sepolia = ''SN_SEPOLIA''"

definition named_chain_value :: "(string \<Rightarrow> felt) \<Rightarrow> named_chain_id \<Rightarrow> felt" where
  "named_chain_value short_string c = short_string (named_chain_name c)"

definition named_chain_try_from :: "(string \<Rightarrow> felt) \<Rightarrow> felt \<Rightarrow> (named_chain_id, felt) result" where
  "named_chain_try_from short_string value =
     (if value = short_string ''SN_MAIN'' then Ok Mainnet
      else if value = short_string ''SN_GOERLI'' then Ok Goerli
      else if value = short_string ''SN_SEPOLIA'' then Ok Sepolia
      else Err value)"

datatype chain_id = Named named_chain_id | ChainIdValue felt

primrec chain_id_value :: "(string \<Rightarrow> felt) \<Rightarrow> chain_id \<Rightarrow> felt" where
  "chain_id_value short_string (Named name) = named_chain_value short_string name"
| "chain_id_value short_string (ChainIdValue i) = i"

definition chain_id_default :: chain_id where
  "chain_id_default = ChainIdValue 0"

definition chain_id_from :: "(string \<Rightarrow> felt) \<Rightarrow> felt \<Rightarrow> chain_id" where
  "chain_id_from short_string value =
     (case named_chain_try_from short_string value of
        Inr name \<Rightarrow> Named name
      | Inl _ \<Rightarrow> ChainIdValue value)"

record resource_bounds =
  rb_max_amount :: u64
  rb_max_price_per_unit :: u128

record resource_bounds_mapping =
  rbm_l1_gas :: resource_bounds
  rbm_l2_gas :: resource_bounds

datatype data_availability_mode = DaL1 | DaL2

primrec da_mode_as_u64 :: "data_availability_mode \<Rightarrow> u64" where
  "da_mode_as_u64 DaL1 = 0"
| "da_mode_as_u64 DaL2 = 1"

record invoke_tx_v0 =
  i0_contract_address :: contract_address
  i0_entry_point_selector :: felt
  i0_calldata :: "felt list"
  i0_signature :: "felt list"
  i0_max_fee :: u128

record invoke_tx_v1 =
  i1_chain_id :: chain_id
  i1_sender_address :: contract_address
  i1_nonce :: nonce
  i1_calldata :: "felt list"
  i1_signature :: "felt list"
  i1_max_fee :: u128

record invoke_tx_v3 =
  i3_chain_id :: chain_id
  i3_sender_address :: contract_address
  i3_nonce :: nonce
  i3_calldata :: "felt list"
  i3_signature :: "felt list"
  i3_resource_bounds :: resource_bounds_mapping
  i3_tip :: u64
  i3_paymaster_data :: "felt list"
  i3_account_deployment_data :: "felt list"
  i3_nonce_data_availability_mode :: data_availability_mode
  i3_fee_data_availability_mode :: data_availability_mode

datatype invoke_tx =
  InvokeV0 invoke_tx_v0 | is_InvokeV1: InvokeV1 invoke_tx_v1 | InvokeV3 invoke_tx_v3

record declare_tx_v0 =
  d0_chain_id :: chain_id
  d0_sender_address :: contract_address
  d0_signature :: "felt list"
  d0_class_hash :: class_hash
  d0_max_fee :: u128

record declare_tx_v1 =
  d1_chain_id :: chain_id
  d1_sender_address :: contract_address
  d1_nonce :: nonce
  d1_signature :: "felt list"
  d1_class_hash :: class_hash
  d1_max_fee :: u128

record declare_tx_v2 =
  d2_chain_id :: chain_id
  d2_sender_address :: contract_address
  d2_nonce :: nonce
  d2_signature :: "felt list"
  d2_class_hash :: class_hash
  d2_compiled_class_hash :: compiled_class_hash
  d2_max_fee :: u128

record declare_tx_v3 =
  d3_chain_id :: chain_id
  d3_sender_address :: contract_address
  d3_nonce :: nonce
  d3_signature :: "felt list"
  d3_class_hash :: class_hash
  d3_compiled_class_hash :: compiled_class_hash
  d3_resource_bounds :: resource_bounds_mapping
  d3_tip :: u64
  d3_paymaster_data :: "felt list"
  d3_account_deployment_data :: "felt list"
  d3_nonce_data_availability_mode :: data_availability_mode
  d3_fee_data_availability_mode :: data_availability_mode

datatype declare_tx =
    DeclareV1 declare_tx_v1 | DeclareV2 declare_tx_v2 | DeclareV3 declare_tx_v3
  | DeclareV0 declare_tx_v0

primrec declare_class_hash :: "declare_tx \<Rightarrow> class_hash" where
  "declare_class_hash (DeclareV0 tx) = d0_class_hash tx"
| "declare_class_hash (DeclareV1 tx) = d1_class_hash tx"
| "declare_class_hash (DeclareV2 tx) = d2_class_hash tx"
| "declare_class_hash (DeclareV3 tx) = d3_class_hash tx"

record l1_handler_tx =
  l1_nonce :: nonce
  l1_chain_id :: chain_id
  l1_paid_fee_on_l1 :: u128
  l1_version :: felt
  l1_message_hash :: bytes
  l1_calldata :: "felt list"
  l1_contract_address :: contract_address
  l1_entry_point_selector :: felt

record deploy_account_tx_v1 =
  da1_chain_id :: chain_id
  da1_nonce :: nonce
  da1_signature :: "felt list"
  da1_class_hash :: class_hash
  da1_contract_address :: contract_address
  da1_contract_address_salt :: felt
  da1_constructor_calldata :: "felt list"
  da1_max_fee :: u128

record deploy_account_tx_v3 =
  da3_chain_id :: chain_id
  da3_nonce :: nonce
  da3_signature :: "felt list"
  da3_class_hash :: class_hash
  da3_contract_address :: contract_address
  da3_contract_address_salt :: felt
  da3_constructor_calldata :: "felt list"
  da3_resource_bounds :: resource_bounds_mapping
  da3_tip :: u64
  da3_paymaster_data :: "felt list"
  da3_nonce_data_availability_mode :: data_availability_mode
  da3_fee_data_availability_mode :: data_availability_mode

datatype deploy_account_tx =
  DeployAccountV1 deploy_account_tx_v1 | DeployAccountV3 deploy_account_tx_v3

primrec deploy_account_contract_address :: "deploy_account_tx \<Rightarrow> contract_address" where
  "deploy_account_contract_address (DeployAccountV1 tx) = da1_contract_address tx"
| "deploy_account_contract_address (DeployAccountV3 tx) = da3_contract_address tx"

record deploy_tx =
  dep_contract_address :: felt
  dep_contract_address_salt :: felt
  dep_constructor_calldata :: "felt list"
  dep_class_hash :: felt
  dep_version :: felt

datatype tx_type = TyInvoke | TyDeclare | TyDeployAccount | TyL1Handler | TyDeploy

datatype tx =
    TxInvoke invoke_tx | TxDeclare declare_tx | TxL1Handler l1_handler_tx
  | TxDeployAccount deploy_account_tx | TxDeploy deploy_tx

fun tx_version :: "tx \<Rightarrow> felt" where
  "tx_version (TxInvoke (InvokeV0 _)) = felt 0"
| "tx_version (TxInvoke (InvokeV1 _)) = felt 1"
| "tx_version (TxInvoke (InvokeV3 _)) = felt 3"
| "tx_version (TxDeclare (DeclareV0 _)) = felt 0"
| "tx_version (TxDeclare (DeclareV1 _)) = felt 1"
| "tx_version (TxDeclare (DeclareV2 _)) = felt 2"
| "tx_version (TxDeclare (DeclareV3 _)) = felt 3"
| "tx_version (TxL1Handler tx) = l1_version tx"
| "tx_version (TxDeployAccount (DeployAccountV1 _)) = felt 1"
| "tx_version (TxDeployAccount (DeployAccountV3 _)) = felt 3"
| "tx_version (TxDeploy tx) = dep_version tx"

record 'cls declare_tx_with_class =
  dtc_class :: 'cls
  dtc_transaction :: declare_tx

definition declare_tx_with_class_new :: "declare_tx \<Rightarrow> 'cls \<Rightarrow> 'cls declare_tx_with_class" where
  "declare_tx_with_class_new transaction class = \<lparr>dtc_class = class, dtc_transaction = transaction\<rparr>"

datatype 'cls executable_tx =
    ExInvoke invoke_tx | ExL1Handler l1_handler_tx | ExDeclare "'cls declare_tx_with_class"
  | ExDeployAccount deploy_account_tx

datatype tx_ref =
    RefInvoke invoke_tx | RefDeclare declare_tx | RefL1Handler l1_handler_tx
  | RefDeployAccount deploy_account_tx

primrec tx_from_ref :: "tx_ref \<Rightarrow> tx" where
  "tx_from_ref (RefInvoke tx) = TxInvoke tx"
| "tx_from_ref (RefDeclare tx) = TxDeclare tx"
| "tx_from_ref (RefL1Handler tx) = TxL1Handler tx"
| "tx_from_ref (RefDeployAccount tx) = TxDeployAccount tx"

primrec executable_tx_ref :: "'cls executable_tx \<Rightarrow> tx_ref" where
  "executable_tx_ref (ExInvoke tx) = RefInvoke tx"
| "executable_tx_ref (ExL1Handler tx) = RefL1Handler tx"
| "executable_tx_ref (ExDeclare tx) = RefDeclare (dtc_transaction tx)"
| "executable_tx_ref (ExDeployAccount tx) = RefDeployAccount tx"

primrec executable_tx_type :: "'cls executable_tx \<Rightarrow> tx_type" where
  "executable_tx_type (ExInvoke _) = TyInvoke"
| "executable_tx_type (ExDeclare _) = TyDeclare"
| "executable_tx_type (ExL1Handler _) = TyL1Handler"
| "executable_tx_type (ExDeployAccount _) = TyDeployAccount"

record 'cls executable_tx_with_hash =
  et_hash :: tx_hash
  et_transaction :: "'cls executable_tx"

definition tx_with_hash_from :: "'cls executable_tx_with_hash \<Rightarrow> tx tx_with_hash" where
  "tx_with_hash_from t =
     \<lparr>twh_hash = et_hash t, twh_transaction = tx_from_ref (executable_tx_ref (et_transaction t))\<rparr>"

section \<open>Constants\<close>

text \<open>\<open>Felt::from_raw\<close> takes the four limbs, most significant first, of the Montgomery form: the
  number times \<open>2 ^ 256\<close> modulo the prime.  \<open>mont_inv\<close> is the inverse of \<open>2 ^ 256\<close>.\<close>

definition mont_inv :: nat where
  "mont_inv = 113078212145816603762751633895895194930089271709401121343797004406777446400"

definition felt_from_raw :: "nat list \<Rightarrow> felt" where
  "felt_from_raw limbs = felt (foldl (\<lambda>acc l. acc * 2 ^ 64 + l) 0 limbs * mont_inv)"

definition QUERY_VERSION_OFFSET :: felt where
  "QUERY_VERSION_OFFSET =
     felt_from_raw [576460752142434320, 18446744073709551584, 17407, 18446744073700081665]"

definition PREFIX_INVOKE :: felt where
  "PREFIX_INVOKE =
     felt_from_raw [513398556346534256, 18446744073709551615, 18446744073709551615, 18443034532770911073]"

definition PREFIX_DECLARE :: felt where
  "PREFIX_DECLARE =
     felt_from_raw [191557713328401194, 18446744073709551615, 18446744073709551615, 17542456862011667323]"

definition PREFIX_DEPLOY_ACCOUNT :: felt where
  "PREFIX_DEPLOY_ACCOUNT =
     felt_from_raw [461298303000467581, 18446744073709551615, 18443211694809419988, 3350261884043292318]"

definition PREFIX_L1_HANDLER :: felt where
  "PREFIX_L1_HANDLER =
     felt_from_raw [157895833347907735, 18446744073709551615, 18446744073708665300, 1365666230910873368]"

section \<open>Hashes\<close>

definition versioned :: "bool \<Rightarrow> nat \<Rightarrow> felt" where
  "versioned is_query v = (if is_query then QUERY_VERSION_OFFSET + felt v else felt v)"

text \<open>The 32 bytes of a gas bound: the name of the resource padded to 8 bytes, the amount, the price.
  The source subtracts the length of the name, \<open>L1_GAS\<close> or \<open>L2_GAS\<close>, from the 8 bytes.\<close>

definition ascii :: "string \<Rightarrow> bytes" where
  "ascii s = map (\<lambda>c. of_nat (of_char c)) s"

definition encode_gas_bound :: "bytes \<Rightarrow> resource_bounds \<Rightarrow> felt" where
  "encode_gas_bound name bound =
     felt_from_bytes_be_slice
       (replicate (8 - length name) 0 @ name @ be_bytes 8 (unat (rb_max_amount bound))
        @ be_bytes 16 (unat (rb_max_price_per_unit bound)))"

definition fee_fields :: "u64 \<Rightarrow> resource_bounds \<Rightarrow> resource_bounds \<Rightarrow> felt list" where
  "fee_fields tip l1_gas_bounds l2_gas_bounds =
     [felt (unat tip), encode_gas_bound (ascii ''L1_GAS'') l1_gas_bounds,
      encode_gas_bound (ascii ''L2_GAS'') l2_gas_bounds]"

definition hash_fee_fields ::
  "(felt list \<Rightarrow> felt) \<Rightarrow> u64 \<Rightarrow> resource_bounds \<Rightarrow> resource_bounds \<Rightarrow> felt" where
  "hash_fee_fields pos tip l1_gas_bounds l2_gas_bounds =
     pos (fee_fields tip l1_gas_bounds l2_gas_bounds)"

definition encode_da_mode :: "data_availability_mode \<Rightarrow> data_availability_mode \<Rightarrow> felt" where
  "encode_da_mode nonce_da_mode fee_da_mode =
     felt (unat (push_bit 32 (da_mode_as_u64 nonce_da_mode) + da_mode_as_u64 fee_da_mode))"

definition deploy_account_v1_elements where
  "deploy_account_v1_elements ped sender_address constructor_calldata class_hash
     contract_address_salt (max_fee :: u128) chain_id nonce is_query =
     [PREFIX_DEPLOY_ACCOUNT, versioned is_query 1, sender_address, 0,
      ped ([class_hash, contract_address_salt] @ constructor_calldata), felt (unat max_fee),
      chain_id, nonce]"

definition deploy_account_v3_elements where
  "deploy_account_v3_elements pos contract_address constructor_calldata class_hash
     contract_address_salt tip l1_gas_bounds l2_gas_bounds paymaster_data chain_id nonce
     nonce_da_mode fee_da_mode is_query =
     [PREFIX_DEPLOY_ACCOUNT, versioned is_query 3, contract_address,
      hash_fee_fields pos tip l1_gas_bounds l2_gas_bounds, pos paymaster_data, chain_id, nonce,
      encode_da_mode nonce_da_mode fee_da_mode, pos constructor_calldata, class_hash,
      contract_address_salt]"

definition declare_v0_elements where
  "declare_v0_elements ped sender_address class_hash (max_fee :: u128) chain_id is_query =
     [PREFIX_DECLARE, versioned is_query 0, sender_address, 0, ped [], felt (unat max_fee),
      chain_id, class_hash]"

definition declare_v1_elements where
  "declare_v1_elements ped sender_address class_hash (max_fee :: u128) chain_id nonce is_query =
     [PREFIX_DECLARE, versioned is_query 1, sender_address, 0, ped [class_hash],
      felt (unat max_fee), chain_id, nonce]"

definition declare_v2_elements where
  "declare_v2_elements ped sender_address class_hash (max_fee :: u128) chain_id nonce
     compiled_class_hash is_query =
     [PREFIX_DECLARE, versioned is_query 2, sender_address, 0, ped [class_hash],
      felt (unat max_fee), chain_id, nonce, compiled_class_hash]"

definition declare_v3_elements where
  "declare_v3_elements pos sender_address class_hash compiled_class_hash tip l1_gas_bounds
     l2_gas_bounds paymaster_data chain_id nonce nonce_da_mode fee_da_mode account_deployment_data
     is_query =
     [PREFIX_DECLARE, versioned is_query 3, sender_address,
      hash_fee_fields pos tip l1_gas_bounds l2_gas_bounds, pos paymaster_data, chain_id, nonce,
      encode_da_mode nonce_da_mode fee_da_mode, pos account_deployment_data, class_hash,
      compiled_class_hash]"

definition invoke_v1_elements where
  "invoke_v1_elements ped sender_address calldata (max_fee :: u128) chain_id nonce is_query =
     [PREFIX_INVOKE, versioned is_query 1, sender_address, 0, ped calldata, felt (unat max_fee),
      chain_id, nonce]"

definition invoke_v3_elements where
  "invoke_v3_elements pos sender_address calldata tip l1_gas_bounds l2_gas_bounds paymaster_data
     chain_id nonce nonce_da_mode fee_da_mode account_deployment_data is_query =
     [PREFIX_INVOKE, versioned is_query 3, sender_address,
      hash_fee_fields pos tip l1_gas_bounds l2_gas_bounds, pos paymaster_data, chain_id, nonce,
      encode_da_mode nonce_da_mode fee_da_mode, pos account_deployment_data, pos calldata]"

definition l1_handler_elements where
  "l1_handler_elements ped version contract_address entry_point_selector calldata chain_id nonce =
     [PREFIX_L1_HANDLER, version, contract_address, entry_point_selector, ped calldata, 0,
      chain_id, nonce]"

text \<open>What each transaction gives to which hash: \<open>Inl\<close> is the Pedersen hash, \<open>Inr\<close> is Poseidon.\<close>

type_synonym hashes = "(felt list \<Rightarrow> felt) \<times> (felt list \<Rightarrow> felt)"

primrec invoke_elements ::
  "hashes \<Rightarrow> (string \<Rightarrow> felt) \<Rightarrow> invoke_tx \<Rightarrow> bool \<Rightarrow> (felt list + felt list) option" where
  "invoke_elements H ss (InvokeV0 tx) is_query = None"
| "invoke_elements H ss (InvokeV1 tx) is_query =
     Some (Inl (invoke_v1_elements (fst H) (i1_sender_address tx) (i1_calldata tx) (i1_max_fee tx)
       (chain_id_value ss (i1_chain_id tx)) (i1_nonce tx) is_query))"
| "invoke_elements H ss (InvokeV3 tx) is_query =
     Some (Inr (invoke_v3_elements (snd H) (i3_sender_address tx) (i3_calldata tx) (i3_tip tx)
       (rbm_l1_gas (i3_resource_bounds tx)) (rbm_l2_gas (i3_resource_bounds tx))
       (i3_paymaster_data tx) (chain_id_value ss (i3_chain_id tx)) (i3_nonce tx)
       (i3_nonce_data_availability_mode tx) (i3_fee_data_availability_mode tx)
       (i3_account_deployment_data tx) is_query))"

primrec declare_elements ::
  "hashes \<Rightarrow> (string \<Rightarrow> felt) \<Rightarrow> declare_tx \<Rightarrow> bool \<Rightarrow> felt list + felt list" where
  "declare_elements H ss (DeclareV0 tx) is_query =
     Inl (declare_v0_elements (fst H) (d0_sender_address tx) (d0_class_hash tx) (d0_max_fee tx)
       (chain_id_value ss (d0_chain_id tx)) is_query)"
| "declare_elements H ss (DeclareV1 tx) is_query =
     Inl (declare_v1_elements (fst H) (d1_sender_address tx) (d1_class_hash tx) (d1_max_fee tx)
       (chain_id_value ss (d1_chain_id tx)) (d1_nonce tx) is_query)"
| "declare_elements H ss (DeclareV2 tx) is_query =
     Inl (declare_v2_elements (fst H) (d2_sender_address tx) (d2_class_hash tx) (d2_max_fee tx)
       (chain_id_value ss (d2_chain_id tx)) (d2_nonce tx) (d2_compiled_class_hash tx) is_query)"
| "declare_elements H ss (DeclareV3 tx) is_query =
     Inr (declare_v3_elements (snd H) (d3_sender_address tx) (d3_class_hash tx)
       (d3_compiled_class_hash tx) (d3_tip tx) (rbm_l1_gas (d3_resource_bounds tx))
       (rbm_l2_gas (d3_resource_bounds tx)) (d3_paymaster_data tx)
       (chain_id_value ss (d3_chain_id tx)) (d3_nonce tx) (d3_nonce_data_availability_mode tx)
       (d3_fee_data_availability_mode tx) (d3_account_deployment_data tx) is_query)"

primrec deploy_account_elements ::
  "hashes \<Rightarrow> (string \<Rightarrow> felt) \<Rightarrow> deploy_account_tx \<Rightarrow> bool \<Rightarrow> felt list + felt list" where
  "deploy_account_elements H ss (DeployAccountV1 tx) is_query =
     Inl (deploy_account_v1_elements (fst H) (da1_contract_address tx) (da1_constructor_calldata tx)
       (da1_class_hash tx) (da1_contract_address_salt tx) (da1_max_fee tx)
       (chain_id_value ss (da1_chain_id tx)) (da1_nonce tx) is_query)"
| "deploy_account_elements H ss (DeployAccountV3 tx) is_query =
     Inr (deploy_account_v3_elements (snd H) (da3_contract_address tx) (da3_constructor_calldata tx)
       (da3_class_hash tx) (da3_contract_address_salt tx) (da3_tip tx)
       (rbm_l1_gas (da3_resource_bounds tx)) (rbm_l2_gas (da3_resource_bounds tx))
       (da3_paymaster_data tx) (chain_id_value ss (da3_chain_id tx)) (da3_nonce tx)
       (da3_nonce_data_availability_mode tx) (da3_fee_data_availability_mode tx) is_query)"

definition l1_handler_tx_elements ::
  "hashes \<Rightarrow> (string \<Rightarrow> felt) \<Rightarrow> l1_handler_tx \<Rightarrow> felt list + felt list" where
  "l1_handler_tx_elements H ss tx =
     Inl (l1_handler_elements (fst H) (l1_version tx) (l1_contract_address tx)
       (l1_entry_point_selector tx) (l1_calldata tx) (chain_id_value ss (l1_chain_id tx))
       (l1_nonce tx))"

primrec executable_tx_elements ::
  "hashes \<Rightarrow> (string \<Rightarrow> felt) \<Rightarrow> 'cls executable_tx \<Rightarrow> bool \<Rightarrow> (felt list + felt list) option" where
  "executable_tx_elements H ss (ExL1Handler tx) is_query = Some (l1_handler_tx_elements H ss tx)"
| "executable_tx_elements H ss (ExInvoke tx) is_query = invoke_elements H ss tx is_query"
| "executable_tx_elements H ss (ExDeclare tx) is_query =
     Some (declare_elements H ss (dtc_transaction tx) is_query)"
| "executable_tx_elements H ss (ExDeployAccount tx) is_query =
     Some (deploy_account_elements H ss tx is_query)"

definition calculate_hash ::
  "hashes \<Rightarrow> (string \<Rightarrow> felt) \<Rightarrow> 'cls executable_tx \<Rightarrow> bool \<Rightarrow> tx_hash option" where
  "calculate_hash H ss tx is_query =
     map_option (case_sum (fst H) (snd H)) (executable_tx_elements H ss tx is_query)"

definition executable_tx_new ::
  "hashes \<Rightarrow> (string \<Rightarrow> felt) \<Rightarrow> 'cls executable_tx \<Rightarrow> 'cls executable_tx_with_hash option" where
  "executable_tx_new H ss transaction =
     map_option (\<lambda>h. \<lparr>et_hash = h, et_transaction = transaction\<rparr>)
       (calculate_hash H ss transaction False)"

definition executable_tx_new_query ::
  "hashes \<Rightarrow> (string \<Rightarrow> felt) \<Rightarrow> 'cls executable_tx \<Rightarrow> bool
    \<Rightarrow> 'cls executable_tx_with_hash option" where
  "executable_tx_new_query H ss transaction is_query =
     map_option (\<lambda>h. \<lparr>et_hash = h, et_transaction = transaction\<rparr>)
       (calculate_hash H ss transaction is_query)"

section \<open>Values of the constants\<close>

lemma mont_inv_inverse: "2 ^ 256 * mont_inv mod stark_prime = 1"
  by (simp add: mont_inv_def stark_prime_def)

lemma query_version_offset: "QUERY_VERSION_OFFSET = felt (2 ^ 128)"
  by (simp add: QUERY_VERSION_OFFSET_def felt_from_raw_def felt_eq_iff mont_inv_def stark_prime_def)

lemma prefix_values:
  "PREFIX_INVOKE = felt 115923154332517" "PREFIX_DECLARE = felt 28258975365558885"
  "PREFIX_DEPLOY_ACCOUNT = felt 2036277798190617858034555652763252"
  "PREFIX_L1_HANDLER = felt 510926345461491391292786"
  by (simp_all add: PREFIX_INVOKE_def PREFIX_DECLARE_def PREFIX_DEPLOY_ACCOUNT_def
      PREFIX_L1_HANDLER_def felt_from_raw_def felt_eq_iff mont_inv_def stark_prime_def)

lemma prefixes_distinct [simp]:
  "distinct [PREFIX_INVOKE, PREFIX_DECLARE, PREFIX_DEPLOY_ACCOUNT, PREFIX_L1_HANDLER]"
  by (simp add: prefix_values felt_eq_iff stark_prime_def)

lemma versioned_eq_iff:
  "v < 2 ^ 128 \<Longrightarrow> w < 2 ^ 128 \<Longrightarrow> versioned q v = versioned r w \<longleftrightarrow> q = r \<and> v = w"
  by (auto simp: versioned_def query_version_offset felt_plus_felt felt_eq_iff stark_prime_def)

section \<open>The encodings of the version 3 fields\<close>

lemma length_ascii [simp]: "length (ascii s) = length s"
  by (simp add: ascii_def)

text \<open>A name of at most six bytes leaves the two high bytes zero, so nothing is reduced.\<close>

lemma encode_gas_bound_eq_iff:
  assumes "length name = 6"
  shows "encode_gas_bound name b = encode_gas_bound name c \<longleftrightarrow> b = c"
proof
  define buf where "buf b = name @ be_bytes 8 (unat (rb_max_amount b))
      @ be_bytes 16 (unat (rb_max_price_per_unit b))" for b :: resource_bounds
  have buf_len: "length (buf b) = 30" for b
    using assms by (simp add: buf_def)
  have zeros: "from_be_bytes (replicate 2 0 @ buf b) = from_be_bytes (buf b)" for b
    by (simp add: from_be_bytes_append from_be_bytes_Cons numeral_2_eq_2)
  have small: "from_be_bytes (buf b) < stark_prime" for b
  proof -
    have "from_be_bytes (buf b) < 256 ^ 30"
      using from_be_bytes_bound [of "buf b"] by (simp add: buf_len)
    also have "\<dots> < stark_prime"
      by (simp add: stark_prime_def)
    finally show ?thesis .
  qed
  assume "encode_gas_bound name b = encode_gas_bound name c"
  then have "felt (from_be_bytes (replicate 2 0 @ buf b)) = felt (from_be_bytes (replicate 2 0 @ buf c))"
    using assms by (simp add: encode_gas_bound_def felt_from_bytes_be_slice_def buf_def)
  then have "from_be_bytes (buf b) = from_be_bytes (buf c)"
    unfolding zeros using small by simp
  then have "buf b = buf c"
    by (rule from_be_bytes_inj [rotated]) (simp add: buf_len)
  then have amount: "be_bytes 8 (unat (rb_max_amount b)) = be_bytes 8 (unat (rb_max_amount c))"
    and price: "be_bytes 16 (unat (rb_max_price_per_unit b)) = be_bytes 16 (unat (rb_max_price_per_unit c))"
    by (simp_all add: buf_def)
  have "unat (x :: u64) < 256 ^ 8" "unat (y :: u128) < 256 ^ 16" for x y
    using unsigned_less [of x] unsigned_less [of y] by simp_all
  then have "unat (rb_max_amount b) = unat (rb_max_amount c)"
    "unat (rb_max_price_per_unit b) = unat (rb_max_price_per_unit c)"
    using be_bytes_inj [OF amount] be_bytes_inj [OF price] by simp_all
  then show "b = c"
    by (intro resource_bounds.equality) (simp_all add: word_unat_eq_iff)
qed simp

lemma fee_fields_eq_iff:
  "fee_fields t b c = fee_fields t' b' c' \<longleftrightarrow> t = t' \<and> b = b' \<and> c = c'"
  by (simp add: fee_fields_def encode_gas_bound_eq_iff)

lemma encode_da_mode_eq_iff:
  "encode_da_mode a b = encode_da_mode c d \<longleftrightarrow> a = c \<and> b = d"
proof -
  have "encode_da_mode a b = encode_da_mode c d \<longleftrightarrow>
      push_bit 32 (da_mode_as_u64 a) + da_mode_as_u64 b = push_bit 32 (da_mode_as_u64 c) + da_mode_as_u64 d"
    unfolding encode_da_mode_def felt_unat_u64_eq ..
  then show ?thesis
    by (cases a; cases b; cases c; cases d) simp_all
qed

section \<open>The first two elements\<close>

primrec type_prefix :: "tx_type \<Rightarrow> felt" where
  "type_prefix TyInvoke = PREFIX_INVOKE"
| "type_prefix TyDeclare = PREFIX_DECLARE"
| "type_prefix TyDeployAccount = PREFIX_DEPLOY_ACCOUNT"
| "type_prefix TyL1Handler = PREFIX_L1_HANDLER"
| "type_prefix TyDeploy = 0"

lemma type_prefix_inj: "type_prefix s = type_prefix t \<longleftrightarrow> s = t"
  by (cases s; cases t)
     (simp_all add: prefix_values zero_felt_eq felt_eq_iff stark_prime_def)

abbreviation tagged :: "tx_type \<Rightarrow> felt \<Rightarrow> bool \<Rightarrow> felt list + felt list \<Rightarrow> bool" where
  "tagged ty ver q e \<equiv> \<exists>v rest. v < 4 \<and> case_sum id id e = type_prefix ty # versioned q v # rest \<and> ver = felt v"

lemma invoke_tagged:
  assumes "invoke_elements H ss tx q = Some e"
  shows "tagged TyInvoke (tx_version (TxInvoke tx)) q e"
  using assms
  by (cases tx; intro exI [of _ "if is_InvokeV1 tx then 1 else 3"])
     (auto simp: invoke_v1_elements_def invoke_v3_elements_def)

lemma declare_tagged:
  "tagged TyDeclare (tx_version (TxDeclare tx)) q (declare_elements H ss tx q)"
proof (cases tx)
  case (DeclareV0 t)
  then show ?thesis by (intro exI [of _ 0]) (simp add: declare_v0_elements_def)
next
  case (DeclareV1 t)
  then show ?thesis by (intro exI [of _ 1]) (simp add: declare_v1_elements_def)
next
  case (DeclareV2 t)
  then show ?thesis by (intro exI [of _ 2]) (simp add: declare_v2_elements_def)
next
  case (DeclareV3 t)
  then show ?thesis by (intro exI [of _ 3]) (simp add: declare_v3_elements_def)
qed

lemma deploy_account_tagged:
  "tagged TyDeployAccount (tx_version (TxDeployAccount tx)) q (deploy_account_elements H ss tx q)"
proof (cases tx)
  case (DeployAccountV1 t)
  then show ?thesis by (intro exI [of _ 1]) (simp add: deploy_account_v1_elements_def)
next
  case (DeployAccountV3 t)
  then show ?thesis by (intro exI [of _ 3]) (simp add: deploy_account_v3_elements_def)
qed

text \<open>Every transaction but the L1 handler's starts with its kind and its version.\<close>

lemma elements_tagged:
  assumes "executable_tx_elements H ss tx q = Some e"
  shows "executable_tx_type tx \<noteq> TyL1Handler \<and>
      tagged (executable_tx_type tx) (tx_version (tx_from_ref (executable_tx_ref tx))) q e
    \<or> executable_tx_type tx = TyL1Handler \<and>
      (\<exists>rest. case_sum id id e = PREFIX_L1_HANDLER # tx_version (tx_from_ref (executable_tx_ref tx)) # rest)"
proof (cases tx)
  case (ExInvoke t)
  with assms have "tagged TyInvoke (tx_version (TxInvoke t)) q e"
    by (intro invoke_tagged) simp
  with ExInvoke show ?thesis by simp
next
  case (ExL1Handler t)
  with assms show ?thesis
    by (auto simp: l1_handler_tx_elements_def l1_handler_elements_def)
next
  case (ExDeclare t)
  with assms have "tagged TyDeclare (tx_version (TxDeclare (dtc_transaction t))) q e"
    using declare_tagged [where tx = "dtc_transaction t" and q = q and H = H and ss = ss] by simp
  with ExDeclare show ?thesis by simp
next
  case (ExDeployAccount t)
  with assms have "tagged TyDeployAccount (tx_version (TxDeployAccount t)) q e"
    using deploy_account_tagged [where tx = t and q = q and H = H and ss = ss] by simp
  with ExDeployAccount show ?thesis by simp
qed

section \<open>Properties\<close>

text \<open>The constants of the transaction hashes, written in the source as raw Montgomery limbs, are
  the felts their comments claim: \<open>2 ^ 128\<close> and the short strings of the four transaction kinds.\<close>

lemma tx_hash_constants:
  "QUERY_VERSION_OFFSET = felt (2 ^ 128) \<and>
   PREFIX_INVOKE = felt_from_bytes_be_slice (ascii ''invoke'') \<and>
   PREFIX_DECLARE = felt_from_bytes_be_slice (ascii ''declare'') \<and>
   PREFIX_DEPLOY_ACCOUNT = felt_from_bytes_be_slice (ascii ''deploy_account'') \<and>
   PREFIX_L1_HANDLER = felt_from_bytes_be_slice (ascii ''l1_handler'')"
  by (simp add: query_version_offset prefix_values felt_from_bytes_be_slice_def ascii_def
      from_be_bytes_def)



text \<open>The inputs of the Poseidon calls in the hash of a version 3 invocation.\<close>

definition invoke_v3_inputs ::
  "(felt list \<Rightarrow> felt) \<Rightarrow> (string \<Rightarrow> felt) \<Rightarrow> invoke_tx_v3 \<Rightarrow> bool \<Rightarrow> felt list set" where
  "invoke_v3_inputs pos ss tx is_query =
     {i3_calldata tx, i3_account_deployment_data tx, i3_paymaster_data tx,
      fee_fields (i3_tip tx) (rbm_l1_gas (i3_resource_bounds tx)) (rbm_l2_gas (i3_resource_bounds tx)),
      case_sum id id (the (invoke_elements (pos, pos) ss (InvokeV3 tx) is_query))}"

text \<open>The hash of a version 3 invocation binds everything but its signature: if the hashes of two
  such transactions are equal and Poseidon does not collide on the inputs the two computations
  give it, the transactions agree on chain id, sender, nonce, calldata, tip, gas bounds, paymaster
  data, deployment data, both data availability modes and on being a query.\<close>

theorem invoke_v3_hash_binding:
  assumes "inj_on pos (invoke_v3_inputs pos ss a q \<union> invoke_v3_inputs pos ss b r)"
    and "calculate_hash (ped, pos) ss (ExInvoke (InvokeV3 a)) q
       = calculate_hash (ped, pos) ss (ExInvoke (InvokeV3 b)) r"
  shows "q = r \<and> chain_id_value ss (i3_chain_id a) = chain_id_value ss (i3_chain_id b) \<and>
    a\<lparr>i3_signature := [], i3_chain_id := c\<rparr> = b\<lparr>i3_signature := [], i3_chain_id := c\<rparr>"
proof -
  define elems where "elems t p = case_sum id id (the (invoke_elements (pos, pos) ss (InvokeV3 t) p))" for t p
  have eq: "x = y" if "pos x = pos y" "x \<in> invoke_v3_inputs pos ss a q" "y \<in> invoke_v3_inputs pos ss b r"
    for x y
    using inj_onD [OF assms(1) that(1)] that(2,3) by blast
  have "pos (elems a q) = pos (elems b r)"
    using assms(2) by (simp add: calculate_hash_def elems_def)
  then have top: "elems a q = elems b r"
    by (rule eq) (simp_all add: invoke_v3_inputs_def elems_def)
  have "versioned q 3 = versioned r 3"
    using top by (simp add: elems_def invoke_v3_elements_def)
  then have query: "q = r"
    by (simp add: versioned_eq_iff)
  have "i3_calldata a = i3_calldata b"
    by (rule eq) (use top in \<open>simp_all add: elems_def invoke_v3_elements_def invoke_v3_inputs_def\<close>)
  moreover have "i3_account_deployment_data a = i3_account_deployment_data b"
    by (rule eq) (use top in \<open>simp_all add: elems_def invoke_v3_elements_def invoke_v3_inputs_def\<close>)
  moreover have "i3_paymaster_data a = i3_paymaster_data b"
    by (rule eq) (use top in \<open>simp_all add: elems_def invoke_v3_elements_def invoke_v3_inputs_def\<close>)
  moreover have "fee_fields (i3_tip a) (rbm_l1_gas (i3_resource_bounds a)) (rbm_l2_gas (i3_resource_bounds a))
      = fee_fields (i3_tip b) (rbm_l1_gas (i3_resource_bounds b)) (rbm_l2_gas (i3_resource_bounds b))"
    by (rule eq) (use top in \<open>simp_all add: elems_def invoke_v3_elements_def invoke_v3_inputs_def
        hash_fee_fields_def\<close>)
  then have "i3_tip a = i3_tip b" "i3_resource_bounds a = i3_resource_bounds b"
    by (auto simp: fee_fields_eq_iff intro: resource_bounds_mapping.equality)
  ultimately show ?thesis
    using top query
    by (auto simp: elems_def invoke_v3_elements_def encode_da_mode_eq_iff intro: invoke_tx_v3.equality)
qed

text \<open>Two invocations with different signatures; the stand-in for Poseidon is the length,
  which tells the five inputs apart.\<close>

theorem invoke_v3_hash_binding_witness:
  "\<exists>a b :: invoke_tx_v3. \<exists>pos. i3_signature a \<noteq> i3_signature b \<and>
     inj_on pos (invoke_v3_inputs pos (\<lambda>_. 0) a False \<union> invoke_v3_inputs pos (\<lambda>_. 0) b False) \<and>
     a\<lparr>i3_signature := [], i3_chain_id := Named Mainnet\<rparr> = b\<lparr>i3_signature := [], i3_chain_id := Named Mainnet\<rparr>"
proof -
  define pos where "pos xs = felt (length xs)" for xs :: "felt list"
  define rb where "rb = \<lparr>rb_max_amount = 1, rb_max_price_per_unit = 2\<rparr>"
  define a where "a = \<lparr>i3_chain_id = Named Sepolia, i3_sender_address = 1, i3_nonce = 1, i3_calldata = [1],
    i3_signature = [], i3_resource_bounds = \<lparr>rbm_l1_gas = rb, rbm_l2_gas = rb\<rparr>, i3_tip = 0,
    i3_paymaster_data = [], i3_account_deployment_data = [1, 1],
    i3_nonce_data_availability_mode = DaL1, i3_fee_data_availability_mode = DaL1\<rparr>"
  define b where "b = a\<lparr>i3_signature := [1]\<rparr>"
  have inputs: "invoke_v3_inputs pos (\<lambda>_. 0) b False = invoke_v3_inputs pos (\<lambda>_. 0) a False"
    by (simp add: invoke_v3_inputs_def b_def invoke_v3_elements_def)
  have inj: "inj_on pos (invoke_v3_inputs pos (\<lambda>_. 0) a False)"
    by (auto simp: inj_on_def pos_def invoke_v3_inputs_def a_def invoke_v3_elements_def fee_fields_def
        felt_eq_iff stark_prime_def)
  have inj': "inj_on pos (invoke_v3_inputs pos (\<lambda>_. 0) a False \<union> invoke_v3_inputs pos (\<lambda>_. 0) b False)"
    using inj inputs by simp
  have "calculate_hash (pos, pos) (\<lambda>_. 0) (ExInvoke (InvokeV3 a)) False
      = calculate_hash (pos, pos) (\<lambda>_. 0) (ExInvoke (InvokeV3 b)) False"
    by (simp add: calculate_hash_def b_def)
  from invoke_v3_hash_binding [OF inj' this]
  have "a\<lparr>i3_signature := [], i3_chain_id := Named Mainnet\<rparr> = b\<lparr>i3_signature := [], i3_chain_id := Named Mainnet\<rparr>"
    by blast
  moreover have "i3_signature a \<noteq> i3_signature b"
    by (simp add: a_def b_def)
  ultimately show ?thesis
    using inj' by blast
qed

end
