(* ===== verification/Pool_Tx.thy ===== *)
theory Pool_Tx
  imports Tx
begin

text \<open>
  What the transaction pool knows of a transaction (\<open>pool/src/tx.rs\<close>) and how it ranks it
  (\<open>pool/src/ordering.rs\<close>).  The trait \<open>PoolTransaction\<close> is a record of functions; \<open>nonce\<close> is partial
  because the implementation for executable transactions is \<open>unimplemented!()\<close> on version 0.  The
  trait \<open>PoolOrd\<close> is the locale \<open>pool_ord\<close>: a priority function that may update the state of the
  ordering, and the comparison of priorities.  Both orderings of the source are interpretations.
\<close>

section \<open>Transactions of the pool\<close>

record 't pool_transaction =
  pt_hash :: "'t \<Rightarrow> tx_hash"
  pt_nonce :: "'t \<Rightarrow> nonce option"
  pt_sender :: "'t \<Rightarrow> contract_address"
  pt_max_fee :: "'t \<Rightarrow> u128"
  pt_tip :: "'t \<Rightarrow> u64"

primrec executable_nonce :: "'cls executable_tx \<Rightarrow> nonce option" where
  "executable_nonce (ExInvoke tx) =
     (case tx of InvokeV0 _ \<Rightarrow> None | InvokeV1 v1 \<Rightarrow> Some (i1_nonce v1) | InvokeV3 v3 \<Rightarrow> Some (i3_nonce v3))"
| "executable_nonce (ExL1Handler tx) = Some (l1_nonce tx)"
| "executable_nonce (ExDeclare tx) =
     (case dtc_transaction tx of
        DeclareV0 _ \<Rightarrow> None
      | DeclareV1 v1 \<Rightarrow> Some (d1_nonce v1)
      | DeclareV2 v2 \<Rightarrow> Some (d2_nonce v2)
      | DeclareV3 v3 \<Rightarrow> Some (d3_nonce v3))"
| "executable_nonce (ExDeployAccount tx) =
     (case tx of DeployAccountV1 v1 \<Rightarrow> Some (da1_nonce v1) | DeployAccountV3 v3 \<Rightarrow> Some (da3_nonce v3))"

primrec executable_sender :: "'cls executable_tx \<Rightarrow> contract_address" where
  "executable_sender (ExInvoke tx) =
     (case tx of
        InvokeV0 v0 \<Rightarrow> i0_contract_address v0
      | InvokeV1 v1 \<Rightarrow> i1_sender_address v1
      | InvokeV3 v3 \<Rightarrow> i3_sender_address v3)"
| "executable_sender (ExL1Handler tx) = l1_contract_address tx"
| "executable_sender (ExDeclare tx) =
     (case dtc_transaction tx of
        DeclareV0 v0 \<Rightarrow> d0_sender_address v0
      | DeclareV1 v1 \<Rightarrow> d1_sender_address v1
      | DeclareV2 v2 \<Rightarrow> d2_sender_address v2
      | DeclareV3 v3 \<Rightarrow> d3_sender_address v3)"
| "executable_sender (ExDeployAccount tx) = deploy_account_contract_address tx"

primrec executable_max_fee :: "'cls executable_tx \<Rightarrow> u128" where
  "executable_max_fee (ExInvoke tx) =
     (case tx of InvokeV0 v0 \<Rightarrow> i0_max_fee v0 | InvokeV1 v1 \<Rightarrow> i1_max_fee v1 | InvokeV3 _ \<Rightarrow> 0)"
| "executable_max_fee (ExL1Handler tx) = l1_paid_fee_on_l1 tx"
| "executable_max_fee (ExDeclare tx) =
     (case dtc_transaction tx of
        DeclareV0 v0 \<Rightarrow> d0_max_fee v0
      | DeclareV1 v1 \<Rightarrow> d1_max_fee v1
      | DeclareV2 v2 \<Rightarrow> d2_max_fee v2
      | DeclareV3 _ \<Rightarrow> 0)"
| "executable_max_fee (ExDeployAccount tx) =
     (case tx of DeployAccountV1 v1 \<Rightarrow> da1_max_fee v1 | DeployAccountV3 _ \<Rightarrow> 0)"

primrec executable_tip :: "'cls executable_tx \<Rightarrow> u64" where
  "executable_tip (ExInvoke tx) = (case tx of InvokeV3 v3 \<Rightarrow> i3_tip v3 | _ \<Rightarrow> 0)"
| "executable_tip (ExL1Handler _) = 0"
| "executable_tip (ExDeclare tx) = (case dtc_transaction tx of DeclareV3 v3 \<Rightarrow> d3_tip v3 | _ \<Rightarrow> 0)"
| "executable_tip (ExDeployAccount tx) = (case tx of DeployAccountV3 v3 \<Rightarrow> da3_tip v3 | _ \<Rightarrow> 0)"

definition executable_pool_tx :: "'cls executable_tx_with_hash pool_transaction" where
  "executable_pool_tx =
     \<lparr>pt_hash = et_hash,
      pt_nonce = \<lambda>t. executable_nonce (et_transaction t),
      pt_sender = \<lambda>t. executable_sender (et_transaction t),
      pt_max_fee = \<lambda>t. executable_max_fee (et_transaction t),
      pt_tip = \<lambda>t. executable_tip (et_transaction t)\<rparr>"

record tx_id =
  id_sender :: contract_address
  id_nonce :: nonce

definition tx_id_new :: "contract_address \<Rightarrow> nonce \<Rightarrow> tx_id" where
  "tx_id_new sender nonce = \<lparr>id_sender = sender, id_nonce = nonce\<rparr>"

definition tx_id_parent :: "tx_id \<Rightarrow> tx_id option" where
  "tx_id_parent i = (if id_nonce i = 0 then None else Some \<lparr>id_sender = id_sender i, id_nonce = id_nonce i - 1\<rparr>)"

definition tx_id_descendent :: "tx_id \<Rightarrow> tx_id" where
  "tx_id_descendent i = \<lparr>id_sender = id_sender i, id_nonce = id_nonce i + 1\<rparr>"

text \<open>\<open>added_at\<close>, the time of arrival, is only displayed.\<close>

record ('t, 'p) pending_tx =
  pe_id :: tx_id
  pe_tx :: 't
  pe_priority :: 'p

definition pending_tx_new :: "tx_id \<Rightarrow> 't \<Rightarrow> 'p \<Rightarrow> ('t, 'p) pending_tx" where
  "pending_tx_new i tx priority = \<lparr>pe_id = i, pe_tx = tx, pe_priority = priority\<rparr>"

section \<open>Orderings\<close>

text \<open>\<open>std::cmp::Ordering\<close> and the comparison of integers.\<close>

datatype cmp_ordering = Less | Equal | Greater

definition cmp_int :: "'a :: linorder \<Rightarrow> 'a \<Rightarrow> cmp_ordering" where
  "cmp_int a b = (if a < b then Less else if a = b then Equal else Greater)"

text \<open>The first-come-first-served ordering: an atomic counter that wraps around.\<close>

record fifo = fifo_nonce :: u64

definition fifo_new :: fifo where
  "fifo_new = \<lparr>fifo_nonce = 0\<rparr>"

datatype tx_submission_nonce = TxSubmissionNonce u64

primrec submission_nonce :: "tx_submission_nonce \<Rightarrow> u64" where
  "submission_nonce (TxSubmissionNonce n) = n"

definition fifo_priority :: "fifo \<Rightarrow> 't \<Rightarrow> tx_submission_nonce \<times> fifo" where
  "fifo_priority f tx = (TxSubmissionNonce (fifo_nonce f), f\<lparr>fifo_nonce := fifo_nonce f + 1\<rparr>)"

definition submission_nonce_cmp :: "tx_submission_nonce \<Rightarrow> tx_submission_nonce \<Rightarrow> cmp_ordering" where
  "submission_nonce_cmp a b = cmp_int (submission_nonce a) (submission_nonce b)"

text \<open>The ordering by tip, highest first.\<close>

datatype tip = Tip u64

primrec tip_value :: "tip \<Rightarrow> u64" where
  "tip_value (Tip n) = n"

definition tip_priority :: "'t pool_transaction \<Rightarrow> unit \<Rightarrow> 't \<Rightarrow> tip \<times> unit" where
  "tip_priority T st tx = (Tip (pt_tip T tx), st)"

definition tip_cmp :: "tip \<Rightarrow> tip \<Rightarrow> cmp_ordering" where
  "tip_cmp a b = cmp_int (tip_value b) (tip_value a)"

text \<open>Two pending transactions of equal priority: the one that is compared is the greater.\<close>

definition pending_cmp ::
  "('p \<Rightarrow> 'p \<Rightarrow> cmp_ordering) \<Rightarrow> ('t, 'p) pending_tx \<Rightarrow> ('t, 'p) pending_tx \<Rightarrow> cmp_ordering" where
  "pending_cmp cmp a b =
     (case cmp (pe_priority a) (pe_priority b) of Equal \<Rightarrow> Greater | other \<Rightarrow> other)"

section \<open>Sets of pending transactions\<close>

text \<open>\<open>BTreeSet\<close> as its elements in order.  The search of an insertion walks past the elements the new
  one is greater than; at an equal element nothing is inserted.\<close>

fun btree_insert :: "('a \<Rightarrow> 'a \<Rightarrow> cmp_ordering) \<Rightarrow> 'a \<Rightarrow> 'a list \<Rightarrow> 'a list" where
  "btree_insert cmp x [] = [x]"
| "btree_insert cmp x (y # ys) =
     (case cmp x y of
        Greater \<Rightarrow> y # btree_insert cmp x ys
      | Equal \<Rightarrow> y # ys
      | Less \<Rightarrow> x # y # ys)"

declare btree_insert.simps(2) [simp del]

fun pop_first :: "'a list \<Rightarrow> 'a option \<times> 'a list" where
  "pop_first [] = (None, [])"
| "pop_first (x # xs) = (Some x, xs)"

lemma cmp_int_simps [simp]:
  "cmp_int a b = Less \<longleftrightarrow> a < b" "cmp_int a b = Equal \<longleftrightarrow> a = b" "cmp_int a b = Greater \<longleftrightarrow> b < a"
  by (auto simp: cmp_int_def)

text \<open>What \<open>PriorityValue: Ord\<close> promises of the comparison.\<close>

locale pool_ord =
  fixes cmp :: "'p \<Rightarrow> 'p \<Rightarrow> cmp_ordering"
  assumes cmp_flip: "cmp a b = Less \<longleftrightarrow> cmp b a = Greater"
    and cmp_trans: "cmp a b \<noteq> Greater \<Longrightarrow> cmp b c \<noteq> Greater \<Longrightarrow> cmp a c \<noteq> Greater"
begin

definition leq :: "('t, 'p) pending_tx \<Rightarrow> ('t, 'p) pending_tx \<Rightarrow> bool" where
  "leq a b \<longleftrightarrow> cmp (pe_priority a) (pe_priority b) \<noteq> Greater"

lemma leq_trans: "leq a b \<Longrightarrow> leq b c \<Longrightarrow> leq a c"
  unfolding leq_def by (rule cmp_trans)

lemma pending_cmp_Less: "pending_cmp cmp x y = Less \<longleftrightarrow> \<not> leq y x"
  using cmp_flip [of "pe_priority x" "pe_priority y"]
  by (cases "cmp (pe_priority x) (pe_priority y)") (auto simp: pending_cmp_def leq_def)

lemma pending_cmp_not_Equal: "pending_cmp cmp x y \<noteq> Equal"
  by (simp add: pending_cmp_def split: cmp_ordering.split)

lemma pending_cmp_Greater: "pending_cmp cmp x y = Greater \<longleftrightarrow> leq y x"
  using pending_cmp_Less [of x y] pending_cmp_not_Equal [of x y]
  by (cases "pending_cmp cmp x y") auto

lemma leq_total: "\<not> leq y x \<Longrightarrow> leq x y"
  using cmp_flip [of "pe_priority x" "pe_priority y"] by (auto simp: leq_def)

lemma insert_simps [simp]:
  "btree_insert (pending_cmp cmp) x (y # ys) =
    (if leq y x then y # btree_insert (pending_cmp cmp) x ys else x # y # ys)"
  using pending_cmp_Less [of x y] pending_cmp_Greater [of x y] pending_cmp_not_Equal [of x y]
  by (cases "pending_cmp cmp x y") (auto simp: btree_insert.simps(2))

lemma mset_insert: "mset (btree_insert (pending_cmp cmp) x xs) = add_mset x (mset xs)"
  by (induction xs) auto

lemma set_insert: "set (btree_insert (pending_cmp cmp) x xs) = insert x (set xs)"
  by (induction xs) auto

lemma length_insert: "length (btree_insert (pending_cmp cmp) x xs) = Suc (length xs)"
  by (induction xs) auto

lemma sorted_insert:
  "sorted_wrt leq xs \<Longrightarrow> sorted_wrt leq (btree_insert (pending_cmp cmp) x xs)"
  by (induction xs) (auto simp: set_insert intro: leq_total leq_trans)

text \<open>A new transaction goes behind all that do not rank below it: in particular it is the last of
  its priority, and the last of all when nothing ranks below it.\<close>

lemma insert_last: "\<forall>y \<in> set xs. leq y x \<Longrightarrow> btree_insert (pending_cmp cmp) x xs = xs @ [x]"
  by (induction xs) auto

lemma insert_stable:
  assumes "sorted_wrt leq xs"
    and "\<And>y. y \<in> set xs \<Longrightarrow> P x \<Longrightarrow> P y \<Longrightarrow> leq y x"
  shows "filter P (btree_insert (pending_cmp cmp) x xs) = filter P xs @ (if P x then [x] else [])"
  using assms
proof (induction xs)
  case Nil
  then show ?case by simp
next
  case (Cons y ys)
  show ?case
  proof (cases "leq y x")
    case True
    with Cons show ?thesis by simp
  next
    case False
    have "\<not> leq z x" if "z \<in> set (y # ys)" for z
      using that False Cons.prems(1) by (auto intro: leq_trans)
    then have "filter P (y # ys) = []" if "P x"
      using that Cons.prems(2) by (auto simp: filter_empty_conv)
    with False show ?thesis by auto
  qed
qed

end

interpretation fifo_ord: pool_ord submission_nonce_cmp
  by unfold_locales (auto simp: submission_nonce_cmp_def)

interpretation tip_ord: pool_ord tip_cmp
  by unfold_locales (auto simp: tip_cmp_def)

lemma fifo_leq: "fifo_ord.leq a b \<longleftrightarrow> submission_nonce (pe_priority a) \<le> submission_nonce (pe_priority b)"
  by (simp add: fifo_ord.leq_def submission_nonce_cmp_def not_less)

lemma tip_leq: "tip_ord.leq a b \<longleftrightarrow> tip_value (pe_priority b) \<le> tip_value (pe_priority a)"
  by (simp add: tip_ord.leq_def tip_cmp_def not_less)

end
