(* ===== verification/Validation.thy ===== *)
theory Validation
  imports Tx
begin

text \<open>
  The vocabulary of transaction validation (\<open>pool/src/validation/{mod,error}.rs\<close>): the reasons a
  transaction is invalid, the outcome of a validation, the no-op validator and the batch form of a
  validator.  A validator maps its state and a transaction to a result and its new state; \<open>None\<close> is
  a panic.  The boxed error of an unexpected failure is a type parameter.
\<close>

datatype invalid_transaction_error =
    InsufficientFunds u128 felt
  | IntrinsicFeeTooLow u128 u128
  | ValidationFailure contract_address class_hash string
  | NonAccount contract_address
  | InvalidNonce contract_address nonce nonce
  | ClassAlreadyDeclared class_hash

record 'e validation_error =
  ve_hash :: tx_hash
  ve_error :: 'e

definition validation_error_new :: "tx_hash \<Rightarrow> 'e \<Rightarrow> 'e validation_error" where
  "validation_error_new hash error = \<lparr>ve_hash = hash, ve_error = error\<rparr>"

datatype 't validation_outcome =
    Valid 't
  | Invalid 't invalid_transaction_error
  | Dependent 't nonce nonce

type_synonym ('t, 'e) validation_result = "('t validation_outcome, 'e validation_error) result"

type_synonym ('v, 't, 'e) validator = "'v \<Rightarrow> 't \<Rightarrow> (('t, 'e) validation_result \<times> 'v) option"

fun validate_all ::
  "('v, 't, 'e) validator \<Rightarrow> 'v \<Rightarrow> 't list \<Rightarrow> (('t, 'e) validation_result list \<times> 'v) option" where
  "validate_all validate v [] = Some ([], v)"
| "validate_all validate v (tx # txs) =
     (case validate v tx of
        None \<Rightarrow> None
      | Some (r, v') \<Rightarrow> map_option (\<lambda>(rs, v''). (r # rs, v'')) (validate_all validate v' txs))"

definition noop_validate :: "('v, 't, 'e) validator" where
  "noop_validate v tx = Some (Ok (Valid tx), v)"

end
