(* ===== verification/Pool.thy ===== *)
theory Pool
  imports Pool_Tx Validation
begin

text \<open>
  The transaction pool (\<open>pool/src/{pool,subscription,pending,lib}.rs\<close>).  The pool is generic in the
  transaction, the validator and the ordering; these, and the two kinds of channels it sends
  notifications to (from the futures and tokio crates), are the fields of \<open>pool_env\<close>.  The lock
  around each field makes every operation atomic; an operation returns the new pool, and \<open>None\<close> is a
  panic.
\<close>

section \<open>State\<close>

datatype try_send_result = SendOk | SendFull | SendDisconnected

text \<open>\<open>env_try_send\<close>: \<open>Sender::try_send\<close> of a listener; \<open>env_send\<close>: \<open>UnboundedSender::send\<close> of a
  subscriber, whether it succeeded.\<close>

record ('t, 'p, 'v, 'o, 'e, 'l, 's) pool_env =
  env_tx :: "'t pool_transaction"
  env_validate :: "('v, 't, 'e) validator"
  env_priority :: "'o \<Rightarrow> 't \<Rightarrow> 'p \<times> 'o"
  env_cmp :: "'p \<Rightarrow> 'p \<Rightarrow> cmp_ordering"
  env_try_send :: "tx_hash \<Rightarrow> 'l \<Rightarrow> try_send_result \<times> 'l"
  env_send :: "('t, 'p) pending_tx \<Rightarrow> 's \<Rightarrow> bool \<times> 's"

record ('t, 'p, 'v, 'o, 'l, 's) pool =
  po_transactions :: "('t, 'p) pending_tx list"
  po_listeners :: "'l list"
  po_subscribers :: "'s list"
  po_validator :: 'v
  po_ordering :: 'o

datatype 'e pool_error = InvalidTransaction invalid_transaction_error | Internal 'e

type_synonym ('a, 'e) pool_result = "('a, 'e pool_error) result"

definition pool_new :: "'v \<Rightarrow> 'o \<Rightarrow> ('t, 'p, 'v, 'o, 'l, 's) pool" where
  "pool_new v ord =
     \<lparr>po_transactions = [], po_listeners = [], po_subscribers = [], po_validator = v,
      po_ordering = ord\<rparr>"

section \<open>Notifications\<close>

text \<open>\<open>Vec::swap_remove\<close>, which panics out of range.\<close>

definition swap_remove :: "nat \<Rightarrow> 'a list \<Rightarrow> ('a \<times> 'a list) option" where
  "swap_remove n xs =
     (if n < length xs then Some (xs ! n, butlast (xs[n := last xs])) else None)"

text \<open>The loop of both notifications: \<open>f\<close> sends to one sender and says whether to retain it.\<close>

fun notify_loop :: "('a \<Rightarrow> bool \<times> 'a) \<Rightarrow> nat list \<Rightarrow> 'a list \<Rightarrow> 'a list option" where
  "notify_loop f [] xs = Some xs"
| "notify_loop f (n # ns) xs =
     (case swap_remove n xs of
        None \<Rightarrow> None
      | Some (sender, xs') \<Rightarrow>
          (let (retain, sender') = f sender
           in notify_loop f ns (if retain then xs' @ [sender'] else xs')))"

definition listener_retain ::
  "(tx_hash \<Rightarrow> 'l \<Rightarrow> try_send_result \<times> 'l) \<Rightarrow> tx_hash \<Rightarrow> 'l \<Rightarrow> bool \<times> 'l" where
  "listener_retain try_send hash listener_tx =
     (case try_send hash listener_tx of
        (SendOk, l) \<Rightarrow> (True, l)
      | (SendFull, l) \<Rightarrow> (True, l)
      | (SendDisconnected, l) \<Rightarrow> (False, l))"

definition notify_listener ::
  "('t, 'p, 'v, 'o, 'e, 'l, 's) pool_env \<Rightarrow> tx_hash \<Rightarrow> ('t, 'p, 'v, 'o, 'l, 's) pool \<Rightarrow> ('t, 'p, 'v, 'o, 'l, 's) pool option" where
  "notify_listener E hash p =
     map_option (\<lambda>ls. p\<lparr>po_listeners := ls\<rparr>)
       (notify_loop (listener_retain (env_try_send E) hash) (rev [0 ..< length (po_listeners p)])
         (po_listeners p))"

definition notify_subscribers ::
  "('t, 'p, 'v, 'o, 'e, 'l, 's) pool_env \<Rightarrow> ('t, 'p) pending_tx \<Rightarrow> ('t, 'p, 'v, 'o, 'l, 's) pool \<Rightarrow> ('t, 'p, 'v, 'o, 'l, 's) pool option" where
  "notify_subscribers E tx p =
     map_option (\<lambda>ss. p\<lparr>po_subscribers := ss\<rparr>)
       (notify_loop (env_send E tx) (rev [0 ..< length (po_subscribers p)]) (po_subscribers p))"

definition notify ::
  "('t, 'p, 'v, 'o, 'e, 'l, 's) pool_env \<Rightarrow> ('t, 'p) pending_tx \<Rightarrow> ('t, 'p, 'v, 'o, 'l, 's) pool \<Rightarrow> ('t, 'p, 'v, 'o, 'l, 's) pool option" where
  "notify E tx p =
     Option.bind (notify_listener E (pt_hash (env_tx E) (pe_tx tx)) p) (notify_subscribers E tx)"

section \<open>Operations\<close>

definition add_transaction ::
  "('t, 'p, 'v, 'o, 'e, 'l, 's) pool_env \<Rightarrow> 't \<Rightarrow> ('t, 'p, 'v, 'o, 'l, 's) pool
    \<Rightarrow> ((tx_hash, 'e) pool_result \<times> ('t, 'p, 'v, 'o, 'l, 's) pool) option" where
  "add_transaction E tx p =
     (let hash = pt_hash (env_tx E) tx
      in case pt_nonce (env_tx E) tx of
           None \<Rightarrow> None
         | Some nonce \<Rightarrow>
             (let i = tx_id_new (pt_sender (env_tx E) tx) nonce
              in case env_validate E (po_validator p) tx of
                   None \<Rightarrow> None
                 | Some (result, v) \<Rightarrow>
                     (let p = p\<lparr>po_validator := v\<rparr>
                      in case result of
                           Inr (Valid tx) \<Rightarrow>
                             (let (priority, ord) = env_priority E (po_ordering p) tx;
                                  pending = pending_tx_new i tx priority;
                                  p = p\<lparr>po_ordering := ord,
                                        po_transactions := btree_insert (pending_cmp (env_cmp E))
                                          pending (po_transactions p)\<rparr>
                              in map_option (Pair (Ok hash)) (notify E pending p))
                         | Inr (Invalid tx error) \<Rightarrow> Some (Err (InvalidTransaction error), p)
                         | Inr (Dependent tx tx_nonce current_nonce) \<Rightarrow>
                             Some (Err (InvalidTransaction
                               (InvalidNonce (pt_sender (env_tx E) tx) current_nonce tx_nonce)), p)
                         | Inl error \<Rightarrow> Some (Err (Internal (ve_error error)), p))))"

definition pool_get ::
  "('t, 'p, 'v, 'o, 'e, 'l, 's) pool_env \<Rightarrow> tx_hash \<Rightarrow> ('t, 'p, 'v, 'o, 'l, 's) pool \<Rightarrow> 't option" where
  "pool_get E hash p =
     map_option pe_tx (find (\<lambda>tx. pt_hash (env_tx E) (pe_tx tx) = hash) (po_transactions p))"

definition pool_contains ::
  "('t, 'p, 'v, 'o, 'e, 'l, 's) pool_env \<Rightarrow> tx_hash \<Rightarrow> ('t, 'p, 'v, 'o, 'l, 's) pool \<Rightarrow> bool" where
  "pool_contains E hash p \<longleftrightarrow> pool_get E hash p \<noteq> None"

definition TX_LISTENER_BUFFER_SIZE :: nat where
  "TX_LISTENER_BUFFER_SIZE = 2048"

definition add_listener ::
  "(nat \<Rightarrow> 'l \<times> 'r) \<Rightarrow> ('t, 'p, 'v, 'o, 'l, 's) pool \<Rightarrow> 'r \<times> ('t, 'p, 'v, 'o, 'l, 's) pool" where
  "add_listener channel p =
     (let (tx, rx) = channel TX_LISTENER_BUFFER_SIZE
      in (rx, p\<lparr>po_listeners := po_listeners p @ [tx]\<rparr>))"

definition remove_transactions ::
  "('t, 'p, 'v, 'o, 'e, 'l, 's) pool_env \<Rightarrow> tx_hash list \<Rightarrow> ('t, 'p, 'v, 'o, 'l, 's) pool
    \<Rightarrow> ('t, 'p, 'v, 'o, 'l, 's) pool" where
  "remove_transactions E hashes p =
     p\<lparr>po_transactions :=
         filter (\<lambda>t. pt_hash (env_tx E) (pe_tx t) \<notin> set hashes) (po_transactions p)\<rparr>"

definition pool_size :: "('t, 'p, 'v, 'o, 'l, 's) pool \<Rightarrow> nat" where
  "pool_size p = length (po_transactions p)"

section \<open>Streams\<close>

datatype 'a poll = Ready 'a | Pending

record ('t, 'p, 'r) subscription =
  su_txs :: "('t, 'p) pending_tx list"
  su_receiver :: 'r

definition subscription_new :: "'r \<Rightarrow> ('t, 'p, 'r) subscription" where
  "subscription_new receiver = \<lparr>su_txs = [], su_receiver = receiver\<rparr>"

text \<open>The argument is the pair that \<open>unbounded_channel\<close> returns.\<close>

definition subscribe ::
  "'s \<times> 'r \<Rightarrow> ('t, 'p, 'v, 'o, 'l, 's) pool
    \<Rightarrow> ('t, 'p, 'r) subscription \<times> ('t, 'p, 'v, 'o, 'l, 's) pool" where
  "subscribe channel p =
     (let (tx, rx) = channel
      in (subscription_new rx, p\<lparr>po_subscribers := po_subscribers p @ [tx]\<rparr>))"

record ('t, 'p, 'r) pending_transactions =
  pts_all :: "('t, 'p) pending_tx list"
  pts_subscription :: "('t, 'p, 'r) subscription"

definition pool_pending_transactions ::
  "'s \<times> 'r \<Rightarrow> ('t, 'p, 'v, 'o, 'l, 's) pool
    \<Rightarrow> ('t, 'p, 'r) pending_transactions \<times> ('t, 'p, 'v, 'o, 'l, 's) pool" where
  "pool_pending_transactions channel p =
     (let (subscription, p') = subscribe channel p
      in (\<lparr>pts_all = po_transactions p', pts_subscription = subscription\<rparr>, p'))"

text \<open>The \<open>while let\<close> loop that drains the channel into the ordered set.\<close>

partial_function (option) drain ::
  "('m \<Rightarrow> 'm list \<Rightarrow> 'm list) \<Rightarrow> ('r \<Rightarrow> 'm option poll \<times> 'r) \<Rightarrow> 'm list \<Rightarrow> 'r
    \<Rightarrow> ('m list \<times> 'r) option" where
  "drain ins poll_recv txs rx =
     (case poll_recv rx of
        (Ready (Some tx), rx') \<Rightarrow> drain ins poll_recv (ins tx txs) rx'
      | (_, rx') \<Rightarrow> Some (txs, rx'))"

partial_function (option) poll_loop ::
  "('m \<Rightarrow> 'm list \<Rightarrow> 'm list) \<Rightarrow> ('r \<Rightarrow> 'm option poll \<times> 'r) \<Rightarrow> 'm list \<Rightarrow> 'r
    \<Rightarrow> ('m option poll \<times> 'm list \<times> 'r) option" where
  "poll_loop ins poll_recv txs rx =
     (case pop_first txs of
        (Some tx, txs') \<Rightarrow> Some (Ready (Some tx), txs', rx)
      | (None, txs') \<Rightarrow>
          (case poll_recv rx of
             (Ready (Some tx), rx') \<Rightarrow>
               Option.bind (drain ins poll_recv (ins tx txs') rx')
                 (\<lambda>(txs'', rx''). poll_loop ins poll_recv txs'' rx'')
           | (Ready None, rx') \<Rightarrow> Some (Ready None, txs', rx')
           | (Pending, rx') \<Rightarrow> Some (Pending, txs', rx')))"

definition subscription_poll_next ::
  "('t, 'p, 'v, 'o, 'e, 'l, 's) pool_env \<Rightarrow> ('r \<Rightarrow> ('t, 'p) pending_tx option poll \<times> 'r) \<Rightarrow> ('t, 'p, 'r) subscription
    \<Rightarrow> (('t, 'p) pending_tx option poll \<times> ('t, 'p, 'r) subscription) option" where
  "subscription_poll_next E poll_recv s =
     map_option (\<lambda>(r, txs, rx). (r, s\<lparr>su_txs := txs, su_receiver := rx\<rparr>))
       (poll_loop (btree_insert (pending_cmp (env_cmp E))) poll_recv (su_txs s) (su_receiver s))"

definition pending_poll_next ::
  "('t, 'p, 'v, 'o, 'e, 'l, 's) pool_env \<Rightarrow> ('r \<Rightarrow> ('t, 'p) pending_tx option poll \<times> 'r) \<Rightarrow> ('t, 'p, 'r) pending_transactions
    \<Rightarrow> (('t, 'p) pending_tx option poll \<times> ('t, 'p, 'r) pending_transactions) option" where
  "pending_poll_next E poll_recv s =
     (case pts_all s of
        tx # rest \<Rightarrow> Some (Ready (Some tx), s\<lparr>pts_all := rest\<rparr>)
      | [] \<Rightarrow>
          map_option (\<lambda>(r, sub). (r, s\<lparr>pts_subscription := sub\<rparr>))
            (subscription_poll_next E poll_recv (pts_subscription s)))"

section \<open>Notification keeps the live senders\<close>

lemma swap_remove_split:
  assumes "n < length xs"
  shows "\<exists>ys. swap_remove n xs = Some (xs ! n, take n xs @ ys) \<and> mset ys = mset (drop (Suc n) xs)"
proof (cases "Suc n = length xs")
  case True
  with assms have "xs[n := last xs] = xs"
    by (metis Zero_not_Suc diff_Suc_1 last_conv_nth length_0_conv list_update_id)
  moreover have "length xs - Suc 0 = n"
    using True by simp
  ultimately show ?thesis
    using True assms by (auto simp: swap_remove_def butlast_conv_take)
next
  case False
  with assms have n: "Suc n < length xs" by simp
  define zs where "zs = drop (Suc n) xs"
  have zs: "zs \<noteq> []" "last zs = last xs"
    using n by (simp_all add: zs_def)
  have "xs[n := last xs] = take n xs @ last xs # zs"
    using assms by (simp add: upd_conv_take_nth_drop zs_def)
  then have "butlast (xs[n := last xs]) = take n xs @ last zs # butlast zs"
    using zs by (simp add: butlast_append)
  moreover have "mset (last zs # butlast zs) = mset zs"
    using zs(1) by (metis append_butlast_last_id mset.simps(2) mset_append add_mset_add_single mset_single_iff_right)
  ultimately show ?thesis
    using assms by (auto simp: swap_remove_def zs_def)
qed

lemma notify_loop_retain_from:
  assumes "n \<le> length orig" "take n xs = take n orig" "n \<le> length xs"
    "mset (drop n xs) = mset (map snd (filter fst (map f (drop n orig))))"
  shows "\<exists>ys. notify_loop f (rev [0 ..< n]) xs = Some ys \<and>
    mset ys = mset (map snd (filter fst (map f orig)))"
  using assms
proof (induction n arbitrary: xs)
  case 0
  then show ?case by simp
next
  case (Suc n)
  have lt: "n < length xs" "n < length orig" using Suc.prems by simp_all
  have nth: "xs ! n = orig ! n"
    using Suc.prems(2) by (metis lessI nth_take)
  have take: "take n xs = take n orig"
    using Suc.prems(2) by (metis min_def nat_le_linear not_less_eq_eq take_take)
  obtain zs where zs: "swap_remove n xs = Some (xs ! n, take n xs @ zs)"
    "mset zs = mset (drop (Suc n) xs)"
    using swap_remove_split [OF lt(1)] by blast
  obtain keep x' where f: "f (orig ! n) = (keep, x')" by (cases "f (orig ! n)")
  define xs' where "xs' = take n xs @ zs @ (if keep then [x'] else [])"
  have "drop n orig = orig ! n # drop (Suc n) orig"
    using lt(2) by (rule Cons_nth_drop_Suc [symmetric])
  then have "mset (drop n xs') = mset (map snd (filter fst (map f (drop n orig))))"
    using lt zs(2) Suc.prems(4) by (simp add: xs'_def f)
  moreover have "take n xs' = take n orig" "n \<le> length xs'"
    using lt take by (simp_all add: xs'_def)
  ultimately have "\<exists>ys. notify_loop f (rev [0 ..< n]) xs' = Some ys \<and>
      mset ys = mset (map snd (filter fst (map f orig)))"
    using Suc.IH [of xs'] lt(2) by simp
  moreover have "notify_loop f (rev [0 ..< Suc n]) xs = notify_loop f (rev [0 ..< n]) xs'"
    by (simp add: zs nth f xs'_def)
  ultimately show ?case by simp
qed

lemma notify_loop_retain:
  "\<exists>ys. notify_loop f (rev [0 ..< length xs]) xs = Some ys \<and>
    mset ys = mset (map snd (filter fst (map f xs)))"
  by (rule notify_loop_retain_from) simp_all

text \<open>A notification touches only the senders and never panics.\<close>

lemma notify_total:
  obtains ls ss where "notify E tx p = Some (p\<lparr>po_listeners := ls, po_subscribers := ss\<rparr>)"
    "mset ls = mset (map snd (filter fst
       (map (listener_retain (env_try_send E) (pt_hash (env_tx E) (pe_tx tx))) (po_listeners p))))"
    "mset ss = mset (map snd (filter fst (map (env_send E tx) (po_subscribers p))))"
proof -
  obtain ls where ls: "notify_loop (listener_retain (env_try_send E) (pt_hash (env_tx E) (pe_tx tx)))
      (rev [0 ..< length (po_listeners p)]) (po_listeners p) = Some ls"
    "mset ls = mset (map snd (filter fst
       (map (listener_retain (env_try_send E) (pt_hash (env_tx E) (pe_tx tx))) (po_listeners p))))"
    using notify_loop_retain by blast
  obtain ss where ss: "notify_loop (env_send E tx) (rev [0 ..< length (po_subscribers p)])
      (po_subscribers p) = Some ss"
    "mset ss = mset (map snd (filter fst (map (env_send E tx) (po_subscribers p))))"
    using notify_loop_retain by blast
  show thesis
    by (rule that [where ls = ls and ss = ss])
       (use ls ss in \<open>simp_all add: notify_def notify_listener_def notify_subscribers_def\<close>)
qed

end
