(* ===== verification/Pool_Refinement.thy ===== *)
theory Pool_Refinement
  imports Pool
begin

text \<open>
  What the pool promises.  Its transitions form a step relation whose reachable states are sorted by
  priority; under the first-come-first-served ordering a run of the pool refines a plain queue, and
  under the tip ordering it refines the stable sort of that queue.  The streams return what was sent
  to them, in order, and terminate.
\<close>

section \<open>One operation\<close>

lemma btree_insert_mset:
  "(\<And>y. cmp x y \<noteq> Equal) \<Longrightarrow> mset (btree_insert cmp x xs) = add_mset x (mset xs)"
  by (induction xs) (auto simp: btree_insert.simps(2) split: cmp_ordering.split)

lemma pending_cmp_never_Equal: "pending_cmp cmp x y \<noteq> Equal"
  by (simp add: pending_cmp_def split: cmp_ordering.split)

lemma pending_insert_mset:
  "mset (btree_insert (pending_cmp cmp) x xs) = add_mset x (mset xs)"
  by (rule btree_insert_mset) (rule pending_cmp_never_Equal)

definition new_pending where
  "new_pending E p nonce tx tx' =
     pending_tx_new (tx_id_new (pt_sender (env_tx E) tx) nonce) tx'
       (fst (env_priority E (po_ordering p) tx'))"

lemma add_transaction_valid:
  assumes "pt_nonce (env_tx E) tx = Some nonce"
    "env_validate E (po_validator p) tx = Some (Inr (Valid tx'), v)"
  obtains p' where "add_transaction E tx p = Some (Ok (pt_hash (env_tx E) tx), p')"
    "po_transactions p' =
       btree_insert (pending_cmp (env_cmp E)) (new_pending E p nonce tx tx') (po_transactions p)"
    "po_validator p' = v" "po_ordering p' = snd (env_priority E (po_ordering p) tx')"
proof -
  let ?q = "p\<lparr>po_validator := v, po_ordering := snd (env_priority E (po_ordering p) tx'),
    po_transactions :=
       btree_insert (pending_cmp (env_cmp E)) (new_pending E p nonce tx tx') (po_transactions p)\<rparr>"
  obtain ls ss where n: "notify E (new_pending E p nonce tx tx') ?q
      = Some (?q\<lparr>po_listeners := ls, po_subscribers := ss\<rparr>)"
    by (rule notify_total)
  have "add_transaction E tx p = map_option (Pair (Ok (pt_hash (env_tx E) tx)))
      (notify E (new_pending E p nonce tx tx') ?q)"
    using assms by (simp add: add_transaction_def Let_def split_beta new_pending_def)
  then have "add_transaction E tx p = Some (Ok (pt_hash (env_tx E) tx), ?q\<lparr>po_listeners := ls, po_subscribers := ss\<rparr>)"
    unfolding n by simp
  then show thesis
    by (rule that) simp_all
qed

lemma add_transaction_rejected:
  assumes "pt_nonce (env_tx E) tx = Some nonce" "env_validate E (po_validator p) tx = Some (r, v)"
    "\<nexists>tx'. r = Inr (Valid tx')"
  obtains e where "add_transaction E tx p = Some (Err e, p\<lparr>po_validator := v\<rparr>)"
proof (cases r)
  case (Inl e)
  with assms that show thesis by (simp add: add_transaction_def)
next
  case (Inr out)
  with assms that show thesis by (cases out) (simp_all add: add_transaction_def)
qed

section \<open>Transitions\<close>

text \<open>The receiving ends of the channels are not part of the pool.\<close>

inductive pool_step ::
  "('t, 'p, 'v, 'o, 'e, 'l, 's) pool_env
    \<Rightarrow> ('t, 'p, 'v, 'o, 'l, 's) pool \<Rightarrow> ('t, 'p, 'v, 'o, 'l, 's) pool \<Rightarrow> bool"
  for E where
  step_add: "add_transaction E tx p = Some (r, p') \<Longrightarrow> pool_step E p p'"
| step_remove: "pool_step E p (remove_transactions E hashes p)"
| step_subscribe: "pool_step E p (snd (pool_pending_transactions (tx, ()) p))"
| step_listen: "pool_step E p (snd (add_listener (\<lambda>n. (channel n, ())) p))"
| step_validator: "pool_step E p (p\<lparr>po_validator := v\<rparr>)"

inductive pool_reachable ::
  "('t, 'p, 'v, 'o, 'e, 'l, 's) pool_env \<Rightarrow> ('t, 'p, 'v, 'o, 'l, 's) pool \<Rightarrow> bool"
  for E where
  reach_new: "pool_reachable E (pool_new v ord)"
| reach_step: "pool_reachable E p \<Longrightarrow> pool_step E p p' \<Longrightarrow> pool_reachable E p'"

lemma add_transaction_transactions:
  assumes "add_transaction E tx p = Some (r, p')"
  shows "po_transactions p' = po_transactions p \<or>
    (\<exists>x. po_transactions p' = btree_insert (pending_cmp (env_cmp E)) x (po_transactions p))"
proof -
  obtain nonce res v where v: "pt_nonce (env_tx E) tx = Some nonce"
    "env_validate E (po_validator p) tx = Some (res, v)"
    using assms by (auto simp: add_transaction_def Let_def split: option.splits)
  show ?thesis
  proof (cases "\<exists>tx'. res = Inr (Valid tx')")
    case True
    then obtain tx' where "res = Inr (Valid tx')" by blast
    with v assms show ?thesis
      using add_transaction_valid [of E tx nonce p tx' v] by (metis option.inject prod.inject)
  next
    case False
    then obtain e where "add_transaction E tx p = Some (Err e, p\<lparr>po_validator := v\<rparr>)"
      using add_transaction_rejected [where p = p, OF v False] by blast
    with assms show ?thesis by auto
  qed
qed

section \<open>Runs\<close>

datatype 't pool_op = AddTx 't | RemoveTxs "tx_hash list"

fun pool_run ::
  "('t, 'p, 'v, 'o, 'e, 'l, 's) pool_env \<Rightarrow> 't pool_op list \<Rightarrow> ('t, 'p, 'v, 'o, 'l, 's) pool
    \<Rightarrow> ('t, 'p, 'v, 'o, 'l, 's) pool option" where
  "pool_run E [] p = Some p"
| "pool_run E (AddTx tx # ops) p =
     (case add_transaction E tx p of None \<Rightarrow> None | Some (_, p') \<Rightarrow> pool_run E ops p')"
| "pool_run E (RemoveTxs hs # ops) p = pool_run E ops (remove_transactions E hs p)"

text \<open>The specification: a queue.  A transaction the validator finds valid is appended; removal
  filters.\<close>

fun queue_run ::
  "('t, 'p, 'v, 'o, 'e, 'l, 's) pool_env \<Rightarrow> 't pool_op list \<Rightarrow> 'v \<Rightarrow> 't list
    \<Rightarrow> ('v \<times> 't list) option" where
  "queue_run E [] v q = Some (v, q)"
| "queue_run E (AddTx tx # ops) v q =
     (case pt_nonce (env_tx E) tx of
        None \<Rightarrow> None
      | Some _ \<Rightarrow>
          (case env_validate E v tx of
             None \<Rightarrow> None
           | Some (Inr (Valid tx'), v') \<Rightarrow> queue_run E ops v' (q @ [tx'])
           | Some (_, v') \<Rightarrow> queue_run E ops v' q))"
| "queue_run E (RemoveTxs hs # ops) v q =
     queue_run E ops v (filter (\<lambda>t. pt_hash (env_tx E) t \<notin> set hs) q)"

definition pool_queue :: "('t, 'p, 'v, 'o, 'l, 's) pool \<Rightarrow> 't list" where
  "pool_queue p = map pe_tx (po_transactions p)"

text \<open>A relation between pools and queues that every insertion and every removal keeps is kept by
  runs.\<close>

lemma run_simulation:
  assumes add: "\<And>(p :: ('t, 'p, 'v, 'o, 'l, 's) pool) q n nonce tx tx' v p'. R (Suc n) p q \<Longrightarrow>
      po_transactions p' =
        btree_insert (pending_cmp (env_cmp E)) (new_pending E p nonce tx tx') (po_transactions p) \<Longrightarrow>
      po_ordering p' = snd (env_priority E (po_ordering p) tx') \<Longrightarrow> R n p' (q @ [tx'])"
    and remove: "\<And>p q n hs. R (Suc n) p q \<Longrightarrow>
      R n (remove_transactions E hs p) (filter (\<lambda>t. pt_hash (env_tx E) t \<notin> set hs) q)"
    and skip: "\<And>p q n v. R (Suc n) p q \<Longrightarrow> R n (p\<lparr>po_validator := v\<rparr>) q"
    and start: "R (length ops) p q"
  shows "(case pool_run E ops p of
      None \<Rightarrow> queue_run E ops (po_validator p) q = None
    | Some p' \<Rightarrow> \<exists>q'. queue_run E ops (po_validator p) q = Some (po_validator p', q') \<and> R 0 p' q')"
  using start
proof (induction ops arbitrary: p q)
  case Nil
  then show ?case by simp
next
  case (Cons op ops)
  show ?case
  proof (cases op)
    case (RemoveTxs hs)
    have v: "po_validator (remove_transactions E hs p) = po_validator p"
      by (simp add: remove_transactions_def)
    show ?thesis
      using Cons.IH [OF remove [of "length ops" p q hs]] Cons.prems
      unfolding RemoveTxs pool_run.simps queue_run.simps v by simp
  next
    case (AddTx tx)
    consider (panic) "pt_nonce (env_tx E) tx = None \<or> env_validate E (po_validator p) tx = None"
      | (valid) nonce tx' v where "pt_nonce (env_tx E) tx = Some nonce"
          "env_validate E (po_validator p) tx = Some (Inr (Valid tx'), v)"
      | (rejected) nonce r v where "pt_nonce (env_tx E) tx = Some nonce"
          "env_validate E (po_validator p) tx = Some (r, v)" "\<nexists>tx'. r = Inr (Valid tx')"
    proof (cases "pt_nonce (env_tx E) tx = None \<or> env_validate E (po_validator p) tx = None")
      case True
      then show thesis by (rule panic)
    next
      case False
      then obtain nonce r v where "pt_nonce (env_tx E) tx = Some nonce"
        "env_validate E (po_validator p) tx = Some (r, v)" by auto
      then show thesis using valid rejected by blast
    qed
    then show ?thesis
    proof cases
      case panic
      then show ?thesis
        unfolding AddTx by (auto simp: add_transaction_def Let_def split: option.split)
    next
      case valid
      obtain p' where p': "add_transaction E tx p = Some (Ok (pt_hash (env_tx E) tx), p')"
        "po_transactions p' =
           btree_insert (pending_cmp (env_cmp E)) (new_pending E p nonce tx tx') (po_transactions p)"
        "po_validator p' = v" "po_ordering p' = snd (env_priority E (po_ordering p) tx')"
        using add_transaction_valid [where p = p, OF valid] by blast
      have "R (length ops) p' (q @ [tx'])"
        using add [OF _ p'(2,4)] Cons.prems by simp
      then have IH: "case pool_run E ops p' of
          None \<Rightarrow> queue_run E ops v (q @ [tx']) = None
        | Some p'' \<Rightarrow> \<exists>q'. queue_run E ops v (q @ [tx']) = Some (po_validator p'', q') \<and> R 0 p'' q'"
        using Cons.IH [of p' "q @ [tx']"] unfolding p'(3) by simp
      have qr: "queue_run E (AddTx tx # ops) (po_validator p) q = queue_run E ops v (q @ [tx'])"
        by (simp add: valid)
      from IH show ?thesis
        unfolding AddTx qr by (simp add: p'(1))
    next
      case rejected
      obtain e where e: "add_transaction E tx p = Some (Err e, p\<lparr>po_validator := v\<rparr>)"
        using add_transaction_rejected [where p = p, OF rejected] by blast
      have qr: "queue_run E (AddTx tx # ops) (po_validator p) q = queue_run E ops v q"
        using rejected by (cases r) (auto split: validation_outcome.split)
      have "R (length ops) (p\<lparr>po_validator := v\<rparr>) q"
        using skip Cons.prems by simp
      from Cons.IH [OF this] show ?thesis
        unfolding AddTx qr by (simp add: e cong: option.case_cong)
    qed
  qed
qed

section \<open>First come, first served\<close>

definition fifo_env where
  "fifo_env T validate try_send send =
     \<lparr>env_tx = T, env_validate = validate, env_priority = fifo_priority,
      env_cmp = submission_nonce_cmp, env_try_send = try_send, env_send = send\<rparr>"

text \<open>All priorities are below the counter, which can still count \<open>n\<close> transactions.\<close>

definition fifo_rel where
  "fifo_rel n p q \<longleftrightarrow>
     pool_queue p = q \<and>
     (\<forall>t \<in> set (po_transactions p). submission_nonce (pe_priority t) < fifo_nonce (po_ordering p)) \<and>
     unat (fifo_nonce (po_ordering p)) + n < 2 ^ 64"

lemma fifo_rel_add:
  assumes "fifo_rel (Suc n) p q"
    "po_transactions p' =
       btree_insert (pending_cmp submission_nonce_cmp) (new_pending (fifo_env T va ts se) p nonce tx tx')
         (po_transactions p)"
    "po_ordering p' = snd (fifo_priority (po_ordering p) tx')"
  shows "fifo_rel n p' (q @ [tx'])"
proof -
  let ?x = "new_pending (fifo_env T va ts se) p nonce tx tx'"
  have x: "submission_nonce (pe_priority ?x) = fifo_nonce (po_ordering p)" "pe_tx ?x = tx'"
    by (simp_all add: new_pending_def pending_tx_new_def fifo_env_def fifo_priority_def)
  have inv: "submission_nonce (pe_priority t) < fifo_nonce (po_ordering p)"
    if "t \<in> set (po_transactions p)" for t
    using assms(1) that by (simp add: fifo_rel_def)
  have txs: "po_transactions p' = po_transactions p @ [?x]"
    unfolding assms(2) by (rule fifo_ord.insert_last) (use inv in \<open>auto simp: fifo_leq x intro: less_imp_le\<close>)
  have bound: "unat (fifo_nonce (po_ordering p)) + Suc n < 2 ^ 64"
    using assms(1) by (simp add: fifo_rel_def)
  then have counter: "unat (fifo_nonce (po_ordering p')) = Suc (unat (fifo_nonce (po_ordering p)))"
    by (simp add: assms(3) fifo_priority_def unat_word_ariths)
  then have "fifo_nonce (po_ordering p) < fifo_nonce (po_ordering p')"
    by (simp add: word_less_nat_alt)
  then have "\<forall>t \<in> set (po_transactions p'). submission_nonce (pe_priority t) < fifo_nonce (po_ordering p')"
    using less_trans [OF inv] x by (auto simp: txs)
  then show ?thesis
    using assms(1) bound counter by (simp add: fifo_rel_def pool_queue_def txs x)
qed

lemma queue_remove:
  "pool_queue (remove_transactions E hs p)
    = filter (\<lambda>t. pt_hash (env_tx E) t \<notin> set hs) (pool_queue p)"
  by (simp add: pool_queue_def remove_transactions_def filter_map comp_def)

section \<open>Highest tip first\<close>

definition tip_env where
  "tip_env T validate try_send send =
     \<lparr>env_tx = T, env_validate = validate, env_priority = tip_priority T,
      env_cmp = tip_cmp, env_try_send = try_send, env_send = send\<rparr>"

definition tip_rel where
  "tip_rel T p q \<longleftrightarrow>
     sorted_wrt tip_ord.leq (po_transactions p) \<and>
     (\<forall>t \<in> set (po_transactions p). tip_value (pe_priority t) = pt_tip T (pe_tx t)) \<and>
     (\<forall>k. filter (\<lambda>tx. pt_tip T tx = k) (pool_queue p) = filter (\<lambda>tx. pt_tip T tx = k) q)"

lemma filter_pool_queue:
  "filter P (map pe_tx ts) = map pe_tx (filter (\<lambda>t. P (pe_tx t)) ts)"
  by (simp add: filter_map comp_def)

lemma tip_rel_add:
  assumes "tip_rel T p q"
    "po_transactions p' =
       btree_insert (pending_cmp tip_cmp) (new_pending (tip_env T va ts se) p nonce tx tx')
         (po_transactions p)"
  shows "tip_rel T p' (q @ [tx'])"
proof -
  let ?x = "new_pending (tip_env T va ts se) p nonce tx tx'"
  have x: "tip_value (pe_priority ?x) = pt_tip T tx'" "pe_tx ?x = tx'"
    by (simp_all add: new_pending_def pending_tx_new_def tip_env_def tip_priority_def)
  have sorted: "sorted_wrt tip_ord.leq (po_transactions p)"
    and prio: "\<And>t. t \<in> set (po_transactions p) \<Longrightarrow> tip_value (pe_priority t) = pt_tip T (pe_tx t)"
    and same: "\<And>k. filter (\<lambda>tx. pt_tip T tx = k) (pool_queue p) = filter (\<lambda>tx. pt_tip T tx = k) q"
    using assms(1) by (simp_all add: tip_rel_def)
  have "filter (\<lambda>tx. pt_tip T tx = k) (pool_queue p') = filter (\<lambda>tx. pt_tip T tx = k) (q @ [tx'])" for k
  proof -
    have "filter (\<lambda>t. pt_tip T (pe_tx t) = k) (po_transactions p') =
        filter (\<lambda>t. pt_tip T (pe_tx t) = k) (po_transactions p) @ (if pt_tip T (pe_tx ?x) = k then [?x] else [])"
      unfolding assms(2) using sorted
      by (rule tip_ord.insert_stable) (use prio x in \<open>auto simp: tip_leq\<close>)
    then show ?thesis
      using same [of k] by (simp add: pool_queue_def filter_pool_queue x)
  qed
  moreover have "sorted_wrt tip_ord.leq (po_transactions p')"
    unfolding assms(2) using sorted by (rule tip_ord.sorted_insert)
  moreover have "\<forall>t \<in> set (po_transactions p'). tip_value (pe_priority t) = pt_tip T (pe_tx t)"
    unfolding assms(2) tip_ord.set_insert using prio x by auto
  ultimately show ?thesis
    by (simp add: tip_rel_def)
qed

lemma tip_rel_remove:
  assumes "tip_rel T p q" "env_tx E = T"
  shows "tip_rel T (remove_transactions E hs p) (filter (\<lambda>t. pt_hash T t \<notin> set hs) q)"
proof -
  let ?keep = "filter (\<lambda>t. pt_hash T t \<notin> set hs)"
  have "filter (\<lambda>tx. pt_tip T tx = k) (?keep (pool_queue p)) = filter (\<lambda>tx. pt_tip T tx = k) (?keep q)" for k
  proof -
    have comm: "filter (\<lambda>tx. pt_tip T tx = k) (?keep xs) = ?keep (filter (\<lambda>tx. pt_tip T tx = k) xs)" for xs
      by (simp add: conj_commute)
    show ?thesis
      unfolding comm using assms(1) by (simp only: tip_rel_def)
  qed
  then show ?thesis
    using assms unfolding tip_rel_def queue_remove
    by (auto simp: remove_transactions_def sorted_wrt_filter)
qed

section \<open>Streams\<close>

text \<open>What the tokio documentation promises of a receiver: \<open>poll_recv\<close> takes the messages in the order
  they were sent; without a message it is pending, or finished when the channel is closed.\<close>

definition fifo_receiver :: "('r \<Rightarrow> 'm option poll \<times> 'r) \<Rightarrow> ('r \<Rightarrow> 'm list) \<Rightarrow> bool" where
  "fifo_receiver poll_recv queue \<longleftrightarrow>
     (\<forall>rx. case queue rx of
             [] \<Rightarrow> fst (poll_recv rx) \<in> {Pending, Ready None} \<and> queue (snd (poll_recv rx)) = []
           | m # ms \<Rightarrow> fst (poll_recv rx) = Ready (Some m) \<and> queue (snd (poll_recv rx)) = ms)"

lemma drain_all:
  assumes "fifo_receiver poll_recv queue"
  shows "\<exists>rx'. drain ins poll_recv txs rx = Some (fold ins (queue rx) txs, rx') \<and> queue rx' = []"
proof (induction "queue rx" arbitrary: txs rx)
  case Nil
  obtain r rx' where r: "poll_recv rx = (r, rx')" by (cases "poll_recv rx")
  have "case queue rx of
      [] \<Rightarrow> fst (poll_recv rx) \<in> {Pending, Ready None} \<and> queue (snd (poll_recv rx)) = []
    | m # ms \<Rightarrow> fst (poll_recv rx) = Ready (Some m) \<and> queue (snd (poll_recv rx)) = ms"
    using assms unfolding fifo_receiver_def by blast
  then have "r \<in> {Pending, Ready None}" "queue rx' = []"
    using Nil r by (simp_all add: Nil [symmetric])
  with r Nil show ?case
    by (subst drain.simps) (auto simp: Nil [symmetric])
next
  case (Cons m ms)
  obtain r rx' where r: "poll_recv rx = (r, rx')" by (cases "poll_recv rx")
  have "case queue rx of
      [] \<Rightarrow> fst (poll_recv rx) \<in> {Pending, Ready None} \<and> queue (snd (poll_recv rx)) = []
    | m # ms \<Rightarrow> fst (poll_recv rx) = Ready (Some m) \<and> queue (snd (poll_recv rx)) = ms"
    using assms unfolding fifo_receiver_def by blast
  then have "r = Ready (Some m)" "queue rx' = ms"
    using r by (simp_all add: Cons(2) [symmetric])
  with r Cons(1) [of rx'] show ?case
    by (subst drain.simps) (simp add: Cons(2) [symmetric])
qed

context pool_ord
begin

lemma fold_insert:
  "sorted_wrt leq txs \<Longrightarrow> sorted_wrt leq (fold (btree_insert (pending_cmp cmp)) ms txs) \<and>
    mset (fold (btree_insert (pending_cmp cmp)) ms txs) = mset ms + mset txs"
  by (induction ms arbitrary: txs) (simp_all add: sorted_insert mset_insert)

lemma poll_loop_first:
  "poll_loop ins poll_recv (t # ts) rx = Some (Ready (Some t), ts, rx)"
  by (subst poll_loop.simps) simp

lemma poll_loop_spec:
  assumes "fifo_receiver poll_recv queue" "sorted_wrt leq txs"
  shows "\<exists>r txs' rx'. poll_loop (btree_insert (pending_cmp cmp)) poll_recv txs rx = Some (r, txs', rx') \<and>
    sorted_wrt leq txs' \<and>
    (case txs @ queue rx of
       [] \<Rightarrow> r \<in> {Pending, Ready None} \<and> txs' = [] \<and> queue rx' = []
     | _ \<Rightarrow> \<exists>tx. r = Ready (Some tx) \<and> (\<forall>t \<in> set txs'. leq tx t) \<and>
         add_mset tx (mset txs' + mset (queue rx')) = mset txs + mset (queue rx) \<and>
         (txs = [] \<longrightarrow> queue rx' = []))"
proof (cases txs)
  case (Cons t ts)
  with assms(2) show ?thesis
    by (simp add: poll_loop_first)
next
  case Nil
  obtain r rx1 where r: "poll_recv rx = (r, rx1)" by (cases "poll_recv rx")
  have recv: "case queue rx of
      [] \<Rightarrow> fst (poll_recv rx) \<in> {Pending, Ready None} \<and> queue (snd (poll_recv rx)) = []
    | m # ms \<Rightarrow> fst (poll_recv rx) = Ready (Some m) \<and> queue (snd (poll_recv rx)) = ms"
    using assms(1) unfolding fifo_receiver_def by blast
  show ?thesis
  proof (cases "queue rx")
    case Nil
    with recv r have "r \<in> {Pending, Ready None}" "queue rx1 = []" by simp_all
    with \<open>txs = []\<close> r Nil show ?thesis
      by (subst poll_loop.simps) auto
  next
    case (Cons m ms)
    with recv r have m: "r = Ready (Some m)" "queue rx1 = ms" by simp_all
    let ?ins = "btree_insert (pending_cmp cmp)"
    obtain rx2 where d: "drain ?ins poll_recv (?ins m []) rx1 = Some (fold ?ins ms [m], rx2)"
      "queue rx2 = []"
      using drain_all [OF assms(1), of ?ins "?ins m []" rx1] m by auto
    have f: "sorted_wrt leq (fold ?ins ms [m])" "mset (fold ?ins ms [m]) = add_mset m (mset ms)"
      using fold_insert [of "[m]" ms] by simp_all
    obtain t ts where ts: "fold ?ins ms [m] = t # ts"
      using f(2) by (cases "fold ?ins ms [m]") auto
    have "poll_loop ?ins poll_recv txs rx = Some (Ready (Some t), ts, rx2)"
      unfolding \<open>txs = []\<close> by (subst poll_loop.simps) (use r m d(1) ts in \<open>simp add: poll_loop_first\<close>)
    then show ?thesis
      using f ts d(2) \<open>txs = []\<close> Cons by simp
  qed
qed

end

lemma retained_listeners:
  "map snd (filter fst (map (listener_retain f h) ls))
    = map snd (filter (\<lambda>r. fst r \<noteq> SendDisconnected) (map (f h) ls))"
  by (induction ls) (auto simp: listener_retain_def split: prod.split try_send_result.split)

section \<open>Properties\<close>


text \<open>A pool ordered by tip after two additions.\<close>

abbreviation id_tx :: "(felt \<times> u64) pool_transaction" where
  "id_tx \<equiv> \<lparr>pt_hash = fst, pt_nonce = \<lambda>_. Some 0, pt_sender = fst, pt_max_fee = \<lambda>_. 0, pt_tip = snd\<rparr>"

abbreviation deaf_send :: "'m \<Rightarrow> unit \<Rightarrow> bool \<times> unit" where
  "deaf_send \<equiv> \<lambda>_ _. (True, ())"

abbreviation deaf_try_send :: "tx_hash \<Rightarrow> unit \<Rightarrow> try_send_result \<times> unit" where
  "deaf_try_send \<equiv> \<lambda>_ _. (SendOk, ())"


text \<open>C3: Under the first-come-first-served ordering the pool is a queue: any sequence of fewer than
  \<open>2 ^ 64\<close> additions and removals leaves in the pool exactly the transactions the validator accepted
  and nobody removed, in the order they were submitted, with the same validator state, and panics
  exactly when the validation of some transaction does.\<close>

theorem fifo_pool_refines_queue:
  fixes try_send :: "tx_hash \<Rightarrow> 'l \<Rightarrow> try_send_result \<times> 'l" and v :: 'v
    and send :: "('t, tx_submission_nonce) pending_tx \<Rightarrow> 's \<Rightarrow> bool \<times> 's"
  assumes "length ops < 2 ^ 64"
  shows "map_option (\<lambda>p. (po_validator p, pool_queue p))
      (pool_run (fifo_env T validate try_send send) ops (pool_new v fifo_new))
    = queue_run (fifo_env T validate try_send send) ops v []"
proof -
  let ?E = "fifo_env T validate try_send send"
  have E: "env_cmp ?E = submission_nonce_cmp" "env_priority ?E = fifo_priority"
    by (simp_all add: fifo_env_def)
  define p0 where "p0 = (pool_new v fifo_new :: ('t, tx_submission_nonce, 'v, fifo, 'l, 's) pool)"
  have rel: "fifo_rel (length ops) p0 []"
    using assms by (simp add: p0_def fifo_rel_def pool_new_def fifo_new_def pool_queue_def)
  have "(case pool_run ?E ops p0 of
      None \<Rightarrow> queue_run ?E ops (po_validator p0) [] = None
    | Some p' \<Rightarrow> \<exists>q'. queue_run ?E ops (po_validator p0) [] = Some (po_validator p', q') \<and> fifo_rel 0 p' q')"
  proof (rule run_simulation [where R = fifo_rel, OF _ _ _ rel])
    fix p :: "('t, tx_submission_nonce, 'v, fifo, 'l, 's) pool" and q n hs w
    assume r: "fifo_rel (Suc n) p q"
    then show "fifo_rel n (remove_transactions ?E hs p) (filter (\<lambda>t. pt_hash (env_tx ?E) t \<notin> set hs) q)"
      unfolding fifo_rel_def queue_remove by (simp add: remove_transactions_def)
    from r show "fifo_rel n (p\<lparr>po_validator := w\<rparr>) q"
      by (simp add: fifo_rel_def pool_queue_def)
  qed (simp add: E fifo_rel_add)
  moreover have "po_validator p0 = v" by (simp add: p0_def pool_new_def)
  ultimately show ?thesis
    unfolding p0_def [symmetric] by (auto simp: fifo_rel_def split: option.splits)
qed

text \<open>Three additions and a removal.\<close>

theorem fifo_pool_refines_queue_witness:
  "map_option (\<lambda>p. (po_validator p, pool_queue p))
     (pool_run (fifo_env id_tx (noop_validate :: (unit, felt \<times> u64, unit) validator) deaf_try_send deaf_send)
       [AddTx (felt 1, 2), AddTx (felt 2, 9), RemoveTxs [felt 1], AddTx (felt 3, 1)] (pool_new () fifo_new))
   = Some ((), [(felt 2, 9), (felt 3, 1)])"
  by (subst fifo_pool_refines_queue)
     (simp_all add: fifo_env_def noop_validate_def felt_eq_iff stark_prime_def)

text \<open>C28: Under the tip ordering the pool is the stable sort of that queue: after any sequence of
  additions and removals the transactions stand in descending order of tip, those of equal tip in
  the order they were submitted, and they are the transactions of the queue.\<close>

theorem tip_pool_refines_stable_sort:
  fixes try_send :: "tx_hash \<Rightarrow> 'l \<Rightarrow> try_send_result \<times> 'l" and v :: 'v
    and send :: "('t, tip) pending_tx \<Rightarrow> 's \<Rightarrow> bool \<times> 's"
  assumes "pool_run (tip_env T validate try_send send) ops (pool_new v ()) = Some p"
  shows "\<exists>q. queue_run (tip_env T validate try_send send) ops v [] = Some (po_validator p, q) \<and>
    sorted_wrt (\<lambda>a b. pt_tip T b \<le> pt_tip T a) (pool_queue p) \<and>
    (\<forall>k. filter (\<lambda>tx. pt_tip T tx = k) (pool_queue p) = filter (\<lambda>tx. pt_tip T tx = k) q)"
proof -
  let ?E = "tip_env T validate try_send send"
  have E: "env_cmp ?E = tip_cmp" "env_tx ?E = T"
    by (simp_all add: tip_env_def)
  define p0 where "p0 = (pool_new v () :: ('t, tip, 'v, unit, 'l, 's) pool)"
  have rel: "tip_rel T p0 []"
    by (simp add: p0_def tip_rel_def pool_new_def pool_queue_def)
  have "(case pool_run ?E ops p0 of
      None \<Rightarrow> queue_run ?E ops (po_validator p0) [] = None
    | Some p' \<Rightarrow> \<exists>q'. queue_run ?E ops (po_validator p0) [] = Some (po_validator p', q') \<and> tip_rel T p' q')"
  proof (rule run_simulation [where R = "\<lambda>_. tip_rel T", OF _ _ _ rel])
    fix p :: "('t, tip, 'v, unit, 'l, 's) pool" and q n hs w
    assume r: "tip_rel T p q"
    then show "tip_rel T (remove_transactions ?E hs p) (filter (\<lambda>t. pt_hash (env_tx ?E) t \<notin> set hs) q)"
      unfolding E by (rule tip_rel_remove) (rule E)
    from r show "tip_rel T (p\<lparr>po_validator := w\<rparr>) q"
      by (simp add: tip_rel_def pool_queue_def)
  qed (simp add: E tip_rel_add)
  then obtain q where q: "queue_run ?E ops v [] = Some (po_validator p, q)" "tip_rel T p q"
    using assms by (auto simp: p0_def [symmetric]) (auto simp: p0_def pool_new_def)
  have tips: "tip_value (pe_priority t) = pt_tip T (pe_tx t)" if "t \<in> set (po_transactions p)" for t
    using q(2) that by (simp add: tip_rel_def)
  have "sorted_wrt (\<lambda>a b. pt_tip T (pe_tx b) \<le> pt_tip T (pe_tx a)) (po_transactions p)"
    using q(2) tips unfolding tip_rel_def
    by (auto simp: tip_leq elim: sorted_wrt_mono_rel [rotated])
  then have "sorted_wrt (\<lambda>a b. pt_tip T b \<le> pt_tip T a) (pool_queue p)"
    by (simp add: pool_queue_def sorted_wrt_map)
  with q show ?thesis
    by (auto simp: tip_rel_def)
qed

text \<open>Three additions, two of them with the same tip.\<close>

theorem tip_pool_refines_stable_sort_witness:
  "\<exists>p :: (felt \<times> u64, tip, unit, unit, unit, unit) pool.
     pool_run (tip_env id_tx (noop_validate :: (unit, felt \<times> u64, unit) validator) deaf_try_send deaf_send)
       [AddTx (felt 1, 2), AddTx (felt 2, 9), AddTx (felt 3, 2)] (pool_new () ()) = Some p \<and>
     filter (\<lambda>tx. snd tx = 2) (pool_queue p) = [(felt 1, 2), (felt 3, 2)]"
proof -
  let ?E = "tip_env id_tx (noop_validate :: (unit, felt \<times> u64, unit) validator) deaf_try_send deaf_send"
  let ?ops = "[AddTx (felt 1, 2), AddTx (felt 2, 9), AddTx (felt 3, 2)]"
  have q: "queue_run ?E ?ops () [] = Some ((), [(felt 1, 2), (felt 2, 9), (felt 3, 2)])"
    by (simp add: tip_env_def noop_validate_def)
  have valid: "\<exists>p'. add_transaction ?E tx p = Some (Ok (fst tx), p')"
    for tx and p :: "(felt \<times> u64, tip, unit, unit, unit, unit) pool"
    by (rule add_transaction_valid [where E = ?E and tx = tx and p = p and nonce = 0])
       (auto simp: tip_env_def noop_validate_def)
  have "\<exists>p. pool_run ?E (map AddTx txs) p0 = Some p"
    for txs and p0 :: "(felt \<times> u64, tip, unit, unit, unit, unit) pool"
  proof (induction txs arbitrary: p0)
    case Nil
    then show ?case by simp
  next
    case (Cons tx txs)
    then show ?case using valid [of tx p0] by auto
  qed
  from this [of "[(felt 1, 2), (felt 2, 9), (felt 3, 2)]" "pool_new () ()"]
  obtain p where p: "pool_run ?E ?ops (pool_new () ()) = Some (p :: (felt \<times> u64, tip, unit, unit, unit, unit) pool)"
    by auto
  obtain q' where "queue_run ?E ?ops () [] = Some (po_validator p, q')"
    "\<forall>k. filter (\<lambda>tx. pt_tip id_tx tx = k) (pool_queue p) = filter (\<lambda>tx. pt_tip id_tx tx = k) q'"
    using tip_pool_refines_stable_sort [OF p] by blast
  then have "filter (\<lambda>tx. snd tx = 2) (pool_queue p) = [(felt 1, 2), (felt 3, 2)]"
    using q by (auto dest: spec [of _ 2])
  with p show ?thesis by blast
qed

text \<open>C24: What adding a transaction returns and does, for every outcome of the validation.  A valid
  transaction is in the pool afterwards, under the id of the submitted one, together with everything
  that was there, and its hash is returned; an invalid one, one that depends on an earlier nonce and
  one whose validation failed are reported as errors and change nothing but the validator.\<close>

theorem add_transaction_outcome:
  assumes "pt_nonce (env_tx E) tx = Some nonce" "env_validate E (po_validator p) tx = Some (r, v)"
  shows "case r of
      Inr (Valid tx') \<Rightarrow>
        (\<exists>p'. add_transaction E tx p = Some (Ok (pt_hash (env_tx E) tx), p') \<and>
          mset (po_transactions p') = add_mset
            \<lparr>pe_id = \<lparr>id_sender = pt_sender (env_tx E) tx, id_nonce = nonce\<rparr>, pe_tx = tx',
             pe_priority = fst (env_priority E (po_ordering p) tx')\<rparr> (mset (po_transactions p)) \<and>
          po_validator p' = v \<and> pool_size p' = Suc (pool_size p))
    | Inr (Invalid tx' error) \<Rightarrow>
        add_transaction E tx p = Some (Err (InvalidTransaction error), p\<lparr>po_validator := v\<rparr>)
    | Inr (Dependent tx' tx_nonce current) \<Rightarrow>
        add_transaction E tx p = Some (Err (InvalidTransaction
          (InvalidNonce (pt_sender (env_tx E) tx') current tx_nonce)), p\<lparr>po_validator := v\<rparr>)
    | Inl error \<Rightarrow> add_transaction E tx p = Some (Err (Internal (ve_error error)), p\<lparr>po_validator := v\<rparr>)"
proof (cases "\<exists>tx'. r = Inr (Valid tx')")
  case True
  then obtain tx' where r: "r = Inr (Valid tx')" by blast
  obtain p' where p': "add_transaction E tx p = Some (Ok (pt_hash (env_tx E) tx), p')"
    "po_transactions p' =
       btree_insert (pending_cmp (env_cmp E)) (new_pending E p nonce tx tx') (po_transactions p)"
    "po_validator p' = v"
    using add_transaction_valid [where p = p, OF assms [unfolded r]] by blast
  have "mset (po_transactions p') = add_mset (new_pending E p nonce tx tx') (mset (po_transactions p))"
    unfolding p'(2) by (rule pending_insert_mset)
  moreover from arg_cong [OF this, of size] have "pool_size p' = Suc (pool_size p)"
    by (simp add: pool_size_def)
  ultimately show ?thesis
    using p'(1,3) by (simp add: r new_pending_def pending_tx_new_def tx_id_new_def)
next
  case False
  with assms show ?thesis
    by (cases r) (auto simp: add_transaction_def Let_def split: validation_outcome.split)
qed

text \<open>A validator that finds every transaction dependent on an earlier one.\<close>

theorem add_transaction_outcome_witness:
  "add_transaction
     (fifo_env id_tx (\<lambda>v tx. Some (Inr (Dependent tx (felt 4) 1), Suc v)
        :: ((felt \<times> u64, unit) validation_result \<times> nat) option) deaf_try_send deaf_send)
     (0, 3) (pool_new 0 fifo_new)
   = Some (Err (InvalidTransaction (InvalidNonce 0 1 (felt 4))), (pool_new 0 fifo_new)\<lparr>po_validator := 1\<rparr>)"
proof -
  let ?E = "fifo_env id_tx (\<lambda>v tx. Some (Inr (Dependent tx (felt 4) 1), Suc v)
        :: ((felt \<times> u64, unit) validation_result \<times> nat) option) deaf_try_send deaf_send"
  have "pt_nonce (env_tx ?E) (0, 3) = Some 0"
    "env_validate ?E (po_validator (pool_new 0 fifo_new :: (felt \<times> u64, tx_submission_nonce, nat, fifo, unit, unit) pool)) (0, 3)
      = Some (Inr (Dependent (0, 3) (felt 4) 1), 1)"
    by (simp_all add: fifo_env_def pool_new_def)
  from add_transaction_outcome [OF this] show ?thesis
    by (simp add: fifo_env_def)
qed

text \<open>Removing transactions by hash removes all of them and nothing else: a hash is found
  afterwards exactly when it was found before and is not among the removed ones, and then the same
  transaction is found.\<close>

lemma pool_get_after_remove:
  "pool_get E h (remove_transactions E hs p) = (if h \<in> set hs then None else pool_get E h p) \<and>
   (pool_contains E h (remove_transactions E hs p) \<longleftrightarrow> pool_contains E h p \<and> h \<notin> set hs)"
proof -
  have "find (\<lambda>t. f t = h) (filter (\<lambda>t. f t \<notin> set hs) ts)
      = (if h \<in> set hs then None else find (\<lambda>t. f t = h) ts)" for f and ts :: "('a, 'b) pending_tx list"
    by (induction ts) auto
  then show ?thesis
    by (simp add: pool_get_def pool_contains_def remove_transactions_def)
qed

text \<open>A notification is what its comment says, a \<open>retain\<close>: every listener and every subscriber is
  sent to exactly once, the disconnected ones are dropped, the others, full ones included, are kept,
  and the loop, which removes while it iterates, never indexes out of range.\<close>

theorem notify_is_retain:
  "\<exists>ls ss. notify E tx p = Some (p\<lparr>po_listeners := ls, po_subscribers := ss\<rparr>) \<and>
    mset ls = mset (map snd (filter (\<lambda>r. fst r \<noteq> SendDisconnected)
      (map (env_try_send E (pt_hash (env_tx E) (pe_tx tx))) (po_listeners p)))) \<and>
    mset ss = mset (map snd (filter fst (map (env_send E tx) (po_subscribers p))))"
proof -
  obtain ls ss where n: "notify E tx p = Some (p\<lparr>po_listeners := ls, po_subscribers := ss\<rparr>)"
    "mset ls = mset (map snd (filter fst
       (map (listener_retain (env_try_send E) (pt_hash (env_tx E) (pe_tx tx))) (po_listeners p))))"
    "mset ss = mset (map snd (filter fst (map (env_send E tx) (po_subscribers p))))"
    by (rule notify_total)
  from n(2) have "mset ls = mset (map snd (filter (\<lambda>r. fst r \<noteq> SendDisconnected)
      (map (env_try_send E (pt_hash (env_tx E) (pe_tx tx))) (po_listeners p))))"
    unfolding retained_listeners .
  with n(1,3) show ?thesis by blast
qed



end
