(* ===== verification/Tx_Validator.thy ===== *)
theory Tx_Validator
  imports Pool_Tx Validation Db_State
begin

text \<open>
  The stateful validator of the pool (\<open>pool/src/validation/stateful.rs\<close>).  It keeps the state of the
  last block and, per account, the nonce the pool expects next.  The account's own validation runs in
  the blockifier library and is the parameter \<open>perform_validations\<close>; what the validator uses of the
  state is the record \<open>state_ops\<close>, which \<open>db_state_ops\<close> fills from the storage provider.  The mutex
  makes every call atomic.  \<open>None\<close> is a panic: the nonce of a version 0 transaction, or a provider
  error on the nonce.
\<close>

section \<open>State\<close>

record execution_flags =
  ef_account_validation :: bool
  ef_fee :: bool
  ef_nonce_check :: bool

definition execution_flags_default :: execution_flags where
  "execution_flags_default = \<lparr>ef_account_validation = True, ef_fee = True, ef_nonce_check = True\<rparr>"

record fee_token_addresses =
  fta_strk :: contract_address
  fta_eth :: contract_address

record cfg_env =
  cfg_chain_id :: chain_id
  cfg_fee_token_addresses :: fee_token_addresses
  cfg_invoke_tx_max_n_steps :: u32
  cfg_validate_max_n_steps :: u32
  cfg_max_recursion_depth :: nat

record 'cls state_ops =
  so_class :: "class_hash \<Rightarrow> 'cls option provider_result"
  so_nonce :: "contract_address \<Rightarrow> nonce option provider_result"

definition db_state_ops :: "('tx, 'rcpt, 'trace, 'cls, 'ccls) db \<Rightarrow> state_provider \<Rightarrow> 'cls state_ops" where
  "db_state_ops d provider =
     \<lparr>so_class = (case provider of
                   LatestState \<Rightarrow> latest_class d
                 | HistoricalState n \<Rightarrow> historical_class d n),
      so_nonce = nonce_of d provider\<rparr>"

record 'cls validator_inner =
  vi_cfg_env :: cfg_env
  vi_block_env :: block_env
  vi_execution_flags :: execution_flags
  vi_state :: "'cls state_ops"
  vi_pool_nonces :: "contract_address \<Rightarrow> nonce option"

definition tx_validator_new ::
  "'cls state_ops \<Rightarrow> execution_flags \<Rightarrow> cfg_env \<Rightarrow> block_env \<Rightarrow> 'cls validator_inner" where
  "tx_validator_new state flags cfg block =
     \<lparr>vi_cfg_env = cfg, vi_block_env = block, vi_execution_flags = flags, vi_state = state,
      vi_pool_nonces = (\<lambda>_. None)\<rparr>"

definition tx_validator_update :: "'cls state_ops \<Rightarrow> block_env \<Rightarrow> 'cls validator_inner \<Rightarrow> 'cls validator_inner" where
  "tx_validator_update new_state block v = v\<lparr>vi_block_env := block, vi_state := new_state\<rparr>"

definition pool_nonce :: "'cls validator_inner \<Rightarrow> contract_address \<Rightarrow> nonce option provider_result" where
  "pool_nonce v address =
     (case vi_pool_nonces v address of
        Some nonce \<Rightarrow> Ok (Some nonce)
      | None \<Rightarrow> so_nonce (vi_state v) address)"

section \<open>Errors of the account validation\<close>

text \<open>The variants of the blockifier's errors that the source tells apart; the others carry only
  their rendering.\<close>

datatype transaction_execution_error =
    ValidateTransactionError contract_address class_hash string
  | OtherExecutionError string

datatype transaction_fee_error =
    MaxFeeExceedsBalance u128 felt
  | MaxFeeTooLow u128 u128
  | OtherFeeError string

datatype transaction_pre_validation_error =
    PreInvalidNonce contract_address nonce nonce
  | TransactionFeeError transaction_fee_error
  | OtherPreValidationError string

datatype stateful_validator_error =
    TransactionExecutionError transaction_execution_error
  | TransactionPreValidationError transaction_pre_validation_error
  | OtherStatefulError string

text \<open>The boxed error of an unexpected failure: a provider error, or an error of the blockifier.\<close>

datatype boxed_error =
    BoxedProvider provider_error
  | BoxedExecution transaction_execution_error
  | BoxedFee transaction_fee_error
  | BoxedPreValidation transaction_pre_validation_error
  | BoxedStateful stateful_validator_error

fun map_invalid_tx_err ::
  "stateful_validator_error \<Rightarrow> (invalid_transaction_error, boxed_error) result" where
  "map_invalid_tx_err (TransactionExecutionError err) =
     (case err of
        ValidateTransactionError storage_address class_hash error \<Rightarrow>
          Ok (ValidationFailure storage_address class_hash error)
      | _ \<Rightarrow> Err (BoxedExecution err))"
| "map_invalid_tx_err (TransactionPreValidationError err) =
     (case err of
        PreInvalidNonce address account_nonce incoming_tx_nonce \<Rightarrow>
          Ok (InvalidNonce address account_nonce incoming_tx_nonce)
      | TransactionFeeError fe \<Rightarrow>
          (case fe of
             MaxFeeExceedsBalance max_fee balance \<Rightarrow> Ok (InsufficientFunds max_fee balance)
           | MaxFeeTooLow min_fee max_fee \<Rightarrow> Ok (IntrinsicFeeTooLow min_fee max_fee)
           | _ \<Rightarrow> Err (BoxedFee fe))
      | _ \<Rightarrow> Err (BoxedPreValidation err))"
| "map_invalid_tx_err err = Err (BoxedStateful err)"

section \<open>Validation\<close>

text \<open>\<open>perform_validations\<close> of the blockifier on the context the validator prepares: configuration,
  block and state, then the transaction and whether to skip the account validation and the fee
  check.\<close>

type_synonym 'cls perform_validations =
  "cfg_env \<Rightarrow> block_env \<Rightarrow> 'cls state_ops \<Rightarrow> 'cls executable_tx_with_hash \<Rightarrow> bool \<Rightarrow> bool
    \<Rightarrow> (unit, stateful_validator_error) result"

definition account_validate ::
  "'cls perform_validations \<Rightarrow> 'cls validator_inner \<Rightarrow> 'cls executable_tx_with_hash \<Rightarrow> bool \<Rightarrow> bool
    \<Rightarrow> ('cls executable_tx_with_hash, boxed_error) validation_result" where
  "account_validate perform v pool_tx skip_validate skip_fee_check =
     (case et_transaction pool_tx of
        ExL1Handler _ \<Rightarrow> Ok (Valid pool_tx)
      | _ \<Rightarrow>
          (case perform (vi_cfg_env v) (vi_block_env v) (vi_state v) pool_tx skip_validate skip_fee_check of
             Inr _ \<Rightarrow> Ok (Valid pool_tx)
           | Inl e \<Rightarrow>
               (case map_invalid_tx_err e of
                  Inr error \<Rightarrow> Ok (Invalid pool_tx error)
                | Inl error \<Rightarrow> Err \<lparr>ve_hash = et_hash pool_tx, ve_error = error\<rparr>)))"

text \<open>The static check of a declaration: \<open>Some\<close> is an early return.\<close>

definition declare_check ::
  "'cls validator_inner \<Rightarrow> 'cls executable_tx_with_hash
    \<Rightarrow> ('cls executable_tx_with_hash, boxed_error) validation_result option" where
  "declare_check v tx =
     (case et_transaction tx of
        ExDeclare declare_tx \<Rightarrow>
          (let class_hash = declare_class_hash (dtc_transaction declare_tx)
           in case so_class (vi_state v) class_hash of
                Inl e \<Rightarrow> Some (Err (validation_error_new (et_hash tx) (BoxedProvider e)))
              | Inr (Some _) \<Rightarrow> Some (Ok (Invalid tx (ClassAlreadyDeclared class_hash)))
              | Inr None \<Rightarrow> None)
      | _ \<Rightarrow> None)"

definition current_nonce :: "'cls validator_inner \<Rightarrow> contract_address \<Rightarrow> nonce option" where
  "current_nonce v address =
     (case vi_pool_nonces v address of
        Some nonce \<Rightarrow> Some nonce
      | None \<Rightarrow>
          (case so_nonce (vi_state v) address of
             Inl _ \<Rightarrow> None
           | Inr n \<Rightarrow> Some (case n of None \<Rightarrow> 0 | Some nonce \<Rightarrow> nonce)))"

definition skip_validate_of :: "'cls executable_tx_with_hash \<Rightarrow> nonce \<Rightarrow> nonce \<Rightarrow> bool" where
  "skip_validate_of tx tx_nonce current =
     (case et_transaction tx of
        ExDeployAccount _ \<Rightarrow> False
      | ExDeclare _ \<Rightarrow> False
      | _ \<Rightarrow> tx_nonce = 1 \<and> current = 0)"

definition tx_validate ::
  "'cls perform_validations
    \<Rightarrow> ('cls validator_inner, 'cls executable_tx_with_hash, boxed_error) validator" where
  "tx_validate perform v tx =
     (case executable_nonce (et_transaction tx) of
        None \<Rightarrow> None
      | Some tx_nonce \<Rightarrow>
          (let address = executable_sender (et_transaction tx)
           in case declare_check v tx of
                Some early \<Rightarrow> Some (early, v)
              | None \<Rightarrow>
                  (case current_nonce v address of
                     None \<Rightarrow> None
                   | Some current \<Rightarrow>
                       if current < tx_nonce then Some (Ok (Dependent tx tx_nonce current), v)
                       else
                         (let skip_validate = skip_validate_of tx tx_nonce current;
                              result = account_validate perform v tx
                                (\<not> ef_account_validation (vi_execution_flags v) \<or> skip_validate)
                                (\<not> ef_fee (vi_execution_flags v))
                          in case result of
                               Inr (Valid _) \<Rightarrow>
                                 Some (result,
                                   v\<lparr>vi_pool_nonces := (vi_pool_nonces v)(address \<mapsto> current + 1)\<rparr>)
                             | _ \<Rightarrow> Some (result, v)))))"

section \<open>Lemmas\<close>

lemma account_validate_tx:
  "account_validate perform v tx a b = Ok (Valid tx') \<Longrightarrow> tx' = tx"
  by (auto simp: account_validate_def split: executable_tx.splits sum.splits)

lemma skip_validate_unreachable: "\<not> current < tx_nonce \<Longrightarrow> \<not> skip_validate_of tx tx_nonce current"
  by (auto simp: skip_validate_of_def felt_less_iff one_felt.rep_eq zero_felt.rep_eq split: executable_tx.split)

lemma current_nonce_stored: "vi_pool_nonces v a = Some n \<Longrightarrow> current_nonce v a = Some n"
  by (simp add: current_nonce_def)

text \<open>The transitions of the validator: validating a transaction, or moving on to a new block.\<close>

inductive validator_step ::
  "'cls perform_validations \<Rightarrow> 'cls validator_inner \<Rightarrow> 'cls validator_inner \<Rightarrow> bool"
  for perform where
  validator_validate: "tx_validate perform v tx = Some (r, v') \<Longrightarrow> validator_step perform v v'"
| validator_update: "validator_step perform v (tx_validator_update state block v)"

lemma tx_validate_eq:
  assumes "executable_nonce (et_transaction tx) = Some n" "declare_check v tx = None"
    "current_nonce v (executable_sender (et_transaction tx)) = Some c"
  shows "tx_validate perform v tx =
    (if c < n then Some (Ok (Dependent tx n c), v)
     else let r = account_validate perform v tx (\<not> ef_account_validation (vi_execution_flags v))
                    (\<not> ef_fee (vi_execution_flags v))
          in Some (r, if r = Ok (Valid tx)
               then v\<lparr>vi_pool_nonces := (vi_pool_nonces v)(executable_sender (et_transaction tx) \<mapsto> c + 1)\<rparr>
               else v))"
proof (cases "c < n")
  case True
  with assms show ?thesis by (simp add: tx_validate_def Let_def)
next
  case False
  define r where "r = account_validate perform v tx (\<not> ef_account_validation (vi_execution_flags v))
      (\<not> ef_fee (vi_execution_flags v))"
  have skip: "(\<not> ef_account_validation (vi_execution_flags v) \<or> skip_validate_of tx n c)
      = (\<not> ef_account_validation (vi_execution_flags v))"
    using skip_validate_unreachable [OF False, of tx] by blast
  have "tx_validate perform v tx = (case r of
      Inr (Valid _) \<Rightarrow>
        Some (r, v\<lparr>vi_pool_nonces := (vi_pool_nonces v)(executable_sender (et_transaction tx) \<mapsto> c + 1)\<rparr>)
    | _ \<Rightarrow> Some (r, v))"
    unfolding tx_validate_def Let_def assms option.case r_def skip using False by simp
  note eq = this
  have valid: "x = tx" if "r = Ok (Valid x)" for x
    using that unfolding r_def by (rule account_validate_tx)
  have "tx_validate perform v tx = Some (r, if r = Ok (Valid tx)
      then v\<lparr>vi_pool_nonces := (vi_pool_nonces v)(executable_sender (et_transaction tx) \<mapsto> c + 1)\<rparr>
      else v)"
  proof (cases "\<exists>x. r = Ok (Valid x)")
    case True
    with valid have "r = Ok (Valid tx)" by blast
    with eq show ?thesis by simp
  next
    case False
    then have "tx_validate perform v tx = Some (r, v)"
      unfolding eq by (simp split: sum.split validation_outcome.split)
    with False show ?thesis by simp
  qed
  with False show ?thesis
    unfolding r_def [symmetric] Let_def by simp
qed

lemma tx_validate_nonces:
  assumes "tx_validate perform v tx = Some (r, v')"
  shows "v' = v \<or> (\<exists>c. current_nonce v (executable_sender (et_transaction tx)) = Some c \<and>
    v' = v\<lparr>vi_pool_nonces := (vi_pool_nonces v)(executable_sender (et_transaction tx) \<mapsto> c + 1)\<rparr>)"
proof -
  obtain n where n: "executable_nonce (et_transaction tx) = Some n"
    using assms by (auto simp: tx_validate_def split: option.splits)
  show ?thesis
  proof (cases "declare_check v tx")
    case (Some early)
    with assms n show ?thesis by (simp add: tx_validate_def)
  next
    case None
    then obtain c where c: "current_nonce v (executable_sender (et_transaction tx)) = Some c"
      using assms n by (auto simp: tx_validate_def Let_def split: option.splits)
    from assms show ?thesis
      unfolding tx_validate_eq [OF n None c] by (auto simp: c Let_def split: if_splits)
  qed
qed

text \<open>The account validation does not look at the nonces of the pool.\<close>

lemma account_validate_pool_nonces:
  "account_validate perform (v\<lparr>vi_pool_nonces := m\<rparr>) tx a b = account_validate perform v tx a b"
  by (simp add: account_validate_def split: executable_tx.split)

lemma declare_check_pool_nonces: "declare_check (v\<lparr>vi_pool_nonces := m\<rparr>) tx = declare_check v tx"
  by (simp add: declare_check_def split: executable_tx.split)

section \<open>Properties\<close>

text \<open>C23: What the validator decides, for every transaction that passes the static check of a
  declaration.  A nonce above the one expected of the account makes it dependent.  Otherwise the
  account validation decides, with its steps skipped only as the execution flags say: the case meant
  for an invocation sent together with the deployment of its account never occurs, since it asks for
  a nonce above the current one, which the check before has already turned away.  The expected nonce
  of the sender advances by one when the transaction is valid; nothing else changes.\<close>

theorem tx_validate_outcome:
  assumes "executable_nonce (et_transaction tx) = Some n" "declare_check v tx = None"
    "current_nonce v (executable_sender (et_transaction tx)) = Some c"
  shows "tx_validate perform v tx =
    (if c < n then Some (Ok (Dependent tx n c), v)
     else let r = account_validate perform v tx (\<not> ef_account_validation (vi_execution_flags v))
                    (\<not> ef_fee (vi_execution_flags v))
          in Some (r, if r = Ok (Valid tx)
               then v\<lparr>vi_pool_nonces := (vi_pool_nonces v)(executable_sender (et_transaction tx) \<mapsto> c + 1)\<rparr>
               else v))"
  using assms by (rule tx_validate_eq)

definition sample_validator :: "nat validator_inner" where
  "sample_validator = tx_validator_new
     \<lparr>so_class = \<lambda>_. Ok None, so_nonce = \<lambda>_. Ok None\<rparr> execution_flags_default
     \<lparr>cfg_chain_id = Named Sepolia, cfg_fee_token_addresses = \<lparr>fta_strk = 0, fta_eth = 0\<rparr>,
      cfg_invoke_tx_max_n_steps = 1, cfg_validate_max_n_steps = 1, cfg_max_recursion_depth = 1\<rparr>
     \<lparr>be_number = 0, be_timestamp = 0, be_l1_gas_prices = gas_prices_default,
      be_l1_data_gas_prices = gas_prices_default, be_sequencer_address = 0\<rparr>"

definition sample_invoke :: "felt \<Rightarrow> nat executable_tx_with_hash" where
  "sample_invoke nonce =
     \<lparr>et_hash = nonce, et_transaction = ExInvoke (InvokeV1
       \<lparr>i1_chain_id = Named Sepolia, i1_sender_address = 1, i1_nonce = nonce, i1_calldata = [],
        i1_signature = [], i1_max_fee = 0\<rparr>)\<rparr>"

lemma sample_invoke_facts:
  "executable_nonce (et_transaction (sample_invoke n)) = Some n"
  "executable_sender (et_transaction (sample_invoke n)) = 1"
  "declare_check v (sample_invoke n) = None"
  by (simp_all add: sample_invoke_def declare_check_def)

text \<open>An invocation with nonce one on a fresh account is dependent.\<close>

theorem tx_validate_outcome_witness:
  "tx_validate (\<lambda>_ _ _ _ _ _. Ok ()) sample_validator (sample_invoke 1)
     = Some (Ok (Dependent (sample_invoke 1) 1 0), sample_validator)"
proof -
  have "current_nonce sample_validator 1 = Some 0"
    by (simp add: current_nonce_def sample_validator_def tx_validator_new_def)
  then have c: "current_nonce sample_validator (executable_sender (et_transaction (sample_invoke 1))) = Some 0"
    by (simp add: sample_invoke_facts)
  have "(0 :: felt) < 1" by (simp add: felt_less_iff one_felt.rep_eq zero_felt.rep_eq)
  then show ?thesis
    using tx_validate_outcome [OF sample_invoke_facts(1,3) c, of "\<lambda>_ _ _ _ _ _. Ok ()"] by simp
qed

text \<open>C30: The nonce the pool expects of an account is never forgotten and never lowered: each step of
  the validator, the update after a block included, leaves it as it is or raises it by one.  So an
  account whose transaction was accepted but did not make it into a block keeps the raised nonce.\<close>

theorem pool_nonces_survive:
  assumes "validator_step perform v v'" "vi_pool_nonces v a = Some n"
  shows "vi_pool_nonces v' a = Some n \<or> vi_pool_nonces v' a = Some (n + 1)"
  using assms(1)
proof cases
  case (validator_validate tx r)
  then show ?thesis
    using tx_validate_nonces [of perform v tx r v'] assms(2)
    by (auto simp: current_nonce_stored)
next
  case (validator_update state block)
  with assms(2) show ?thesis by (simp add: tx_validator_update_def)
qed

text \<open>The update after a block in which the account's nonce is back at zero.\<close>

theorem pool_nonces_survive_witness:
  "vi_pool_nonces (tx_validator_update \<lparr>so_class = \<lambda>_. Ok None, so_nonce = \<lambda>_. Ok (Some 0)\<rparr>
       (vi_block_env sample_validator) (sample_validator\<lparr>vi_pool_nonces := [1 \<mapsto> 1]\<rparr>)) 1 \<noteq> None"
  using pool_nonces_survive [OF validator_update, where v = "sample_validator\<lparr>vi_pool_nonces := [1 \<mapsto> 1]\<rparr>"
      and a = 1 and n = 1]
  by fastforce

text \<open>C31: A transaction that was found valid is found valid again, any number of times: resubmitting
  it, although its nonce is now below the one the pool expects, advances the expected nonce once
  more, past the nonce the account really has next.\<close>

theorem resubmission_is_valid:
  assumes "tx_validate perform v tx = Some (Ok (Valid tx), v')"
    "current_nonce v (executable_sender (et_transaction tx)) = Some c" "nat_of_felt c + 1 < stark_prime"
  shows "\<exists>v''. tx_validate perform v' tx = Some (Ok (Valid tx), v'') \<and>
    vi_pool_nonces v'' (executable_sender (et_transaction tx)) = Some (c + 1 + 1)"
proof -
  let ?a = "executable_sender (et_transaction tx)"
  obtain n where n: "executable_nonce (et_transaction tx) = Some n"
    using assms(1) by (auto simp: tx_validate_def split: option.splits)
  have d: "declare_check v tx = None"
    using assms(1) n
    by (auto simp: tx_validate_def declare_check_def Let_def split: option.splits executable_tx.splits sum.splits)
  note first = tx_validate_eq [OF n d assms(2), of perform]
  have le: "\<not> c < n" and r: "account_validate perform v tx (\<not> ef_account_validation (vi_execution_flags v))
      (\<not> ef_fee (vi_execution_flags v)) = Ok (Valid tx)"
    and v': "v' = v\<lparr>vi_pool_nonces := (vi_pool_nonces v)(?a \<mapsto> c + 1)\<rparr>"
    using assms(1) unfolding first by (auto simp: Let_def split: if_splits)
  have "c < c + 1" by (rule felt_less_succ [OF assms(3)])
  then have le': "\<not> c + 1 < n" using le by auto
  have "current_nonce v' ?a = Some (c + 1)"
    by (rule current_nonce_stored) (simp add: v')
  moreover have "declare_check v' tx = None"
    by (simp add: v' declare_check_pool_nonces d)
  ultimately show ?thesis
    using tx_validate_eq [OF n, of v' "c + 1" perform] le' r
    by (simp add: Let_def v' account_validate_pool_nonces)
qed

text \<open>A fresh account sends the same invocation twice.\<close>

theorem resubmission_is_valid_witness:
  "\<exists>v' v''. tx_validate (\<lambda>_ _ _ _ _ _. Ok ()) sample_validator (sample_invoke 0) = Some (Ok (Valid (sample_invoke 0)), v') \<and>
     tx_validate (\<lambda>_ _ _ _ _ _. Ok ()) v' (sample_invoke 0) = Some (Ok (Valid (sample_invoke 0)), v'') \<and>
     vi_pool_nonces v'' 1 = Some (0 + 1 + 1)"
proof -
  have "current_nonce sample_validator 1 = Some 0"
    by (simp add: current_nonce_def sample_validator_def tx_validator_new_def)
  then have c: "current_nonce sample_validator (executable_sender (et_transaction (sample_invoke 0))) = Some 0"
    by (simp add: sample_invoke_facts)
  have "account_validate (\<lambda>_ _ _ _ _ _. Ok ()) sample_validator (sample_invoke 0) x y = Ok (Valid (sample_invoke 0))" for x y
    by (simp add: account_validate_def sample_invoke_def)
  then obtain v' where v': "tx_validate (\<lambda>_ _ _ _ _ _. Ok ()) sample_validator (sample_invoke 0)
      = Some (Ok (Valid (sample_invoke 0)), v')"
    using tx_validate_eq [OF sample_invoke_facts(1,3) c] by (simp add: Let_def)
  have "nat_of_felt 0 + 1 < stark_prime"
    using stark_prime_gt_1 by (simp add: zero_felt.rep_eq)
  from resubmission_is_valid [OF v' c this] v' show ?thesis
    by (auto simp: sample_invoke_facts)
qed

end
