(* ===== verification/Tx_Pool.thy ===== *)
theory Tx_Pool
  imports Pool_Refinement Tx_Validator
begin

text \<open>
  The pool Katana runs, \<open>TxPool\<close> of \<open>pool/src/lib.rs\<close>: executable transactions, the stateful
  validator and the first-come-first-served ordering.  The properties here need the pool and the
  validator together.
\<close>

definition tx_pool_env ::
  "'cls perform_validations \<Rightarrow> (tx_hash \<Rightarrow> 'l \<Rightarrow> try_send_result \<times> 'l)
    \<Rightarrow> (('cls executable_tx_with_hash, tx_submission_nonce) pending_tx \<Rightarrow> 's \<Rightarrow> bool \<times> 's)
    \<Rightarrow> ('cls executable_tx_with_hash, tx_submission_nonce, 'cls validator_inner, fifo, boxed_error, 'l, 's)
        pool_env" where
  "tx_pool_env perform try_send send = fifo_env executable_pool_tx (tx_validate perform) try_send send"

lemma tx_pool_env_sel [simp]:
  "env_tx (tx_pool_env perform ts se) = executable_pool_tx"
  "env_validate (tx_pool_env perform ts se) = tx_validate perform"
  "env_priority (tx_pool_env perform ts se) = fifo_priority"
  "env_cmp (tx_pool_env perform ts se) = submission_nonce_cmp"
  by (simp_all add: tx_pool_env_def fifo_env_def)

lemma executable_pool_tx_sel [simp]:
  "pt_hash executable_pool_tx = et_hash"
  "pt_nonce executable_pool_tx tx = executable_nonce (et_transaction tx)"
  "pt_sender executable_pool_tx tx = executable_sender (et_transaction tx)"
  by (simp_all add: executable_pool_tx_def)

text \<open>Adding a list of transactions, and the results.\<close>

fun add_all ::
  "('t, 'p, 'v, 'o, 'e, 'l, 's) pool_env \<Rightarrow> 't list \<Rightarrow> ('t, 'p, 'v, 'o, 'l, 's) pool
    \<Rightarrow> ((tx_hash, 'e) pool_result list \<times> ('t, 'p, 'v, 'o, 'l, 's) pool) option" where
  "add_all E [] p = Some ([], p)"
| "add_all E (tx # txs) p =
     (case add_transaction E tx p of
        None \<Rightarrow> None
      | Some (r, p') \<Rightarrow> map_option (\<lambda>(rs, p''). (r # rs, p'')) (add_all E txs p'))"

text \<open>The checks of a transaction other than that of its nonce.\<close>

definition account_accepts ::
  "'cls perform_validations \<Rightarrow> 'cls validator_inner \<Rightarrow> 'cls executable_tx_with_hash \<Rightarrow> bool" where
  "account_accepts perform v tx \<longleftrightarrow>
     declare_check v tx = None \<and>
     account_validate perform v tx (\<not> ef_account_validation (vi_execution_flags v))
       (\<not> ef_fee (vi_execution_flags v)) = Ok (Valid tx)"

fun nonces_from :: "contract_address \<Rightarrow> nonce \<Rightarrow> 'cls executable_tx_with_hash list \<Rightarrow> bool" where
  "nonces_from a n [] \<longleftrightarrow> True"
| "nonces_from a n (tx # txs) \<longleftrightarrow>
     executable_nonce (et_transaction tx) = Some n \<and> executable_sender (et_transaction tx) = a \<and>
     nonces_from a (n + 1) txs"

lemma account_accepts_pool_nonces:
  "account_accepts perform (v\<lparr>vi_pool_nonces := m\<rparr>) tx = account_accepts perform v tx"
  by (simp add: account_accepts_def account_validate_pool_nonces declare_check_pool_nonces)

section \<open>Properties\<close>

text \<open>C22: An account can always make progress: transactions with consecutive nonces, starting at the
  one the validator expects, are all accepted, in one go and in this order, when the account
  accepts each of them; none is turned away because the previous ones are still in the pool.\<close>

theorem consecutive_nonces_accepted:
  assumes "nonces_from a c txs" "current_nonce (po_validator p) a = Some c"
    "\<forall>tx \<in> set txs. account_accepts perform (po_validator p) tx"
  shows "\<exists>p'. add_all (tx_pool_env perform try_send send) txs p = Some (map (Ok \<circ> et_hash) txs, p')"
  using assms
proof (induction txs arbitrary: c p)
  case Nil
  then show ?case by simp
next
  case (Cons tx txs)
  let ?v = "po_validator p" and ?E = "tx_pool_env perform try_send send"
  let ?v' = "?v\<lparr>vi_pool_nonces := (vi_pool_nonces ?v)(a \<mapsto> c + 1)\<rparr>"
  have n: "executable_nonce (et_transaction tx) = Some c" "executable_sender (et_transaction tx) = a"
    "nonces_from a (c + 1) txs"
    using Cons.prems(1) by simp_all
  have ok: "declare_check ?v tx = None"
    "account_validate perform ?v tx (\<not> ef_account_validation (vi_execution_flags ?v))
       (\<not> ef_fee (vi_execution_flags ?v)) = Ok (Valid tx)"
    using Cons.prems(3) by (simp_all add: account_accepts_def)
  have valid: "env_validate ?E ?v tx = Some (Ok (Valid tx), ?v')"
    using tx_validate_eq [OF n(1) ok(1), of c perform] Cons.prems(2) ok(2) by (simp add: n)
  obtain p' where p': "add_transaction ?E tx p = Some (Ok (et_hash tx), p')" "po_validator p' = ?v'"
    using add_transaction_valid [where E = ?E and p = p and nonce = c, OF _ valid] n(1) by auto
  have "\<exists>p''. add_all ?E txs p' = Some (map (Ok \<circ> et_hash) txs, p'')"
    using Cons.prems(3)
    by (intro Cons.IH [OF n(3)]) (simp_all add: p'(2) current_nonce_def account_accepts_pool_nonces)
  with p'(1) show ?case by auto
qed

text \<open>Three invocations of one account that all wait in the pool.\<close>

theorem consecutive_nonces_accepted_witness:
  "\<exists>p'. add_all (tx_pool_env (\<lambda>_ _ _ _ _ _. Ok ()) deaf_try_send deaf_send)
      [sample_invoke 0, sample_invoke (0 + 1), sample_invoke (0 + 1 + 1)] (pool_new sample_validator fifo_new)
    = Some ([Ok 0, Ok (0 + 1), Ok (0 + 1 + 1)], p')"
proof -
  let ?txs = "[sample_invoke 0, sample_invoke (0 + 1), sample_invoke (0 + 1 + 1)]"
  let ?p = "pool_new sample_validator fifo_new
    :: (nat executable_tx_with_hash, tx_submission_nonce, nat validator_inner, fifo, unit, unit) pool"
  have "nonces_from 1 0 ?txs" by (simp add: sample_invoke_facts)
  moreover have "current_nonce (po_validator ?p) 1 = Some 0"
    by (simp add: current_nonce_def sample_validator_def tx_validator_new_def pool_new_def)
  moreover have "\<forall>tx \<in> set ?txs. account_accepts (\<lambda>_ _ _ _ _ _. Ok ()) (po_validator ?p) tx"
    by (simp add: account_accepts_def sample_invoke_facts)
       (simp add: account_validate_def sample_invoke_def)
  ultimately show ?thesis
    using consecutive_nonces_accepted [of 1 0 ?txs ?p "\<lambda>_ _ _ _ _ _. Ok ()" deaf_try_send deaf_send]
    by (simp add: sample_invoke_def)
qed

text \<open>C32: A transaction that handles a message from L1 is subject to the nonce check of accounts: when
  the nonce of the message is above the nonce expected of the contract it is sent to, the pool
  refuses it with an invalid nonce, although such a transaction needs no validation and message
  nonces are not account nonces.\<close>

theorem l1_handler_nonce_gated:
  assumes "et_transaction tx = ExL1Handler l1"
    "current_nonce (po_validator p) (l1_contract_address l1) = Some c" "c < l1_nonce l1"
  shows "add_transaction (tx_pool_env perform try_send send) tx p =
    Some (Err (InvalidTransaction (InvalidNonce (l1_contract_address l1) c (l1_nonce l1))), p)"
proof -
  have "tx_validate perform (po_validator p) tx
      = Some (Ok (Dependent tx (l1_nonce l1) c), po_validator p)"
    using tx_validate_eq [of tx "l1_nonce l1" "po_validator p" c perform] assms
    by (simp add: declare_check_def)
  then show ?thesis
    using assms(1) by (simp add: add_transaction_def)
qed

text \<open>The second message to a contract whose nonce is zero.\<close>

theorem l1_handler_nonce_gated_witness:
  "add_transaction (tx_pool_env (\<lambda>_ _ _ _ _ _. Ok ()) deaf_try_send deaf_send)
     \<lparr>et_hash = 1, et_transaction = ExL1Handler \<lparr>l1_nonce = 1, l1_chain_id = Named Sepolia,
        l1_paid_fee_on_l1 = 0, l1_version = 0, l1_message_hash = [], l1_calldata = [],
        l1_contract_address = 1, l1_entry_point_selector = 0\<rparr>\<rparr>
     (pool_new sample_validator fifo_new)
   = Some (Err (InvalidTransaction (InvalidNonce 1 0 1)), pool_new sample_validator fifo_new)"
proof -
  let ?l1 = "\<lparr>l1_nonce = 1, l1_chain_id = Named Sepolia,
        l1_paid_fee_on_l1 = 0, l1_version = 0, l1_message_hash = [], l1_calldata = [],
        l1_contract_address = 1, l1_entry_point_selector = 0\<rparr>"
  let ?p = "pool_new sample_validator fifo_new
    :: (nat executable_tx_with_hash, tx_submission_nonce, nat validator_inner, fifo, unit, unit) pool"
  have "current_nonce (po_validator ?p) (l1_contract_address ?l1) = Some 0"
    by (simp add: current_nonce_def sample_validator_def tx_validator_new_def pool_new_def)
  moreover have "0 < l1_nonce ?l1"
    by (simp add: felt_less_iff one_felt.rep_eq zero_felt.rep_eq)
  ultimately show ?thesis
    using l1_handler_nonce_gated [of "\<lparr>et_hash = 1, et_transaction = ExL1Handler ?l1\<rparr>" ?l1 ?p 0] by simp
qed

end
