(* ===== verification/Receipt.thy ===== *)
theory Receipt
  imports Tx
begin

text \<open>
  Receipts (\<open>primitives/src/receipt.rs\<close>), the fee information (\<open>fee.rs\<close>) and the resources they
  report (\<open>trace.rs\<close>), with the hash of a receipt.  The names of the builtins belong to the Cairo
  VM; they stand here as strings.  Poseidon and the Starknet Keccak hash are parameters.
\<close>

datatype price_unit = Wei | Fri

record tx_fee_info =
  fee_gas_consumed :: u128
  fee_gas_price :: u128
  fee_overall_fee :: u128
  fee_unit :: price_unit

record event =
  ev_from_address :: contract_address
  ev_keys :: "felt list"
  ev_data :: "felt list"

record message_to_l1 =
  msg_from_address :: contract_address
  msg_to_address :: felt
  msg_payload :: "felt list"

section \<open>Resources\<close>

type_synonym builtin_name = string

type_synonym builtin_counters = "builtin_name \<rightharpoonup> u64"

definition builtin_counters_from :: "(builtin_name \<rightharpoonup> u64) \<Rightarrow> builtin_counters" where
  "builtin_counters_from m b = 
     (case m b of Some n \<Rightarrow> if n \<noteq> 0 then Some n else None | None \<Rightarrow> None)"

definition builtin :: "builtin_counters \<Rightarrow> builtin_name \<Rightarrow> u64 option" where
  "builtin counters b = counters b"

record execution_resources =
  er_n_steps :: u64
  er_n_memory_holes :: u64
  er_builtin_instance_counter :: builtin_counters

record l1_gas =
  lg_l1_gas :: u128
  lg_l1_data_gas :: u128

record tx_resources =
  tr_n_reverted_steps :: u64
  tr_vm_resources :: execution_resources
  tr_data_availability :: l1_gas
  tr_total_gas_consumed :: l1_gas

definition tx_resources_default :: tx_resources where
  "tx_resources_default =
     \<lparr>tr_n_reverted_steps = 0,
      tr_vm_resources =
        \<lparr>er_n_steps = 0, er_n_memory_holes = 0, er_builtin_instance_counter = Map.empty\<rparr>,
      tr_data_availability = \<lparr>lg_l1_gas = 0, lg_l1_data_gas = 0\<rparr>,
      tr_total_gas_consumed = \<lparr>lg_l1_gas = 0, lg_l1_data_gas = 0\<rparr>\<rparr>"

section \<open>Receipts\<close>

record invoke_tx_receipt =
  ir_fee :: tx_fee_info
  ir_events :: "event list"
  ir_messages_sent :: "message_to_l1 list"
  ir_revert_error :: "string option"
  ir_execution_resources :: tx_resources

record declare_tx_receipt =
  dr_fee :: tx_fee_info
  dr_events :: "event list"
  dr_messages_sent :: "message_to_l1 list"
  dr_revert_error :: "string option"
  dr_execution_resources :: tx_resources

record l1_handler_tx_receipt =
  lr_fee :: tx_fee_info
  lr_events :: "event list"
  lr_message_hash :: bytes
  lr_messages_sent :: "message_to_l1 list"
  lr_revert_error :: "string option"
  lr_execution_resources :: tx_resources

record deploy_account_tx_receipt =
  ar_fee :: tx_fee_info
  ar_events :: "event list"
  ar_messages_sent :: "message_to_l1 list"
  ar_revert_error :: "string option"
  ar_execution_resources :: tx_resources
  ar_contract_address :: contract_address

datatype receipt =
    RctInvoke invoke_tx_receipt | RctDeclare declare_tx_receipt
  | RctL1Handler l1_handler_tx_receipt | RctDeployAccount deploy_account_tx_receipt

primrec revert_reason :: "receipt \<Rightarrow> string option" where
  "revert_reason (RctInvoke rct) = ir_revert_error rct"
| "revert_reason (RctDeclare rct) = dr_revert_error rct"
| "revert_reason (RctL1Handler rct) = lr_revert_error rct"
| "revert_reason (RctDeployAccount rct) = ar_revert_error rct"

definition is_reverted :: "receipt \<Rightarrow> bool" where
  "is_reverted rct \<longleftrightarrow> revert_reason rct \<noteq> None"

primrec messages_sent :: "receipt \<Rightarrow> message_to_l1 list" where
  "messages_sent (RctInvoke rct) = ir_messages_sent rct"
| "messages_sent (RctDeclare rct) = dr_messages_sent rct"
| "messages_sent (RctL1Handler rct) = lr_messages_sent rct"
| "messages_sent (RctDeployAccount rct) = ar_messages_sent rct"

primrec receipt_events :: "receipt \<Rightarrow> event list" where
  "receipt_events (RctInvoke rct) = ir_events rct"
| "receipt_events (RctDeclare rct) = dr_events rct"
| "receipt_events (RctL1Handler rct) = lr_events rct"
| "receipt_events (RctDeployAccount rct) = ar_events rct"

primrec resources_used :: "receipt \<Rightarrow> tx_resources" where
  "resources_used (RctInvoke rct) = ir_execution_resources rct"
| "resources_used (RctDeclare rct) = dr_execution_resources rct"
| "resources_used (RctL1Handler rct) = lr_execution_resources rct"
| "resources_used (RctDeployAccount rct) = ar_execution_resources rct"

primrec receipt_fee :: "receipt \<Rightarrow> tx_fee_info" where
  "receipt_fee (RctInvoke rct) = ir_fee rct"
| "receipt_fee (RctDeclare rct) = dr_fee rct"
| "receipt_fee (RctL1Handler rct) = lr_fee rct"
| "receipt_fee (RctDeployAccount rct) = ar_fee rct"

section \<open>The hash of a receipt\<close>

record receipt_with_tx_hash =
  rth_tx_hash :: tx_hash
  rth_receipt :: receipt

definition receipt_with_tx_hash_new :: "tx_hash \<Rightarrow> receipt \<Rightarrow> receipt_with_tx_hash" where
  "receipt_with_tx_hash_new hash rct = \<lparr>rth_tx_hash = hash, rth_receipt = rct\<rparr>"

definition compute_messages_to_l1_hash ::
  "(felt list \<Rightarrow> felt) \<Rightarrow> receipt_with_tx_hash \<Rightarrow> felt" where
  "compute_messages_to_l1_hash poseidon r =
     (let messages = messages_sent (rth_receipt r) in
      poseidon (fold (\<lambda>msg acc.
          (let payload_hash = poseidon (felt_len (msg_payload msg) # msg_payload msg)
           in acc @ [msg_from_address msg, msg_to_address msg, payload_hash]))
        messages [felt_len messages]))"

definition receipt_compute_hash ::
  "(felt list \<Rightarrow> felt) \<Rightarrow> (string \<Rightarrow> felt) \<Rightarrow> receipt_with_tx_hash \<Rightarrow> felt" where
  "receipt_compute_hash poseidon starknet_keccak r =
     (let messages_hash = compute_messages_to_l1_hash poseidon r;
          revert_reason_hash =
            (case revert_reason (rth_receipt r) of
               Some reason \<Rightarrow> starknet_keccak reason
             | None \<Rightarrow> 0)
      in poseidon
           [rth_tx_hash r, felt (unat (fee_overall_fee (receipt_fee (rth_receipt r)))),
            messages_hash, revert_reason_hash, 0,
            felt (unat (fee_gas_consumed (receipt_fee (rth_receipt r))))])"

section \<open>What the hash binds\<close>

text \<open>The lists the hash of a receipt runs Poseidon on.  No hash of lists of felts to felts is injective; the
  binding is stated for a hash without collision among the lists at hand.\<close>

definition message_elements :: "(felt list \<Rightarrow> felt) \<Rightarrow> message_to_l1 list \<Rightarrow> felt list" where
  "message_elements poseidon ms =
     felt_len ms # concat (map (\<lambda>msg. [msg_from_address msg, msg_to_address msg,
       poseidon (felt_len (msg_payload msg) # msg_payload msg)]) ms)"

definition payload_inputs :: "message_to_l1 list \<Rightarrow> felt list set" where
  "payload_inputs ms = (\<lambda>msg. felt_len (msg_payload msg) # msg_payload msg) ` set ms"

lemma fold_messages:
  "fold (\<lambda>msg acc. acc @ [msg_from_address msg, msg_to_address msg,
        poseidon (felt_len (msg_payload msg) # msg_payload msg)]) ms acc =
     acc @ concat (map (\<lambda>msg. [msg_from_address msg, msg_to_address msg,
       poseidon (felt_len (msg_payload msg) # msg_payload msg)]) ms)"
  by (induction ms arbitrary: acc) simp_all

lemma messages_hash_elements:
  "compute_messages_to_l1_hash poseidon r = poseidon (message_elements poseidon (messages_sent (rth_receipt r)))"
  by (simp add: compute_messages_to_l1_hash_def message_elements_def fold_messages Let_def)

lemma message_elements_eq:
  assumes "inj_on poseidon (payload_inputs ms \<union> payload_inputs ms')"
    and "message_elements poseidon ms = message_elements poseidon ms'"
  shows "ms = ms'"
proof -
  have "concat (map (\<lambda>msg. [msg_from_address msg, msg_to_address msg,
       poseidon (felt_len (msg_payload msg) # msg_payload msg)]) ms) =
     concat (map (\<lambda>msg. [msg_from_address msg, msg_to_address msg,
       poseidon (felt_len (msg_payload msg) # msg_payload msg)]) ms')"
    using assms(2) by (simp add: message_elements_def)
  with assms(1) show ?thesis
  proof (induction ms arbitrary: ms')
    case Nil
    then show ?case by (cases ms') auto
  next
    case (Cons m ms)
    then obtain m' ms1 where ms': "ms' = m' # ms1" by (cases ms') auto
    have "felt_len (msg_payload m) # msg_payload m = felt_len (msg_payload m') # msg_payload m'"
      using Cons.prems ms' by (intro inj_onD [OF Cons.prems(1)]) (auto simp: payload_inputs_def)
    with Cons.prems(2) ms' have "m = m'" by simp
    moreover have "ms = ms1"
      using Cons.prems ms' by (intro Cons.IH) (auto simp: payload_inputs_def intro: inj_on_subset)
    ultimately show ?case by (simp add: ms')
  qed
qed

end
