(* ===== verification/Gateway.thy ===== *)
theory Gateway
  imports Receipt
begin

text \<open>
  The feeder gateway (\<open>feeder-gateway/src\<close>): the types its endpoints return
  (\<open>types/mod.rs\<close>, \<open>types/transaction.rs\<close>, \<open>types/receipt.rs\<close>), the errors of the client
  (\<open>client.rs\<close>) and the conversions to the primitive types.  The JSON decoding is the serde library; the
  model starts from the decoded values.
\<close>

section \<open>Transactions\<close>

datatype gw_data_availability_mode = GwL1 | GwL2

record gw_resource_bounds =
  grb_max_amount :: u64
  grb_max_price_per_unit :: u128

record gw_resource_bounds_mapping =
  grbm_l1_gas :: gw_resource_bounds
  grbm_l2_gas :: gw_resource_bounds

record raw_l1_handler_tx =
  rl_nonce :: "nonce option"
  rl_version :: felt
  rl_calldata :: "felt list"
  rl_contract_address :: contract_address
  rl_entry_point_selector :: felt

record raw_invoke_tx =
  ri_sender_address :: contract_address
  ri_nonce :: "nonce option"
  ri_entry_point_selector :: "felt option"
  ri_calldata :: "felt list"
  ri_signature :: "felt list"
  ri_max_fee :: "u128 option"
  ri_resource_bounds :: "gw_resource_bounds_mapping option"
  ri_tip :: "u64 option"
  ri_paymaster_data :: "felt list option"
  ri_account_deployment_data :: "felt list option"
  ri_nonce_data_availability_mode :: "gw_data_availability_mode option"
  ri_fee_data_availability_mode :: "gw_data_availability_mode option"
  ri_version :: felt

record raw_declare_tx =
  rd_sender_address :: contract_address
  rd_nonce :: felt
  rd_signature :: "felt list"
  rd_class_hash :: class_hash
  rd_compiled_class_hash :: "compiled_class_hash option"
  rd_max_fee :: "u128 option"
  rd_resource_bounds :: "gw_resource_bounds_mapping option"
  rd_tip :: "u64 option"
  rd_paymaster_data :: "felt list option"
  rd_account_deployment_data :: "felt list option"
  rd_nonce_data_availability_mode :: "gw_data_availability_mode option"
  rd_fee_data_availability_mode :: "gw_data_availability_mode option"
  rd_version :: felt

record raw_deploy_account_tx =
  ra_nonce :: nonce
  ra_signature :: "felt list"
  ra_class_hash :: class_hash
  ra_contract_address :: "contract_address option"
  ra_contract_address_salt :: felt
  ra_constructor_calldata :: "felt list"
  ra_max_fee :: "u128 option"
  ra_resource_bounds :: "gw_resource_bounds_mapping option"
  ra_tip :: "u64 option"
  ra_paymaster_data :: "felt list option"
  ra_nonce_data_availability_mode :: "gw_data_availability_mode option"
  ra_fee_data_availability_mode :: "gw_data_availability_mode option"
  ra_version :: felt

datatype typed_transaction =
    TyDeployTx deploy_tx
  | TyDeclareTx raw_declare_tx
  | TyL1HandlerTx raw_l1_handler_tx
  | TyInvokeFunctionTx raw_invoke_tx
  | TyDeployAccountTx raw_deploy_account_tx

record confirmed_transaction =
  ct_hash :: tx_hash
  ct_tx :: typed_transaction

datatype tx_try_from_error =
    UnsupportedVersion tx_type felt
  | MissingTip | MissingPaymasterData | MissingEntryPointSelector | MissingNonce | MissingMaxFee
  | MissingResourceBounds | MissingAccountDeploymentData | MissingNonceDA | MissingFeeDA
  | MissingCompiledClassHashField

primrec da_mode_from_gw :: "gw_data_availability_mode \<Rightarrow> data_availability_mode" where
  "da_mode_from_gw GwL1 = DaL1"
| "da_mode_from_gw GwL2 = DaL2"

definition resource_bounds_from_gw :: "gw_resource_bounds_mapping \<Rightarrow> resource_bounds_mapping" where
  "resource_bounds_from_gw b =
     \<lparr>rbm_l1_gas =
        \<lparr>rb_max_amount = grb_max_amount (grbm_l1_gas b),
         rb_max_price_per_unit = grb_max_price_per_unit (grbm_l1_gas b)\<rparr>,
      rbm_l2_gas =
        \<lparr>rb_max_amount = grb_max_amount (grbm_l2_gas b),
         rb_max_price_per_unit = grb_max_price_per_unit (grbm_l2_gas b)\<rparr>\<rparr>"

definition b256_zero :: bytes where
  "b256_zero = replicate 32 0"

definition l1_handler_from_raw :: "raw_l1_handler_tx \<Rightarrow> l1_handler_tx" where
  "l1_handler_from_raw v =
     \<lparr>l1_nonce = (case rl_nonce v of None \<Rightarrow> 0 | Some n \<Rightarrow> n), l1_chain_id = chain_id_default,
      l1_paid_fee_on_l1 = 0, l1_version = rl_version v, l1_message_hash = b256_zero,
      l1_calldata = rl_calldata v, l1_contract_address = rl_contract_address v,
      l1_entry_point_selector = rl_entry_point_selector v\<rparr>"

definition invoke_from_raw :: "raw_invoke_tx \<Rightarrow> (invoke_tx, tx_try_from_error) result" where
  "invoke_from_raw v =
     (if ri_version v = felt 0 then
        and_then (ok_or (ri_max_fee v) MissingMaxFee) (\<lambda>max_fee.
        and_then (ok_or (ri_entry_point_selector v) MissingEntryPointSelector) (\<lambda>selector.
        Ok (InvokeV0
          \<lparr>i0_contract_address = ri_sender_address v, i0_entry_point_selector = selector,
           i0_calldata = ri_calldata v, i0_signature = ri_signature v, i0_max_fee = max_fee\<rparr>)))
      else if ri_version v = felt 1 then
        and_then (ok_or (ri_nonce v) MissingNonce) (\<lambda>nonce.
        and_then (ok_or (ri_max_fee v) MissingMaxFee) (\<lambda>max_fee.
        Ok (InvokeV1
          \<lparr>i1_chain_id = chain_id_default, i1_sender_address = ri_sender_address v,
           i1_nonce = nonce, i1_calldata = ri_calldata v, i1_signature = ri_signature v,
           i1_max_fee = max_fee\<rparr>)))
      else if ri_version v = felt 3 then
        and_then (ok_or (ri_tip v) MissingTip) (\<lambda>tip.
        and_then (ok_or (ri_paymaster_data v) MissingPaymasterData) (\<lambda>paymaster_data.
        and_then (ok_or (ri_resource_bounds v) MissingResourceBounds) (\<lambda>bounds.
        and_then (ok_or (ri_account_deployment_data v) MissingAccountDeploymentData) (\<lambda>deployment.
        and_then (ok_or (ri_nonce_data_availability_mode v) MissingNonceDA) (\<lambda>nonce_da.
        and_then (ok_or (ri_fee_data_availability_mode v) MissingFeeDA) (\<lambda>fee_da.
        and_then (ok_or (ri_nonce v) MissingNonce) (\<lambda>nonce.
        Ok (InvokeV3
          \<lparr>i3_chain_id = chain_id_default, i3_sender_address = ri_sender_address v,
           i3_nonce = nonce, i3_calldata = ri_calldata v, i3_signature = ri_signature v,
           i3_resource_bounds = resource_bounds_from_gw bounds, i3_tip = tip,
           i3_paymaster_data = paymaster_data, i3_account_deployment_data = deployment,
           i3_nonce_data_availability_mode = da_mode_from_gw nonce_da,
           i3_fee_data_availability_mode = da_mode_from_gw fee_da\<rparr>))))))))
      else Err (UnsupportedVersion TyInvoke (ri_version v)))"

definition declare_from_raw :: "raw_declare_tx \<Rightarrow> (declare_tx, tx_try_from_error) result" where
  "declare_from_raw v =
     (if rd_version v = felt 0 then
        and_then (ok_or (rd_max_fee v) MissingMaxFee) (\<lambda>max_fee.
        Ok (DeclareV0
          \<lparr>d0_chain_id = chain_id_default, d0_sender_address = rd_sender_address v,
           d0_signature = rd_signature v, d0_class_hash = rd_class_hash v, d0_max_fee = max_fee\<rparr>))
      else if rd_version v = felt 1 then
        and_then (ok_or (rd_max_fee v) MissingMaxFee) (\<lambda>max_fee.
        Ok (DeclareV1
          \<lparr>d1_chain_id = chain_id_default, d1_sender_address = rd_sender_address v,
           d1_nonce = rd_nonce v, d1_signature = rd_signature v, d1_class_hash = rd_class_hash v,
           d1_max_fee = max_fee\<rparr>))
      else if rd_version v = felt 2 then
        and_then (ok_or (rd_compiled_class_hash v) MissingCompiledClassHashField) (\<lambda>compiled.
        and_then (ok_or (rd_max_fee v) MissingMaxFee) (\<lambda>max_fee.
        Ok (DeclareV2
          \<lparr>d2_chain_id = chain_id_default, d2_sender_address = rd_sender_address v,
           d2_nonce = rd_nonce v, d2_signature = rd_signature v, d2_class_hash = rd_class_hash v,
           d2_compiled_class_hash = compiled, d2_max_fee = max_fee\<rparr>)))
      else if rd_version v = felt 3 then
        and_then (ok_or (rd_resource_bounds v) MissingResourceBounds) (\<lambda>bounds.
        and_then (ok_or (rd_tip v) MissingTip) (\<lambda>tip.
        and_then (ok_or (rd_paymaster_data v) MissingPaymasterData) (\<lambda>paymaster_data.
        and_then (ok_or (rd_account_deployment_data v) MissingAccountDeploymentData) (\<lambda>deployment.
        and_then (ok_or (rd_nonce_data_availability_mode v) MissingNonceDA) (\<lambda>nonce_da.
        and_then (ok_or (rd_fee_data_availability_mode v) MissingFeeDA) (\<lambda>fee_da.
        and_then (ok_or (rd_compiled_class_hash v) MissingCompiledClassHashField) (\<lambda>compiled.
        Ok (DeclareV3
          \<lparr>d3_chain_id = chain_id_default, d3_sender_address = rd_sender_address v,
           d3_nonce = rd_nonce v, d3_signature = rd_signature v, d3_class_hash = rd_class_hash v,
           d3_compiled_class_hash = compiled, d3_resource_bounds = resource_bounds_from_gw bounds,
           d3_tip = tip, d3_paymaster_data = paymaster_data,
           d3_account_deployment_data = deployment,
           d3_nonce_data_availability_mode = da_mode_from_gw nonce_da,
           d3_fee_data_availability_mode = da_mode_from_gw fee_da\<rparr>))))))))
      else Err (UnsupportedVersion TyDeclare (rd_version v)))"

definition deploy_account_from_raw ::
  "raw_deploy_account_tx \<Rightarrow> (deploy_account_tx, tx_try_from_error) result" where
  "deploy_account_from_raw v =
     (let address = (case ra_contract_address v of None \<Rightarrow> 0 | Some a \<Rightarrow> a) in
      if ra_version v = felt 1 then
        and_then (ok_or (ra_max_fee v) MissingMaxFee) (\<lambda>max_fee.
        Ok (DeployAccountV1
          \<lparr>da1_chain_id = chain_id_default, da1_nonce = ra_nonce v,
           da1_signature = ra_signature v, da1_class_hash = ra_class_hash v,
           da1_contract_address = address, da1_contract_address_salt = ra_contract_address_salt v,
           da1_constructor_calldata = ra_constructor_calldata v, da1_max_fee = max_fee\<rparr>))
      else if ra_version v = felt 3 then
        and_then (ok_or (ra_resource_bounds v) MissingResourceBounds) (\<lambda>bounds.
        and_then (ok_or (ra_tip v) MissingTip) (\<lambda>tip.
        and_then (ok_or (ra_paymaster_data v) MissingPaymasterData) (\<lambda>paymaster_data.
        and_then (ok_or (ra_nonce_data_availability_mode v) MissingNonceDA) (\<lambda>nonce_da.
        and_then (ok_or (ra_fee_data_availability_mode v) MissingFeeDA) (\<lambda>fee_da.
        Ok (DeployAccountV3
          \<lparr>da3_chain_id = chain_id_default, da3_nonce = ra_nonce v,
           da3_signature = ra_signature v, da3_class_hash = ra_class_hash v,
           da3_contract_address = address, da3_contract_address_salt = ra_contract_address_salt v,
           da3_constructor_calldata = ra_constructor_calldata v,
           da3_resource_bounds = resource_bounds_from_gw bounds, da3_tip = tip,
           da3_paymaster_data = paymaster_data,
           da3_nonce_data_availability_mode = da_mode_from_gw nonce_da,
           da3_fee_data_availability_mode = da_mode_from_gw fee_da\<rparr>))))))
      else Err (UnsupportedVersion TyDeployAccount (ra_version v)))"

definition tx_try_from ::
  "confirmed_transaction \<Rightarrow> (tx tx_with_hash, tx_try_from_error) result" where
  "tx_try_from c =
     map_ok (\<lambda>t. \<lparr>twh_hash = ct_hash c, twh_transaction = t\<rparr>)
       (case ct_tx c of
          TyDeployTx t \<Rightarrow> Ok (TxDeploy t)
        | TyDeclareTx t \<Rightarrow> map_ok TxDeclare (declare_from_raw t)
        | TyL1HandlerTx t \<Rightarrow> Ok (TxL1Handler (l1_handler_from_raw t))
        | TyInvokeFunctionTx t \<Rightarrow> map_ok TxInvoke (invoke_from_raw t)
        | TyDeployAccountTx t \<Rightarrow> map_ok TxDeployAccount (deploy_account_from_raw t))"

section \<open>Receipts, blocks and state updates\<close>

datatype execution_status = Succeeded | Reverted

record gw_data_availability_resources =
  gda_l1_gas :: u64
  gda_l1_data_gas :: u64

record gw_execution_resources =
  ger_vm_resources :: execution_resources
  ger_data_availability :: "gw_data_availability_resources option"

record l1_to_l2_message =
  l2m_from_address :: bytes
  l2m_to_address :: felt
  l2m_selector :: felt
  l2m_payload :: "felt list"
  l2m_nonce :: "felt option"

record confirmed_receipt =
  cr_transaction_hash :: felt
  cr_transaction_index :: u64
  cr_execution_status :: "execution_status option"
  cr_revert_error :: "string option"
  cr_execution_resources :: "gw_execution_resources option"
  cr_l1_to_l2_consumed_message :: "l1_to_l2_message option"
  cr_l2_to_l1_messages :: "message_to_l1 list"
  cr_events :: "event list"
  cr_actual_fee :: felt

record storage_diff =
  sd_key :: storage_key
  sd_value :: storage_value

record deployed_contract =
  dc_address :: contract_address
  dc_class_hash :: felt

record declared_contract =
  dcl_class_hash :: class_hash
  dcl_compiled_class_hash :: compiled_class_hash

record gw_state_diff =
  gsd_storage_diffs :: "(contract_address, storage_diff list) ordered_map"
  gsd_deployed_contracts :: "deployed_contract list"
  gsd_old_declared_contracts :: "felt list"
  gsd_declared_classes :: "declared_contract list"
  gsd_nonces :: "(contract_address, nonce) ordered_map"
  gsd_replaced_classes :: "deployed_contract list"

record gw_state_update =
  gsu_block_hash :: "felt option"
  gsu_new_root :: "felt option"
  gsu_old_root :: felt
  gsu_state_diff :: gw_state_diff

text \<open>\<open>BlockStatus\<close> and \<open>ResourcePrice\<close> are types of the Starknet crate.\<close>

datatype gw_block_status =
  GwPending | GwAborted | GwReverted | GwAcceptedOnL2 | GwAcceptedOnL1

record resource_price =
  rp_price_in_fri :: felt
  rp_price_in_wei :: felt

record gw_block =
  gb_block_hash :: "block_hash option"
  gb_block_number :: "block_number option"
  gb_parent_block_hash :: block_hash
  gb_timestamp :: u64
  gb_sequencer_address :: "contract_address option"
  gb_state_root :: "felt option"
  gb_transaction_commitment :: "felt option"
  gb_event_commitment :: "felt option"
  gb_status :: gw_block_status
  gb_l1_da_mode :: l1_da_mode
  gb_l1_gas_price :: resource_price
  gb_l1_data_gas_price :: resource_price
  gb_transactions :: "confirmed_transaction list"
  gb_transaction_receipts :: "confirmed_receipt list"
  gb_starknet_version :: "protocol_version option"

record state_update_with_block =
  sub_state_update :: gw_state_update
  sub_block :: gw_block

text \<open>The class endpoint; \<open>sierra\<close> is the conversion of an RPC class, which is not part of the feeder
  gateway.\<close>

datatype ('rpc, 'legacy) gw_contract_class = GwClass 'rpc | GwLegacy 'legacy

datatype ('sierra, 'legacy) contract_class = Class 'sierra | Legacy 'legacy

definition contract_class_try_from ::
  "('rpc \<Rightarrow> ('sierra, 'e) result) \<Rightarrow> ('rpc, 'legacy) gw_contract_class
    \<Rightarrow> (('sierra, 'legacy) contract_class, 'e) result" where
  "contract_class_try_from sierra v =
     (case v of
        GwLegacy class \<Rightarrow> Ok (Legacy class)
      | GwClass class \<Rightarrow> map_ok Class (sierra class))"

definition state_updates_from_diff :: "gw_state_diff \<Rightarrow> state_updates" where
  "state_updates_from_diff v =
     (let storage_updates =
            om_collect (map (\<lambda>(addr, diffs).
              (addr, om_collect (map (\<lambda>diff. (sd_key diff, sd_value diff)) diffs)))
              (gsd_storage_diffs v));
          deployed = om_collect (map (\<lambda>c. (dc_address c, dc_class_hash c)) (gsd_deployed_contracts v));
          declared =
            om_collect (map (\<lambda>c. (dcl_class_hash c, dcl_compiled_class_hash c)) (gsd_declared_classes v));
          replaced = om_collect (map (\<lambda>c. (dc_address c, dc_class_hash c)) (gsd_replaced_classes v))
      in \<lparr>nonce_updates = gsd_nonces v, storage_updates = storage_updates,
          deployed_contracts = deployed, declared_classes = declared,
          deprecated_declared_classes =
            om_keys (om_collect (map (\<lambda>h. (h, ())) (gsd_old_declared_contracts v))),
          replaced_classes = replaced\<rparr>)"

section \<open>The client\<close>

datatype error_code =
    BlockNotFound | EntryPointNotFoundInContract | InvalidProgram | TransactionFailed
  | TransactionNotFound | UninitializedContract | MalformedRequest | UndeclaredClass
  | InvalidTransactionNonce | ValidateFailure | ClassAlreadyDeclared | CompilationFailed
  | InvalidCompiledClassHash | DuplicatedTransaction | InvalidContractClass | DeprecatedEndpoint

record sequencer_error =
  seq_code :: error_code
  seq_message :: string

datatype client_error =
    Network string
  | Sequencer sequencer_error
  | InvalidHeaderValue string
  | RateLimited

definition is_rate_limited :: "client_error \<Rightarrow> bool" where
  "is_rate_limited e \<longleftrightarrow> e = RateLimited"

section \<open>What the conversions keep\<close>

primrec typed_version :: "typed_transaction \<Rightarrow> felt" where
  "typed_version (TyDeployTx t) = dep_version t"
| "typed_version (TyDeclareTx t) = rd_version t"
| "typed_version (TyL1HandlerTx t) = rl_version t"
| "typed_version (TyInvokeFunctionTx t) = ri_version t"
| "typed_version (TyDeployAccountTx t) = ra_version t"

text \<open>The fields that a version of a transaction has to carry.\<close>

definition v3_fields where
  "v3_fields bounds tip paymaster nonce_da fee_da \<longleftrightarrow>
     bounds \<noteq> None \<and> tip \<noteq> None \<and> paymaster \<noteq> None \<and> nonce_da \<noteq> None \<and> fee_da \<noteq> None"

primrec typed_complete :: "typed_transaction \<Rightarrow> bool" where
  "typed_complete (TyDeployTx t) \<longleftrightarrow> True"
| "typed_complete (TyL1HandlerTx t) \<longleftrightarrow> True"
| "typed_complete (TyInvokeFunctionTx t) \<longleftrightarrow>
     ri_version t = felt 0 \<and> ri_max_fee t \<noteq> None \<and> ri_entry_point_selector t \<noteq> None \<or>
     ri_version t = felt 1 \<and> ri_max_fee t \<noteq> None \<and> ri_nonce t \<noteq> None \<or>
     ri_version t = felt 3 \<and> ri_nonce t \<noteq> None \<and> ri_account_deployment_data t \<noteq> None \<and>
       v3_fields (ri_resource_bounds t) (ri_tip t) (ri_paymaster_data t)
         (ri_nonce_data_availability_mode t) (ri_fee_data_availability_mode t)"
| "typed_complete (TyDeclareTx t) \<longleftrightarrow>
     (rd_version t = felt 0 \<or> rd_version t = felt 1) \<and> rd_max_fee t \<noteq> None \<or>
     rd_version t = felt 2 \<and> rd_max_fee t \<noteq> None \<and> rd_compiled_class_hash t \<noteq> None \<or>
     rd_version t = felt 3 \<and> rd_compiled_class_hash t \<noteq> None \<and>
       rd_account_deployment_data t \<noteq> None \<and>
       v3_fields (rd_resource_bounds t) (rd_tip t) (rd_paymaster_data t)
         (rd_nonce_data_availability_mode t) (rd_fee_data_availability_mode t)"
| "typed_complete (TyDeployAccountTx t) \<longleftrightarrow>
     ra_version t = felt 1 \<and> ra_max_fee t \<noteq> None \<or>
     ra_version t = felt 3 \<and>
       v3_fields (ra_resource_bounds t) (ra_tip t) (ra_paymaster_data t)
         (ra_nonce_data_availability_mode t) (ra_fee_data_availability_mode t)"

lemma ok_or_eq: "ok_or x e = (case x of None \<Rightarrow> Err e | Some a \<Rightarrow> Ok a)"
  by (cases x) auto

lemma and_then_eq: "and_then r f = (case r of Inl e \<Rightarrow> Err e | Inr a \<Rightarrow> f a)"
  by (cases r) auto

lemmas raw_simps = ok_or_eq and_then_eq v3_fields_def

lemma version_felts:
  "felt 0 \<noteq> felt (Suc 0)" "felt 0 \<noteq> felt 2" "felt 0 \<noteq> felt 3" "felt (Suc 0) \<noteq> felt 2" "felt (Suc 0) \<noteq> felt 3"
  "felt 2 \<noteq> felt 3"
  by (simp_all add: felt_eq_iff stark_prime_def)

lemmas versions = version_felts version_felts [symmetric]

lemma invoke_from_raw_outcome:
  "case invoke_from_raw t of
     Inr tx \<Rightarrow> typed_complete (TyInvokeFunctionTx t) \<and> tx_version (TxInvoke tx) = ri_version t
   | Inl e \<Rightarrow> \<not> typed_complete (TyInvokeFunctionTx t) \<and>
       ((\<exists>ty. e = UnsupportedVersion ty (ri_version t)) \<longleftrightarrow> ri_version t \<notin> {felt 0, felt 1, felt 3})"
proof -
  consider "ri_version t = felt 0" | "ri_version t = felt 1" | "ri_version t = felt 3"
    | "ri_version t \<notin> {felt 0, felt 1, felt 3}" by auto
  then show ?thesis
    by cases (simp_all add: invoke_from_raw_def versions raw_simps split: option.split)
qed

lemma declare_from_raw_outcome:
  "case declare_from_raw t of
     Inr tx \<Rightarrow> typed_complete (TyDeclareTx t) \<and> tx_version (TxDeclare tx) = rd_version t
   | Inl e \<Rightarrow> \<not> typed_complete (TyDeclareTx t) \<and>
       ((\<exists>ty. e = UnsupportedVersion ty (rd_version t)) \<longleftrightarrow>
          rd_version t \<notin> {felt 0, felt 1, felt 2, felt 3})"
proof -
  consider "rd_version t = felt 0" | "rd_version t = felt 1" | "rd_version t = felt 2"
    | "rd_version t = felt 3" | "rd_version t \<notin> {felt 0, felt 1, felt 2, felt 3}" by auto
  then show ?thesis
    by cases (simp_all add: declare_from_raw_def versions raw_simps split: option.split)
qed

lemma deploy_account_from_raw_outcome:
  "case deploy_account_from_raw t of
     Inr tx \<Rightarrow> typed_complete (TyDeployAccountTx t) \<and> tx_version (TxDeployAccount tx) = ra_version t
   | Inl e \<Rightarrow> \<not> typed_complete (TyDeployAccountTx t) \<and>
       ((\<exists>ty. e = UnsupportedVersion ty (ra_version t)) \<longleftrightarrow>
          ra_version t \<notin> {felt 1, felt 3})"
proof -
  consider "ra_version t = felt 1" | "ra_version t = felt 3" | "ra_version t \<notin> {felt 1, felt 3}"
    by auto
  then show ?thesis
    by cases (simp_all add: deploy_account_from_raw_def Let_def versions raw_simps split: option.split)
qed

text \<open>A transaction of the feeder gateway is converted exactly when its version is supported and the
  fields that version needs are present; the converted transaction has the same hash and version.
  A conversion fails with the unsupported version exactly when no version branch exists for it.
  Deploy and L1 handler transactions are always converted.\<close>

theorem tx_try_from_outcome:
  "case tx_try_from c of
     Inr t \<Rightarrow> typed_complete (ct_tx c) \<and> twh_hash t = ct_hash c \<and>
       tx_version (twh_transaction t) = typed_version (ct_tx c)
   | Inl e \<Rightarrow> \<not> typed_complete (ct_tx c) \<and>
       ((\<exists>ty. e = UnsupportedVersion ty (typed_version (ct_tx c))) \<longleftrightarrow>
        (case ct_tx c of
           TyInvokeFunctionTx t \<Rightarrow> ri_version t \<notin> {felt 0, felt 1, felt 3}
         | TyDeclareTx t \<Rightarrow> rd_version t \<notin> {felt 0, felt 1, felt 2, felt 3}
         | TyDeployAccountTx t \<Rightarrow> ra_version t \<notin> {felt 1, felt 3}
         | _ \<Rightarrow> False))"
proof (cases "ct_tx c")
  case (TyDeclareTx t)
  then show ?thesis
    using declare_from_raw_outcome [of t]
    by (cases "declare_from_raw t") (simp_all add: tx_try_from_def del: typed_complete.simps)
next
  case (TyInvokeFunctionTx t)
  then show ?thesis
    using invoke_from_raw_outcome [of t]
    by (cases "invoke_from_raw t") (simp_all add: tx_try_from_def del: typed_complete.simps)
next
  case (TyDeployAccountTx t)
  then show ?thesis
    using deploy_account_from_raw_outcome [of t]
    by (cases "deploy_account_from_raw t") (simp_all add: tx_try_from_def del: typed_complete.simps)
qed (simp_all add: tx_try_from_def l1_handler_from_raw_def)

end
