(* ===== verification/Pipeline.thy ===== *)
theory Pipeline
  imports Block_Writer
begin

text \<open>
  The staged sync pipeline (\<open>sync/pipeline/src/lib.rs\<close>, \<open>sync/stage/src/lib.rs\<close>).  A stage is its
  identifier and its \<open>execute\<close>, which acts on the storage provider and on the rest of the world
  (the feeder gateway, the fields of the stage); it may panic (\<open>None\<close>) and it may fail with an
  error, having changed both.  The provider of the checkpoints is a record of its two operations.

  \<^item> \<open>run_once_until\<close> runs every stage that is behind up to a block;
  \<^item> \<open>run_chunks\<close> is the inner loop of \<open>Pipeline::run\<close>, which advances chunk by chunk up to the
    tip.  It may run forever: \<open>None\<close> is divergence, \<open>Some None\<close> a panic;
  \<^item> \<open>pipeline_run\<close> runs it for the successive values the receiver of the watch channel sees.

  Overflow: Rust panics in a build with overflow checks and wraps in one without them; \<open>oc\<close> says
  which build it is.
\<close>

section \<open>The data\<close>

record stage_execution_input =
  sei_from :: block_number
  sei_to :: block_number

record ('p, 'w, 'e) stage =
  stage_id :: string
  stage_execute :: "stage_execution_input \<Rightarrow> 'p \<Rightarrow> 'w \<Rightarrow> ((unit, 'e) result \<times> 'p \<times> 'w) option"

record 'p checkpoint_provider =
  cp_checkpoint :: "'p \<Rightarrow> string \<Rightarrow> block_number option provider_result"
  cp_set_checkpoint :: "string \<Rightarrow> block_number \<Rightarrow> 'p \<Rightarrow> unit provider_result \<times> 'p"

datatype 'e pipeline_error =
    StageNotFound string
  | StageFailed 'e
  | ProviderFailed provider_error

record ('p, 'w, 'e) pipeline =
  chunk_size :: u64
  provider :: "'p checkpoint_provider"
  stages :: "('p, 'w, 'e) stage list"

definition pipeline_new :: "'p checkpoint_provider \<Rightarrow> u64 \<Rightarrow> ('p, 'w, 'e) pipeline" where
  "pipeline_new cp sz = \<lparr>chunk_size = sz, provider = cp, stages = []\<rparr>"

definition add_stage ::
  "('p, 'w, 'e) stage \<Rightarrow> ('p, 'w, 'e) pipeline \<Rightarrow> ('p, 'w, 'e) pipeline" where
  "add_stage s pl = pl\<lparr>stages := stages pl @ [s]\<rparr>"

definition add_stages ::
  "('p, 'w, 'e) stage list \<Rightarrow> ('p, 'w, 'e) pipeline \<Rightarrow> ('p, 'w, 'e) pipeline" where
  "add_stages ss pl = pl\<lparr>stages := stages pl @ ss\<rparr>"

text \<open>The checkpoints of the persistent provider.\<close>

definition db_checkpoints :: "('tx, 'rcpt, 'trace, 'cls, 'ccls) db checkpoint_provider" where
  "db_checkpoints =
     \<lparr>cp_checkpoint = checkpoint, cp_set_checkpoint = (\<lambda>i n d. (Ok (), set_checkpoint i n d))\<rparr>"

section \<open>The operations\<close>

fun stage_loop ::
  "bool \<Rightarrow> 'p checkpoint_provider \<Rightarrow> u64 \<Rightarrow> block_number \<Rightarrow> (nat \<times> ('p, 'w, 'e) stage) list
    \<Rightarrow> 'p \<Rightarrow> 'w \<Rightarrow> ((block_number, 'e pipeline_error) result \<times> 'p \<times> 'w) option" where
  "stage_loop oc cp last_idx to [] p w = Some (Ok to, p, w)"
| "stage_loop oc cp last_idx to ((i, s) # rest) p w =
     (case cp_checkpoint cp p (stage_id s) of
        Inl e \<Rightarrow> Some (Err (ProviderFailed e), p, w)
      | Inr c \<Rightarrow>
          (let checkpoint = (case c of None \<Rightarrow> 0 | Some n \<Rightarrow> n) in
           if to \<le> checkpoint then
             (if of_nat i = last_idx then Some (Ok checkpoint, p, w)
              else stage_loop oc cp last_idx to rest p w)
           else
             (case rust_add oc checkpoint 1 of
                None \<Rightarrow> None
              | Some from \<Rightarrow>
                  (case stage_execute s \<lparr>sei_from = from, sei_to = to\<rparr> p w of
                     None \<Rightarrow> None
                   | Some (Inl e, p', w') \<Rightarrow> Some (Err (StageFailed e), p', w')
                   | Some (Inr _, p', w') \<Rightarrow>
                       (case cp_set_checkpoint cp (stage_id s) to p' of
                          (Inl e, p'') \<Rightarrow> Some (Err (ProviderFailed e), p'', w')
                        | (Inr _, p'') \<Rightarrow> stage_loop oc cp last_idx to rest p'' w')))))"

definition run_once_until ::
  "bool \<Rightarrow> ('p, 'w, 'e) pipeline \<Rightarrow> block_number \<Rightarrow> 'p \<Rightarrow> 'w
    \<Rightarrow> ((block_number, 'e pipeline_error) result \<times> 'p \<times> 'w) option" where
  "run_once_until oc pl to p w =
     (case rust_sub oc (of_nat (length (stages pl))) 1 of
        None \<Rightarrow> None
      | Some last_idx \<Rightarrow>
          stage_loop oc (provider pl) last_idx to (enumerate 0 (stages pl)) p w)"

text \<open>The inner loop of \<open>Pipeline::run\<close>; the result carries the chunk tip on to the next tip.\<close>

partial_function (option) run_chunks ::
  "bool \<Rightarrow> ('p, 'w, 'e) pipeline \<Rightarrow> block_number \<Rightarrow> block_number \<Rightarrow> 'p \<Rightarrow> 'w
    \<Rightarrow> ((block_number, 'e pipeline_error) result \<times> 'p \<times> 'w) option option" where
  "run_chunks oc pl tip current_chunk_tip p w =
     (case run_once_until oc pl (min current_chunk_tip tip) p w of
        None \<Rightarrow> Some None
      | Some (Inl e, p', w') \<Rightarrow> Some (Some (Err e, p', w'))
      | Some (Inr last_block_processed, p', w') \<Rightarrow>
          if tip \<le> last_block_processed then Some (Some (Ok current_chunk_tip, p', w'))
          else
            (case rust_add oc last_block_processed (chunk_size pl) of
               None \<Rightarrow> Some None
             | Some chunk_end \<Rightarrow> run_chunks oc pl tip (min chunk_end tip) p' w'))"

text \<open>The outer loop, for the values of the watch channel in the order the receiver sees them.
  After the last of them the pipeline waits.\<close>

fun run_tips ::
  "bool \<Rightarrow> ('p, 'w, 'e) pipeline \<Rightarrow> block_number \<Rightarrow> block_number option list \<Rightarrow> 'p \<Rightarrow> 'w
    \<Rightarrow> ((block_number, 'e pipeline_error) result \<times> 'p \<times> 'w) option option" where
  "run_tips oc pl cur [] p w = Some (Some (Ok cur, p, w))"
| "run_tips oc pl cur (None # tips) p w = run_tips oc pl cur tips p w"
| "run_tips oc pl cur (Some tip # tips) p w =
     (case run_chunks oc pl tip cur p w of
        Some (Some (Inr cur', p', w')) \<Rightarrow> run_tips oc pl cur' tips p' w'
      | other \<Rightarrow> other)"

definition pipeline_run ::
  "bool \<Rightarrow> ('p, 'w, 'e) pipeline \<Rightarrow> block_number option list \<Rightarrow> 'p \<Rightarrow> 'w
    \<Rightarrow> ((block_number, 'e pipeline_error) result \<times> 'p \<times> 'w) option option" where
  "pipeline_run oc pl tips p w = run_tips oc pl (chunk_size pl) tips p w"

section \<open>The contract of the checkpoints and of the stages\<close>

text \<open>The checkpoint a stage starts from.\<close>

definition ckpt :: "'p checkpoint_provider \<Rightarrow> 'p \<Rightarrow> string \<Rightarrow> block_number" where
  "ckpt cp p i = (case cp_checkpoint cp p i of Inr (Some n) \<Rightarrow> n | _ \<Rightarrow> 0)"

text \<open>What a stage promises about the blocks it has handled (\<open>handled\<close>).  A faithful stage handles
  the blocks it is asked for in order, and nothing else; it leaves the checkpoints alone.  A
  \<open>tracked\<close> stage may fail half way through; when it succeeds it has handled the blocks it was asked
  for, and it never loses one.\<close>

definition faithful_stage ::
  "'p checkpoint_provider \<Rightarrow> ('p \<times> 'w \<Rightarrow> string \<Rightarrow> nat list) \<Rightarrow> ('p, 'w, 'e) stage \<Rightarrow> bool" where
  "faithful_stage cp handled s \<longleftrightarrow>
     (\<forall>inp p w. sei_from inp \<le> sei_to inp \<longrightarrow>
        (\<exists>p' w'. stage_execute s inp p w = Some (Ok (), p', w') \<and>
           cp_checkpoint cp p' = cp_checkpoint cp p \<and>
           handled (p', w') =
             (handled (p, w))(stage_id s := handled (p, w) (stage_id s) @
                [unat (sei_from inp)..<Suc (unat (sei_to inp))])))"

definition tracked_stage ::
  "'p checkpoint_provider \<Rightarrow> ('p \<times> 'w \<Rightarrow> string \<Rightarrow> nat set) \<Rightarrow> ('p, 'w, 'e) stage \<Rightarrow> bool" where
  "tracked_stage cp handled s \<longleftrightarrow>
     (\<forall>inp p w r p' w'. stage_execute s inp p w = Some (r, p', w') \<longrightarrow>
        cp_checkpoint cp p' = cp_checkpoint cp p \<and>
        (\<forall>i. handled (p, w) i \<subseteq> handled (p', w') i) \<and>
        (\<forall>u. r = Ok u \<longrightarrow> {unat (sei_from inp)..unat (sei_to inp)} \<subseteq> handled (p', w') (stage_id s)))"

locale checkpoint_store =
  fixes cp :: "'p checkpoint_provider"
  assumes checkpoint_total: "\<exists>c. cp_checkpoint cp p i = Ok c"
    and set_checkpoint_ok: "fst (cp_set_checkpoint cp i n p) = Ok ()"
    and checkpoint_set:
      "cp_checkpoint cp (snd (cp_set_checkpoint cp i n p)) =
         (cp_checkpoint cp p)(i := Ok (Some n))"

interpretation db_cp: checkpoint_store db_checkpoints
  by unfold_locales
    (auto simp: db_checkpoints_def checkpoint_def set_checkpoint_def fun_eq_iff table_simps)

text \<open>Setting a checkpoint handles no block.\<close>

definition handled_apart :: "'p checkpoint_provider \<Rightarrow> ('p \<times> 'w \<Rightarrow> 'h) \<Rightarrow> bool" where
  "handled_apart cp handled \<longleftrightarrow>
     (\<forall>i n p w. handled (snd (cp_set_checkpoint cp i n p), w) = handled (p, w))"

section \<open>One round\<close>

lemma upt_chunks:
  "[Suc a..<Suc b] @ [Suc (max a b)..<Suc c] = [Suc a..<Suc (max b c)]"
  using upt_add_eq_append [of "Suc a" "Suc b" "c - b"]
  by (cases "a \<le> b"; cases "b \<le> c") (simp_all add: max_def)

lemma unat_max: "unat (max a b :: u64) = max (unat a) (unat b)"
  by (simp add: max_def word_le_nat_alt)

text \<open>The state after the stages of a pipeline have run up to \<open>to\<close>: the checkpoints are there, and
  every stage has handled the blocks from its old checkpoint on, once each and in order.\<close>

definition advanced ::
  "('p, 'w, 'e) pipeline \<Rightarrow> ('p \<times> 'w \<Rightarrow> string \<Rightarrow> nat list) \<Rightarrow> block_number
    \<Rightarrow> 'p \<times> 'w \<Rightarrow> 'p \<times> 'w \<Rightarrow> bool" where
  "advanced pl handled to s s' \<longleftrightarrow>
     (\<forall>i. let c = ckpt (provider pl) (fst s) i; mine = i \<in> stage_id ` set (stages pl) in
        ckpt (provider pl) (fst s') i = (if mine then max c to else c) \<and>
        handled s' i = handled s i @ (if mine then [Suc (unat c)..<Suc (unat to)] else []))"

lemma advanced_trans:
  "advanced pl handled a s s' \<Longrightarrow> advanced pl handled b s' s'' \<Longrightarrow>
    advanced pl handled (max a b) s s''"
  by (simp add: advanced_def Let_def max.assoc unat_max upt_chunks del: upt_Suc)

definition pipeline_ok ::
  "('p, 'w, 'e) pipeline \<Rightarrow> ('p \<times> 'w \<Rightarrow> string \<Rightarrow> nat list) \<Rightarrow> bool" where
  "pipeline_ok pl handled \<longleftrightarrow>
     stages pl \<noteq> [] \<and> length (stages pl) < 2 ^ 64 \<and> distinct (map stage_id (stages pl)) \<and>
     handled_apart (provider pl) handled \<and>
     (\<forall>s \<in> set (stages pl). faithful_stage (provider pl) handled s)"

abbreviation last_id :: "('p, 'w, 'e) pipeline \<Rightarrow> string" where
  "last_id pl \<equiv> stage_id (last (stages pl))"

text \<open>The last stage is not ahead of another one: true at the start, and kept by every round.\<close>

definition last_behind :: "('p, 'w, 'e) pipeline \<Rightarrow> 'p \<Rightarrow> bool" where
  "last_behind pl p \<longleftrightarrow>
     (\<forall>s \<in> set (stages pl). ckpt (provider pl) p (last_id pl) \<le> ckpt (provider pl) p (stage_id s))"

lemma advanced_refl: "advanced pl handled 0 s s"
  by (simp add: advanced_def Let_def)

text \<open>The highest tip the pipeline has seen.\<close>

definition highest_tip :: "block_number option list \<Rightarrow> block_number" where
  "highest_tip tips = foldr (\<lambda>t m. case t of None \<Rightarrow> m | Some tip \<Rightarrow> max tip m) tips 0"

lemma highest_tip_simps [simp]:
  "highest_tip [] = 0" "highest_tip (None # tips) = highest_tip tips"
  "highest_tip (Some tip # tips) = max tip (highest_tip tips)"
  by (simp_all add: highest_tip_def)

lemma last_id_mine: "stages pl \<noteq> [] \<Longrightarrow> last_id pl \<in> stage_id ` set (stages pl)"
  by simp

lemma last_behind_advanced:
  "stages pl \<noteq> [] \<Longrightarrow> last_behind pl p \<Longrightarrow> advanced pl handled to (p, w) (p', w') \<Longrightarrow>
    last_behind pl p'"
  by (auto simp: last_behind_def advanced_def Let_def intro: max.coboundedI1)

context checkpoint_store
begin

lemma ckpt_set:
  "ckpt cp (snd (cp_set_checkpoint cp i n p)) = (ckpt cp p)(i := n)"
  by (simp add: ckpt_def checkpoint_set fun_eq_iff)

lemma ckpt_cong: "cp_checkpoint cp p' = cp_checkpoint cp p \<Longrightarrow> ckpt cp p' = ckpt cp p"
  by (simp add: ckpt_def fun_eq_iff)

text \<open>The computation of one round of the loop, over \<open>ckpt\<close>.\<close>

lemma stage_loop_skip:
  assumes "to \<le> ckpt cp p (stage_id s)"
  shows "stage_loop oc cp l to ((i, s) # rest) p w =
     (if of_nat i = l then Some (Ok (ckpt cp p (stage_id s)), p, w)
      else stage_loop oc cp l to rest p w)"
  using assms checkpoint_total [of p "stage_id s"]
  by (auto simp: ckpt_def Let_def split: option.splits)

lemma stage_loop_execute:
  assumes "ckpt cp p (stage_id s) < to"
  shows "stage_loop oc cp l to ((i, s) # rest) p w =
     (case stage_execute s \<lparr>sei_from = ckpt cp p (stage_id s) + 1, sei_to = to\<rparr> p w of
        None \<Rightarrow> None
      | Some (Inl e, p', w') \<Rightarrow> Some (Err (StageFailed e), p', w')
      | Some (Inr _, p', w') \<Rightarrow>
          stage_loop oc cp l to rest (snd (cp_set_checkpoint cp (stage_id s) to p')) w')"
proof -
  obtain c where c: "cp_checkpoint cp p (stage_id s) = Ok c"
    using checkpoint_total by blast
  have eq: "(case c of None \<Rightarrow> 0 | Some n \<Rightarrow> n) = ckpt cp p (stage_id s)"
    by (simp add: ckpt_def c split: option.split)
  have add: "rust_add oc (ckpt cp p (stage_id s)) 1 = Some (ckpt cp p (stage_id s) + 1)"
    using u64_less_bound [OF assms] by (intro rust_add_no_overflow) simp
  have set: "cp_set_checkpoint cp (stage_id s) to p' =
      (Ok (), snd (cp_set_checkpoint cp (stage_id s) to p'))" for p'
    using set_checkpoint_ok [of "stage_id s" to p'] by (metis prod.collapse)
  show ?thesis
    unfolding stage_loop.simps c sum.case Let_def eq add option.case
    using assms
    by (subst set) (simp add: not_le [symmetric] split: option.split sum.split prod.split)
qed

declare stage_loop.simps(2) [simp del]

text \<open>One stage of a round, unless it is the last one and has nothing to do.\<close>

lemma stage_loop_step:
  assumes s: "faithful_stage cp handled s" and apart: "handled_apart cp handled"
    and go: "ckpt cp p (stage_id s) < to \<or> of_nat i \<noteq> l"
  obtains p' w' where
    "stage_loop oc cp l to ((i, s) # rest) p w = stage_loop oc cp l to rest p' w'"
    "ckpt cp p' = (ckpt cp p)(stage_id s := max (ckpt cp p (stage_id s)) to)"
    "handled (p', w') = (handled (p, w))(stage_id s := handled (p, w) (stage_id s) @
        [Suc (unat (ckpt cp p (stage_id s)))..<Suc (unat to)])"
proof (cases "to \<le> ckpt cp p (stage_id s)")
  case True
  then have "stage_loop oc cp l to ((i, s) # rest) p w = stage_loop oc cp l to rest p w"
    using go stage_loop_skip [OF True] by auto
  with True show ?thesis
    by (intro that [of p w]) (simp_all add: max_absorb1 word_le_nat_alt)
next
  case False
  let ?c = "ckpt cp p (stage_id s)"
  have lt: "?c < to" using False by simp
  have suc: "unat (?c + 1) = Suc (unat ?c)"
    using unat_add_no_overflow [of ?c 1] u64_less_bound [OF lt] by simp
  have le: "?c + 1 \<le> to" using lt suc by (simp add: word_le_nat_alt word_less_nat_alt)
  obtain p1 w1 where ex:
    "stage_execute s \<lparr>sei_from = ?c + 1, sei_to = to\<rparr> p w = Some (Ok (), p1, w1)"
    "cp_checkpoint cp p1 = cp_checkpoint cp p"
    "handled (p1, w1) = (handled (p, w))(stage_id s := handled (p, w) (stage_id s) @
        [Suc (unat ?c)..<Suc (unat to)])"
    using s [unfolded faithful_stage_def, rule_format,
        where inp = "\<lparr>sei_from = ?c + 1, sei_to = to\<rparr>" and p = p and w = w] le suc
    by auto
  show ?thesis
    using apart lt ex(3) ckpt_cong [OF ex(2)]
    by (intro that [of "snd (cp_set_checkpoint cp (stage_id s) to p1)" w1])
      (simp_all add: stage_loop_execute [OF lt] ex(1) handled_apart_def ckpt_set max_absorb2)
qed

text \<open>A round over faithful stages runs every stage that is behind up to \<open>to\<close> and returns the new
  checkpoint of the last stage.\<close>

lemma stage_loop_faithful:
  assumes "distinct (map stage_id sts)" "\<forall>s \<in> set sts. faithful_stage cp handled s"
    and apart: "handled_apart cp handled"
    and "l + 1 = of_nat (k + length sts)" "k + length sts < 2 ^ 64"
  shows "\<exists>r p' w'. stage_loop oc cp l to (enumerate k sts) p w = Some (Ok r, p', w') \<and>
     (\<forall>i. ckpt cp p' i = (if i \<in> stage_id ` set sts then max (ckpt cp p i) to else ckpt cp p i)) \<and>
     (\<forall>i. handled (p', w') i = handled (p, w) i @
        (if i \<in> stage_id ` set sts then [Suc (unat (ckpt cp p i))..<Suc (unat to)] else [])) \<and>
     r = (if sts = [] then to else ckpt cp p' (stage_id (last sts)))"
  using assms(1,2,4,5)
proof (induction sts arbitrary: k p w)
  case Nil
  then show ?case by simp
next
  case (Cons s sts)
  have s: "faithful_stage cp handled s" "stage_id s \<notin> stage_id ` set sts"
    using Cons.prems by auto
  have "of_nat k = l \<longleftrightarrow> (of_nat (Suc k) :: u64) = of_nat (k + Suc (length sts))"
    using Cons.prems(3) by (auto simp: add.commute)
  also have "\<dots> \<longleftrightarrow> sts = []"
    using Cons.prems(4) by (simp only: word_of_nat_eq_iff) (simp add: take_bit_nat_eq_self)
  finally have last: "of_nat k = l \<longleftrightarrow> sts = []" .
  show ?case
  proof (cases "ckpt cp p (stage_id s) < to \<or> of_nat k \<noteq> l")
    case True
    obtain p1 w1 where step:
      "stage_loop oc cp l to ((k, s) # enumerate (Suc k) sts) p w
         = stage_loop oc cp l to (enumerate (Suc k) sts) p1 w1"
      "ckpt cp p1 = (ckpt cp p)(stage_id s := max (ckpt cp p (stage_id s)) to)"
      "handled (p1, w1) = (handled (p, w))(stage_id s := handled (p, w) (stage_id s) @
          [Suc (unat (ckpt cp p (stage_id s)))..<Suc (unat to)])"
      by (rule stage_loop_step [OF s(1) apart True])
    obtain r p' w' where rest:
      "stage_loop oc cp l to (enumerate (Suc k) sts) p1 w1 = Some (Ok r, p', w')"
      "\<And>i. ckpt cp p' i = (if i \<in> stage_id ` set sts then max (ckpt cp p1 i) to else ckpt cp p1 i)"
      "\<And>i. handled (p', w') i = handled (p1, w1) i @
        (if i \<in> stage_id ` set sts then [Suc (unat (ckpt cp p1 i))..<Suc (unat to)] else [])"
      "r = (if sts = [] then to else ckpt cp p' (stage_id (last sts)))"
      using Cons.IH [of "Suc k" p1 w1] Cons.prems by auto
    have "r = ckpt cp p' (stage_id (last (s # sts)))"
      using rest(2) [of "stage_id s"] rest(4) s(2) step(2) True last by (auto simp: max_def)
    then show ?thesis
      using s(2) by (intro exI [of _ r] exI [of _ p'] exI [of _ w'])
        (auto simp: step rest(1) rest(2) rest(3) enumerate_simps)
  next
    case False
    then have "sts = []" "to \<le> ckpt cp p (stage_id s)" "of_nat k = l" using last by auto
    then show ?thesis
      by (simp add: stage_loop_skip max_absorb1 word_le_nat_alt)
  qed
qed

lemma run_once_until_faithful:
  assumes "provider pl = cp" "pipeline_ok pl handled"
  obtains p' w' where
    "run_once_until oc pl to p w = Some (Ok (max (ckpt cp p (last_id pl)) to), p', w')"
    "advanced pl handled to (p, w) (p', w')"
proof -
  let ?n = "length (stages pl)"
  have ok: "stages pl \<noteq> []" "?n < 2 ^ 64" using assms(2) by (auto simp: pipeline_ok_def)
  have "\<not> of_nat ?n < (1 :: u64)"
    using ok by (simp add: word_less_nat_alt unat_of_nat take_bit_nat_eq_self)
  then have l: "rust_sub oc (of_nat ?n) 1 = Some (of_nat ?n - 1)"
    by (simp add: rust_sub_def)
  obtain r p' w' where
    "stage_loop oc cp (of_nat ?n - 1) to (enumerate 0 (stages pl)) p w = Some (Ok r, p', w')"
    "advanced pl handled to (p, w) (p', w')" "r = ckpt cp p' (last_id pl)"
    using stage_loop_faithful [of "stages pl" handled "of_nat ?n - 1" 0 oc to p w] assms ok
    by (auto simp: pipeline_ok_def advanced_def Let_def)
  moreover from this have "r = max (ckpt cp p (last_id pl)) to"
    using ok(1) assms(1) by (simp add: advanced_def Let_def)
  ultimately show ?thesis
    by (intro that [of p' w']) (simp_all add: run_once_until_def l assms(1))
qed

lemma run_chunks_progress:
  assumes pl: "provider pl = cp" "pipeline_ok pl handled"
    and size: "0 < chunk_size pl" "unat tip + unat (chunk_size pl) < 2 ^ 64"
    and "ckpt cp p (last_id pl) < min cur tip"
  shows "\<exists>cur' p' w'. run_chunks oc pl tip cur p w = Some (Some (Ok cur', p', w')) \<and>
    advanced pl handled tip (p, w) (p', w')"
  using assms(5)
proof (induction "unat tip - unat (ckpt cp p (last_id pl))" arbitrary: p w cur rule: less_induct)
  case less
  let ?to = "min cur tip"
  obtain p1 w1 where
    round: "run_once_until oc pl ?to p w = Some (Ok (max (ckpt cp p (last_id pl)) ?to), p1, w1)"
    and adv: "advanced pl handled ?to (p, w) (p1, w1)"
    by (rule run_once_until_faithful [OF pl])
  have to: "max (ckpt cp p (last_id pl)) ?to = ?to" using less.prems by (simp add: max_absorb2)
  have c1: "ckpt cp p1 (last_id pl) = ?to"
    using adv pl to by (simp add: advanced_def Let_def pipeline_ok_def)
  note eq = run_chunks.simps [of oc pl tip cur p w, unfolded round to]
  show ?case
  proof (cases "tip \<le> ?to")
    case True
    then have "?to = tip" by simp
    with adv True show ?thesis by (simp add: eq)
  next
    case False
    then have lt: "?to < tip" by simp
    have bound: "unat ?to + unat (chunk_size pl) < 2 ^ 64"
      using size(2) lt by (simp add: word_less_nat_alt)
    let ?next = "min (?to + chunk_size pl) tip"
    have "?to < ?to + chunk_size pl"
      using size(1) unat_add_no_overflow [OF bound] by (simp add: word_less_nat_alt)
    then have ahead: "ckpt cp p1 (last_id pl) < min ?next tip"
      using lt c1 by (simp add: min_def)
    have "unat tip - unat (ckpt cp p1 (last_id pl)) < unat tip - unat (ckpt cp p (last_id pl))"
      using less.prems lt c1 by (auto simp: word_less_nat_alt)
    from less.hyps [OF this ahead, of w1] obtain cur' p' w' where
      rest: "run_chunks oc pl tip ?next p1 w1 = Some (Some (Ok cur', p', w'))"
      "advanced pl handled tip (p1, w1) (p', w')" by blast
    have "advanced pl handled tip (p, w) (p', w')"
      using advanced_trans [OF adv rest(2)] by (simp add: max_absorb2)
    moreover have "?to = cur" using lt by (simp add: min_def split: if_splits)
    ultimately show ?thesis
      using rest False rust_add_no_overflow [OF bound, of oc] by (simp add: eq)
  qed
qed

text \<open>The inner loop ends, from any chunk tip, and leaves every stage at the tip.\<close>

lemma run_chunks_ends:
  assumes pl: "provider pl = cp" "pipeline_ok pl handled"
    and size: "0 < chunk_size pl" "unat tip + unat (chunk_size pl) < 2 ^ 64"
    and behind: "last_behind pl p"
  shows "\<exists>cur' p' w'. run_chunks oc pl tip cur p w = Some (Some (Ok cur', p', w')) \<and>
    advanced pl handled tip (p, w) (p', w')"
proof (cases "ckpt cp p (last_id pl) < min cur tip")
  case True
  then show ?thesis by (rule run_chunks_progress [OF pl size])
next
  case False
  let ?to = "min cur tip" and ?c = "ckpt cp p (last_id pl)"
  obtain p1 w1 where
    round: "run_once_until oc pl ?to p w = Some (Ok (max ?c ?to), p1, w1)"
    and adv: "advanced pl handled ?to (p, w) (p1, w1)"
    by (rule run_once_until_faithful [OF pl])
  have to: "max ?c ?to = ?c" by (rule max_absorb1) (rule leI [OF False])
  have c1: "ckpt cp p1 (last_id pl) = ?c"
    using adv pl to by (simp add: advanced_def Let_def pipeline_ok_def)
  note eq = run_chunks.simps [of oc pl tip cur p w, unfolded round to]
  show ?thesis
  proof (cases "tip \<le> ?c")
    case True
    have "max (ckpt cp p (stage_id s)) ?to = max (ckpt cp p (stage_id s)) tip \<and>
        [Suc (unat (ckpt cp p (stage_id s)))..<Suc (unat ?to)] = [] \<and>
        [Suc (unat (ckpt cp p (stage_id s)))..<Suc (unat tip)] = []" if "s \<in> set (stages pl)" for s
    proof -
      have "tip \<le> ckpt cp p (stage_id s)"
        using that behind True pl(1) unfolding last_behind_def by (meson order_trans)
      then show ?thesis by (auto simp: max_absorb1 min.coboundedI2 word_le_nat_alt min_def)
    qed
    then have "advanced pl handled tip (p, w) (p1, w1)"
      using adv pl(1) by (auto simp: advanced_def Let_def simp del: upt_Suc)
    with True show ?thesis by (simp add: eq)
  next
    case False
    then have lt: "?c < tip" by simp
    have bound: "unat ?c + unat (chunk_size pl) < 2 ^ 64"
      using size(2) lt by (simp add: word_less_nat_alt)
    have "?c < ?c + chunk_size pl"
      using size(1) unat_add_no_overflow [OF bound] by (simp add: word_less_nat_alt)
    then have "ckpt cp p1 (last_id pl) < min (min (?c + chunk_size pl) tip) tip"
      using lt c1 by simp
    from run_chunks_progress [OF pl size this, of oc w1] obtain cur' p' w' where
      rest: "run_chunks oc pl tip (min (?c + chunk_size pl) tip) p1 w1 = Some (Some (Ok cur', p', w'))"
      "advanced pl handled tip (p1, w1) (p', w')" by blast
    have "advanced pl handled tip (p, w) (p', w')"
      using advanced_trans [OF adv rest(2)] by (simp add: max_absorb2)
    with rest(1) False show ?thesis
      using rust_add_no_overflow [OF bound, of oc] by (simp add: eq)
  qed
qed

text \<open>With chunks of no blocks it never ends: a state where the chunk tip does not pass the last
  stage's checkpoint leads to another one.\<close>

lemma run_chunks_stuck:
  assumes pl: "provider pl = cp" "pipeline_ok pl handled" and size: "chunk_size pl = 0"
    and c: "cur \<le> ckpt cp p (last_id pl)" "ckpt cp p (last_id pl) < tip"
  obtains p' w' where
    "run_once_until oc pl (min cur tip) p w = Some (Ok (ckpt cp p (last_id pl)), p', w')"
    "rust_add oc (ckpt cp p (last_id pl)) (chunk_size pl) = Some (ckpt cp p (last_id pl))"
    "ckpt cp p' (last_id pl) = ckpt cp p (last_id pl)"
proof -
  let ?c = "ckpt cp p (last_id pl)"
  have le: "max ?c (min cur tip) = ?c" using c by (simp add: max_absorb1 min.coboundedI1)
  obtain p' w' where r:
    "run_once_until oc pl (min cur tip) p w = Some (Ok ?c, p', w')"
    "advanced pl handled (min cur tip) (p, w) (p', w')"
    using run_once_until_faithful [OF pl, where to = "min cur tip" and p = p and w = w and oc = oc]
    unfolding le by blast
  then have "ckpt cp p' (last_id pl) = ?c"
    using pl le by (simp add: advanced_def Let_def pipeline_ok_def)
  with r(1) show ?thesis
    using unat_u64_bound [of ?c] by (intro that [of p' w']) (simp_all add: rust_add_def size)
qed

lemma run_chunks_diverges:
  assumes pl: "provider pl = cp" "pipeline_ok pl handled" and size: "chunk_size pl = 0"
    and c: "cur \<le> ckpt cp p (last_id pl)" "ckpt cp p (last_id pl) < tip"
  shows "run_chunks oc pl tip cur p w = None"
proof -
  let ?P = "\<lambda>oc' pl' tip' cur p w y. oc' = oc \<longrightarrow> pl' = pl \<longrightarrow> tip' = tip \<longrightarrow>
    cur \<le> ckpt cp p (last_id pl) \<longrightarrow> ckpt cp p (last_id pl) < tip \<longrightarrow> False"
  have no: "?P oc' pl' tip' cur p w y" if "run_chunks oc' pl' tip' cur p w = Some y"
    for oc' pl' tip' cur p w y
  proof (rule run_chunks.raw_induct [where P = ?P, OF _ that], intro impI)
    fix f oc' pl' tip' cur p w y
    assume IH: "\<And>oc' pl' tip' cur p w y. f oc' pl' tip' cur p w = Some y \<Longrightarrow> ?P oc' pl' tip' cur p w y"
      and eqs: "oc' = oc" "pl' = pl" "tip' = tip"
      and c: "cur \<le> ckpt cp p (last_id pl)" "ckpt cp p (last_id pl) < tip"
      and run: "(case run_once_until oc' pl' (min cur tip') p w of None \<Rightarrow> Some None
        | Some (Inl e, p', w') \<Rightarrow> Some (Some (Err e, p', w'))
        | Some (Inr last_block_processed, p', w') \<Rightarrow>
            if tip' \<le> last_block_processed then Some (Some (Ok cur, p', w'))
            else (case rust_add oc' last_block_processed (chunk_size pl') of None \<Rightarrow> Some None
              | Some chunk_end \<Rightarrow> f oc' pl' tip' (min chunk_end tip') p' w')) = Some y"
    obtain p' w' where st:
      "run_once_until oc pl (min cur tip) p w = Some (Ok (ckpt cp p (last_id pl)), p', w')"
      "rust_add oc (ckpt cp p (last_id pl)) (chunk_size pl) = Some (ckpt cp p (last_id pl))"
      "ckpt cp p' (last_id pl) = ckpt cp p (last_id pl)"
      using run_chunks_stuck [OF pl size c] by blast
    have "f oc pl tip (min (ckpt cp p (last_id pl)) tip) p' w' = Some y"
      using run c st(1,2) unfolding eqs by (simp add: not_le [symmetric])
    from IH [OF this] show False using c st(3) by simp
  qed
  from no [of oc pl tip cur p w] c show ?thesis by (cases "run_chunks oc pl tip cur p w") auto
qed

text \<open>Whatever the stages do and however a round ends, a checkpoint never covers a block its stage
  has not handled, and no checkpoint goes back.\<close>

lemma stage_loop_covered:
  assumes "stage_loop oc cp l to sts p w = Some (r, p', w')"
    and "\<forall>s \<in> snd ` set sts. tracked_stage cp handled s" and apart: "handled_apart cp handled"
    and "\<forall>i. {1..unat (ckpt cp p i)} \<subseteq> handled (p, w) i"
  shows "\<forall>i. {1..unat (ckpt cp p' i)} \<subseteq> handled (p', w') i \<and> ckpt cp p i \<le> ckpt cp p' i"
  using assms(1,2,4)
proof (induction sts arbitrary: p w)
  case Nil
  then show ?case by simp
next
  case (Cons e sts)
  obtain k s where e: "e = (k, s)" by (cases e)
  show ?case
  proof (cases "to \<le> ckpt cp p (stage_id s)")
    case True
    then show ?thesis
      using Cons.prems Cons.IH [of p w] by (auto simp: e stage_loop_skip split: if_splits)
  next
    case False
    then have lt: "ckpt cp p (stage_id s) < to" by simp
    obtain r1 p1 w1 where
      ex: "stage_execute s \<lparr>sei_from = ckpt cp p (stage_id s) + 1, sei_to = to\<rparr> p w = Some (r1, p1, w1)"
      using Cons.prems(1) by (auto simp: e stage_loop_execute [OF lt] split: option.splits)
    have t: "cp_checkpoint cp p1 = cp_checkpoint cp p" "\<And>i. handled (p, w) i \<subseteq> handled (p1, w1) i"
      "r1 = Ok () \<Longrightarrow> {unat (ckpt cp p (stage_id s) + 1)..unat to} \<subseteq> handled (p1, w1) (stage_id s)"
      using Cons.prems(2) [unfolded e, simplified, THEN conjunct1, unfolded tracked_stage_def,
          rule_format, OF ex] by auto
    note c = ckpt_cong [OF t(1)]
    show ?thesis
    proof (cases r1)
      case (Inl x)
      with Cons.prems ex show ?thesis
        using t(2) c by (fastforce simp: e stage_loop_execute [OF lt])
    next
      case (Inr u)
      let ?p2 = "snd (cp_set_checkpoint cp (stage_id s) to p1)"
      have h2: "handled (?p2, w1) = handled (p1, w1)" using apart by (simp add: handled_apart_def)
      have "{1..unat to} \<subseteq> {1..unat (ckpt cp p (stage_id s))} \<union>
          {unat (ckpt cp p (stage_id s) + 1)..unat to}"
        using unat_add_no_overflow [of "ckpt cp p (stage_id s)" 1] u64_less_bound [OF lt] by auto
      also have "\<dots> \<subseteq> handled (p1, w1) (stage_id s)"
        using Cons.prems(3) t(2) t(3) Inr by (intro Un_least) (blast, simp)
      finally have mine: "{1..unat to} \<subseteq> handled (p1, w1) (stage_id s)" .
      have "{1..unat (ckpt cp p i)} \<subseteq> handled (p1, w1) i" for i
        using Cons.prems(3) t(2) [of i] by blast
      with mine have "\<forall>i. {1..unat (ckpt cp ?p2 i)} \<subseteq> handled (?p2, w1) i"
        unfolding ckpt_set c h2 by simp
      moreover have "stage_loop oc cp l to sts ?p2 w1 = Some (r, p', w')"
        using Cons.prems(1) ex Inr by (simp add: e stage_loop_execute [OF lt])
      ultimately have "\<forall>i. {1..unat (ckpt cp p' i)} \<subseteq> handled (p', w') i \<and>
          ckpt cp ?p2 i \<le> ckpt cp p' i"
        using Cons.IH [of ?p2 w1] Cons.prems(2) by (simp add: e)
      moreover have "ckpt cp p i \<le> ckpt cp ?p2 i" for i
        using lt by (simp add: ckpt_set c less_imp_le)
      ultimately show ?thesis by (meson order_trans)
    qed
  qed
qed

lemma run_once_until_covered:
  assumes "run_once_until oc pl to p w = Some (r, p', w')" "provider pl = cp"
    and "\<forall>s \<in> set (stages pl). tracked_stage cp handled s" "handled_apart cp handled"
    and "\<forall>i. {1..unat (ckpt cp p i)} \<subseteq> handled (p, w) i"
  shows "\<forall>i. {1..unat (ckpt cp p' i)} \<subseteq> handled (p', w') i \<and> ckpt cp p i \<le> ckpt cp p' i"
proof -
  obtain l where "stage_loop oc cp l to (enumerate 0 (stages pl)) p w = Some (r, p', w')"
    using assms(1,2) by (auto simp: run_once_until_def split: option.splits)
  moreover have "snd ` set (enumerate 0 (stages pl)) = set (stages pl)"
    by (metis map_snd_enumerate set_map)
  ultimately show ?thesis
    using stage_loop_covered [OF _ _ assms(4,5)] assms(3) by metis
qed

lemma run_chunks_covered:
  assumes "run_chunks oc pl tip cur p w = Some (Some (r, p', w'))" "provider pl = cp"
    and "\<forall>s \<in> set (stages pl). tracked_stage cp handled s" and apart: "handled_apart cp handled"
    and "\<forall>i. {1..unat (ckpt cp p i)} \<subseteq> handled (p, w) i"
  shows "\<forall>i. {1..unat (ckpt cp p' i)} \<subseteq> handled (p', w') i \<and> ckpt cp p i \<le> ckpt cp p' i"
proof -
  let ?good = "\<lambda>p w. \<forall>i. {1..unat (ckpt cp p i)} \<subseteq> handled (p, w) i"
  let ?P = "\<lambda>oc pl tip cur p w y. provider pl = cp \<longrightarrow>
    (\<forall>s \<in> set (stages pl). tracked_stage cp handled s) \<longrightarrow> ?good p w \<longrightarrow>
    (\<forall>r p' w'. y = Some (r, p', w') \<longrightarrow>
       (\<forall>i. {1..unat (ckpt cp p' i)} \<subseteq> handled (p', w') i \<and> ckpt cp p i \<le> ckpt cp p' i))"
  have "?P oc pl tip cur p w (Some (r, p', w'))"
  proof (rule run_chunks.raw_induct [where P = ?P, OF _ assms(1)], intro impI allI)
    fix f oc pl tip cur p w y r p' w' i
    assume IH: "\<And>oc pl tip cur p w y. f oc pl tip cur p w = Some y \<Longrightarrow> ?P oc pl tip cur p w y"
      and pl: "provider pl = cp" "\<forall>s \<in> set (stages pl). tracked_stage cp handled s"
      and good: "?good p w" and y: "y = Some (r, p', w')"
      and run: "(case run_once_until oc pl (min cur tip) p w of None \<Rightarrow> Some None
        | Some (Inl e, p', w') \<Rightarrow> Some (Some (Err e, p', w'))
        | Some (Inr last_block_processed, p', w') \<Rightarrow>
            if tip \<le> last_block_processed then Some (Some (Ok cur, p', w'))
            else (case rust_add oc last_block_processed (chunk_size pl) of None \<Rightarrow> Some None
              | Some chunk_end \<Rightarrow> f oc pl tip (min chunk_end tip) p' w')) = Some y"
    obtain r1 p1 w1 where round: "run_once_until oc pl (min cur tip) p w = Some (r1, p1, w1)"
      using run y by (auto split: option.splits)
    note cov = run_once_until_covered [OF round pl apart good]
    show "{1..unat (ckpt cp p' i)} \<subseteq> handled (p', w') i \<and> ckpt cp p i \<le> ckpt cp p' i"
    proof (cases "p' = p1 \<and> w' = w1")
      case True
      with cov show ?thesis by simp
    next
      case False
      then obtain cur' where "f oc pl tip cur' p1 w1 = Some (Some (r, p', w'))"
        using run y round by (auto split: sum.splits if_splits option.splits)
      from IH [OF this] pl cov have
        "{1..unat (ckpt cp p' i)} \<subseteq> handled (p', w') i \<and> ckpt cp p1 i \<le> ckpt cp p' i" by blast
      with cov show ?thesis by (meson order_trans)
    qed
  qed
  with assms(2,3,5) show ?thesis by blast
qed

lemma run_tips_covered:
  assumes "run_tips oc pl cur tips p w = Some (Some (r, p', w'))" "provider pl = cp"
    and "\<forall>s \<in> set (stages pl). tracked_stage cp handled s" "handled_apart cp handled"
    and "\<forall>i. {1..unat (ckpt cp p i)} \<subseteq> handled (p, w) i"
  shows "\<forall>i. {1..unat (ckpt cp p' i)} \<subseteq> handled (p', w') i \<and> ckpt cp p i \<le> ckpt cp p' i"
  using assms(1,5)
proof (induction tips arbitrary: cur p w)
  case Nil
  then show ?case by simp
next
  case (Cons t tips)
  show ?case
  proof (cases t)
    case None
    with Cons show ?thesis by simp
  next
    case (Some tip)
    then obtain r1 p1 w1 where c: "run_chunks oc pl tip cur p w = Some (Some (r1, p1, w1))"
      using Cons.prems(1) by (auto split: option.splits)
    note cov = run_chunks_covered [OF c assms(2-4) Cons.prems(2)]
    show ?thesis
    proof (cases r1)
      case (Inl e)
      with Cons.prems(1) Some c cov show ?thesis by simp
    next
      case (Inr cur')
      then have "run_tips oc pl cur' tips p1 w1 = Some (Some (r, p', w'))"
        using Cons.prems(1) Some c by simp
      from Cons.IH [OF this] cov show ?thesis by (meson order_trans)
    qed
  qed
qed

lemma run_tips_ends:
  assumes pl: "provider pl = cp" "pipeline_ok pl handled" and size: "0 < chunk_size pl"
    and "\<forall>tip. Some tip \<in> set tips \<longrightarrow> unat tip + unat (chunk_size pl) < 2 ^ 64"
    and "last_behind pl p"
  shows "\<exists>cur' p' w'. run_tips oc pl cur tips p w = Some (Some (Ok cur', p', w')) \<and>
    advanced pl handled (highest_tip tips) (p, w) (p', w')"
  using assms(4,5)
proof (induction tips arbitrary: cur p w)
  case Nil
  then show ?case by (simp add: advanced_refl)
next
  case (Cons t tips)
  show ?case
  proof (cases t)
    case None
    with Cons show ?thesis by simp
  next
    case (Some tip)
    obtain cur1 p1 w1 where
      c: "run_chunks oc pl tip cur p w = Some (Some (Ok cur1, p1, w1))"
      and adv: "advanced pl handled tip (p, w) (p1, w1)"
      using run_chunks_ends [OF pl size _ Cons.prems(2), of tip oc cur w] Cons.prems(1) Some by auto
    have "last_behind pl p1"
      using last_behind_advanced [OF _ Cons.prems(2) adv] pl(2) by (simp add: pipeline_ok_def)
    from Cons.IH [OF _ this] Cons.prems(1) obtain cur' p' w' where
      "run_tips oc pl cur1 tips p1 w1 = Some (Some (Ok cur', p', w'))"
      "advanced pl handled (highest_tip tips) (p1, w1) (p', w')" by fastforce
    with advanced_trans [OF adv] show ?thesis
      by (intro exI [of _ cur'] exI [of _ p'] exI [of _ w']) (auto simp: Some c)
  qed
qed

end

section \<open>Properties of the pipeline on the persistent provider\<close>

text \<open>A stage that does nothing but keep a log, and a pipeline of two of them, for the witnesses.\<close>

definition log_stage :: "string \<Rightarrow> ('p, string \<Rightarrow> nat list, unit) stage" where
  "log_stage i =
     \<lparr>stage_id = i,
      stage_execute = (\<lambda>inp p w.
        Some (Ok (), p, w(i := w i @ [unat (sei_from inp)..<Suc (unat (sei_to inp))])))\<rparr>"

definition sample_pipeline ::
  "u64 \<Rightarrow> ((nat, nat, nat, nat, nat) db, string \<Rightarrow> nat list, unit) pipeline" where
  "sample_pipeline sz =
     add_stages [log_stage ''Classes'']
       (add_stage (log_stage ''Blocks'') (pipeline_new db_checkpoints sz))"

lemma sample_stages:
  "stages (sample_pipeline sz) = [log_stage ''Blocks'', log_stage ''Classes'']"
  "provider (sample_pipeline sz) = db_checkpoints" "chunk_size (sample_pipeline sz) = sz"
  by (simp_all add: sample_pipeline_def add_stage_def add_stages_def pipeline_new_def)

lemma log_stage_id [simp]: "stage_id (log_stage i) = i"
  by (simp add: log_stage_def)

lemma log_stage_faithful: "faithful_stage cp snd (log_stage i)"
  by (simp add: faithful_stage_def log_stage_def)

lemma log_stage_tracked: "tracked_stage cp (\<lambda>s i. set (snd s i)) (log_stage i)"
  by (auto simp: tracked_stage_def log_stage_def)

lemma sample_pipeline_ok: "pipeline_ok (sample_pipeline sz) snd"
  by (simp add: pipeline_ok_def sample_stages log_stage_faithful handled_apart_def)

lemma empty_db_ckpt: "ckpt db_checkpoints empty_db i = 0"
  by (simp add: ckpt_def db_checkpoints_def checkpoint_def empty_db_def tbl_get_def)

lemma sample_pipeline_behind: "last_behind (sample_pipeline sz) empty_db"
  by (simp add: last_behind_def sample_stages empty_db_ckpt)

text \<open>C12: Let the stages of a pipeline be faithful (each handles the blocks it is asked for, in order) and
  have distinct identifiers, let the last stage not be ahead of another one, and let the chunk
  size be positive, and no tip so high that adding a chunk overflows.  Then for every sequence of tips
  the pipeline comes to rest without panic or error, with or without overflow checks, whatever
  the chunk size.  Every stage then has the highest tip as its checkpoint, unless it was ahead of
  it, and it has handled every block from its old checkpoint to the tip exactly once and in
  order.\<close>

theorem pipeline_reaches_tip:
  fixes pl :: "(('tx, 'rcpt, 'trace, 'cls, 'ccls) db, 'w, 'e) pipeline"
  assumes "provider pl = db_checkpoints" "pipeline_ok pl handled" "0 < chunk_size pl"
    and "\<forall>tip. Some tip \<in> set tips \<longrightarrow> unat tip + unat (chunk_size pl) < 2 ^ 64"
    and "last_behind pl d"
  shows "\<exists>cur' d' w'. pipeline_run oc pl tips d w = Some (Some (Ok cur', d', w')) \<and>
    (\<forall>s \<in> set (stages pl).
       ckpt db_checkpoints d' (stage_id s) =
         max (ckpt db_checkpoints d (stage_id s)) (highest_tip tips) \<and>
       handled (d', w') (stage_id s) = handled (d, w) (stage_id s) @
         [Suc (unat (ckpt db_checkpoints d (stage_id s)))..<Suc (unat (highest_tip tips))])"
proof -
  obtain cur' d' w' where "pipeline_run oc pl tips d w = Some (Some (Ok cur', d', w'))"
    "advanced pl handled (highest_tip tips) (d, w) (d', w')"
    unfolding pipeline_run_def using db_cp.run_tips_ends [OF assms] by blast
  then show ?thesis
    by (intro exI [of _ cur'] exI [of _ d'] exI [of _ w']) (simp add: advanced_def Let_def assms(1))
qed

theorem pipeline_reaches_tip_witness:
  "\<exists>cur' d' w'.
     pipeline_run True (sample_pipeline 10) [None, Some 5, Some 25] empty_db (\<lambda>_. []) =
       Some (Some (Ok cur', d', w')) \<and>
     ckpt db_checkpoints d' ''Classes'' = 25 \<and> w' ''Blocks'' = [1..<26]"
proof -
  have "highest_tip [None, Some 5, Some 25] = 25" by (simp add: max_def)
  moreover have "\<forall>tip. Some tip \<in> set [None, Some (5 :: u64), Some 25] \<longrightarrow>
      unat tip + unat (chunk_size (sample_pipeline 10)) < 2 ^ 64"
    by (auto simp: sample_stages)
  moreover have "0 < chunk_size (sample_pipeline 10)" by (simp add: sample_stages)
  moreover have "set (stages (sample_pipeline 10)) = {log_stage ''Blocks'', log_stage ''Classes''}"
    by (simp add: sample_stages)
  moreover have "[Suc 0..<Suc 25] = [1..<26]" by simp
  ultimately show ?thesis
    using pipeline_reaches_tip [of "sample_pipeline 10" snd "[None, Some 5, Some 25]" empty_db True
        "\<lambda>_. []", OF sample_stages(2) sample_pipeline_ok _ _ sample_pipeline_behind]
    by (fastforce simp: empty_db_ckpt simp del: upt_Suc)
qed

text \<open>C34: A chunk size of zero, which nothing rules out, makes the pipeline run forever as soon as it sees a tip
  above the checkpoint of the last stage: every round asks the stages for the block they are at.\<close>

theorem pipeline_chunk_size_zero:
  fixes pl :: "(('tx, 'rcpt, 'trace, 'cls, 'ccls) db, 'w, 'e) pipeline"
  assumes "provider pl = db_checkpoints" "pipeline_ok pl handled" "chunk_size pl = 0"
    and "ckpt db_checkpoints d (last_id pl) < tip"
  shows "pipeline_run oc pl (Some tip # tips) d w = None"
  unfolding pipeline_run_def
  using db_cp.run_chunks_diverges [OF assms(1-3) _ assms(4), of 0 oc w] assms(3) by simp

theorem pipeline_chunk_size_zero_witness:
  "pipeline_run False (sample_pipeline 0) [Some 5] empty_db (\<lambda>_. []) = None"
  by (rule pipeline_chunk_size_zero [of "sample_pipeline 0" snd])
    (simp_all add: sample_stages sample_pipeline_ok empty_db_ckpt)


definition failing_stage :: "string \<Rightarrow> ('p, string \<Rightarrow> nat list, unit) stage" where
  "failing_stage i =
     \<lparr>stage_id = i,
      stage_execute = (\<lambda>inp p w. Some (Err (), p, w(i := w i @ [unat (sei_from inp)])))\<rparr>"

definition failing_pipeline ::
  "((nat, nat, nat, nat, nat) db, string \<Rightarrow> nat list, unit) pipeline" where
  "failing_pipeline =
     add_stage (failing_stage ''Classes'') (add_stage (log_stage ''Blocks'')
       (pipeline_new db_checkpoints 10))"

lemma failing_stages:
  "stages failing_pipeline = [log_stage ''Blocks'', failing_stage ''Classes'']"
  "provider failing_pipeline = db_checkpoints" "chunk_size failing_pipeline = 10"
  by (simp_all add: failing_pipeline_def add_stage_def pipeline_new_def)

lemma failing_pipeline_run:
  "\<exists>d' w'. pipeline_run True failing_pipeline [Some 5] empty_db (\<lambda>_. []) =
     Some (Some (Err (StageFailed ()), d', w')) \<and> ckpt db_checkpoints d' ''Blocks'' = 5"
proof -
  define d1 :: "(nat, nat, nat, nat, nat) db" where
    "d1 = snd (cp_set_checkpoint db_checkpoints ''Blocks'' 5 empty_db)"
  have c1: "ckpt db_checkpoints d1 = (\<lambda>_. 0)(''Blocks'' := 5)"
    by (simp add: d1_def db_cp.ckpt_set empty_db_ckpt fun_eq_iff)
  have a: "ckpt db_checkpoints empty_db (stage_id (log_stage ''Blocks'')) < 5"
    by (simp add: empty_db_ckpt)
  have b: "ckpt db_checkpoints d1 (stage_id (failing_stage ''Classes'')) < 5"
    by (simp add: c1 failing_stage_def)
  have "\<exists>w'. run_once_until True failing_pipeline (min 10 5) empty_db (\<lambda>_. []) =
      Some (Err (StageFailed ()), d1, w')"
  proof -
    have ex: "stage_execute (log_stage i) inp p w =
        Some (Ok (), p, w(i := w i @ [unat (sei_from inp)..<Suc (unat (sei_to inp))]))"
      "stage_execute (failing_stage i) inp p w = Some (Err (), p, w(i := w i @ [unat (sei_from inp)]))"
      for i inp w and p :: "(nat, nat, nat, nat, nat) db"
      by (simp_all add: log_stage_def failing_stage_def)
    show ?thesis
      by (simp add: run_once_until_def failing_stages rust_sub_def db_cp.stage_loop_execute [OF a]
          db_cp.stage_loop_execute [OF b] ex flip: d1_def)
  qed
  then show ?thesis
    using c1 by (auto simp: pipeline_run_def failing_stages run_chunks.simps [of _ _ _ _ empty_db])
qed


end
