(* ===== verification/Stages.thy ===== *)
theory Stages
  imports Gateway Pipeline State_Refinement
begin

text \<open>
  The stages of the sync pipeline that fill the storage (\<open>sync/stage/src/blocks.rs\<close>,
  \<open>sync/stage/src/classes.rs\<close>): the batched downloads with their retries, the conversion of a
  downloaded block, and the writes to the provider.

  The gateway is the function \<open>gw\<close> from the number of the attempt and the block to the answer of the
  client.  The retry policy belongs to the \<open>backon\<close> crate: \<open>max_times\<close> is the number of times it retries.
  A panic of the source is \<open>None\<close>.
\<close>

section \<open>Errors\<close>

datatype 'ce classes_error =
    MissingBlockDeclaredClasses block_number
  | ClassesGateway client_error
  | ClassesConversion 'ce
  | ClassesProvider provider_error

datatype 'ce stage_error =
    StageProvider provider_error
  | StageBlocks client_error
  | StageClasses "'ce classes_error"
  | StageOther tx_try_from_error

section \<open>Downloads\<close>

text \<open>\<open>Iterator::collect\<close> into a \<open>Result\<close>: the first error in the order of the items.\<close>

fun try_map :: "('i \<Rightarrow> ('a, 'e) result) \<Rightarrow> 'i list \<Rightarrow> ('a list, 'e) result" where
  "try_map f [] = Ok []"
| "try_map f (i # is) = and_then (f i) (\<lambda>a. map_ok ((#) a) (try_map f is))"

definition block_range :: "block_number \<Rightarrow> block_number \<Rightarrow> block_number list" where
  "block_range from to = map of_nat [unat from..<Suc (unat to)]"

text \<open>\<open>(from..=to).step_by(n)\<close> for a positive \<open>n\<close>.\<close>

definition step_by :: "block_number \<Rightarrow> block_number \<Rightarrow> u64 \<Rightarrow> block_number list" where
  "step_by from to n =
     (if to < from then []
      else map (\<lambda>k. of_nat (unat from + k * unat n)) [0..<Suc ((unat to - unat from) div unat n)])"

text \<open>The retry loop of the \<open>backon\<close> crate around a request.\<close>

fun with_retry :: "('e \<Rightarrow> bool) \<Rightarrow> nat \<Rightarrow> nat \<Rightarrow> (nat \<Rightarrow> ('a, 'e) result) \<Rightarrow> ('a, 'e) result" where
  "with_retry retryable 0 attempt request = request attempt"
| "with_retry retryable (Suc n) attempt request =
     (case request attempt of
        Inl e \<Rightarrow> if retryable e then with_retry retryable n (Suc attempt) request else Err e
      | Inr a \<Rightarrow> Ok a)"

definition fetch_blocks ::
  "(block_number \<Rightarrow> ('b, client_error) result) \<Rightarrow> block_number \<Rightarrow> block_number
    \<Rightarrow> ('b list, client_error) result" where
  "fetch_blocks fetch_block from to = try_map fetch_block (block_range from to)"

definition fetch_blocks_with_retry ::
  "nat \<Rightarrow> (nat \<Rightarrow> block_number \<Rightarrow> ('b, client_error) result) \<Rightarrow> block_number \<Rightarrow> block_number
    \<Rightarrow> ('b list, client_error) result" where
  "fetch_blocks_with_retry max_times gw from to =
     with_retry is_rate_limited max_times 0 (\<lambda>attempt. fetch_blocks (gw attempt) from to)"

fun download_batches ::
  "bool \<Rightarrow> nat \<Rightarrow> (nat \<Rightarrow> block_number \<Rightarrow> ('b, client_error) result) \<Rightarrow> u64 \<Rightarrow> block_number
    \<Rightarrow> block_number list \<Rightarrow> 'b list \<Rightarrow> ('b list, client_error) result option" where
  "download_batches oc max_times gw batch_size to [] blocks = Some (Ok blocks)"
| "download_batches oc max_times gw batch_size to (batch_start # starts) blocks =
     (case Option.bind (rust_add oc batch_start batch_size) (\<lambda>s. rust_sub oc s 1) of
        None \<Rightarrow> None
      | Some e \<Rightarrow>
          (case fetch_blocks_with_retry max_times gw batch_start (min e to) of
             Inl err \<Rightarrow> Some (Err err)
           | Inr batch \<Rightarrow>
               download_batches oc max_times gw batch_size to starts (blocks @ batch)))"

text \<open>\<open>step_by\<close> panics for a step of zero.\<close>

definition download_blocks ::
  "bool \<Rightarrow> nat \<Rightarrow> (nat \<Rightarrow> block_number \<Rightarrow> ('b, client_error) result) \<Rightarrow> u64 \<Rightarrow> block_number
    \<Rightarrow> block_number \<Rightarrow> ('b list, client_error) result option" where
  "download_blocks oc max_times gw batch_size from to =
     (if batch_size = 0 then None
      else download_batches oc max_times gw batch_size to (step_by from to batch_size) [])"

section \<open>The conversion of a downloaded block\<close>

definition felt_to_u128 :: "felt \<Rightarrow> u128 option" where
  "felt_to_u128 a = (if nat_of_felt a < 2 ^ 128 then Some (of_nat (nat_of_felt a)) else None)"

definition to_gas_prices :: "resource_price \<Rightarrow> gas_prices option" where
  "to_gas_prices prices =
     Option.bind (felt_to_u128 (rp_price_in_fri prices)) (\<lambda>eth.
     Option.bind (felt_to_u128 (rp_price_in_fri prices)) (\<lambda>strk.
     Some \<lparr>gp_eth = eth, gp_strk = strk\<rparr>))"

lemma to_gas_prices_ignores_wei:
  "to_gas_prices \<lparr>rp_price_in_fri = f, rp_price_in_wei = w\<rparr> =
     map_option (\<lambda>p. \<lparr>gp_eth = p, gp_strk = p\<rparr>) (felt_to_u128 f)"
  by (cases "felt_to_u128 f") (simp_all add: to_gas_prices_def)

fun finality_of_status :: "gw_block_status \<Rightarrow> finality_status option" where
  "finality_of_status GwAcceptedOnL2 = Some AcceptedOnL2"
| "finality_of_status GwAcceptedOnL1 = Some AcceptedOnL1"
| "finality_of_status _ = None"

text \<open>The closure over the zipped receipts and transactions.\<close>

definition receipt_of :: "confirmed_receipt \<times> tx tx_with_hash \<Rightarrow> receipt option" where
  "receipt_of rt =
     (let rct = fst rt; t = twh_transaction (snd rt) in
      Option.bind (felt_to_u128 (cr_actual_fee rct)) (\<lambda>overall_fee.
        let unit = (if felt 3 \<le> tx_version t then Fri else Wei);
            fee = \<lparr>fee_gas_consumed = 0, fee_gas_price = 0, fee_overall_fee = overall_fee,
                   fee_unit = unit\<rparr>
        in (case t of
              TxInvoke _ \<Rightarrow> Some (RctInvoke
                \<lparr>ir_fee = fee, ir_events = cr_events rct,
                 ir_messages_sent = cr_l2_to_l1_messages rct,
                 ir_revert_error = cr_revert_error rct,
                 ir_execution_resources = tx_resources_default\<rparr>)
            | TxDeclare _ \<Rightarrow> Some (RctDeclare
                \<lparr>dr_fee = fee, dr_events = cr_events rct,
                 dr_messages_sent = cr_l2_to_l1_messages rct,
                 dr_revert_error = cr_revert_error rct,
                 dr_execution_resources = tx_resources_default\<rparr>)
            | TxL1Handler _ \<Rightarrow> Some (RctL1Handler
                \<lparr>lr_fee = fee, lr_events = cr_events rct, lr_message_hash = b256_zero,
                 lr_messages_sent = cr_l2_to_l1_messages rct,
                 lr_revert_error = cr_revert_error rct,
                 lr_execution_resources = tx_resources_default\<rparr>)
            | TxDeployAccount _ \<Rightarrow> Some (RctDeployAccount
                \<lparr>ar_fee = fee, ar_events = cr_events rct,
                 ar_messages_sent = cr_l2_to_l1_messages rct,
                 ar_revert_error = cr_revert_error rct,
                 ar_execution_resources = tx_resources_default, ar_contract_address = 0\<rparr>)
            | TxDeploy _ \<Rightarrow> None)))"

definition unwrap_or :: "'a \<Rightarrow> 'a option \<Rightarrow> 'a" where
  "unwrap_or d x = (case x of None \<Rightarrow> d | Some a \<Rightarrow> a)"

definition extract_header :: "gw_block \<Rightarrow> nat \<Rightarrow> header option" where
  "extract_header b cnt =
     Option.bind (to_gas_prices (gb_l1_gas_price b)) (\<lambda>l1_gas_prices.
     Option.bind (to_gas_prices (gb_l1_data_gas_price b)) (\<lambda>l1_data_gas_prices.
     Some \<lparr>h_parent_hash = gb_parent_block_hash b, h_number = unwrap_or 0 (gb_block_number b),
           h_state_diff_commitment = 0,
           h_transactions_commitment = unwrap_or 0 (gb_transaction_commitment b),
           h_receipts_commitment = 0,
           h_events_commitment = unwrap_or 0 (gb_event_commitment b),
           h_state_root = unwrap_or 0 (gb_state_root b), h_transaction_count = of_nat cnt,
           h_events_count = 0, h_state_diff_length = 0, h_timestamp = gb_timestamp b,
           h_sequencer_address = unwrap_or 0 (gb_sequencer_address b),
           h_l1_gas_prices = l1_gas_prices, h_l1_data_gas_prices = l1_data_gas_prices,
           h_l1_da_mode = gb_l1_da_mode b,
           h_protocol_version = unwrap_or protocol_version_default (gb_starknet_version b)\<rparr>))"

definition extract_block_data ::
  "state_update_with_block
    \<Rightarrow> (tx sealed_block_with_status \<times> receipt list \<times> 'cls state_updates_with_classes,
         tx_try_from_error) result option" where
  "extract_block_data data =
     (let b = sub_block data in
      Option.bind (finality_of_status (gb_status b)) (\<lambda>status.
      case try_map tx_try_from (gb_transactions b) of
        Inl e \<Rightarrow> Some (Err e)
      | Inr transactions \<Rightarrow>
          Option.bind (those (map receipt_of (zip (gb_transaction_receipts b) transactions))) (\<lambda>receipts.
          Option.bind (extract_header b (length transactions)) (\<lambda>header.
          let block = \<lparr>sb_hash = unwrap_or 0 (gb_block_hash b), sb_header = header,
                       sb_body = transactions\<rparr>;
              state_updates =
                \<lparr>suc_state_updates = state_updates_from_diff (gsu_state_diff (sub_state_update data)),
                 suc_classes = []\<rparr>
          in Some (Ok (\<lparr>sbs_block = block, sbs_status = status\<rparr>, receipts, state_updates))))))"

section \<open>The blocks stage\<close>

fun store_blocks ::
  "(felt \<Rightarrow> bytes) \<Rightarrow> state_update_with_block list
    \<Rightarrow> (tx, receipt, 'trace, 'cls, 'ccls) db
    \<Rightarrow> ((unit, 'ce stage_error) result \<times> (tx, receipt, 'trace, 'cls, 'ccls) db) option" where
  "store_blocks pc [] d = Some (Ok (), d)"
| "store_blocks pc (b # bs) d =
     (case extract_block_data b of
        None \<Rightarrow> None
      | Some (Inl e) \<Rightarrow> Some (Err (StageOther e), d)
      | Some (Inr (block, receipts, state_updates)) \<Rightarrow>
          store_blocks pc bs
            (insert_block_with_states_and_receipts pc block state_updates receipts [] d))"

definition blocks_execute ::
  "bool \<Rightarrow> (felt \<Rightarrow> bytes) \<Rightarrow> nat
    \<Rightarrow> (nat \<Rightarrow> block_number \<Rightarrow> (state_update_with_block, client_error) result) \<Rightarrow> u64
    \<Rightarrow> stage_execution_input \<Rightarrow> (tx, receipt, 'trace, 'cls, 'ccls) db
    \<Rightarrow> ((unit, 'ce stage_error) result \<times> (tx, receipt, 'trace, 'cls, 'ccls) db) option" where
  "blocks_execute oc pc max_times gw batch_size inp d =
     (case download_blocks oc max_times gw batch_size (sei_from inp) (sei_to inp) of
        None \<Rightarrow> None
      | Some (Inl e) \<Rightarrow> Some (Err (StageBlocks e), d)
      | Some (Inr blocks) \<Rightarrow> store_blocks pc blocks d)"

definition blocks_stage ::
  "bool \<Rightarrow> (felt \<Rightarrow> bytes) \<Rightarrow> nat
    \<Rightarrow> (nat \<Rightarrow> block_number \<Rightarrow> (state_update_with_block, client_error) result) \<Rightarrow> u64
    \<Rightarrow> ((tx, receipt, 'trace, 'cls, 'ccls) db, 'w, 'ce stage_error) stage" where
  "blocks_stage oc pc max_times gw batch_size =
     \<lparr>stage_id = ''Blocks'',
      stage_execute = (\<lambda>inp d w.
        map_option (\<lambda>(r, d'). (r, d', w)) (blocks_execute oc pc max_times gw batch_size inp d))\<rparr>"

section \<open>The classes stage\<close>

text \<open>\<open>[T]::chunks\<close>.\<close>

function chunks :: "nat \<Rightarrow> 'a list \<Rightarrow> 'a list list" where
  "chunks n xs = (if n = 0 \<or> xs = [] then [] else take n xs # chunks n (drop n xs))"
  by auto
termination by (relation "measure (\<lambda>(n, xs). length xs)") auto

declare chunks.simps [simp del]

definition fetch_class ::
  "('rpc \<Rightarrow> ('sierra, 'ce) result)
    \<Rightarrow> (class_hash \<Rightarrow> block_number \<Rightarrow> (('rpc, 'legacy) gw_contract_class, client_error) result)
    \<Rightarrow> class_hash \<Rightarrow> block_number
    \<Rightarrow> (('sierra, 'legacy) contract_class, 'ce classes_error) result" where
  "fetch_class sierra get_class hash block =
     (case get_class hash block of
        Inl e \<Rightarrow> Err (ClassesGateway e)
      | Inr class \<Rightarrow>
          (case contract_class_try_from sierra class of
             Inl e \<Rightarrow> Err (ClassesConversion e)
           | Inr class \<Rightarrow> Ok class))"

definition fetch_classes_with_retry ::
  "('rpc \<Rightarrow> ('sierra, 'ce) result) \<Rightarrow> nat
    \<Rightarrow> (nat \<Rightarrow> class_hash \<Rightarrow> block_number \<Rightarrow> (('rpc, 'legacy) gw_contract_class, client_error) result)
    \<Rightarrow> class_hash list \<Rightarrow> block_number
    \<Rightarrow> (('sierra, 'legacy) contract_class list, 'ce classes_error) result" where
  "fetch_classes_with_retry sierra max_times gw classes block =
     with_retry (\<lambda>e. e = ClassesGateway RateLimited) max_times 0
       (\<lambda>attempt. try_map (\<lambda>class. fetch_class sierra (gw attempt) class block) classes)"

definition download_classes ::
  "('rpc \<Rightarrow> ('sierra, 'ce) result) \<Rightarrow> nat
    \<Rightarrow> (nat \<Rightarrow> class_hash \<Rightarrow> block_number \<Rightarrow> (('rpc, 'legacy) gw_contract_class, client_error) result)
    \<Rightarrow> nat \<Rightarrow> class_hash list \<Rightarrow> block_number
    \<Rightarrow> (('sierra, 'legacy) contract_class list, 'ce classes_error) result option" where
  "download_classes sierra max_times gw batch_size hashes block =
     (if batch_size = 0 then None
      else Some (map_ok concat
        (try_map (\<lambda>chunk. fetch_classes_with_retry sierra max_times gw chunk block)
          (chunks batch_size hashes))))"

text \<open>The loop over the blocks, which collects the classes, and the loop that stores them.\<close>

fun collect_classes ::
  "('rpc \<Rightarrow> ('sierra, 'ce) result) \<Rightarrow> nat
    \<Rightarrow> (nat \<Rightarrow> class_hash \<Rightarrow> block_number \<Rightarrow> (('rpc, 'legacy) gw_contract_class, client_error) result)
    \<Rightarrow> nat \<Rightarrow> ('tx, 'rcpt, 'trace, ('sierra, 'legacy) contract_class, 'ccls) db
    \<Rightarrow> block_number list \<Rightarrow> (class_hash \<times> ('sierra, 'legacy) contract_class) list
    \<Rightarrow> ((class_hash \<times> ('sierra, 'legacy) contract_class) list, 'ce stage_error) result option" where
  "collect_classes sierra max_times gw batch_size d [] classes = Some (Ok classes)"
| "collect_classes sierra max_times gw batch_size d (block # bs) classes =
     (case declared_classes_of d (Num block) of
        Inl e \<Rightarrow> Some (Err (StageProvider e))
      | Inr None \<Rightarrow> Some (Err (StageClasses (MissingBlockDeclaredClasses block)))
      | Inr (Some declared) \<Rightarrow>
          (let class_hashes = om_keys declared in
           case download_classes sierra max_times gw batch_size class_hashes block of
             None \<Rightarrow> None
           | Some (Inl e) \<Rightarrow> Some (Err (StageClasses e))
           | Some (Inr artifacts) \<Rightarrow>
               collect_classes sierra max_times gw batch_size d bs
                 (classes @ zip class_hashes artifacts)))"

definition classes_execute ::
  "('rpc \<Rightarrow> ('sierra, 'ce) result) \<Rightarrow> nat
    \<Rightarrow> (nat \<Rightarrow> class_hash \<Rightarrow> block_number \<Rightarrow> (('rpc, 'legacy) gw_contract_class, client_error) result)
    \<Rightarrow> nat \<Rightarrow> stage_execution_input
    \<Rightarrow> ('tx, 'rcpt, 'trace, ('sierra, 'legacy) contract_class, 'ccls) db
    \<Rightarrow> ((unit, 'ce stage_error) result
         \<times> ('tx, 'rcpt, 'trace, ('sierra, 'legacy) contract_class, 'ccls) db) option" where
  "classes_execute sierra max_times gw batch_size inp d =
     (case collect_classes sierra max_times gw batch_size d (block_range (sei_from inp) (sei_to inp)) [] of
        None \<Rightarrow> None
      | Some (Inl e) \<Rightarrow> Some (Err e, d)
      | Some (Inr classes) \<Rightarrow> Some (Ok (), fold (\<lambda>(hash, class). set_class hash class) classes d))"

section \<open>Batches\<close>

lemma try_map_ok: "(\<And>i. i \<in> set is \<Longrightarrow> f i = Ok (g i)) \<Longrightarrow> try_map f is = Ok (map g is)"
  by (induction "is") auto

lemma try_map_retry:
  "(\<And>i. i \<in> set is \<Longrightarrow> f i = Ok (g i) \<or> f i = Err e) \<Longrightarrow>
    try_map f is = Ok (map g is) \<or> try_map f is = Err e"
proof (induction "is")
  case Nil
  then show ?case by simp
next
  case (Cons i "is")
  then have "f i = Ok (g i) \<or> f i = Err e" "try_map f is = Ok (map g is) \<or> try_map f is = Err e"
    by auto
  then show ?case by auto
qed

lemma with_retry_ok:
  assumes "\<And>k. request k = Ok v \<or> request k = Err e" "retryable e"
    and "request (attempt + n) = Ok v"
  shows "with_retry retryable n attempt request = Ok v"
  using assms(3)
proof (induction n arbitrary: attempt)
  case 0
  then show ?case by simp
next
  case (Suc n)
  then show ?case using assms(1) [of attempt] assms(2) by auto
qed

text \<open>An answer of the gateway is the block or the rate limit, and the last attempt gets the block.\<close>

definition serves ::
  "nat \<Rightarrow> (nat \<Rightarrow> block_number \<Rightarrow> ('b, client_error) result) \<Rightarrow> (block_number \<Rightarrow> 'b)
    \<Rightarrow> block_number \<Rightarrow> bool" where
  "serves max_times gw g i \<longleftrightarrow>
     (\<forall>k. gw k i = Ok (g i) \<or> gw k i = Err RateLimited) \<and> gw max_times i = Ok (g i)"

lemma fetch_blocks_served:
  assumes "\<And>i. i \<in> set (block_range from to) \<Longrightarrow> serves max_times gw g i"
  shows "fetch_blocks_with_retry max_times gw from to = Ok (map g (block_range from to))"
  unfolding fetch_blocks_with_retry_def
proof (rule with_retry_ok [where e = RateLimited])
  show "fetch_blocks (gw k) from to = Ok (map g (block_range from to)) \<or>
      fetch_blocks (gw k) from to = Err RateLimited" for k
    unfolding fetch_blocks_def by (rule try_map_retry) (use assms in \<open>auto simp: serves_def\<close>)
  show "fetch_blocks (gw (0 + max_times)) from to = Ok (map g (block_range from to))"
    unfolding fetch_blocks_def by (rule try_map_ok) (use assms in \<open>auto simp: serves_def\<close>)
qed (simp add: is_rate_limited_def)

lemma unat_of_nat_u64: "m < 2 ^ 64 \<Longrightarrow> unat (of_nat m :: u64) = m"
  by (simp add: unat_of_nat take_bit_nat_eq_self)

lemma block_range_mem: "i \<in> set (block_range from to) \<longleftrightarrow> from \<le> i \<and> i \<le> to"
proof
  assume "i \<in> set (block_range from to)"
  then obtain n where n: "i = of_nat n" "unat from \<le> n" "n \<le> unat to"
    by (auto simp: block_range_def less_Suc_eq_le)
  then have "unat i = n"
    using unat_u64_bound [of to] by (simp add: unat_of_nat take_bit_nat_eq_self)
  with n show "from \<le> i \<and> i \<le> to" by (simp add: word_le_nat_alt)
next
  assume "from \<le> i \<and> i \<le> to"
  then show "i \<in> set (block_range from to)"
    unfolding block_range_def set_map
    by (intro image_eqI [of _ _ "unat i"]) (simp_all add: word_le_nat_alt less_Suc_eq_le del: upt_Suc)
qed

lemma batches_upt:
  "0 < n \<Longrightarrow> concat (map (\<lambda>k. [a + k * n..<min (a + k * n + n) c]) [0..<K]) = [a..<min (a + K * n) c]"
proof (induction K)
  case 0
  then show ?case by simp
next
  case (Suc K)
  have "[a..<min (a + K * n) c] @ [a + K * n..<min (a + K * n + n) c] = [a..<min (a + Suc K * n) c]"
  proof (cases "a + K * n \<le> c")
    case True
    then have "[a..<min (a + K * n + n) c] = [a..<a + K * n] @ [a + K * n..<min (a + K * n + n) c]"
      using upt_add_eq_append [of a "a + K * n" "min (a + K * n + n) c - (a + K * n)"] by simp
    with True show ?thesis by (simp add: add.assoc add.commute [of n])
  next
    case False
    then show ?thesis by (simp add: min_def)
  qed
  with Suc show ?case by simp
qed

lemma download_batches_served:
  assumes "\<And>i. from \<le> i \<Longrightarrow> i \<le> to \<Longrightarrow> serves max_times gw g i"
    and "\<And>s. s \<in> set starts \<Longrightarrow> from \<le> s \<and> s \<le> to"
    and "batch_size \<noteq> 0" "unat to + unat batch_size < 2 ^ 64"
  shows "download_batches oc max_times gw batch_size to starts blocks =
    Some (Ok (blocks @ map g (concat (map (\<lambda>s.
      map of_nat [unat s..<min (unat s + unat batch_size) (Suc (unat to))]) starts))))"
  using assms(2)
proof (induction starts arbitrary: blocks)
  case Nil
  then show ?case by simp
next
  case (Cons s starts)
  have s: "from \<le> s" "s \<le> to" using Cons.prems by auto
  have bound: "unat s + unat batch_size < 2 ^ 64" using s(2) assms(4) by (simp add: word_le_nat_alt)
  have pos: "0 < unat batch_size" using assms(3) by (simp add: unat_gt_0)
  have e: "unat (s + batch_size) = unat s + unat batch_size" by (rule unat_add_no_overflow [OF bound])
  have "1 \<le> s + batch_size" using e pos by (simp add: word_le_nat_alt)
  then have sub: "rust_sub oc (s + batch_size) 1 = Some (s + batch_size - 1)"
    and e1: "unat (s + batch_size - 1) = unat s + unat batch_size - 1"
    by (auto simp: rust_sub_def not_less unat_sub e)
  have range: "block_range s (min (s + batch_size - 1) to) =
      map of_nat [unat s..<min (unat s + unat batch_size) (Suc (unat to))]"
    using e1 pos
    by (auto simp: block_range_def min_def word_le_nat_alt simp del: upt_Suc intro!: arg_cong2 [of _ _ _ _ upt])
  have "fetch_blocks_with_retry max_times gw s (min (s + batch_size - 1) to) =
      Ok (map g (block_range s (min (s + batch_size - 1) to)))"
    using assms(1) s by (intro fetch_blocks_served) (auto simp: block_range_mem)
  then show ?case
    using Cons by (simp add: rust_add_no_overflow [OF bound] sub range)
qed

lemma download_blocks_served:
  assumes "\<And>i. from \<le> i \<Longrightarrow> i \<le> to \<Longrightarrow> serves max_times gw g i"
    and "batch_size \<noteq> 0" "unat to + unat batch_size < 2 ^ 64"
  shows "download_blocks oc max_times gw batch_size from to = Some (Ok (map g (block_range from to)))"
proof (cases "to < from")
  case True
  with assms(2) show ?thesis
    by (simp add: download_blocks_def step_by_def block_range_def word_less_nat_alt)
next
  case False
  let ?n = "unat batch_size" and ?a = "unat from"
  let ?K = "Suc ((unat to - ?a) div ?n)"
  have n: "0 < ?n" using assms(2) by (simp add: unat_gt_0)
  have le: "?a \<le> unat to" using False by (simp add: word_less_nat_alt)
  have kb: "?a + k * ?n \<le> unat to" if "k < ?K" for k
  proof -
    have "k * ?n \<le> unat to - ?a"
      using that n by (metis div_times_less_eq_dividend less_Suc_eq_le mult_le_mono1 order_trans)
    with le show ?thesis by simp
  qed
  have u: "unat (of_nat (?a + k * ?n) :: u64) = ?a + k * ?n" if "k < ?K" for k
  proof -
    have "?a + k * ?n < 2 ^ 64" using kb [OF that] unat_u64_bound [of to] by simp
    then show ?thesis by (rule unat_of_nat_u64)
  qed
  have starts: "step_by from to batch_size = map (\<lambda>k. of_nat (?a + k * ?n)) [0..<?K]"
    using False by (simp add: step_by_def)
  have ineq: "from \<le> s \<and> s \<le> to" if "s \<in> set (step_by from to batch_size)" for s
    using that u kb unfolding starts by (auto simp: word_le_nat_alt)
  have "concat (map (\<lambda>s. map of_nat [unat s..<min (unat s + ?n) (Suc (unat to))])
      (step_by from to batch_size)) =
    map (of_nat :: nat \<Rightarrow> u64)
      (concat (map (\<lambda>k. [?a + k * ?n..<min (?a + k * ?n + ?n) (Suc (unat to))]) [0..<?K]))"
    unfolding starts map_concat map_map comp_def
    by (intro arg_cong [of _ _ concat] map_cong [OF refl]) (simp only: u set_upt atLeastLessThan_iff)
  also have "\<dots> = block_range from to"
  proof -
    have "Suc (unat to) \<le> ?a + ?K * ?n"
      using le dividend_less_div_times [OF n, of "unat to - ?a"] by simp
    then show ?thesis unfolding batches_upt [OF n] block_range_def by simp
  qed
  finally show ?thesis
    using assms(2) download_batches_served [OF assms(1) ineq assms(2,3), where oc = oc and blocks = "[]"]
    by (simp add: download_blocks_def)
qed

section \<open>Storing the blocks\<close>

text \<open>What the blocks stage hands to the writer for a downloaded block.\<close>

definition served_input ::
  "state_update_with_block \<Rightarrow> (tx, receipt, 'trace, 'cls) block_input" where
  "served_input b =
     (case extract_block_data b of
        Some (Inr (block, receipts, state_updates)) \<Rightarrow> (block, state_updates, receipts, []))"

lemma store_blocks_ok:
  assumes "\<forall>b \<in> set bs. \<exists>x :: _ \<times> _ \<times> 'cls state_updates_with_classes. extract_block_data b = Some (Ok x)"
  shows "store_blocks pc bs (d :: (tx, receipt, 'trace, 'cls, 'ccls) db) =
    Some (Ok (), insert_chain pc (map served_input bs) d)"
  using assms
proof (induction bs arbitrary: d)
  case Nil
  then show ?case by (simp add: insert_chain_def)
next
  case (Cons b bs)
  then obtain block rs and su :: "'cls state_updates_with_classes" where
    x: "extract_block_data b = Some (Ok (block, rs, su))" by fastforce
  have "insert_input pc (served_input b :: (_, _, 'trace, 'cls) block_input) d =
      insert_block_with_states_and_receipts pc block su rs [] d"
    by (simp add: served_input_def x insert_input_def)
  with Cons show ?case by (simp add: x insert_chain_def)
qed

lemma sorted_om_keys: "om_ok m \<Longrightarrow> sorted_wrt (<) (om_keys m)"
  by (simp add: om_ok_def om_keys_def)

lemma set_om_insert: "set (om_insert k v m) \<subseteq> insert (k, v) (set m)"
  by (induction m rule: om_insert.induct) auto

lemma set_om_collect: "set (om_collect es) \<subseteq> set es"
proof -
  have "set (fold (\<lambda>(k, v). om_insert k v) es m) \<subseteq> set es \<union> set m" for m
  proof (induction es arbitrary: m)
    case Nil
    then show ?case by simp
  next
    case (Cons e es)
    then show ?case
      using Cons.IH [of "om_insert (fst e) (snd e) m"] set_om_insert [of "fst e" "snd e" m]
      by (cases e) auto
  qed
  from this [of "[]"] show ?thesis by (simp add: om_collect_def)
qed

lemma state_updates_from_diff_ok:
  "om_ok (gsd_nonces v) \<Longrightarrow> state_updates_ok (state_updates_from_diff v)"
  by (auto simp: state_updates_ok_def state_updates_from_diff_def Let_def om_ok_collect sorted_om_keys
      dest!: subsetD [OF set_om_collect])

lemma extract_block_data_Ok:
  "extract_block_data b = Some (Ok (block, rs, su)) \<longleftrightarrow>
     (\<exists>txs status header. try_map tx_try_from (gb_transactions (sub_block b)) = Ok txs \<and>
        finality_of_status (gb_status (sub_block b)) = Some status \<and>
        those (map receipt_of (zip (gb_transaction_receipts (sub_block b)) txs)) = Some rs \<and>
        extract_header (sub_block b) (length txs) = Some header \<and>
        block = \<lparr>sbs_block = \<lparr>sb_hash = unwrap_or 0 (gb_block_hash (sub_block b)), sb_header = header,
          sb_body = txs\<rparr>, sbs_status = status\<rparr> \<and>
        su = \<lparr>suc_state_updates = state_updates_from_diff (gsu_state_diff (sub_state_update b)),
          suc_classes = []\<rparr>)"
  by (cases "try_map tx_try_from (gb_transactions (sub_block b))")
    (auto simp: extract_block_data_def Let_def bind_eq_Some_conv)

lemma extract_block_data_parts:
  assumes "extract_block_data b = Some (Ok (block, rs, su))"
  shows "h_number (sb_header (sbs_block block)) = unwrap_or 0 (gb_block_number (sub_block b))"
    and "suc_state_updates su = state_updates_from_diff (gsu_state_diff (sub_state_update b))"
  using assms by (auto simp: extract_block_data_Ok extract_header_def bind_eq_Some_conv)

text \<open>A block of the gateway that the stage can store as block \<open>i\<close>: it has that number, its nonces are
  a map, and its conversion neither fails nor panics.\<close>

definition storable :: "state_update_with_block \<Rightarrow> block_number \<Rightarrow> bool" where
  "storable b i \<longleftrightarrow>
     gb_block_number (sub_block b) = Some i \<and>
     om_ok (gsd_nonces (gsu_state_diff (sub_state_update b))) \<and>
     (\<exists>x :: _ \<times> _ \<times> unit state_updates_with_classes. extract_block_data b = Some (Ok x))"

text \<open>The conversion does not depend on the type of the classes, of which it returns none.\<close>

lemma extract_block_data_any:
  assumes "extract_block_data b = Some (Ok (block, rs, su :: 'a state_updates_with_classes))"
  shows "extract_block_data b = Some (Ok (block, rs,
    \<lparr>suc_state_updates = suc_state_updates su, suc_classes = []\<rparr> :: 'b state_updates_with_classes))"
  using assms by (auto simp: extract_block_data_Ok)

lemma storable_input:
  assumes "storable b i"
  shows "\<exists>x :: _ \<times> _ \<times> 'cls state_updates_with_classes. extract_block_data b = Some (Ok x)"
    and "input_number (served_input b :: (tx, receipt, 'trace, 'cls) block_input) = i"
    and "input_updates (served_input b :: (tx, receipt, 'trace, 'cls) block_input) =
      state_updates_from_diff (gsu_state_diff (sub_state_update b))"
proof -
  obtain block rs and su :: "unit state_updates_with_classes" where
    x: "extract_block_data b = Some (Ok (block, rs, su))"
    using assms by (auto simp: storable_def)
  let ?su = "\<lparr>suc_state_updates = suc_state_updates su, suc_classes = []\<rparr> :: 'cls state_updates_with_classes"
  have y: "extract_block_data b = Some (Ok (block, rs, ?su))" by (rule extract_block_data_any [OF x])
  then show "\<exists>x :: _ \<times> _ \<times> 'cls state_updates_with_classes. extract_block_data b = Some (Ok x)" by blast
  show "input_number (served_input b :: (tx, receipt, 'trace, 'cls) block_input) = i"
    using extract_block_data_parts(1) [OF y] assms
    by (simp add: served_input_def y input_number_def storable_def unwrap_or_def)
  show "input_updates (served_input b :: (tx, receipt, 'trace, 'cls) block_input) =
      state_updates_from_diff (gsu_state_diff (sub_state_update b))"
    using extract_block_data_parts(2) [OF y] by (simp add: served_input_def y input_updates_def)
qed

lemma sorted_block_range: "sorted_wrt (<) (block_range a b)"
proof -
  have "sorted_wrt (\<lambda>x y. (of_nat x :: u64) < of_nat y) [unat a..<Suc (unat b)]"
    using unat_u64_bound [of b]
    by (intro sorted_wrt_mono_rel [OF _ strict_sorted_iff [THEN iffD2]])
      (auto simp: word_less_nat_alt unat_of_nat_u64 simp del: upt_Suc)
  then show ?thesis by (simp add: block_range_def sorted_wrt_map del: upt_Suc)
qed

lemma chain_ok_served:
  fixes bs :: "(tx, receipt, 'trace, 'cls) block_input list"
  assumes "chain_ok bs" "\<forall>b \<in> set bs. input_number b < from" "Suc (unat to) < 2 ^ 64"
    and "\<And>i. from \<le> i \<Longrightarrow> i \<le> to \<Longrightarrow> storable (g i) i"
  shows "chain_ok (bs @ map (\<lambda>i. served_input (g i)) (block_range from to))"
proof -
  let ?new = "map (\<lambda>i. served_input (g i)) (block_range from to) :: (tx, receipt, 'trace, 'cls) block_input list"
  have num: "map input_number ?new = block_range from to"
    using storable_input(2) [OF assms(4)] by (auto simp: comp_def block_range_mem intro!: map_idI)
  have upd: "state_updates_ok (input_updates b) \<and> Suc (unat (input_number b)) < 2 ^ 64" if new: "b \<in> set ?new" for b
  proof -
    obtain i where i: "from \<le> i" "i \<le> to" and b: "b = served_input (g i)"
      using new by (auto simp: block_range_mem)
    note st = assms(4) [OF i]
    show ?thesis
      using storable_input(2,3) [OF st, where 'trace = 'trace and 'cls = 'cls] st i assms(3)
      by (auto simp: b storable_def word_le_nat_alt intro: state_updates_from_diff_ok)
  qed
  have "\<forall>x \<in> set (map input_number bs). \<forall>y \<in> set (block_range from to). x < y"
    using assms(2) by (auto simp: block_range_mem intro: less_le_trans)
  moreover have "\<forall>b \<in> set ?new. state_updates_ok (input_updates b) \<and> Suc (unat (input_number b)) < 2 ^ 64"
    using upd by blast
  ultimately show ?thesis
    using assms(1) sorted_block_range
    unfolding chain_ok_def map_append num sorted_wrt_append set_append by blast
qed

section \<open>Properties\<close>

text \<open>A block without transactions that sets one storage slot to its number, for the witnesses.\<close>

definition sample_served :: "block_number \<Rightarrow> state_update_with_block" where
  "sample_served i =
     \<lparr>sub_state_update =
        \<lparr>gsu_block_hash = None, gsu_new_root = None, gsu_old_root = 0,
         gsu_state_diff =
           \<lparr>gsd_storage_diffs = [(1, [\<lparr>sd_key = 0, sd_value = felt (unat i)\<rparr>])],
            gsd_deployed_contracts = [], gsd_old_declared_contracts = [], gsd_declared_classes = [],
            gsd_nonces = [], gsd_replaced_classes = []\<rparr>\<rparr>,
      sub_block =
        \<lparr>gb_block_hash = Some (felt (unat i)), gb_block_number = Some i, gb_parent_block_hash = 0,
         gb_timestamp = 0, gb_sequencer_address = None, gb_state_root = None,
         gb_transaction_commitment = None, gb_event_commitment = None, gb_status = GwAcceptedOnL2,
         gb_l1_da_mode = Blob, gb_l1_gas_price = \<lparr>rp_price_in_fri = 1, rp_price_in_wei = 1\<rparr>,
         gb_l1_data_gas_price = \<lparr>rp_price_in_fri = 1, rp_price_in_wei = 1\<rparr>,
         gb_transactions = [], gb_transaction_receipts = [], gb_starknet_version = None\<rparr>\<rparr>"

definition sample_gateway :: "nat \<Rightarrow> block_number \<Rightarrow> (state_update_with_block, client_error) result" where
  "sample_gateway k i = (if k = 0 \<and> i = 3 then Err RateLimited else Ok (sample_served i))"

lemma sample_serves: "serves 3 sample_gateway sample_served i"
  by (simp add: serves_def sample_gateway_def)

lemma sample_storable: "storable (sample_served i) i"
  by (simp add: storable_def sample_served_def extract_block_data_def extract_header_def Let_def
      to_gas_prices_def felt_to_u128_def nat_of_felt_felt one_felt_eq stark_prime_def)

lemma sample_updates_served:
  "om_get (storage_updates (state_updates_from_diff
     (gsu_state_diff (sub_state_update (sample_served i))))) 1 = Some [(0, felt (unat i))]"
  by (simp add: sample_served_def state_updates_from_diff_def om_collect_def om_get_def)

text \<open>C35: When the gateway answers every request for a block with the block or with the rate limit, and gives the
  block at the last attempt, the batched download returns the blocks of the range, each
  once and in order, whatever the batch size and wherever the rate limit strikes, without a
  panic.  A batch size of zero panics.\<close>

theorem download_blocks_exact:
  assumes "\<And>i. from \<le> i \<Longrightarrow> i \<le> to \<Longrightarrow> serves max_times gw g i"
    and "unat to + unat batch_size < 2 ^ 64"
  shows "download_blocks oc max_times gw batch_size from to =
    (if batch_size = 0 then None else Some (Ok (map (\<lambda>n. g (of_nat n)) [unat from..<Suc (unat to)])))"
  using download_blocks_served [OF assms(1) _ assms(2)]
  by (simp add: block_range_def download_blocks_def comp_def del: upt_Suc)

theorem download_blocks_exact_witness:
  "download_blocks True 3 sample_gateway 2 1 5 =
    Some (Ok [sample_served 1, sample_served 2, sample_served 3, sample_served 4, sample_served 5])"
  by (subst download_blocks_exact [where g = sample_served])
    (simp_all add: sample_serves upt_rec)



end
