(* ===== verification/Da_Encoding.thy ===== *)
theory Da_Encoding
  imports Primitives
begin

text \<open>
  The data availability format of a state diff (\<open>primitives/src/da/encoding.rs\<close>).  A \<open>BigUint\<close> is a
  natural number.  \<open>Metadata::decode\<close> works on the binary digits of the word, most significant
  first, padded to at least 256; the model does the same on a list of digits.  \<open>None\<close> is the panic of
  \<open>Metadata::encode\<close> for a nonce that does not fit into 64 bits.
\<close>

unbundle bit_operations_syntax

section \<open>Metadata\<close>

datatype encoding_error =
    MissingUpdatesCount | MissingDeclarationsCount | MissingAddress | MissingMetadata
  | MissingStorageKey | MissingStorageValue | MissingNewClassHash | MissingClassHash
  | DaMissingCompiledClassHash | InvalidValue | InvalidMetadata | ParseInt int_error_kind

record metadata =
  md_class_information_flag :: bool
  md_new_nonce :: "felt option"
  md_total_storage_updates :: nat

definition metadata_default :: metadata where
  "metadata_default =
     \<lparr>md_class_information_flag = False, md_new_nonce = None, md_total_storage_updates = 0\<rparr>"

definition felt_to_u64 :: "felt \<Rightarrow> u64 option" where
  "felt_to_u64 a = (if nat_of_felt a < 2 ^ 64 then Some (of_nat (nat_of_felt a)) else None)"

definition metadata_encode :: "metadata \<Rightarrow> nat option" where
  "metadata_encode m =
     (let word = (if md_class_information_flag m then 0 OR push_bit 128 1 else 0) in
      case md_new_nonce m of
        None \<Rightarrow> Some (word OR md_total_storage_updates m)
      | Some nonce \<Rightarrow>
          map_option (\<lambda>n. (word OR push_bit 64 (unat n)) OR md_total_storage_updates m)
            (felt_to_u64 nonce))"

text \<open>\<open>format!("{word:0>256b}")\<close> and \<open>from_str_radix\<close> with radix 2.\<close>

fun bin_digits :: "nat \<Rightarrow> bool list" where
  "bin_digits w = (if w = 0 then [] else bin_digits (w div 2) @ [odd w])"

declare bin_digits.simps [simp del]

definition padded_bits :: "nat \<Rightarrow> bool list" where
  "padded_bits w = replicate (256 - length (bin_digits w)) False @ bin_digits w"

definition from_bits :: "bool list \<Rightarrow> nat" where
  "from_bits bs = foldl (\<lambda>acc b. 2 * acc + (if b then 1 else 0)) 0 bs"

definition str_get :: "nat \<Rightarrow> nat \<Rightarrow> 'a list \<Rightarrow> 'a list option" where
  "str_get i n xs = (if i + n \<le> length xs then Some (take n (drop i xs)) else None)"

definition metadata_decode :: "nat \<Rightarrow> (metadata, encoding_error) result" where
  "metadata_decode word =
     (let bits = padded_bits word in
      and_then (ok_or (str_get 127 1 bits) InvalidMetadata) (\<lambda>flag.
      and_then (ok_or (str_get 128 64 bits) InvalidMetadata) (\<lambda>nonce.
      let nonce = felt (from_bits nonce);
          new_nonce = (if nonce = 0 then None else Some nonce) in
      and_then (ok_or (str_get 192 64 bits) InvalidMetadata) (\<lambda>total.
      Ok \<lparr>md_class_information_flag = (from_bits flag = 1), md_new_nonce = new_nonce,
          md_total_storage_updates = from_bits total\<rparr>))))"

section \<open>Encoding\<close>

record contract_update =
  cu_metadata :: metadata
  cu_class_hash :: "class_hash option"
  cu_storage_updates :: "(storage_key, storage_value) ordered_map"

definition contract_update_default :: contract_update where
  "contract_update_default =
     \<lparr>cu_metadata = metadata_default, cu_class_hash = None, cu_storage_updates = []\<rparr>"

definition contract_update_encode :: "contract_update \<Rightarrow> nat list option" where
  "contract_update_encode u =
     map_option (\<lambda>w.
         w # (case cu_class_hash u of None \<Rightarrow> [] | Some h \<Rightarrow> [nat_of_felt h])
           @ concat (map (\<lambda>(k, v). [nat_of_felt k, nat_of_felt v]) (cu_storage_updates u)))
       (metadata_encode (cu_metadata u))"

text \<open>\<open>contract_updates.entry(addr).or_default()\<close>, then the change of the entry.\<close>

definition entry_modify ::
  "contract_address \<Rightarrow> (contract_update \<Rightarrow> contract_update)
    \<Rightarrow> (contract_address, contract_update) ordered_map
    \<Rightarrow> (contract_address, contract_update) ordered_map" where
  "entry_modify addr f m =
     om_insert addr (f (case om_get m addr of None \<Rightarrow> contract_update_default | Some u \<Rightarrow> u)) m"

definition set_nonce_entry where
  "set_nonce_entry e =
     entry_modify (fst e) (\<lambda>u. u\<lparr>cu_metadata := (cu_metadata u)\<lparr>md_new_nonce := Some (snd e)\<rparr>\<rparr>)"

definition set_class_entry where
  "set_class_entry e =
     entry_modify (fst e) (\<lambda>u. u\<lparr>cu_metadata := (cu_metadata u)\<lparr>md_class_information_flag := True\<rparr>,
       cu_class_hash := Some (snd e)\<rparr>)"

definition set_storage_entry where
  "set_storage_entry e =
     entry_modify (fst e) (\<lambda>u. u\<lparr>cu_metadata :=
         (cu_metadata u)\<lparr>md_total_storage_updates := length (snd e)\<rparr>,
       cu_storage_updates := snd e\<rparr>)"

definition collect_contract_updates ::
  "state_updates \<Rightarrow> (contract_address, contract_update) ordered_map" where
  "collect_contract_updates su =
     (let m = fold set_nonce_entry (nonce_updates su) [];
          m = fold set_class_entry (deployed_contracts su) m
      in fold set_storage_entry (storage_updates su) m)"

fun encode_updates :: "(contract_address, contract_update) ordered_map \<Rightarrow> nat list option" where
  "encode_updates [] = Some []"
| "encode_updates ((addr, u) # m) =
     Option.bind (contract_update_encode u) (\<lambda>ws.
     Option.bind (encode_updates m) (\<lambda>rest. Some (nat_of_felt addr # ws @ rest)))"

definition encode_state_updates :: "state_updates \<Rightarrow> nat list option" where
  "encode_state_updates su =
     (let contract_updates = collect_contract_updates su in
      Option.bind (encode_updates contract_updates) (\<lambda>ws.
      Some (length contract_updates # ws @ length (declared_classes su)
        # concat (map (\<lambda>(h, c). [nat_of_felt h, nat_of_felt c]) (declared_classes su)))))"

section \<open>Decoding\<close>

definition next_word :: "encoding_error \<Rightarrow> nat list \<Rightarrow> (nat \<times> nat list, encoding_error) result" where
  "next_word e ws = (case ws of [] \<Rightarrow> Err e | w # rest \<Rightarrow> Ok (w, rest))"

definition to_usize :: "nat \<Rightarrow> nat option" where
  "to_usize w = (if w < 2 ^ 64 then Some w else None)"

text \<open>A loop that reads \<open>n\<close> pairs of felts into a map: the storage updates and the declarations.\<close>

fun decode_pairs ::
  "encoding_error \<Rightarrow> encoding_error \<Rightarrow> nat \<Rightarrow> nat list \<Rightarrow> (felt, felt) ordered_map
    \<Rightarrow> ((felt, felt) ordered_map \<times> nat list, encoding_error) result" where
  "decode_pairs ek ev 0 ws m = Ok (m, ws)"
| "decode_pairs ek ev (Suc n) ws m =
     and_then (next_word ek ws) (\<lambda>(key, ws).
     and_then (next_word ev ws) (\<lambda>(val, ws).
     decode_pairs ek ev n ws (om_insert (felt key) (felt val) m)))"

definition decode_update ::
  "nat list \<Rightarrow> state_updates \<Rightarrow> (state_updates \<times> nat list, encoding_error) result" where
  "decode_update ws su =
     and_then (next_word MissingAddress ws) (\<lambda>(address, ws).
     let address = felt address in
     and_then (next_word MissingMetadata ws) (\<lambda>(metadata, ws).
     and_then (metadata_decode metadata) (\<lambda>metadata.
     and_then
       (if md_class_information_flag metadata
        then map_ok (\<lambda>(h, ws). (Some (felt h), ws)) (next_word MissingNewClassHash ws)
        else Ok (None, ws)) (\<lambda>(class_hash, ws).
     and_then (decode_pairs MissingStorageKey MissingStorageValue
         (md_total_storage_updates metadata) ws []) (\<lambda>(storages, ws).
     let su = (if storages \<noteq> []
               then su\<lparr>storage_updates := om_insert address storages (storage_updates su)\<rparr> else su);
         su = (case md_new_nonce metadata of
                 Some nonce \<Rightarrow> su\<lparr>nonce_updates := om_insert address nonce (nonce_updates su)\<rparr>
               | None \<Rightarrow> su);
         su = (case class_hash of
                 Some hash \<Rightarrow> su\<lparr>deployed_contracts := om_insert address hash (deployed_contracts su)\<rparr>
               | None \<Rightarrow> su)
     in Ok (su, ws))))))"

fun decode_updates ::
  "nat \<Rightarrow> nat list \<Rightarrow> state_updates \<Rightarrow> (state_updates \<times> nat list, encoding_error) result" where
  "decode_updates 0 ws su = Ok (su, ws)"
| "decode_updates (Suc n) ws su =
     and_then (decode_update ws su) (\<lambda>(su, ws). decode_updates n ws su)"

definition decode_state_updates :: "nat list \<Rightarrow> (state_updates, encoding_error) result" where
  "decode_state_updates value =
     (if value = [] then Ok state_updates_default
      else
        and_then (next_word MissingUpdatesCount value) (\<lambda>(total, ws).
        and_then (ok_or (to_usize total) InvalidValue) (\<lambda>total_updates.
        and_then (decode_updates total_updates ws state_updates_default) (\<lambda>(su, ws).
        and_then (next_word MissingDeclarationsCount ws) (\<lambda>(total, ws).
        and_then (ok_or (to_usize total) InvalidValue) (\<lambda>total_declarations.
        and_then (decode_pairs MissingClassHash DaMissingCompiledClassHash
            total_declarations ws (declared_classes su)) (\<lambda>(declared, ws).
        Ok (su\<lparr>declared_classes := declared\<rparr>))))))))"

section \<open>Binary digits\<close>

lemma from_bits_append: "from_bits (xs @ ys) = from_bits xs * 2 ^ length ys + from_bits ys"
proof (induction ys rule: rev_induct)
  case Nil
  then show ?case by (simp add: from_bits_def)
next
  case (snoc y ys)
  have "from_bits (zs @ [y]) = 2 * from_bits zs + (if y then 1 else 0)" for zs
    by (simp add: from_bits_def)
  with snoc show ?case by (simp flip: append_assoc)
qed

lemma from_bits_less: "from_bits xs < 2 ^ length xs"
  by (induction xs rule: rev_induct) (auto simp: from_bits_def)

lemma from_bits_replicate: "from_bits (replicate n False) = 0"
  by (induction n) (simp_all add: from_bits_def flip: replicate_append_same)

lemma from_bits_bin_digits: "from_bits (bin_digits w) = w"
proof (induction w rule: bin_digits.induct)
  case (1 w)
  then show ?case
    by (subst bin_digits.simps)
      (auto simp: from_bits_append, auto simp: from_bits_def mult.commute [of _ 2])
qed

lemma length_bin_digits: "w < 2 ^ n \<Longrightarrow> length (bin_digits w) \<le> n"
proof (induction n arbitrary: w)
  case 0
  then show ?case by (simp add: bin_digits.simps)
next
  case (Suc n)
  then show ?case using Suc.IH [of "w div 2"] by (subst bin_digits.simps) auto
qed

lemma padded_bits_ok:
  assumes "w < 2 ^ 256"
  shows "length (padded_bits w) = 256" "from_bits (padded_bits w) = w"
  using length_bin_digits [OF assms]
  by (simp_all add: padded_bits_def from_bits_append from_bits_replicate from_bits_bin_digits)

lemma str_get_bits:
  assumes "i + n + l = length bs"
  shows "\<exists>cs. str_get i n bs = Some cs \<and> from_bits cs = from_bits bs div 2 ^ l mod 2 ^ n"
proof -
  let ?A = "take i bs" and ?B = "take n (drop i bs)" and ?C = "drop (i + n) bs"
  have bs: "bs = ?A @ ?B @ ?C" by (metis append_take_drop_id drop_drop add.commute)
  have len: "length ?B = n" "length ?C = l" using assms by auto
  have "from_bits bs = (from_bits ?A * 2 ^ n + from_bits ?B) * 2 ^ l + from_bits ?C"
    by (subst bs) (simp only: from_bits_append length_append len power_add algebra_simps)
  moreover have "from_bits ?C < 2 ^ l" "from_bits ?B < 2 ^ n"
    using from_bits_less [of ?C] from_bits_less [of ?B] len by simp_all
  ultimately have "from_bits bs div 2 ^ l mod 2 ^ n = from_bits ?B" by simp
  then show ?thesis using assms by (simp add: str_get_def)
qed

lemma metadata_decode_word:
  assumes "w < 2 ^ 256"
  shows "metadata_decode w = Ok
    \<lparr>md_class_information_flag = (w div 2 ^ 128 mod 2 = 1),
     md_new_nonce = (let n = felt (w div 2 ^ 64 mod 2 ^ 64) in if n = 0 then None else Some n),
     md_total_storage_updates = w mod 2 ^ 64\<rparr>"
proof -
  note bits = padded_bits_ok [OF assms]
  obtain f n t where
    "str_get 127 1 (padded_bits w) = Some f" "from_bits f = w div 2 ^ 128 mod 2 ^ 1"
    "str_get 128 64 (padded_bits w) = Some n" "from_bits n = w div 2 ^ 64 mod 2 ^ 64"
    "str_get 192 64 (padded_bits w) = Some t" "from_bits t = w div 2 ^ 0 mod 2 ^ 64"
    using str_get_bits [of 127 1 128 "padded_bits w"] str_get_bits [of 128 64 64 "padded_bits w"]
      str_get_bits [of 192 64 0 "padded_bits w"] unfolding bits by auto
  then show ?thesis by (simp add: metadata_decode_def Let_def)
qed

section \<open>The metadata round trip\<close>

lemma push_bit_or: "a < 2 ^ k \<Longrightarrow> push_bit k b OR a = b * 2 ^ k + (a :: nat)"
proof -
  assume a: "a < 2 ^ k"
  have "\<not> bit (push_bit k b) n \<or> \<not> bit a n" for n
  proof (cases "k \<le> n")
    case True
    then have "a < 2 ^ n" using a by (meson less_le_trans one_le_numeral power_increasing)
    then show ?thesis by (simp add: bit_iff_odd)
  next
    case False
    then show ?thesis by (simp add: bit_push_bit_iff)
  qed
  then have "push_bit k b + a = push_bit k b OR a" by (rule disjunctive_add)
  then show ?thesis by (simp add: push_bit_nat_def)
qed

definition metadata_ok :: "metadata \<Rightarrow> bool" where
  "metadata_ok m \<longleftrightarrow>
     md_total_storage_updates m < 2 ^ 64 \<and>
     (\<forall>n. md_new_nonce m = Some n \<longrightarrow> n \<noteq> 0 \<and> nat_of_felt n < 2 ^ 64)"

definition nonce_word :: "metadata \<Rightarrow> nat" where
  "nonce_word m = (case md_new_nonce m of None \<Rightarrow> 0 | Some n \<Rightarrow> nat_of_felt n)"

lemma metadata_encode_word:
  assumes "metadata_ok m"
  shows "metadata_encode m = Some
    (((if md_class_information_flag m then 1 else 0) * 2 ^ 64 + nonce_word m) * 2 ^ 64
      + md_total_storage_updates m)"
proof -
  let ?t = "md_total_storage_updates m" and ?f = "if md_class_information_flag m then 1 else 0 :: nat"
  have t: "?t < 2 ^ 64" using assms by (simp add: metadata_ok_def)
  have n: "nonce_word m < 2 ^ 64" using assms by (auto simp: metadata_ok_def nonce_word_def split: option.split)
  have "push_bit 128 ?f OR (push_bit 64 (nonce_word m) OR ?t) =
      (?f * 2 ^ 64 + nonce_word m) * 2 ^ 64 + ?t"
  proof -
    have "nonce_word m * 2 ^ 64 + ?t < 2 ^ 128" using n t by simp
    then show ?thesis unfolding push_bit_or [OF t] by (subst push_bit_or) simp_all
  qed
  moreover have "metadata_encode m = Some (push_bit 128 ?f OR (push_bit 64 (nonce_word m) OR ?t))"
    using assms n
    by (auto simp: metadata_encode_def Let_def nonce_word_def felt_to_u64_def metadata_ok_def
        unat_of_nat take_bit_nat_eq_self or.assoc split: option.split)
  ultimately show ?thesis by simp
qed

lemma word_parts:
  fixes t n f M :: nat
  assumes "t < M" "n < M"
  shows "((f * M + n) * M + t) mod M = t" "((f * M + n) * M + t) div M mod M = n"
    "((f * M + n) * M + t) div (M * M) = f"
  using assms by (simp_all add: div_mult2_eq)

lemma metadata_roundtrip:
  assumes "metadata_ok m"
  obtains w where "metadata_encode m = Some w" "metadata_decode w = Ok m"
proof -
  let ?f = "if md_class_information_flag m then 1 else 0 :: nat"
  let ?n = "nonce_word m" and ?t = "md_total_storage_updates m"
  let ?w = "(?f * 2 ^ 64 + ?n) * 2 ^ 64 + ?t"
  have b: "?t < 2 ^ 64" "?n < 2 ^ 64"
    using assms by (auto simp: metadata_ok_def nonce_word_def split: option.split)
  have "?w < 2 ^ 256" using b by simp
  note dec = metadata_decode_word [OF this]
  have "(2 :: nat) ^ 128 = 2 ^ 64 * 2 ^ 64" by simp
  then have parts: "?w mod 2 ^ 64 = ?t" "?w div 2 ^ 64 mod 2 ^ 64 = ?n" "?w div 2 ^ 128 mod 2 = ?f"
    using word_parts [OF b, of ?f] by (simp_all only: split: if_split) simp_all
  have "(let n = felt ?n in if n = 0 then None else Some n) = md_new_nonce m"
    using assms by (auto simp: nonce_word_def metadata_ok_def Let_def zero_felt_eq split: option.split)
  then have "metadata_decode ?w = Ok m"
    unfolding dec parts by simp
  with metadata_encode_word [OF assms] show ?thesis by (rule that)
qed

section \<open>The collected updates\<close>

lemma om_get_Cons: "om_get ((k, v) # m) a = (if a = k then Some v else om_get m a)"
  by (simp add: om_get_def)

lemma fold_entry_modify:
  assumes "\<And>e. step e = entry_modify (fst e) (h (snd e))" "om_ok es" "om_ok m"
  shows "om_ok (fold step es m) \<and>
    om_get (fold step es m) a =
      (case om_get es a of
         None \<Rightarrow> om_get m a
       | Some v \<Rightarrow>
           Some (h v (case om_get m a of None \<Rightarrow> contract_update_default | Some u \<Rightarrow> u)))"
  using assms(2,3)
proof (induction es arbitrary: m)
  case Nil
  then show ?case by simp
next
  case (Cons e es)
  obtain k v where e: "e = (k, v)" by (cases e)
  have "om_get es k = None"
    using Cons.prems(1) by (auto simp: e om_ok_Cons om_get_None_iff)
  moreover have "om_ok (step e m)" using Cons.prems(2) by (simp add: assms(1) entry_modify_def)
  moreover have "om_get (step e m) b =
      (if b = k then Some (h v (case om_get m k of None \<Rightarrow> contract_update_default | Some u \<Rightarrow> u))
       else om_get m b)" for b
    by (simp add: e assms(1) entry_modify_def)
  ultimately show ?case
    using Cons.IH [of "step e m"] Cons.prems(1) by (simp add: e om_get_Cons om_ok_Cons split: option.split)
qed

text \<open>The update of a contract that the three maps of a state diff give.\<close>

definition update_of :: "state_updates \<Rightarrow> contract_address \<Rightarrow> contract_update option" where
  "update_of su a =
     (let nonce = om_get (nonce_updates su) a; class = om_get (deployed_contracts su) a;
          storage = om_get (storage_updates su) a; entries = (case storage of None \<Rightarrow> [] | Some m \<Rightarrow> m)
      in if nonce = None \<and> class = None \<and> storage = None then None
         else Some
           \<lparr>cu_metadata =
              \<lparr>md_class_information_flag = class \<noteq> None, md_new_nonce = nonce,
               md_total_storage_updates = length entries\<rparr>,
            cu_class_hash = class, cu_storage_updates = entries\<rparr>)"

lemma collect_contract_updates_get:
  assumes "state_updates_ok su"
  shows "om_ok (collect_contract_updates su)"
    and "om_get (collect_contract_updates su) a = update_of su a"
proof -
  let ?m1 = "fold set_nonce_entry (nonce_updates su) []"
  let ?m2 = "fold set_class_entry (deployed_contracts su) ?m1"
  have ok: "om_ok (nonce_updates su)" "om_ok (deployed_contracts su)" "om_ok (storage_updates su)"
    using assms by (auto simp: state_updates_ok_def)
  note f1 = fold_entry_modify [of set_nonce_entry, OF set_nonce_entry_def ok(1) om_ok_Nil]
  note f2 = fold_entry_modify [of set_class_entry, OF set_class_entry_def ok(2) conjunct1 [OF f1]]
  note f3 = fold_entry_modify [of set_storage_entry, OF set_storage_entry_def ok(3) conjunct1 [OF f2]]
  show "om_ok (collect_contract_updates su)"
    using f3 by (simp add: collect_contract_updates_def Let_def)
  show "om_get (collect_contract_updates su) a = update_of su a"
    using f1 [of a] f2 [of a] f3 [of a]
    by (auto simp: collect_contract_updates_def Let_def update_of_def contract_update_default_def
        metadata_default_def split: option.splits)
qed

section \<open>Decoding what was encoded\<close>

lemma decode_pairs_encoded:
  "decode_pairs ek ev (length es) (concat (map (\<lambda>(k, v). [nat_of_felt k, nat_of_felt v]) es) @ ws) m =
    Ok (fold (\<lambda>(k, v). om_insert k v) es m, ws)"
  by (induction es arbitrary: m) (auto simp: next_word_def)

lemma collect_ok: "om_ok m \<Longrightarrow> fold (\<lambda>(k, v). om_insert k v) m [] = m"
  using om_collect_eq [of m m] by (simp add: om_collect_def om_ok_distinct)

definition apply_update ::
  "contract_address \<times> contract_update \<Rightarrow> state_updates \<Rightarrow> state_updates" where
  "apply_update e su =
     (let address = fst e; u = snd e in
      su\<lparr>storage_updates :=
           (if cu_storage_updates u \<noteq> [] then om_insert address (cu_storage_updates u) (storage_updates su)
            else storage_updates su),
         nonce_updates :=
           (case md_new_nonce (cu_metadata u) of
              Some nonce \<Rightarrow> om_insert address nonce (nonce_updates su) | None \<Rightarrow> nonce_updates su),
         deployed_contracts :=
           (case cu_class_hash u of
              Some hash \<Rightarrow> om_insert address hash (deployed_contracts su)
            | None \<Rightarrow> deployed_contracts su)\<rparr>)"

definition update_ok :: "contract_update \<Rightarrow> bool" where
  "update_ok u \<longleftrightarrow>
     metadata_ok (cu_metadata u) \<and>
     md_class_information_flag (cu_metadata u) = (cu_class_hash u \<noteq> None) \<and>
     md_total_storage_updates (cu_metadata u) = length (cu_storage_updates u) \<and>
     om_ok (cu_storage_updates u)"

lemma decode_update_encoded:
  assumes "update_ok u"
  obtains ws where "contract_update_encode u = Some ws"
    "\<And>rest su. decode_update (nat_of_felt a # ws @ rest) su = Ok (apply_update (a, u) su, rest)"
proof -
  have u: "metadata_ok (cu_metadata u)" "om_ok (cu_storage_updates u)"
    "md_class_information_flag (cu_metadata u) = (cu_class_hash u \<noteq> None)"
    "md_total_storage_updates (cu_metadata u) = length (cu_storage_updates u)"
    using assms by (auto simp: update_ok_def)
  obtain w where w: "metadata_encode (cu_metadata u) = Some w" "metadata_decode w = Ok (cu_metadata u)"
    by (rule metadata_roundtrip [OF u(1)])
  let ?pairs = "concat (map (\<lambda>(k, v). [nat_of_felt k, nat_of_felt v]) (cu_storage_updates u))"
  let ?ws = "w # (case cu_class_hash u of None \<Rightarrow> [] | Some h \<Rightarrow> [nat_of_felt h]) @ ?pairs"
  have "contract_update_encode u = Some ?ws" by (simp add: contract_update_encode_def w(1))
  moreover have "decode_update (nat_of_felt a # ?ws @ rest) su = Ok (apply_update (a, u) su, rest)" for rest su
    by (cases "cu_class_hash u"; cases "md_new_nonce (cu_metadata u)")
      (simp_all add: decode_update_def next_word_def w(2) u(3,4) decode_pairs_encoded
        collect_ok [OF u(2)] apply_update_def Let_def)
  ultimately show ?thesis by (rule that)
qed

lemma decode_updates_encoded:
  assumes "\<forall>u \<in> snd ` set es. update_ok u"
  shows "\<exists>ws. encode_updates es = Some ws \<and>
    (\<forall>rest su. decode_updates (length es) (ws @ rest) su = Ok (fold apply_update es su, rest))"
  using assms
proof (induction es)
  case Nil
  then show ?case by simp
next
  case (Cons e es)
  obtain a u where e: "e = (a, u)" by (cases e)
  obtain ws where ws: "contract_update_encode u = Some ws"
    "\<And>rest su. decode_update (nat_of_felt a # ws @ rest) su = Ok (apply_update (a, u) su, rest)"
    using Cons.prems decode_update_encoded [of u a] by (auto simp: e)
  obtain ws' where "encode_updates es = Some ws'"
    "\<forall>rest su. decode_updates (length es) (ws' @ rest) su = Ok (fold apply_update es su, rest)"
    using Cons by auto
  then show ?case using ws by (simp add: e)
qed

text \<open>The maps after applying the updates of distinct contracts.\<close>

lemma fold_insert_some:
  assumes "om_ok es" "om_ok m"
  shows "om_ok (fold (\<lambda>e m. case p (snd e) of None \<Rightarrow> m | Some v \<Rightarrow> om_insert (fst e) v m) es m) \<and>
    om_get (fold (\<lambda>e m. case p (snd e) of None \<Rightarrow> m | Some v \<Rightarrow> om_insert (fst e) v m) es m) a =
      (case Option.bind (om_get es a) p of None \<Rightarrow> om_get m a | Some v \<Rightarrow> Some v)"
  using assms
proof (induction es arbitrary: m)
  case Nil
  then show ?case by simp
next
  case (Cons e es)
  obtain k u where e: "e = (k, u)" by (cases e)
  have "om_get es k = None"
    using Cons.prems(1) by (auto simp: e om_ok_Cons om_get_None_iff)
  then show ?case
    using Cons.IH [of "case p u of None \<Rightarrow> m | Some v \<Rightarrow> om_insert k v m"] Cons.prems
    by (auto simp: e om_ok_Cons om_get_Cons split: option.splits)
qed

lemma apply_updates_get:
  assumes "om_ok es"
  defines "r \<equiv> fold apply_update es state_updates_default"
  shows "om_ok (nonce_updates r)" "om_ok (deployed_contracts r)" "om_ok (storage_updates r)"
    and "om_get (nonce_updates r) a = Option.bind (om_get es a) (\<lambda>u. md_new_nonce (cu_metadata u))"
    and "om_get (deployed_contracts r) a = Option.bind (om_get es a) cu_class_hash"
    and "om_get (storage_updates r) a = Option.bind (om_get es a)
      (\<lambda>u. if cu_storage_updates u \<noteq> [] then Some (cu_storage_updates u) else None)"
proof -
  let ?ins = "\<lambda>p e m. case p (snd e) of None \<Rightarrow> m | Some v \<Rightarrow> om_insert (fst e) v m"
  have n: "nonce_updates r = fold (?ins (\<lambda>u. md_new_nonce (cu_metadata u))) es []"
    unfolding r_def by (subst fold_field [where f = nonce_updates and h = "?ins (\<lambda>u. md_new_nonce (cu_metadata u))"])
      (simp_all add: apply_update_def Let_def state_updates_default_def)
  have c: "deployed_contracts r = fold (?ins cu_class_hash) es []"
    unfolding r_def by (subst fold_field [where f = deployed_contracts and h = "?ins cu_class_hash"])
      (simp_all add: apply_update_def Let_def state_updates_default_def)
  have s: "storage_updates r = fold (?ins (\<lambda>u. if cu_storage_updates u \<noteq> [] then Some (cu_storage_updates u) else None)) es []"
    unfolding r_def by (subst fold_field [where f = storage_updates and
        h = "?ins (\<lambda>u. if cu_storage_updates u \<noteq> [] then Some (cu_storage_updates u) else None)"])
      (simp_all add: apply_update_def Let_def state_updates_default_def)
  note fn = fold_insert_some [OF assms(1) om_ok_Nil, where p = "\<lambda>u. md_new_nonce (cu_metadata u)"]
  note fc = fold_insert_some [OF assms(1) om_ok_Nil, where p = cu_class_hash]
  note fs = fold_insert_some [OF assms(1) om_ok_Nil,
      where p = "\<lambda>u. if cu_storage_updates u \<noteq> [] then Some (cu_storage_updates u) else None"]
  show "om_ok (nonce_updates r)" "om_ok (deployed_contracts r)" "om_ok (storage_updates r)"
    using fn fc fs unfolding n c s by auto
  show "om_get (nonce_updates r) a = Option.bind (om_get es a) (\<lambda>u. md_new_nonce (cu_metadata u))"
    using fn [of a] unfolding n by (auto split: option.split)
  show "om_get (deployed_contracts r) a = Option.bind (om_get es a) cu_class_hash"
    using fc [of a] unfolding c by (auto split: option.split)
  show "om_get (storage_updates r) a = Option.bind (om_get es a)
      (\<lambda>u. if cu_storage_updates u \<noteq> [] then Some (cu_storage_updates u) else None)"
    using fs [of a] unfolding s by (auto split: option.split)
qed

text \<open>The state diffs that the format can express.\<close>

definition da_encodable :: "state_updates \<Rightarrow> bool" where
  "da_encodable su \<longleftrightarrow>
     state_updates_ok su \<and>
     (\<forall>n \<in> snd ` set (nonce_updates su). n \<noteq> 0 \<and> nat_of_felt n < 2 ^ 64) \<and>
     (\<forall>m \<in> snd ` set (storage_updates su). m \<noteq> [] \<and> length m < 2 ^ 64) \<and>
     length (collect_contract_updates su) < 2 ^ 64 \<and> length (declared_classes su) < 2 ^ 64"

lemma om_get_value: "om_get m a = Some v \<Longrightarrow> v \<in> snd ` set m"
  unfolding om_get_def by (force dest: map_of_SomeD)

lemma update_of_ok:
  assumes "da_encodable su" "update_of su a = Some u"
  shows "update_ok u"
proof -
  have st: "om_ok m \<and> length m < 2 ^ 64" if "om_get (storage_updates su) a = Some m" for m
    using assms(1) om_get_value [OF that]
    by (force simp: da_encodable_def state_updates_ok_def)
  have no: "n \<noteq> 0 \<and> nat_of_felt n < 2 ^ 64" if "om_get (nonce_updates su) a = Some n" for n
    using assms(1) om_get_value [OF that] by (auto simp: da_encodable_def)
  let ?entries = "case om_get (storage_updates su) a of None \<Rightarrow> [] | Some m \<Rightarrow> m"
  have u: "u = \<lparr>cu_metadata =
      \<lparr>md_class_information_flag = om_get (deployed_contracts su) a \<noteq> None,
       md_new_nonce = om_get (nonce_updates su) a, md_total_storage_updates = length ?entries\<rparr>,
      cu_class_hash = om_get (deployed_contracts su) a, cu_storage_updates = ?entries\<rparr>"
    using assms(2) unfolding update_of_def Let_def by (simp split: if_splits)
  have "om_ok ?entries \<and> length ?entries < 2 ^ 64" using st by (simp split: option.split)
  then show ?thesis unfolding u update_ok_def metadata_ok_def using no by simp
qed

lemma decoded_updates_eq:
  assumes "da_encodable su"
  shows "fold apply_update (collect_contract_updates su) state_updates_default =
    state_updates_default\<lparr>nonce_updates := nonce_updates su, storage_updates := storage_updates su,
      deployed_contracts := deployed_contracts su\<rparr>" (is "?r = _")
proof -
  have ok: "state_updates_ok su" using assms by (simp add: da_encodable_def)
  note get = collect_contract_updates_get [OF ok]
  note maps = apply_updates_get [OF get(1), unfolded get(2)]
  have storage: "m \<noteq> []" if "om_get (storage_updates su) a = Some m" for a m
    using assms om_get_value [OF that] by (auto simp: da_encodable_def)
  have "nonce_updates ?r = nonce_updates su"
    using ok maps(1) by (intro om_eqI) (auto simp: maps state_updates_ok_def update_of_def Let_def)
  moreover have "deployed_contracts ?r = deployed_contracts su"
    using ok maps(2) by (intro om_eqI) (auto simp: maps state_updates_ok_def update_of_def Let_def)
  moreover have "storage_updates ?r = storage_updates su"
    using ok maps(3) storage
    by (intro om_eqI) (auto simp: maps state_updates_ok_def update_of_def Let_def split: option.split)
  moreover have "declared_classes ?r = [] \<and> deprecated_declared_classes ?r = [] \<and> replaced_classes ?r = []"
    by (rule fold_inv) (simp_all add: apply_update_def Let_def state_updates_default_def)
  ultimately show ?thesis by (simp add: state_updates_default_def)
qed


text \<open>A nonce of zero is lost, and a nonce above 64 bits panics.\<close>

lemma nonce_zero_lost:
  "metadata_encode (metadata_default\<lparr>md_new_nonce := Some 0\<rparr>) = metadata_encode metadata_default"
  by (simp add: metadata_encode_def metadata_default_def felt_to_u64_def zero_felt_eq nat_of_felt_felt)

lemma nonce_too_large_panics:
  "metadata_encode (metadata_default\<lparr>md_new_nonce := Some (felt (2 ^ 64))\<rparr>) = None"
  by (simp add: metadata_encode_def metadata_default_def felt_to_u64_def nat_of_felt_felt stark_prime_def)


end
