(* ===== verification/Da_Blob.thy ===== *)
theory Da_Blob
  imports Da_Encoding
begin

text \<open>
  The transform between the words of a state diff and the field elements of an EIP-4844 blob
  (\<open>primitives/src/da/math.rs\<close>, \<open>da/blob.rs\<close>, \<open>da/eip4844.rs\<close>).  A \<open>BigUint\<close> is a natural number.  \<open>fft\<close>
  evaluates a polynomial at every point by Horner's rule; \<open>ifft\<close> recovers its coefficients by
  splitting it into its even and odd parts.

  \<open>None\<close> is a panic (an index out of range, a subtraction below zero, a modulus of zero), and for \<open>ifft\<close> on
  an empty vector also the recursion that never ends.
\<close>

section \<open>Modular arithmetic\<close>

text \<open>\<open>BigUint::modpow\<close> by repeated squaring.\<close>

fun modpow :: "nat \<Rightarrow> nat \<Rightarrow> nat \<Rightarrow> nat" where
  "modpow b e p =
     (if e = 0 then 1 mod p
      else if even e then modpow (b * b mod p) (e div 2) p
      else b * modpow (b * b mod p) (e div 2) p mod p)"

declare modpow.simps [simp del]

definition div_mod :: "nat \<Rightarrow> nat \<Rightarrow> nat \<Rightarrow> nat option" where
  "div_mod a b p = (if p < 2 then None else Some (a * modpow b (p - 2) p mod p))"

section \<open>The transforms\<close>

definition fft_at :: "nat list \<Rightarrow> nat \<Rightarrow> nat \<Rightarrow> nat" where
  "fft_at elements x p =
     fold (\<lambda>j t. (t * x + elements ! j) mod p) (rev [0..<length elements]) 0"

definition fft :: "nat list \<Rightarrow> nat list \<Rightarrow> nat \<Rightarrow> nat list option" where
  "fft elements xs p =
     (let n = length elements in
      if 0 < n \<and> (length xs < n \<or> p = 0) then None
      else Some (map (\<lambda>i. fft_at elements (xs ! i) p) [0..<n]))"

text \<open>One round of the loop of \<open>ifft\<close>, at an even index.\<close>

definition ifft_pair :: "nat list \<Rightarrow> nat list \<Rightarrow> nat \<Rightarrow> nat \<Rightarrow> (nat \<times> nat \<times> nat) option" where
  "ifft_pair arr xs p i =
     (if length xs \<le> i then None
      else
        let a = arr ! i; b = arr ! (i + 1); x = xs ! i in
        Option.bind (div_mod (a + b) 2 p) (\<lambda>r0.
        Option.bind
          (if a < b then if p < b - a then None else Some (p - (b - a)) else Some (a - b)) (\<lambda>diff.
        Option.bind (div_mod diff (2 * x) p) (\<lambda>r1.
        Some (r0, r1, modpow x 2 p)))))"

lemma length_those: "those xs = Some ys \<Longrightarrow> length ys = length xs"
  by (induction xs arbitrary: ys) (auto split: option.splits)

function ifft :: "nat list \<Rightarrow> nat list \<Rightarrow> nat \<Rightarrow> nat list option" where
  "ifft arr xs p =
     (if length arr = 1 then Some arr
      else if arr = [] then None
      else
        let n = length arr div 2 in
        case those (map (\<lambda>i. ifft_pair arr xs p (2 * i)) [0..<n]) of
          None \<Rightarrow> None
        | Some rs \<Rightarrow>
            (let new_xs = map (\<lambda>r. snd (snd r)) rs in
             case ifft (map fst rs) new_xs p of
               None \<Rightarrow> None
             | Some m0 \<Rightarrow>
                 (case ifft (map (\<lambda>r. fst (snd r)) rs) new_xs p of
                    None \<Rightarrow> None
                  | Some m1 \<Rightarrow>
                      if length m0 < n \<or> length m1 < n then None
                      else Some (concat (map (\<lambda>i. [m0 ! i, m1 ! i]) [0..<n])))))"
  by auto
termination
  by (relation "measure (\<lambda>(arr, xs, p). length arr)") (auto dest!: length_those)

declare ifft.simps [simp del]

section \<open>Blobs\<close>

definition BLOB_LEN :: nat where
  "BLOB_LEN = 4096"

definition BLS_MODULUS :: nat where
  "BLS_MODULUS = 52435875175126190479447740508185965837690552500527637822603658699938581184513"

definition GENERATOR :: nat where
  "GENERATOR = 39033254847818212395286706435128746857159659164139250548781411570340225835782"

text \<open>\<open>format!("{:0kb}", i)\<close> reversed, read in base 2.\<close>

definition padded_digits :: "nat \<Rightarrow> nat \<Rightarrow> bool list" where
  "padded_digits k i = replicate (k - length (bin_digits i)) False @ bin_digits i"

definition bit_rev :: "nat \<Rightarrow> nat \<Rightarrow> nat" where
  "bit_rev k i = from_bits (rev (padded_digits k i))"

definition eval_points :: "nat \<Rightarrow> nat \<Rightarrow> nat \<Rightarrow> nat \<Rightarrow> nat list" where
  "eval_points g p k n = map (\<lambda>i. modpow g (bit_rev k i) p) [0..<n]"

definition recover :: "nat list \<Rightarrow> nat list option" where
  "recover data = ifft data (eval_points GENERATOR BLS_MODULUS 12 BLOB_LEN) BLS_MODULUS"

definition transform :: "nat list \<Rightarrow> nat list option" where
  "transform data = fft data (eval_points GENERATOR BLS_MODULUS 12 BLOB_LEN) BLS_MODULUS"

section \<open>Powers and digits\<close>

lemma modpow_eq: "modpow b e p = b ^ e mod p"
proof (induction b e p rule: modpow.induct)
  case (1 b e p)
  show ?case
  proof (cases "e = 0")
    case True
    then show ?thesis by (simp add: modpow.simps)
  next
    case False
    have sq: "(b * b mod p) ^ (e div 2) mod p = b ^ (2 * (e div 2)) mod p"
      by (simp add: power_mod power_mult power2_eq_square)
    show ?thesis
    proof (cases "even e")
      case True
      with 1 False sq show ?thesis by (subst modpow.simps) simp
    next
      case odd: False
      then have "e = Suc (2 * (e div 2))" by simp
      then have e: "b ^ e = b * b ^ (2 * (e div 2))" by (metis power_Suc)
      have "modpow b e p = b * (b ^ (2 * (e div 2)) mod p) mod p"
        using 1(2) [OF False odd] sq False odd by (subst modpow.simps) simp
      then show ?thesis unfolding e by (simp add: mod_mult_right_eq)
    qed
  qed
qed

lemma from_bits_Cons: "from_bits (b # bs) = (if b then 2 ^ length bs else 0) + from_bits bs"
  using from_bits_append [of "[b]" bs] by (simp add: from_bits_def)

lemma length_padded_digits: "i < 2 ^ k \<Longrightarrow> length (padded_digits k i) = k"
  using length_bin_digits [of i k] by (simp add: padded_digits_def)

lemma padded_digits_Suc:
  "i < 2 ^ k \<Longrightarrow> padded_digits (Suc k) (2 * i) = padded_digits k i @ [False]"
  "i < 2 ^ k \<Longrightarrow> padded_digits (Suc k) (Suc (2 * i)) = padded_digits k i @ [True]"
proof -
  show "padded_digits (Suc k) (Suc (2 * i)) = padded_digits k i @ [True]"
    by (simp add: padded_digits_def bin_digits.simps [of "Suc (2 * i)"])
  show "padded_digits (Suc k) (2 * i) = padded_digits k i @ [False]"
  proof (cases "i = 0")
    case True
    then show ?thesis by (simp add: padded_digits_def bin_digits.simps [of 0] replicate_append_same)
  next
    case False
    then show ?thesis by (simp add: padded_digits_def bin_digits.simps [of "2 * i"])
  qed
qed

lemma bit_rev_Suc:
  "i < 2 ^ k \<Longrightarrow> bit_rev (Suc k) (2 * i) = bit_rev k i"
  "i < 2 ^ k \<Longrightarrow> bit_rev (Suc k) (Suc (2 * i)) = 2 ^ k + bit_rev k i"
  by (simp_all add: bit_rev_def padded_digits_Suc from_bits_Cons length_padded_digits)

section \<open>Polynomials\<close>

text \<open>The value of a polynomial over the integers, and the list of coefficients from its even and odd ones.\<close>

definition horner :: "nat list \<Rightarrow> int \<Rightarrow> int" where
  "horner cs x = foldr (\<lambda>c acc. int c + x * acc) cs 0"

fun interleave :: "'a list \<Rightarrow> 'a list \<Rightarrow> 'a list" where
  "interleave (x # xs) (y # ys) = x # y # interleave xs ys"
| "interleave _ _ = []"

lemma horner_simps [simp]: "horner [] x = 0" "horner (c # cs) x = int c + x * horner cs x"
  by (simp_all add: horner_def)

lemma horner_interleave:
  "length es = length os \<Longrightarrow> horner (interleave es os) x = horner es (x * x) + x * horner os (x * x)"
  by (induction es os rule: interleave.induct) (auto simp: algebra_simps)

lemma mod_dvd_diff: "(P :: int) dvd h mod P - h"
  by (simp flip: mod_eq_dvd_iff)

lemma dvd_diff_trans: "(P :: int) dvd a - b \<Longrightarrow> P dvd b - c \<Longrightarrow> P dvd a - c"
  using dvd_add [of P "a - b" "b - c"] by simp

lemma horner_cong: "P dvd x - y \<Longrightarrow> P dvd horner cs x - horner cs y"
proof (induction cs)
  case Nil
  then show ?case by simp
next
  case (Cons c cs)
  have "horner (c # cs) x - horner (c # cs) y =
      x * (horner cs x - horner cs y) + (x - y) * horner cs y"
    by (simp add: algebra_simps)
  with Cons show ?case by simp
qed

lemma fold_rev_nth:
  "fold (\<lambda>j t. f (cs ! j) t) (rev [0..<length cs]) t = foldr f cs t"
proof -
  have "foldr (\<lambda>j. f (cs ! j)) [0..<length cs] t = foldr f (map ((!) cs) [0..<length cs]) t"
    by (simp add: foldr_map comp_def)
  then show ?thesis by (simp add: foldr_conv_fold map_nth)
qed

lemma fft_at_eq: "0 < p \<Longrightarrow> int (fft_at cs x p) = horner cs (int x) mod int p"
proof -
  assume p: "0 < p"
  have "fft_at cs x p = foldr (\<lambda>c t. (t * x + c) mod p) cs 0"
    unfolding fft_at_def by (rule fold_rev_nth)
  also have "int (foldr (\<lambda>c t. (t * x + c) mod p) cs 0) = horner cs (int x) mod int p"
  proof (induction cs)
    case Nil
    then show ?case by simp
  next
    case (Cons c cs)
    then have "int ((foldr (\<lambda>c t. (t * x + c) mod p) cs 0 * x + c) mod p) =
        (horner cs (int x) mod int p * int x + int c) mod int p"
      by (simp add: zmod_int)
    also have "\<dots> = (int c + int x * horner cs (int x)) mod int p"
      unfolding mod_eq_dvd_iff
    proof -
      have "horner cs (int x) mod int p * int x + int c - (int c + int x * horner cs (int x)) =
          int x * (horner cs (int x) mod int p - horner cs (int x))" by (simp add: algebra_simps)
      then show "int p dvd horner cs (int x) mod int p * int x + int c - (int c + int x * horner cs (int x))"
        using dvd_mult [OF mod_dvd_diff] by (simp only:)
    qed
    finally show ?case by simp
  qed
  finally show ?thesis .
qed

lemma split_interleave:
  "length cs = 2 * n \<Longrightarrow> \<exists>es os. cs = interleave es os \<and> length es = n \<and> length os = n \<and>
    set cs = set es \<union> set os"
proof (induction n arbitrary: cs)
  case 0
  then show ?case by (intro exI [of _ "[]"]) simp
next
  case (Suc n)
  then obtain e os' rest where cs: "cs = e # os' # rest" and "length rest = 2 * n"
    by (cases cs; cases "tl cs") auto
  with Suc.IH obtain es os where "rest = interleave es os" "length es = n" "length os = n"
    "set rest = set es \<union> set os" by blast
  then show ?case
    by (intro exI [of _ "e # es"] exI [of _ "os' # os"]) (auto simp: cs)
qed

lemma merge_interleave:
  "length es = n \<Longrightarrow> length os = n \<Longrightarrow>
    concat (map (\<lambda>i. [es ! i, os ! i]) [0..<n]) = interleave es os"
proof (induction es os arbitrary: n rule: interleave.induct)
  case (1 x xs y ys)
  then obtain m where n: "n = Suc m" "length xs = m" "length ys = m" by auto
  have "map (\<lambda>i. [(x # xs) ! i, (y # ys) ! i]) [0..<Suc m] =
      [x, y] # map (\<lambda>i. [xs ! i, ys ! i]) [0..<m]"
    by (simp add: upt_conv_Cons map_Suc_upt [symmetric] comp_def del: upt_Suc)
  then show ?case using 1(1) [of m] n by simp
qed auto

section \<open>One round of the inverse transform\<close>

lemma div_mod_exact:
  assumes p: "2 \<le> p" and unit: "int p dvd int b ^ (p - 1) - 1" and d: "int p dvd int d - int b * v"
  shows "\<exists>r. div_mod d b p = Some r \<and> int r = v mod int p"
proof -
  have pow: "int b ^ (p - 1) = int b * int b ^ (p - 2)"
    using p by (metis Suc_diff_Suc power_Suc Suc_1 less_eq_Suc_le)
  have "int d * int b ^ (p - 2) - v =
      (int d - int b * v) * int b ^ (p - 2) + (int b ^ (p - 1) - 1) * v"
    unfolding pow by (simp add: algebra_simps)
  also have "int p dvd \<dots>" using unit d by simp
  finally have "(int d * int b ^ (p - 2)) mod int p = v mod int p" by (simp add: mod_eq_dvd_iff)
  moreover have "int (d * modpow b (p - 2) p mod p) = (int d * int b ^ (p - 2)) mod int p"
    by (simp add: modpow_eq zmod_int mod_mult_right_eq)
  ultimately show ?thesis using p by (simp add: div_mod_def)
qed

lemma ifft_pair_exact:
  fixes es os :: "nat list"
  assumes p: "2 \<le> p" and two: "int p dvd 2 ^ (p - 1) - 1" and unit: "int p dvd (2 * int x) ^ (p - 1) - 1"
    and len: "length es = length os" and neg: "int p dvd int x + int y" and i: "i < length xs" "xs ! i = x"
    and a: "int (arr ! i) = horner (interleave es os) (int x) mod int p"
    and b: "int (arr ! (i + 1)) = horner (interleave es os) (int y) mod int p"
  shows "\<exists>r0 r1. ifft_pair arr xs p i = Some (r0, r1, x ^ 2 mod p) \<and>
    int r0 = horner es (int x ^ 2) mod int p \<and> int r1 = horner os (int x ^ 2) mod int p"
proof -
  let ?P = "int p" and ?a = "arr ! i" and ?b = "arr ! (i + 1)"
  let ?E = "horner es (int x * int x)" and ?O = "horner os (int x * int x)"
  have ha: "?P dvd int ?a - (?E + int x * ?O)"
    using a by (simp add: horner_interleave [OF len] flip: mod_eq_dvd_iff)
  have "?P dvd int y - (- int x)" using neg by (simp add: add.commute)
  then have "?P dvd horner (interleave es os) (int y) - horner (interleave es os) (- int x)"
    by (rule horner_cong)
  moreover have "?P dvd int ?b - horner (interleave es os) (int y)"
    unfolding b by (rule mod_dvd_diff)
  ultimately have "?P dvd int ?b - horner (interleave es os) (- int x)"
    by (rule dvd_diff_trans [rotated])
  then have hb: "?P dvd int ?b - (?E - int x * ?O)" by (simp add: horner_interleave [OF len])
  have "int ?a < ?P" "int ?b < ?P" unfolding a b using p by simp_all
  then have less: "?a < p" "?b < p" by simp_all
  define diff where "diff = (if ?a < ?b then p - (?b - ?a) else ?a - ?b)"
  have "int (?a + ?b) - int 2 * ?E = (int ?a - (?E + int x * ?O)) + (int ?b - (?E - int x * ?O))"
    by simp
  then have s: "?P dvd int (?a + ?b) - int 2 * ?E" using dvd_add [OF ha hb] by (simp only:)
  have "?P dvd int diff - (int ?a - int ?b)"
    using less by (auto simp: diff_def of_nat_diff)
  moreover have "(int ?a - int ?b) - int (2 * x) * ?O =
      (int ?a - (?E + int x * ?O)) - (int ?b - (?E - int x * ?O))"
    by (simp add: algebra_simps)
  then have "?P dvd (int ?a - int ?b) - int (2 * x) * ?O" using dvd_diff [OF ha hb] by (simp only:)
  ultimately have t: "?P dvd int diff - int (2 * x) * ?O" by (rule dvd_diff_trans)
  obtain r0 where r0: "div_mod (?a + ?b) 2 p = Some r0" "int r0 = ?E mod ?P"
    using div_mod_exact [OF p _ s] two by auto
  obtain r1 where r1: "div_mod diff (2 * x) p = Some r1" "int r1 = ?O mod ?P"
    using div_mod_exact [OF p _ t] unit by auto
  have dif: "(if ?a < ?b then if p < ?b - ?a then None else Some (p - (?b - ?a)) else Some (?a - ?b)) = Some diff"
    using less by (auto simp: diff_def)
  have "ifft_pair arr xs p i = Some (r0, r1, x ^ 2 mod p)"
    using i(1) unfolding ifft_pair_def Let_def i(2) dif r0(1) by (simp add: r1(1) modpow_eq)
  then show ?thesis using r0(2) r1(2) by (simp add: power2_eq_square)
qed

section \<open>The inverse transform undoes the transform\<close>

lemma those_map_Some: "(\<And>i. i \<in> set is \<Longrightarrow> f i = Some (g i)) \<Longrightarrow> those (map f is) = Some (map g is)"
  by (induction "is") auto

lemma unit_power:
  assumes "(P :: int) dvd u ^ m - 1"
  shows "P dvd (u ^ r) ^ m - 1"
proof -
  have "(u ^ m) ^ r mod P = (1 mod P) ^ r mod P"
    using assms by (metis mod_eq_dvd_iff power_mod)
  then have "(u ^ m) ^ r mod P = 1 mod P" by (simp add: power_mod)
  then show ?thesis by (simp add: mod_eq_dvd_iff mult.commute flip: power_mult)
qed

lemma unit_mult:
  assumes "(P :: int) dvd u ^ m - 1" "P dvd v ^ m - 1" "P dvd w - v"
  shows "P dvd (u * w) ^ m - 1"
proof -
  have "w ^ m mod P = v ^ m mod P" using assms(3) by (metis mod_eq_dvd_iff power_mod)
  then have "P dvd w ^ m - v ^ m" by (simp add: mod_eq_dvd_iff)
  then have w: "w ^ m mod P = 1 mod P"
    unfolding mod_eq_dvd_iff by (rule dvd_diff_trans [OF _ assms(2)])
  have "(u * w) ^ m mod P = (u ^ m mod P) * (w ^ m mod P) mod P"
    by (simp add: power_mult_distrib mod_mult_eq)
  also have "u ^ m mod P = 1 mod P" using assms(1) by (simp add: mod_eq_dvd_iff)
  also note w
  also have "(1 mod P) * (1 mod P) mod P = 1 mod P" by (simp add: mod_mult_eq)
  finally show ?thesis by (simp add: mod_eq_dvd_iff)
qed

lemma int_power_mod: "int (h ^ r mod p) = int h ^ r mod int p"
  by (simp add: zmod_int)

lemma horner_power_mod: "horner cs (int (h ^ r mod p)) mod int p = horner cs (int h ^ r) mod int p"
  unfolding mod_eq_dvd_iff int_power_mod by (intro horner_cong mod_dvd_diff)

text \<open>The round of \<open>ifft\<close> at the points \<open>x\<close> and \<open>- x\<close>.\<close>

lemma ifft_pair_points:
  assumes p: "2 < p" and two: "int p dvd 2 ^ (p - 1) - 1"
    and h: "int p dvd int h ^ (p - 1) - 1" "int p dvd int h ^ (2 ^ k) + 1"
    and len: "length es = length os" and i: "i < 2 ^ k"
    and arr: "arr = map (\<lambda>i. nat (horner (interleave es os) (int h ^ bit_rev (Suc k) i) mod int p)) [0..<2 ^ Suc k]"
    and xs: "xs = map (\<lambda>i. h ^ bit_rev (Suc k) i mod p) [0..<2 ^ Suc k]"
  shows "ifft_pair arr xs p (2 * i) =
    Some (nat (horner es (int (h ^ 2) ^ bit_rev k i) mod int p),
      nat (horner os (int (h ^ 2) ^ bit_rev k i) mod int p), (h ^ 2) ^ bit_rev k i mod p)"
proof -
  let ?P = "int p" and ?r = "bit_rev k i"
  define x where "x = h ^ ?r mod p"
  define y where "y = h ^ (2 ^ k + ?r) mod p"
  have idx: "2 * i < 2 ^ Suc k" "Suc (2 * i) < 2 ^ Suc k" using i by auto
  have P: "0 < ?P" using p by simp
  have a: "int (arr ! (2 * i)) = horner (interleave es os) (int x) mod ?P"
    using idx P unfolding arr x_def horner_power_mod by (simp add: bit_rev_Suc [OF i])
  have b: "int (arr ! (2 * i + 1)) = horner (interleave es os) (int y) mod ?P"
    using idx P unfolding arr y_def horner_power_mod by (simp add: bit_rev_Suc [OF i])
  have x: "?P dvd int x - int h ^ ?r" unfolding x_def int_power_mod by (rule mod_dvd_diff)
  have y: "?P dvd int y - int h ^ (2 ^ k + ?r)" unfolding y_def int_power_mod by (rule mod_dvd_diff)
  have "int x + int y = (int x - int h ^ ?r) + (int y - int h ^ (2 ^ k + ?r))
      + int h ^ ?r * (int h ^ (2 ^ k) + 1)"
    by (simp add: algebra_simps power_add)
  then have neg: "?P dvd int x + int y" using x y h(2) by (metis dvd_add dvd_mult)
  have unit: "?P dvd (2 * int x) ^ (p - 1) - 1"
    by (rule unit_mult [OF two unit_power [OF h(1)] x])
  have at: "2 * i < length xs" "xs ! (2 * i) = x"
    using idx unfolding xs x_def by (simp_all add: bit_rev_Suc [OF i])
  have sq: "int x ^ 2 mod ?P = int (h ^ 2) ^ ?r mod ?P"
    unfolding x_def int_power_mod power_mod by (simp add: mult.commute flip: power_mult)
  have sq_h: "horner fs (int x ^ 2) mod ?P = horner fs (int (h ^ 2) ^ ?r) mod ?P" for fs
    using sq unfolding mod_eq_dvd_iff by (rule horner_cong)
  have "x ^ 2 mod p = (h ^ 2) ^ ?r mod p"
    unfolding x_def power_mod by (simp add: mult.commute flip: power_mult)
  moreover obtain r0 r1 where "ifft_pair arr xs p (2 * i) = Some (r0, r1, x ^ 2 mod p)"
    "int r0 = horner es (int x ^ 2) mod ?P" "int r1 = horner os (int x ^ 2) mod ?P"
    using ifft_pair_exact [OF _ two unit len neg at a b] p by auto
  ultimately show ?thesis unfolding sq_h by (metis nat_int)
qed

lemma ifft_correct:
  assumes p: "2 < p" and two: "int p dvd 2 ^ (p - 1) - 1"
    and "int p dvd int h ^ (p - 1) - 1" "0 < k \<Longrightarrow> int p dvd int h ^ (2 ^ (k - 1)) + 1"
    and "length cs = 2 ^ k" "\<forall>c \<in> set cs. c < p"
    and "arr = map (\<lambda>i. nat (horner cs (int h ^ bit_rev k i) mod int p)) [0..<2 ^ k]"
    and "xs = map (\<lambda>i. h ^ bit_rev k i mod p) [0..<2 ^ k]"
  shows "ifft arr xs p = Some cs"
  using assms(3-8)
proof (induction k arbitrary: h cs arr xs)
  case 0
  then obtain c where "cs = [c]" by (metis length_0_conv length_Suc_conv power_0 One_nat_def)
  with 0 show ?case by (simp add: ifft.simps flip: zmod_int)
next
  case (Suc k)
  let ?P = "int p" and ?n = "2 ^ k :: nat"
  obtain es os where cs: "cs = interleave es os" "length es = ?n" "length os = ?n" "set cs = set es \<union> set os"
    using split_interleave [of cs ?n] Suc.prems(3) by auto
  let ?val = "\<lambda>fs i. nat (horner fs (int (h ^ 2) ^ bit_rev k i) mod ?P)"
  have hk: "?P dvd int h ^ (2 ^ k) + 1" using Suc.prems(2) by simp
  have pair: "ifft_pair arr xs p (2 * i) = Some (?val es i, ?val os i, (h ^ 2) ^ bit_rev k i mod p)"
    if "i < ?n" for i
    using ifft_pair_points [OF p two Suc.prems(1) hk _ that Suc.prems(5) [unfolded cs(1)] Suc.prems(6)] cs
    by simp
  have those: "those (map (\<lambda>i. ifft_pair arr xs p (2 * i)) [0..<?n]) =
      Some (map (\<lambda>i. (?val es i, ?val os i, (h ^ 2) ^ bit_rev k i mod p)) [0..<?n])"
    using pair by (intro those_map_Some) simp
  have h2: "?P dvd int (h ^ 2) ^ (p - 1) - 1"
    using unit_power [OF Suc.prems(1), of 2] by simp
  have h2': "?P dvd int (h ^ 2) ^ (2 ^ (k - 1)) + 1" if "0 < k"
  proof -
    have "int (h ^ 2) ^ (2 ^ (k - 1)) = int h ^ (2 ^ k)"
      using that by (cases k) (simp_all flip: power_mult)
    with hk show ?thesis by simp
  qed
  have "ifft (map (?val fs) [0..<?n]) (map (\<lambda>i. (h ^ 2) ^ bit_rev k i mod p) [0..<?n]) p = Some fs"
    if "length fs = ?n" "set fs \<subseteq> set cs" for fs
    using Suc.IH [OF h2 h2' that(1) _ refl refl] that(2) Suc.prems(4) by auto
  then have rec: "ifft (map (?val es) [0..<?n]) (map (\<lambda>i. (h ^ 2) ^ bit_rev k i mod p) [0..<?n]) p = Some es"
    "ifft (map (?val os) [0..<?n]) (map (\<lambda>i. (h ^ 2) ^ bit_rev k i mod p) [0..<?n]) p = Some os"
    using cs by auto
  have len: "length arr = 2 * ?n" using Suc.prems(5) by simp
  then have "length arr \<noteq> 1" "arr \<noteq> []" "length arr div 2 = ?n" by auto
  then show ?case
    using rec cs by (subst ifft.simps) (simp add: those Let_def comp_def merge_interleave)
qed

text \<open>What the modulus and the generator have to satisfy for \<open>2 ^ k\<close> points.  For a prime modulus the first two
  are Fermat's theorem; the last says that the generator has order \<open>2 ^ k\<close>.\<close>

definition fft_params_ok :: "nat \<Rightarrow> nat \<Rightarrow> nat \<Rightarrow> bool" where
  "fft_params_ok g p k \<longleftrightarrow>
     2 < p \<and> modpow 2 (p - 1) p = 1 \<and> modpow g (p - 1) p = 1 \<and>
     (0 < k \<longrightarrow> modpow g (2 ^ (k - 1)) p = p - 1)"

lemma modpow_one: "2 < p \<Longrightarrow> modpow g e p = 1 \<Longrightarrow> int p dvd int g ^ e - 1"
proof -
  assume "2 < p" "modpow g e p = 1"
  then have "int (g ^ e mod p) = 1 mod int p" by (simp add: modpow_eq)
  then show ?thesis by (simp add: zmod_int mod_eq_dvd_iff)
qed

lemma modpow_minus_one: "2 < p \<Longrightarrow> modpow g e p = p - 1 \<Longrightarrow> int p dvd int g ^ e + 1"
proof -
  assume p: "2 < p" "modpow g e p = p - 1"
  then have "int g ^ e mod int p = int p - 1" by (simp add: modpow_eq of_nat_diff flip: zmod_int of_nat_power)
  moreover have "int p dvd int g ^ e mod int p - int g ^ e" by (rule mod_dvd_diff)
  ultimately have "int p dvd int p - 1 - int g ^ e" by (simp only:)
  then have "int p dvd int p - (int g ^ e + 1)" by (simp add: algebra_simps)
  then show ?thesis by (simp add: dvd_diff_right_iff)
qed

lemma ifft_fft_gen:
  assumes "fft_params_ok g p k" "length cs = 2 ^ k" "\<forall>c \<in> set cs. c < p"
  shows "Option.bind (fft cs (eval_points g p k (2 ^ k)) p)
    (\<lambda>ys. ifft ys (eval_points g p k (2 ^ k)) p) = Some cs"
proof -
  have p: "2 < p" using assms(1) by (simp add: fft_params_ok_def)
  let ?xs = "map (\<lambda>i. g ^ bit_rev k i mod p) [0..<2 ^ k]"
  have xs: "eval_points g p k (2 ^ k) = ?xs" by (simp add: eval_points_def modpow_eq)
  have "fft_at cs (g ^ bit_rev k i mod p) p = nat (horner cs (int g ^ bit_rev k i) mod int p)" for i
    using fft_at_eq [of p cs "g ^ bit_rev k i mod p"] p unfolding horner_power_mod by (metis nat_int less_trans zero_less_numeral)
  then have fft: "fft cs ?xs p =
      Some (map (\<lambda>i. nat (horner cs (int g ^ bit_rev k i) mod int p)) [0..<2 ^ k])"
    using assms(2) p by (simp add: fft_def Let_def)
  have "int p dvd 2 ^ (p - 1) - 1" "int p dvd int g ^ (p - 1) - 1"
    "0 < k \<Longrightarrow> int p dvd int g ^ (2 ^ (k - 1)) + 1"
    using assms(1) modpow_one [OF p, of 2] modpow_one [OF p, of g] modpow_minus_one [OF p]
    by (auto simp: fft_params_ok_def)
  then show ?thesis
    unfolding xs fft using ifft_correct [OF p _ _ _ assms(2,3) refl refl] by simp
qed

lemma recover_transform:
  assumes "fft_params_ok GENERATOR BLS_MODULUS 12" "length data = BLOB_LEN"
    and "\<forall>c \<in> set data. c < BLS_MODULUS"
  shows "Option.bind (transform data) recover = Some data"
  unfolding transform_def [abs_def] recover_def [abs_def]
  using ifft_fft_gen [OF assms(1) _ assms(3)] assms(2) by (simp add: BLOB_LEN_def)

text \<open>C13: The inverse transform undoes the transform.  Let the modulus and the generator satisfy the conditions
  above for \<open>k\<close>, and take \<open>2 ^ k\<close> coefficients below the modulus.  Evaluating the polynomial at the powers
  of the generator, in bit-reversed order, and applying \<open>ifft\<close> to the values gives the coefficients
  back, without a panic.\<close>

theorem ifft_fft:
  assumes "fft_params_ok g p k" "length cs = 2 ^ k" "\<forall>c \<in> set cs. c < p"
  shows "Option.bind (fft cs (eval_points g p k (2 ^ k)) p)
    (\<lambda>ys. ifft ys (eval_points g p k (2 ^ k)) p) = Some cs"
  using assms by (rule ifft_fft_gen)

theorem ifft_fft_witness:
  "Option.bind (fft [7, 0, 16, 3] (eval_points 4 17 2 4) 17)
    (\<lambda>ys. ifft ys (eval_points 4 17 2 4) 17) = Some [7, 0, 16, 3]"
  using ifft_fft [of 4 17 2 "[7, 0, 16, 3]"] by (simp add: fft_params_ok_def modpow_eq)

end
