(* ===== verification/Felt_Conversion.thy ===== *)
theory Felt_Conversion
  imports Felt
begin

text \<open>
  Signed integers in felts (\<open>dojo/types/src/primitive_conversion.rs\<close>).  A negative integer is the
  felt that many steps below the prime.  The conversion back works on the little-endian bytes of the
  felt; it is one polymorphic function for the five instances of the macro \<open>impl_from_felt!\<close>.
\<close>

section \<open>The conversions\<close>

datatype primitive_from_felt_error = PrimitiveFromFeltError

text \<open>\<open>Felt::from\<close> of a signed integer.\<close>

definition felt_of_int :: "int \<Rightarrow> felt" where
  "felt_of_int i = felt (nat (i mod int stark_prime))"

definition felt_to_bytes_le :: "felt \<Rightarrow> bytes" where
  "felt_to_bytes_le a = rev (felt_to_bytes_be a)"

definition from_le_bytes :: "bytes \<Rightarrow> 'a :: len word" where
  "from_le_bytes bs = of_nat (from_be_bytes (rev bs))"

definition MINUS_TWO_BYTES_REPR :: bytes where
  "MINUS_TWO_BYTES_REPR = replicate 24 255 @ [16, 0, 0, 0, 0, 0, 0, 8]"

definition checked_sub_one :: "'a :: len word \<Rightarrow> 'a word option" where
  "checked_sub_one w = (if sint w = - (2 ^ (LENGTH('a) - 1)) then None else Some (w - 1))"

definition try_from_felt :: "felt \<Rightarrow> ('a :: len word, primitive_from_felt_error) result" where
  "try_from_felt v =
     (let size_of_type = LENGTH('a) div 8; bytes_le = felt_to_bytes_le v in
      if list_all (\<lambda>b. b = 0) (drop size_of_type bytes_le) \<and> bytes_le ! (size_of_type - 1) \<le> 127
      then Ok (from_le_bytes (take size_of_type bytes_le))
      else if drop size_of_type bytes_le = drop size_of_type MINUS_TWO_BYTES_REPR \<and>
        128 \<le> bytes_le ! (size_of_type - 1)
      then ok_or (checked_sub_one (from_le_bytes (take size_of_type bytes_le))) PrimitiveFromFeltError
      else if drop 24 bytes_le = [17, 0, 0, 0, 0, 0, 0, 8] then Ok (- 1)
      else Err PrimitiveFromFeltError)"

section \<open>Little-endian digits\<close>

definition le_bytes :: "nat \<Rightarrow> nat \<Rightarrow> bytes" where
  "le_bytes n x = rev (be_bytes n x)"

lemma le_bytes_simps [simp]:
  "le_bytes 0 x = []" "le_bytes (Suc n) x = of_nat (x mod 256) # le_bytes n (x div 256)"
  by (simp_all add: le_bytes_def)

lemma length_le_bytes [simp]: "length (le_bytes n x) = n"
  by (simp add: le_bytes_def)

lemma felt_to_bytes_le_eq: "felt_to_bytes_le a = le_bytes 32 (nat_of_felt a)"
  by (simp add: felt_to_bytes_le_def felt_to_bytes_be_def le_bytes_def)

lemma drop_le_bytes: "drop s (le_bytes n x) = le_bytes (n - s) (x div 256 ^ s)"
proof (induction s arbitrary: n x)
  case 0
  then show ?case by simp
next
  case (Suc s)
  then show ?case by (cases n) (simp_all add: div_mult2_eq)
qed

lemma nth_le_bytes: "i < n \<Longrightarrow> le_bytes n x ! i = of_nat (x div 256 ^ i mod 256)"
proof (induction i arbitrary: n x)
  case 0
  then show ?case by (cases n) simp_all
next
  case (Suc i)
  then show ?case by (cases n) (simp_all add: div_mult2_eq)
qed

lemma from_le_take: "s \<le> n \<Longrightarrow> from_be_bytes (rev (take s (le_bytes n x))) = x mod 256 ^ s"
proof -
  assume "s \<le> n"
  then have "take s (le_bytes n x) = le_bytes s x"
  proof (induction s arbitrary: n x)
    case (Suc s)
    then show ?case by (cases n) simp_all
  qed simp
  then show ?thesis by (simp add: le_bytes_def from_be_bytes_be_bytes)
qed

lemma le_bytes_eq_iff: "le_bytes n x = le_bytes n y \<longleftrightarrow> x mod 256 ^ n = y mod 256 ^ n"
proof
  assume "le_bytes n x = le_bytes n y"
  then have "from_be_bytes (be_bytes n x) = from_be_bytes (be_bytes n y)" by (simp add: le_bytes_def)
  then show "x mod 256 ^ n = y mod 256 ^ n" by (simp add: from_be_bytes_be_bytes)
next
  assume "x mod 256 ^ n = y mod 256 ^ n"
  then have "from_be_bytes (be_bytes n x) = from_be_bytes (be_bytes n y)"
    by (simp add: from_be_bytes_be_bytes)
  then show "le_bytes n x = le_bytes n y"
    unfolding le_bytes_def by (metis be_bytes_from_be_bytes length_be_bytes)
qed

lemma all_zero_le_bytes: "list_all (\<lambda>b. b = 0) (le_bytes n x) \<longleftrightarrow> x mod 256 ^ n = 0"
proof -
  have "le_bytes n 0 = replicate n 0" by (induction n) simp_all
  moreover have "list_all (\<lambda>b. b = 0) bs \<longleftrightarrow> bs = replicate (length bs) 0" for bs :: bytes
    by (induction bs) auto
  ultimately have "list_all (\<lambda>b. b = 0) (le_bytes n x) \<longleftrightarrow> le_bytes n x = le_bytes n 0" by simp
  then show ?thesis by (simp add: le_bytes_eq_iff)
qed

text \<open>The prime has a gap of zero bytes between its top byte and its bottom byte, which the conversion relies on.\<close>

lemma prime_digits:
  "stark_prime - 2 = (16 + 8 * 256 ^ 7) * 256 ^ 24 + (256 ^ 24 - 1)"
  "stark_prime - 1 = (17 + 8 * 256 ^ 7) * 256 ^ 24" "2 < stark_prime"
  by (simp_all add: stark_prime_def)

lemma le_bytes_append: "le_bytes (m + n) x = le_bytes m x @ le_bytes n (x div 256 ^ m)"
  by (induction m arbitrary: x) (simp_all add: div_mult2_eq)

lemma le_bytes_max: "le_bytes n (q * 256 ^ n + (256 ^ n - 1)) = replicate n 255"
proof (induction n)
  case (Suc n)
  obtain M where "256 ^ n = Suc M" by (cases "256 ^ n :: nat") auto
  then have "q * 256 ^ Suc n + (256 ^ Suc n - 1) = 255 + 256 * (q * 256 ^ n + (256 ^ n - 1))"
    by (simp add: algebra_simps)
  then have "(q * 256 ^ Suc n + (256 ^ Suc n - 1)) mod 256 = 255"
    "(q * 256 ^ Suc n + (256 ^ Suc n - 1)) div 256 = q * 256 ^ n + (256 ^ n - 1)"
    by simp_all
  with Suc show ?case by (simp del: power_Suc)
qed simp

lemma le_bytes_8: "le_bytes 8 x = le_bytes (Suc (Suc (Suc (Suc (Suc (Suc (Suc (Suc 0)))))))) x"
  by (rule arg_cong [of _ _ "\<lambda>n. le_bytes n x"]) simp

lemma minus_two_bytes: "MINUS_TWO_BYTES_REPR = le_bytes 32 (stark_prime - 2)"
proof -
  have "le_bytes (24 + 8) (stark_prime - 2) =
      replicate 24 255 @ le_bytes 8 (16 + 8 * 256 ^ 7)"
    unfolding le_bytes_append unfolding prime_digits le_bytes_max by simp
  moreover have "le_bytes 8 (16 + 8 * 256 ^ 7) = [16, 0, 0, 0, 0, 0, 0, 8]"
    unfolding le_bytes_8 by simp
  ultimately show ?thesis by (simp add: MINUS_TWO_BYTES_REPR_def)
qed

lemma minus_one_bytes: "[17, 0, 0, 0, 0, 0, 0, 8] = le_bytes 8 (17 + 8 * 256 ^ 7)"
  unfolding le_bytes_8 by simp

section \<open>The branches as ranges\<close>

lemma u8_le_iff: "a < 256 \<Longrightarrow> (of_nat a :: u8) \<le> 127 \<longleftrightarrow> a \<le> 127" "a < 256 \<Longrightarrow> 128 \<le> (of_nat a :: u8) \<longleftrightarrow> 128 \<le> a"
  by (simp_all add: word_le_nat_alt unat_of_nat_u8)

lemma div_lt_iff: "0 < (m :: nat) \<Longrightarrow> n div m < k \<longleftrightarrow> n < k * m"
  by (simp add: div_less_iff_less_mult)

lemma small_branch:
  assumes s: "0 < s" "s \<le> 16" and n: "n < stark_prime"
  shows "list_all (\<lambda>b. b = 0) (drop s (le_bytes 32 n)) \<and> le_bytes 32 n ! (s - 1) \<le> 127
    \<longleftrightarrow> n < 128 * 256 ^ (s - 1)"
proof -
  have B: "256 ^ s = 256 * (256 :: nat) ^ (s - 1)" using s by (cases s) simp_all
  have "256 ^ s * (256 :: nat) ^ (32 - s) = 256 ^ 32" using s by (simp flip: power_add)
  then have "n div 256 ^ s < 256 ^ (32 - s)"
    using n stark_prime_lt_256_32 by (simp add: div_lt_iff mult.commute)
  then have "list_all (\<lambda>b. b = 0) (drop s (le_bytes 32 n)) \<longleftrightarrow> n div 256 ^ s = 0"
    by (simp add: drop_le_bytes all_zero_le_bytes)
  also have "\<dots> \<longleftrightarrow> n < 256 ^ s" by (simp add: div_eq_0_iff)
  finally have all: "list_all (\<lambda>b. b = 0) (drop s (le_bytes 32 n)) \<longleftrightarrow> n < 256 ^ s" .
  have "n div 256 ^ (s - 1) mod 256 = n div 256 ^ (s - 1)" if "n < 256 ^ s"
    using that by (simp add: B div_lt_iff)
  then show ?thesis
    using s unfolding all
    by (auto simp: nth_le_bytes u8_le_iff B div_lt_iff simp flip: less_Suc_eq_le)
qed

text \<open>Every word width of the macro divides the gap, so the felts just below the prime share their upper bytes.\<close>

lemma prime_above_block: "s \<le> 16 \<Longrightarrow> \<exists>Q. stark_prime = Suc (Suc Q * 256 ^ s)"
proof -
  assume "s \<le> 16"
  then have "(256 :: nat) ^ 24 = 256 ^ (24 - s) * 256 ^ s" by (simp flip: power_add)
  then have "stark_prime - 1 = ((17 + 8 * 256 ^ 7) * 256 ^ (24 - s)) * 256 ^ s"
    unfolding prime_digits by (simp only: mult.assoc)
  moreover have "0 < (17 + 8 * 256 ^ 7) * (256 :: nat) ^ (24 - s)" by simp
  ultimately obtain Q where "stark_prime - 1 = Suc Q * 256 ^ s" by (metis Suc_pred')
  then have "stark_prime = Suc (Suc Q * 256 ^ s)" using stark_prime_gt_1 by linarith
  then show ?thesis by blast
qed

lemma upper_bytes_eq_iff:
  assumes s: "s \<le> 16" and n: "n < stark_prime"
  shows "drop s (le_bytes 32 n) = drop s MINUS_TWO_BYTES_REPR
    \<longleftrightarrow> n div 256 ^ s = (stark_prime - 2) div 256 ^ s"
proof -
  have "256 ^ s * (256 :: nat) ^ (32 - s) = 256 ^ 32" using s by (simp flip: power_add)
  then have "k div 256 ^ s < 256 ^ (32 - s)" if "k < stark_prime" for k
    using that stark_prime_lt_256_32 by (simp add: div_lt_iff mult.commute)
  from this [OF n] this [of "stark_prime - 2"] show ?thesis
    by (simp add: minus_two_bytes drop_le_bytes le_bytes_eq_iff)
qed

lemma block_position: "q * B + r < Suc Q * B \<and> Q * B + k \<le> q * B + r \<longleftrightarrow> q = Q \<and> k \<le> r"
  if "r < B" "k < B" for B q r Q k :: nat
proof -
  consider "Suc q \<le> Q" | "q = Q" | "Suc Q \<le> q" by linarith
  then show ?thesis
  proof cases
    case 1
    then have "Suc q * B \<le> Q * B" by (rule mult_le_mono1)
    with 1 that show ?thesis by simp
  next
    case 2
    with that show ?thesis by simp
  next
    case 3
    then have "Suc Q * B \<le> q * B" by (rule mult_le_mono1)
    with 3 that show ?thesis by auto
  qed
qed

lemma div_block_iff: "n div B = Q \<and> k \<le> n mod B \<longleftrightarrow> Q * B + k \<le> n \<and> n < Suc Q * B"
  if "k < B" for n B Q k :: nat
  using block_position [of "n mod B" B k "n div B" Q] that by auto

lemma top_digit_ge: "128 \<le> n div m mod 256 \<longleftrightarrow> 128 * m \<le> n mod (256 * m)" if "0 < m" for m n :: nat
proof -
  have split: "n mod (256 * m) = m * (n div m mod 256) + n mod m"
    using mod_mult2_eq [of n m 256] by (simp add: mult.commute)
  have "128 * m \<le> m * d + r \<longleftrightarrow> 128 \<le> d" if "r < m" for d r
  proof (cases "128 \<le> d")
    case True
    then have "m * 128 \<le> m * d" by (rule mult_le_mono2)
    then have "128 * m \<le> m * d + r" by linarith
    with True show ?thesis by blast
  next
    case False
    then have "m * Suc d \<le> m * 128" by (intro mult_le_mono2) simp
    moreover have "m * Suc d = m * d + m" by simp
    ultimately have "m * d + r < 128 * m" using that by linarith
    with False show ?thesis by simp
  qed
  from this [of "n mod m" "n div m mod 256"] that show ?thesis by (simp only: split mod_less_divisor)
qed

lemma negative_branch:
  assumes s: "0 < s" "s \<le> 16" and n: "n < stark_prime"
  shows "drop s (le_bytes 32 n) = drop s MINUS_TWO_BYTES_REPR \<and> 128 \<le> le_bytes 32 n ! (s - 1)
    \<longleftrightarrow> stark_prime \<le> n + Suc (128 * 256 ^ (s - 1)) \<and> n \<noteq> stark_prime - 1"
proof -
  let ?m = "256 ^ (s - 1) :: nat"
  have B: "256 ^ s = 256 * ?m" using s by (cases s) simp_all
  obtain Q where Q: "stark_prime = Suc (Suc Q * 256 ^ s)" using prime_above_block [OF s(2)] by blast
  then have p: "stark_prime = Suc (256 ^ s + 256 ^ s * Q)" by (simp add: mult.commute)
  have top: "(stark_prime - 2) div 256 ^ s = Q"
  proof (rule div_nat_eqI)
    show "256 ^ s * Q \<le> stark_prime - 2" using p by (cases "256 ^ s :: nat") simp_all
    show "stark_prime - 2 < 256 ^ s * Suc Q" using p by (cases "256 ^ s :: nat") simp_all
  qed
  have "128 \<le> le_bytes 32 n ! (s - 1) \<longleftrightarrow> 128 * ?m \<le> n mod 256 ^ s"
    using s by (simp add: nth_le_bytes u8_le_iff top_digit_ge B)
  then have "drop s (le_bytes 32 n) = drop s MINUS_TWO_BYTES_REPR \<and> 128 \<le> le_bytes 32 n ! (s - 1)
    \<longleftrightarrow> Q * 256 ^ s + 128 * ?m \<le> n \<and> n < Suc Q * 256 ^ s"
    by (simp only: upper_bytes_eq_iff [OF s(2) n] top) (rule div_block_iff, simp add: B)
  also have "\<dots> \<longleftrightarrow> stark_prime \<le> n + Suc (128 * ?m) \<and> n \<noteq> stark_prime - 1"
    using n by (auto simp: Q B)
  finally show ?thesis .
qed

lemma minus_one_branch:
  assumes n: "n < stark_prime"
  shows "drop 24 (le_bytes 32 n) = [17, 0, 0, 0, 0, 0, 0, 8] \<longleftrightarrow> n = stark_prime - 1"
proof -
  let ?k = "17 + 8 * 256 ^ 7 :: nat"
  have p: "stark_prime = Suc (?k * 256 ^ 24)" using prime_digits(2) stark_prime_gt_1 by linarith
  have "n \<le> ?k * 256 ^ 24" using n p by linarith
  then have "n div 256 ^ 24 \<le> ?k" using div_le_mono [of n "?k * 256 ^ 24" "256 ^ 24"] by simp
  moreover have "?k < 256 ^ 8" by simp
  ultimately have "drop 24 (le_bytes 32 n) = [17, 0, 0, 0, 0, 0, 0, 8] \<longleftrightarrow> n div 256 ^ 24 = ?k"
    unfolding minus_one_bytes by (simp add: drop_le_bytes le_bytes_eq_iff del: power_numeral)
  also have "\<dots> \<longleftrightarrow> ?k * 256 ^ 24 + 0 \<le> n \<and> n < Suc ?k * 256 ^ 24"
    using div_block_iff [of 0 "256 ^ 24" n ?k] by simp
  also have "\<dots> \<longleftrightarrow> n = ?k * 256 ^ 24"
    using \<open>n \<le> ?k * 256 ^ 24\<close> by auto
  finally show ?thesis by (simp only: prime_digits)
qed

section \<open>The conversion is the partial inverse of reading a signed integer as a felt\<close>

lemma sint_word_of_int_range:
  "- (2 ^ (LENGTH('a) - 1)) \<le> i \<Longrightarrow> i < 2 ^ (LENGTH('a) - 1) \<Longrightarrow> sint (word_of_int i :: 'a :: len word) = i"
  by (simp add: sint_sbintrunc' signed_take_bit_int_eq_self)

lemma nat_of_felt_of_int: "int (nat_of_felt (felt_of_int i)) = i mod int stark_prime"
  by (simp add: felt_of_int_def nat_of_felt_felt nat_mod_as_int zmod_int)

lemma word_of_nat_mod: "(of_nat (x mod 2 ^ LENGTH('a)) :: 'a :: len word) = of_nat x"
  by (simp add: word_of_nat_eq_iff take_bit_eq_mod)

lemma word_of_int_minus_multiple:
  "2 ^ LENGTH('a) dvd k \<Longrightarrow> (word_of_int (i - k) :: 'a :: len word) = word_of_int i"
  by (simp add: word_of_int_eq_0_iff)

lemma below_prime_iff:
  "Suc 0 < a \<Longrightarrow> a \<le> b + Suc c \<and> b \<noteq> a - 1 \<longleftrightarrow> int a - 1 - int c \<le> int b \<and> int b \<noteq> int a - 1"
  by auto

text \<open>The three branches as one case distinction on the number.\<close>

lemma try_from_felt_by_range:
  fixes v :: felt
  defines "n \<equiv> int (nat_of_felt v)" and "h \<equiv> 2 ^ (LENGTH('a) - 1)" and "p \<equiv> int stark_prime"
  assumes width: "LENGTH('a :: len) = 8 * s" "0 < s" "s \<le> 16"
  shows "(try_from_felt v :: ('a word, primitive_from_felt_error) result) =
    (if n < h then Ok (word_of_int n)
     else if p - h \<le> n then Ok (word_of_int (n - p)) else Err PrimitiveFromFeltError)"
proof -
  let ?m = "128 * 256 ^ (s - 1) :: nat"
  have n: "nat_of_felt v < stark_prime" by (rule nat_of_felt_bound)
  have B: "(256 :: nat) ^ s = 2 ^ LENGTH('a)" using width by (simp add: power_mult)
  have m: "int ?m = h"
  proof -
    have "(2 :: int) ^ (8 * s - 1) = 2 ^ (7 + 8 * (s - 1))" using width by (intro arg_cong2 [of _ _ _ _ power]) auto
    then show ?thesis unfolding h_def using width by (simp add: power_add power_mult)
  qed
  let ?w = "from_le_bytes (take s (felt_to_bytes_le v)) :: 'a word"
  have w: "?w = word_of_int n"
    using width(3) by (simp add: from_le_bytes_def felt_to_bytes_le_eq from_le_take n_def B word_of_nat_mod)
  have "2 ^ LENGTH('a) dvd p - 1"
  proof -
    obtain Q where "stark_prime = Suc (Suc Q * 256 ^ s)" using prime_above_block [OF width(3)] by blast
    then have "p = int (Suc (Suc Q * 2 ^ LENGTH('a)))" unfolding p_def B by (rule arg_cong)
    then have "p - 1 = int (Suc Q) * 2 ^ LENGTH('a)" by (simp del: mult_Suc)
    then show ?thesis by simp
  qed
  from word_of_int_minus_multiple [OF this, of n] have w': "?w = word_of_int (n - (p - 1))" by (simp add: w)
  have "word_of_int (n - (p - 1)) - 1 = (word_of_int (n - p) :: 'a word)"
    by (simp add: algebra_simps)
  then have sub: "checked_sub_one ?w = (if n = p - 1 - h then None else Some (word_of_int (n - p)))"
    if "p - 1 - h \<le> n" "n < p - 1"
    using that sint_word_of_int_range [where 'a = 'a, of "n - (p - 1)"]
    by (auto simp: w' checked_sub_one_def h_def)
  have small: "list_all (\<lambda>b. b = 0) (drop s (felt_to_bytes_le v)) \<and> felt_to_bytes_le v ! (s - 1) \<le> 127
      \<longleftrightarrow> n < h"
    unfolding felt_to_bytes_le_eq small_branch [OF width(2,3) n] m [symmetric] n_def
    by (simp only: of_nat_less_iff)
  have neg: "drop s (felt_to_bytes_le v) = drop s MINUS_TWO_BYTES_REPR \<and> 128 \<le> felt_to_bytes_le v ! (s - 1)
      \<longleftrightarrow> p - 1 - h \<le> n \<and> n \<noteq> p - 1"
    unfolding felt_to_bytes_le_eq negative_branch [OF width(2,3) n] m [symmetric] n_def p_def
    by (rule below_prime_iff [OF stark_prime_gt_1])
  have one: "drop 24 (felt_to_bytes_le v) = [17, 0, 0, 0, 0, 0, 0, 8] \<longleftrightarrow> n = p - 1"
    unfolding felt_to_bytes_le_eq minus_one_branch [OF n] n_def p_def
    using stark_prime_gt_1 by (auto simp: of_nat_diff)
  have s: "LENGTH('a) div 8 = s" using width by simp
  have "1 \<le> h" "n < p" unfolding h_def n_def p_def using n by simp_all
  then show ?thesis
    unfolding try_from_felt_def Let_def s small neg one w [symmetric]
    using sub by (auto simp: res_simps)
qed

lemma stark_prime_gt_block: "LENGTH('a :: len) = 8 * s \<Longrightarrow> s \<le> 16 \<Longrightarrow> 2 ^ LENGTH('a) < int stark_prime"
proof -
  assume "LENGTH('a) = 8 * s" "s \<le> 16"
  then have "(2 :: int) ^ LENGTH('a) \<le> 2 ^ 128" by (intro power_increasing) auto
  also have "\<dots> < int stark_prime" by (simp add: stark_prime_def)
  finally show ?thesis .
qed

lemma nat_of_felt_eq_of_int_iff: "v = felt_of_int i \<longleftrightarrow> int (nat_of_felt v) = i mod int stark_prime"
proof -
  have "v = felt_of_int i \<longleftrightarrow> int (nat_of_felt v) = int (nat_of_felt (felt_of_int i))"
    by (simp add: nat_of_felt_inject)
  then show ?thesis unfolding nat_of_felt_of_int .
qed

lemma mod_signed: "- m < i \<Longrightarrow> i < m \<Longrightarrow> i mod m = (if 0 \<le> i then i else i + m)" for i m :: int
proof (cases "0 \<le> i")
  case False
  assume "- m < i" "i < m"
  with False have "(i + m) mod m = i + m" by (intro mod_pos_pos_trivial) auto
  with False show ?thesis by simp
qed simp

lemma try_from_felt_iff:
  assumes width: "LENGTH('a :: len) = 8 * s" "0 < s" "s \<le> 16"
  shows "try_from_felt v = (Ok w :: ('a word, primitive_from_felt_error) result) \<longleftrightarrow> v = felt_of_int (sint w)"
proof -
  define n where "n = int (nat_of_felt v)"
  define h where "h = (2 :: int) ^ (LENGTH('a) - 1)"
  define p where "p = int stark_prime"
  have n: "0 \<le> n" "n < p" unfolding n_def p_def using nat_of_felt_bound by simp_all
  have "2 ^ LENGTH('a) = 2 * h" unfolding h_def by (simp flip: power_Suc)
  then have p: "2 * h < p" using stark_prime_gt_block [OF width(1,3)] unfolding p_def by simp
  have w: "- h \<le> sint w" "sint w < h" unfolding h_def by (rule sint_ge, rule sint_lt)
  then have rhs: "v = felt_of_int (sint w) \<longleftrightarrow> n = (if 0 \<le> sint w then sint w else sint w + p)"
    using p mod_signed [of p "sint w"] unfolding nat_of_felt_eq_of_int_iff n_def [symmetric] p_def [symmetric] by simp
  have eq: "word_of_int i = w \<longleftrightarrow> i = sint w" if "- h \<le> i" "i < h" for i
    using sint_word_of_int_range [where 'a = 'a, OF that [unfolded h_def]] by auto
  have "try_from_felt v = (if n < h then Ok (word_of_int n)
     else if p - h \<le> n then Ok (word_of_int (n - p)) else Err PrimitiveFromFeltError ::
     ('a word, primitive_from_felt_error) result)"
    unfolding n_def h_def p_def by (rule try_from_felt_by_range [OF width])
  moreover have "word_of_int (n - p) = w \<longleftrightarrow> n - p = sint w" if "p - h \<le> n"
    using that n p by (intro eq) auto
  moreover have "word_of_int n = w \<longleftrightarrow> n = sint w" if "n < h"
    using that n p by (intro eq) auto
  ultimately show ?thesis unfolding rhs using n p w by auto
qed

text \<open>C36: For every width of the macro, \<open>try_from_felt\<close> accepts a felt with an integer exactly when the
  integer is the one of its width that \<open>Felt::from\<close> maps to that felt: the conversion is total on
  the images, rejects everything else, and is inverse to \<open>Felt::from\<close>.\<close>

theorem try_from_felt_exact:
  assumes "LENGTH('a :: len) \<in> {8, 16, 32, 64, 128}"
  shows "try_from_felt v = (Ok w :: ('a word, primitive_from_felt_error) result) \<longleftrightarrow> v = felt_of_int (sint w)"
proof -
  have "LENGTH('a) = 8 * (LENGTH('a) div 8)" "0 < LENGTH('a) div 8" "LENGTH('a) div 8 \<le> 16"
    using assms by auto
  then show ?thesis by (rule try_from_felt_iff)
qed

theorem try_from_felt_exact_witness:
  "LENGTH(8) \<in> {8, 16, 32, 64, 128 :: nat} \<and>
   try_from_felt (felt_of_int (- 128)) = (Ok (- 128) :: (8 word, primitive_from_felt_error) result) \<and>
   try_from_felt (felt_of_int (- 1)) = (Ok (- 1) :: (128 word, primitive_from_felt_error) result)"
  using try_from_felt_exact [where 'a = 8, of "felt_of_int (- 128)" "- 128"]
    try_from_felt_exact [where 'a = 128, of "felt_of_int (- 1)" "- 1"]
  by simp

end
