(* ===== verification/Cairo_Primitive.thy ===== *)
theory Cairo_Primitive
  imports Felt_Conversion Version
begin

text \<open>
  The primitive Cairo types of the dojo schemas (\<open>dojo/types/src/primitive.rs\<close>): a variant per type
  with the value it holds, if any, its felts and back, the numbering, the accessors and the SQL
  texts.  A method with a mutable receiver returns the new receiver and the felts it leaves, also
  when it fails.  The hexadecimal texts of felts and of 256 bit numbers are those of the libraries
  and are parameters.
\<close>

section \<open>Types\<close>

datatype primitive =
    I8 "8 word option"
  | I16 "16 word option"
  | I32 "32 word option"
  | I64 "64 word option"
  | I128 "128 word option"
  | U8 "8 word option"
  | U16 "16 word option"
  | U32 "32 word option"
  | U64 "64 word option"
  | U128 "128 word option"
  | U256 "256 word option"
  | PBool "bool option"
  | Felt252 "felt option"
  | ClassHash "felt option"
  | ContractAddress "felt option"
  | EthAddress "felt option"

datatype ('ce, 'ue) primitive_error =
    MissingFieldElement
  | NotEnoughFieldElements
  | UnsupportedType
  | InvalidByteLength nat nat
  | TypeMismatch
  | ValueOutOfRange felt string
  | CairoSerde 'ce
  | FromUtf8Error 'ue
  | FeltFromFeltError primitive_from_felt_error

datatype sql_type = Integer | Text

section \<open>Accessors\<close>

text \<open>The instances of \<open>as_primitive!\<close> and \<open>set_primitive!\<close>.\<close>

definition as_i8 :: "primitive \<Rightarrow> 8 word option" where
  "as_i8 p = (case p of I8 v \<Rightarrow> v | _ \<Rightarrow> None)"

definition as_i16 :: "primitive \<Rightarrow> 16 word option" where
  "as_i16 p = (case p of I16 v \<Rightarrow> v | _ \<Rightarrow> None)"

definition as_i32 :: "primitive \<Rightarrow> 32 word option" where
  "as_i32 p = (case p of I32 v \<Rightarrow> v | _ \<Rightarrow> None)"

definition as_i64 :: "primitive \<Rightarrow> 64 word option" where
  "as_i64 p = (case p of I64 v \<Rightarrow> v | _ \<Rightarrow> None)"

definition as_i128 :: "primitive \<Rightarrow> 128 word option" where
  "as_i128 p = (case p of I128 v \<Rightarrow> v | _ \<Rightarrow> None)"

definition as_u8 :: "primitive \<Rightarrow> 8 word option" where
  "as_u8 p = (case p of U8 v \<Rightarrow> v | _ \<Rightarrow> None)"

definition as_u16 :: "primitive \<Rightarrow> 16 word option" where
  "as_u16 p = (case p of U16 v \<Rightarrow> v | _ \<Rightarrow> None)"

definition as_u32 :: "primitive \<Rightarrow> 32 word option" where
  "as_u32 p = (case p of U32 v \<Rightarrow> v | _ \<Rightarrow> None)"

definition as_u64 :: "primitive \<Rightarrow> 64 word option" where
  "as_u64 p = (case p of U64 v \<Rightarrow> v | _ \<Rightarrow> None)"

definition as_u128 :: "primitive \<Rightarrow> 128 word option" where
  "as_u128 p = (case p of U128 v \<Rightarrow> v | _ \<Rightarrow> None)"

definition as_u256 :: "primitive \<Rightarrow> 256 word option" where
  "as_u256 p = (case p of U256 v \<Rightarrow> v | _ \<Rightarrow> None)"

definition as_bool :: "primitive \<Rightarrow> bool option" where
  "as_bool p = (case p of PBool v \<Rightarrow> v | _ \<Rightarrow> None)"

definition as_felt252 :: "primitive \<Rightarrow> felt option" where
  "as_felt252 p = (case p of Felt252 v \<Rightarrow> v | _ \<Rightarrow> None)"

definition as_class_hash :: "primitive \<Rightarrow> felt option" where
  "as_class_hash p = (case p of ClassHash v \<Rightarrow> v | _ \<Rightarrow> None)"

definition as_contract_address :: "primitive \<Rightarrow> felt option" where
  "as_contract_address p = (case p of ContractAddress v \<Rightarrow> v | _ \<Rightarrow> None)"

definition as_eth_address :: "primitive \<Rightarrow> felt option" where
  "as_eth_address p = (case p of EthAddress v \<Rightarrow> v | _ \<Rightarrow> None)"

definition set_variant :: "bool \<Rightarrow> primitive \<Rightarrow> primitive \<Rightarrow> (unit, ('ce, 'ue) primitive_error) result \<times> primitive" where
  "set_variant matches new p = (if matches then (Ok (), new) else (Err TypeMismatch, p))"

definition set_i8 :: "primitive \<Rightarrow> 8 word option \<Rightarrow> (unit, ('ce, 'ue) primitive_error) result \<times> primitive" where
  "set_i8 p v = set_variant (case p of I8 _ \<Rightarrow> True | _ \<Rightarrow> False) (I8 v) p"

definition set_i16 :: "primitive \<Rightarrow> 16 word option \<Rightarrow> (unit, ('ce, 'ue) primitive_error) result \<times> primitive" where
  "set_i16 p v = set_variant (case p of I16 _ \<Rightarrow> True | _ \<Rightarrow> False) (I16 v) p"

definition set_i32 :: "primitive \<Rightarrow> 32 word option \<Rightarrow> (unit, ('ce, 'ue) primitive_error) result \<times> primitive" where
  "set_i32 p v = set_variant (case p of I32 _ \<Rightarrow> True | _ \<Rightarrow> False) (I32 v) p"

definition set_i64 :: "primitive \<Rightarrow> 64 word option \<Rightarrow> (unit, ('ce, 'ue) primitive_error) result \<times> primitive" where
  "set_i64 p v = set_variant (case p of I64 _ \<Rightarrow> True | _ \<Rightarrow> False) (I64 v) p"

definition set_i128 :: "primitive \<Rightarrow> 128 word option \<Rightarrow> (unit, ('ce, 'ue) primitive_error) result \<times> primitive" where
  "set_i128 p v = set_variant (case p of I128 _ \<Rightarrow> True | _ \<Rightarrow> False) (I128 v) p"

definition set_u8 :: "primitive \<Rightarrow> 8 word option \<Rightarrow> (unit, ('ce, 'ue) primitive_error) result \<times> primitive" where
  "set_u8 p v = set_variant (case p of U8 _ \<Rightarrow> True | _ \<Rightarrow> False) (U8 v) p"

definition set_u16 :: "primitive \<Rightarrow> 16 word option \<Rightarrow> (unit, ('ce, 'ue) primitive_error) result \<times> primitive" where
  "set_u16 p v = set_variant (case p of U16 _ \<Rightarrow> True | _ \<Rightarrow> False) (U16 v) p"

definition set_u32 :: "primitive \<Rightarrow> 32 word option \<Rightarrow> (unit, ('ce, 'ue) primitive_error) result \<times> primitive" where
  "set_u32 p v = set_variant (case p of U32 _ \<Rightarrow> True | _ \<Rightarrow> False) (U32 v) p"

definition set_u64 :: "primitive \<Rightarrow> 64 word option \<Rightarrow> (unit, ('ce, 'ue) primitive_error) result \<times> primitive" where
  "set_u64 p v = set_variant (case p of U64 _ \<Rightarrow> True | _ \<Rightarrow> False) (U64 v) p"

definition set_u128 :: "primitive \<Rightarrow> 128 word option \<Rightarrow> (unit, ('ce, 'ue) primitive_error) result \<times> primitive" where
  "set_u128 p v = set_variant (case p of U128 _ \<Rightarrow> True | _ \<Rightarrow> False) (U128 v) p"

definition set_u256 :: "primitive \<Rightarrow> 256 word option \<Rightarrow> (unit, ('ce, 'ue) primitive_error) result \<times> primitive" where
  "set_u256 p v = set_variant (case p of U256 _ \<Rightarrow> True | _ \<Rightarrow> False) (U256 v) p"

definition set_bool :: "primitive \<Rightarrow> bool option \<Rightarrow> (unit, ('ce, 'ue) primitive_error) result \<times> primitive" where
  "set_bool p v = set_variant (case p of PBool _ \<Rightarrow> True | _ \<Rightarrow> False) (PBool v) p"

definition set_felt252 :: "primitive \<Rightarrow> felt option \<Rightarrow> (unit, ('ce, 'ue) primitive_error) result \<times> primitive" where
  "set_felt252 p v = set_variant (case p of Felt252 _ \<Rightarrow> True | _ \<Rightarrow> False) (Felt252 v) p"

definition set_class_hash :: "primitive \<Rightarrow> felt option \<Rightarrow> (unit, ('ce, 'ue) primitive_error) result \<times> primitive" where
  "set_class_hash p v = set_variant (case p of ClassHash _ \<Rightarrow> True | _ \<Rightarrow> False) (ClassHash v) p"

definition set_contract_address :: "primitive \<Rightarrow> felt option \<Rightarrow> (unit, ('ce, 'ue) primitive_error) result \<times> primitive" where
  "set_contract_address p v = set_variant (case p of ContractAddress _ \<Rightarrow> True | _ \<Rightarrow> False) (ContractAddress v) p"

definition set_eth_address :: "primitive \<Rightarrow> felt option \<Rightarrow> (unit, ('ce, 'ue) primitive_error) result \<times> primitive" where
  "set_eth_address p v = set_variant (case p of EthAddress _ \<Rightarrow> True | _ \<Rightarrow> False) (EthAddress v) p"

text \<open>The \<open>Display\<close> implementation of the derive macro of strum: the name of the variant.\<close>

fun primitive_name :: "primitive \<Rightarrow> string" where
  "primitive_name (I8 _) = ''i8''"
| "primitive_name (I16 _) = ''i16''"
| "primitive_name (I32 _) = ''i32''"
| "primitive_name (I64 _) = ''i64''"
| "primitive_name (I128 _) = ''i128''"
| "primitive_name (U8 _) = ''u8''"
| "primitive_name (U16 _) = ''u16''"
| "primitive_name (U32 _) = ''u32''"
| "primitive_name (U64 _) = ''u64''"
| "primitive_name (U128 _) = ''u128''"
| "primitive_name (U256 _) = ''u256''"
| "primitive_name (PBool _) = ''bool''"
| "primitive_name (Felt252 _) = ''felt252''"
| "primitive_name (ClassHash _) = ''ClassHash''"
| "primitive_name (ContractAddress _) = ''ContractAddress''"
| "primitive_name (EthAddress _) = ''EthAddress''"

section \<open>Numbering\<close>

fun to_numeric :: "primitive \<Rightarrow> nat" where
  "to_numeric (PBool _) = 0"
| "to_numeric (U8 _) = 1"
| "to_numeric (U16 _) = 2"
| "to_numeric (U32 _) = 3"
| "to_numeric (U64 _) = 4"
| "to_numeric (U128 _) = 5"
| "to_numeric (U256 _) = 6"
| "to_numeric (I8 _) = 7"
| "to_numeric (I16 _) = 8"
| "to_numeric (I32 _) = 9"
| "to_numeric (I64 _) = 10"
| "to_numeric (I128 _) = 11"
| "to_numeric (Felt252 _) = 12"
| "to_numeric (ClassHash _) = 13"
| "to_numeric (ContractAddress _) = 14"
| "to_numeric (EthAddress _) = 15"

text \<open>\<open>Self::iter\<close> of strum lists the variants in the order of their declaration.\<close>

definition primitive_iter :: "primitive list" where
  "primitive_iter =
     [I8 None, I16 None, I32 None, I64 None, I128 None,
      U8 None, U16 None, U32 None, U64 None, U128 None,
      U256 None, PBool None, Felt252 None, ClassHash None, ContractAddress None,
      EthAddress None]"

definition from_numeric :: "nat \<Rightarrow> primitive option" where
  "from_numeric k = (if k < length primitive_iter then Some (primitive_iter ! k) else None)"

section \<open>SQL\<close>

fun to_sql_type :: "primitive \<Rightarrow> sql_type" where
  "to_sql_type (I8 _) = Integer"
| "to_sql_type (I16 _) = Integer"
| "to_sql_type (I32 _) = Integer"
| "to_sql_type (I64 _) = Integer"
| "to_sql_type (I128 _) = Text"
| "to_sql_type (U8 _) = Integer"
| "to_sql_type (U16 _) = Integer"
| "to_sql_type (U32 _) = Integer"
| "to_sql_type (U64 _) = Text"
| "to_sql_type (U128 _) = Text"
| "to_sql_type (U256 _) = Text"
| "to_sql_type (PBool _) = Integer"
| "to_sql_type (Felt252 _) = Text"
| "to_sql_type (ClassHash _) = Text"
| "to_sql_type (ContractAddress _) = Text"
| "to_sql_type (EthAddress _) = Text"

definition unwrap_or_default :: "'a \<Rightarrow> 'a option \<Rightarrow> 'a" where
  "unwrap_or_default d v = (case v of None \<Rightarrow> d | Some x \<Rightarrow> x)"

text \<open>\<open>{}\<close> of a signed number, \<open>{:x}\<close> and \<open>{:064x}\<close> of an unsigned one.\<close>

definition int_string :: "int \<Rightarrow> string" where
  "int_string i = (if i < 0 then CHR ''-'' # dec_string (nat (- i)) else dec_string (nat i))"

definition hex_char :: "nat \<Rightarrow> char" where
  "hex_char d = (if d < 10 then char_of (48 + d) else char_of (87 + d))"

fun hex_string :: "nat \<Rightarrow> string" where
  "hex_string n = (if n < 16 then [hex_char n] else hex_string (n div 16) @ [hex_char (n mod 16)])"

declare hex_string.simps [simp del]

definition hex_064 :: "nat \<Rightarrow> string" where
  "hex_064 n = replicate (64 - length (hex_string n)) (CHR ''0'') @ hex_string n"

fun to_sql_value :: "(felt \<Rightarrow> string) \<Rightarrow> (256 word \<Rightarrow> string) \<Rightarrow> primitive \<Rightarrow> string" where
  "to_sql_value felt_hex u256_hex (I8 v) = int_string (sint (unwrap_or_default 0 v))"
| "to_sql_value felt_hex u256_hex (I16 v) = int_string (sint (unwrap_or_default 0 v))"
| "to_sql_value felt_hex u256_hex (I32 v) = int_string (sint (unwrap_or_default 0 v))"
| "to_sql_value felt_hex u256_hex (I64 v) = int_string (sint (unwrap_or_default 0 v))"
| "to_sql_value felt_hex u256_hex (U8 v) = dec_string (unat (unwrap_or_default 0 v))"
| "to_sql_value felt_hex u256_hex (U16 v) = dec_string (unat (unwrap_or_default 0 v))"
| "to_sql_value felt_hex u256_hex (U32 v) = dec_string (unat (unwrap_or_default 0 v))"
| "to_sql_value felt_hex u256_hex (PBool v) = dec_string (if unwrap_or_default False v then 1 else 0)"
| "to_sql_value felt_hex u256_hex (I128 v) = ''0x'' @ hex_064 (unat (unwrap_or_default 0 v))"
| "to_sql_value felt_hex u256_hex (ContractAddress v) = ''0x'' @ felt_hex (unwrap_or_default 0 v)"
| "to_sql_value felt_hex u256_hex (ClassHash v) = ''0x'' @ felt_hex (unwrap_or_default 0 v)"
| "to_sql_value felt_hex u256_hex (Felt252 v) = ''0x'' @ felt_hex (unwrap_or_default 0 v)"
| "to_sql_value felt_hex u256_hex (U128 v) = ''0x'' @ hex_064 (unat (unwrap_or_default 0 v))"
| "to_sql_value felt_hex u256_hex (U64 v) = ''0x'' @ hex_064 (unat (unwrap_or_default 0 v))"
| "to_sql_value felt_hex u256_hex (EthAddress v) = ''0x'' @ felt_hex (unwrap_or_default 0 v)"
| "to_sql_value felt_hex u256_hex (U256 v) = ''0x'' @ u256_hex (unwrap_or_default 0 v)"

section \<open>Felts\<close>

text \<open>\<open>to_u8\<close> up to \<open>to_u128\<close> of \<open>ToPrimitive\<close>.\<close>

definition felt_to_uint :: "felt \<Rightarrow> 'a :: len word option" where
  "felt_to_uint f = (if nat_of_felt f < 2 ^ LENGTH('a) then Some (of_nat (nat_of_felt f)) else None)"

definition read_value ::
  "primitive \<Rightarrow> felt \<Rightarrow> string \<Rightarrow> primitive option \<Rightarrow> felt list \<Rightarrow>
    (unit, ('ce, 'ue) primitive_error) result \<times> primitive \<times> felt list" where
  "read_value p f type_name new fs =
     (case new of
        None \<Rightarrow> (Err (ValueOutOfRange f type_name), p, fs)
      | Some p' \<Rightarrow> (Ok (), p', fs))"

definition read_signed :: "felt \<Rightarrow> 'a :: len word option" where
  "read_signed f = (case try_from_felt f of Inl _ \<Rightarrow> None | Inr w \<Rightarrow> Some w)"

text \<open>The two limbs of a 256 bit number are the lower halves of the bytes of two felts.\<close>

definition u256_of_limbs :: "felt \<Rightarrow> felt \<Rightarrow> 256 word" where
  "u256_of_limbs value0 value1 =
     of_nat (from_be_bytes (drop 16 (felt_to_bytes_be value1) @ drop 16 (felt_to_bytes_be value0)))"

definition limbs_of_u256 :: "256 word \<Rightarrow> felt \<times> felt" where
  "limbs_of_u256 v =
     (let bytes = be_bytes 32 (unat v) in
      (felt_from_bytes_be_slice (replicate 16 0 @ drop 16 bytes),
       felt_from_bytes_be_slice (replicate 16 0 @ take 16 bytes)))"

fun primitive_deserialize ::
  "primitive \<Rightarrow> felt list \<Rightarrow> (unit, ('ce, 'ue) primitive_error) result \<times> primitive \<times> felt list" where
  "primitive_deserialize p [] = (Err MissingFieldElement, p, [])"
| "primitive_deserialize p (f # fs) =
     (case p of
        I8 _ \<Rightarrow> read_value p f ''i8'' (map_option (I8 \<circ> Some) (read_signed f)) fs
      | I16 _ \<Rightarrow> read_value p f ''i16'' (map_option (I16 \<circ> Some) (read_signed f)) fs
      | I32 _ \<Rightarrow> read_value p f ''i32'' (map_option (I32 \<circ> Some) (read_signed f)) fs
      | I64 _ \<Rightarrow> read_value p f ''i64'' (map_option (I64 \<circ> Some) (read_signed f)) fs
      | I128 _ \<Rightarrow> read_value p f ''i128'' (map_option (I128 \<circ> Some) (read_signed f)) fs
      | U8 _ \<Rightarrow> read_value p f ''u8'' (map_option (U8 \<circ> Some) (felt_to_uint f)) fs
      | U16 _ \<Rightarrow> read_value p f ''u16'' (map_option (U16 \<circ> Some) (felt_to_uint f)) fs
      | U32 _ \<Rightarrow> read_value p f ''u32'' (map_option (U32 \<circ> Some) (felt_to_uint f)) fs
      | U64 _ \<Rightarrow> read_value p f ''u64'' (map_option (U64 \<circ> Some) (felt_to_uint f)) fs
      | U128 _ \<Rightarrow> read_value p f ''u128'' (map_option (U128 \<circ> Some) (felt_to_uint f)) fs
      | U256 _ \<Rightarrow>
          (case fs of
             [] \<Rightarrow> (Err NotEnoughFieldElements, p, f # fs)
           | value1 # rest \<Rightarrow> (Ok (), U256 (Some (u256_of_limbs f value1)), rest))
      | PBool _ \<Rightarrow> (Ok (), PBool (Some (f = 1)), fs)
      | ContractAddress _ \<Rightarrow> (Ok (), ContractAddress (Some f), fs)
      | ClassHash _ \<Rightarrow> (Ok (), ClassHash (Some f), fs)
      | Felt252 _ \<Rightarrow> (Ok (), Felt252 (Some f), fs)
      | EthAddress _ \<Rightarrow> (Ok (), EthAddress (Some f), fs))"

definition some_or_missing :: "'a option \<Rightarrow> ('a \<Rightarrow> felt list) \<Rightarrow> (felt list, ('ce, 'ue) primitive_error) result" where
  "some_or_missing v f = (case v of None \<Rightarrow> Err MissingFieldElement | Some x \<Rightarrow> Ok (f x))"

fun primitive_serialize :: "primitive \<Rightarrow> (felt list, ('ce, 'ue) primitive_error) result" where
  "primitive_serialize (I8 v) = some_or_missing v (\<lambda>v. [felt_of_int (sint v)])"
| "primitive_serialize (I16 v) = some_or_missing v (\<lambda>v. [felt_of_int (sint v)])"
| "primitive_serialize (I32 v) = some_or_missing v (\<lambda>v. [felt_of_int (sint v)])"
| "primitive_serialize (I64 v) = some_or_missing v (\<lambda>v. [felt_of_int (sint v)])"
| "primitive_serialize (I128 v) = some_or_missing v (\<lambda>v. [felt_of_int (sint v)])"
| "primitive_serialize (U8 v) = some_or_missing v (\<lambda>v. [felt (unat v)])"
| "primitive_serialize (U16 v) = some_or_missing v (\<lambda>v. [felt (unat v)])"
| "primitive_serialize (U32 v) = some_or_missing v (\<lambda>v. [felt (unat v)])"
| "primitive_serialize (U64 v) = some_or_missing v (\<lambda>v. [felt (unat v)])"
| "primitive_serialize (U128 v) = some_or_missing v (\<lambda>v. [felt (unat v)])"
| "primitive_serialize (U256 v) = some_or_missing v (\<lambda>v. let (value0, value1) = limbs_of_u256 v in [value0, value1])"
| "primitive_serialize (PBool v) = some_or_missing v (\<lambda>v. [if v then 1 else 0])"
| "primitive_serialize (ContractAddress v) = some_or_missing v (\<lambda>v. [v])"
| "primitive_serialize (ClassHash v) = some_or_missing v (\<lambda>v. [v])"
| "primitive_serialize (Felt252 v) = some_or_missing v (\<lambda>v. [v])"
| "primitive_serialize (EthAddress v) = some_or_missing v (\<lambda>v. [v])"

section \<open>Reading back what was written\<close>

lemma read_signed_felt_of_int:
  "LENGTH('a :: len) \<in> {8, 16, 32, 64, 128} \<Longrightarrow> read_signed (felt_of_int (sint w)) = Some (w :: 'a word)"
proof -
  assume "LENGTH('a) \<in> {8, 16, 32, 64, 128}"
  then have "LENGTH('a) = 8 * (LENGTH('a) div 8)" "0 < LENGTH('a) div 8" "LENGTH('a) div 8 \<le> 16" by auto
  from try_from_felt_iff [OF this, of "felt_of_int (sint w)" w] show ?thesis
    by (simp add: read_signed_def)
qed

lemma felt_to_uint_felt_unat:
  "LENGTH('a :: len) \<le> 128 \<Longrightarrow> felt_to_uint (felt (unat w)) = Some (w :: 'a word)"
proof -
  assume "LENGTH('a) \<le> 128"
  then have "(2 :: nat) ^ LENGTH('a) \<le> 2 ^ 128" by (intro power_increasing) auto
  also have "\<dots> < stark_prime" by (simp add: stark_prime_def)
  finally have "unat w < stark_prime" by (rule less_trans [OF unsigned_less])
  then show ?thesis by (simp add: felt_to_uint_def nat_of_felt_felt)
qed

lemma from_be_bytes_zeros: "from_be_bytes (replicate n 0 @ bs) = from_be_bytes bs"
  by (induction n) (simp_all add: from_be_bytes_Cons)

lemma drop_be_bytes: "drop k (be_bytes (k + n) x) = be_bytes n x"
  by (induction n arbitrary: x) simp_all

lemma limb_roundtrip:
  assumes "length bs = 16"
  shows "drop 16 (felt_to_bytes_be (felt_from_bytes_be_slice (replicate 16 0 @ bs))) = bs"
proof -
  have "from_be_bytes bs < 256 ^ 16" using from_be_bytes_bound [of bs] assms by simp
  also have "\<dots> < stark_prime" by (simp add: stark_prime_def)
  finally have "nat_of_felt (felt_from_bytes_be_slice (replicate 16 0 @ bs)) = from_be_bytes bs"
    by (simp add: felt_from_bytes_be_slice_def from_be_bytes_zeros nat_of_felt_felt)
  then show ?thesis
    using drop_be_bytes [of 16 16 "from_be_bytes bs"] be_bytes_from_be_bytes [of bs] assms
    by (simp add: felt_to_bytes_be_def)
qed

lemma u256_limbs_roundtrip: "u256_of_limbs (fst (limbs_of_u256 v)) (snd (limbs_of_u256 v)) = v"
proof -
  have "unat v < 256 ^ 32" using unsigned_less [of v] by simp
  then show ?thesis
    by (simp add: u256_of_limbs_def limbs_of_u256_def Let_def limb_roundtrip from_be_bytes_be_bytes)
qed

lemma u256_of_limbs_of_u256: "limbs_of_u256 v = (value0, value1) \<Longrightarrow> u256_of_limbs value0 value1 = v"
  using u256_limbs_roundtrip [of v] by simp

lemma primitive_deserialize_serialize:
  assumes "to_numeric q = to_numeric p"
    and "primitive_serialize p = (Ok fs :: (felt list, ('ce, 'ue) primitive_error) result)"
  shows "primitive_deserialize q (fs @ rest) =
    (Ok () :: (unit, ('ce, 'ue) primitive_error) result, p, rest)"
  using assms
  by (cases p; cases q)
    (auto simp: some_or_missing_def read_value_def read_signed_felt_of_int felt_to_uint_felt_unat
        u256_of_limbs_of_u256
      split: option.splits prod.splits)

lemma primitive_deserialize_variant:
  "primitive_deserialize p fs = (r, p', fs') \<Longrightarrow> to_numeric p' = to_numeric p"
  by (cases fs; cases p) (auto simp: read_value_def split: option.splits list.splits)

lemma primitive_deserialize_suffix:
  "primitive_deserialize p fs = (r, p', fs') \<Longrightarrow> \<exists>pre. fs = pre @ fs'"
  by (cases fs; cases p) (auto simp: read_value_def split: option.splits list.splits)

lemma primitive_deserialize_progress:
  "primitive_deserialize p fs = (Ok (), p', fs') \<Longrightarrow> length fs' < length fs"
  by (cases fs; cases p) (auto simp: read_value_def split: option.splits list.splits)

lemma primitive_serialize_nonempty: "primitive_serialize p = Ok fs \<Longrightarrow> fs \<noteq> []"
  by (cases p) (auto simp: some_or_missing_def split: option.splits prod.splits)

text \<open>A felt above the range of the limbs is cut, and any felt but one is read as false.\<close>

lemma u256_limb_truncated: "u256_of_limbs (felt (2 ^ 128)) 0 = 0"
  using drop_be_bytes [of 16 16]
  by (simp add: u256_of_limbs_def felt_to_bytes_be_def nat_of_felt_felt zero_felt.rep_eq stark_prime_def
      from_be_bytes_append from_be_bytes_be_bytes)

text \<open>The two numberings disagree: the one counts in the order of the declaration.\<close>

lemma numeric_not_inverse: "map_option to_numeric (from_numeric 0) = Some 7"
  by (simp add: from_numeric_def primitive_iter_def)

end
