(* ===== verification/Cairo_Ty.thy ===== *)
theory Cairo_Ty
  imports Cairo_Primitive
begin

text \<open>
  The schemas of the dojo models (\<open>dojo/types/src/schema.rs\<close>): a \<open>Ty\<close> is both the type of a model
  and, once its leaves are filled in, a value of it.  Reading the felts of a value fills in a schema.
  A method with a mutable receiver returns the receiver as it leaves it, also when it fails; \<open>None\<close>
  is a panic.  The Cairo byte array is a type of the library \<open>cainome\<close>, and its operations are the
  record \<open>byte_array_lib\<close>.
\<close>

section \<open>Types\<close>

datatype ty =
    Ty_Primitive primitive
  | Ty_Struct struct
  | Ty_Enum enum
  | Ty_Tuple "ty list"
  | Ty_Array "ty list"
  | Ty_ByteArray string
and struct = Struct (struct_name: string) (children: "member list")
and member = Member (member_name: string) (member_ty: ty) (member_key: bool)
and enum = Enum (enum_name: string) (chosen: "u8 option") (options: "enum_option list")
and enum_option = EnumOption (option_name: string) (option_ty: ty)

datatype enum_error = OptionNotSet | OptionInvalid

record ('ba, 'ce, 'ue) byte_array_lib =
  ba_from_string :: "string \<Rightarrow> ('ba, 'ce) result"
  ba_serialize :: "'ba \<Rightarrow> felt list"
  ba_deserialize :: "felt list \<Rightarrow> nat \<Rightarrow> ('ba, 'ce) result"
  ba_serialized_size :: "'ba \<Rightarrow> nat"
  ba_to_string :: "'ba \<Rightarrow> (string, 'ue) result"

section \<open>Names and accessors\<close>

fun join :: "string \<Rightarrow> string list \<Rightarrow> string" where
  "join sep [] = ''''"
| "join sep [s] = s"
| "join sep (s # t # ss) = s @ sep @ join sep (t # ss)"

fun ty_name :: "ty \<Rightarrow> string" where
  "ty_name (Ty_Primitive c) = primitive_name c"
| "ty_name (Ty_Struct s) = struct_name s"
| "ty_name (Ty_Enum e) = enum_name e"
| "ty_name (Ty_Tuple tys) = ''('' @ join '', '' (map ty_name tys) @ '')''"
| "ty_name (Ty_Array tys) =
     (case tys of [] \<Rightarrow> ''Array'' | inner # _ \<Rightarrow> ''Array<'' @ ty_name inner @ ''>'')"
| "ty_name (Ty_ByteArray _) = ''ByteArray''"

fun as_primitive :: "ty \<Rightarrow> primitive option" where
  "as_primitive (Ty_Primitive c) = Some c"
| "as_primitive _ = None"

fun as_struct :: "ty \<Rightarrow> struct option" where
  "as_struct (Ty_Struct s) = Some s"
| "as_struct _ = None"

fun as_enum :: "ty \<Rightarrow> enum option" where
  "as_enum (Ty_Enum e) = Some e"
| "as_enum _ = None"

fun as_tuple :: "ty \<Rightarrow> ty list option" where
  "as_tuple (Ty_Tuple tys) = Some tys"
| "as_tuple _ = None"

fun as_array :: "ty \<Rightarrow> ty list option" where
  "as_array (Ty_Array tys) = Some tys"
| "as_array _ = None"

fun as_byte_array :: "ty \<Rightarrow> string option" where
  "as_byte_array (Ty_ByteArray bytes) = Some bytes"
| "as_byte_array _ = None"

definition struct_get :: "struct \<Rightarrow> string \<Rightarrow> ty option" where
  "struct_get s field = map_option member_ty (find (\<lambda>m. member_name m = field) (children s))"

definition struct_keys :: "struct \<Rightarrow> member list" where
  "struct_keys s = filter member_key (children s)"

definition enum_chosen :: "enum \<Rightarrow> (enum_option, enum_error) result" where
  "enum_chosen e =
     (case chosen e of
        None \<Rightarrow> Err OptionNotSet
      | Some i \<Rightarrow> if length (options e) \<le> unat i then Err OptionInvalid else Ok (options e ! unat i))"

fun position :: "('a \<Rightarrow> bool) \<Rightarrow> 'a list \<Rightarrow> nat option" where
  "position P [] = None"
| "position P (x # xs) = (if P x then Some 0 else map_option Suc (position P xs))"

definition set_option :: "enum \<Rightarrow> string \<Rightarrow> (unit, enum_error) result \<times> enum" where
  "set_option e name =
     (case position (\<lambda>opt. option_name opt = name) (options e) of
        Some index \<Rightarrow> (Ok (), Enum (enum_name e) (Some (of_nat index)) (options e))
      | None \<Rightarrow> (Err OptionInvalid, e))"

text \<open>\<open>&self.options[0]\<close> is evaluated before the option is looked at: an enum without options panics.\<close>

definition enum_to_sql_value :: "enum \<Rightarrow> string option" where
  "enum_to_sql_value e =
     (case options e of
        [] \<Rightarrow> None
      | first # _ \<Rightarrow> Some (case enum_chosen e of Inl _ \<Rightarrow> option_name first | Inr opt \<Rightarrow> option_name opt))"

section \<open>Iteration\<close>

text \<open>The stack of \<open>TyIter\<close> with its top first.  \<open>next\<close> pushes the children in order, so the last one is visited first.\<close>

fun ty_children :: "ty \<Rightarrow> ty list" where
  "ty_children (Ty_Struct s) = map member_ty (children s)"
| "ty_children (Ty_Enum e) = map option_ty (options e)"
| "ty_children _ = []"

fun iter_next :: "ty list \<Rightarrow> (ty \<times> ty list) option" where
  "iter_next [] = None"
| "iter_next (t # stack) = Some (t, rev (ty_children t) @ stack)"

lemma size_list_member_ty: "size_list size (map member_ty ms) \<le> size_list size ms"
proof (induction ms)
  case (Cons m ms)
  then show ?case by (cases m) simp
qed simp

lemma size_list_option_ty: "size_list size (map option_ty os) \<le> size_list size os"
proof (induction os)
  case (Cons opt os)
  then show ?case by (cases opt) simp
qed simp

lemma size_list_rev: "size_list size (rev xs) = size_list size xs"
  by (simp add: size_list_conv_sum_list rev_map [symmetric])

lemma size_ty_children: "size_list size (ty_children t) < Suc (size t)"
proof (cases t)
  case (Ty_Struct s)
  then show ?thesis using size_list_member_ty [of "children s"] by (cases s) simp
next
  case (Ty_Enum e)
  then show ?thesis using size_list_option_ty [of "options e"] by (cases e) simp
qed simp_all

function iter_all :: "ty list \<Rightarrow> ty list" where
  "iter_all stack =
     (case iter_next stack of None \<Rightarrow> [] | Some (t, stack') \<Rightarrow> t # iter_all stack')"
  by pat_completeness auto

termination
proof (relation "measure (size_list size)")
  fix stack p t stack'
  assume "iter_next stack = Some p" "(t, stack') = p"
  then show "(stack', stack) \<in> measure (size_list size)"
    using size_ty_children [of t] by (cases stack) (auto simp: size_list_rev)
qed simp

definition ty_iter :: "ty \<Rightarrow> ty list" where
  "ty_iter t = iter_all [t]"

section \<open>Printing\<close>

text \<open>\<open>{}\<close> of the value of a primitive in \<open>format_member\<close>.  The \<open>{:#x}\<close> of a felt and the \<open>{}\<close> of a
  256 bit number are those of the libraries.\<close>

fun format_value :: "(felt \<Rightarrow> string) \<Rightarrow> (256 word \<Rightarrow> string) \<Rightarrow> primitive \<Rightarrow> string option" where
  "format_value felt_alt_hex u256_display (I8 v) = map_option (int_string \<circ> sint) v"
| "format_value felt_alt_hex u256_display (I16 v) = map_option (int_string \<circ> sint) v"
| "format_value felt_alt_hex u256_display (I32 v) = map_option (int_string \<circ> sint) v"
| "format_value felt_alt_hex u256_display (I64 v) = map_option (int_string \<circ> sint) v"
| "format_value felt_alt_hex u256_display (I128 v) = map_option (int_string \<circ> sint) v"
| "format_value felt_alt_hex u256_display (U8 v) = map_option (dec_string \<circ> unat) v"
| "format_value felt_alt_hex u256_display (U16 v) = map_option (dec_string \<circ> unat) v"
| "format_value felt_alt_hex u256_display (U32 v) = map_option (dec_string \<circ> unat) v"
| "format_value felt_alt_hex u256_display (U64 v) = map_option (dec_string \<circ> unat) v"
| "format_value felt_alt_hex u256_display (U128 v) = map_option (dec_string \<circ> unat) v"
| "format_value felt_alt_hex u256_display (U256 v) = map_option u256_display v"
| "format_value felt_alt_hex u256_display (PBool v) = map_option (\<lambda>b. if b then ''true'' else ''false'') v"
| "format_value felt_alt_hex u256_display (Felt252 v) = map_option felt_alt_hex v"
| "format_value felt_alt_hex u256_display (ClassHash v) = map_option felt_alt_hex v"
| "format_value felt_alt_hex u256_display (ContractAddress v) = map_option felt_alt_hex v"
| "format_value felt_alt_hex u256_display (EthAddress v) = map_option felt_alt_hex v"

definition newline :: char where
  "newline = char_of (10 :: nat)"

definition format_member :: "(felt \<Rightarrow> string) \<Rightarrow> (256 word \<Rightarrow> string) \<Rightarrow> member \<Rightarrow> string" where
  "format_member felt_alt_hex u256_display m =
     (let str = (if member_key m then ''  #[key]'' @ [newline] else []) @
        ''  '' @ member_name m @ '': '' @ ty_name (member_ty m) in
      case member_ty m of
        Ty_Primitive p \<Rightarrow>
          (case format_value felt_alt_hex u256_display p of
             Some v \<Rightarrow> str @ '' = '' @ v
           | None \<Rightarrow> str)
      | Ty_Enum e \<Rightarrow>
          (case enum_chosen e of
             Inr opt \<Rightarrow> str @ '' = '' @ option_name opt
           | Inl _ \<Rightarrow> str @ '' = Invalid Option'')
      | _ \<Rightarrow> str)"

text \<open>The \<open>Display\<close> of a type prints the types that \<open>iter\<close> visits; an array without item panics.\<close>

fun display_ty :: "(felt \<Rightarrow> string) \<Rightarrow> (256 word \<Rightarrow> string) \<Rightarrow> ty \<Rightarrow> string option option" where
  "display_ty felt_alt_hex u256_display (Ty_Struct s) =
     Some (Some (''struct '' @ struct_name s @ '' {'' @ [newline] @
       concat (map (\<lambda>m. format_member felt_alt_hex u256_display m @ '','' @ [newline]) (children s)) @ ''}''))"
| "display_ty felt_alt_hex u256_display (Ty_Enum e) =
     Some (Some (''enum '' @ enum_name e @ '' {'' @ [newline] @
       concat (map (\<lambda>opt. ''  '' @ option_name opt @ [newline]) (options e)) @ ''}''))"
| "display_ty felt_alt_hex u256_display (Ty_Tuple tuple) =
     Some (Some (''tuple('' @ join '', '' (map ty_name tuple) @ '')''))"
| "display_ty felt_alt_hex u256_display (Ty_Array items) =
     (case items of [] \<Rightarrow> None | t # _ \<Rightarrow> Some (Some (''Array<'' @ ty_name t @ ''>'')))"
| "display_ty felt_alt_hex u256_display (Ty_ByteArray _) = Some (Some ''ByteArray'')"
| "display_ty felt_alt_hex u256_display (Ty_Primitive _) = Some None"

definition ty_display :: "(felt \<Rightarrow> string) \<Rightarrow> (256 word \<Rightarrow> string) \<Rightarrow> ty \<Rightarrow> string option" where
  "ty_display felt_alt_hex u256_display t =
     (let shown = map (display_ty felt_alt_hex u256_display) (ty_iter t) in
      if None \<in> set shown then None
      else Some (join [newline, newline] (List.map_filter the shown)))"

section \<open>Felts of a value\<close>

lemma size_member_ty [termination_simp]: "m \<in> set (children s) \<Longrightarrow> size (member_ty m) < size s"
proof (cases s)
  case (Struct n ms)
  assume "m \<in> set (children s)"
  then have "size m < Suc (size_list size ms)" using Struct by (simp add: less_Suc_eq_le size_list_estimation')
  moreover have "size (member_ty m) < size m" by (cases m) simp
  ultimately show ?thesis using Struct by simp
qed

lemma size_option_ty [termination_simp]: "opt \<in> set (options e) \<Longrightarrow> size (option_ty opt) < size e"
proof (cases e)
  case (Enum n c os)
  assume "opt \<in> set (options e)"
  then have "size opt < Suc (size_list size os)" using Enum by (simp add: less_Suc_eq_le size_list_estimation')
  moreover have "size (option_ty opt) < size opt" by (cases opt) simp
  ultimately show ?thesis using Enum by simp
qed

text \<open>Appending in turn; the first error or panic ends the loop.\<close>

fun extend_all :: "('a list, 'e) result option list \<Rightarrow> ('a list, 'e) result option" where
  "extend_all [] = Some (Ok [])"
| "extend_all (None # rs) = None"
| "extend_all (Some (Inl e) # rs) = Some (Inl e)"
| "extend_all (Some (Inr fs) # rs) = map_option (map_ok ((@) fs)) (extend_all rs)"

fun ty_serialize ::
  "('ba, 'ce, 'ue) byte_array_lib \<Rightarrow> ty \<Rightarrow> (felt list, ('ce, 'ue) primitive_error) result option" where
  "ty_serialize lib (Ty_Primitive c) = Some (primitive_serialize c)"
| "ty_serialize lib (Ty_Struct s) = extend_all (map (\<lambda>m. ty_serialize lib (member_ty m)) (children s))"
| "ty_serialize lib (Ty_Enum e) =
     extend_all (Some (some_or_missing (chosen e) (\<lambda>v. [felt (unat v)])) #
       map (\<lambda>opt. ty_serialize lib (option_ty opt)) (options e))"
| "ty_serialize lib (Ty_Tuple tys) = extend_all (map (ty_serialize lib) tys)"
| "ty_serialize lib (Ty_Array items) =
     (if length items < 2 ^ 32
      then extend_all (Some (primitive_serialize (U32 (Some (of_nat (length items))))) # map (ty_serialize lib) items)
      else None)"
| "ty_serialize lib (Ty_ByteArray bytes) =
     Some (case ba_from_string lib bytes of Inl e \<Rightarrow> Err (CairoSerde e) | Inr ba \<Rightarrow> Ok (ba_serialize lib ba))"

section \<open>A value from felts\<close>

text \<open>The loops of \<open>deserialize\<close>, over a reader that returns its result, the item it leaves behind and the
  remaining felts: every item of a list, one item by its index, and copies of one item.\<close>

type_synonym ('a, 'e) reader = "'a \<Rightarrow> felt list \<Rightarrow> ((unit, 'e) result \<times> 'a \<times> felt list) option"

fun read_each :: "('a, 'e) reader \<Rightarrow> 'a list \<Rightarrow> felt list \<Rightarrow> ((unit, 'e) result \<times> 'a list \<times> felt list) option" where
  "read_each f [] fs = Some (Ok (), [], fs)"
| "read_each f (x # xs) fs =
     (case f x fs of
        None \<Rightarrow> None
      | Some (Inl e, x', fs') \<Rightarrow> Some (Inl e, x' # xs, fs')
      | Some (Inr _, x', fs') \<Rightarrow> map_option (\<lambda>(r, xs', fs''). (r, x' # xs', fs'')) (read_each f xs fs'))"

definition read_nth ::
  "('a, 'e) reader \<Rightarrow> nat \<Rightarrow> 'a list \<Rightarrow> felt list \<Rightarrow> ((unit, 'e) result \<times> 'a list \<times> felt list) option" where
  "read_nth f i xs fs =
     (if i < length xs then map_option (\<lambda>(r, x', fs'). (r, xs[i := x'], fs')) (f (xs ! i) fs) else None)"

fun read_copies ::
  "('a, 'e) reader \<Rightarrow> nat \<Rightarrow> 'a \<Rightarrow> felt list \<Rightarrow> ((unit, 'e) result \<times> 'a list \<times> felt list) option" where
  "read_copies f 0 x fs = Some (Ok (), [], fs)"
| "read_copies f (Suc n) x fs =
     (case f x fs of
        None \<Rightarrow> None
      | Some (Inl e, x', fs') \<Rightarrow> Some (Inl e, [], fs')
      | Some (Inr _, x', fs') \<Rightarrow> map_option (\<lambda>(r, xs', fs''). (r, x' # xs', fs'')) (read_copies f n x fs'))"

lemma read_each_cong [fundef_cong]:
  "xs = ys \<Longrightarrow> fs = gs \<Longrightarrow> (\<And>y gs. y \<in> set ys \<Longrightarrow> f y gs = g y gs) \<Longrightarrow> read_each f xs fs = read_each g ys gs"
  by (induction ys arbitrary: xs fs gs) (auto split: option.split sum.split)

lemma read_nth_cong [fundef_cong]:
  "i = j \<Longrightarrow> xs = ys \<Longrightarrow> fs = gs \<Longrightarrow> (\<And>y gs. y \<in> set ys \<Longrightarrow> f y gs = g y gs) \<Longrightarrow> read_nth f i xs fs = read_nth g j ys gs"
  by (auto simp: read_nth_def)

lemma read_copies_cong [fundef_cong]:
  "n = m \<Longrightarrow> x = y \<Longrightarrow> fs = gs \<Longrightarrow> (\<And>gs. f y gs = g y gs) \<Longrightarrow> read_copies f n x fs = read_copies g m y gs"
  by (induction m arbitrary: n fs gs) (auto split: option.split sum.split)

definition map_read :: "('a \<Rightarrow> 'b) \<Rightarrow> ('r \<times> 'a \<times> 'f) option \<Rightarrow> ('r \<times> 'b \<times> 'f) option" where
  "map_read h = map_option (\<lambda>(r, a, fs). (r, h a, fs))"

lemma size_last_lt [termination_simp]: "xs \<noteq> [] \<Longrightarrow> size (last xs) < Suc (size_list size xs)"
  using size_list_estimation' [OF last_in_set, of xs "size (last xs)" size] by (simp add: less_Suc_eq_le)

fun ty_deserialize :: "('ba, 'ce, 'ue) byte_array_lib \<Rightarrow> (ty, ('ce, 'ue) primitive_error) reader" where
  "ty_deserialize lib t [] = Some (Ok (), t, [])"
| "ty_deserialize lib (Ty_Primitive c) (f # fs) =
     map_read Ty_Primitive (Some (primitive_deserialize c (f # fs)))"
| "ty_deserialize lib (Ty_Struct s) (f # fs) =
     map_read (\<lambda>ms. Ty_Struct (Struct (struct_name s) ms))
       (read_each (\<lambda>m gs. map_read (\<lambda>t. Member (member_name m) t (member_key m)) (ty_deserialize lib (member_ty m) gs))
          (children s) (f # fs))"
| "ty_deserialize lib (Ty_Enum e) (f # fs) =
     (case felt_to_uint f :: u8 option of
        None \<Rightarrow> Some (Err (ValueOutOfRange f ''u8''), Ty_Enum e, fs)
      | Some v \<Rightarrow>
          map_read (\<lambda>os. Ty_Enum (Enum (enum_name e) (Some v) os))
            (read_nth
               (\<lambda>opt gs.
                  if option_ty opt = Ty_Tuple [] then Some (Ok (), opt, gs)
                  else map_read (EnumOption (option_name opt)) (ty_deserialize lib (option_ty opt) gs))
               (unat v) (options e) fs))"
| "ty_deserialize lib (Ty_Tuple tys) (f # fs) = map_read Ty_Tuple (read_each (ty_deserialize lib) tys (f # fs))"
| "ty_deserialize lib (Ty_Array items) (f # fs) =
     (case felt_to_uint f :: u32 option of
        None \<Rightarrow> Some (Err (ValueOutOfRange f ''u32''), Ty_Array items, fs)
      | Some arr_len \<Rightarrow>
          if items = [] then None
          else map_read (\<lambda>pushed. Ty_Array (butlast items @ pushed))
            (read_copies (ty_deserialize lib) (unat arr_len) (last items) fs))"
| "ty_deserialize lib (Ty_ByteArray bytes) (f # fs) =
     (case ba_deserialize lib (f # fs) 0 of
        Inl e \<Rightarrow> Some (Err (CairoSerde e), Ty_ByteArray bytes, f # fs)
      | Inr ba \<Rightarrow>
          if ba_serialized_size lib ba \<le> length (f # fs)
          then Some (case ba_to_string lib ba of
            Inl e \<Rightarrow> (Err (FromUtf8Error e), Ty_ByteArray bytes, drop (ba_serialized_size lib ba) (f # fs))
          | Inr text \<Rightarrow> (Ok (), Ty_ByteArray text, drop (ba_serialized_size lib ba) (f # fs)))
          else None)"

section \<open>Schemas and the values that fill them\<close>

text \<open>A schema gives the type of the items of an array by exactly one item.\<close>

fun wf_schema :: "ty \<Rightarrow> bool" where
  "wf_schema (Ty_Primitive p) = True"
| "wf_schema (Ty_Struct s) = (\<forall>m \<in> set (children s). wf_schema (member_ty m))"
| "wf_schema (Ty_Enum e) = (\<forall>opt \<in> set (options e). wf_schema (option_ty opt))"
| "wf_schema (Ty_Tuple tys) = (\<forall>t \<in> set tys. wf_schema t)"
| "wf_schema (Ty_Array items) = (length items = 1 \<and> (\<forall>t \<in> set items. wf_schema t))"
| "wf_schema (Ty_ByteArray bytes) = True"

inductive fills :: "ty \<Rightarrow> ty \<Rightarrow> bool" where
  fills_primitive: "to_numeric p = to_numeric q \<Longrightarrow> fills (Ty_Primitive p) (Ty_Primitive q)"
| fills_struct:
    "list_all2 (\<lambda>m m'. member_name m = member_name m' \<and> member_key m = member_key m' \<and>
       fills (member_ty m) (member_ty m')) ms ms' \<Longrightarrow>
     fills (Ty_Struct (Struct n ms)) (Ty_Struct (Struct n ms'))"
| fills_enum:
    "list_all2 (\<lambda>opt opt'. option_name opt = option_name opt' \<and>
       fills (option_ty opt) (option_ty opt')) os os' \<Longrightarrow>
     fills (Ty_Enum (Enum n c os)) (Ty_Enum (Enum n c' os'))"
| fills_tuple: "list_all2 fills ts ts' \<Longrightarrow> fills (Ty_Tuple ts) (Ty_Tuple ts')"
| fills_array: "list_all (fills t) ts \<Longrightarrow> fills (Ty_Array [t]) (Ty_Array ts)"
| fills_byte_array: "fills (Ty_ByteArray a) (Ty_ByteArray b)"

inductive_simps fills_simps:
  "fills (Ty_Primitive p) t" "fills (Ty_Struct (Struct n ms)) t" "fills (Ty_Enum (Enum n c os)) t"
  "fills (Ty_Tuple ts) t" "fills (Ty_Array items) t" "fills (Ty_ByteArray a) t"

lemma size_in_list [termination_simp]: "t \<in> set ts \<Longrightarrow> size t < Suc (size_list size ts)"
  using size_list_estimation' [of t ts "size t" size] by (simp add: less_Suc_eq_le)

lemma ty_induct [case_names Primitive Struct Enum Tuple Array ByteArray]:
  fixes t :: ty
  assumes "\<And>p. P (Ty_Primitive p)"
    and "\<And>n ms. (\<And>m. m \<in> set ms \<Longrightarrow> P (member_ty m)) \<Longrightarrow> P (Ty_Struct (Struct n ms))"
    and "\<And>n c os. (\<And>opt. opt \<in> set os \<Longrightarrow> P (option_ty opt)) \<Longrightarrow> P (Ty_Enum (Enum n c os))"
    and "\<And>ts. (\<And>t. t \<in> set ts \<Longrightarrow> P t) \<Longrightarrow> P (Ty_Tuple ts)"
    and "\<And>ts. (\<And>t. t \<in> set ts \<Longrightarrow> P t) \<Longrightarrow> P (Ty_Array ts)"
    and "\<And>bytes. P (Ty_ByteArray bytes)"
  shows "P t"
proof (induction t rule: measure_induct_rule [of size])
  case (less t)
  show ?case
  proof (cases t)
    case (Ty_Struct s)
    then show ?thesis
      using less.IH assms(2) [of "children s" "struct_name s"] size_member_ty [of _ s] by force
  next
    case (Ty_Enum e)
    then show ?thesis
      using less.IH assms(3) [of "options e" "enum_name e" "chosen e"] size_option_ty [of _ e] by force
  next
    case (Ty_Tuple ts)
    then show ?thesis using less.IH assms(4) [of ts] size_in_list [of _ ts] by force
  next
    case (Ty_Array ts)
    then show ?thesis using less.IH assms(5) [of ts] size_in_list [of _ ts] by force
  qed (use assms in auto)
qed

lemma fills_refl: "wf_schema t \<Longrightarrow> fills t t"
proof (induction t rule: ty_induct)
  case (Array ts)
  then obtain t where "ts = [t]" by (auto simp: length_Suc_conv)
  with Array show ?case by (auto simp: fills_simps)
qed (auto simp: fills_simps list_all2_same)

text \<open>What the loops keep, given what one reading keeps.\<close>

lemma read_each_all2:
  assumes "read_each f xs fs = Some (r, xs', fs')"
    and "\<And>x gs r x' gs'. x \<in> set xs \<Longrightarrow> f x gs = Some (r, x', gs') \<Longrightarrow> R x x'"
    and "\<And>x. x \<in> set xs \<Longrightarrow> R x x"
  shows "list_all2 R xs xs'"
  using assms
proof (induction xs arbitrary: fs xs')
  case (Cons x xs)
  show ?case
  proof (cases "f x fs")
    case (Some p)
    obtain q x' gs where p: "p = (q, x', gs)" by (cases p)
    have x: "R x x'" using Some p Cons.prems(2) by simp
    have "list_all2 R xs xs" using Cons.prems(3) by (simp add: list_all2_same)
    with x Some p Cons show ?thesis by (cases q) auto
  qed (use Cons.prems in simp)
qed simp

lemma read_nth_all2:
  assumes "read_nth f i xs fs = Some (r, xs', fs')"
    and "\<And>x gs r x' gs'. x \<in> set xs \<Longrightarrow> f x gs = Some (r, x', gs') \<Longrightarrow> R x x'"
    and "\<And>x. x \<in> set xs \<Longrightarrow> R x x"
  shows "list_all2 R xs xs'"
  using assms by (auto simp: read_nth_def list_all2_conv_all_nth nth_list_update split: if_splits)

lemma read_copies_all:
  assumes "read_copies f n x fs = Some (r, xs', fs')"
    and "\<And>gs r x' gs'. f x gs = Some (r, x', gs') \<Longrightarrow> R x'"
  shows "list_all R xs'"
  using assms
proof (induction n arbitrary: fs xs')
  case (Suc n)
  show ?case
  proof (cases "f x fs")
    case (Some p)
    obtain q x' gs where p: "p = (q, x', gs)" by (cases p)
    have x: "R x'" using Some p Suc.prems(2) by simp
    with Some p Suc show ?thesis by (cases q) auto
  qed (use Suc.prems in simp)
qed simp

lemma map_read_Some_iff:
  "map_read h x = Some (r, b, fs) \<longleftrightarrow> (\<exists>a. x = Some (r, a, fs) \<and> b = h a)"
  by (auto simp: map_read_def)

lemma map_read_Some [simp]: "map_read h (Some (r, a, fs)) = Some (r, h a, fs)" "map_read h None = None"
  by (simp_all add: map_read_def)

declare primitive_deserialize.simps [simp del]

lemma deserialize_fills:
  "wf_schema t \<Longrightarrow> ty_deserialize lib t fs = Some (r, t', fs') \<Longrightarrow> fills t t'"
proof (induction t arbitrary: fs r t' fs' rule: ty_induct)
  case (Primitive p)
  then show ?case
    by (cases fs) (auto simp: fills_simps map_read_def dest: primitive_deserialize_variant split: prod.splits)
next
  case (Struct n ms)
  show ?case
  proof (cases fs)
    case (Cons f gs)
    with Struct.prems obtain ms' where t': "t' = Ty_Struct (Struct n ms')" and
      "read_each (\<lambda>m gs. map_read (\<lambda>t. Member (member_name m) t (member_key m)) (ty_deserialize lib (member_ty m) gs))
         ms fs = Some (r, ms', fs')"
      by (auto simp: map_read_Some_iff)
    from this(2) have "list_all2 (\<lambda>m m'. member_name m = member_name m' \<and> member_key m = member_key m' \<and>
       fills (member_ty m) (member_ty m')) ms ms'"
      by (rule read_each_all2) (use Struct in \<open>auto simp: map_read_Some_iff fills_refl\<close>)
    then show ?thesis by (auto simp: t' fills_simps)
  qed (use Struct.prems in \<open>auto intro: fills_refl\<close>)
next
  case (Enum n c os)
  show ?case
  proof (cases fs)
    case (Cons f gs)
    show ?thesis
    proof (cases "felt_to_uint f :: u8 option")
      case (Some v)
      with Cons Enum.prems obtain os' where t': "t' = Ty_Enum (Enum n (Some v) os')" and
        "read_nth (\<lambda>opt gs. if option_ty opt = Ty_Tuple [] then Some (Ok (), opt, gs)
            else map_read (EnumOption (option_name opt)) (ty_deserialize lib (option_ty opt) gs))
          (unat v) os gs = Some (r, os', fs')"
        by (auto simp: map_read_Some_iff)
      from this(2) have "list_all2 (\<lambda>opt opt'. option_name opt = option_name opt' \<and>
          fills (option_ty opt) (option_ty opt')) os os'"
        by (rule read_nth_all2)
          (use Enum in \<open>auto simp: map_read_Some_iff fills_refl fills_simps split: if_splits\<close>)
      then show ?thesis by (auto simp: t' fills_simps)
    qed (use Cons Enum.prems in \<open>auto intro!: fills_refl\<close>)
  qed (use Enum.prems in \<open>auto intro: fills_refl\<close>)
next
  case (Tuple ts)
  show ?case
  proof (cases fs)
    case (Cons f gs)
    with Tuple.prems obtain ts' where t': "t' = Ty_Tuple ts'" and
      "read_each (ty_deserialize lib) ts fs = Some (r, ts', fs')"
      by (auto simp: map_read_Some_iff)
    from this(2) have "list_all2 fills ts ts'"
      by (rule read_each_all2) (use Tuple in \<open>auto intro: fills_refl\<close>)
    then show ?thesis by (simp add: t' fills_simps)
  qed (use Tuple.prems in \<open>auto intro: fills_refl\<close>)
next
  case (Array ts)
  then obtain t where ts: "ts = [t]" "wf_schema t" by (auto simp: length_Suc_conv)
  show ?case
  proof (cases fs)
    case (Cons f gs)
    show ?thesis
    proof (cases "felt_to_uint f :: u32 option")
      case (Some v)
      with Cons Array.prems ts obtain ts' where t': "t' = Ty_Array ts'" and
        "read_copies (ty_deserialize lib) (unat v) t gs = Some (r, ts', fs')"
        by (auto simp: map_read_Some_iff)
      from this(2) have "list_all (fills t) ts'"
        by (rule read_copies_all) (use Array.IH ts in auto)
      then show ?thesis by (simp add: t' ts fills_simps)
    qed (use Cons Array.prems in \<open>auto intro!: fills_refl\<close>)
  qed (use Array.prems in \<open>auto intro: fills_refl\<close>)
next
  case (ByteArray bytes)
  then show ?case by (cases fs) (auto simp: fills_simps split: sum.splits if_splits)
qed

text \<open>A reading leaves a suffix of the felts.\<close>

lemma read_each_drop:
  assumes "read_each f xs fs = Some (r, xs', fs')"
    and "\<And>x gs r x' gs'. x \<in> set xs \<Longrightarrow> f x gs = Some (r, x', gs') \<Longrightarrow> \<exists>k. gs' = drop k gs"
  shows "\<exists>k. fs' = drop k fs"
  using assms
proof (induction xs arbitrary: fs xs')
  case Nil
  then show ?case by (auto intro: exI [of _ 0])
next
  case (Cons x xs)
  then obtain q x' gs where p: "f x fs = Some (q, x', gs)" by (auto split: option.splits)
  with Cons.prems(2) obtain j where j: "gs = drop j fs" by (meson list.set_intros(1))
  show ?case
  proof (cases q)
    case (Inr u)
    with p Cons.prems(1) obtain ys where "read_each f xs gs = Some (r, ys, fs')" by auto
    with Cons obtain k where "fs' = drop k gs" by (meson list.set_intros(2))
    with j show ?thesis by auto
  qed (use p j Cons.prems in auto)
qed

lemma read_copies_drop:
  assumes "read_copies f n x fs = Some (r, xs', fs')"
    and "\<And>gs r x' gs'. f x gs = Some (r, x', gs') \<Longrightarrow> \<exists>k. gs' = drop k gs"
  shows "\<exists>k. fs' = drop k fs"
  using assms
proof (induction n arbitrary: fs xs')
  case 0
  then show ?case by (auto intro: exI [of _ 0])
next
  case (Suc n)
  then obtain q x' gs where p: "f x fs = Some (q, x', gs)" by (auto split: option.splits)
  with Suc.prems(2) obtain j where j: "gs = drop j fs" by meson
  show ?case
  proof (cases q)
    case (Inr u)
    with p Suc.prems(1) obtain ys where "read_copies f n x gs = Some (r, ys, fs')" by auto
    with Suc obtain k where "fs' = drop k gs" by meson
    with j show ?thesis by auto
  qed (use p j Suc.prems in auto)
qed

lemma drop_of_tail: "\<exists>k. fs' = drop k fs \<Longrightarrow> \<exists>k. fs' = drop k (f # fs)"
  by (metis drop_Suc_Cons)

lemma deserialize_drop:
  "ty_deserialize lib t fs = Some (r, t', fs') \<Longrightarrow> \<exists>k. fs' = drop k fs"
proof (induction t arbitrary: fs r t' fs' rule: ty_induct)
  case (Primitive p)
  show ?case
  proof (cases fs)
    case (Cons f gs)
    with Primitive obtain p' where "primitive_deserialize p fs = (r, p', fs')"
      by (auto simp: map_read_Some_iff)
    then obtain pre where "fs = pre @ fs'" using primitive_deserialize_suffix by blast
    then show ?thesis by (auto intro: exI [of _ "length pre"])
  qed (use Primitive in auto)
next
  case (Struct n ms)
  show ?case
  proof (cases fs)
    case (Cons f gs)
    with Struct.prems obtain ms' where
      "read_each (\<lambda>m gs. map_read (\<lambda>t. Member (member_name m) t (member_key m)) (ty_deserialize lib (member_ty m) gs))
         ms fs = Some (r, ms', fs')"
      by (auto simp: map_read_Some_iff)
    then show ?thesis by (rule read_each_drop) (use Struct.IH in \<open>auto simp: map_read_Some_iff\<close>)
  qed (use Struct in auto)
next
  case (Enum n c os)
  then show ?case
    by (cases fs)
      (auto simp: map_read_Some_iff read_nth_def split: option.splits if_splits intro!: drop_of_tail
        intro: exI [of _ 0] Enum.IH [OF nth_mem])
next
  case (Tuple ts)
  show ?case
  proof (cases fs)
    case (Cons f gs)
    with Tuple.prems obtain ts' where "read_each (ty_deserialize lib) ts fs = Some (r, ts', fs')"
      by (auto simp: map_read_Some_iff)
    then show ?thesis by (rule read_each_drop) (use Tuple.IH in auto)
  qed (use Tuple in auto)
next
  case (Array ts)
  show ?case
  proof (cases fs)
    case (Cons f gs)
    show ?thesis
    proof (cases "felt_to_uint f :: u32 option")
      case (Some v)
      with Cons Array.prems obtain ts' where ts: "ts \<noteq> []"
        "read_copies (ty_deserialize lib) (unat v) (last ts) gs = Some (r, ts', fs')"
        by (auto simp: map_read_Some_iff split: if_splits)
      from ts(2) have "\<exists>k. fs' = drop k gs"
        by (rule read_copies_drop) (rule Array.IH [OF last_in_set [OF ts(1)]])
      then show ?thesis unfolding Cons by (rule drop_of_tail)
    qed (use Cons Array.prems in \<open>auto intro!: drop_of_tail intro: exI [of _ 0]\<close>)
  qed (use Array in auto)
next
  case (ByteArray bytes)
  then show ?case
    by (cases fs) (auto split: sum.splits if_splits intro: exI [of _ 0])
qed

section \<open>Reading back a written value\<close>

text \<open>What the code relies on of the byte arrays of the library: their felts are read back whatever follows,
  their size is the number of felts, and the text is kept.\<close>

definition byte_array_laws :: "('ba, 'ce, 'ue) byte_array_lib \<Rightarrow> bool" where
  "byte_array_laws lib \<longleftrightarrow>
     (\<forall>text ba. ba_from_string lib text = Ok ba \<longrightarrow>
        ba_serialize lib ba \<noteq> [] \<and> (\<forall>rest. ba_deserialize lib (ba_serialize lib ba @ rest) 0 = Ok ba) \<and>
        ba_serialized_size lib ba = length (ba_serialize lib ba) \<and> ba_to_string lib ba = Ok text)"

text \<open>An enum is written with the payloads of all its options and read with that of the chosen one only;
  values whose enums have no payload and a valid choice are written the way they are read.\<close>

fun plain_enums :: "ty \<Rightarrow> bool" where
  "plain_enums (Ty_Primitive p) = True"
| "plain_enums (Ty_Struct s) = (\<forall>m \<in> set (children s). plain_enums (member_ty m))"
| "plain_enums (Ty_Enum e) =
     ((\<forall>opt \<in> set (options e). option_ty opt = Ty_Tuple []) \<and>
      (case chosen e of None \<Rightarrow> True | Some i \<Rightarrow> unat i < length (options e)))"
| "plain_enums (Ty_Tuple tys) = (\<forall>t \<in> set tys. plain_enums t)"
| "plain_enums (Ty_Array items) = (\<forall>t \<in> set items. plain_enums t)"
| "plain_enums (Ty_ByteArray bytes) = True"

lemma extend_all_Cons_Ok:
  "extend_all (r # rs) = Some (Ok fs) \<longleftrightarrow>
    (\<exists>a b. r = Some (Ok a) \<and> extend_all rs = Some (Ok b) \<and> fs = a @ b)"
  by (cases "(r # rs, fs)" rule: prod.exhaust; cases r; cases "the r")
    (auto simp: map_ok_Ok_iff)

lemma extend_all_empty: "\<forall>r \<in> set rs. r = Some (Ok []) \<Longrightarrow> extend_all rs = Some (Ok [])"
  by (induction rs) auto

text \<open>The early return on an empty list of felts is what the loops do anyway.\<close>

lemma read_each_Nil: "(\<And>x. x \<in> set xs \<Longrightarrow> f x [] = Some (Ok (), x, [])) \<Longrightarrow> read_each f xs [] = Some (Ok (), xs, [])"
  by (induction xs) auto

lemma deserialize_struct:
  "ty_deserialize lib (Ty_Struct (Struct n ms)) fs = map_read (\<lambda>ms. Ty_Struct (Struct n ms))
     (read_each (\<lambda>m gs. map_read (\<lambda>t. Member (member_name m) t (member_key m)) (ty_deserialize lib (member_ty m) gs)) ms fs)"
  by (cases fs) (simp_all add: read_each_Nil)

lemma deserialize_tuple: "ty_deserialize lib (Ty_Tuple ts) fs = map_read Ty_Tuple (read_each (ty_deserialize lib) ts fs)"
  by (cases fs) (simp_all add: read_each_Nil)

lemma read_each_serialized:
  assumes "list_all2 (\<lambda>x y. \<forall>fs rest. ser y = Some (Ok fs) \<longrightarrow> f x (fs @ rest) = Some (Ok (), y, rest)) xs ys"
    and "extend_all (map ser ys) = Some (Ok fs)"
  shows "read_each f xs (fs @ rest) = Some (Ok (), ys, rest)"
  using assms by (induction arbitrary: fs) (auto simp: extend_all_Cons_Ok)

lemma read_copies_serialized:
  assumes "list_all (\<lambda>y. \<forall>fs rest. ser y = Some (Ok fs) \<longrightarrow> f x (fs @ rest) = Some (Ok (), y, rest)) ys"
    and "extend_all (map ser ys) = Some (Ok fs)"
  shows "read_copies f (length ys) x (fs @ rest) = Some (Ok (), ys, rest)"
  using assms by (induction ys arbitrary: fs) (auto simp: extend_all_Cons_Ok)

lemma fills_unit: "fills t (Ty_Tuple []) \<longleftrightarrow> t = Ty_Tuple []"
  by (auto simp: fills_simps elim: fills.cases)

lemma deserialize_serialize:
  fixes lib :: "('ba, 'ce, 'ue) byte_array_lib"
  assumes laws: "byte_array_laws lib"
  shows "fills t v \<Longrightarrow> plain_enums v \<Longrightarrow> ty_serialize lib v = Some (Ok fs) \<Longrightarrow>
    ty_deserialize lib t (fs @ rest) = Some (Ok (), v, rest)"
proof (induction arbitrary: fs rest rule: fills.induct)
  case (fills_primitive p q)
  then have "fs \<noteq> []" using primitive_serialize_nonempty by auto
  moreover have "primitive_deserialize p (fs @ rest) =
      (Ok () :: (unit, ('ce, 'ue) primitive_error) result, q, rest)"
    using fills_primitive by (intro primitive_deserialize_serialize) simp_all
  ultimately show ?case by (cases "fs @ rest") simp_all
next
  case (fills_struct ms ms' n)
  let ?f = "\<lambda>m gs. map_read (\<lambda>t. Member (member_name m) t (member_key m)) (ty_deserialize lib (member_ty m) gs)"
  have "read_each ?f ms (fs @ rest) = Some (Ok (), ms', rest)"
  proof (rule read_each_serialized [where ser = "\<lambda>m. ty_serialize lib (member_ty m)"])
    show "list_all2 (\<lambda>x y. \<forall>fs rest. ty_serialize lib (member_ty y) = Some (Ok fs) \<longrightarrow>
        ?f x (fs @ rest) = Some (Ok (), y, rest)) ms ms'"
      using fills_struct.IH fills_struct.prems(1)
      by (auto simp: list_all2_conv_all_nth map_read_Some_iff)
  qed (use fills_struct.prems in simp)
  then show ?case by (simp add: deserialize_struct)
next
  case (fills_enum os os' n c c')
  obtain v where c': "c' = Some v" and v: "unat v < length os'"
    using fills_enum.prems by (cases c') (auto simp: extend_all_Cons_Ok some_or_missing_def)
  have unit: "extend_all (map (\<lambda>opt. ty_serialize lib (option_ty opt)) os') = Some (Ok [])"
    using fills_enum.prems(1) by (intro extend_all_empty) auto
  have units: "\<And>opt. opt \<in> set os' \<Longrightarrow> option_ty opt = Ty_Tuple []" using fills_enum.prems(1) by simp
  have len: "length os = length os'" using fills_enum.IH by (rule list_all2_lengthD)
  have "os = os'"
  proof (rule nth_equalityI [OF len])
    fix i
    assume i: "i < length os"
    then have "option_ty (os' ! i) = Ty_Tuple []" by (intro units) (simp add: len)
    moreover have "option_name (os ! i) = option_name (os' ! i)" "fills (option_ty (os ! i)) (option_ty (os' ! i))"
      using list_all2_nthD [OF fills_enum.IH i] by simp_all
    ultimately show "os ! i = os' ! i" by (simp add: fills_unit enum_option.expand)
  qed
  moreover have "fs = [felt (unat v)]"
    using fills_enum.prems(2) unit by (auto simp: c' some_or_missing_def)
  moreover have "felt_to_uint (felt (unat v)) = Some v" by (rule felt_to_uint_felt_unat) simp
  ultimately show ?case using v units [of "os' ! unat v"] by (simp add: c' read_nth_def)
next
  case (fills_tuple ts ts')
  have "read_each (ty_deserialize lib) ts (fs @ rest) = Some (Ok (), ts', rest)"
  proof (rule read_each_serialized [where ser = "ty_serialize lib"])
    show "list_all2 (\<lambda>x y. \<forall>fs rest. ty_serialize lib y = Some (Ok fs) \<longrightarrow>
        ty_deserialize lib x (fs @ rest) = Some (Ok (), y, rest)) ts ts'"
      using fills_tuple.IH fills_tuple.prems(1) by (auto simp: list_all2_conv_all_nth)
  qed (use fills_tuple.prems in simp)
  then show ?case by (simp add: deserialize_tuple)
next
  case (fills_array t ts)
  then obtain gs where fs: "fs = felt (length ts) # gs" and gs: "extend_all (map (ty_serialize lib) ts) = Some (Ok gs)"
    and len: "length ts < 2 ^ 32"
    by (auto simp: map_ok_Ok_iff some_or_missing_def unat_of_nat split: if_splits)
  have "felt_to_uint (felt (unat (of_nat (length ts) :: u32))) = Some (of_nat (length ts) :: u32)"
    by (rule felt_to_uint_felt_unat) simp
  moreover have "unat (of_nat (length ts) :: u32) = length ts" using len by (simp add: unat_of_nat)
  moreover have "read_copies (ty_deserialize lib) (length ts) t (gs @ rest) = Some (Ok (), ts, rest)"
  proof (rule read_copies_serialized [where ser = "ty_serialize lib"])
    show "list_all (\<lambda>y. \<forall>fs rest. ty_serialize lib y = Some (Ok fs) \<longrightarrow>
        ty_deserialize lib t (fs @ rest) = Some (Ok (), y, rest)) ts"
      using fills_array.IH fills_array.prems(1) by (auto simp: list_all_iff)
  qed (rule gs)
  ultimately show ?case by (simp add: fs)
next
  case (fills_byte_array a b)
  then obtain ba where ba: "ba_from_string lib b = Ok ba" "fs = ba_serialize lib ba"
    by (auto split: sum.splits)
  with laws have "fs \<noteq> []" "ba_deserialize lib (fs @ rest) 0 = Ok ba"
    "ba_serialized_size lib ba = length fs" "ba_to_string lib ba = Ok b"
    unfolding byte_array_laws_def by auto
  then show ?case by (cases fs) simp_all
qed

text \<open>A library of byte arrays that satisfies the laws: short texts, with their length in front.\<close>

definition short_texts :: "(string, unit, unit) byte_array_lib" where
  "short_texts =
     \<lparr>ba_from_string = (\<lambda>s. if length s < 256 then Ok s else Err ()),
      ba_serialize = (\<lambda>s. felt (length s) # map (\<lambda>c. felt (of_char c)) s),
      ba_deserialize = (\<lambda>fs i.
        case drop i fs of
          [] \<Rightarrow> Err ()
        | f # gs \<Rightarrow> Ok (map (\<lambda>g. char_of (nat_of_felt g)) (take (nat_of_felt f) gs))),
      ba_serialized_size = (\<lambda>s. Suc (length s)),
      ba_to_string = Ok\<rparr>"

lemma short_texts_laws: "byte_array_laws short_texts"
proof -
  have "(256 :: nat) < stark_prime" by (simp add: stark_prime_def)
  then have small: "nat_of_felt (felt n) = n" if "n < 256" for n using that by (simp add: nat_of_felt_felt)
  have "of_char c < (256 :: nat)" for c by (rule nat_of_char_less_256)
  then have "map (\<lambda>g. char_of (nat_of_felt g)) (map (\<lambda>c. felt (of_char c)) s) = s" for s :: string
    by (simp add: small o_def)
  then show ?thesis by (auto simp: byte_array_laws_def short_texts_def small split: if_splits)
qed

section \<open>Properties\<close>



text \<open>C17: A value of a schema whose enums carry no payload is read back from its felts, whatever the
  schema held before and whatever felts follow, and exactly its own felts are consumed.\<close>

theorem ty_roundtrip:
  assumes "byte_array_laws lib" "fills t v" "plain_enums v" "ty_serialize lib v = Some (Ok fs)"
  shows "ty_deserialize lib t (fs @ rest) = Some (Ok (), v, rest)"
  using assms by (rule deserialize_serialize)

theorem ty_roundtrip_witness:
  "byte_array_laws short_texts \<and>
   ty_deserialize short_texts (Ty_Tuple [Ty_ByteArray ''old'', Ty_Array [Ty_Primitive (PBool None)]])
     ([felt 1, felt 65, felt 2, 1, 0] @ [felt 9]) =
   Some (Ok (), Ty_Tuple [Ty_ByteArray ''A'', Ty_Array [Ty_Primitive (PBool (Some True)), Ty_Primitive (PBool (Some False))]], [felt 9])"
proof -
  let ?t = "Ty_Tuple [Ty_ByteArray ''old'', Ty_Array [Ty_Primitive (PBool None)]]"
  let ?v = "Ty_Tuple [Ty_ByteArray ''A'', Ty_Array [Ty_Primitive (PBool (Some True)), Ty_Primitive (PBool (Some False))]]"
  have "fills ?t ?v" "plain_enums ?v" by (simp_all add: fills_simps)
  moreover have "ty_serialize short_texts (Ty_Tuple [Ty_ByteArray ''A'',
      Ty_Array [Ty_Primitive (PBool (Some True)), Ty_Primitive (PBool (Some False))]]) =
      Some (Ok [felt 1, felt 65, felt 2, 1, 0])"
    by (simp add: short_texts_def some_or_missing_def)
  ultimately have "ty_deserialize short_texts ?t ([felt 1, felt 65, felt 2, 1, 0] @ [felt 9]) = Some (Ok (), ?v, [felt 9])"
    by (rule ty_roundtrip [OF short_texts_laws])
  with short_texts_laws show ?thesis by (rule conjI)
qed

text \<open>An enum with payloads is not read back: the payload of the second option is written too and left behind.\<close>

lemma enum_payload_not_read_back:
  "let t = Ty_Enum (Enum ''E'' (Some 0) [EnumOption ''A'' (Ty_Primitive (PBool (Some True))),
       EnumOption ''B'' (Ty_Primitive (PBool (Some False)))]) in
   ty_serialize lib t = Some (Ok [felt 0, 1, 0]) \<and>
   ty_deserialize lib t [felt 0, 1, 0] = Some (Ok (), t, [0])"
  by (simp add: some_or_missing_def felt_to_uint_def nat_of_felt_felt read_nth_def primitive_deserialize.simps)

text \<open>An index beyond the options panics.\<close>

lemma enum_index_panics:
  "length (options e) \<le> unat v \<Longrightarrow> ty_deserialize lib (Ty_Enum e) (felt (unat (v :: u8)) # fs) = None"
  using felt_to_uint_felt_unat [of v] by (simp add: read_nth_def)

text \<open>An array of length zero loses its item type: the next reading into it panics.\<close>

lemma empty_array_loses_type:
  "ty_deserialize lib (Ty_Array [t]) [0] = Some (Ok (), Ty_Array [], [])"
  "ty_deserialize lib (Ty_Array []) [0] = None"
  by (simp_all add: felt_to_uint_def zero_felt_eq nat_of_felt_felt)

text \<open>Without enums, nothing panics on a schema.\<close>

fun enum_free :: "ty \<Rightarrow> bool" where
  "enum_free (Ty_Primitive p) = True"
| "enum_free (Ty_Struct s) = (\<forall>m \<in> set (children s). enum_free (member_ty m))"
| "enum_free (Ty_Enum e) = False"
| "enum_free (Ty_Tuple tys) = (\<forall>t \<in> set tys. enum_free t)"
| "enum_free (Ty_Array items) = (\<forall>t \<in> set items. enum_free t)"
| "enum_free (Ty_ByteArray bytes) = True"

lemma read_each_total:
  "(\<And>x gs. x \<in> set xs \<Longrightarrow> f x gs \<noteq> None) \<Longrightarrow> read_each f xs fs \<noteq> None"
  by (induction xs arbitrary: fs) (fastforce split: option.split sum.split)+

lemma read_copies_total: "(\<And>gs. f x gs \<noteq> None) \<Longrightarrow> read_copies f n x fs \<noteq> None"
  by (induction n arbitrary: fs) (fastforce split: option.split sum.split)+

lemma deserialize_total:
  assumes "\<And>fs ba. ba_deserialize lib fs 0 = Ok ba \<Longrightarrow> ba_serialized_size lib ba \<le> length fs"
  shows "wf_schema t \<Longrightarrow> enum_free t \<Longrightarrow> ty_deserialize lib t fs \<noteq> None"
proof (induction t arbitrary: fs rule: ty_induct)
  case (Struct n ms)
  then show ?case
    unfolding deserialize_struct map_read_def option.map_disc_iff
    by (intro read_each_total) (auto simp: map_read_def)
next
  case (Tuple ts)
  then show ?case
    unfolding deserialize_tuple map_read_def option.map_disc_iff by (intro read_each_total) auto
next
  case (Array ts)
  then obtain t where ts: "ts = [t]" by (auto simp: length_Suc_conv)
  with Array have "read_copies (ty_deserialize lib) n t gs \<noteq> None" for n gs
    by (intro read_copies_total) auto
  then show ?case by (cases fs) (auto simp: ts map_read_def simp del: not_None_eq split: option.split)
next
  case (Primitive p)
  show ?case by (cases fs) (simp_all add: map_read_def)
next
  case (ByteArray bytes)
  show ?case using assms by (cases fs) (fastforce split: sum.split)+
qed simp

end
