(* ===== verification/Ty_Json.thy ===== *)
theory Ty_Json
  imports Cairo_Ty Ordered_Map "HOL-Library.Char_ord"
begin

text \<open>
  Values of a schema as JSON and back (\<open>Ty::to_json_value\<close> and \<open>Ty::from_json_value\<close> of
  \<open>dojo/types/src/schema.rs\<close>).  The JSON values are those of \<open>serde_json\<close>, whose objects are ordered
  maps.  The hexadecimal texts of felts and 256 bit numbers and their parsers are parameters; \<open>None\<close>
  is a panic.
\<close>

section \<open>JSON\<close>

datatype json_number = JInt int | JFloat string

datatype json =
    JNull
  | JBool bool
  | JNumber json_number
  | JString string
  | JArray "json list"
  | JObject "(string \<times> json) list"

text \<open>\<open>Number::as_i64\<close> and \<open>Number::as_u64\<close>.\<close>

fun as_int_in :: "int \<Rightarrow> int \<Rightarrow> json_number \<Rightarrow> int option" where
  "as_int_in lo hi (JInt i) = (if lo \<le> i \<and> i < hi then Some i else None)"
| "as_int_in lo hi (JFloat _) = None"

definition as_i64_number :: "json_number \<Rightarrow> int option" where
  "as_i64_number = as_int_in (- (2 ^ 63)) (2 ^ 63)"

definition as_u64_number :: "json_number \<Rightarrow> int option" where
  "as_u64_number = as_int_in 0 (2 ^ 64)"

text \<open>\<open>str::parse\<close> of the integers of the standard library.\<close>

definition parse_some_digits :: "string \<Rightarrow> nat option" where
  "parse_some_digits s = (if s = [] then None else parse_nat 0 s)"

definition parse_unsigned :: "string \<Rightarrow> 'a :: len word option" where
  "parse_unsigned s =
     (case parse_some_digits (case s of [] \<Rightarrow> [] | c # cs \<Rightarrow> if c = CHR ''+'' then cs else s) of
        None \<Rightarrow> None
      | Some n \<Rightarrow> if n < 2 ^ LENGTH('a) then Some (of_nat n) else None)"

definition parse_signed :: "string \<Rightarrow> 'a :: len word option" where
  "parse_signed s =
     (case (case s of
              [] \<Rightarrow> None
            | c # cs \<Rightarrow>
                if c = CHR ''-'' then map_option (\<lambda>n. - int n) (parse_some_digits cs)
                else map_option int (parse_some_digits (if c = CHR ''+'' then cs else s))) of
        None \<Rightarrow> None
      | Some i \<Rightarrow> if - (2 ^ (LENGTH('a) - 1)) \<le> i \<and> i < 2 ^ (LENGTH('a) - 1) then Some (word_of_int i) else None)"

section \<open>To JSON\<close>

record json_texts =
  felt_alt_hex :: "felt \<Rightarrow> string"
  felt_from_str :: "string \<Rightarrow> felt option"
  u256_hex :: "256 word \<Rightarrow> string"
  u256_of_hex :: "string \<Rightarrow> 256 word option"

definition json_or_missing :: "('a \<Rightarrow> json) \<Rightarrow> 'a option \<Rightarrow> (json, ('ce, 'ue) primitive_error) result" where
  "json_or_missing f v = (case v of None \<Rightarrow> Err MissingFieldElement | Some x \<Rightarrow> Ok (f x))"

fun primitive_to_json :: "json_texts \<Rightarrow> primitive \<Rightarrow> (json, ('ce, 'ue) primitive_error) result" where
  "primitive_to_json T (PBool v) = json_or_missing JBool v"
| "primitive_to_json T (I8 v) = json_or_missing (\<lambda>w. JNumber (JInt (sint w))) v"
| "primitive_to_json T (I16 v) = json_or_missing (\<lambda>w. JNumber (JInt (sint w))) v"
| "primitive_to_json T (I32 v) = json_or_missing (\<lambda>w. JNumber (JInt (sint w))) v"
| "primitive_to_json T (I64 v) = json_or_missing (\<lambda>w. JString (int_string (sint w))) v"
| "primitive_to_json T (I128 v) = json_or_missing (\<lambda>w. JString (int_string (sint w))) v"
| "primitive_to_json T (U8 v) = json_or_missing (\<lambda>w. JNumber (JInt (uint w))) v"
| "primitive_to_json T (U16 v) = json_or_missing (\<lambda>w. JNumber (JInt (uint w))) v"
| "primitive_to_json T (U32 v) = json_or_missing (\<lambda>w. JNumber (JInt (uint w))) v"
| "primitive_to_json T (U64 v) = json_or_missing (\<lambda>w. JString (dec_string (unat w))) v"
| "primitive_to_json T (U128 v) = json_or_missing (\<lambda>w. JString (dec_string (unat w))) v"
| "primitive_to_json T (U256 v) = json_or_missing (\<lambda>w. JString (''0x'' @ u256_hex T w)) v"
| "primitive_to_json T (Felt252 v) = json_or_missing (\<lambda>f. JString (felt_alt_hex T f)) v"
| "primitive_to_json T (ClassHash v) = json_or_missing (\<lambda>f. JString (felt_alt_hex T f)) v"
| "primitive_to_json T (ContractAddress v) = json_or_missing (\<lambda>f. JString (felt_alt_hex T f)) v"
| "primitive_to_json T (EthAddress v) = json_or_missing (\<lambda>f. JString (felt_alt_hex T f)) v"

fun collect_ok :: "('a, 'e) result list \<Rightarrow> ('a list, 'e) result" where
  "collect_ok [] = Ok []"
| "collect_ok (r # rs) = and_then r (\<lambda>x. map_ok ((#) x) (collect_ok rs))"

lemma enum_chosen_size [termination_simp]: "enum_chosen e = Inr opt \<Longrightarrow> size (option_ty opt) < size e"
  by (rule size_option_ty) (auto simp: enum_chosen_def split: option.splits if_splits)

fun ty_to_json :: "json_texts \<Rightarrow> ty \<Rightarrow> (json, ('ce, 'ue) primitive_error) result" where
  "ty_to_json T (Ty_Primitive p) = primitive_to_json T p"
| "ty_to_json T (Ty_Struct s) =
     map_ok (\<lambda>vs. JObject (om_collect (zip (map member_name (children s)) vs)))
       (collect_ok (map (\<lambda>m. ty_to_json T (member_ty m)) (children s)))"
| "ty_to_json T (Ty_Enum e) =
     (case enum_chosen e of
        Inl _ \<Rightarrow> Err MissingFieldElement
      | Inr opt \<Rightarrow> map_ok (\<lambda>v. JObject [(option_name opt, v)]) (ty_to_json T (option_ty opt)))"
| "ty_to_json T (Ty_Array items) = map_ok JArray (collect_ok (map (ty_to_json T) items))"
| "ty_to_json T (Ty_Tuple items) = map_ok JArray (collect_ok (map (ty_to_json T) items))"
| "ty_to_json T (Ty_ByteArray bytes) = Ok (JString bytes)"

section \<open>From JSON\<close>

fun trim_0x :: "string \<Rightarrow> string" where
  "trim_0x (a # b # s) = (if a = CHR ''0'' \<and> b = CHR ''x'' then trim_0x s else a # b # s)"
| "trim_0x s = s"

text \<open>A primitive is left as it is by a value of another kind; \<open>n as i8\<close> keeps the lowest bits.\<close>

definition set_number :: "(json_number \<Rightarrow> int option) \<Rightarrow> ('a :: len word option \<Rightarrow> primitive) \<Rightarrow> primitive \<Rightarrow> json \<Rightarrow> primitive" where
  "set_number read C p v = (case v of JNumber n \<Rightarrow> C (map_option word_of_int (read n)) | _ \<Rightarrow> p)"

definition set_string :: "(string \<Rightarrow> primitive) \<Rightarrow> primitive \<Rightarrow> json \<Rightarrow> primitive" where
  "set_string f p v = (case v of JString s \<Rightarrow> f s | _ \<Rightarrow> p)"

fun primitive_from_json :: "json_texts \<Rightarrow> primitive \<Rightarrow> json \<Rightarrow> primitive option" where
  "primitive_from_json T (PBool p) v = Some (case v of JBool b \<Rightarrow> PBool (Some b) | _ \<Rightarrow> PBool p)"
| "primitive_from_json T (I8 p) v = Some (set_number as_i64_number I8 (I8 p) v)"
| "primitive_from_json T (I16 p) v = Some (set_number as_i64_number I16 (I16 p) v)"
| "primitive_from_json T (I32 p) v = Some (set_number as_i64_number I32 (I32 p) v)"
| "primitive_from_json T (I64 p) v = Some (set_string (I64 \<circ> parse_signed) (I64 p) v)"
| "primitive_from_json T (I128 p) v = Some (set_string (I128 \<circ> parse_signed) (I128 p) v)"
| "primitive_from_json T (U8 p) v = Some (set_number as_u64_number U8 (U8 p) v)"
| "primitive_from_json T (U16 p) v = Some (set_number as_u64_number U16 (U16 p) v)"
| "primitive_from_json T (U32 p) v = Some (set_number as_u64_number U32 (U32 p) v)"
| "primitive_from_json T (U64 p) v = Some (set_string (U64 \<circ> parse_unsigned) (U64 p) v)"
| "primitive_from_json T (U128 p) v = Some (set_string (U128 \<circ> parse_unsigned) (U128 p) v)"
| "primitive_from_json T (U256 p) v =
     (case v of
        JString s \<Rightarrow> map_option (U256 \<circ> Some) (u256_of_hex T (trim_0x s))
      | _ \<Rightarrow> Some (U256 p))"
| "primitive_from_json T (Felt252 p) v = Some (set_string (Felt252 \<circ> felt_from_str T) (Felt252 p) v)"
| "primitive_from_json T (ClassHash p) v = Some (set_string (ClassHash \<circ> felt_from_str T) (ClassHash p) v)"
| "primitive_from_json T (ContractAddress p) v = Some (set_string (ContractAddress \<circ> felt_from_str T) (ContractAddress p) v)"
| "primitive_from_json T (EthAddress p) v = Some (set_string (EthAddress \<circ> felt_from_str T) (EthAddress p) v)"

text \<open>The loops: every item with its own value, and a copy of one item per value.\<close>

type_synonym ('a, 'e) update = "((unit, 'e) result \<times> 'a) option"

fun update_each :: "('a \<Rightarrow> 'v \<Rightarrow> ('a, 'e) update) \<Rightarrow> ('a \<times> 'v) list \<Rightarrow> ('a list, 'e) update" where
  "update_each f [] = Some (Ok (), [])"
| "update_each f ((x, v) # xs) =
     (case f x v of
        None \<Rightarrow> None
      | Some (Inl e, x') \<Rightarrow> Some (Inl e, x' # map fst xs)
      | Some (Inr _, x') \<Rightarrow> map_option (\<lambda>(r, xs'). (r, x' # xs')) (update_each f xs))"

fun push_each :: "('a \<Rightarrow> 'v \<Rightarrow> ('a, 'e) update) \<Rightarrow> 'a \<Rightarrow> 'v list \<Rightarrow> ('a list, 'e) update" where
  "push_each f x [] = Some (Ok (), [])"
| "push_each f x (v # vs) =
     (case f x v of
        None \<Rightarrow> None
      | Some (Inl e, x') \<Rightarrow> Some (Inl e, [])
      | Some (Inr _, x') \<Rightarrow> map_option (\<lambda>(r, xs'). (r, x' # xs')) (push_each f x vs))"

lemma update_each_cong [fundef_cong]:
  "xs = ys \<Longrightarrow> (\<And>y v. (y, v) \<in> set ys \<Longrightarrow> f y v = g y v) \<Longrightarrow> update_each f xs = update_each g ys"
  by (induction ys arbitrary: xs) (auto split: option.split sum.split)

lemma push_each_cong [fundef_cong]:
  "x = y \<Longrightarrow> vs = ws \<Longrightarrow> (\<And>v. f y v = g y v) \<Longrightarrow> push_each f x vs = push_each g y ws"
  by (induction ws arbitrary: vs) (auto split: option.split sum.split)

definition map_update :: "('a \<Rightarrow> 'b) \<Rightarrow> ('a, 'e) update \<Rightarrow> ('b, 'e) update" where
  "map_update h = map_option (\<lambda>(r, a). (r, h a))"

lemma size_zip_member [termination_simp]:
  "(m, v) \<in> set (zip (children s) vs) \<Longrightarrow> size (member_ty m) < size s"
  by (rule size_member_ty) (rule set_zip_leftD)

lemma size_hd_lt [termination_simp]: "size t < Suc (size_list size (t # ts))" for t :: ty
  by simp

lemma size_zip_ty [termination_simp]: "(t, v) \<in> set (zip ts vs) \<Longrightarrow> size t < Suc (size_list size ts)" for t :: ty
  by (rule size_in_list) (rule set_zip_leftD)

lemma size_set_option [termination_simp]:
  "opt \<in> set (options e) \<Longrightarrow> size (option_ty opt) < Suc (size e)"
  using size_option_ty [of opt e] by simp

text \<open>A member without a value in the object is kept; the enum reads the first entry of the object only.\<close>

fun ty_from_json :: "json_texts \<Rightarrow> ty \<Rightarrow> json \<Rightarrow> (ty, ('ce, 'ue) primitive_error) update" where
  "ty_from_json T (Ty_Primitive p) v = map_option (\<lambda>p'. (Ok (), Ty_Primitive p')) (primitive_from_json T p v)"
| "ty_from_json T (Ty_Struct s) (JObject obj) =
     map_update (\<lambda>ms. Ty_Struct (Struct (struct_name s) ms))
       (update_each
          (\<lambda>m v. case v of
             None \<Rightarrow> Some (Ok (), m)
           | Some value \<Rightarrow> map_update (\<lambda>t. Member (member_name m) t (member_key m)) (ty_from_json T (member_ty m) value))
          (zip (children s) (map (\<lambda>m. om_get obj (member_name m)) (children s))))"
| "ty_from_json T (Ty_Enum e) (JObject obj) =
     (case obj of
        [] \<Rightarrow> Some (Ok (), Ty_Enum e)
      | (name, value) # _ \<Rightarrow>
          (case position (\<lambda>opt. option_name opt = name) (options e) of
             None \<Rightarrow> Some (Err TypeMismatch, Ty_Enum e)
           | Some index \<Rightarrow>
               let i = unat (of_nat index :: u8); opt = options e ! i in
               if i < length (options e)
               then map_update (\<lambda>t. Ty_Enum (Enum (enum_name e) (Some (of_nat index))
                      ((options e)[i := EnumOption (option_name opt) t])))
                    (ty_from_json T (option_ty opt) value)
               else None))"
| "ty_from_json T (Ty_Array items) (JArray values) =
     (case items of
        [] \<Rightarrow> None
      | item # _ \<Rightarrow> map_update Ty_Array (push_each (ty_from_json T) item values))"
| "ty_from_json T (Ty_Tuple items) (JArray values) =
     (if length items \<noteq> length values then Some (Err TypeMismatch, Ty_Tuple items)
      else map_update Ty_Tuple (update_each (ty_from_json T) (zip items values)))"
| "ty_from_json T (Ty_ByteArray bytes) (JString s) = Some (Ok (), Ty_ByteArray s)"
| "ty_from_json T t v = Some (Err TypeMismatch, t)"

section \<open>Reading back\<close>

definition json_laws :: "json_texts \<Rightarrow> bool" where
  "json_laws T \<longleftrightarrow>
     (\<forall>f. felt_from_str T (felt_alt_hex T f) = Some f) \<and>
     (\<forall>w. u256_of_hex T (trim_0x (''0x'' @ u256_hex T w)) = Some w)"

text \<open>A value obtained from a schema by filling it in: an enum has one of its options chosen and filled in, the
  others are as in the schema.  Names are not repeated and the options are at most 256.\<close>

inductive filled :: "ty \<Rightarrow> ty \<Rightarrow> bool" where
  filled_primitive: "to_numeric p = to_numeric q \<Longrightarrow> filled (Ty_Primitive p) (Ty_Primitive q)"
| filled_struct:
    "distinct (map member_name ms) \<Longrightarrow>
     list_all2 (\<lambda>m m'. member_name m = member_name m' \<and> member_key m = member_key m' \<and>
       filled (member_ty m) (member_ty m')) ms ms' \<Longrightarrow>
     filled (Ty_Struct (Struct n ms)) (Ty_Struct (Struct n ms'))"
| filled_enum:
    "distinct (map option_name os) \<Longrightarrow> i < length os \<Longrightarrow> length os \<le> 256 \<Longrightarrow> filled (option_ty (os ! i)) t \<Longrightarrow>
     filled (Ty_Enum (Enum n c os)) (Ty_Enum (Enum n (Some (of_nat i)) (os[i := EnumOption (option_name (os ! i)) t])))"
| filled_tuple: "list_all2 filled ts ts' \<Longrightarrow> filled (Ty_Tuple ts) (Ty_Tuple ts')"
| filled_array: "list_all (filled t) ts \<Longrightarrow> filled (Ty_Array (t # us)) (Ty_Array ts)"
| filled_byte_array: "filled (Ty_ByteArray a) (Ty_ByteArray b)"

lemma dec_string_head: "c \<in> set (dec_string n) \<Longrightarrow> c \<noteq> CHR ''+'' \<and> c \<noteq> CHR ''-''"
proof -
  assume "c \<in> set (dec_string n)"
  then obtain d where "d < 10" "c = digit_char d" using dec_string_chars by blast
  moreover have "(of_char (digit_char d) :: nat) = 48 + d" if "d < 10" using that by (simp add: digit_char_def)
  ultimately show ?thesis by auto
qed

lemma parse_some_digits_dec_string: "parse_some_digits (dec_string n) = Some n"
  by (simp add: parse_some_digits_def parse_nat_dec_string)

lemma parse_unsigned_dec_string: "parse_unsigned (dec_string (unat w)) = Some (w :: 'a :: len word)"
proof -
  obtain c cs where d: "dec_string (unat w) = c # cs" by (cases "dec_string (unat w)") auto
  then have "c \<noteq> CHR ''+''" using dec_string_head [of c "unat w"] by simp
  with d parse_some_digits_dec_string [of "unat w"] show ?thesis by (simp add: parse_unsigned_def)
qed

lemma parse_signed_int_string: "parse_signed (int_string (sint w)) = Some (w :: 'a :: len word)"
proof (cases "sint w < 0")
  case True
  then show ?thesis
    using sint_ge [of w] sint_lt [of w] by (simp add: parse_signed_def int_string_def parse_some_digits_dec_string)
next
  case False
  obtain c cs where d: "dec_string (nat (sint w)) = c # cs" by (cases "dec_string (nat (sint w))") auto
  then have "c \<noteq> CHR ''+''" "c \<noteq> CHR ''-''" using dec_string_head [of c "nat (sint w)"] by simp_all
  then show ?thesis
    using False sint_ge [of w] sint_lt [of w] d parse_some_digits_dec_string [of "nat (sint w)"]
    by (simp add: parse_signed_def int_string_def)
qed

lemma as_i64_sint: "LENGTH('a :: len) \<le> 64 \<Longrightarrow> as_i64_number (JInt (sint (w :: 'a word))) = Some (sint w)"
proof -
  assume "LENGTH('a) \<le> 64"
  then have "(2 :: int) ^ (LENGTH('a) - 1) \<le> 2 ^ 63" by (intro power_increasing) auto
  then show ?thesis using sint_ge [of w] sint_lt [of w] by (simp add: as_i64_number_def)
qed

lemma as_u64_uint: "LENGTH('a :: len) \<le> 64 \<Longrightarrow> as_u64_number (JInt (uint (w :: 'a word))) = Some (uint w)"
proof -
  assume "LENGTH('a) \<le> 64"
  then have "(2 :: int) ^ LENGTH('a) \<le> 2 ^ 64" by (intro power_increasing) auto
  moreover have "uint w < 2 ^ LENGTH('a)" by simp
  ultimately have "uint w < 2 ^ 64" by (rule order.strict_trans2 [rotated])
  then show ?thesis by (simp add: as_u64_number_def)
qed

lemma primitive_json_roundtrip:
  assumes "json_laws T" "to_numeric p = to_numeric q" "primitive_to_json T q = Ok j"
  shows "primitive_from_json T p j = Some q"
  using assms
  by (cases q; cases p)
    (auto simp: json_laws_def json_or_missing_def set_number_def set_string_def as_i64_sint as_u64_uint
      parse_unsigned_dec_string parse_signed_int_string simp del: trim_0x.simps split: option.splits)

lemma collect_ok_Ok_iff: "collect_ok rs = Ok xs \<longleftrightarrow> list_all2 (\<lambda>r x. r = Ok x) rs xs"
  by (induction rs arbitrary: xs) (auto simp: and_then_Ok_iff map_ok_Ok_iff list_all2_Cons1)

lemma update_each_Ok:
  "list_all2 (\<lambda>(x, v) y. f x v = Some (Ok (), y)) xvs ys \<Longrightarrow> update_each f xvs = Some (Ok (), ys)"
  by (induction rule: list_all2_induct) auto

lemma push_each_Ok: "list_all2 (\<lambda>v y. f x v = Some (Ok (), y)) vs ys \<Longrightarrow> push_each f x vs = Some (Ok (), ys)"
  by (induction rule: list_all2_induct) auto

lemma position_distinct:
  "distinct (map f xs) \<Longrightarrow> i < length xs \<Longrightarrow> position (\<lambda>x. f x = f (xs ! i)) xs = Some i"
proof (induction xs arbitrary: i)
  case (Cons x xs)
  then show ?case by (cases i) (auto simp: image_iff)
qed simp

lemma map_update_Some [simp]: "map_update h (Some (r, a)) = Some (r, h a)" "map_update h None = None"
  by (simp_all add: map_update_def)

lemma ty_json_roundtrip:
  assumes T: "json_laws T"
  shows "filled t v \<Longrightarrow> ty_to_json T v = (Ok j :: (json, ('ce, 'ue) primitive_error) result) \<Longrightarrow>
    ty_from_json T t j = Some (Ok () :: (unit, ('ce, 'ue) primitive_error) result, v)"
proof (induction arbitrary: j rule: filled.induct)
  case (filled_primitive p q)
  then show ?case using primitive_json_roundtrip [OF T] by simp
next
  case (filled_struct ms ms' n)
  have len: "length ms = length ms'" using filled_struct.IH by (rule list_all2_lengthD)
  have names: "map member_name ms' = map member_name ms"
    using filled_struct.IH len by (auto simp: list_all2_conv_all_nth intro: nth_equalityI)
  from filled_struct.prems obtain vs where j: "j = JObject (om_collect (zip (map member_name ms') vs))"
    and vs: "list_all2 (\<lambda>m v. ty_to_json T (member_ty m) = (Ok v :: (json, ('ce, 'ue) primitive_error) result)) ms' vs"
    by (auto simp: map_ok_Ok_iff collect_ok_Ok_iff list_all2_map1)
  have lvs: "length vs = length ms'" using vs by (simp add: list_all2_lengthD)
  have get: "om_get (om_collect (zip (map member_name ms') vs)) (member_name (ms ! i)) = Some (vs ! i)"
    if "i < length ms" for i
  proof -
    have d: "distinct (map member_name ms')" using filled_struct.hyps names by simp
    have "member_name (ms ! i) = map member_name ms' ! i" using that names by simp
    moreover have "map_of (zip (map member_name ms') vs) (map member_name ms' ! i) = Some (vs ! i)"
      using that len lvs d by (intro map_of_zip_nth) simp_all
    moreover have "om_get (om_collect (zip (map member_name ms') vs)) (member_name (ms ! i)) =
        om_get (zip (map member_name ms') vs) (member_name (ms ! i))"
      by (rule om_get_collect_distinct) (use d lvs in simp)
    ultimately show ?thesis unfolding om_get_def by (simp only:)
  qed
  let ?obj = "om_collect (zip (map member_name ms') vs)"
  let ?f = "\<lambda>m v. case v of None \<Rightarrow> Some (Ok () :: (unit, ('ce, 'ue) primitive_error) result, m)
      | Some value \<Rightarrow> map_update (\<lambda>t. Member (member_name m) t (member_key m)) (ty_from_json T (member_ty m) value)"
  have each: "?f (ms ! i) (om_get ?obj (member_name (ms ! i))) = Some (Ok (), ms' ! i)" if i: "i < length ms" for i
  proof -
    have "member_name (ms ! i) = member_name (ms' ! i)" "member_key (ms ! i) = member_key (ms' ! i)"
      "ty_from_json T (member_ty (ms ! i)) (vs ! i) = Some (Ok () :: (unit, ('ce, 'ue) primitive_error) result, member_ty (ms' ! i))"
      using list_all2_nthD [OF filled_struct.IH i] list_all2_nthD [OF vs, of i] i len by auto
    then show ?thesis unfolding get [OF i] by simp
  qed
  have "update_each ?f (zip ms (map (\<lambda>m. om_get ?obj (member_name m)) ms)) = Some (Ok (), ms')"
    by (rule update_each_Ok, unfold list_all2_conv_all_nth) (use each len in simp)
  then show ?case by (simp add: j)
next
  case (filled_enum os i t n c)
  have i256: "unat (of_nat i :: u8) = i" using filled_enum.hyps by (simp add: unat_of_nat)
  from filled_enum.prems obtain w where j: "j = JObject [(option_name (os ! i), w)]"
    and w: "ty_to_json T t = (Ok w :: (json, ('ce, 'ue) primitive_error) result)"
    using filled_enum.hyps i256 by (auto simp: enum_chosen_def map_ok_Ok_iff)
  have "ty_from_json T (option_ty (os ! i)) w = Some (Ok () :: (unit, ('ce, 'ue) primitive_error) result, t)"
    using filled_enum.IH [OF w] .
  then show ?case
    using filled_enum.hyps i256 position_distinct [OF filled_enum.hyps(1,2)]
    by (simp add: j)
next
  case (filled_tuple ts ts')
  from filled_tuple.prems obtain vs where j: "j = JArray vs"
    and vs: "list_all2 (\<lambda>t v. ty_to_json T t = (Ok v :: (json, ('ce, 'ue) primitive_error) result)) ts' vs"
    by (auto simp: map_ok_Ok_iff collect_ok_Ok_iff list_all2_map1)
  have len: "length ts = length ts'" "length vs = length ts'"
    using filled_tuple.IH vs by (simp_all add: list_all2_lengthD)
  have "list_all2 (\<lambda>(x, v) y. ty_from_json T x v = Some (Ok () :: (unit, ('ce, 'ue) primitive_error) result, y)) (zip ts vs) ts'"
    using filled_tuple.IH vs len by (auto simp: list_all2_conv_all_nth)
  then show ?case using len by (simp add: j update_each_Ok)
next
  case (filled_array t ts us)
  from filled_array.prems obtain vs where j: "j = JArray vs"
    and vs: "list_all2 (\<lambda>t v. ty_to_json T t = (Ok v :: (json, ('ce, 'ue) primitive_error) result)) ts vs"
    by (auto simp: map_ok_Ok_iff collect_ok_Ok_iff list_all2_map1)
  have "list_all2 (\<lambda>v y. ty_from_json T t v = Some (Ok () :: (unit, ('ce, 'ue) primitive_error) result, y)) vs ts"
    using filled_array.IH vs by (auto simp: list_all2_conv_all_nth list_all_length)
  then show ?case by (simp add: j push_each_Ok)
next
  case (filled_byte_array a b)
  then show ?case by auto
qed

section \<open>Properties\<close>

text \<open>C19: A value filled into a schema is read back from its JSON into that schema, enums with payloads included:
  reading succeeds, without panic, and gives the value.\<close>

theorem json_reads_back:
  assumes "json_laws T" "filled t v" "ty_to_json T v = (Ok j :: (json, ('ce, 'ue) primitive_error) result)"
  shows "ty_from_json T t j = Some (Ok () :: (unit, ('ce, 'ue) primitive_error) result, v)"
  using assms by (rule ty_json_roundtrip)

text \<open>Texts that satisfy the laws: numbers in decimal.\<close>

definition decimal_texts :: json_texts where
  "decimal_texts =
     \<lparr>felt_alt_hex = (\<lambda>f. dec_string (nat_of_felt f)),
      felt_from_str = (\<lambda>s. map_option felt (parse_some_digits s)),
      u256_hex = (\<lambda>w. CHR ''d'' # dec_string (unat w)),
      u256_of_hex = (\<lambda>s. map_option of_nat (parse_some_digits (tl s)))\<rparr>"

lemma decimal_texts_laws: "json_laws decimal_texts"
proof -
  have "trim_0x (CHR ''d'' # dec_string n) = CHR ''d'' # dec_string n" for n
    by (cases "dec_string n") simp_all
  then show ?thesis by (simp add: json_laws_def decimal_texts_def parse_some_digits_dec_string)
qed

theorem json_reads_back_witness:
  "json_laws decimal_texts \<and>
   ty_from_json decimal_texts
     (Ty_Enum (Enum ''E'' None [EnumOption ''A'' (Ty_Tuple []), EnumOption ''B'' (Ty_Primitive (I8 None))]))
     (JObject [(''B'', JNumber (JInt (- 3)))]) =
   Some (Ok () :: (unit, (unit, unit) primitive_error) result,
     Ty_Enum (Enum ''E'' (Some 1) [EnumOption ''A'' (Ty_Tuple []), EnumOption ''B'' (Ty_Primitive (I8 (Some (- 3))))]))"
proof -
  let ?os = "[EnumOption ''A'' (Ty_Tuple []), EnumOption ''B'' (Ty_Primitive (I8 None))]"
  let ?v = "Ty_Enum (Enum ''E'' (Some 1) [EnumOption ''A'' (Ty_Tuple []), EnumOption ''B'' (Ty_Primitive (I8 (Some (- 3))))])"
  have "filled (option_ty (?os ! 1)) (Ty_Primitive (I8 (Some (- 3))))" by (simp add: filled_primitive)
  then have "filled (Ty_Enum (Enum ''E'' None ?os)) ?v"
    using filled_enum [of ?os 1 "Ty_Primitive (I8 (Some (- 3)))" "''E''" None] by simp
  moreover have "ty_to_json decimal_texts ?v =
      (Ok (JObject [(''B'', JNumber (JInt (- 3)))]) :: (json, (unit, unit) primitive_error) result)"
    by (simp add: enum_chosen_def json_or_missing_def)
  ultimately show ?thesis using json_reads_back [OF decimal_texts_laws] decimal_texts_laws by blast
qed

text \<open>A value of the wrong kind is accepted and ignored, and a number that does not fit is cut.\<close>

lemma wrong_kind_ignored: "ty_from_json T (Ty_Primitive (U8 p)) (JString s) = Some (Ok (), Ty_Primitive (U8 p))"
  by (simp add: set_number_def)

lemma number_cut: "ty_from_json T (Ty_Primitive (U8 p)) (JNumber (JInt 300)) = Some (Ok (), Ty_Primitive (U8 (Some 44)))"
  by (simp add: set_number_def as_u64_number_def)

lemma empty_array_json_panics: "ty_from_json T (Ty_Array []) (JArray vs) = None"
  by simp

end
