(* ===== verification/Int256.thy ===== *)
theory Int256
  imports Prelude
begin

text \<open>
  Signed 256 bit numbers (\<open>I256\<close> of \<open>torii/sqlite/src/utils.rs\<close>), a magnitude with a sign, in which the
  indexer adds up transfers.  The operators \<open>+\<close> and \<open>-\<close> of the unsigned type are those of the
  Starknet types library and are parameters; \<open>None\<close> is a panic.
\<close>

section \<open>The type\<close>

record i256 =
  magnitude :: "256 word"
  is_negative :: bool

record u256_ops =
  u256_add :: "256 word \<Rightarrow> 256 word \<Rightarrow> 256 word option"
  u256_sub :: "256 word \<Rightarrow> 256 word \<Rightarrow> 256 word option"

definition i256_default :: i256 where
  "i256_default = \<lparr>magnitude = 0, is_negative = False\<rparr>"

definition i256_from :: "256 word \<Rightarrow> i256" where
  "i256_from v = \<lparr>magnitude = v, is_negative = False\<rparr>"

definition i256_add :: "u256_ops \<Rightarrow> i256 \<Rightarrow> i256 \<Rightarrow> i256 option" where
  "i256_add ops a b =
     (if magnitude a = 0 \<and> magnitude b = 0 \<and> is_negative a \<and> is_negative b
      then Some \<lparr>magnitude = 0, is_negative = False\<rparr>
      else if is_negative a = is_negative b
      then map_option (\<lambda>v. \<lparr>magnitude = v, is_negative = is_negative a\<rparr>) (u256_add ops (magnitude a) (magnitude b))
      else if magnitude b < magnitude a
      then map_option (\<lambda>v. \<lparr>magnitude = v, is_negative = is_negative a\<rparr>) (u256_sub ops (magnitude a) (magnitude b))
      else if magnitude a < magnitude b
      then map_option (\<lambda>v. \<lparr>magnitude = v, is_negative = is_negative b\<rparr>) (u256_sub ops (magnitude b) (magnitude a))
      else Some \<lparr>magnitude = 0, is_negative = False\<rparr>)"

definition i256_sub :: "u256_ops \<Rightarrow> i256 \<Rightarrow> i256 \<Rightarrow> i256 option" where
  "i256_sub ops a b =
     (let new_sign = (if magnitude b = 0 then False else \<not> is_negative b) in
      i256_add ops a \<lparr>magnitude = magnitude b, is_negative = new_sign\<rparr>)"

section \<open>Arithmetic\<close>

text \<open>What is relied on of the unsigned operators: they are right as long as the result fits.\<close>

definition u256_ops_ok :: "u256_ops \<Rightarrow> bool" where
  "u256_ops_ok ops \<longleftrightarrow>
     (\<forall>a b. uint a + uint b < 2 ^ 256 \<longrightarrow> u256_add ops a b = Some (a + b)) \<and>
     (\<forall>a b. b \<le> a \<longrightarrow> u256_sub ops a b = Some (a - b))"

definition int_of_i256 :: "i256 \<Rightarrow> int" where
  "int_of_i256 a = (if is_negative a then - uint (magnitude a) else uint (magnitude a))"

lemma int_of_i256_default [simp]: "int_of_i256 i256_default = 0"
  by (simp add: int_of_i256_def i256_default_def)

lemma int_of_i256_from [simp]: "int_of_i256 (i256_from v) = uint v"
  by (simp add: int_of_i256_def i256_from_def)

lemma abs_int_of_i256: "\<bar>int_of_i256 a\<bar> = uint (magnitude a)"
  by (simp add: int_of_i256_def)

lemma uint_plus_exact: "uint a + uint b < 2 ^ 256 \<Longrightarrow> uint (a + b) = uint a + uint b" for a b :: "256 word"
  by (simp add: uint_word_ariths mod_pos_pos_trivial)

lemma i256_add_exact:
  assumes ops: "u256_ops_ok ops" and fits: "\<bar>int_of_i256 a + int_of_i256 b\<bar> < 2 ^ 256"
  shows "\<exists>c. i256_add ops a b = Some c \<and> int_of_i256 c = int_of_i256 a + int_of_i256 b"
proof (cases "is_negative a = is_negative b")
  case True
  then have "uint (magnitude a) + uint (magnitude b) < 2 ^ 256" using fits by (auto simp: int_of_i256_def)
  then have "u256_add ops (magnitude a) (magnitude b) = Some (magnitude a + magnitude b)"
    "uint (magnitude a + magnitude b) = uint (magnitude a) + uint (magnitude b)"
    using ops by (auto simp: u256_ops_ok_def uint_plus_exact)
  then show ?thesis using True by (auto simp: i256_add_def int_of_i256_def)
next
  case False
  have sub: "u256_sub ops x y = Some (x - y)" "uint (x - y) = uint x - uint y" if "y \<le> x" for x y
    using that ops by (auto simp: u256_ops_ok_def uint_minus_simple_alt [symmetric])
  consider "magnitude b < magnitude a" | "magnitude a < magnitude b" | "magnitude a = magnitude b"
    by (rule linorder_cases)
  then show ?thesis
  proof cases
    case 1
    with False sub [of "magnitude b" "magnitude a"] show ?thesis
      by (auto simp: i256_add_def int_of_i256_def word_le_def word_less_def)
  next
    case 2
    with False sub [of "magnitude a" "magnitude b"] show ?thesis
      by (auto simp: i256_add_def int_of_i256_def word_le_def word_less_def)
  next
    case 3
    with False show ?thesis by (auto simp: i256_add_def int_of_i256_def)
  qed
qed

lemma i256_sub_exact:
  assumes "u256_ops_ok ops" and "\<bar>int_of_i256 a - int_of_i256 b\<bar> < 2 ^ 256"
  shows "\<exists>c. i256_sub ops a b = Some c \<and> int_of_i256 c = int_of_i256 a - int_of_i256 b"
proof -
  let ?b = "\<lparr>magnitude = magnitude b, is_negative = (if magnitude b = 0 then False else \<not> is_negative b)\<rparr>"
  have "int_of_i256 ?b = - int_of_i256 b" by (simp add: int_of_i256_def)
  with i256_add_exact [of ops a ?b] assms show ?thesis by (simp add: i256_sub_def Let_def)
qed

end
