(* ===== verification/Torii_Query.thy ===== *)
theory Torii_Query
  imports Cairo_Ty Int256
begin

text \<open>
  The messages the indexer sends to its executor (\<open>torii/sqlite/src/executor/mod.rs\<close>), and the sending
  end: an unbounded channel whose receiver may be gone.  A message is a statement with its arguments
  and the kind that says what else the executor does.  The channel on which the executor reports the
  end of a message is left out; what is awaited there is a parameter of the operations that wait.
\<close>

section \<open>Messages\<close>

datatype argument = Arg_Null | Arg_Int "64 word" | Arg_Bool bool | Arg_String string | Arg_Felt felt

datatype contract_type = WORLD | ERC20 | ERC721 | ERC1155 | UDC

type_synonym erc_cache = "((contract_type \<times> string) \<times> i256) list"

record delete_entity_query =
  del_entity_id :: string
  del_model_id :: string
  del_event_id :: string
  del_timestamp :: string
  del_ty :: ty

record set_head_query =
  sh_head :: u64
  sh_timestamp :: u64
  sh_txns_count :: u64
  sh_contract :: felt

record update_cursors_query =
  uc_cursor_map :: "felt \<Rightarrow> (felt \<times> u64) option"
  uc_block_number :: u64
  uc_timestamp :: u64
  uc_pending_tx :: "felt option"

record event_message_query =
  em_entity_id :: string
  em_model_id :: string
  em_keys :: string
  em_event_id :: string
  em_timestamp :: string
  em_historical :: bool
  em_ty :: ty

record entity_query =
  eq_entity_id :: string
  eq_model_id :: string
  eq_keys :: "string option"
  eq_event_id :: string
  eq_timestamp :: string
  eq_historical :: bool
  eq_ty :: ty

record register_nft_query =
  nft_id :: string
  nft_contract :: felt
  nft_token_id :: "256 word"

record register_erc20_query =
  erc20_token_id :: string
  erc20_contract :: felt
  erc20_name :: string
  erc20_symbol :: string
  erc20_decimals :: u8

text \<open>The parsed calls of a transaction are passed on unseen.\<close>

datatype 'call query_type =
    StoreTransaction "felt set" "'call list"
  | SetHead set_head_query
  | UpdateCursors update_cursors_query
  | SetEntity entity_query
  | DeleteEntity delete_entity_query
  | EventMessageQ event_message_query
  | ApplyBalanceDiff erc_cache
  | RegisterNftToken register_nft_query
  | RegisterErc20Token register_erc20_query
  | TokenTransfer
  | RegisterModel
  | StoreEvent
  | UpdateNftMetadata felt "256 word"
  | Flush
  | Execute
  | Rollback
  | OtherQuery

record 'call query_message =
  statement :: string
  arguments :: "argument list"
  query_kind :: "'call query_type"

definition query_new :: "string \<Rightarrow> argument list \<Rightarrow> 'call query_type \<Rightarrow> 'call query_message" where
  "query_new stmt args kind = \<lparr>statement = stmt, arguments = args, query_kind = kind\<rparr>"

definition query_other :: "string \<Rightarrow> argument list \<Rightarrow> 'call query_message" where
  "query_other stmt args = query_new stmt args OtherQuery"

definition query_flush :: "'call query_message" where
  "query_flush = query_new [] [] Flush"

definition query_execute :: "'call query_message" where
  "query_execute = query_new [] [] Execute"

definition query_rollback :: "'call query_message" where
  "query_rollback = query_new [] [] Rollback"

section \<open>The sender\<close>

text \<open>Errors of the operations: a closed channel, a message of their own, an error of a library, or an
  error of the schema.\<close>

datatype ('e, 'ce, 'ue) sql_error =
    SendError
  | Message string
  | Library 'e
  | PrimitiveErr "('ce, 'ue) primitive_error"

record 'call sender =
  closed :: bool
  sent :: "'call query_message list"

definition send :: "'call query_message \<Rightarrow> 'call sender \<Rightarrow> (unit, ('e, 'ce, 'ue) sql_error) result \<times> 'call sender" where
  "send q s = (if closed s then (Err SendError, s) else (Ok (), s\<lparr>sent := sent s @ [q]\<rparr>))"

lemma send_open [simp]: "\<not> closed s \<Longrightarrow> send q s = (Ok (), s\<lparr>sent := sent s @ [q]\<rparr>)"
  by (simp add: send_def)

end
