(* ===== verification/Token_Balance.thy ===== *)
theory Token_Balance
  imports Torii_Query "HOL-Library.AList"
begin

text \<open>
  The token balances of the indexer: transfers are added up in a cache in memory
  (\<open>torii/sqlite/src/erc.rs\<close>) and the cache is sent from time to time to the executor, which applies
  it to the table of balances (\<open>torii/sqlite/src/executor/erc.rs\<close>).  The texts of felts and numbers,
  the provider and the clock are parameters, collected in \<open>erc_env\<close>.  \<open>None\<close> is a panic.  The map of
  the cache is the list of its entries; the order in which a map is iterated is the function
  \<open>map_iter\<close>.
\<close>

section \<open>Environment and state\<close>

datatype response = CallResponse "felt list" | OtherResponse

record ('ba, 'ce, 'ue, 'e) erc_env =
  ops :: u256_ops
  felt_text :: "felt \<Rightarrow> string"
  u256_text :: "256 word \<Rightarrow> string"
  u256_from_be_hex :: "string \<Rightarrow> 256 word option"
  rfc3339 :: "u64 \<Rightarrow> string option"
  short_string :: "felt \<Rightarrow> string option"
  u8_deserialize :: "felt list \<Rightarrow> u8 option"
  byte_arrays :: "('ba, 'ce, 'ue) byte_array_lib"
  batch_requests :: "felt \<Rightarrow> (response list, 'e) result"
  balance_of :: "string \<Rightarrow> string \<Rightarrow> (256 word, 'e) result option"
  flush_answer :: "(unit, 'e) result"
  map_iter :: "erc_cache \<Rightarrow> erc_cache"

record 'call erc_state =
  erc_cache :: erc_cache
  token_ids :: "string set"
  out :: "'call sender"

section \<open>Texts\<close>

definition felts_to_sql_string :: "('ba, 'ce, 'ue, 'e) erc_env \<Rightarrow> felt list \<Rightarrow> string" where
  "felts_to_sql_string E felts = join ''/'' (map (felt_text E) felts) @ ''/''"

definition felt_to_sql_string :: "('ba, 'ce, 'ue, 'e) erc_env \<Rightarrow> felt \<Rightarrow> string" where
  "felt_to_sql_string E f = felt_text E f"

definition felt_and_u256_to_sql_string :: "('ba, 'ce, 'ue, 'e) erc_env \<Rightarrow> felt \<Rightarrow> 256 word \<Rightarrow> string" where
  "felt_and_u256_to_sql_string E f u = felt_to_sql_string E f @ '':'' @ u256_text E u"

definition sql_string_to_u256 :: "('ba, 'ce, 'ue, 'e) erc_env \<Rightarrow> string \<Rightarrow> 256 word option" where
  "sql_string_to_u256 E s = u256_from_be_hex E (if take 2 s = ''0x'' then drop 2 s else s)"

section \<open>The indexer\<close>

definition try_register_token_id :: "string \<Rightarrow> 'call erc_state \<Rightarrow> bool \<times> 'call erc_state" where
  "try_register_token_id token_id st =
     (if token_id \<in> token_ids st then (False, st) else (True, st\<lparr>token_ids := insert token_id (token_ids st)\<rparr>))"

definition erc_send ::
  "'call query_message \<Rightarrow> 'call erc_state \<Rightarrow> (unit, ('e, 'ce, 'ue) sql_error) result \<times> 'call erc_state" where
  "erc_send q st = (let (r, s) = send q (out st) in (r, st\<lparr>out := s\<rparr>))"

text \<open>The answers for the name and the symbol of a token: a short string or a byte array.\<close>

definition parse_text ::
  "('ba, 'ce, 'ue, 'e) erc_env \<Rightarrow> string \<Rightarrow> response \<Rightarrow> (string, ('e, 'ce, 'ue) sql_error) result option" where
  "parse_text E message r =
     (case r of
        CallResponse fs \<Rightarrow>
          (if length fs = 1 then map_option Ok (short_string E (hd fs))
           else case ba_deserialize (byte_arrays E) fs 0 of
             Inl _ \<Rightarrow> None
           | Inr ba \<Rightarrow> (case ba_to_string (byte_arrays E) ba of Inl _ \<Rightarrow> None | Inr text \<Rightarrow> Some (Ok text)))
      | OtherResponse \<Rightarrow> Some (Err (Message message)))"

definition parse_decimals ::
  "('ba, 'ce, 'ue, 'e) erc_env \<Rightarrow> response \<Rightarrow> (u8, ('e, 'ce, 'ue) sql_error) result option" where
  "parse_decimals E r =
     (case r of
        CallResponse fs \<Rightarrow> map_option Ok (u8_deserialize E fs)
      | OtherResponse \<Rightarrow> Some (Err (Message ''Invalid response for decimals'')))"

definition erc20_metadata ::
  "('ba, 'ce, 'ue, 'e) erc_env \<Rightarrow> felt \<Rightarrow> (string \<times> string \<times> u8, ('e, 'ce, 'ue) sql_error) result option" where
  "erc20_metadata E contract =
     (case batch_requests E contract of
        Inl e \<Rightarrow> Some (Err (Library e))
      | Inr results \<Rightarrow>
          if length results < 3 then None
          else case parse_text E ''Invalid response for name'' (results ! 0) of
            None \<Rightarrow> None
          | Some (Inl e) \<Rightarrow> Some (Err e)
          | Some (Inr name) \<Rightarrow>
              (case parse_text E ''Invalid response for symbol'' (results ! 1) of
                 None \<Rightarrow> None
               | Some (Inl e) \<Rightarrow> Some (Err e)
               | Some (Inr symbol) \<Rightarrow>
                   map_option (map_ok (\<lambda>decimals. (name, symbol, decimals))) (parse_decimals E (results ! 2))))"

definition register_erc20_token_metadata ::
  "('ba, 'ce, 'ue, 'e) erc_env \<Rightarrow> felt \<Rightarrow> string \<Rightarrow> 'call erc_state \<Rightarrow>
    ((unit, ('e, 'ce, 'ue) sql_error) result \<times> 'call erc_state) option" where
  "register_erc20_token_metadata E contract token_id st =
     (case erc20_metadata E contract of
        None \<Rightarrow> None
      | Some (Inl e) \<Rightarrow> Some (Err e, st)
      | Some (Inr (name, symbol, decimals)) \<Rightarrow>
          Some (erc_send (query_new [] [] (RegisterErc20Token
            \<lparr>erc20_token_id = token_id, erc20_contract = contract, erc20_name = name,
             erc20_symbol = symbol, erc20_decimals = decimals\<rparr>)) st))"

definition register_nft_token_metadata ::
  "string \<Rightarrow> felt \<Rightarrow> 256 word \<Rightarrow> 'call erc_state \<Rightarrow>
    ((unit, ('e, 'ce, 'ue) sql_error) result \<times> 'call erc_state) option" where
  "register_nft_token_metadata nid contract token_id st =
     Some (erc_send (query_new [] [] (RegisterNftToken
       \<lparr>nft_id = nid, nft_contract = contract, nft_token_id = token_id\<rparr>)) st)"

definition store_erc_transfer_event ::
  "('ba, 'ce, 'ue, 'e) erc_env \<Rightarrow> felt \<Rightarrow> felt \<Rightarrow> felt \<Rightarrow> 256 word \<Rightarrow> string \<Rightarrow> u64 \<Rightarrow> string \<Rightarrow> 'call erc_state \<Rightarrow>
    ((unit, ('e, 'ce, 'ue) sql_error) result \<times> 'call erc_state) option" where
  "store_erc_transfer_event E contract sender receiver amount token_id block_timestamp event_id st =
     (case rfc3339 E block_timestamp of
        None \<Rightarrow> None
      | Some executed_at \<Rightarrow>
          Some (erc_send (query_new
            ''INSERT INTO token_transfers (id, contract_address, from_address, to_address, amount, token_id, event_id, executed_at) VALUES (?, ?, ?, ?, ?, ?, ?, ?)''
            [Arg_String (event_id @ '':'' @ token_id), Arg_Felt contract, Arg_Felt sender, Arg_Felt receiver,
             Arg_String (u256_text E amount), Arg_String token_id, Arg_String event_id, Arg_String executed_at]
            TokenTransfer) st))"

text \<open>\<open>*cache.entry(key).or_default() op= amount\<close>.\<close>

definition cache_get :: "erc_cache \<Rightarrow> contract_type \<times> string \<Rightarrow> i256" where
  "cache_get c key = (case map_of c key of None \<Rightarrow> i256_default | Some v \<Rightarrow> v)"

definition cache_update :: "(i256 \<Rightarrow> i256 option) \<Rightarrow> contract_type \<times> string \<Rightarrow> erc_cache \<Rightarrow> erc_cache option" where
  "cache_update f key c = map_option (\<lambda>v. AList.update key v c) (f (cache_get c key))"

definition cache_transfer ::
  "u256_ops \<Rightarrow> felt \<Rightarrow> felt \<Rightarrow> contract_type \<times> string \<Rightarrow> contract_type \<times> string \<Rightarrow> 256 word \<Rightarrow> erc_cache \<Rightarrow> erc_cache option" where
  "cache_transfer uops sender receiver from_key to_key amount c =
     Option.bind
       (if sender \<noteq> 0 then cache_update (\<lambda>v. i256_sub uops v (i256_from amount)) from_key c else Some c)
       (\<lambda>c. if receiver \<noteq> 0 then cache_update (\<lambda>v. i256_add uops v (i256_from amount)) to_key c else Some c)"

definition erc_flush ::
  "('ba, 'ce, 'ue, 'e) erc_env \<Rightarrow> 'call erc_state \<Rightarrow> (unit, ('e, 'ce, 'ue) sql_error) result \<times> 'call erc_state" where
  "erc_flush E st =
     (case erc_send query_flush st of
        (Inl e, st) \<Rightarrow> (Err e, st)
      | (Inr _, st) \<Rightarrow> (case flush_answer E of Inl e \<Rightarrow> Err (Library e) | Inr u \<Rightarrow> Ok u, st))"

definition apply_cache_diff ::
  "'call erc_state \<Rightarrow> (unit, ('e, 'ce, 'ue) sql_error) result \<times> 'call erc_state" where
  "apply_cache_diff st =
     (if erc_cache st = [] then (Ok (), st)
      else erc_send (query_new [] [] (ApplyBalanceDiff (erc_cache st))) (st\<lparr>erc_cache := []\<rparr>))"

definition CACHE_LIMIT :: nat where
  "CACHE_LIMIT = 100000"

definition bind_run ::
  "(('a, 'e) result \<times> 's) option \<Rightarrow> ('s \<Rightarrow> (('b, 'e) result \<times> 's) option) \<Rightarrow> (('b, 'e) result \<times> 's) option" where
  "bind_run m f = (case m of None \<Rightarrow> None | Some (Inl e, s) \<Rightarrow> Some (Inl e, s) | Some (Inr _, s) \<Rightarrow> f s)"

text \<open>The end of both handlers: the cache is brought up to date and sent when it has grown large.\<close>

definition finish_transfer ::
  "('ba, 'ce, 'ue, 'e) erc_env \<Rightarrow> erc_cache option \<Rightarrow> 'call erc_state \<Rightarrow>
    ((unit, ('e, 'ce, 'ue) sql_error) result \<times> 'call erc_state) option" where
  "finish_transfer E cache st =
     (case cache of
        None \<Rightarrow> None
      | Some c \<Rightarrow>
          let st = st\<lparr>erc_cache := c\<rparr> in
          if CACHE_LIMIT \<le> length c then bind_run (Some (erc_flush E st)) (\<lambda>st. Some (apply_cache_diff st))
          else Some (Ok (), st))"

definition handle_erc20_transfer ::
  "('ba, 'ce, 'ue, 'e) erc_env \<Rightarrow> felt \<Rightarrow> felt \<Rightarrow> felt \<Rightarrow> 256 word \<Rightarrow> u64 \<Rightarrow> string \<Rightarrow> 'call erc_state \<Rightarrow>
    ((unit, ('e, 'ce, 'ue) sql_error) result \<times> 'call erc_state) option" where
  "handle_erc20_transfer E contract sender receiver amount block_timestamp event_id st =
     (let token_id = felt_to_sql_string E contract;
          (fresh, st) = try_register_token_id token_id st in
      bind_run (if fresh then register_erc20_token_metadata E contract token_id st else Some (Ok (), st)) (\<lambda>st.
      bind_run (store_erc_transfer_event E contract sender receiver amount token_id block_timestamp event_id st) (\<lambda>st.
      finish_transfer E
        (cache_transfer (ops E) sender receiver
          (ERC20, felts_to_sql_string E [sender, contract]) (ERC20, felts_to_sql_string E [receiver, contract])
          amount (erc_cache st)) st)))"

definition handle_nft_transfer ::
  "('ba, 'ce, 'ue, 'e) erc_env \<Rightarrow> felt \<Rightarrow> felt \<Rightarrow> felt \<Rightarrow> 256 word \<Rightarrow> 256 word \<Rightarrow> u64 \<Rightarrow> string \<Rightarrow> 'call erc_state \<Rightarrow>
    ((unit, ('e, 'ce, 'ue) sql_error) result \<times> 'call erc_state) option" where
  "handle_nft_transfer E contract sender receiver token_id amount block_timestamp event_id st =
     (let nid = felt_and_u256_to_sql_string E contract token_id;
          (fresh, st) = try_register_token_id nid st in
      bind_run (if fresh then register_nft_token_metadata nid contract token_id st else Some (Ok (), st)) (\<lambda>st.
      bind_run (store_erc_transfer_event E contract sender receiver amount nid block_timestamp event_id st) (\<lambda>st.
      finish_transfer E
        (cache_transfer (ops E) sender receiver
          (ERC721, felt_to_sql_string E sender @ ''/'' @ nid) (ERC721, felt_to_sql_string E receiver @ ''/'' @ nid)
          amount (erc_cache st)) st)))"

section \<open>The executor\<close>

text \<open>A row of the table of balances, by its id.\<close>

record token_balance =
  tb_contract :: string
  tb_account :: string
  tb_token_id :: string
  tb_balance :: string

type_synonym balances = "string \<Rightarrow> token_balance option"

definition apply_balance_diff_helper ::
  "('ba, 'ce, 'ue, 'e) erc_env \<Rightarrow> string \<Rightarrow> string \<Rightarrow> string \<Rightarrow> string \<Rightarrow> i256 \<Rightarrow> balances \<Rightarrow>
    ((unit, 'e) result \<times> balances) option" where
  "apply_balance_diff_helper E key account contract token_id balance_diff db =
     Option.bind (case db key of None \<Rightarrow> Some 0 | Some row \<Rightarrow> sql_string_to_u256 E (tb_balance row)) (\<lambda>balance.
     Option.bind
       (if is_negative balance_diff
        then if balance < magnitude balance_diff then balance_of E contract account
             else map_option Ok (u256_sub (ops E) balance (magnitude balance_diff))
        else map_option Ok (u256_add (ops E) balance (magnitude balance_diff))) (\<lambda>new_balance.
     Some (case new_balance of
        Inl e \<Rightarrow> (Err e, db)
      | Inr b \<Rightarrow>
          (Ok (), db(key \<mapsto> \<lparr>tb_contract = contract, tb_account = account, tb_token_id = token_id,
             tb_balance = u256_text E b\<rparr>)))))"

definition apply_entry ::
  "('ba, 'ce, 'ue, 'e) erc_env \<Rightarrow> (contract_type \<times> string) \<times> i256 \<Rightarrow> balances \<Rightarrow> ((unit, 'e) result \<times> balances) option" where
  "apply_entry E entry db =
     (case entry of ((contract_type, id_str), balance) \<Rightarrow>
        let pieces = split_on (CHR ''/'') id_str in
        (case contract_type of
           WORLD \<Rightarrow> None
         | UDC \<Rightarrow> None
         | ERC20 \<Rightarrow>
             if length pieces = 3
             then apply_balance_diff_helper E id_str (pieces ! 0) (pieces ! 1) (pieces ! 1) balance db
             else None
         | _ \<Rightarrow>
             if length pieces = 2
             then apply_balance_diff_helper E id_str (pieces ! 0) (hd (split_on (CHR '':'') (pieces ! 1))) (pieces ! 1) balance db
             else None))"

fun apply_entries ::
  "('ba, 'ce, 'ue, 'e) erc_env \<Rightarrow> erc_cache \<Rightarrow> balances \<Rightarrow> ((unit, 'e) result \<times> balances) option" where
  "apply_entries E [] db = Some (Ok (), db)"
| "apply_entries E (entry # entries) db = bind_run (apply_entry E entry db) (apply_entries E entries)"

definition apply_balance_diff ::
  "('ba, 'ce, 'ue, 'e) erc_env \<Rightarrow> erc_cache \<Rightarrow> balances \<Rightarrow> ((unit, 'e) result \<times> balances) option" where
  "apply_balance_diff E cache db = apply_entries E (map_iter E cache) db"

text \<open>What the messages sent do to the table of balances: no other kind of message writes to it, and the error of
  a message is logged and the next one handled.\<close>

fun handle_balance_message ::
  "('ba, 'ce, 'ue, 'e) erc_env \<Rightarrow> 'call query_message \<Rightarrow> balances \<Rightarrow> balances option" where
  "handle_balance_message E q db =
     (case query_kind q of
        ApplyBalanceDiff cache \<Rightarrow> map_option snd (apply_balance_diff E cache db)
      | _ \<Rightarrow> Some db)"

fun handle_balance_messages ::
  "('ba, 'ce, 'ue, 'e) erc_env \<Rightarrow> 'call query_message list \<Rightarrow> balances \<Rightarrow> balances option" where
  "handle_balance_messages E [] db = Some db"
| "handle_balance_messages E (q # qs) db = Option.bind (handle_balance_message E q db) (handle_balance_messages E qs)"

section \<open>A failed registration is not repeated\<close>

text \<open>The id of a token enters the registry before its metadata is asked for.  When that fails, the handler fails,
  but the id stays: a later transfer does not register the token any more.\<close>

lemma failed_registration_sticks:
  assumes "felt_to_sql_string E contract \<notin> token_ids st" "erc20_metadata E contract = Some (Inl e)"
  shows "\<exists>st'. handle_erc20_transfer E contract sender receiver amount ts eid st = Some (Err e, st') \<and>
    fst (try_register_token_id (felt_to_sql_string E contract) st') = False \<and> sent (out st') = sent (out st)"
  using assms
  by (simp add: handle_erc20_transfer_def Let_def try_register_token_id_def bind_run_def register_erc20_token_metadata_def)

end
