(* ===== verification/Dojo_Naming.thy ===== *)
theory Dojo_Naming
  imports Felt Version
begin

text \<open>
  Names, tags and selectors of the resources of a world (\<open>dojo/types/src/naming.rs\<close>).  A tag is
  \<open>namespace-name\<close>; a selector is a Poseidon hash of the hashes of both.  The byte array of the
  cainome library and the Poseidon hash of the Starknet library are parameters.  A panic is \<open>None\<close>.
\<close>

record naming_env =
  byte_array_felts :: "string \<Rightarrow> felt list option"
  poseidon_hash_many :: "felt list \<Rightarrow> felt"

text \<open>\<open>byte_array_felts\<close> is \<open>ByteArray::from_string\<close> followed by \<open>cairo_serialize\<close>, and \<open>None\<close> where the
  first fails.\<close>

definition get_tag :: "string \<Rightarrow> string \<Rightarrow> string" where
  "get_tag namespace name = namespace @ ''-'' @ name"

definition get_name_from_tag :: "string \<Rightarrow> string" where
  "get_name_from_tag tag = last (split_on (CHR ''-'') tag)"

definition get_namespace_from_tag :: "string \<Rightarrow> string" where
  "get_namespace_from_tag tag = hd (split_on (CHR ''-'') tag)"

definition is_name_char :: "char \<Rightarrow> bool" where
  "is_name_char c = (let n = of_char c :: nat in
     (97 \<le> n \<and> n \<le> 122) \<or> (65 \<le> n \<and> n \<le> 90) \<or> (48 \<le> n \<and> n \<le> 57) \<or> n = 95)"

definition is_name_valid :: "string \<Rightarrow> bool" where
  "is_name_valid name \<longleftrightarrow> name \<noteq> [] \<and> list_all is_name_char name"

definition split_tag :: "string \<Rightarrow> (string \<times> string, unit) result" where
  "split_tag tag =
     (case split_on (CHR ''-'') tag of
        [namespace, name] \<Rightarrow> Ok (namespace, name)
      | _ \<Rightarrow> Err ())"

definition is_valid_tag :: "string \<Rightarrow> bool" where
  "is_valid_tag tag =
     (case split_tag tag of
        Inl _ \<Rightarrow> False
      | Inr (namespace, name) \<Rightarrow> is_name_valid namespace \<and> is_name_valid name)"

definition compute_bytearray_hash :: "naming_env \<Rightarrow> string \<Rightarrow> felt option" where
  "compute_bytearray_hash E value = map_option (poseidon_hash_many E) (byte_array_felts E value)"

definition compute_selector_from_hashes :: "naming_env \<Rightarrow> felt \<Rightarrow> felt \<Rightarrow> felt" where
  "compute_selector_from_hashes E namespace_hash model_hash = poseidon_hash_many E [namespace_hash, model_hash]"

definition compute_selector_from_names :: "naming_env \<Rightarrow> string \<Rightarrow> string \<Rightarrow> felt option" where
  "compute_selector_from_names E namespace name =
     Option.bind (compute_bytearray_hash E namespace) (\<lambda>namespace_hash.
     map_option (compute_selector_from_hashes E namespace_hash) (compute_bytearray_hash E name))"

definition compute_selector_from_tag :: "naming_env \<Rightarrow> string \<Rightarrow> felt option" where
  "compute_selector_from_tag E tag =
     (case split_tag tag of
        Inl _ \<Rightarrow> None
      | Inr (namespace, name) \<Rightarrow> compute_selector_from_names E namespace name)"

definition compute_selector_from_tag_or_name :: "naming_env \<Rightarrow> string \<Rightarrow> felt option" where
  "compute_selector_from_tag_or_name E tag_or_name =
     (if is_valid_tag tag_or_name then compute_selector_from_tag E tag_or_name
      else compute_bytearray_hash E tag_or_name)"

text \<open>\<open>{:x}\<close> of a field element: its digits to base 16, without prefix or padding.\<close>

definition hex_digit :: "nat \<Rightarrow> char" where
  "hex_digit d = char_of (if d < 10 then 48 + d else 87 + d)"

fun lower_hex :: "nat \<Rightarrow> string" where
  "lower_hex n = (if n < 16 then [hex_digit n] else lower_hex (n div 16) @ [hex_digit (n mod 16)])"

declare lower_hex.simps [simp del]

definition SELECTOR_CHUNK_SIZE :: nat where
  "SELECTOR_CHUNK_SIZE = 8"

definition get_filename_from_tag :: "naming_env \<Rightarrow> string \<Rightarrow> string option" where
  "get_filename_from_tag E tag =
     (if tag \<in> {''dojo-world'', ''dojo-base''} then Some tag
      else map_option (\<lambda>selector. tag @ ''-'' @ take SELECTOR_CHUNK_SIZE (lower_hex (nat_of_felt selector)))
             (compute_selector_from_tag E tag))"

definition get_tag_from_filename :: "string \<Rightarrow> (string, unit) result" where
  "get_tag_from_filename filename =
     (case split_on (CHR ''-'') filename of
        [namespace, name, _] \<Rightarrow> Ok (namespace @ ''-'' @ name)
      | _ \<Rightarrow> Err ())"

section \<open>Tags and their parts\<close>

lemma name_char_not_dash: "is_name_char c \<Longrightarrow> c \<noteq> CHR ''-''"
  by (auto simp: is_name_char_def Let_def)

lemma valid_name_no_dash: "is_name_valid s \<Longrightarrow> CHR ''-'' \<notin> set s"
  by (auto simp: is_name_valid_def list_all_iff dest: name_char_not_dash)

lemma split_on_Nil_iff [simp]: "split_on sep s \<noteq> []"
  by (induction s) (auto split: list.split)

lemma join_split_on: "concat (map (\<lambda>p. sep # p) (split_on sep s)) = sep # s"
  by (induction s) (auto split: list.split)

lemma split_on_pieces_no_sep: "p \<in> set (split_on sep s) \<Longrightarrow> sep \<notin> set p"
  by (induction s arbitrary: p) (auto split: list.splits if_splits)

lemma split_tag_get_tag:
  assumes "CHR ''-'' \<notin> set namespace" "CHR ''-'' \<notin> set name"
  shows "split_tag (get_tag namespace name) = Ok (namespace, name)"
  using assms by (simp add: split_tag_def get_tag_def split_on_append split_on_no_sep)

lemma split_tag_inverse:
  assumes "split_tag tag = Ok (namespace, name)"
  shows "tag = get_tag namespace name" "CHR ''-'' \<notin> set namespace" "CHR ''-'' \<notin> set name"
proof -
  have pieces: "split_on (CHR ''-'') tag = [namespace, name]"
    using assms by (auto simp: split_tag_def split: list.splits)
  with join_split_on [of "CHR ''-''" tag] show "tag = get_tag namespace name"
    by (simp add: get_tag_def)
  show "CHR ''-'' \<notin> set namespace" "CHR ''-'' \<notin> set name"
    using split_on_pieces_no_sep [of _ "CHR ''-''" tag] pieces by auto
qed

lemma split_tag_iff:
  "split_tag tag = Ok (namespace, name) \<longleftrightarrow>
     tag = get_tag namespace name \<and> CHR ''-'' \<notin> set namespace \<and> CHR ''-'' \<notin> set name"
  using split_tag_inverse split_tag_get_tag by blast

text \<open>Parts of a valid tag, and the selector, which does not depend on the way the parts are given.\<close>

lemma valid_tag_iff:
  "is_valid_tag tag \<longleftrightarrow> (\<exists>namespace name. tag = get_tag namespace name \<and> is_name_valid namespace \<and> is_name_valid name)"
proof
  assume "is_valid_tag tag"
  then obtain namespace name where "split_tag tag = Ok (namespace, name)" "is_name_valid namespace" "is_name_valid name"
    by (auto simp: is_valid_tag_def split: sum.splits)
  then show "\<exists>namespace name. tag = get_tag namespace name \<and> is_name_valid namespace \<and> is_name_valid name"
    using split_tag_inverse(1) by blast
next
  assume "\<exists>namespace name. tag = get_tag namespace name \<and> is_name_valid namespace \<and> is_name_valid name"
  then show "is_valid_tag tag"
    by (auto simp: is_valid_tag_def split_tag_get_tag valid_name_no_dash)
qed

lemma get_parts_of_tag:
  assumes "CHR ''-'' \<notin> set namespace" "CHR ''-'' \<notin> set name"
  shows "get_namespace_from_tag (get_tag namespace name) = namespace"
    and "get_name_from_tag (get_tag namespace name) = name"
  using assms by (simp_all add: get_namespace_from_tag_def get_name_from_tag_def get_tag_def split_on_append split_on_no_sep)

lemma compute_selector_from_get_tag:
  assumes "CHR ''-'' \<notin> set namespace" "CHR ''-'' \<notin> set name"
  shows "compute_selector_from_tag E (get_tag namespace name) = compute_selector_from_names E namespace name"
  using assms by (simp add: compute_selector_from_tag_def split_tag_get_tag)

section \<open>File names\<close>

lemma hex_digit_not_dash: "d < 16 \<Longrightarrow> hex_digit d \<noteq> CHR ''-''"
proof -
  assume "d < 16"
  then have "(of_char (hex_digit d) :: nat) \<noteq> 45"
    by (auto simp: hex_digit_def of_char_of)
  then show ?thesis by auto
qed

lemma lower_hex_no_dash: "CHR ''-'' \<notin> set (lower_hex n)"
proof (induction n rule: lower_hex.induct)
  case (1 n)
  show ?case
  proof (cases "n < 16")
    case True
    then show ?thesis using hex_digit_not_dash [of n] by (subst lower_hex.simps) auto
  next
    case False
    have "hex_digit (n mod 16) \<noteq> CHR ''-''"
      by (rule hex_digit_not_dash) simp
    with 1 False show ?thesis by (subst lower_hex.simps) auto
  qed
qed

text \<open>The tag is read back from the file name, except for the two tags that are their own file name.\<close>

lemma filename_roundtrip:
  assumes "get_filename_from_tag E tag = Some filename" "tag \<notin> {''dojo-world'', ''dojo-base''}"
  shows "get_tag_from_filename filename = Ok tag"
proof -
  obtain selector where sel: "compute_selector_from_tag E tag = Some selector"
    and f: "filename = tag @ ''-'' @ take SELECTOR_CHUNK_SIZE (lower_hex (nat_of_felt selector))"
    using assms by (auto simp: get_filename_from_tag_def)
  from sel obtain namespace name where "split_tag tag = Ok (namespace, name)"
    by (auto simp: compute_selector_from_tag_def split: sum.splits)
  note tag = split_tag_inverse [OF this]
  have "CHR ''-'' \<notin> set (take SELECTOR_CHUNK_SIZE (lower_hex (nat_of_felt selector)))"
    using lower_hex_no_dash by (meson in_set_takeD)
  with tag f show ?thesis
    by (simp add: get_tag_from_filename_def get_tag_def split_on_append split_on_no_sep)
qed

lemma filename_special: "get_tag_from_filename ''dojo-world'' = Err ()" "get_tag_from_filename ''dojo-base'' = Err ()"
  by (simp_all add: get_tag_from_filename_def)

end
