(* ===== verification/Model_Table.thy ===== *)
theory Model_Table
  imports Ty_Json Token_Balance Dojo_Naming
begin

text \<open>
  The tables of the models in the database of the indexer (\<open>torii/sqlite/src/lib.rs\<close>): the columns a
  schema is given when a model is registered (\<open>build_model_query\<close>, \<open>add_columns_recursive\<close>) and the
  columns a value of the model is written to (\<open>set_entity_model\<close>, \<open>collect_members\<close>).  The statements
  are the texts sent to the executor.  \<open>None\<close> is a panic.
\<close>

section \<open>Columns of a schema\<close>

record sql_config =
  all_model_indices :: bool
  model_indices :: "(string \<times> string list) list"
  historical_models :: "string set"

text \<open>The columns of a table to be created, the statements that alter an existing one, and the indices.\<close>

type_synonym columns = "string list \<times> string list \<times> string list"

definition cat3 :: "columns list \<Rightarrow> columns" where
  "cat3 rs = (concat (map fst rs), concat (map (fst \<circ> snd) rs), concat (map (snd \<circ> snd) rs))"

definition column_prefix :: "string list \<Rightarrow> string" where
  "column_prefix path = (if 1 < length path then join ''.'' (tl path) else [])"

definition name_or :: "string \<Rightarrow> string \<Rightarrow> string" where
  "name_or def prefix = (if prefix = [] then def else prefix)"

definition indexed :: "sql_config \<Rightarrow> string \<Rightarrow> bool \<Rightarrow> string \<Rightarrow> bool" where
  "indexed cfg table_id is_key name =
     (case find (\<lambda>m. fst m = table_id) (model_indices cfg) of
        Some m \<Rightarrow> name \<in> set (snd m)
      | None \<Rightarrow> all_model_indices cfg \<or> is_key)"

definition create_index :: "string \<Rightarrow> string \<Rightarrow> string" where
  "create_index table_id name =
     ''CREATE INDEX IF NOT EXISTS [idx_'' @ table_id @ ''_'' @ name @ ''] ON ['' @ table_id @ ''] (['' @ name @ '']);''"

definition alter_add :: "string \<Rightarrow> string \<Rightarrow> string \<Rightarrow> string" where
  "alter_add table_id name ty = ''ALTER TABLE ['' @ table_id @ ''] ADD COLUMN ['' @ name @ ''] '' @ ty"

definition add_column :: "sql_config \<Rightarrow> string \<Rightarrow> bool \<Rightarrow> bool \<Rightarrow> string \<Rightarrow> string \<Rightarrow> columns" where
  "add_column cfg table_id upgrade is_key name ty =
     (if upgrade then [] else [''['' @ name @ ''] '' @ ty],
      if upgrade then [alter_add table_id name ty] else [],
      if indexed cfg table_id is_key name then [create_index table_id name] else [])"

definition modify_column :: "string \<Rightarrow> string \<Rightarrow> string \<Rightarrow> string \<Rightarrow> columns" where
  "modify_column table_id name ty sql_value =
     ([],
      [''CREATE TEMPORARY TABLE [tmp_values_'' @ name @ ''] AS SELECT internal_id, ['' @ name @ ''] FROM ['' @ table_id @ '']'',
       ''DROP INDEX IF EXISTS [idx_'' @ table_id @ ''_'' @ name @ '']'',
       ''ALTER TABLE ['' @ table_id @ ''] DROP COLUMN ['' @ name @ '']'',
       alter_add table_id name ty,
       ''UPDATE ['' @ table_id @ ''] SET ['' @ name @ ''] = (SELECT '' @ sql_value @ '' FROM [tmp_values_'' @ name @
         ''] WHERE [tmp_values_'' @ name @ ''].internal_id = ['' @ table_id @ ''].internal_id)'',
       ''DROP TABLE [tmp_values_'' @ name @ '']'',
       create_index table_id name],
      [])"

fun sql_type_name :: "sql_type \<Rightarrow> string" where
  "sql_type_name Integer = ''INTEGER''"
| "sql_type_name Text = ''TEXT''"

definition option_check :: "string \<Rightarrow> enum \<Rightarrow> string" where
  "option_check column_name e =
     ''TEXT CONSTRAINT ['' @ column_name @ ''_check] CHECK(['' @ column_name @ ''] IN ('' @
       join '', '' (map (\<lambda>opt. [CHR 0x27] @ option_name opt @ [CHR 0x27]) (options e)) @ ''))''"

text \<open>The elements of a tuple to process, with their index and difference.\<close>

definition tuple_elements :: "ty list \<Rightarrow> ty option \<Rightarrow> (nat \<times> ty \<times> ty option) list" where
  "tuple_elements tuple diff =
     (case Option.bind diff as_tuple of
        Some ms \<Rightarrow> List.map_filter (\<lambda>m. map_option (\<lambda>idx. (idx, m, Some m)) (position (\<lambda>member. member = m) tuple)) ms
      | None \<Rightarrow> map (\<lambda>(idx, member). (idx, member, None)) (enumerate 0 tuple))"

lemma position_Some: "position P xs = Some i \<Longrightarrow> i < length xs \<and> P (xs ! i)"
  by (induction xs arbitrary: i) (auto split: if_splits)

lemma tuple_elements_in: "(i, t, d) \<in> set (tuple_elements tuple diff) \<Longrightarrow> t \<in> set tuple"
  by (auto simp: tuple_elements_def List.map_filter_def in_set_enumerate_eq split: option.splits)
    (drule position_Some, fastforce)

lemma size_tuple_elements [termination_simp]:
  "(i, t, d) \<in> set (tuple_elements tuple diff) \<Longrightarrow> size t < Suc (size_list size tuple)"
  by (rule size_in_list) (rule tuple_elements_in)

definition member_diff :: "ty option \<Rightarrow> string \<Rightarrow> ty option option" where
  "member_diff diff name =
     (case Option.bind diff as_struct of
        None \<Rightarrow> Some None
      | Some s \<Rightarrow> map_option (Some \<circ> member_ty) (find (\<lambda>m. member_name m = name) (children s)))"

definition option_diff :: "ty option \<Rightarrow> string \<Rightarrow> ty option option" where
  "option_diff diff name =
     (case Option.bind diff as_enum of
        None \<Rightarrow> Some None
      | Some e \<Rightarrow> map_option (Some \<circ> option_ty) (find (\<lambda>opt. option_name opt = name) (options e)))"

fun add_columns_recursive ::
  "sql_config \<Rightarrow> string \<Rightarrow> string list \<Rightarrow> ty \<Rightarrow> ty option \<Rightarrow> bool \<Rightarrow> columns" where
  "add_columns_recursive cfg table_id path (Ty_Struct s) upgrade_diff is_key =
     cat3 (map (\<lambda>m. case member_diff upgrade_diff (member_name m) of
         None \<Rightarrow> cat3 []
       | Some d \<Rightarrow> add_columns_recursive cfg table_id (path @ [member_name m]) (member_ty m) d (member_key m)) (children s))"
| "add_columns_recursive cfg table_id path (Ty_Tuple tuple) upgrade_diff is_key =
     cat3 (map (\<lambda>(idx, member, d). add_columns_recursive cfg table_id (path @ [dec_string idx]) member d is_key)
       (tuple_elements tuple upgrade_diff))"
| "add_columns_recursive cfg table_id path (Ty_Array items) upgrade_diff is_key =
     add_column cfg table_id (upgrade_diff \<noteq> None) is_key (name_or ''value'' (column_prefix path)) ''TEXT''"
| "add_columns_recursive cfg table_id path (Ty_Enum e) upgrade_diff is_key =
     (let column_name = name_or ''option'' (column_prefix path);
          ty = option_check column_name e in
      cat3 ((case Option.bind upgrade_diff as_enum of
               Some diff \<Rightarrow>
                 if diff \<noteq> e then modify_column table_id column_name ty (''['' @ column_name @ '']'')
                 else add_column cfg table_id (upgrade_diff \<noteq> None) is_key column_name ty
             | None \<Rightarrow> add_column cfg table_id (upgrade_diff \<noteq> None) is_key column_name ty) #
        map (\<lambda>child. case option_diff upgrade_diff (option_name child) of
            None \<Rightarrow> cat3 []
          | Some d \<Rightarrow>
              if option_ty child = Ty_Tuple [] then cat3 []
              else add_columns_recursive cfg table_id (path @ [option_name child]) (option_ty child) d is_key) (options e)))"
| "add_columns_recursive cfg table_id path (Ty_ByteArray bytes) upgrade_diff is_key =
     add_column cfg table_id (upgrade_diff \<noteq> None) is_key (name_or ''value'' (column_prefix path)) ''TEXT''"
| "add_columns_recursive cfg table_id path (Ty_Primitive p) upgrade_diff is_key =
     (let column_name = name_or ''value'' (column_prefix path) in
      case upgrade_diff of
        Some diff \<Rightarrow>
          (case as_primitive diff of
             Some old_primitive \<Rightarrow>
               modify_column table_id column_name (sql_type_name (to_sql_type p))
                 (if to_sql_type old_primitive = Integer \<and> to_sql_type p = Text
                  then ''printf('' @ [CHR 0x27] @ ''%064x'' @ [CHR 0x27] @ '', ['' @ column_name @ ''])''
                  else ''['' @ column_name @ '']'')
           | None \<Rightarrow> cat3 [])
      | None \<Rightarrow> add_column cfg table_id False is_key column_name (sql_type_name (to_sql_type p)))"

section \<open>Environment and state\<close>

text \<open>The texts and clocks of the libraries, the hash of a list of felts and the JSON printer.\<close>

record ('ba, 'ce, 'ue, 'e, 'lay) sql_env =
  text_of_felt :: "felt \<Rightarrow> string"
  time_of :: "u64 \<Rightarrow> string option"
  time_now :: string
  primitive_texts :: "(felt \<Rightarrow> string) \<times> (256 word \<Rightarrow> string)"
  json_texts_of :: json_texts
  json_list_to_string :: "json list \<Rightarrow> (string, 'e) result"
  layout_to_string :: "'lay \<Rightarrow> (string, 'e) result"
  schema_to_string :: "ty \<Rightarrow> (string, 'e) result"
  hash_many :: "felt list \<Rightarrow> felt"
  byte_array_ops :: "('ba, 'ce, 'ue) byte_array_lib"

record 'lay model_entry =
  me_namespace :: string
  me_name :: string
  me_selector :: felt
  me_class_hash :: felt
  me_address :: felt
  me_packed_size :: u32
  me_unpacked_size :: u32
  me_layout :: 'lay
  me_schema :: ty

record ('call, 'lay) sql_state =
  to_executor :: "'call sender"
  model_cache :: "felt \<Rightarrow> 'lay model_entry option"
  sql_cfg :: sql_config

type_synonym ('call, 'lay, 'e, 'ce, 'ue) sql_run =
  "((unit, ('e, 'ce, 'ue) sql_error) result \<times> ('call, 'lay) sql_state) option"

definition sql_send :: "'call query_message \<Rightarrow> ('call, 'lay) sql_state \<Rightarrow> ('call, 'lay, 'e, 'ce, 'ue) sql_run" where
  "sql_send q st = (let (r, s) = send q (to_executor st) in Some (r, st\<lparr>to_executor := s\<rparr>))"

fun send_all :: "'call query_message list \<Rightarrow> ('call, 'lay) sql_state \<Rightarrow> ('call, 'lay, 'e, 'ce, 'ue) sql_run" where
  "send_all [] st = Some (Ok (), st)"
| "send_all (q # qs) st = bind_run (sql_send q st) (send_all qs)"

section \<open>Registering a model\<close>

definition build_model_query ::
  "string list \<Rightarrow> ty \<Rightarrow> ty option \<Rightarrow> ('call, 'lay) sql_state \<Rightarrow> ('call, 'lay, 'e, 'ce, 'ue) sql_run" where
  "build_model_query path model upgrade_diff st =
     (let table_id = hd path;
          (columns, alter_table_queries, indices) =
            add_columns_recursive (sql_cfg st) table_id path model upgrade_diff False;
          indices =
            [''CREATE INDEX IF NOT EXISTS [idx_'' @ table_id @ ''_internal_entity_id] ON ['' @ table_id @ ''] ([internal_entity_id]);'',
             ''CREATE INDEX IF NOT EXISTS [idx_'' @ table_id @ ''_internal_event_message_id] ON ['' @ table_id @ ''] ([internal_event_message_id]);''] @ indices;
          create_table_query =
            ''CREATE TABLE IF NOT EXISTS ['' @ table_id @ ''] (internal_id TEXT NOT NULL PRIMARY KEY, internal_event_id TEXT NOT NULL, internal_entity_id TEXT, internal_event_message_id TEXT, '' @
            concat (map (\<lambda>column. column @ '', '') columns) @
            ''internal_executed_at DATETIME NOT NULL, '' @
            ''internal_created_at DATETIME NOT NULL DEFAULT CURRENT_TIMESTAMP, '' @
            ''internal_updated_at DATETIME NOT NULL DEFAULT CURRENT_TIMESTAMP, '' @
            ''FOREIGN KEY (internal_entity_id) REFERENCES entities(id), '' @
            ''FOREIGN KEY (internal_event_message_id) REFERENCES event_messages(id));'' in
      send_all (map (\<lambda>s. query_other s [])
        ((if upgrade_diff \<noteq> None then alter_table_queries else [create_table_query]) @ indices)) st)"

definition naming_of :: "('ba, 'ce, 'ue, 'e, 'lay) sql_env \<Rightarrow> naming_env" where
  "naming_of E = \<lparr>
     byte_array_felts = (\<lambda>value.
       case ba_from_string (byte_array_ops E) value of
         Inl _ \<Rightarrow> None
       | Inr ba \<Rightarrow> Some (ba_serialize (byte_array_ops E) ba)),
     poseidon_hash_many = hash_many E\<rparr>"

definition from_library :: "('a, 'e) result \<Rightarrow> ('a, ('e, 'ce, 'ue) sql_error) result" where
  "from_library r = (case r of Inl e \<Rightarrow> Err (Library e) | Inr a \<Rightarrow> Ok a)"

definition cache_model :: "felt \<Rightarrow> 'lay model_entry \<Rightarrow> ('call, 'lay) sql_state \<Rightarrow> ('call, 'lay) sql_state" where
  "cache_model selector m st = st\<lparr>model_cache := (model_cache st)(selector \<mapsto> m)\<rparr>"

definition register_model ::
  "('ba, 'ce, 'ue, 'e, 'lay) sql_env \<Rightarrow> string \<Rightarrow> ty \<Rightarrow> 'lay \<Rightarrow> felt \<Rightarrow> felt \<Rightarrow> u32 \<Rightarrow> u32 \<Rightarrow> u64 \<Rightarrow> ty option \<Rightarrow>
    ('call, 'lay) sql_state \<Rightarrow> ('call, 'lay, 'e, 'ce, 'ue) sql_run" where
  "register_model E namespace model layout class_hash address packed_size unpacked_size block_timestamp upgrade_diff st =
     (case (compute_selector_from_names (naming_of E) namespace (ty_name model), as_struct model) of
        (Some selector, Some s) \<Rightarrow>
          let namespaced_name = get_tag namespace (ty_name model);
              namespaced_schema = Ty_Struct (Struct namespaced_name (children s)) in
          (case and_then (from_library (layout_to_string E layout)) (\<lambda>l.
                  map_ok (Pair l) (from_library (schema_to_string E namespaced_schema))) of
             Inl e \<Rightarrow> Some (Err e, st)
           | Inr (layout_text, schema_text) \<Rightarrow>
               (case time_of E block_timestamp of
                  None \<Rightarrow> None
                | Some executed_at \<Rightarrow>
                    bind_run
                      (sql_send (query_new
                        ''INSERT INTO models (id, namespace, name, class_hash, contract_address, layout, schema, packed_size, unpacked_size, executed_at) VALUES (?, ?, ?, ?, ?, ?, ?, ?, ?, ?) ON CONFLICT(id) DO UPDATE SET contract_address=EXCLUDED.contract_address, class_hash=EXCLUDED.class_hash, layout=EXCLUDED.layout, schema=EXCLUDED.schema, packed_size=EXCLUDED.packed_size, unpacked_size=EXCLUDED.unpacked_size, executed_at=EXCLUDED.executed_at RETURNING *''
                        [Arg_String (text_of_felt E selector), Arg_String namespace, Arg_String (ty_name model),
                         Arg_String (text_of_felt E class_hash), Arg_String (text_of_felt E address),
                         Arg_String layout_text, Arg_String schema_text, Arg_Int (ucast packed_size),
                         Arg_Int (ucast unpacked_size), Arg_String executed_at]
                        RegisterModel) st) (\<lambda>st.
                    bind_run (build_model_query [namespaced_name] model upgrade_diff st) (\<lambda>st.
                    Some (Ok (), cache_model selector
                      \<lparr>me_namespace = namespace, me_name = ty_name model, me_selector = selector,
                       me_class_hash = class_hash, me_address = address, me_packed_size = packed_size,
                       me_unpacked_size = unpacked_size, me_layout = layout, me_schema = namespaced_schema\<rparr> st)))))
      | _ \<Rightarrow> None)"

section \<open>Writing a value\<close>

definition quoted :: "string \<Rightarrow> string" where
  "quoted s = [CHR 0x22] @ s @ [CHR 0x22]"

definition sub_column :: "string \<Rightarrow> string \<Rightarrow> string" where
  "sub_column prefix name = (if prefix = [] then name else prefix @ ''.'' @ name)"

definition lift_primitive :: "('a, ('ce, 'ue) primitive_error) result \<Rightarrow> ('a, ('e, 'ce, 'ue) sql_error) result" where
  "lift_primitive r = (case r of Inl e \<Rightarrow> Err (PrimitiveErr e) | Inr a \<Rightarrow> Ok a)"

lemma size_enumerate [termination_simp]: "(i, t) \<in> set (enumerate n ts) \<Longrightarrow> size t < Suc (size_list size ts)" for t :: ty
  by (rule size_in_list) (auto simp: in_set_enumerate_eq)

text \<open>The vectors of columns and of arguments grow together, a column with its argument.\<close>

fun collect_members ::
  "('ba, 'ce, 'ue, 'e, 'lay) sql_env \<Rightarrow> string \<Rightarrow> ty \<Rightarrow>
    ((string \<times> argument) list, ('e, 'ce, 'ue) sql_error) result option" where
  "collect_members E prefix (Ty_Struct s) =
     extend_all (map (\<lambda>m. collect_members E (sub_column prefix (member_name m)) (member_ty m)) (children s))"
| "collect_members E prefix (Ty_Enum e) =
     (case enum_to_sql_value e of
        None \<Rightarrow> None
      | Some sql_value \<Rightarrow>
          extend_all
            [Some (Ok [(quoted prefix, Arg_String sql_value)]),
             (case chosen e of
                None \<Rightarrow> Some (Ok [])
              | Some i \<Rightarrow>
                  if unat i < length (options e)
                  then let opt = options e ! unat i in
                    if option_ty opt = Ty_Tuple [] then Some (Ok [])
                    else collect_members E (prefix @ ''.'' @ option_name opt) (option_ty opt)
                  else None)])"
| "collect_members E prefix (Ty_Tuple t) =
     extend_all (map (\<lambda>(idx, member). collect_members E (sub_column prefix (dec_string idx)) member) (enumerate 0 t))"
| "collect_members E prefix (Ty_Array items) =
     Some (and_then (lift_primitive (collect_ok (map (ty_to_json (json_texts_of E)) items))) (\<lambda>values.
       map_ok (\<lambda>s. [(quoted prefix, Arg_String s)]) (from_library (json_list_to_string E values))))"
| "collect_members E prefix (Ty_Primitive p) =
     Some (Ok [(quoted prefix, Arg_String (to_sql_value (fst (primitive_texts E)) (snd (primitive_texts E)) p))])"
| "collect_members E prefix (Ty_ByteArray b) = Some (Ok [(quoted prefix, Arg_String b)])"

fun trim_start_matches :: "nat \<Rightarrow> string \<Rightarrow> string \<Rightarrow> string" where
  "trim_start_matches 0 pat s = s"
| "trim_start_matches (Suc n) pat s =
     (if pat \<noteq> [] \<and> take (length pat) s = pat then trim_start_matches n pat (drop (length pat) s) else s)"

definition starts_with :: "string \<Rightarrow> string \<Rightarrow> bool" where
  "starts_with pat s \<longleftrightarrow> take (length pat) s = pat"

definition set_entity_model ::
  "('ba, 'ce, 'ue, 'e, 'lay) sql_env \<Rightarrow> string \<Rightarrow> string \<Rightarrow> string \<Rightarrow> ty \<Rightarrow> u64 \<Rightarrow>
    ('call, 'lay) sql_state \<Rightarrow> ('call, 'lay, 'e, 'ce, 'ue) sql_run" where
  "set_entity_model E model_name event_id entity_id entity block_timestamp st =
     (case time_of E block_timestamp of
        None \<Rightarrow> None
      | Some executed_at \<Rightarrow>
          (case collect_members E [] entity of
             None \<Rightarrow> None
           | Some (Inl e) \<Rightarrow> Some (Err e, st)
           | Some (Inr members) \<Rightarrow>
               let columns =
                     [''internal_id'', ''internal_event_id'', ''internal_executed_at'', ''internal_updated_at'',
                      if starts_with ''event:'' entity_id then ''internal_event_message_id'' else ''internal_entity_id''] @
                     map fst members;
                   args =
                     [Arg_String entity_id, Arg_String event_id, Arg_String executed_at, Arg_String (time_now E),
                      Arg_String (trim_start_matches (length entity_id) ''event:'' entity_id)] @ map snd members in
               sql_send (query_other
                 (''INSERT INTO ['' @ model_name @ ''] ('' @ join '','' columns @ '') VALUES ('' @
                  join '','' (map (\<lambda>_. ''?'') args) @ '') ON CONFLICT(internal_id) DO UPDATE SET '' @
                  join '', '' (map (\<lambda>col. col @ ''=excluded.'' @ col) (tl columns)))
                 args) st))"

definition set_entity ::
  "('ba, 'ce, 'ue, 'e, 'lay) sql_env \<Rightarrow> ty \<Rightarrow> string \<Rightarrow> u64 \<Rightarrow> felt \<Rightarrow> felt \<Rightarrow> string option \<Rightarrow>
    ('call, 'lay) sql_state \<Rightarrow> ('call, 'lay, 'e, 'ce, 'ue) sql_run" where
  "set_entity E entity event_id block_timestamp entity_felt model_felt keys_str st =
     (case time_of E block_timestamp of
        None \<Rightarrow> None
      | Some executed_at \<Rightarrow>
          let namespaced_name = ty_name entity;
              entity_id = text_of_felt E entity_felt;
              model_id = text_of_felt E model_felt;
              insert_entities =
                (if keys_str \<noteq> None
                 then ''INSERT INTO entities (id, event_id, executed_at, keys) VALUES (?, ?, ?, ?) ON CONFLICT(id) DO UPDATE SET updated_at=CURRENT_TIMESTAMP, executed_at=EXCLUDED.executed_at, event_id=EXCLUDED.event_id, keys=EXCLUDED.keys RETURNING *''
                 else ''INSERT INTO entities (id, event_id, executed_at) VALUES (?, ?, ?) ON CONFLICT(id) DO UPDATE SET updated_at=CURRENT_TIMESTAMP, executed_at=EXCLUDED.executed_at, event_id=EXCLUDED.event_id RETURNING *'');
              args = [Arg_String entity_id, Arg_String event_id, Arg_String executed_at] @
                (case keys_str of None \<Rightarrow> [] | Some keys \<Rightarrow> [Arg_String keys]) in
          bind_run (sql_send (query_new insert_entities args (SetEntity
            \<lparr>eq_entity_id = entity_id, eq_model_id = model_id, eq_keys = keys_str, eq_event_id = event_id,
             eq_timestamp = executed_at, eq_historical = namespaced_name \<in> historical_models (sql_cfg st),
             eq_ty = entity\<rparr>)) st) (\<lambda>st.
          bind_run (sql_send (query_other
            ''INSERT INTO entity_model (entity_id, model_id) VALUES (?, ?) ON CONFLICT(entity_id, model_id) DO NOTHING''
            [Arg_String entity_id, Arg_String model_id]) st) (\<lambda>st.
          set_entity_model E namespaced_name event_id entity_id entity block_timestamp st)))"

definition member_serialize ::
  "('ba, 'ce, 'ue) byte_array_lib \<Rightarrow> member \<Rightarrow> (felt list, ('ce, 'ue) primitive_error) result option" where
  "member_serialize lib m = ty_serialize lib (member_ty m)"

definition set_event_message ::
  "('ba, 'ce, 'ue, 'e, 'lay) sql_env \<Rightarrow> ty \<Rightarrow> string \<Rightarrow> u64 \<Rightarrow>
    ('call, 'lay) sql_state \<Rightarrow> ('call, 'lay, 'e, 'ce, 'ue) sql_run" where
  "set_event_message E entity event_id block_timestamp st =
     (case entity of
        Ty_Struct s \<Rightarrow>
          (case extend_all (map (member_serialize (byte_array_ops E)) (struct_keys s)) of
             None \<Rightarrow> None
           | Some (Inl e) \<Rightarrow> Some (Err (PrimitiveErr e), st)
           | Some (Inr keys) \<Rightarrow>
               Option.bind (split_once (CHR ''-'') (ty_name entity)) (\<lambda>(model_namespace, model_name).
               Option.bind (compute_selector_from_names (naming_of E) model_namespace model_name) (\<lambda>selector.
               Option.bind (time_of E block_timestamp) (\<lambda>timestamp_str.
               let namespaced_name = ty_name entity;
                   entity_id = text_of_felt E (hash_many E keys);
                   model_id = text_of_felt E selector;
                   keys_str = join ''/'' (map (text_of_felt E) keys) @ ''/'' in
               bind_run (sql_send (query_new
                 ''INSERT INTO event_messages (id, keys, event_id, executed_at) VALUES (?, ?, ?, ?) ON CONFLICT(id) DO UPDATE SET updated_at=CURRENT_TIMESTAMP, executed_at=EXCLUDED.executed_at, event_id=EXCLUDED.event_id RETURNING *''
                 [Arg_String entity_id, Arg_String keys_str, Arg_String event_id, Arg_String timestamp_str]
                 (EventMessageQ
                   \<lparr>em_entity_id = entity_id, em_model_id = model_id, em_keys = keys_str, em_event_id = event_id,
                    em_timestamp = timestamp_str, em_historical = namespaced_name \<in> historical_models (sql_cfg st),
                    em_ty = entity\<rparr>)) st) (\<lambda>st.
               set_entity_model E namespaced_name event_id (''event:'' @ entity_id) entity block_timestamp st)))))
      | _ \<Rightarrow> Some (Err (Message ''Entity is not a struct''), st))"

definition delete_entity ::
  "('ba, 'ce, 'ue, 'e, 'lay) sql_env \<Rightarrow> felt \<Rightarrow> felt \<Rightarrow> ty \<Rightarrow> string \<Rightarrow> u64 \<Rightarrow>
    ('call, 'lay) sql_state \<Rightarrow> ('call, 'lay, 'e, 'ce, 'ue) sql_run" where
  "delete_entity E entity_felt model_felt entity event_id block_timestamp st =
     (case time_of E block_timestamp of
        None \<Rightarrow> None
      | Some timestamp_str \<Rightarrow>
          let entity_id = text_of_felt E entity_felt; model_id = text_of_felt E model_felt in
          sql_send (query_new (''DELETE FROM ['' @ ty_name entity @ ''] WHERE internal_id = ?'') [Arg_String entity_id]
            (DeleteEntity \<lparr>del_entity_id = entity_id, del_model_id = model_id, del_event_id = event_id,
               del_timestamp = timestamp_str, del_ty = entity\<rparr>)) st)"

section \<open>The columns written are the columns declared\<close>

text \<open>The members and options of a schema have names.\<close>

fun names_ok :: "ty \<Rightarrow> bool" where
  "names_ok (Ty_Struct s) = (\<forall>m \<in> set (children s). member_name m \<noteq> [] \<and> names_ok (member_ty m))"
| "names_ok (Ty_Enum e) = (\<forall>opt \<in> set (options e). option_name opt \<noteq> [] \<and> names_ok (option_ty opt))"
| "names_ok (Ty_Tuple ts) = (\<forall>t \<in> set ts. names_ok t)"
| "names_ok _ = True"

definition declares :: "columns \<Rightarrow> string \<Rightarrow> bool" where
  "declares cs col \<longleftrightarrow> (\<exists>name ty. col = quoted name \<and> ''['' @ name @ ''] '' @ ty \<in> set (fst cs))"

lemma declares_cat3: "c \<in> set rs \<Longrightarrow> declares c col \<Longrightarrow> declares (cat3 rs) col"
  by (auto simp: declares_def cat3_def)

lemma declares_add_column: "declares (add_column cfg table_id False is_key name ty) (quoted name)"
  unfolding declares_def add_column_def by (rule exI [of _ name], rule exI [of _ ty]) simp

lemma extend_all_mem:
  "extend_all rs = Some (Ok ys) \<Longrightarrow> y \<in> set ys \<Longrightarrow> \<exists>zs. Some (Ok zs) \<in> set rs \<and> y \<in> set zs"
proof (induction rs arbitrary: ys)
  case (Cons r rs)
  then obtain a b where r: "r = Some (Ok a)" "extend_all rs = Some (Ok b)" "ys = a @ b"
    unfolding extend_all_Cons_Ok by blast
  show ?case
  proof (cases "y \<in> set a")
    case False
    with Cons.prems r have "y \<in> set b" by simp
    with Cons.IH [OF r(2)] show ?thesis by auto
  qed (use r in auto)
qed simp

lemma join_snoc: "xs \<noteq> [] \<Longrightarrow> join sep (xs @ [x]) = join sep xs @ sep @ x"
  by (induction sep xs rule: join.induct) auto

definition proper_path :: "string list \<Rightarrow> bool" where
  "proper_path path \<longleftrightarrow> length path = 1 \<or> (1 < length path \<and> column_prefix path \<noteq> [])"

lemma column_prefix_snoc:
  assumes "proper_path path" "name \<noteq> []"
  shows "column_prefix (path @ [name]) = sub_column (column_prefix path) name" "proper_path (path @ [name])"
    "column_prefix (path @ [name]) \<noteq> []"
proof -
  obtain p ps where path: "path = p # ps" using assms(1) by (cases path) (auto simp: proper_path_def)
  have *: "column_prefix (path @ [name]) = sub_column (column_prefix path) name"
    using assms by (cases "ps = []") (auto simp: path proper_path_def column_prefix_def sub_column_def join_snoc)
  then show "column_prefix (path @ [name]) = sub_column (column_prefix path) name" .
  show "column_prefix (path @ [name]) \<noteq> []" using assms(2) by (simp add: * sub_column_def)
  then show "proper_path (path @ [name])" by (simp add: proper_path_def path)
qed

lemma columns_declared:
  fixes E :: "('ba, 'ce, 'ue, 'e, 'lay) sql_env"
  shows "fills t v \<Longrightarrow> names_ok t \<Longrightarrow> proper_path path \<Longrightarrow> column_prefix path \<noteq> [] \<or> as_struct t \<noteq> None \<Longrightarrow>
    collect_members E (column_prefix path) v = Some (Ok ms) \<Longrightarrow> (col, arg) \<in> set ms \<Longrightarrow>
    declares (add_columns_recursive cfg table_id path t None is_key) col"
proof (induction arbitrary: path ms is_key rule: fills.induct)
  case (fills_primitive p q)
  then show ?case by (auto simp: Let_def name_or_def declares_add_column)
next
  case (fills_struct mems mems' n)
  from extend_all_mem [OF fills_struct.prems(4) [unfolded collect_members.simps] fills_struct.prems(5)]
  obtain m' zs where m': "m' \<in> set mems'" and zs: "(col, arg) \<in> set zs"
    "collect_members E (sub_column (column_prefix path) (member_name m')) (member_ty m') = Some (Ok zs)"
    by auto
  obtain i where i: "i < length mems'" "m' = mems' ! i" using m' by (metis in_set_conv_nth)
  let ?m = "mems ! i"
  have m: "?m \<in> set mems" "member_name ?m = member_name m'"
    and IH: "\<And>path ms is_key. names_ok (member_ty ?m) \<Longrightarrow> proper_path path \<Longrightarrow> column_prefix path \<noteq> [] \<or> as_struct (member_ty ?m) \<noteq> None \<Longrightarrow>
      collect_members E (column_prefix path) (member_ty m') = Some (Ok ms) \<Longrightarrow> (col, arg) \<in> set ms \<Longrightarrow>
      declares (add_columns_recursive cfg table_id path (member_ty ?m) None is_key) col"
    using fills_struct.IH i by (auto simp: list_all2_conv_all_nth)
  have name: "member_name ?m \<noteq> []" "names_ok (member_ty ?m)" using fills_struct.prems(1) m(1) by auto
  note p = column_prefix_snoc [OF fills_struct.prems(2) name(1)]
  have "declares (add_columns_recursive cfg table_id (path @ [member_name ?m]) (member_ty ?m) None (member_key ?m)) col"
    by (rule IH) (use name p zs m(2) in auto)
  then show ?case
    by (auto simp: member_diff_def intro!: declares_cat3 [rotated] image_eqI [OF _ m(1)])
next
  case (fills_enum os os' n c c')
  have prefix: "column_prefix path \<noteq> []" using fills_enum.prems(3) by simp
  let ?head = "add_column cfg table_id False is_key (column_prefix path) (option_check (column_prefix path) (Enum n c os))"
  let ?rest = "map (\<lambda>child. if option_ty child = Ty_Tuple [] then cat3 []
      else add_columns_recursive cfg table_id (path @ [option_name child]) (option_ty child) None is_key) os"
  have cols: "add_columns_recursive cfg table_id path (Ty_Enum (Enum n c os)) None is_key = cat3 (?head # ?rest)"
    using prefix by (simp add: Let_def name_or_def option_diff_def)
  from fills_enum.prems(4) obtain sql_value where sv: "enum_to_sql_value (Enum n c' os') = Some sql_value"
    by (cases "enum_to_sql_value (Enum n c' os')") simp_all
  have rest: "extend_all
      [Some (Ok [(quoted (column_prefix path), Arg_String sql_value)]),
       (case c' of None \<Rightarrow> Some (Ok [])
        | Some i \<Rightarrow> if unat i < length os'
            then let opt = os' ! unat i in
              if option_ty opt = Ty_Tuple [] then Some (Ok [])
              else collect_members E (column_prefix path @ ''.'' @ option_name opt) (option_ty opt)
            else None)] = Some (Ok ms)"
    using fills_enum.prems(4) by (simp only: collect_members.simps sv option.case enum.sel)
  from extend_all_mem [OF rest fills_enum.prems(5)] consider
      (head) "col = quoted (column_prefix path)"
    | (payload) i zs where "i < length os'" "option_ty (os' ! i) \<noteq> Ty_Tuple []" "(col, arg) \<in> set zs"
        "collect_members E (column_prefix path @ ''.'' @ option_name (os' ! i)) (option_ty (os' ! i)) = Some (Ok zs)"
    by (auto simp: Let_def split: option.splits if_splits)
  then show ?case
  proof cases
    case head
    then show ?thesis unfolding cols by (auto intro: declares_cat3 [of ?head] declares_add_column)
  next
    case payload
    have o: "os ! i \<in> set os" "option_name (os ! i) = option_name (os' ! i)" "fills (option_ty (os ! i)) (option_ty (os' ! i))"
      and IH: "\<And>path ms is_key. names_ok (option_ty (os ! i)) \<Longrightarrow> proper_path path \<Longrightarrow>
        column_prefix path \<noteq> [] \<or> as_struct (option_ty (os ! i)) \<noteq> None \<Longrightarrow>
        collect_members E (column_prefix path) (option_ty (os' ! i)) = Some (Ok ms) \<Longrightarrow> (col, arg) \<in> set ms \<Longrightarrow>
        declares (add_columns_recursive cfg table_id path (option_ty (os ! i)) None is_key) col"
      using fills_enum.IH payload(1) by (auto simp: list_all2_conv_all_nth)
    have name: "option_name (os ! i) \<noteq> []" "names_ok (option_ty (os ! i))" using fills_enum.prems(1) o(1) by auto
    note p = column_prefix_snoc [OF fills_enum.prems(2) name(1)]
    have "option_ty (os ! i) \<noteq> Ty_Tuple []" using o(3) payload(2) by (auto simp: fills_simps)
    moreover have "declares (add_columns_recursive cfg table_id (path @ [option_name (os ! i)]) (option_ty (os ! i)) None is_key) col"
      by (rule IH) (use name p payload o(2) prefix in \<open>auto simp: sub_column_def\<close>)
    ultimately show ?thesis unfolding cols using o(1)
      by (intro declares_cat3 [of "add_columns_recursive cfg table_id (path @ [option_name (os ! i)]) (option_ty (os ! i)) None is_key"])
        (auto intro!: image_eqI [of _ _ "os ! i"])
  qed
next
  case (fills_tuple ts ts')
  have prefix: "column_prefix path \<noteq> []" using fills_tuple.prems(3) by simp
  from extend_all_mem [OF fills_tuple.prems(4) [unfolded collect_members.simps] fills_tuple.prems(5)]
  obtain i zs where i: "i < length ts'" and zs: "(col, arg) \<in> set zs"
    "collect_members E (sub_column (column_prefix path) (dec_string i)) (ts' ! i) = Some (Ok zs)"
    by (auto simp: in_set_enumerate_eq)
  have t: "ts ! i \<in> set ts" "i < length ts"
    and IH: "\<And>path ms is_key. names_ok (ts ! i) \<Longrightarrow> proper_path path \<Longrightarrow> column_prefix path \<noteq> [] \<or> as_struct (ts ! i) \<noteq> None \<Longrightarrow>
      collect_members E (column_prefix path) (ts' ! i) = Some (Ok ms) \<Longrightarrow> (col, arg) \<in> set ms \<Longrightarrow>
      declares (add_columns_recursive cfg table_id path (ts ! i) None is_key) col"
    using fills_tuple.IH i by (auto simp: list_all2_conv_all_nth)
  note p = column_prefix_snoc [OF fills_tuple.prems(2) dec_string_neq_Nil [of i]]
  have "declares (add_columns_recursive cfg table_id (path @ [dec_string i]) (ts ! i) None is_key) col"
    by (rule IH) (use fills_tuple.prems(1) t p zs in auto)
  moreover have "(i, ts ! i, None) \<in> set (tuple_elements ts None)"
    using t(2) by (auto simp: tuple_elements_def in_set_enumerate_eq intro!: image_eqI [of _ _ "(i, ts ! i)"])
  ultimately show ?case by (auto intro!: declares_cat3 [rotated] image_eqI [rotated])
next
  case (fills_array t ts)
  then show ?case
    by (auto simp: and_then_Ok_iff map_ok_Ok_iff name_or_def declares_add_column)
next
  case (fills_byte_array a b)
  then show ?case by (auto simp: name_or_def declares_add_column)
qed

section \<open>Properties\<close>

text \<open>C18: Every column that is written for a value of a model is a column of the table made from its schema when the
  model was registered, for any nesting of structs, enums, tuples and arrays.\<close>

theorem entity_columns_declared:
  assumes "fills (Ty_Struct s) v" "names_ok (Ty_Struct s)" "collect_members E [] v = Some (Ok ms)" "(col, arg) \<in> set ms"
  shows "declares (add_columns_recursive cfg table_id [table_id] (Ty_Struct s) None False) col"
  using assms columns_declared [of "Ty_Struct s" v "[table_id]" E ms col arg cfg table_id False]
  by (simp add: proper_path_def column_prefix_def)

definition sample_sql_env :: "(string, unit, unit, unit, unit) sql_env" where
  "sample_sql_env =
     \<lparr>text_of_felt = (\<lambda>f. ''0x'' @ hex_string (nat_of_felt f)), time_of = (\<lambda>_. Some ''then''), time_now = ''now'',
      primitive_texts = (\<lambda>f. hex_064 (nat_of_felt f), \<lambda>w. hex_064 (unat w)),
      json_texts_of = decimal_texts, json_list_to_string = (\<lambda>_. Ok ''[]''), layout_to_string = (\<lambda>_. Ok ''layout''),
      schema_to_string = (\<lambda>t. Ok (ty_name t)), hash_many = (\<lambda>_. 0), byte_array_ops = short_texts\<rparr>"

theorem entity_columns_declared_witness:
  "let s = Struct ''M'' [Member ''pos'' (Ty_Tuple [Ty_Primitive (PBool None), Ty_ByteArray []]) False];
       v = Ty_Struct (Struct ''M'' [Member ''pos'' (Ty_Tuple [Ty_Primitive (PBool (Some True)), Ty_ByteArray ''x'']) False]) in
   collect_members sample_sql_env [] v =
     Some (Ok [(quoted ''pos.0'', Arg_String ''1''), (quoted ''pos.1'', Arg_String ''x'')]) \<and>
   declares (add_columns_recursive \<lparr>all_model_indices = False, model_indices = [], historical_models = {}\<rparr>
     ''ns-M'' [''ns-M''] (Ty_Struct s) None False) (quoted ''pos.1'')"
proof -
  have d: "dec_string 0 = ''0''" "dec_string 1 = ''1''" "dec_string (Suc 0) = ''1''"
    by code_simp+
  let ?s = "Struct ''M'' [Member ''pos'' (Ty_Tuple [Ty_Primitive (PBool None), Ty_ByteArray []]) False]"
  let ?v = "Ty_Struct (Struct ''M'' [Member ''pos'' (Ty_Tuple [Ty_Primitive (PBool (Some True)), Ty_ByteArray ''x'']) False])"
  have run: "collect_members sample_sql_env [] ?v =
     Some (Ok [(quoted ''pos.0'', Arg_String ''1''), (quoted ''pos.1'', Arg_String ''x'')])"
    by (simp add: sub_column_def d unwrap_or_default_def)
  have "fills (Ty_Struct ?s) ?v" "names_ok (Ty_Struct ?s)" by (simp_all add: fills_simps)
  from entity_columns_declared [OF this run, of "quoted ''pos.1''" "Arg_String ''x''"] run show ?thesis
    by (simp add: Let_def del: collect_members.simps add_columns_recursive.simps)
qed

end
