(* ===== verification/Ty_Diff.thy ===== *)
theory Ty_Diff
  imports Cairo_Ty
begin

text \<open>
  Differences between schemas (\<open>Ty::diff\<close> of \<open>dojo/types/src/schema.rs\<close>) and the two processors of the
  indexer that use them when a model or an event is upgraded
  (\<open>torii/indexer/src/processors/upgrade_model.rs\<close> and \<open>upgrade_event.rs\<close>).  \<open>None\<close> is a panic.  The
  database and the reader of the model on the chain are parameters of the processors.
\<close>

section \<open>Difference\<close>

text \<open>\<open>iter().filter_map().collect()\<close> with a function that may panic.\<close>

fun filter_map_run :: "('a \<Rightarrow> 'b option option) \<Rightarrow> 'a list \<Rightarrow> 'b list option" where
  "filter_map_run f [] = Some []"
| "filter_map_run f (x # xs) =
     (case f x of
        None \<Rightarrow> None
      | Some y \<Rightarrow> map_option (\<lambda>ys. case y of None \<Rightarrow> ys | Some z \<Rightarrow> z # ys) (filter_map_run f xs))"

lemma filter_map_run_cong [fundef_cong]:
  "xs = ys \<Longrightarrow> (\<And>y. y \<in> set ys \<Longrightarrow> f y = g y) \<Longrightarrow> filter_map_run f xs = filter_map_run g ys"
  by (induction ys arbitrary: xs) (auto split: option.split)

lemma size_zip_fst [termination_simp]: "(a, b) \<in> set (zip ts us) \<Longrightarrow> size a < Suc (size_list size ts)"
  by (rule size_in_list) (rule set_zip_leftD)

definition some_if_any :: "('a list \<Rightarrow> ty) \<Rightarrow> 'a list option \<Rightarrow> ty option option" where
  "some_if_any mk = map_option (\<lambda>xs. if xs = [] then None else Some (mk xs))"

fun ty_diff :: "ty \<Rightarrow> ty \<Rightarrow> ty option option" where
  "ty_diff (Ty_Struct s1) (Ty_Struct s2) =
     some_if_any (\<lambda>ms. Ty_Struct (Struct (struct_name s1) ms))
       (filter_map_run
          (\<lambda>m1. case find (\<lambda>m2. member_name m2 = member_name m1) (children s2) of
             Some m2 \<Rightarrow>
               map_option (map_option (\<lambda>t. Member (member_name m1) t (member_key m1)))
                 (ty_diff (member_ty m1) (member_ty m2))
           | None \<Rightarrow> Some (Some m1))
          (children s1))"
| "ty_diff (Ty_Enum e1) (Ty_Enum e2) =
     some_if_any (\<lambda>os. Ty_Enum (Enum (enum_name e1) (chosen e1) os))
       (filter_map_run
          (\<lambda>o1. case find (\<lambda>o2. option_name o2 = option_name o1) (options e2) of
             Some o2 \<Rightarrow>
               map_option (map_option (EnumOption (option_name o1))) (ty_diff (option_ty o1) (option_ty o2))
           | None \<Rightarrow> Some (Some o1))
          (options e1))"
| "ty_diff (Ty_Tuple t1) (Ty_Tuple t2) =
     (if length t1 \<noteq> length t2 then Some (Some (Ty_Tuple (filter (\<lambda>t. t \<notin> set t2) t1)))
      else some_if_any Ty_Tuple (filter_map_run (\<lambda>(a, b). ty_diff a b) (zip t1 t2)))"
| "ty_diff (Ty_Array a1) (Ty_Array a2) = Some (if a1 = a2 then None else Some (Ty_Array a1))"
| "ty_diff (Ty_ByteArray b1) (Ty_ByteArray b2) = Some (if b1 = b2 then None else Some (Ty_ByteArray b1))"
| "ty_diff (Ty_Primitive p1) (Ty_Primitive p2) = Some (if p1 = p2 then None else Some (Ty_Primitive p1))"
| "ty_diff _ _ = None"

section \<open>The upgrade of a model or an event\<close>

text \<open>What \<open>db.model\<close> returns of a model, and what the reader of the model on the chain answers.\<close>

record stored_model =
  sm_namespace :: string
  sm_name :: string
  sm_schema :: ty

record ('lay, 'e) model_reader =
  read_schema :: "(ty, 'e) result"
  read_layout :: "('lay, 'e) result"
  read_unpacked_size :: "(u32, 'e) result"
  read_packed_size :: "(u32, 'e) result"

text \<open>The arguments of \<open>register_model\<close>.\<close>

record 'lay registration =
  reg_namespace :: string
  reg_schema :: ty
  reg_layout :: 'lay
  reg_class_hash :: felt
  reg_address :: felt
  reg_packed_size :: u32
  reg_unpacked_size :: u32
  reg_timestamp :: u64
  reg_diff :: "ty option"

text \<open>The handlers, up to the call of \<open>register_model\<close>: \<open>Ok None\<close> returns without it.  The stored model is
  looked up by the selector of the event; an error of the lookup whose text contains ``no rows''
  is not an error of the handler.\<close>

definition upgrade_sizes_model :: "('lay, 'e) model_reader \<Rightarrow> (u32 \<times> u32, 'e) result" where
  "upgrade_sizes_model model =
     and_then (read_unpacked_size model) (\<lambda>unpacked_size.
       map_ok (\<lambda>packed_size. (packed_size, unpacked_size)) (read_packed_size model))"

definition upgrade_sizes_event :: "('lay, 'e) model_reader \<Rightarrow> (u32 \<times> u32, 'e) result" where
  "upgrade_sizes_event model = Ok (0, 0)"

definition upgrade_process ::
  "(('lay, 'e) model_reader \<Rightarrow> (u32 \<times> u32, 'e) result) \<Rightarrow> ('e \<Rightarrow> bool) \<Rightarrow> (stored_model, 'e) result \<Rightarrow>
    (string \<Rightarrow> string \<Rightarrow> ('lay, 'e) model_reader) \<Rightarrow> felt \<Rightarrow> felt \<Rightarrow> u64 \<Rightarrow>
    ('lay registration option, 'e) result option" where
  "upgrade_process sizes no_rows stored reader class_hash address block_timestamp =
     (case stored of
        Inl e \<Rightarrow> Some (if no_rows e then Ok None else Err e)
      | Inr m \<Rightarrow>
          let model = reader (sm_namespace m) (sm_name m) in
          (case read_schema model of
             Inl e \<Rightarrow> Some (Err e)
           | Inr new_schema \<Rightarrow>
               (case ty_diff (sm_schema m) new_schema of
                  None \<Rightarrow> None
                | Some None \<Rightarrow> Some (Ok None)
                | Some (Some schema_diff) \<Rightarrow>
                    Some (and_then (read_layout model) (\<lambda>layout.
                      map_ok (\<lambda>(packed_size, unpacked_size).
                        Some \<lparr>reg_namespace = sm_namespace m, reg_schema = new_schema, reg_layout = layout,
                          reg_class_hash = class_hash, reg_address = address,
                          reg_packed_size = packed_size, reg_unpacked_size = unpacked_size,
                          reg_timestamp = block_timestamp, reg_diff = Some schema_diff\<rparr>)
                        (sizes model))))))"

definition upgrade_model_process where
  "upgrade_model_process = upgrade_process upgrade_sizes_model"

definition upgrade_event_process where
  "upgrade_event_process = upgrade_process upgrade_sizes_event"

section \<open>A schema that contains another shows no difference\<close>

text \<open>\<open>t \<sqsubseteq> u\<close>: every named part of the one is a part of the other; names are not repeated.\<close>

inductive part_of :: "ty \<Rightarrow> ty \<Rightarrow> bool" where
  part_of_primitive: "part_of (Ty_Primitive p) (Ty_Primitive p)"
| part_of_byte_array: "part_of (Ty_ByteArray b) (Ty_ByteArray b)"
| part_of_array: "part_of (Ty_Array a) (Ty_Array a)"
| part_of_tuple: "list_all2 part_of ts us \<Longrightarrow> part_of (Ty_Tuple ts) (Ty_Tuple us)"
| part_of_struct:
    "(\<And>m. m \<in> set ms \<Longrightarrow> \<exists>m'. find (\<lambda>m'. member_name m' = member_name m) ms' = Some m' \<and>
        part_of (member_ty m) (member_ty m')) \<Longrightarrow>
     part_of (Ty_Struct (Struct n ms)) (Ty_Struct (Struct n' ms'))"
| part_of_enum:
    "(\<And>opt. opt \<in> set os \<Longrightarrow> \<exists>opt'. find (\<lambda>opt'. option_name opt' = option_name opt) os' = Some opt' \<and>
        part_of (option_ty opt) (option_ty opt')) \<Longrightarrow>
     part_of (Ty_Enum (Enum n c os)) (Ty_Enum (Enum n' c' os'))"

lemma filter_map_run_Nil_iff:
  "filter_map_run f xs = Some [] \<longleftrightarrow> (\<forall>x \<in> set xs. f x = Some None)"
  by (induction xs) (auto split: option.splits)

lemma some_if_any_None_iff: "some_if_any mk r = Some None \<longleftrightarrow> r = Some []"
  by (auto simp: some_if_any_def split: if_splits)

lemma zip_all2: "length xs = length ys \<Longrightarrow> (\<forall>p \<in> set (zip xs ys). P (fst p) (snd p)) \<longleftrightarrow> list_all2 P xs ys"
  by (auto simp: list_all2_iff)

inductive_simps part_of_simps:
  "part_of (Ty_Primitive p) u" "part_of (Ty_ByteArray b) u" "part_of (Ty_Array a) u"
  "part_of (Ty_Tuple ts) u" "part_of (Ty_Struct s) u" "part_of (Ty_Enum e) u"

lemma part_of_struct_iff:
  "part_of (Ty_Struct s) (Ty_Struct s') \<longleftrightarrow>
    (\<forall>m \<in> set (children s). \<exists>m'. find (\<lambda>m'. member_name m' = member_name m) (children s') = Some m' \<and>
        part_of (member_ty m) (member_ty m'))"
  by (cases s; cases s') (simp add: part_of_simps Ball_def)

lemma part_of_enum_iff:
  "part_of (Ty_Enum e) (Ty_Enum e') \<longleftrightarrow>
    (\<forall>opt \<in> set (options e). \<exists>opt'. find (\<lambda>opt'. option_name opt' = option_name opt) (options e') = Some opt' \<and>
        part_of (option_ty opt) (option_ty opt'))"
  by (cases e; cases e') (simp add: part_of_simps Ball_def)

lemma ty_diff_None_iff: "ty_diff t u = Some None \<longleftrightarrow> part_of t u"
proof (induction t u rule: ty_diff.induct)
  case (1 s1 s2)
  show ?case
    unfolding ty_diff.simps some_if_any_None_iff filter_map_run_Nil_iff part_of_struct_iff
    using 1 by (intro ball_cong refl) (auto split: option.split)
next
  case (2 e1 e2)
  show ?case
    unfolding ty_diff.simps some_if_any_None_iff filter_map_run_Nil_iff part_of_enum_iff
    using 2 by (intro ball_cong refl) (auto split: option.split)
next
  case (3 t1 t2)
  show ?case
  proof (cases "length t1 = length t2")
    case True
    then have "ty_diff (Ty_Tuple t1) (Ty_Tuple t2) = Some None \<longleftrightarrow> (\<forall>p \<in> set (zip t1 t2). part_of (fst p) (snd p))"
      using 3 by (fastforce simp: some_if_any_None_iff filter_map_run_Nil_iff)
    then show ?thesis using True by (simp add: zip_all2 part_of_simps)
  next
    case False
    then show ?thesis by (auto simp: part_of_simps dest: list_all2_lengthD)
  qed
qed (auto simp: part_of_simps)

lemma and_then_map_Some: "and_then r (\<lambda>a. map_ok (\<lambda>(b, c). Some (f a b c)) s) \<noteq> Ok None"
  by (cases r; cases s) auto

text \<open>C20: The handler of a model upgrade returns without registering anything exactly when the stored schema is
  a part of the new one.  The difference is taken from the stored to the new schema, so an upgrade
  that only adds members to a model or options to an enum is ignored.\<close>

theorem upgrade_ignored_iff_part:
  assumes "stored = Ok m" "read_schema (reader (sm_namespace m) (sm_name m)) = Ok new_schema"
  shows "upgrade_model_process no_rows stored reader class_hash address block_timestamp = Some (Ok None)
    \<longleftrightarrow> part_of (sm_schema m) new_schema"
proof -
  have "upgrade_model_process no_rows stored reader class_hash address block_timestamp = Some (Ok None)
      \<longleftrightarrow> ty_diff (sm_schema m) new_schema = Some None"
    using assms
    by (auto simp: upgrade_model_process_def upgrade_process_def Let_def and_then_map_Some split: option.splits)
  then show ?thesis by (simp add: ty_diff_None_iff)
qed

theorem upgrade_ignored_iff_part_witness:
  "upgrade_model_process (\<lambda>_. False)
     (Ok \<lparr>sm_namespace = ''ns'', sm_name = ''M'',
        sm_schema = Ty_Struct (Struct ''ns-M'' [Member ''x'' (Ty_Primitive (U8 None)) True])\<rparr> :: (stored_model, unit) result)
     (\<lambda>_ _. \<lparr>read_schema = Ok (Ty_Struct (Struct ''M'' [Member ''x'' (Ty_Primitive (U8 None)) True,
               Member ''added'' (Ty_Primitive (U8 None)) False])),
         read_layout = Ok (), read_unpacked_size = Ok 2, read_packed_size = Ok 2\<rparr>)
     1 0 5 = Some (Ok None)"
  by (rule iffD2 [OF upgrade_ignored_iff_part [where new_schema = "Ty_Struct (Struct ''M''
        [Member ''x'' (Ty_Primitive (U8 None)) True, Member ''added'' (Ty_Primitive (U8 None)) False])", OF refl]])
    (simp_all add: part_of_struct_iff part_of_simps(1))

text \<open>A change of kind at the same place is a panic, also in an upgrade.\<close>

lemma ty_diff_kind_panics: "ty_diff (Ty_Primitive p) (Ty_Struct s) = None"
  by simp

text \<open>Nothing differs from itself, as long as names are not repeated.\<close>

fun distinct_names :: "ty \<Rightarrow> bool" where
  "distinct_names (Ty_Struct s) =
     (distinct (map member_name (children s)) \<and> (\<forall>m \<in> set (children s). distinct_names (member_ty m)))"
| "distinct_names (Ty_Enum e) =
     (distinct (map option_name (options e)) \<and> (\<forall>opt \<in> set (options e). distinct_names (option_ty opt)))"
| "distinct_names (Ty_Tuple ts) = (\<forall>t \<in> set ts. distinct_names t)"
| "distinct_names _ = True"

lemma find_by_name: "distinct (map f xs) \<Longrightarrow> x \<in> set xs \<Longrightarrow> find (\<lambda>y. f y = f x) xs = Some x"
  by (induction xs) (auto simp: image_iff)

lemma part_of_refl: "distinct_names t \<Longrightarrow> part_of t t"
proof (induction t rule: ty_induct)
  case (Struct n ms)
  then show ?case by (auto simp: part_of_struct_iff find_by_name)
next
  case (Enum n c os)
  then show ?case by (auto simp: part_of_enum_iff find_by_name)
qed (auto simp: part_of_simps list_all2_same)

lemma ty_diff_self: "distinct_names t \<Longrightarrow> ty_diff t t = Some None"
  by (simp add: ty_diff_None_iff part_of_refl)

end
