(* ===== verification/Torii_Sql.thy ===== *)
theory Torii_Sql
  imports Model_Table Ty_Diff
begin

text \<open>
  The remaining operations of the database of the indexer (\<open>torii/sqlite/src/lib.rs\<close>), each a message
  or two to the executor, and what an upgrade does to the table of a model: the difference handed to
  \<open>register_model\<close> by the upgrade processors and the statements made from it.
\<close>

section \<open>Operations\<close>

text \<open>\<open>u64\<close> to \<open>i64\<close> with \<open>try_into\<close>.\<close>

definition to_i64 :: "u64 \<Rightarrow> 64 word option" where
  "to_i64 x = (if unat x < 2 ^ 63 then Some x else None)"

definition set_head ::
  "u64 \<Rightarrow> u64 \<Rightarrow> u64 \<Rightarrow> felt \<Rightarrow> ('call, 'lay) sql_state \<Rightarrow> ('call, 'lay, 'e, 'ce, 'ue) sql_run" where
  "set_head head last_block_timestamp world_txns_count contract st =
     (case to_i64 head of
        None \<Rightarrow> Some (Err (Message (''Head value '' @ dec_string (unat head) @ [CHR 0x20] @ ''doesn'' @ [CHR 0x27] @ ''t fit in i64'')), st)
      | Some h \<Rightarrow>
          (case to_i64 last_block_timestamp of
             None \<Rightarrow> Some (Err (Message (''Last block timestamp value '' @ dec_string (unat last_block_timestamp) @
                 [CHR 0x20] @ ''doesn'' @ [CHR 0x27] @ ''t fit in i64'')), st)
           | Some t \<Rightarrow>
               sql_send (query_new ''UPDATE contracts SET head = ?, last_block_timestamp = ? WHERE id = ?''
                 [Arg_Int h, Arg_Int t, Arg_Felt contract]
                 (SetHead \<lparr>sh_head = head, sh_timestamp = last_block_timestamp, sh_txns_count = world_txns_count,
                    sh_contract = contract\<rparr>)) st))"

definition felt_or_null :: "('ba, 'ce, 'ue, 'e, 'lay) sql_env \<Rightarrow> felt option \<Rightarrow> argument" where
  "felt_or_null E f = (case f of Some f \<Rightarrow> Arg_String (text_of_felt E f) | None \<Rightarrow> Arg_Null)"

definition set_last_pending_block_contract_tx ::
  "('ba, 'ce, 'ue, 'e, 'lay) sql_env \<Rightarrow> felt \<Rightarrow> felt option \<Rightarrow> ('call, 'lay) sql_state \<Rightarrow> ('call, 'lay, 'e, 'ce, 'ue) sql_run" where
  "set_last_pending_block_contract_tx E contract tx st =
     sql_send (query_other ''UPDATE contracts SET last_pending_block_contract_tx = ? WHERE id = ?''
       [felt_or_null E tx, Arg_Felt contract]) st"

definition set_last_pending_block_tx ::
  "('ba, 'ce, 'ue, 'e, 'lay) sql_env \<Rightarrow> felt option \<Rightarrow> ('call, 'lay) sql_state \<Rightarrow> ('call, 'lay, 'e, 'ce, 'ue) sql_run" where
  "set_last_pending_block_tx E tx st =
     sql_send (query_other ''UPDATE contracts SET last_pending_block_tx = ? WHERE 1=1'' [felt_or_null E tx]) st"

definition update_cursors ::
  "u64 \<Rightarrow> u64 \<Rightarrow> felt option \<Rightarrow> (felt \<Rightarrow> (felt \<times> u64) option) \<Rightarrow> ('call, 'lay) sql_state \<Rightarrow> ('call, 'lay, 'e, 'ce, 'ue) sql_run" where
  "update_cursors last_block_number last_block_timestamp last_pending_block_tx cursor_map st =
     sql_send (query_new [] [] (UpdateCursors
       \<lparr>uc_cursor_map = cursor_map, uc_block_number = last_block_number, uc_timestamp = last_block_timestamp,
        uc_pending_tx = last_pending_block_tx\<rparr>)) st"

definition set_metadata ::
  "('ba, 'ce, 'ue, 'e, 'lay) sql_env \<Rightarrow> felt \<Rightarrow> string \<Rightarrow> u64 \<Rightarrow> ('call, 'lay) sql_state \<Rightarrow> ('call, 'lay, 'e, 'ce, 'ue) sql_run" where
  "set_metadata E resource uri block_timestamp st =
     (case time_of E block_timestamp of
        None \<Rightarrow> None
      | Some executed_at \<Rightarrow>
          sql_send (query_other
            ''INSERT INTO metadata (id, uri, executed_at) VALUES (?, ?, ?) ON CONFLICT(id) DO UPDATE SET id=excluded.id, executed_at=excluded.executed_at, updated_at=CURRENT_TIMESTAMP''
            [Arg_Felt resource, Arg_String uri, Arg_String executed_at]) st)"

definition update_metadata ::
  "felt \<Rightarrow> string \<Rightarrow> string \<Rightarrow> string option \<Rightarrow> string option \<Rightarrow> ('call, 'lay) sql_state \<Rightarrow> ('call, 'lay, 'e, 'ce, 'ue) sql_run" where
  "update_metadata resource uri json icon_img cover_img st =
     (let update = [''uri=?'', ''json=?'', ''updated_at=CURRENT_TIMESTAMP''] @
            (if icon_img \<noteq> None then [''icon_img=?''] else []) @ (if cover_img \<noteq> None then [''cover_img=?''] else []);
          args = [Arg_String uri, Arg_String json] @
            map Arg_String (List.map_filter (\<lambda>x. x) [icon_img, cover_img]) @ [Arg_Felt resource] in
      sql_send (query_other (''UPDATE metadata SET '' @ join '','' update @ '' WHERE id = ?'') args) st)"

definition store_transaction ::
  "('ba, 'ce, 'ue, 'e, 'lay) sql_env \<Rightarrow> felt \<Rightarrow> felt \<Rightarrow> felt list \<Rightarrow> felt \<Rightarrow> felt list \<Rightarrow> felt \<Rightarrow> u64 \<Rightarrow> felt set \<Rightarrow> string \<Rightarrow>
    u64 \<Rightarrow> 'call list \<Rightarrow> ('call, 'lay) sql_state \<Rightarrow> ('call, 'lay, 'e, 'ce, 'ue) sql_run" where
  "store_transaction E transaction_hash sender calldata max_fee signature nonce block_number contract_addresses
     transaction_type block_timestamp calls st =
     (case time_of E block_timestamp of
        None \<Rightarrow> None
      | Some executed_at \<Rightarrow>
          sql_send (query_new
            ''INSERT OR IGNORE INTO transactions (id, transaction_hash, sender_address, calldata, max_fee, signature, nonce, transaction_type, executed_at, block_number) VALUES (?, ?, ?, ?, ?, ?, ?, ?, ?, ?) RETURNING *''
            [Arg_Felt transaction_hash, Arg_Felt transaction_hash, Arg_Felt sender,
             Arg_String (join ''/'' (map (text_of_felt E) calldata) @ ''/''), Arg_Felt max_fee,
             Arg_String (join ''/'' (map (text_of_felt E) signature) @ ''/''), Arg_Felt nonce,
             Arg_String transaction_type, Arg_String executed_at, Arg_String (dec_string (unat block_number))]
            (StoreTransaction contract_addresses calls)) st)"

definition store_event ::
  "('ba, 'ce, 'ue, 'e, 'lay) sql_env \<Rightarrow> string \<Rightarrow> felt list \<Rightarrow> felt list \<Rightarrow> felt \<Rightarrow> u64 \<Rightarrow>
    ('call, 'lay) sql_state \<Rightarrow> ('call, 'lay, 'e, 'ce, 'ue) sql_run" where
  "store_event E event_id keys data transaction_hash block_timestamp st =
     (case time_of E block_timestamp of
        None \<Rightarrow> None
      | Some executed_at \<Rightarrow>
          sql_send (query_new
            ''INSERT OR IGNORE INTO events (id, keys, data, transaction_hash, executed_at) VALUES (?, ?, ?, ?, ?) RETURNING *''
            [Arg_String event_id, Arg_String (join ''/'' (map (text_of_felt E) keys) @ ''/''),
             Arg_String (join ''/'' (map (text_of_felt E) data) @ ''/''), Arg_Felt transaction_hash, Arg_String executed_at]
            StoreEvent) st)"

definition INSERT_CONTROLLER :: string where
  "INSERT_CONTROLLER =
     join [newline]
       [[],
        ''            INSERT INTO controllers (id, username, address, deployed_at)'',
        ''            VALUES (?, ?, ?, ?)'',
        ''            ON CONFLICT(id) DO UPDATE SET'',
        ''                username=EXCLUDED.username,'',
        ''                address=EXCLUDED.address,'',
        ''                deployed_at=EXCLUDED.deployed_at'',
        ''            RETURNING *'']"

definition add_controller ::
  "('ba, 'ce, 'ue, 'e, 'lay) sql_env \<Rightarrow> string \<Rightarrow> string \<Rightarrow> u64 \<Rightarrow>
    ('call, 'lay) sql_state \<Rightarrow> ('call, 'lay, 'e, 'ce, 'ue) sql_run" where
  "add_controller E username address block_timestamp st =
     (case time_of E block_timestamp of
        None \<Rightarrow> None
      | Some deployed_at \<Rightarrow>
          sql_send (query_other INSERT_CONTROLLER
            [Arg_String username, Arg_String username, Arg_String address, Arg_String deployed_at]) st)"

text \<open>\<open>execute\<close>, \<open>flush\<close> and \<open>rollback\<close> send their message and wait for the answer of the executor.\<close>

definition send_and_wait ::
  "'call query_message \<Rightarrow> (unit, 'e) result \<Rightarrow> ('call, 'lay) sql_state \<Rightarrow> ('call, 'lay, 'e, 'ce, 'ue) sql_run" where
  "send_and_wait q answer st = bind_run (sql_send q st) (\<lambda>st. Some (from_library answer, st))"

definition sql_execute where "sql_execute answer st = send_and_wait query_execute answer st"

definition sql_flush where "sql_flush answer st = send_and_wait query_flush answer st"

definition sql_rollback where "sql_rollback answer st = send_and_wait query_rollback answer st"

section \<open>The cache of models\<close>

text \<open>A model is looked up in the cache and read from the database otherwise.\<close>

definition cached_model ::
  "(felt \<Rightarrow> ('lay model_entry, 'e) result) \<Rightarrow> felt \<Rightarrow> ('call, 'lay) sql_state \<Rightarrow>
    ('lay model_entry, 'e) result \<times> ('call, 'lay) sql_state" where
  "cached_model select_model selector st =
     (case model_cache st selector of
        Some m \<Rightarrow> (Ok m, st)
      | None \<Rightarrow>
          (case select_model selector of
             Inl e \<Rightarrow> (Err e, st)
           | Inr m \<Rightarrow> (Ok m, cache_model selector m st)))"

lemma register_model_cached:
  assumes "register_model E namespace model layout class_hash address packed_size unpacked_size ts diff st = Some (Ok (), st')"
  shows "\<exists>selector s. compute_selector_from_names (naming_of E) namespace (ty_name model) = Some selector \<and> model = Ty_Struct s \<and>
    (\<exists>m. cached_model select_model selector st' = (Ok m, st') \<and>
       me_schema m = Ty_Struct (Struct (get_tag namespace (ty_name model)) (children s)))"
  using assms
  by (cases model)
    (auto simp: register_model_def bind_run_def Let_def cache_model_def cached_model_def
      split: option.splits sum.splits prod.splits)

section \<open>Upgrades\<close>

lemma filter_map_run_mem:
  "filter_map_run f xs = Some ys \<Longrightarrow> y \<in> set ys \<Longrightarrow> \<exists>x \<in> set xs. f x = Some (Some y)"
  by (induction xs arbitrary: ys) (auto split: option.splits)

lemma ty_diff_struct_names:
  assumes "ty_diff (Ty_Struct prev) t = Some (Some d)"
  shows "\<exists>s. d = Ty_Struct s \<and> member_name ` set (children s) \<subseteq> member_name ` set (children prev)"
proof -
  obtain new where t: "t = Ty_Struct new" using assms by (cases t) simp_all
  from assms obtain ms where d: "d = Ty_Struct (Struct (struct_name prev) ms)" and
    "filter_map_run (\<lambda>m1. case find (\<lambda>m2. member_name m2 = member_name m1) (children new) of
        Some m2 \<Rightarrow> map_option (map_option (\<lambda>t. Member (member_name m1) t (member_key m1))) (ty_diff (member_ty m1) (member_ty m2))
      | None \<Rightarrow> Some (Some m1)) (children prev) = Some ms"
    by (auto simp: t some_if_any_def split: if_splits)
  from filter_map_run_mem [OF this(2)] have "member_name m \<in> member_name ` set (children prev)" if "m \<in> set ms" for m
    using that by (fastforce split: option.splits)
  with d show ?thesis by auto
qed

text \<open>C37: When the upgrade of a model is carried out, the statements are those of the schema reduced to the members
  the stored schema already had: a member that is new gets no column.\<close>

theorem upgrade_creates_no_column:
  assumes diff: "ty_diff (Ty_Struct prev) (Ty_Struct new) = Some (Some d)"
  shows "add_columns_recursive cfg table_id path (Ty_Struct new) (Some d) is_key =
    add_columns_recursive cfg table_id path
      (Ty_Struct (Struct (struct_name new) (filter (\<lambda>m. member_name m \<in> member_name ` set (children prev)) (children new))))
      (Some d) is_key"
proof -
  obtain s where d: "d = Ty_Struct s" and names: "member_name ` set (children s) \<subseteq> member_name ` set (children prev)"
    using ty_diff_struct_names [OF diff] by blast
  let ?f = "\<lambda>m. case member_diff (Some d) (member_name m) of
         None \<Rightarrow> cat3 []
       | Some e \<Rightarrow> add_columns_recursive cfg table_id (path @ [member_name m]) (member_ty m) e (member_key m)"
  have "?f m = cat3 []" if "member_name m \<notin> member_name ` set (children prev)" for m
  proof -
    have "find (\<lambda>m'. member_name m' = member_name m) (children s) = None"
      unfolding find_None_iff
    proof
      assume "\<exists>m'. m' \<in> set (children s) \<and> member_name m' = member_name m"
      then have "member_name m \<in> member_name ` set (children s)" by (metis image_eqI)
      with that names show False by blast
    qed
    then show ?thesis by (simp add: member_diff_def d)
  qed
  then have "cat3 (map ?f ms) = cat3 (map ?f (filter (\<lambda>m. member_name m \<in> member_name ` set (children prev)) ms))" for ms
    by (induction ms) (auto simp: cat3_def)
  then show ?thesis by simp
qed
theorem upgrade_creates_no_column_witness:
  "let prev = Struct ''M'' [Member ''x'' (Ty_Primitive (U8 None)) False];
       new = Struct ''M'' [Member ''x'' (Ty_Primitive (U16 None)) False, Member ''added'' (Ty_Primitive (U8 None)) False];
       d = Ty_Struct (Struct ''M'' [Member ''x'' (Ty_Primitive (U8 None)) False]);
       cfg = \<lparr>all_model_indices = False, model_indices = [], historical_models = {}\<rparr> in
   ty_diff (Ty_Struct prev) (Ty_Struct new) = Some (Some d) \<and>
   add_columns_recursive cfg ''M'' [''M''] (Ty_Struct new) (Some d) False =
   add_columns_recursive cfg ''M'' [''M'']
     (Ty_Struct (Struct ''M'' [Member ''x'' (Ty_Primitive (U16 None)) False])) (Some d) False"
proof -
  let ?prev = "Struct ''M'' [Member ''x'' (Ty_Primitive (U8 None)) False]"
  let ?new = "Struct ''M'' [Member ''x'' (Ty_Primitive (U16 None)) False, Member ''added'' (Ty_Primitive (U8 None)) False]"
  let ?d = "Ty_Struct (Struct ''M'' [Member ''x'' (Ty_Primitive (U8 None)) False])"
  have diff: "ty_diff (Ty_Struct ?prev) (Ty_Struct ?new) = Some (Some ?d)" by (simp add: some_if_any_def)
  from upgrade_creates_no_column [OF diff] diff show ?thesis
    by (simp add: Let_def del: add_columns_recursive.simps)
qed

end
