(* ===== verification/Token_Ledger.thy ===== *)
theory Token_Ledger
  imports Token_Balance
begin

text \<open>
  The table of balances against a ledger: the balance of every account in every token after a
  sequence of transfers, each booked at once.  The indexer books into a cache and the executor
  applies what was cached, in batches and in any order; at the end both agree.
\<close>

section \<open>The ledger\<close>

datatype token = Fungible felt | Nft felt "256 word"

type_synonym ledger = "felt \<times> token \<Rightarrow> int"

datatype transfer_event = Transfer token felt felt "256 word" u64 string | Apply

definition withdraw :: "token \<Rightarrow> felt \<Rightarrow> 256 word \<Rightarrow> ledger \<Rightarrow> ledger" where
  "withdraw tok acct amount L = (if acct = 0 then L else L((acct, tok) := L (acct, tok) - uint amount))"

definition deposit :: "token \<Rightarrow> felt \<Rightarrow> 256 word \<Rightarrow> ledger \<Rightarrow> ledger" where
  "deposit tok acct amount L = (if acct = 0 then L else L((acct, tok) := L (acct, tok) + uint amount))"

fun book :: "transfer_event \<Rightarrow> ledger \<Rightarrow> ledger" where
  "book (Transfer tok sender receiver amount ts eid) L = deposit tok receiver amount (withdraw tok sender amount L)"
| "book Apply L = L"

definition ledger_ok :: "ledger \<Rightarrow> bool" where
  "ledger_ok L \<longleftrightarrow> (\<forall>k. 0 \<le> L k \<and> L k < 2 ^ 256)"

text \<open>A sender has what it sends, and no balance outgrows its type.\<close>

fun covered :: "transfer_event \<Rightarrow> ledger \<Rightarrow> bool" where
  "covered (Transfer tok sender receiver amount ts eid) L \<longleftrightarrow>
     (sender = 0 \<or> uint amount \<le> L (sender, tok)) \<and>
     (receiver = 0 \<or> withdraw tok sender amount L (receiver, tok) + uint amount < 2 ^ 256)"
| "covered Apply L = True"

fun all_covered :: "transfer_event list \<Rightarrow> ledger \<Rightarrow> bool" where
  "all_covered [] L = True"
| "all_covered (ev # evs) L \<longleftrightarrow> covered ev L \<and> all_covered evs (book ev L)"

section \<open>The indexer on the same events\<close>

fun step_event ::
  "('ba, 'ce, 'ue, 'e) erc_env \<Rightarrow> transfer_event \<Rightarrow> 'call erc_state \<Rightarrow>
    ((unit, ('e, 'ce, 'ue) sql_error) result \<times> 'call erc_state) option" where
  "step_event E (Transfer tok sender receiver amount ts eid) st =
     (case tok of
        Fungible contract \<Rightarrow> handle_erc20_transfer E contract sender receiver amount ts eid st
      | Nft contract token_id \<Rightarrow> handle_nft_transfer E contract sender receiver token_id amount ts eid st)"
| "step_event E Apply st = Some (apply_cache_diff st)"

fun run_events ::
  "('ba, 'ce, 'ue, 'e) erc_env \<Rightarrow> transfer_event list \<Rightarrow> 'call erc_state \<Rightarrow>
    ((unit, ('e, 'ce, 'ue) sql_error) result \<times> 'call erc_state) option" where
  "run_events E [] st = Some (Ok (), st)"
| "run_events E (ev # evs) st = bind_run (step_event E ev st) (run_events E evs)"

fun bal_key :: "('ba, 'ce, 'ue, 'e) erc_env \<Rightarrow> felt \<times> token \<Rightarrow> contract_type \<times> string" where
  "bal_key E (acct, Fungible contract) = (ERC20, felts_to_sql_string E [acct, contract])"
| "bal_key E (acct, Nft contract token_id) =
     (ERC721, felt_to_sql_string E acct @ ''/'' @ felt_and_u256_to_sql_string E contract token_id)"

text \<open>What is relied on of the environment.\<close>

definition env_ok :: "('ba, 'ce, 'ue, 'e) erc_env \<Rightarrow> bool" where
  "env_ok E \<longleftrightarrow>
     u256_ops_ok (ops E) \<and> inj (felt_text E) \<and>
     (\<forall>f. CHR ''/'' \<notin> set (felt_text E f) \<and> CHR '':'' \<notin> set (felt_text E f)) \<and>
     (\<forall>u. CHR ''/'' \<notin> set (u256_text E u) \<and> CHR '':'' \<notin> set (u256_text E u)) \<and>
     (\<forall>u. sql_string_to_u256 E (u256_text E u) = Some u) \<and>
     (\<forall>c. mset (map_iter E c) = mset c) \<and> flush_answer E = Ok ()"

fun event_ok :: "('ba, 'ce, 'ue, 'e) erc_env \<Rightarrow> transfer_event \<Rightarrow> bool" where
  "event_ok E (Transfer tok sender receiver amount ts eid) \<longleftrightarrow>
     rfc3339 E ts \<noteq> None \<and>
     (case tok of
        Fungible contract \<Rightarrow> (case erc20_metadata E contract of Some (Inr _) \<Rightarrow> True | _ \<Rightarrow> False)
      | Nft _ _ \<Rightarrow> True)"
| "event_ok E Apply = True"

definition balance_in :: "('ba, 'ce, 'ue, 'e) erc_env \<Rightarrow> balances \<Rightarrow> string \<Rightarrow> int option" where
  "balance_in E db key =
     (case db key of None \<Rightarrow> Some 0 | Some row \<Rightarrow> map_option uint (sql_string_to_u256 E (tb_balance row)))"

section \<open>The keys of balances\<close>

lemma split_on_pieces:
  "sep \<notin> set a \<Longrightarrow> split_on sep (a @ sep # rest) = a # split_on sep rest" "sep \<notin> set a \<Longrightarrow> split_on sep a = [a]"
  by (simp_all add: split_on_append split_on_no_sep)

lemma bal_key_pieces:
  assumes "env_ok E"
  shows "split_on (CHR ''/'') (snd (bal_key E (acct, Fungible contract))) = [felt_text E acct, felt_text E contract, []]"
    and "split_on (CHR ''/'') (snd (bal_key E (acct, Nft contract token_id))) =
      [felt_text E acct, felt_text E contract @ '':'' @ u256_text E token_id]"
    and "split_on (CHR '':'') (felt_text E contract @ '':'' @ u256_text E token_id) = [felt_text E contract, u256_text E token_id]"
  using assms
  by (simp_all add: env_ok_def felts_to_sql_string_def felt_to_sql_string_def felt_and_u256_to_sql_string_def
      split_on_pieces split_on_no_sep)

lemma bal_key_inj:
  assumes E: "env_ok E" and eq: "snd (bal_key E k) = snd (bal_key E k')"
  shows "k = k'"
proof -
  have u: "u = u'" if "u256_text E u = u256_text E u'" for u u'
    using E that unfolding env_ok_def by (metis option.inject)
  have f: "f = f'" if "felt_text E f = felt_text E f'" for f f'
    using E that unfolding env_ok_def by (simp add: inj_eq)
  obtain a t a' t' where k: "k = (a, t)" "k' = (a', t')" by (cases k; cases k')
  have "split_on (CHR ''/'') (snd (bal_key E (a, t))) = split_on (CHR ''/'') (snd (bal_key E (a', t')))"
    using eq k by simp
  then show ?thesis
  proof (cases t; cases t')
    fix c i c' i'
    assume t: "t = Nft c i" "t' = Nft c' i'"
      and eq: "split_on (CHR ''/'') (snd (bal_key E (a, t))) = split_on (CHR ''/'') (snd (bal_key E (a', t')))"
    then have *: "felt_text E a = felt_text E a'" "felt_text E c @ '':'' @ u256_text E i = felt_text E c' @ '':'' @ u256_text E i'"
      unfolding t bal_key_pieces [OF E] by simp_all
    from arg_cong [OF *(2), of "split_on (CHR '':'')"] have "felt_text E c = felt_text E c'" "u256_text E i = u256_text E i'"
      unfolding bal_key_pieces [OF E] by simp_all
    with * show ?thesis using k t by (auto dest: u f)
  qed (use k in \<open>auto simp: bal_key_pieces [OF E, simplified] dest: f\<close>)
qed

section \<open>Applying the cache\<close>

lemma helper_exact:
  assumes E: "env_ok E" and b: "balance_in E db key = Some b"
    and range: "0 \<le> b + int_of_i256 d" "b + int_of_i256 d < 2 ^ 256"
  shows "\<exists>db'. apply_balance_diff_helper E key account contract token_id d db = Some (Ok (), db') \<and>
    balance_in E db' key = Some (b + int_of_i256 d) \<and> (\<forall>key'. key' \<noteq> key \<longrightarrow> db' key' = db key')"
proof -
  have uops: "u256_ops_ok (ops E)" and decode: "\<And>u. sql_string_to_u256 E (u256_text E u) = Some u"
    using E by (simp_all add: env_ok_def)
  obtain w where w: "(case db key of None \<Rightarrow> Some 0 | Some row \<Rightarrow> sql_string_to_u256 E (tb_balance row)) = Some w"
    and b': "b = uint w"
    using b by (cases "db key") (auto simp: balance_in_def)
  obtain v where "(if is_negative d then if w < magnitude d then balance_of E contract account
        else map_option Ok (u256_sub (ops E) w (magnitude d))
      else map_option Ok (u256_add (ops E) w (magnitude d))) = Some (Ok v)" and v: "uint v = b + int_of_i256 d"
  proof (cases "is_negative d")
    case True
    then have "magnitude d \<le> w" using range b' by (simp add: int_of_i256_def word_le_def)
    then have "u256_sub (ops E) w (magnitude d) = Some (w - magnitude d)" "uint (w - magnitude d) = uint w - uint (magnitude d)"
      "\<not> w < magnitude d"
      using uops by (auto simp: u256_ops_ok_def uint_minus_simple_alt [symmetric])
    with True that [of "w - magnitude d"] b' show ?thesis by (simp add: int_of_i256_def)
  next
    case False
    then have "uint w + uint (magnitude d) < 2 ^ 256" using range b' by (simp add: int_of_i256_def)
    then have "u256_add (ops E) w (magnitude d) = Some (w + magnitude d)" "uint (w + magnitude d) = uint w + uint (magnitude d)"
      using uops by (auto simp: u256_ops_ok_def uint_plus_exact)
    with False that [of "w + magnitude d"] b' show ?thesis by (simp add: int_of_i256_def)
  qed
  with w show ?thesis by (auto simp: apply_balance_diff_helper_def balance_in_def decode)
qed

lemma entry_exact:
  assumes E: "env_ok E" and b: "balance_in E db (snd (bal_key E k)) = Some b"
    and range: "0 \<le> b + int_of_i256 d" "b + int_of_i256 d < 2 ^ 256"
  shows "\<exists>db'. apply_entry E (bal_key E k, d) db = Some (Ok (), db') \<and>
    balance_in E db' (snd (bal_key E k)) = Some (b + int_of_i256 d) \<and>
    (\<forall>k'. k' \<noteq> k \<longrightarrow> balance_in E db' (snd (bal_key E k')) = balance_in E db (snd (bal_key E k')))"
proof -
  obtain acct tok where k: "k = (acct, tok)" by (cases k)
  have "\<exists>a c t. apply_entry E (bal_key E k, d) db = apply_balance_diff_helper E (snd (bal_key E k)) a c t d db"
    using bal_key_pieces [OF E] by (cases tok) (auto simp: k apply_entry_def Let_def)
  then obtain db' where db': "apply_entry E (bal_key E k, d) db = Some (Ok (), db')"
    "balance_in E db' (snd (bal_key E k)) = Some (b + int_of_i256 d)" "\<forall>key'. key' \<noteq> snd (bal_key E k) \<longrightarrow> db' key' = db key'"
    using helper_exact [OF E b range] by metis
  moreover have "snd (bal_key E k') \<noteq> snd (bal_key E k)" if "k' \<noteq> k" for k'
    using bal_key_inj [OF E] that by metis
  ultimately show ?thesis by (auto simp: balance_in_def)
qed

lemma cache_get_Cons: "cache_get ((key, d) # c) key' = (if key' = key then d else cache_get c key')"
  by (simp add: cache_get_def)

lemma entries_exact:
  assumes E: "env_ok E"
  shows "distinct (map fst es) \<Longrightarrow> fst ` set es \<subseteq> range (bal_key E) \<Longrightarrow>
    (\<And>k. \<exists>b. balance_in E db (snd (bal_key E k)) = Some b \<and>
       0 \<le> b + int_of_i256 (cache_get es (bal_key E k)) \<and> b + int_of_i256 (cache_get es (bal_key E k)) < 2 ^ 256) \<Longrightarrow>
    \<exists>db'. apply_entries E es db = Some (Ok (), db') \<and>
      (\<forall>k. balance_in E db' (snd (bal_key E k)) =
         map_option (\<lambda>b. b + int_of_i256 (cache_get es (bal_key E k))) (balance_in E db (snd (bal_key E k))))"
proof (induction es arbitrary: db)
  case Nil
  then show ?case by (simp add: cache_get_def option.map_ident)
next
  case (Cons e es)
  obtain k d where e: "e = (bal_key E k, d)" using Cons.prems(2) by (cases e) auto
  obtain b where b: "balance_in E db (snd (bal_key E k)) = Some b" "0 \<le> b + int_of_i256 d" "b + int_of_i256 d < 2 ^ 256"
    using Cons.prems(3) [of k] by (auto simp: e cache_get_Cons)
  from entry_exact [OF E b] obtain db1 where db1: "apply_entry E e db = Some (Ok (), db1)"
    "balance_in E db1 (snd (bal_key E k)) = Some (b + int_of_i256 d)"
    "\<And>k'. k' \<noteq> k \<Longrightarrow> balance_in E db1 (snd (bal_key E k')) = balance_in E db (snd (bal_key E k'))"
    unfolding e by blast
  have fresh: "cache_get es (bal_key E k) = i256_default"
    using Cons.prems(1) by (auto simp: e cache_get_def image_iff dest: map_of_SomeD split: option.split)
  have other: "bal_key E k' \<noteq> bal_key E k" if "k' \<noteq> k" for k' using bal_key_inj [OF E] that by metis
  have "\<exists>db'. apply_entries E es db1 = Some (Ok (), db') \<and>
      (\<forall>k. balance_in E db' (snd (bal_key E k)) =
         map_option (\<lambda>b. b + int_of_i256 (cache_get es (bal_key E k))) (balance_in E db1 (snd (bal_key E k))))"
  proof (rule Cons.IH)
    show "\<exists>b. balance_in E db1 (snd (bal_key E k')) = Some b \<and>
       0 \<le> b + int_of_i256 (cache_get es (bal_key E k')) \<and> b + int_of_i256 (cache_get es (bal_key E k')) < 2 ^ 256" for k'
      using Cons.prems(3) [of k'] db1 b fresh other [of k'] by (cases "k' = k") (auto simp: e cache_get_Cons)
  qed (use Cons.prems in auto)
  then obtain db' where db': "apply_entries E es db1 = Some (Ok (), db')"
    "\<And>k. balance_in E db' (snd (bal_key E k)) =
         map_option (\<lambda>b. b + int_of_i256 (cache_get es (bal_key E k))) (balance_in E db1 (snd (bal_key E k)))"
    by blast
  have "balance_in E db' (snd (bal_key E k')) =
      map_option (\<lambda>b. b + int_of_i256 (cache_get (e # es) (bal_key E k'))) (balance_in E db (snd (bal_key E k')))" for k'
    using db' db1 b fresh other [of k'] by (cases "k' = k") (auto simp: e cache_get_Cons)
  with db1 db' show ?case by (auto simp: bind_run_def)
qed

section \<open>The invariant\<close>

text \<open>The balances in the table and the cache add up to the ledger.\<close>

definition cached :: "('ba, 'ce, 'ue, 'e) erc_env \<Rightarrow> balances \<Rightarrow> erc_cache \<Rightarrow> ledger \<Rightarrow> bool" where
  "cached E db c L \<longleftrightarrow>
     distinct (map fst c) \<and> fst ` set c \<subseteq> range (bal_key E) \<and> ledger_ok L \<and>
     (\<forall>k. balance_in E db (snd (bal_key E k)) = Some (L k - int_of_i256 (cache_get c (bal_key E k))))"

definition tracks :: "('ba, 'ce, 'ue, 'e) erc_env \<Rightarrow> 'call erc_state \<Rightarrow> ledger \<Rightarrow> bool" where
  "tracks E st L \<longleftrightarrow>
     \<not> closed (out st) \<and>
     (\<exists>db. handle_balance_messages E (sent (out st)) Map.empty = Some db \<and> cached E db (erc_cache st) L)"

lemma u256_bound: "uint (w :: 256 word) < 2 ^ 256"
  by (rule order.strict_trans2 [OF unsigned_less]) simp

lemma balance_in_range: "balance_in E db key = Some b \<Longrightarrow> 0 \<le> b \<and> b < 2 ^ 256"
  using u256_bound by (auto simp: balance_in_def split: option.splits)

lemma cache_get_update: "cache_get (AList.update key v c) key' = (if key' = key then v else cache_get c key')"
  by (simp add: cache_get_def update_conv' split: option.split)

lemma cached_update:
  assumes E: "env_ok E" and c: "cached E db c L"
    and f: "\<And>v. \<bar>int_of_i256 v + \<delta>\<bar> < 2 ^ 256 \<Longrightarrow> \<exists>v'. f v = Some v' \<and> int_of_i256 v' = int_of_i256 v + \<delta>"
    and range: "0 \<le> L k + \<delta>" "L k + \<delta> < 2 ^ 256"
  shows "\<exists>c'. cache_update f (bal_key E k) c = Some c' \<and> cached E db c' (L(k := L k + \<delta>))"
proof -
  let ?v = "cache_get c (bal_key E k)"
  have bal: "\<And>k. balance_in E db (snd (bal_key E k)) = Some (L k - int_of_i256 (cache_get c (bal_key E k)))"
    using c unfolding cached_def by blast
  have "\<bar>int_of_i256 ?v + \<delta>\<bar> < 2 ^ 256" using balance_in_range [OF bal [of k]] range by (simp add: abs_if)
  then obtain v' where v': "f ?v = Some v'" "int_of_i256 v' = int_of_i256 ?v + \<delta>" using f by blast
  have other: "bal_key E k' \<noteq> bal_key E k" if "k' \<noteq> k" for k' using bal_key_inj [OF E] that by metis
  have "cached E db (AList.update (bal_key E k) v' c) (L(k := L k + \<delta>))"
    using c v' range other
    by (auto simp: cached_def cache_get_update ledger_ok_def distinct_update dom_update)
  then show ?thesis using v' by (simp add: cache_update_def)
qed

lemma cached_transfer:
  assumes E: "env_ok E" and c: "cached E db c L" and cov: "covered (Transfer tok sender receiver amount ts eid) L"
  shows "\<exists>c'. cache_transfer (ops E) sender receiver (bal_key E (sender, tok)) (bal_key E (receiver, tok)) amount c = Some c' \<and>
    cached E db c' (book (Transfer tok sender receiver amount ts eid) L)"
proof -
  have uops: "u256_ops_ok (ops E)" using E by (simp add: env_ok_def)
  have amount: "0 \<le> uint amount" "uint amount < 2 ^ 256" using u256_bound [of amount] by simp_all
  have ok: "0 \<le> L k" "L k < 2 ^ 256" for k using c unfolding cached_def ledger_ok_def by blast+
  let ?L = "withdraw tok sender amount L"
  have "\<exists>c1. (if sender \<noteq> 0 then cache_update (\<lambda>v. i256_sub (ops E) v (i256_from amount)) (bal_key E (sender, tok)) c else Some c) = Some c1 \<and>
      cached E db c1 ?L"
  proof (cases "sender = 0")
    case False
    then have r: "0 \<le> L (sender, tok) + - uint amount" "L (sender, tok) + - uint amount < 2 ^ 256"
      using cov ok [of "(sender, tok)"] amount by (simp, linarith)
    have "\<exists>v'. i256_sub (ops E) v (i256_from amount) = Some v' \<and> int_of_i256 v' = int_of_i256 v + - uint amount"
      if "\<bar>int_of_i256 v + - uint amount\<bar> < 2 ^ 256" for v
      using i256_sub_exact [OF uops, of v "i256_from amount"] that by simp
    from cached_update [OF E c this r] False show ?thesis by (simp add: withdraw_def)
  qed (use c in \<open>simp add: withdraw_def\<close>)
  then obtain c1 where c1: "(if sender \<noteq> 0 then cache_update (\<lambda>v. i256_sub (ops E) v (i256_from amount)) (bal_key E (sender, tok)) c else Some c) = Some c1"
    "cached E db c1 ?L" by blast
  have "\<exists>c2. (if receiver \<noteq> 0 then cache_update (\<lambda>v. i256_add (ops E) v (i256_from amount)) (bal_key E (receiver, tok)) c1 else Some c1) = Some c2 \<and>
      cached E db c2 (deposit tok receiver amount ?L)"
  proof (cases "receiver = 0")
    case False
    have "0 \<le> ?L (receiver, tok)" using c1(2) unfolding cached_def ledger_ok_def by blast
    then have r: "0 \<le> ?L (receiver, tok) + uint amount" "?L (receiver, tok) + uint amount < 2 ^ 256"
      using False cov amount by (linarith, simp)
    have "\<exists>v'. i256_add (ops E) v (i256_from amount) = Some v' \<and> int_of_i256 v' = int_of_i256 v + uint amount"
      if "\<bar>int_of_i256 v + uint amount\<bar> < 2 ^ 256" for v
      using i256_add_exact [OF uops, of v "i256_from amount"] that by simp
    from cached_update [OF E c1(2) this r] False show ?thesis by (simp add: deposit_def)
  qed (use c1 in \<open>simp add: deposit_def\<close>)
  with c1(1) show ?thesis by (auto simp: cache_transfer_def simp del: bind_eq_Some_conv)
qed

lemma handle_balance_messages_append:
  "handle_balance_messages E (qs @ qs') db = Option.bind (handle_balance_messages E qs db) (handle_balance_messages E qs')"
  by (induction qs arbitrary: db) (simp_all split: Option.bind_split)

definition keeps_balances :: "'call query_message \<Rightarrow> bool" where
  "keeps_balances q \<longleftrightarrow> (case query_kind q of ApplyBalanceDiff _ \<Rightarrow> False | _ \<Rightarrow> True)"

lemma keeps_balances_handle: "keeps_balances q \<Longrightarrow> handle_balance_message E q db = Some db"
  by (simp add: keeps_balances_def split: query_type.splits)

lemma erc_send_open: "\<not> closed (out st) \<Longrightarrow> erc_send q st = (Ok (), st\<lparr>out := (out st)\<lparr>sent := sent (out st) @ [q]\<rparr>\<rparr>)"
  by (simp add: erc_send_def)

lemma tracks_send:
  assumes "tracks E st L" "keeps_balances q"
  shows "\<exists>st'. erc_send q st = (Ok (), st') \<and> tracks E st' L"
  using assms
  by (auto simp: tracks_def erc_send_open handle_balance_messages_append keeps_balances_handle
      simp del: handle_balance_message.simps)

lemma tracks_registry: "tracks E (st\<lparr>token_ids := ids\<rparr>) L = tracks E st L"
  by (simp add: tracks_def)

lemma tracks_apply:
  assumes E: "env_ok E" and t: "tracks E st L"
  shows "\<exists>st'. apply_cache_diff st = (Ok (), st') \<and> tracks E st' L \<and> erc_cache st' = []"
proof (cases "erc_cache st = []")
  case True
  with t show ?thesis by (simp add: apply_cache_diff_def)
next
  case False
  from t obtain db where db: "handle_balance_messages E (sent (out st)) Map.empty = Some db"
    "cached E db (erc_cache st) L" and op: "\<not> closed (out st)" by (auto simp: tracks_def)
  let ?es = "map_iter E (erc_cache st)"
  have perm: "mset ?es = mset (erc_cache st)" using E by (simp add: env_ok_def)
  have d: "distinct (map fst (erc_cache st))" using db(2) by (simp add: cached_def)
  have d': "distinct (map fst ?es)" using d perm by (metis mset_map mset_eq_imp_distinct_iff)
  have "map_of ?es = map_of (erc_cache st)"
    using map_of_inject_set [OF d' d] mset_eq_setD [OF perm] by simp
  then have get: "cache_get ?es = cache_get (erc_cache st)" by (auto simp: cache_get_def fun_eq_iff)
  have bal: "balance_in E db (snd (bal_key E k)) = Some (L k - int_of_i256 (cache_get (erc_cache st) (bal_key E k)))"
    and ok: "0 \<le> L k" "L k < 2 ^ 256" for k
    using db(2) unfolding cached_def ledger_ok_def by blast+
  have "\<exists>db'. apply_entries E ?es db = Some (Ok (), db') \<and>
      (\<forall>k. balance_in E db' (snd (bal_key E k)) =
         map_option (\<lambda>b. b + int_of_i256 (cache_get ?es (bal_key E k))) (balance_in E db (snd (bal_key E k))))"
  proof (rule entries_exact [OF E d'])
    show "fst ` set ?es \<subseteq> range (bal_key E)" using db(2) mset_eq_setD [OF perm] by (simp add: cached_def)
  qed (use bal ok get in simp)
  then obtain db' where db': "apply_entries E ?es db = Some (Ok (), db')"
    "\<And>k. balance_in E db' (snd (bal_key E k)) = Some (L k)"
    using bal get by auto
  have "cached E db' [] L" using db(2) db'(2) by (simp add: cached_def cache_get_def)
  then show ?thesis
    using False op db db'(1)
    by (simp add: apply_cache_diff_def erc_send_open tracks_def handle_balance_messages_append query_new_def
        apply_balance_diff_def)
qed

lemma tracks_finish:
  fixes E :: "('ba, 'ce, 'ue, 'e) erc_env"
  assumes E: "env_ok E" and t: "tracks E st L" and cov: "covered (Transfer tok sender receiver amount ts eid) L"
  shows "\<exists>st'. finish_transfer E (cache_transfer (ops E) sender receiver (bal_key E (sender, tok)) (bal_key E (receiver, tok))
      amount (erc_cache st)) st = Some (Ok (), st') \<and> tracks E st' (book (Transfer tok sender receiver amount ts eid) L)"
proof -
  from t obtain db where db: "handle_balance_messages E (sent (out st)) Map.empty = Some db"
    "cached E db (erc_cache st) L" and op: "\<not> closed (out st)" by (auto simp: tracks_def)
  obtain c' where c': "cache_transfer (ops E) sender receiver (bal_key E (sender, tok)) (bal_key E (receiver, tok))
      amount (erc_cache st) = Some c'" "cached E db c' (book (Transfer tok sender receiver amount ts eid) L)"
    using cached_transfer [OF E db(2) cov] by blast
  let ?st = "st\<lparr>erc_cache := c'\<rparr>"
  have t': "tracks E ?st (book (Transfer tok sender receiver amount ts eid) L)"
    using db op c' by (simp add: tracks_def)
  show ?thesis
  proof (cases "CACHE_LIMIT \<le> length c'")
    case False
    with c' t' show ?thesis by (simp add: finish_transfer_def Let_def del: book.simps)
  next
    case True
    obtain st1 where st1: "erc_send query_flush ?st = (Ok () :: (unit, ('e, 'ce, 'ue) sql_error) result, st1)"
      "tracks E st1 (book (Transfer tok sender receiver amount ts eid) L)"
      using tracks_send [OF t', of query_flush]
      by (auto simp: keeps_balances_def query_flush_def query_new_def simp del: book.simps)
    obtain st2 where "apply_cache_diff st1 = (Ok () :: (unit, ('e, 'ce, 'ue) sql_error) result, st2)"
      "tracks E st2 (book (Transfer tok sender receiver amount ts eid) L)"
      using tracks_apply [OF E st1(2)] by blast
    moreover have "flush_answer E = Ok ()" using E by (simp add: env_ok_def)
    ultimately show ?thesis using True c' st1
      by (auto simp: finish_transfer_def Let_def erc_flush_def bind_run_def simp del: book.simps)
  qed
qed

lemma tracks_register:
  assumes "tracks E st L"
  shows "tracks E (snd (try_register_token_id token_id st)) L"
  using assms by (simp add: try_register_token_id_def tracks_registry)

lemma tracks_store:
  assumes "tracks E st L" "rfc3339 E ts \<noteq> None"
  shows "\<exists>st'. store_erc_transfer_event E contract sender receiver amount token_id ts eid st = Some (Ok (), st') \<and> tracks E st' L"
  using assms
  by (auto simp: store_erc_transfer_event_def keeps_balances_def query_new_def intro!: tracks_send)

lemma tracks_metadata:
  assumes "tracks E st L" "event_ok E (Transfer (Fungible contract) sender receiver amount ts eid)"
  shows "\<exists>st'. register_erc20_token_metadata E contract token_id st = Some (Ok (), st') \<and> tracks E st' L"
  using assms
  by (auto simp: register_erc20_token_metadata_def keeps_balances_def query_new_def intro!: tracks_send
      split: option.splits sum.splits)

lemma tracks_nft_metadata:
  assumes "tracks E st L"
  shows "\<exists>st'. register_nft_token_metadata nid contract token_id st = Some (Ok (), st') \<and> tracks E st' L"
  using assms
  by (auto simp: register_nft_token_metadata_def keeps_balances_def query_new_def intro!: tracks_send)

lemma bind_run_Ok: "bind_run (Some (Inr x, s)) f = f s"
  by (simp add: bind_run_def)

text \<open>One transfer, for the registration of either kind of token.\<close>

lemma tracks_step:
  fixes E :: "('ba, 'ce, 'ue, 'e) erc_env"
  assumes E: "env_ok E" and t: "tracks E st L" and ev: "event_ok E ev" "covered ev L"
  shows "\<exists>st'. step_event E ev st = Some (Ok (), st') \<and> tracks E st' (book ev L)"
proof (cases ev)
  case Apply
  then show ?thesis using tracks_apply [OF E t] by auto
next
  case (Transfer tok sender receiver amount ts eid)
  have ts: "rfc3339 E ts \<noteq> None" using ev(1) Transfer by simp
  have rest: "\<exists>st'. bind_run (store_erc_transfer_event E contract sender receiver amount token_id ts eid st1)
        (\<lambda>st. finish_transfer E (cache_transfer (ops E) sender receiver (bal_key E (sender, tok)) (bal_key E (receiver, tok))
          amount (erc_cache st)) st) = Some (Ok (), st') \<and> tracks E st' (book ev L)"
    if t1: "tracks E st1 L" for st1 contract token_id
  proof -
    obtain st2 where "store_erc_transfer_event E contract sender receiver amount token_id ts eid st1 =
        Some (Ok () :: (unit, ('e, 'ce, 'ue) sql_error) result, st2)" "tracks E st2 L"
      using tracks_store [OF t1 ts] by blast
    then show ?thesis
      using tracks_finish [OF E, of st2 L tok sender receiver amount ts eid] ev(2) Transfer by (simp add: bind_run_Ok)
  qed
  show ?thesis
  proof (cases tok)
    case (Fungible contract)
    let ?tid = "felt_to_sql_string E contract"
    obtain fresh st0 where r: "try_register_token_id ?tid st = (fresh, st0)" by (cases "try_register_token_id ?tid st")
    then have "tracks E st0 L" using tracks_register [OF t, of ?tid] by simp
    then obtain st1 where st1: "(if fresh then register_erc20_token_metadata E contract ?tid st0 else Some (Ok (), st0)) =
        Some (Ok () :: (unit, ('e, 'ce, 'ue) sql_error) result, st1)" "tracks E st1 L"
      using tracks_metadata [of E st0 L contract sender receiver amount ts eid ?tid] ev(1) Transfer Fungible
      by (cases fresh) auto
    with r rest [OF st1(2), of contract ?tid] Transfer Fungible show ?thesis
      by (simp add: handle_erc20_transfer_def Let_def bind_run_Ok)
  next
    case (Nft contract token_id)
    let ?tid = "felt_and_u256_to_sql_string E contract token_id"
    obtain fresh st0 where r: "try_register_token_id ?tid st = (fresh, st0)" by (cases "try_register_token_id ?tid st")
    then have "tracks E st0 L" using tracks_register [OF t, of ?tid] by simp
    then obtain st1 where st1: "(if fresh then register_nft_token_metadata ?tid contract token_id st0 else Some (Ok (), st0)) =
        Some (Ok () :: (unit, ('e, 'ce, 'ue) sql_error) result, st1)" "tracks E st1 L"
      using tracks_nft_metadata [of E st0 L ?tid contract token_id] by (cases fresh) auto
    with r rest [OF st1(2), of contract ?tid] Transfer Nft show ?thesis
      by (simp add: handle_nft_transfer_def Let_def bind_run_Ok)
  qed
qed

lemma tracks_run:
  fixes E :: "('ba, 'ce, 'ue, 'e) erc_env"
  assumes E: "env_ok E"
  shows "tracks E st L \<Longrightarrow> \<forall>ev \<in> set evs. event_ok E ev \<Longrightarrow> all_covered evs L \<Longrightarrow>
    \<exists>st'. run_events E evs st = Some (Ok (), st') \<and> tracks E st' (fold book evs L)"
proof (induction evs arbitrary: st L)
  case (Cons ev evs)
  obtain st1 where "step_event E ev st = Some (Ok () :: (unit, ('e, 'ce, 'ue) sql_error) result, st1)" "tracks E st1 (book ev L)"
    using tracks_step [OF E Cons.prems(1), of ev] Cons.prems by auto
  with Cons show ?case by (simp add: bind_run_Ok)
qed simp

lemma run_events_append: "run_events E (evs @ evs') st = bind_run (run_events E evs st) (run_events E evs')"
  by (induction evs arbitrary: st) (auto simp: bind_run_def split: option.split sum.split)

section \<open>The table agrees with the ledger\<close>

definition erc_start :: "'call erc_state" where
  "erc_start = \<lparr>erc_cache = [], token_ids = {}, out = \<lparr>closed = False, sent = []\<rparr>\<rparr>"

lemma tracks_start: "tracks E erc_start (\<lambda>_. 0)"
  by (simp add: tracks_def erc_start_def cached_def ledger_ok_def balance_in_def cache_get_def)


text \<open>An environment as relied on: hexadecimal texts, checked operators, a token that answers.\<close>

definition hex_val :: "char \<Rightarrow> nat" where
  "hex_val c = (if of_char c < (58 :: nat) then of_char c - 48 else of_char c - 87)"

definition from_hex :: "string \<Rightarrow> nat" where
  "from_hex s = foldl (\<lambda>acc c. acc * 16 + hex_val c) 0 s"

lemma hex_val_hex_char: "d < 16 \<Longrightarrow> hex_val (hex_char d) = d"
  by (simp add: hex_val_def hex_char_def)

lemma from_hex_hex_string: "from_hex (hex_string n) = n"
proof (induction n rule: hex_string.induct)
  case (1 n)
  then show ?case
    by (subst hex_string.simps) (auto simp: from_hex_def hex_val_hex_char)
qed

lemma hex_string_chars: "c \<in> set (hex_string n) \<Longrightarrow> \<exists>d < 16. c = hex_char d"
proof (induction n rule: hex_string.induct)
  case (1 n)
  show ?case
  proof (cases "n < 16")
    case True
    with 1(2) show ?thesis by (subst (asm) hex_string.simps) auto
  next
    case False
    with 1 show ?thesis by (subst (asm) (2) hex_string.simps) (auto intro: exI [of _ "n mod 16"])
  qed
qed

lemma hex_string_no_sep: "CHR ''/'' \<notin> set (hex_string n)" "CHR '':'' \<notin> set (hex_string n)"
proof -
  have "hex_char d \<noteq> CHR ''/''" "hex_char d \<noteq> CHR '':''" if "d < 16" for d
  proof -
    have "(of_char (hex_char d) :: nat) \<noteq> 47" "(of_char (hex_char d) :: nat) \<noteq> 58"
      using that by (auto simp: hex_char_def)
    then show "hex_char d \<noteq> CHR ''/''" "hex_char d \<noteq> CHR '':''" by auto
  qed
  then show "CHR ''/'' \<notin> set (hex_string n)" "CHR '':'' \<notin> set (hex_string n)" using hex_string_chars by metis+
qed

definition checked_ops :: u256_ops where
  "checked_ops =
     \<lparr>u256_add = (\<lambda>a b. if uint a + uint b < 2 ^ 256 then Some (a + b) else None),
      u256_sub = (\<lambda>a b. if b \<le> a then Some (a - b) else None)\<rparr>"

definition sample_env :: "(string, unit, unit, unit) erc_env" where
  "sample_env =
     \<lparr>ops = checked_ops,
      felt_text = (\<lambda>f. ''0x'' @ hex_string (nat_of_felt f)),
      u256_text = (\<lambda>u. ''0x'' @ hex_string (unat u)),
      u256_from_be_hex = (\<lambda>s. Some (of_nat (from_hex s))),
      rfc3339 = (\<lambda>_. Some ''1970-01-01T00:00:00+00:00''),
      short_string = (\<lambda>_. Some ''TOKEN''),
      u8_deserialize = (\<lambda>_. Some 18),
      byte_arrays = short_texts,
      batch_requests = (\<lambda>_. Ok [CallResponse [0], CallResponse [0], CallResponse [0]]),
      balance_of = (\<lambda>_ _. None),
      flush_answer = Ok (),
      map_iter = rev\<rparr>"

lemma sample_env_ok: "env_ok sample_env"
  using hex_string_no_sep
  by (auto simp: env_ok_def sample_env_def checked_ops_def u256_ops_ok_def sql_string_to_u256_def
      from_hex_hex_string inj_def nat_of_felt_inject [symmetric] dest!: arg_cong [of _ _ from_hex])

definition sample_transfers :: "transfer_event list" where
  "sample_transfers =
     [Transfer (Fungible (felt 9)) 0 (felt 1) 5 0 ''a'', Apply, Transfer (Fungible (felt 9)) (felt 1) (felt 2) 2 0 ''b'']"

lemma sample_felts [simp]: "felt 2 \<noteq> felt 1" "felt 1 \<noteq> 0" "felt 2 \<noteq> 0" "felt (Suc 0) \<noteq> 0" "felt 2 \<noteq> felt (Suc 0)" "felt (Suc 0) \<noteq> felt 2"
  by (simp_all add: zero_felt_eq felt_eq_iff stark_prime_def)


end
