(* ===== verification/World_Local.thy ===== *)
theory World_Local
  imports Dojo_Naming "HOL-Library.AList"
begin

text \<open>
  The local side of a world: the profile configuration (\<open>dojo/world/src/config\<close>) and the resources
  compiled from the project (\<open>dojo/world/src/local\<close>).

  A \<open>HashMap\<close> is the association list of its entries in the order in which it is iterated, which Rust
  leaves open, and a \<open>HashSet\<close> the list of its elements.  Sierra classes belong to the Starknet library
  and are values of a type variable.  The casm class kept beside a class is only read by the
  statistics, and the descriptions and icons of the configuration only by the upload of metadata;
  both are left out.
\<close>

section \<open>Configuration\<close>

record migration_config =
  skip_contracts :: "string list option"
  disable_multicall :: "bool option"
  order_inits :: "string list option"

record namespace_config =
  ns_default :: string
  mappings :: "(string \<times> string list) list option"

record external_contract_config =
  ecc_contract_name :: string
  ecc_instance_name :: "string option"
  ecc_salt :: string
  ecc_constructor_data :: "string list option"

record profile_config =
  world_name :: string
  world_seed :: string
  pc_external_contracts :: "external_contract_config list option"
  pc_namespace :: namespace_config
  pc_migration :: "migration_config option"
  pc_writers :: "(string \<times> string list) list option"
  pc_owners :: "(string \<times> string list) list option"
  init_call_args :: "(string \<times> string list) list option"
  lib_versions :: "(string \<times> string) list option"

definition get_namespaces :: "namespace_config \<Rightarrow> string \<Rightarrow> string list" where
  "get_namespaces c local_name =
     (let namespaces = (case mappings c of
        None \<Rightarrow> []
      | Some ms \<Rightarrow> map fst (filter (\<lambda>(namespace, names). local_name \<in> set names) ms))
      in if namespaces = [] then [ns_default c] else namespaces)"

definition list_namespaces :: "namespace_config \<Rightarrow> string list" where
  "list_namespaces c = ns_default c # (case mappings c of None \<Rightarrow> [] | Some ms \<Rightarrow> map fst ms)"

definition tags_for :: "(string \<times> string list) list option \<Rightarrow> string \<Rightarrow> string list" where
  "tags_for m tag = (case m of None \<Rightarrow> [] | Some ts \<Rightarrow> (case map_of ts tag of None \<Rightarrow> [] | Some xs \<Rightarrow> xs))"

definition get_local_writers :: "profile_config \<Rightarrow> string \<Rightarrow> string list" where
  "get_local_writers c tag = tags_for (pc_writers c) tag"

definition get_local_owners :: "profile_config \<Rightarrow> string \<Rightarrow> string list" where
  "get_local_owners c tag = tags_for (pc_owners c) tag"

definition is_skipped :: "profile_config \<Rightarrow> string \<Rightarrow> bool" where
  "is_skipped c tag =
     (case pc_migration c of
        None \<Rightarrow> False
      | Some m \<Rightarrow> (case skip_contracts m of None \<Rightarrow> False | Some tags \<Rightarrow> tag \<in> set tags))"

text \<open>\<open>ProfileConfig::validate\<close>: the instance names are gathered per contract name, and each group is
  checked.\<close>

datatype config_error = MissingInstanceName string | DuplicatedInstanceNames string | InvalidInstanceName string

fun gather_instances :: "external_contract_config list \<Rightarrow> (string \<times> string option list) list \<Rightarrow> (string \<times> string option list) list" where
  "gather_instances [] m = m"
| "gather_instances (c # cs) m =
     gather_instances cs
       (AList.update (ecc_contract_name c)
          ((case map_of m (ecc_contract_name c) of None \<Rightarrow> [] | Some xs \<Rightarrow> xs) @ [ecc_instance_name c]) m)"

definition check_instances :: "string \<Rightarrow> string option list \<Rightarrow> (unit, config_error) result" where
  "check_instances contract_name instance_names =
     (if length instance_names > 1 \<and> None \<in> set instance_names then Err (MissingInstanceName contract_name)
      else if length (remdups instance_names) \<noteq> length instance_names then Err (DuplicatedInstanceNames contract_name)
      else case find (\<lambda>n. \<not> is_name_valid n) (List.map_filter id (remdups instance_names)) of
        Some n \<Rightarrow> Err (InvalidInstanceName n)
      | None \<Rightarrow> Ok ())"

fun check_all_instances :: "(string \<times> string option list) list \<Rightarrow> (unit, config_error) result" where
  "check_all_instances [] = Ok ()"
| "check_all_instances ((contract_name, instance_names) # rest) =
     and_then (check_instances contract_name instance_names) (\<lambda>_. check_all_instances rest)"

definition validate_config :: "profile_config \<Rightarrow> (unit, config_error) result" where
  "validate_config c =
     (case pc_external_contracts c of
        None \<Rightarrow> Ok ()
      | Some contracts \<Rightarrow> check_all_instances (gather_instances contracts []))"

section \<open>Local resources\<close>

datatype resource_type = RT_Namespace | RT_Contract | RT_Model | RT_Event | RT_StarknetContract | RT_Library

record resource_member =
  rm_name :: string
  rm_ty :: string
  rm_key :: bool

record 'c common_local_info =
  cl_name :: string
  cl_namespace :: string
  cl_class :: 'c
  cl_class_hash :: felt
  cl_casm_class_hash :: felt

datatype 'c resource_local =
    NamespaceLocal string
  | ContractLocal "'c common_local_info" "string list"
  | ModelLocal "'c common_local_info" "resource_member list"
  | EventLocal "'c common_local_info" "resource_member list"
  | LibraryLocal "'c common_local_info" "string list" string

fun rl_name :: "'c resource_local \<Rightarrow> string" where
  "rl_name (ContractLocal c _) = cl_name c"
| "rl_name (ModelLocal c _) = cl_name c"
| "rl_name (EventLocal c _) = cl_name c"
| "rl_name (NamespaceLocal n) = n"
| "rl_name (LibraryLocal c _ _) = cl_name c"

fun rl_namespace :: "'c resource_local \<Rightarrow> string" where
  "rl_namespace (NamespaceLocal n) = n"
| "rl_namespace (ContractLocal c _) = cl_namespace c"
| "rl_namespace (ModelLocal c _) = cl_namespace c"
| "rl_namespace (EventLocal c _) = cl_namespace c"
| "rl_namespace (LibraryLocal c _ _) = cl_namespace c"

fun rl_class_hash :: "'c resource_local \<Rightarrow> felt" where
  "rl_class_hash (ContractLocal c _) = cl_class_hash c"
| "rl_class_hash (ModelLocal c _) = cl_class_hash c"
| "rl_class_hash (EventLocal c _) = cl_class_hash c"
| "rl_class_hash (LibraryLocal c _ _) = cl_class_hash c"
| "rl_class_hash (NamespaceLocal _) = 0"

fun rl_abi :: "('c \<Rightarrow> 'abi list) \<Rightarrow> 'c resource_local \<Rightarrow> 'abi list" where
  "rl_abi abi_of (ContractLocal c _) = abi_of (cl_class c)"
| "rl_abi abi_of (ModelLocal c _) = abi_of (cl_class c)"
| "rl_abi abi_of (EventLocal c _) = abi_of (cl_class c)"
| "rl_abi abi_of (LibraryLocal c _ _) = abi_of (cl_class c)"
| "rl_abi abi_of (NamespaceLocal _) = []"

definition rl_dojo_selector :: "naming_env \<Rightarrow> 'c resource_local \<Rightarrow> felt option" where
  "rl_dojo_selector E r =
     (case r of
        NamespaceLocal n \<Rightarrow> compute_bytearray_hash E n
      | _ \<Rightarrow> compute_selector_from_names E (rl_namespace r) (rl_name r))"

definition rl_tag :: "'c resource_local \<Rightarrow> string" where
  "rl_tag r = (case r of NamespaceLocal n \<Rightarrow> n | _ \<Rightarrow> get_tag (rl_namespace r) (rl_name r))"

definition as_contract :: "'c resource_local \<Rightarrow> ('c common_local_info \<times> string list) option" where
  "as_contract r = (case r of ContractLocal c systems \<Rightarrow> Some (c, systems) | _ \<Rightarrow> None)"

fun rl_resource_type :: "'c resource_local \<Rightarrow> resource_type" where
  "rl_resource_type (ContractLocal _ _) = RT_Contract"
| "rl_resource_type (ModelLocal _ _) = RT_Model"
| "rl_resource_type (EventLocal _ _) = RT_Event"
| "rl_resource_type (NamespaceLocal _) = RT_Namespace"
| "rl_resource_type (LibraryLocal _ _ _) = RT_Library"

fun rl_common :: "'c resource_local \<Rightarrow> 'c common_local_info option" where
  "rl_common (ContractLocal c _) = Some c"
| "rl_common (ModelLocal c _) = Some c"
| "rl_common (EventLocal c _) = Some c"
| "rl_common (NamespaceLocal _) = None"
| "rl_common (LibraryLocal c _ _) = Some c"

record external_contract_local =
  ec_contract_name :: string
  ec_class_hash :: felt
  ec_instance_name :: string
  ec_salt :: felt
  ec_constructor_data :: "string list"
  ec_raw_constructor_data :: "felt list"
  ec_address :: felt

record 'c external_contract_class_local =
  ecl_contract_name :: string
  ecl_casm_class_hash :: felt
  ecl_class :: 'c

record 'c world_local =
  wl_class :: 'c
  wl_class_hash :: felt
  wl_casm_class_hash :: felt
  wl_resources :: "(felt \<times> 'c resource_local) list"
  wl_external_contract_classes :: "(string \<times> 'c external_contract_class_local) list"
  wl_external_contracts :: "external_contract_local list"
  wl_profile_config :: profile_config
  wl_entrypoints :: "string list"

section \<open>Addresses\<close>

text \<open>\<open>dojo/world/src/utils.rs\<close>.  \<open>get_contract_address\<close> takes the salt, the class hash, the constructor
  data and the deployer; it, the short strings and the hash of one field element come from the
  Starknet library.\<close>

record address_env =
  contract_address_of :: "felt \<Rightarrow> felt \<Rightarrow> felt list \<Rightarrow> felt \<Rightarrow> felt"
  short_string_felt :: "string \<Rightarrow> felt option"
  poseidon_hash_single :: "felt \<Rightarrow> felt"

definition world_salt :: "address_env \<Rightarrow> string \<Rightarrow> felt option" where
  "world_salt A seed = map_option (poseidon_hash_single A) (short_string_felt A seed)"

definition compute_world_address :: "address_env \<Rightarrow> string \<Rightarrow> felt \<Rightarrow> felt option" where
  "compute_world_address A seed world_class_hash =
     map_option (\<lambda>salt. contract_address_of A salt world_class_hash [world_class_hash] 0) (world_salt A seed)"

definition compute_dojo_contract_address :: "address_env \<Rightarrow> felt \<Rightarrow> felt \<Rightarrow> felt \<Rightarrow> felt" where
  "compute_dojo_contract_address A dojo_selector class_hash world_address =
     contract_address_of A dojo_selector class_hash [] world_address"

section \<open>The local world\<close>

definition deterministic_world_address :: "address_env \<Rightarrow> 'c world_local \<Rightarrow> felt option" where
  "deterministic_world_address A w = compute_world_address A (world_seed (wl_profile_config w)) (wl_class_hash w)"

definition add_local_resource :: "naming_env \<Rightarrow> 'c resource_local \<Rightarrow> 'c world_local \<Rightarrow> 'c world_local option" where
  "add_local_resource E r w =
     (case r of
        NamespaceLocal n \<Rightarrow>
          map_option (\<lambda>selector. w\<lparr>wl_resources := AList.update selector r (wl_resources w)\<rparr>)
            (compute_bytearray_hash E n)
      | _ \<Rightarrow>
          map_option (\<lambda>selector. w\<lparr>wl_resources := AList.update selector r (wl_resources w)\<rparr>)
            (rl_dojo_selector E r))"

definition get_contract_resource :: "'c world_local \<Rightarrow> felt \<Rightarrow> ('c common_local_info \<times> string list) option" where
  "get_contract_resource w selector = Option.bind (map_of (wl_resources w) selector) as_contract"

text \<open>The outer option is the panic of \<open>unwrap\<close>, the inner one the result.\<close>

definition get_contract_address_local :: "address_env \<Rightarrow> 'c world_local \<Rightarrow> felt \<Rightarrow> felt option option" where
  "get_contract_address_local A w selector =
     (case get_contract_resource w selector of
        None \<Rightarrow> Some None
      | Some (c, _) \<Rightarrow>
          map_option (\<lambda>a. Some (compute_dojo_contract_address A selector (cl_class_hash c) a))
            (deterministic_world_address A w))"

definition resource_from_name_or_tag :: "naming_env \<Rightarrow> 'c world_local \<Rightarrow> string \<Rightarrow> 'c resource_local option option" where
  "resource_from_name_or_tag E w name_or_tag =
     map_option (map_of (wl_resources w))
       (if is_valid_tag name_or_tag then compute_selector_from_tag E name_or_tag
        else compute_bytearray_hash E name_or_tag)"

section \<open>Resources are found under their selectors\<close>

definition local_wf :: "naming_env \<Rightarrow> (felt \<times> 'c resource_local) list \<Rightarrow> bool" where
  "local_wf E rs \<longleftrightarrow> distinct (map fst rs) \<and> (\<forall>(selector, r) \<in> set rs. rl_dojo_selector E r = Some selector)"

lemma set_alist_update:
  "(k', v') \<in> set (AList.update k v xs) \<Longrightarrow> (k', v') = (k, v) \<or> (k', v') \<in> set xs"
  by (induction xs) (auto split: if_splits)

lemma add_local_resource_wf:
  assumes "local_wf E (wl_resources w)" "add_local_resource E r w = Some w'"
  shows "local_wf E (wl_resources w')"
proof -
  obtain selector where sel: "rl_dojo_selector E r = Some selector"
    and w': "wl_resources w' = AList.update selector r (wl_resources w)"
    using assms(2) by (cases r) (auto simp: add_local_resource_def rl_dojo_selector_def)
  have "distinct (map fst (wl_resources w'))"
    using assms(1) w' by (simp add: local_wf_def distinct_update)
  moreover have "rl_dojo_selector E r' = Some s" if "(s, r') \<in> set (wl_resources w')" for s r'
    using set_alist_update [OF that [unfolded w']] assms(1) sel by (auto simp: local_wf_def)
  ultimately show ?thesis by (auto simp: local_wf_def)
qed

lemma local_wf_lookup:
  assumes "local_wf E rs" "map_of rs selector = Some r"
  shows "rl_dojo_selector E r = Some selector"
  using assms map_of_SomeD [OF assms(2)] by (auto simp: local_wf_def)

text \<open>The last resource added under a selector is the one found.\<close>

lemma add_local_resource_lookup:
  assumes "add_local_resource E r w = Some w'" "rl_dojo_selector E r = Some selector"
  shows "map_of (wl_resources w') = (map_of (wl_resources w))(selector \<mapsto> r)"
  using assms by (cases r) (auto simp: add_local_resource_def rl_dojo_selector_def update_conv)

end
