(* ===== verification/World_Remote.thy ===== *)
theory World_Remote
  imports World_Local
begin

text \<open>
  The remote side of a world (\<open>dojo/world/src/remote\<close>): what the events of the world contract say about
  its resources, their classes and their permissions.

  The outer option of an operation is \<open>None\<close> for a panic; inside it the result is \<open>Ok\<close> or \<open>Err\<close>.  A text
  in an event is a byte array of the cainome library; \<open>event_text\<close> is its \<open>to_string\<close>, which may fail.
\<close>

section \<open>Resources\<close>

record common_remote_info =
  class_hashes :: "felt list"
  cr_name :: string
  cr_namespace :: string
  cr_address :: felt
  cr_metadata_hash :: felt
  cr_owners :: "felt list"
  cr_writers :: "felt list"

datatype resource_remote =
    NamespaceRemote string "felt list" "felt list"
  | ContractRemote common_remote_info bool
  | ModelRemote common_remote_info
  | EventRemote common_remote_info
  | LibraryRemote common_remote_info string

definition new_common_remote :: "felt \<Rightarrow> string \<Rightarrow> string \<Rightarrow> felt \<Rightarrow> common_remote_info" where
  "new_common_remote original_class_hash namespace name address =
     \<lparr>class_hashes = [original_class_hash], cr_name = name, cr_namespace = namespace, cr_address = address,
      cr_metadata_hash = 0, cr_owners = [], cr_writers = []\<rparr>"

definition new_namespace_remote :: "string \<Rightarrow> resource_remote" where
  "new_namespace_remote name = NamespaceRemote name [] []"

definition cr_dojo_selector :: "naming_env \<Rightarrow> common_remote_info \<Rightarrow> felt option" where
  "cr_dojo_selector E c = compute_selector_from_names E (cr_namespace c) (cr_name c)"

definition cr_current_class_hash :: "common_remote_info \<Rightarrow> felt option" where
  "cr_current_class_hash c = (if class_hashes c = [] then None else Some (last (class_hashes c)))"

definition original_class_hash :: "common_remote_info \<Rightarrow> felt option" where
  "original_class_hash c = (if class_hashes c = [] then None else Some (hd (class_hashes c)))"

definition cr_push_class_hash :: "felt \<Rightarrow> common_remote_info \<Rightarrow> common_remote_info" where
  "cr_push_class_hash h c = c\<lparr>class_hashes := class_hashes c @ [h]\<rparr>"

fun rr_dojo_selector :: "naming_env \<Rightarrow> resource_remote \<Rightarrow> felt option" where
  "rr_dojo_selector E (NamespaceRemote n _ _) = compute_bytearray_hash E n"
| "rr_dojo_selector E (ContractRemote c _) = cr_dojo_selector E c"
| "rr_dojo_selector E (ModelRemote c) = cr_dojo_selector E c"
| "rr_dojo_selector E (EventRemote c) = cr_dojo_selector E c"
| "rr_dojo_selector E (LibraryRemote c _) = cr_dojo_selector E c"

fun rr_name :: "resource_remote \<Rightarrow> string" where
  "rr_name (ContractRemote c _) = cr_name c"
| "rr_name (ModelRemote c) = cr_name c"
| "rr_name (EventRemote c) = cr_name c"
| "rr_name (NamespaceRemote n _ _) = n"
| "rr_name (LibraryRemote c _) = cr_name c"

fun rr_namespace :: "resource_remote \<Rightarrow> string" where
  "rr_namespace (ContractRemote c _) = cr_namespace c"
| "rr_namespace (ModelRemote c) = cr_namespace c"
| "rr_namespace (EventRemote c) = cr_namespace c"
| "rr_namespace (NamespaceRemote n _ _) = n"
| "rr_namespace (LibraryRemote c _) = cr_namespace c"

definition rr_tag :: "resource_remote \<Rightarrow> string" where
  "rr_tag r = get_tag (rr_namespace r) (rr_name r)"

fun rr_address :: "resource_remote \<Rightarrow> felt" where
  "rr_address (ContractRemote c _) = cr_address c"
| "rr_address (ModelRemote c) = cr_address c"
| "rr_address (EventRemote c) = cr_address c"
| "rr_address (NamespaceRemote _ _ _) = 0"
| "rr_address (LibraryRemote _ _) = 0"

fun set_metadata_hash :: "felt \<Rightarrow> resource_remote \<Rightarrow> resource_remote" where
  "set_metadata_hash h (ContractRemote c i) = ContractRemote (c\<lparr>cr_metadata_hash := h\<rparr>) i"
| "set_metadata_hash h (ModelRemote c) = ModelRemote (c\<lparr>cr_metadata_hash := h\<rparr>)"
| "set_metadata_hash h (EventRemote c) = EventRemote (c\<lparr>cr_metadata_hash := h\<rparr>)"
| "set_metadata_hash h (NamespaceRemote n os ws) = NamespaceRemote n os ws"
| "set_metadata_hash h (LibraryRemote c v) = LibraryRemote (c\<lparr>cr_metadata_hash := h\<rparr>) v"

fun rr_metadata_hash :: "resource_remote \<Rightarrow> felt" where
  "rr_metadata_hash (ContractRemote c _) = cr_metadata_hash c"
| "rr_metadata_hash (ModelRemote c) = cr_metadata_hash c"
| "rr_metadata_hash (EventRemote c) = cr_metadata_hash c"
| "rr_metadata_hash (NamespaceRemote _ _ _) = 0"
| "rr_metadata_hash (LibraryRemote c _) = cr_metadata_hash c"

fun push_class_hash :: "felt \<Rightarrow> resource_remote \<Rightarrow> resource_remote" where
  "push_class_hash h (NamespaceRemote n os ws) = NamespaceRemote n os ws"
| "push_class_hash h (ContractRemote c i) = ContractRemote (cr_push_class_hash h c) i"
| "push_class_hash h (ModelRemote c) = ModelRemote (cr_push_class_hash h c)"
| "push_class_hash h (EventRemote c) = EventRemote (cr_push_class_hash h c)"
| "push_class_hash h (LibraryRemote c v) = LibraryRemote (cr_push_class_hash h c) v"

fun rr_current_class_hash :: "resource_remote \<Rightarrow> felt option" where
  "rr_current_class_hash (ContractRemote c _) = cr_current_class_hash c"
| "rr_current_class_hash (ModelRemote c) = cr_current_class_hash c"
| "rr_current_class_hash (EventRemote c) = cr_current_class_hash c"
| "rr_current_class_hash (NamespaceRemote _ _ _) = Some 0"
| "rr_current_class_hash (LibraryRemote c _) = cr_current_class_hash c"

text \<open>\<open>get_writers\<close> and \<open>get_owners\<close> return the selector as well, whose computation may panic.\<close>

fun rr_writers :: "resource_remote \<Rightarrow> felt list" where
  "rr_writers (ContractRemote c _) = cr_writers c"
| "rr_writers (ModelRemote c) = cr_writers c"
| "rr_writers (EventRemote c) = cr_writers c"
| "rr_writers (NamespaceRemote _ _ ws) = ws"
| "rr_writers (LibraryRemote c _) = cr_writers c"

fun rr_owners :: "resource_remote \<Rightarrow> felt list" where
  "rr_owners (ContractRemote c _) = cr_owners c"
| "rr_owners (ModelRemote c) = cr_owners c"
| "rr_owners (EventRemote c) = cr_owners c"
| "rr_owners (NamespaceRemote _ os _) = os"
| "rr_owners (LibraryRemote c _) = cr_owners c"

definition rr_get_writers :: "naming_env \<Rightarrow> resource_remote \<Rightarrow> (felt \<times> felt list) option" where
  "rr_get_writers E r = map_option (\<lambda>selector. (selector, rr_writers r)) (rr_dojo_selector E r)"

definition rr_get_owners :: "naming_env \<Rightarrow> resource_remote \<Rightarrow> (felt \<times> felt list) option" where
  "rr_get_owners E r = map_option (\<lambda>selector. (selector, rr_owners r)) (rr_dojo_selector E r)"

fun rr_resource_type :: "resource_remote \<Rightarrow> resource_type" where
  "rr_resource_type (ContractRemote _ _) = RT_Contract"
| "rr_resource_type (ModelRemote _) = RT_Model"
| "rr_resource_type (EventRemote _) = RT_Event"
| "rr_resource_type (NamespaceRemote _ _ _) = RT_Namespace"
| "rr_resource_type (LibraryRemote _ _) = RT_Library"

fun as_contract_or_panic :: "resource_remote \<Rightarrow> (common_remote_info \<times> bool) option" where
  "as_contract_or_panic (ContractRemote c i) = Some (c, i)"
| "as_contract_or_panic _ = None"

fun as_library_or_panic :: "resource_remote \<Rightarrow> (common_remote_info \<times> string) option" where
  "as_library_or_panic (LibraryRemote c v) = Some (c, v)"
| "as_library_or_panic _ = None"

fun as_model_or_panic :: "resource_remote \<Rightarrow> common_remote_info option" where
  "as_model_or_panic (ModelRemote c) = Some c"
| "as_model_or_panic _ = None"

fun as_event_or_panic :: "resource_remote \<Rightarrow> common_remote_info option" where
  "as_event_or_panic (EventRemote c) = Some c"
| "as_event_or_panic _ = None"

fun as_namespace_or_panic :: "resource_remote \<Rightarrow> string option" where
  "as_namespace_or_panic (NamespaceRemote n _ _) = Some n"
| "as_namespace_or_panic _ = None"

section \<open>Permissions\<close>

text \<open>The insertion into and the removal from a \<open>HashSet\<close> of addresses, and the two update functions
  (\<open>permissions.rs\<close>), which panic for a library.\<close>

definition set_permission :: "felt \<Rightarrow> bool \<Rightarrow> felt list \<Rightarrow> felt list" where
  "set_permission contract_address value xs =
     (if value then List.insert contract_address xs else removeAll contract_address xs)"

fun update_writer :: "felt \<Rightarrow> bool \<Rightarrow> resource_remote \<Rightarrow> resource_remote option" where
  "update_writer a v (ContractRemote c i) = Some (ContractRemote (c\<lparr>cr_writers := set_permission a v (cr_writers c)\<rparr>) i)"
| "update_writer a v (ModelRemote c) = Some (ModelRemote (c\<lparr>cr_writers := set_permission a v (cr_writers c)\<rparr>))"
| "update_writer a v (EventRemote c) = Some (EventRemote (c\<lparr>cr_writers := set_permission a v (cr_writers c)\<rparr>))"
| "update_writer a v (NamespaceRemote n os ws) = Some (NamespaceRemote n os (set_permission a v ws))"
| "update_writer a v (LibraryRemote _ _) = None"

fun update_owner :: "felt \<Rightarrow> bool \<Rightarrow> resource_remote \<Rightarrow> resource_remote option" where
  "update_owner a v (ContractRemote c i) = Some (ContractRemote (c\<lparr>cr_owners := set_permission a v (cr_owners c)\<rparr>) i)"
| "update_owner a v (ModelRemote c) = Some (ModelRemote (c\<lparr>cr_owners := set_permission a v (cr_owners c)\<rparr>))"
| "update_owner a v (EventRemote c) = Some (EventRemote (c\<lparr>cr_owners := set_permission a v (cr_owners c)\<rparr>))"
| "update_owner a v (NamespaceRemote n os ws) = Some (NamespaceRemote n (set_permission a v os) ws)"
| "update_owner a v (LibraryRemote _ _) = None"

section \<open>The remote world\<close>

record world_remote =
  wr_address :: felt
  wr_metadata_hash :: felt
  wr_class_hashes :: "felt list"
  wr_resources :: "(felt \<times> resource_remote) list"
  deployed_external_contracts :: "string list"
  declared_external_contract_classes :: "string list"
  external_writers :: "(felt \<times> felt list) list"
  external_owners :: "(felt \<times> felt list) list"

definition world_remote_default :: world_remote where
  "world_remote_default =
     \<lparr>wr_address = 0, wr_metadata_hash = 0, wr_class_hashes = [], wr_resources = [],
      deployed_external_contracts = [], declared_external_contract_classes = [],
      external_writers = [], external_owners = []\<rparr>"

definition add_resource :: "naming_env \<Rightarrow> resource_remote \<Rightarrow> world_remote \<Rightarrow> world_remote option" where
  "add_resource E r w =
     map_option (\<lambda>selector. w\<lparr>wr_resources := AList.update selector r (wr_resources w)\<rparr>) (rr_dojo_selector E r)"

definition wr_current_class_hash :: "world_remote \<Rightarrow> felt option" where
  "wr_current_class_hash w = (if wr_class_hashes w = [] then None else Some (last (wr_class_hashes w)))"

end
