(* ===== verification/World_Events.thy ===== *)
theory World_Events
  imports World_Remote
begin

text \<open>
  The events of the world contract and the remote world they describe
  (\<open>dojo/world/src/remote/events_to_remote.rs\<close>): \<open>match_event\<close> applies one event, \<open>from_events\<close> fetches the
  events of a range of blocks in pages from a provider and applies them in order.
\<close>

section \<open>Texts\<close>

text \<open>\<open>str::split\<close> and \<open>str::replace\<close> for a pattern that is not empty: occurrences are found from the left
  and do not overlap.\<close>

function split_str :: "string \<Rightarrow> string \<Rightarrow> string list" where
  "split_str pat [] = [[]]"
| "split_str pat (c # cs) =
     (if pat \<noteq> [] \<and> take (length pat) (c # cs) = pat then [] # split_str pat (drop (length pat - 1) cs)
      else case split_str pat cs of [] \<Rightarrow> [[c]] | p # ps \<Rightarrow> (c # p) # ps)"
  by pat_completeness auto
termination by (relation "measure (length \<circ> snd)") auto

function replace_str :: "string \<Rightarrow> string \<Rightarrow> string \<Rightarrow> string" where
  "replace_str pat rep [] = []"
| "replace_str pat rep (c # cs) =
     (if pat \<noteq> [] \<and> take (length pat) (c # cs) = pat then rep @ replace_str pat rep (drop (length pat - 1) cs)
      else c # replace_str pat rep cs)"
  by pat_completeness auto
termination by (relation "measure (length \<circ> snd \<circ> snd)") auto

section \<open>Events\<close>

datatype world_event =
    WorldSpawned felt felt
  | WorldUpgraded felt
  | NamespaceRegistered string felt
  | ModelRegistered string string felt felt
  | EventRegistered string string felt felt
  | ContractRegistered string string felt felt felt
  | LibraryRegistered string string felt
  | ModelUpgraded felt felt felt felt
  | EventUpgraded felt felt felt felt
  | ContractUpgraded felt felt
  | ContractInitialized felt "felt list"
  | WriterUpdated felt felt bool
  | OwnerUpdated felt felt bool
  | MetadataUpdate felt string felt
  | ResourceEvent

text \<open>
  The fields are in the order of the contract: \<open>ModelRegistered name namespace class_hash address\<close>,
  \<open>ContractRegistered name namespace address class_hash salt\<close>, \<open>LibraryRegistered name namespace
  class_hash\<close>, \<open>ModelUpgraded selector class_hash address prev_address\<close>, \<open>ContractUpgraded selector
  class_hash\<close>, \<open>WriterUpdated resource contract value\<close>, \<open>MetadataUpdate resource uri hash\<close>.  The events that
  concern records (set, update, delete, emit) are one constructor.
\<close>

datatype 'e remote_error = BadText | NotAContract felt | ProviderError 'e

definition event_text :: "(string \<Rightarrow> bool) \<Rightarrow> string \<Rightarrow> (string, 'e remote_error) result" where
  "event_text utf8 b = (if utf8 b then Ok b else Err BadText)"

definition is_whitelisted :: "string list option \<Rightarrow> string \<Rightarrow> bool" where
  "is_whitelisted whitelist namespace = (case whitelist of None \<Rightarrow> True | Some ns \<Rightarrow> namespace \<in> set ns)"

definition WORLD :: felt where
  "WORLD = 0"

text \<open>\<open>resources.get_mut\<close> with an update in place; \<open>None\<close> where the selector is not known.\<close>

definition with_resource ::
  "felt \<Rightarrow> (resource_remote \<Rightarrow> resource_remote) \<Rightarrow> world_remote \<Rightarrow> world_remote option" where
  "with_resource selector f w =
     map_option (\<lambda>r. w\<lparr>wr_resources := AList.update selector (f r) (wr_resources w)\<rparr>)
       (map_of (wr_resources w) selector)"

definition register_resource ::
  "naming_env \<Rightarrow> string list option \<Rightarrow> string \<Rightarrow> resource_remote \<Rightarrow> world_remote
    \<Rightarrow> (world_remote, 'e remote_error) result option" where
  "register_resource E whitelist namespace r w =
     (if is_whitelisted whitelist namespace then map_option Ok (add_resource E r w) else Some (Ok w))"

definition upgrade_resource :: "felt \<Rightarrow> felt \<Rightarrow> world_remote \<Rightarrow> world_remote" where
  "upgrade_resource selector class_hash w =
     (case with_resource selector (push_class_hash class_hash) w of None \<Rightarrow> w | Some w' \<Rightarrow> w')"

text \<open>\<open>external_writers.entry(..).or_default()\<close> with the insertion or removal of the address.\<close>

definition update_external :: "felt \<Rightarrow> felt \<Rightarrow> bool \<Rightarrow> (felt \<times> felt list) list \<Rightarrow> (felt \<times> felt list) list" where
  "update_external resource contract value m =
     AList.update resource (set_permission contract value (case map_of m resource of None \<Rightarrow> [] | Some xs \<Rightarrow> xs)) m"

definition library_version :: "string \<Rightarrow> string" where
  "library_version full_name = last (split_str ''_v'' full_name)"

definition library_name :: "string \<Rightarrow> string" where
  "library_name full_name = replace_str (''_v'' @ library_version full_name) [] full_name"

fun match_event ::
  "naming_env \<Rightarrow> (string \<Rightarrow> bool) \<Rightarrow> string list option \<Rightarrow> world_event \<Rightarrow> world_remote
    \<Rightarrow> (world_remote, 'e remote_error) result option" where
  "match_event E utf8 wl (WorldSpawned creator class_hash) w =
     Some (Ok (w\<lparr>wr_class_hashes := wr_class_hashes w @ [class_hash],
       external_owners := AList.update WORLD [creator] (external_owners w)\<rparr>))"
| "match_event E utf8 wl (WorldUpgraded class_hash) w =
     Some (Ok (w\<lparr>wr_class_hashes := wr_class_hashes w @ [class_hash]\<rparr>))"
| "match_event E utf8 wl (NamespaceRegistered namespace _) w =
     (case event_text utf8 namespace of
        Inl e \<Rightarrow> Some (Err e)
      | Inr ns \<Rightarrow> register_resource E wl ns (new_namespace_remote ns) w)"
| "match_event E utf8 wl (ModelRegistered name namespace class_hash address) w =
     (case event_text utf8 namespace of
        Inl e \<Rightarrow> Some (Err e)
      | Inr ns \<Rightarrow>
          if \<not> is_whitelisted wl ns then Some (Ok w)
          else case event_text utf8 name of
            Inl e \<Rightarrow> Some (Err e)
          | Inr n \<Rightarrow> register_resource E wl ns (ModelRemote (new_common_remote class_hash ns n address)) w)"
| "match_event E utf8 wl (EventRegistered name namespace class_hash address) w =
     (case event_text utf8 namespace of
        Inl e \<Rightarrow> Some (Err e)
      | Inr ns \<Rightarrow>
          if \<not> is_whitelisted wl ns then Some (Ok w)
          else case event_text utf8 name of
            Inl e \<Rightarrow> Some (Err e)
          | Inr n \<Rightarrow> register_resource E wl ns (EventRemote (new_common_remote class_hash ns n address)) w)"
| "match_event E utf8 wl (ContractRegistered name namespace address class_hash _) w =
     (case event_text utf8 namespace of
        Inl e \<Rightarrow> Some (Err e)
      | Inr ns \<Rightarrow>
          if \<not> is_whitelisted wl ns then Some (Ok w)
          else case event_text utf8 name of
            Inl e \<Rightarrow> Some (Err e)
          | Inr n \<Rightarrow> register_resource E wl ns (ContractRemote (new_common_remote class_hash ns n address) False) w)"
| "match_event E utf8 wl (LibraryRegistered name namespace class_hash) w =
     (case event_text utf8 namespace of
        Inl e \<Rightarrow> Some (Err e)
      | Inr ns \<Rightarrow>
          if \<not> is_whitelisted wl ns then Some (Ok w)
          else case (event_text utf8 name :: (string, 'e remote_error) result) of
            Inl _ \<Rightarrow> None
          | Inr full_name \<Rightarrow>
              register_resource E wl ns
                (LibraryRemote (new_common_remote class_hash ns (library_name full_name) 0) (library_version full_name)) w)"
| "match_event E utf8 wl (ModelUpgraded selector class_hash _ _) w = Some (Ok (upgrade_resource selector class_hash w))"
| "match_event E utf8 wl (EventUpgraded selector class_hash _ _) w = Some (Ok (upgrade_resource selector class_hash w))"
| "match_event E utf8 wl (ContractUpgraded selector class_hash) w = Some (Ok (upgrade_resource selector class_hash w))"
| "match_event E utf8 wl (ContractInitialized selector _) w =
     (case map_of (wr_resources w) selector of
        None \<Rightarrow> Some (Ok w)
      | Some (ContractRemote c _) \<Rightarrow>
          Some (Ok (w\<lparr>wr_resources := AList.update selector (ContractRemote c True) (wr_resources w)\<rparr>))
      | Some _ \<Rightarrow> Some (Err (NotAContract selector)))"
| "match_event E utf8 wl (WriterUpdated resource contract value) w =
     (case map_of (wr_resources w) resource of
        Some r \<Rightarrow>
          map_option (\<lambda>r'. Ok (w\<lparr>wr_resources := AList.update resource r' (wr_resources w)\<rparr>)) (update_writer contract value r)
      | None \<Rightarrow> Some (Ok (w\<lparr>external_writers := update_external resource contract value (external_writers w)\<rparr>)))"
| "match_event E utf8 wl (OwnerUpdated resource contract value) w =
     (case map_of (wr_resources w) resource of
        Some r \<Rightarrow>
          map_option (\<lambda>r'. Ok (w\<lparr>wr_resources := AList.update resource r' (wr_resources w)\<rparr>)) (update_owner contract value r)
      | None \<Rightarrow> Some (Ok (w\<lparr>external_owners := update_external resource contract value (external_owners w)\<rparr>)))"
| "match_event E utf8 wl (MetadataUpdate resource _ hash) w =
     (if resource = WORLD then Some (Ok (w\<lparr>wr_metadata_hash := hash\<rparr>))
      else map_option Ok (with_resource resource (set_metadata_hash hash) w))"
| "match_event E utf8 wl ResourceEvent w = Some (Ok w)"

text \<open>The loop over the fetched events.  An event that cannot be parsed is logged and passed over.\<close>

fun match_events ::
  "naming_env \<Rightarrow> (string \<Rightarrow> bool) \<Rightarrow> string list option \<Rightarrow> world_event option list \<Rightarrow> world_remote
    \<Rightarrow> (world_remote, 'e remote_error) result option" where
  "match_events E utf8 wl [] w = Some (Ok w)"
| "match_events E utf8 wl (None # evs) w = match_events E utf8 wl evs w"
| "match_events E utf8 wl (Some ev # evs) w =
     (case match_event E utf8 wl ev w of
        None \<Rightarrow> None
      | Some (Inl e) \<Rightarrow> Some (Err e)
      | Some (Inr w') \<Rightarrow> match_events E utf8 wl evs w')"

section \<open>Fetching the events\<close>

text \<open>
  A provider answers requests: the chain id, whether a contract is deployed, the number of the latest
  block, and pages of the events between two blocks.  It is a parameter.  In the loops \<open>None\<close> is
  divergence and \<open>Some None\<close> a panic; \<open>oc\<close> says whether overflows are checked.
\<close>

datatype 'e lookup = Found | NotFound | LookupFailed 'e

record ('ev, 'tok, 'e) event_provider =
  chain_id_of :: "(felt, 'e) result"
  contract_lookup :: "felt \<Rightarrow> 'e lookup"
  class_lookup :: "felt \<Rightarrow> 'e lookup"
  latest_block :: "(u64, 'e) result"
  get_events :: "u64 \<Rightarrow> u64 \<Rightarrow> 'tok option \<Rightarrow> ('ev list \<times> 'tok option, 'e) result"

partial_function (option) fetch_pages ::
  "bool \<Rightarrow> ('tok option \<Rightarrow> ('ev list \<times> 'tok option, 'e) result) \<Rightarrow> 'tok option \<Rightarrow> 'ev list \<Rightarrow> ('ev list, 'e) result option" where
  "fetch_pages is_katana page continuation_token events =
     (case page continuation_token of
        Inl e \<Rightarrow> Some (Err e)
      | Inr (evs, token) \<Rightarrow>
          if is_katana \<and> evs = [] then Some (Ok events)
          else if token = None then Some (Ok (events @ evs))
          else fetch_pages is_katana page token (events @ evs))"

definition range_end :: "bool \<Rightarrow> u64 \<Rightarrow> u64 \<Rightarrow> u64 \<Rightarrow> u64 option" where
  "range_end oc current_from max_block_range to_block =
     Option.bind (rust_add oc current_from max_block_range) (\<lambda>s.
     map_option (\<lambda>e. min e to_block) (rust_sub oc s 1))"

partial_function (option) fetch_ranges ::
  "bool \<Rightarrow> bool \<Rightarrow> (u64 \<Rightarrow> u64 \<Rightarrow> 'tok option \<Rightarrow> ('ev list \<times> 'tok option, 'e) result) \<Rightarrow> u64 \<Rightarrow> u64 \<Rightarrow> u64 \<Rightarrow> 'ev list
    \<Rightarrow> ('ev list, 'e) result option option" where
  "fetch_ranges oc is_katana pages max_block_range to_block current_from events =
     (if current_from \<le> to_block then
        (case range_end oc current_from max_block_range to_block of
           None \<Rightarrow> Some None
         | Some current_to \<Rightarrow>
             Option.bind (fetch_pages is_katana (pages current_from current_to) None events) (\<lambda>r.
               case r of
                 Inl e \<Rightarrow> Some (Some (Err e))
               | Inr events' \<Rightarrow>
                   (case rust_add oc current_to 1 of
                      None \<Rightarrow> Some None
                    | Some next_from \<Rightarrow> fetch_ranges oc is_katana pages max_block_range to_block next_from events')))
      else Some (Some (Ok events)))"

text \<open>The chain ids \<open>SN_SEPOLIA\<close> and \<open>SN_MAIN\<close> as short strings.\<close>

definition sn_sepolia :: felt where
  "sn_sepolia = felt 0x534e5f5345504f4c4941"

definition sn_main :: felt where
  "sn_main = felt 0x534e5f4d41494e"

definition from_events ::
  "bool \<Rightarrow> naming_env \<Rightarrow> (string \<Rightarrow> bool) \<Rightarrow> felt \<Rightarrow> (world_event option, 'tok, 'e) event_provider \<Rightarrow> u64 option \<Rightarrow> u64
    \<Rightarrow> string list option \<Rightarrow> (world_remote, 'e remote_error) result option option" where
  "from_events oc E utf8 world_address P from_block max_block_range whitelist =
     (let world = world_remote_default\<lparr>wr_address := world_address\<rparr> in
      case chain_id_of P of
        Inl e \<Rightarrow> Some (Some (Err (ProviderError e)))
      | Inr chain_id \<Rightarrow>
          let is_katana = (chain_id \<noteq> sn_sepolia \<and> chain_id \<noteq> sn_main) in
          case contract_lookup P world_address of
            NotFound \<Rightarrow> Some (Some (Ok world))
          | LookupFailed e \<Rightarrow> Some (Some (Err (ProviderError e)))
          | Found \<Rightarrow>
              (case latest_block P of
                 Inl e \<Rightarrow> Some (Some (Err (ProviderError e)))
               | Inr to_block \<Rightarrow>
                   Option.bind
                     (fetch_ranges oc is_katana (get_events P) max_block_range to_block
                        (case from_block of None \<Rightarrow> 0 | Some b \<Rightarrow> b) [])
                     (\<lambda>r. Some (case r of
                        None \<Rightarrow> None
                      | Some (Inl e) \<Rightarrow> Some (Err (ProviderError e))
                      | Some (Inr events) \<Rightarrow> match_events E utf8 whitelist events world))))"

text \<open>\<open>load_external_contract_states\<close>: which external classes are declared and which contracts deployed.\<close>

fun load_found :: "(felt \<Rightarrow> 'e lookup) \<Rightarrow> (string \<times> felt) list \<Rightarrow> string list \<Rightarrow> (string list, 'e remote_error) result" where
  "load_found look [] found = Ok found"
| "load_found look ((name, key) # rest) found =
     (case look key of
        NotFound \<Rightarrow> load_found look rest found
      | Found \<Rightarrow> load_found look rest (found @ [name])
      | LookupFailed e \<Rightarrow> Err (ProviderError e))"

definition load_external_contract_states ::
  "(world_event option, 'tok, 'e) event_provider \<Rightarrow> (string \<times> felt) list \<Rightarrow> (string \<times> felt) list \<Rightarrow> world_remote
    \<Rightarrow> (world_remote, 'e remote_error) result" where
  "load_external_contract_states P external_contract_classes external_contracts w =
     and_then (load_found (class_lookup P) external_contract_classes (declared_external_contract_classes w)) (\<lambda>classes.
     and_then (load_found (contract_lookup P) external_contracts (deployed_external_contracts w)) (\<lambda>contracts.
       Ok (w\<lparr>declared_external_contract_classes := classes, deployed_external_contracts := contracts\<rparr>)))"

section \<open>Every event is fetched once and in order\<close>

text \<open>What a faithful provider answers: the pages of a list.  Only the last page of a list may be empty.\<close>

inductive serves :: "('tok option \<Rightarrow> ('ev list \<times> 'tok option, 'e) result) \<Rightarrow> 'tok option \<Rightarrow> 'ev list \<Rightarrow> bool" for page where
  serves_last: "page token = Ok (evs, None) \<Longrightarrow> serves page token evs"
| serves_more: "page token = Ok (evs, Some t) \<Longrightarrow> evs \<noteq> [] \<Longrightarrow> serves page (Some t) rest \<Longrightarrow> serves page token (evs @ rest)"

lemma fetch_pages_serves:
  "serves page token evs \<Longrightarrow> fetch_pages is_katana page token events = Some (Ok (events @ evs))"
proof (induction arbitrary: events rule: serves.induct)
  case (serves_last token evs)
  then show ?case by (subst fetch_pages.simps) simp
next
  case (serves_more token evs t rest)
  then show ?case by (subst fetch_pages.simps) simp
qed

definition blocks_between :: "u64 \<Rightarrow> u64 \<Rightarrow> nat list" where
  "blocks_between a b = [unat a..<Suc (unat b)]"

lemma range_end_bound:
  assumes "current_from \<le> to_block" "0 < max_block_range" "unat to_block + unat max_block_range < 2 ^ 64"
  shows "\<exists>e. range_end oc current_from max_block_range to_block = Some e \<and> current_from \<le> e \<and> e \<le> to_block"
proof -
  let ?s = "current_from + max_block_range"
  have bound: "unat current_from + unat max_block_range < 2 ^ 64"
    using assms by (simp add: word_le_nat_alt)
  have s: "unat ?s = unat current_from + unat max_block_range" by (rule unat_add_no_overflow [OF bound])
  have pos: "0 < unat max_block_range" using assms(2) by (simp add: word_less_nat_alt)
  have one: "1 \<le> ?s" using s pos by (simp add: word_le_nat_alt)
  then have sub: "unat (?s - 1) = unat ?s - 1" by (simp add: unat_sub)
  have "rust_sub oc ?s 1 = Some (?s - 1)" using one by (auto simp: rust_sub_def)
  moreover have "current_from \<le> min (?s - 1) to_block"
    using assms(1) sub s pos by (simp add: word_le_nat_alt)
  ultimately show ?thesis
    by (simp add: range_end_def rust_add_no_overflow [OF bound])
qed

lemma fetch_ranges_complete:
  assumes serve: "\<And>a b. current_from \<le> a \<Longrightarrow> a \<le> b \<Longrightarrow> b \<le> to_block \<Longrightarrow>
      serves (pages a b) None (concat (map block_events (blocks_between a b)))"
    and "0 < max_block_range" "unat to_block + unat max_block_range < 2 ^ 64"
  shows "fetch_ranges oc is_katana pages max_block_range to_block current_from events =
     Some (Some (Ok (events @ concat (map block_events (blocks_between current_from to_block)))))"
  using serve
proof (induction "unat to_block + 1 - unat current_from" arbitrary: current_from events rule: less_induct)
  case less
  note serve = less.prems
  show ?case
  proof (cases "current_from \<le> to_block")
    case False
    then have "blocks_between current_from to_block = []"
      by (simp add: blocks_between_def word_le_nat_alt)
    with False show ?thesis by (subst fetch_ranges.simps) simp
  next
    case True
    from range_end_bound [OF True assms(2,3), of oc] obtain e where
      e: "range_end oc current_from max_block_range to_block = Some e" "current_from \<le> e" "e \<le> to_block" by blast
    have pages: "fetch_pages is_katana (pages current_from e) None events =
        Some (Ok (events @ concat (map block_events (blocks_between current_from e))))"
      by (rule fetch_pages_serves [OF serve]) (use e in auto)
    have pos: "0 < unat max_block_range" using assms(2) by (simp add: word_less_nat_alt)
    have bound: "unat e + unat (1 :: u64) < 2 ^ 64"
      using e(3) assms(3) pos by (simp add: word_le_nat_alt)
    have e1: "unat (e + 1) = unat e + 1" using unat_add_no_overflow [OF bound] by simp
    have blocks: "blocks_between current_from to_block = blocks_between current_from e @ blocks_between (e + 1) to_block"
      using e e1 upt_add_eq_append [of "unat current_from" "Suc (unat e)" "unat to_block - unat e"]
      by (simp add: blocks_between_def word_le_nat_alt del: upt_Suc)
    have "fetch_ranges oc is_katana pages max_block_range to_block (e + 1)
        (events @ concat (map block_events (blocks_between current_from e))) =
      Some (Some (Ok ((events @ concat (map block_events (blocks_between current_from e)))
        @ concat (map block_events (blocks_between (e + 1) to_block)))))"
    proof (rule less.hyps)
      show "unat to_block + 1 - unat (e + 1) < unat to_block + 1 - unat current_from"
        using e e1 True by (simp add: word_le_nat_alt)
      fix a b assume "e + 1 \<le> a" "a \<le> b" "b \<le> to_block"
      then show "serves (pages a b) None (concat (map block_events (blocks_between a b)))"
        using e e1 by (intro serve) (simp_all add: word_le_nat_alt)
    qed
    with True e pages blocks rust_add_no_overflow [OF bound, of oc] show ?thesis
      by (subst fetch_ranges.simps) simp
  qed
qed

text \<open>A range of no blocks never advances: from any block but the first the loop repeats the request.\<close>

lemma range_end_zero:
  assumes "0 < current_from" "current_from \<le> to_block"
  shows "range_end oc current_from 0 to_block = Some (current_from - 1)"
proof -
  have le: "1 \<le> current_from" using assms(1) by (simp add: word_le_nat_alt word_less_nat_alt)
  then have "unat (current_from - 1) = unat current_from - 1" by (simp add: unat_sub)
  then have "current_from - 1 \<le> to_block" using assms(2) by (simp add: word_le_nat_alt)
  moreover have "rust_add oc current_from 0 = Some current_from"
    using unat_u64_bound [of current_from] by (simp add: rust_add_def)
  moreover have "rust_sub oc current_from 1 = Some (current_from - 1)"
    using le by (auto simp: rust_sub_def)
  ultimately show ?thesis by (simp add: range_end_def min_absorb1)
qed

lemma fetch_ranges_stuck:
  assumes start: "0 < current_from" "current_from \<le> to_block"
    and page: "\<And>token. pages current_from (current_from - 1) token = Ok ([], None)"
  shows "fetch_ranges oc is_katana pages 0 to_block current_from events = None"
proof -
  have add: "rust_add oc (current_from - 1) 1 = Some current_from"
  proof -
    have "unat (current_from - 1) + unat (1 :: u64) = unat current_from"
      using start(1) by (simp add: unat_sub word_le_nat_alt word_less_nat_alt)
    then show ?thesis using unat_u64_bound [of current_from] by (simp add: rust_add_def)
  qed
  have serves: "serves (pages current_from (current_from - 1)) None []"
    by (rule serves_last) (simp add: page)
  let ?P = "\<lambda>oc' k' pages' m' to' cur evs y. oc' = oc \<longrightarrow> pages' = pages \<longrightarrow> m' = 0 \<longrightarrow> to' = to_block \<longrightarrow> cur = current_from \<longrightarrow> False"
  have no: "?P oc' k' pages' m' to' cur evs y" if "fetch_ranges oc' k' pages' m' to' cur evs = Some y"
    for oc' k' pages' m' to' cur evs y
  proof (rule fetch_ranges.raw_induct [where P = ?P, OF _ that], intro impI)
    fix f oc' k' pages' m' to' cur evs y
    assume IH: "\<And>oc' k' pages' m' to' cur evs y. f oc' k' pages' m' to' cur evs = Some y \<Longrightarrow> ?P oc' k' pages' m' to' cur evs y"
      and eqs: "oc' = oc" "pages' = pages" "m' = 0" "to' = to_block" "cur = current_from"
      and run: "(if cur \<le> to' then
        (case range_end oc' cur m' to' of
           None \<Rightarrow> Some None
         | Some current_to \<Rightarrow>
             Option.bind (fetch_pages k' (pages' cur current_to) None evs) (\<lambda>r.
               case r of
                 Inl e \<Rightarrow> Some (Some (Err e))
               | Inr events' \<Rightarrow>
                   (case rust_add oc' current_to 1 of
                      None \<Rightarrow> Some None
                    | Some next_from \<Rightarrow> f oc' k' pages' m' to' next_from events')))
      else Some (Some (Ok evs))) = Some y"
    have "f oc k' pages 0 to_block current_from evs = Some y"
      using run start add fetch_pages_serves [OF serves, of k' evs]
      unfolding eqs range_end_zero [OF start] by simp
    from IH [OF this] show False by simp
  qed
  from no [of oc is_katana pages 0 to_block current_from events] show ?thesis
    by (cases "fetch_ranges oc is_katana pages 0 to_block current_from events") auto
qed

text \<open>C11: Reading a world from the chain returns and applies every event of the world once and in the order
  of the blocks, whatever the size of the block ranges and of the pages: if the provider answers and
  serves the events of every range, the range size is positive and the last block not within a range
  size of the largest number, the result is that of applying the events of all blocks from the first
  to the latest one.\<close>

theorem from_events_complete:
  assumes "chain_id_of P = Ok cid" "contract_lookup P world_address = Found" "latest_block P = Ok to_block"
    and "0 < max_block_range" "unat to_block + unat max_block_range < 2 ^ 64"
    and "\<And>a b. a \<le> b \<Longrightarrow> b \<le> to_block \<Longrightarrow> serves (get_events P a b) None (concat (map block_events (blocks_between a b)))"
  shows "from_events oc E utf8 world_address P from_block max_block_range whitelist =
     Some (match_events E utf8 whitelist
       (concat (map block_events (blocks_between (case from_block of None \<Rightarrow> 0 | Some b \<Rightarrow> b) to_block)))
       (world_remote_default\<lparr>wr_address := world_address\<rparr>))"
proof -
  let ?from = "case from_block of None \<Rightarrow> 0 | Some b \<Rightarrow> b"
  have "fetch_ranges oc k (get_events P) max_block_range to_block ?from [] =
      Some (Some (Ok ([] @ concat (map block_events (blocks_between ?from to_block)))))" for k
    by (rule fetch_ranges_complete) (use assms in auto)
  then show ?thesis
    using assms(1-3) by (simp add: from_events_def Let_def)
qed

definition sample_provider :: "(world_event option, nat, unit) event_provider" where
  "sample_provider = \<lparr>chain_id_of = Ok sn_main, contract_lookup = (\<lambda>_. Found), class_lookup = (\<lambda>_. NotFound), latest_block = Ok 3,
     get_events = (\<lambda>a b token.
       let all = concat (map (\<lambda>n. if n = 1 then [Some (WorldSpawned 1 1)] else if n = 2 then [Some (WorldUpgraded 0), None] else [])
                   (blocks_between a b));
           i = (case token of None \<Rightarrow> 0 | Some t \<Rightarrow> t) in
       Ok (take 1 (drop i all), if i + 1 < length all then Some (i + 1) else None))\<rparr>"

lemma take_one_pages:
  assumes "i \<le> length all" "i = 0 \<or> i < length all" "token = None \<and> i = 0 \<or> token = Some i"
    and page: "\<And>t. page t = Ok (take 1 (drop (case t of None \<Rightarrow> 0 | Some t \<Rightarrow> t) all),
      if (case t of None \<Rightarrow> 0 | Some t \<Rightarrow> t) + 1 < length all then Some ((case t of None \<Rightarrow> 0 | Some t \<Rightarrow> t) + 1) else None)"
  shows "serves page token (drop i all)"
  using assms(1-3)
proof (induction "length all - i" arbitrary: i token)
  case 0
  then have "all = []" "i = 0" by auto
  then show ?case using 0 page [of token] by (intro serves_last) auto
next
  case (Suc n)
  then have i: "i < length all" by simp
  have t: "(case token of None \<Rightarrow> 0 | Some t \<Rightarrow> t) = i" using Suc.prems(3) by auto
  show ?case
  proof (cases "i + 1 < length all")
    case False
    then have "drop i all = take 1 (drop i all)" using i by simp
    with page [of token] t False show ?thesis by (metis serves_last)
  next
    case True
    have "serves page (Some (i + 1)) (drop (i + 1) all)"
      using Suc True by (intro Suc.hyps(1)) auto
    from serves_more [OF _ _ this, of token "take 1 (drop i all)"] page [of token] t True i
    show ?thesis by (simp add: Cons_nth_drop_Suc take_Suc_conv_app_nth hd_drop_conv_nth take_Suc)
  qed
qed

theorem from_events_complete_witness:
  "from_events True \<lparr>byte_array_felts = (\<lambda>_. None), poseidon_hash_many = (\<lambda>_. 0)\<rparr> (\<lambda>_. True) (felt 7) sample_provider None 2 None =
     Some (match_events \<lparr>byte_array_felts = (\<lambda>_. None), poseidon_hash_many = (\<lambda>_. 0)\<rparr> (\<lambda>_. True) None
       [Some (WorldSpawned 1 1), Some (WorldUpgraded 0), None] (world_remote_default\<lparr>wr_address := felt 7\<rparr>))"
proof -
  let ?E = "\<lparr>byte_array_felts = (\<lambda>_. None), poseidon_hash_many = (\<lambda>_. 0)\<rparr>"
  let ?ev = "\<lambda>n. if n = 1 then [Some (WorldSpawned 1 1)] else if n = (2 :: nat) then [Some (WorldUpgraded 0), None] else []"
  have s: "serves (get_events sample_provider a b) None (concat (map ?ev (blocks_between a b)))" for a b
    using take_one_pages [of 0 "concat (map ?ev (blocks_between a b))" None "get_events sample_provider a b"]
    by (simp add: sample_provider_def Let_def)
  have p: "chain_id_of sample_provider = Ok sn_main" "contract_lookup sample_provider (felt 7) = Found" "latest_block sample_provider = Ok 3"
    by (simp_all add: sample_provider_def)
  have b: "blocks_between 0 3 = [0, 1, 2, 3]" by code_simp
  have "from_events True ?E (\<lambda>_. True) (felt 7) sample_provider None 2 None =
     Some (match_events ?E (\<lambda>_. True) None (concat (map ?ev (blocks_between (case None of None \<Rightarrow> 0 | Some b \<Rightarrow> b) 3)))
       (world_remote_default\<lparr>wr_address := felt 7\<rparr>))"
    by (rule from_events_complete [OF p _ _ s]) simp_all
  then show ?thesis by (simp add: b del: match_events.simps)
qed

text \<open>The contract does not stop its owner from setting metadata for a resource that was never announced.
  Reading the events then panics, because \<open>match_event\<close> unwraps the lookup of the resource.\<close>

lemma metadata_unknown_panics:
  assumes "resource \<noteq> WORLD" "map_of (wr_resources w) resource = None"
  shows "match_event E utf8 wl (MetadataUpdate resource uri h) w = None"
  using assms by (simp add: with_resource_def)

end
