(* ===== verification/World_Diff.thy ===== *)
theory World_Diff
  imports World_Events "HOL-Library.Char_ord"
begin

text \<open>
  The difference between a local and a remote world (\<open>dojo/world/src/diff\<close>), seen from the local side:
  which resources are to be registered, which to be upgraded and which are in sync, who has which
  permissions, and the manifest written from it.  The outer option of an operation is its panic.
\<close>

section \<open>Resources\<close>

datatype 'c resource_diff =
    Created "'c resource_local"
  | Updated "'c resource_local" resource_remote
  | Synced "'c resource_local" resource_remote

fun diff_local :: "'c resource_diff \<Rightarrow> 'c resource_local" where
  "diff_local (Created l) = l"
| "diff_local (Updated l _) = l"
| "diff_local (Synced l _) = l"

definition rd_name :: "'c resource_diff \<Rightarrow> string" where
  "rd_name d = rl_name (diff_local d)"

definition rd_namespace :: "'c resource_diff \<Rightarrow> string" where
  "rd_namespace d = rl_namespace (diff_local d)"

definition rd_tag :: "'c resource_diff \<Rightarrow> string" where
  "rd_tag d = rl_tag (diff_local d)"

definition rd_dojo_selector :: "naming_env \<Rightarrow> 'c resource_diff \<Rightarrow> felt option" where
  "rd_dojo_selector E d = rl_dojo_selector E (diff_local d)"

definition rd_resource_type :: "'c resource_diff \<Rightarrow> resource_type" where
  "rd_resource_type d = rl_resource_type (diff_local d)"

definition rd_abi :: "('c \<Rightarrow> 'abi list) \<Rightarrow> 'c resource_diff \<Rightarrow> 'abi list" where
  "rd_abi abi_of d = rl_abi abi_of (diff_local d)"

fun rd_current_class_hash :: "'c resource_diff \<Rightarrow> felt option" where
  "rd_current_class_hash (Created l) = Some (rl_class_hash l)"
| "rd_current_class_hash (Updated _ r) = rr_current_class_hash r"
| "rd_current_class_hash (Synced _ r) = rr_current_class_hash r"

fun rd_metadata_hash :: "'c resource_diff \<Rightarrow> felt" where
  "rd_metadata_hash (Created _) = 0"
| "rd_metadata_hash (Updated _ r) = rr_metadata_hash r"
| "rd_metadata_hash (Synced _ r) = rr_metadata_hash r"

text \<open>\<open>compare.rs\<close>.  A remote resource of another type panics, and so does a namespace of another name.\<close>

definition compare_class :: "'c resource_local \<Rightarrow> 'c common_local_info \<Rightarrow> resource_remote \<Rightarrow> common_remote_info \<Rightarrow> 'c resource_diff option" where
  "compare_class l c r remote =
     map_option (\<lambda>current. if cl_class_hash c = current then Synced l r else Updated l r) (cr_current_class_hash remote)"

fun compare_resource :: "'c resource_local \<Rightarrow> resource_remote \<Rightarrow> 'c resource_diff option" where
  "compare_resource (ContractLocal c systems) r =
     Option.bind (as_contract_or_panic r) (\<lambda>(remote, _). compare_class (ContractLocal c systems) c r remote)"
| "compare_resource (LibraryLocal c systems version) r =
     Option.bind (as_library_or_panic r) (\<lambda>(remote, remote_version).
       map_option (\<lambda>current.
           if cl_class_hash c = current \<and> version = remote_version then Synced (LibraryLocal c systems version) r
           else Created (LibraryLocal c systems version))
         (cr_current_class_hash remote))"
| "compare_resource (ModelLocal c members) r =
     Option.bind (as_model_or_panic r) (\<lambda>remote. compare_class (ModelLocal c members) c r remote)"
| "compare_resource (EventLocal c members) r =
     Option.bind (as_event_or_panic r) (\<lambda>remote. compare_class (EventLocal c members) c r remote)"
| "compare_resource (NamespaceLocal n) r =
     Option.bind (as_namespace_or_panic r) (\<lambda>remote. if n = remote then Some (Synced (NamespaceLocal n) r) else None)"

section \<open>External contracts\<close>

datatype 'c external_class_diff =
    ClassCreated "'c external_contract_class_local"
  | ClassSynced "'c external_contract_class_local"

datatype external_contract_diff =
    ContractCreated external_contract_local
  | ContractSynced external_contract_local

fun class_data :: "'c external_class_diff \<Rightarrow> 'c external_contract_class_local" where
  "class_data (ClassCreated c) = c"
| "class_data (ClassSynced c) = c"

fun contract_data :: "external_contract_diff \<Rightarrow> external_contract_local" where
  "contract_data (ContractCreated c) = c"
| "contract_data (ContractSynced c) = c"

definition external_contract_address :: "external_contract_diff \<Rightarrow> felt" where
  "external_contract_address d = (case d of ContractCreated c \<Rightarrow> ec_address c | ContractSynced c \<Rightarrow> ec_address c)"

section \<open>The difference of two worlds\<close>

datatype world_status = NotDeployed | NewVersion | WorldSynced

record 'c world_status_info =
  wi_address :: felt
  wi_metadata_hash :: felt
  wi_class_hash :: felt
  wi_casm_class_hash :: felt
  wi_class :: 'c
  wi_status :: world_status
  wi_entrypoints :: "string list"

record 'c world_diff =
  world_info :: "'c world_status_info"
  wd_namespaces :: "felt list"
  wd_resources :: "(felt \<times> 'c resource_diff) list"
  wd_profile_config :: profile_config
  wd_external_writers :: "(felt \<times> felt list) list"
  wd_external_owners :: "(felt \<times> felt list) list"
  wd_external_contract_classes :: "(string \<times> 'c external_class_diff) list"
  wd_external_contracts :: "(string \<times> external_contract_diff) list"

text \<open>\<open>from_local\<close>, for a world that is not deployed; \<open>None\<close> where the seed is no short string.\<close>

definition is_local_namespace :: "'c resource_local \<Rightarrow> bool" where
  "is_local_namespace r = (case r of NamespaceLocal _ \<Rightarrow> True | _ \<Rightarrow> False)"

definition diff_from_local :: "address_env \<Rightarrow> 'c world_local \<Rightarrow> 'c world_diff option" where
  "diff_from_local A w =
     map_option (\<lambda>address.
       \<lparr>world_info = \<lparr>wi_address = address, wi_metadata_hash = 0, wi_class_hash = wl_class_hash w,
          wi_casm_class_hash = wl_casm_class_hash w, wi_class = wl_class w, wi_status = NotDeployed,
          wi_entrypoints = wl_entrypoints w\<rparr>,
        wd_namespaces = map fst (filter (\<lambda>(_, r). is_local_namespace r) (wl_resources w)),
        wd_resources = map (\<lambda>(selector, r). (selector, Created r)) (wl_resources w),
        wd_profile_config = wl_profile_config w,
        wd_external_writers = [], wd_external_owners = [],
        wd_external_contract_classes = map (\<lambda>(name, c). (name, ClassCreated c)) (wl_external_contract_classes w),
        wd_external_contracts =
          fold (\<lambda>c m. AList.update (ec_instance_name c) (ContractCreated c) m) (wl_external_contracts w) []\<rparr>)
       (deterministic_world_address A w)"

fun diff_resources ::
  "(felt \<times> 'c resource_local) list \<Rightarrow> (felt \<times> resource_remote) list \<Rightarrow> (felt \<times> 'c resource_diff) list option" where
  "diff_resources [] remote = Some []"
| "diff_resources ((selector, l) # rest) remote =
     (case map_of remote selector of
        None \<Rightarrow> map_option (\<lambda>ds. (selector, Created l) # ds) (diff_resources rest remote)
      | Some r \<Rightarrow>
          Option.bind (compare_resource l r) (\<lambda>d.
          map_option (\<lambda>ds. (selector, d) # ds) (diff_resources rest (AList.delete selector remote))))"

definition diff_new :: "'c world_local \<Rightarrow> world_remote \<Rightarrow> 'c world_diff option" where
  "diff_new l remote =
     Option.bind (wr_current_class_hash remote) (\<lambda>current.
     map_option (\<lambda>resources.
       \<lparr>world_info = \<lparr>wi_address = wr_address remote, wi_metadata_hash = wr_metadata_hash remote,
          wi_class_hash = wl_class_hash l, wi_casm_class_hash = wl_casm_class_hash l, wi_class = wl_class l,
          wi_status = (if wl_class_hash l = current then WorldSynced else NewVersion),
          wi_entrypoints = wl_entrypoints l\<rparr>,
        wd_namespaces = map fst (filter (\<lambda>(_, r). is_local_namespace r) (wl_resources l)),
        wd_resources = resources,
        wd_profile_config = wl_profile_config l,
        wd_external_writers = external_writers remote, wd_external_owners = external_owners remote,
        wd_external_contract_classes =
          map (\<lambda>(name, c). (name, if name \<in> set (declared_external_contract_classes remote) then ClassSynced c else ClassCreated c))
            (wl_external_contract_classes l),
        wd_external_contracts =
          fold (\<lambda>c m. AList.update (ec_instance_name c)
              (if ec_instance_name c \<in> set (deployed_external_contracts remote) then ContractSynced c else ContractCreated c) m)
            (wl_external_contracts l) []\<rparr>)
       (diff_resources (wl_resources l) (wr_resources remote)))"

definition is_synced :: "'c world_diff \<Rightarrow> bool" where
  "is_synced d \<longleftrightarrow> wi_status (world_info d) = WorldSynced \<and>
     list_all (\<lambda>(_, r). case r of Synced _ _ \<Rightarrow> True | _ \<Rightarrow> False) (wd_resources d)"

text \<open>\<open>new_from_chain\<close>, where the outermost option is divergence as in \<^term>\<open>from_events\<close>.\<close>

datatype 'e diff_error = RemoteError "'e remote_error" | SeedError | ClassError

definition external_class_hashes ::
  "('c \<Rightarrow> felt option) \<Rightarrow> (string \<times> 'c external_contract_class_local) list \<Rightarrow> (string \<times> felt) list option" where
  "external_class_hashes class_hash_of classes =
     those (map (\<lambda>(name, c). map_option (Pair name) (class_hash_of (ecl_class c))) classes)"

definition new_from_chain ::
  "bool \<Rightarrow> naming_env \<Rightarrow> address_env \<Rightarrow> (string \<Rightarrow> bool) \<Rightarrow> ('c \<Rightarrow> felt option) \<Rightarrow> felt \<Rightarrow> 'c world_local
    \<Rightarrow> (world_event option, 'tok, 'e) event_provider \<Rightarrow> u64 option \<Rightarrow> u64 \<Rightarrow> string list
    \<Rightarrow> ('c world_diff, 'e diff_error) result option option" where
  "new_from_chain oc E A utf8 class_hash_of world_address l P from_block max_block_range whitelisted_namespaces =
     (case contract_lookup P world_address of
        LookupFailed e \<Rightarrow> Some (Some (Err (RemoteError (ProviderError e))))
      | NotFound \<Rightarrow> Some (Some (ok_or (diff_from_local A l) SeedError))
      | Found \<Rightarrow>
          Option.bind
            (from_events oc E utf8 world_address P from_block max_block_range
               (if whitelisted_namespaces = [] then None else Some whitelisted_namespaces))
            (\<lambda>r. Some (case r of
               None \<Rightarrow> None
             | Some (Inl e) \<Rightarrow> Some (Err (RemoteError e))
             | Some (Inr remote) \<Rightarrow>
                 (case external_class_hashes class_hash_of (wl_external_contract_classes l) of
                    None \<Rightarrow> Some (Err ClassError)
                  | Some classes \<Rightarrow>
                      (case load_external_contract_states P classes
                          (fold (\<lambda>c m. AList.update (ec_instance_name c) (ec_address c) m) (wl_external_contracts l) []) remote of
                         Inl e \<Rightarrow> Some (Err (RemoteError e))
                       | Inr remote' \<Rightarrow> map_option Ok (diff_new l remote'))))))"

section \<open>Addresses and permissions\<close>

record permission_grantee =
  pg_tag :: "string option"
  pg_address :: felt

record diff_permissions =
  dp_local :: "permission_grantee list"
  dp_remote :: "permission_grantee list"

definition only_local :: "diff_permissions \<Rightarrow> permission_grantee list" where
  "only_local p = filter (\<lambda>g. g \<notin> set (dp_remote p)) (remdups (dp_local p))"

definition only_remote :: "diff_permissions \<Rightarrow> permission_grantee list" where
  "only_remote p = filter (\<lambda>g. g \<notin> set (dp_local p)) (remdups (dp_remote p))"

definition dp_synced :: "diff_permissions \<Rightarrow> permission_grantee list" where
  "dp_synced p = filter (\<lambda>g. g \<in> set (dp_remote p)) (remdups (dp_local p))"

definition dp_is_empty :: "diff_permissions \<Rightarrow> bool" where
  "dp_is_empty p \<longleftrightarrow> dp_local p = [] \<and> dp_remote p = []"

text \<open>\<open>get_contract_address\<close>: the address a contract will get, or has.\<close>

definition get_contract_address :: "address_env \<Rightarrow> 'c world_diff \<Rightarrow> felt \<Rightarrow> felt option option" where
  "get_contract_address A d selector =
     (case map_of (wd_resources d) selector of
        None \<Rightarrow> Some None
      | Some r \<Rightarrow>
          if rd_resource_type r = RT_Contract then
            (case r of
               Created (ContractLocal c _) \<Rightarrow>
                 Some (Some (compute_dojo_contract_address A selector (cl_class_hash c) (wi_address (world_info d))))
             | Updated _ (ContractRemote c _) \<Rightarrow> Some (Some (cr_address c))
             | Synced _ (ContractRemote c _) \<Rightarrow> Some (Some (cr_address c))
             | _ \<Rightarrow> None)
          else Some None)"

definition get_contract_address_from_tag :: "naming_env \<Rightarrow> address_env \<Rightarrow> 'c world_diff \<Rightarrow> string \<Rightarrow> felt option option" where
  "get_contract_address_from_tag E A d tag = Option.bind (compute_selector_from_tag E tag) (get_contract_address A d)"

fun addresses_of :: "address_env \<Rightarrow> 'c world_diff \<Rightarrow> felt list \<Rightarrow> (felt \<times> felt) list option" where
  "addresses_of A d [] = Some []"
| "addresses_of A d (selector # rest) =
     Option.bind (get_contract_address A d selector) (\<lambda>a.
     map_option (\<lambda>m. case a of None \<Rightarrow> m | Some address \<Rightarrow> (selector, address) # m) (addresses_of A d rest))"

definition get_contracts_addresses :: "address_env \<Rightarrow> 'c world_diff \<Rightarrow> (felt \<times> felt) list option" where
  "get_contracts_addresses A d = addresses_of A d (map fst (wd_resources d))"

definition resolve_local_grantee :: "naming_env \<Rightarrow> address_env \<Rightarrow> 'c world_diff \<Rightarrow> string \<Rightarrow> permission_grantee option" where
  "resolve_local_grantee E A d tag =
     Option.bind (compute_selector_from_tag E tag) (\<lambda>selector.
     Option.bind (get_contract_address A d selector) (\<lambda>a.
     map_option (\<lambda>address. \<lparr>pg_tag = Some tag, pg_address = address\<rparr>) a))"

definition resolve_remote_grantee :: "address_env \<Rightarrow> 'c world_diff \<Rightarrow> felt \<Rightarrow> permission_grantee option" where
  "resolve_remote_grantee A d contract_address =
     Option.bind (get_contracts_addresses A d) (\<lambda>known_addresses.
       case find (\<lambda>(_, address). address = contract_address) known_addresses of
         None \<Rightarrow> Some \<lparr>pg_tag = None, pg_address = contract_address\<rparr>
       | Some (selector, _) \<Rightarrow>
           map_option (\<lambda>r. \<lparr>pg_tag = Some (rd_tag r), pg_address = contract_address\<rparr>) (map_of (wd_resources d) selector))"

definition diff_permissions_of ::
  "naming_env \<Rightarrow> address_env \<Rightarrow> 'c world_diff \<Rightarrow> string list \<Rightarrow> felt list \<Rightarrow> diff_permissions option" where
  "diff_permissions_of E A d local_tags remote_addresses =
     Option.bind (those (map (resolve_local_grantee E A d) local_tags)) (\<lambda>local_grantees.
     map_option (\<lambda>remote_grantees. \<lparr>dp_local = local_grantees, dp_remote = remote_grantees\<rparr>)
       (those (map (resolve_remote_grantee A d) remote_addresses)))"

definition get_writers :: "naming_env \<Rightarrow> address_env \<Rightarrow> 'c world_diff \<Rightarrow> felt \<Rightarrow> diff_permissions option" where
  "get_writers E A d selector =
     (case map_of (wd_resources d) selector of
        None \<Rightarrow> Some \<lparr>dp_local = [], dp_remote = []\<rparr>
      | Some r \<Rightarrow>
          let local_writers = get_local_writers (wd_profile_config d) (rd_tag r) in
          case r of
            Created _ \<Rightarrow> diff_permissions_of E A d local_writers []
          | Updated _ remote \<Rightarrow> Option.bind (rr_get_writers E remote) (\<lambda>ws. diff_permissions_of E A d local_writers (snd ws))
          | Synced _ remote \<Rightarrow> Option.bind (rr_get_writers E remote) (\<lambda>ws. diff_permissions_of E A d local_writers (snd ws)))"

definition get_owners :: "naming_env \<Rightarrow> address_env \<Rightarrow> 'c world_diff \<Rightarrow> felt \<Rightarrow> diff_permissions option" where
  "get_owners E A d selector =
     (case map_of (wd_resources d) selector of
        None \<Rightarrow> Some \<lparr>dp_local = [], dp_remote = []\<rparr>
      | Some r \<Rightarrow>
          let local_owners = get_local_owners (wd_profile_config d) (rd_tag r) in
          case r of
            Created _ \<Rightarrow> diff_permissions_of E A d local_owners []
          | Updated _ remote \<Rightarrow> Option.bind (rr_get_owners E remote) (\<lambda>os. diff_permissions_of E A d local_owners (snd os))
          | Synced _ remote \<Rightarrow> Option.bind (rr_get_owners E remote) (\<lambda>os. diff_permissions_of E A d local_owners (snd os)))"

definition get_class :: "'c world_diff \<Rightarrow> felt \<Rightarrow> 'c option" where
  "get_class d selector =
     Option.bind (map_of (wd_resources d) selector) (\<lambda>r.
       case diff_local r of ContractLocal c _ \<Rightarrow> Some (cl_class c) | _ \<Rightarrow> None)"

end
