(* ===== verification/World_Manifest.thy ===== *)
theory World_Manifest
  imports World_Diff
begin

text \<open>
  The manifest written after a migration (\<open>dojo/world/src/diff/manifest.rs\<close>): one entry for every
  resource of the difference that is not skipped, sorted by tag.  The abi of a class belongs to the
  Starknet library and \<open>abi_of\<close> is a parameter.  \<open>None\<close> is a panic.
\<close>

section \<open>Entries\<close>

record 'abi manifest_world =
  mw_class_hash :: felt
  mw_address :: felt
  mw_seed :: string
  mw_name :: string
  mw_entrypoints :: "string list"
  mw_abi :: "'abi list"

record 'abi dojo_contract =
  dc_address :: felt
  dc_class_hash :: felt
  dc_abi :: "'abi list"
  dc_init_calldata :: "string list"
  dc_tag :: string
  dc_selector :: felt
  dc_systems :: "string list"

record 'abi dojo_library =
  dl_class_hash :: felt
  dl_abi :: "'abi list"
  dl_tag :: string
  dl_selector :: felt
  dl_systems :: "string list"
  dl_version :: string

record dojo_model =
  dm_members :: "resource_member list"
  dm_class_hash :: felt
  dm_tag :: string
  dm_selector :: felt

record dojo_event =
  de_members :: "resource_member list"
  de_class_hash :: felt
  de_tag :: string
  de_selector :: felt

record 'abi manifest_external =
  me_class_hash :: felt
  me_contract_name :: string
  me_instance_name :: string
  me_address :: felt
  me_abi :: "'abi list"
  me_constructor_calldata :: "string list"

record 'abi manifest =
  mf_world :: "'abi manifest_world"
  mf_contracts :: "'abi dojo_contract list"
  mf_libraries :: "'abi dojo_library list"
  mf_models :: "dojo_model list"
  mf_events :: "dojo_event list"
  mf_external_contracts :: "'abi manifest_external list"

definition init_calldata_of :: "profile_config \<Rightarrow> string \<Rightarrow> string list" where
  "init_calldata_of c tag = tags_for (init_call_args c) tag"

definition contract_entry ::
  "('c \<Rightarrow> 'abi list) \<Rightarrow> profile_config \<Rightarrow> string \<Rightarrow> 'c common_local_info \<Rightarrow> string list \<Rightarrow> felt \<Rightarrow> felt \<Rightarrow> 'abi dojo_contract" where
  "contract_entry abi_of conf tag c systems address selector =
     \<lparr>dc_address = address, dc_class_hash = cl_class_hash c, dc_abi = abi_of (cl_class c),
      dc_init_calldata = init_calldata_of conf tag, dc_tag = tag, dc_selector = selector, dc_systems = systems\<rparr>"

definition resource_diff_to_dojo_contract ::
  "('c \<Rightarrow> 'abi list) \<Rightarrow> naming_env \<Rightarrow> address_env \<Rightarrow> 'c world_diff \<Rightarrow> 'c resource_diff \<Rightarrow> 'abi dojo_contract option" where
  "resource_diff_to_dojo_contract abi_of E A d r =
     (let entry = contract_entry abi_of (wd_profile_config d) (rd_tag r) in
      case r of
        Created (ContractLocal c systems) \<Rightarrow>
          Option.bind (rd_dojo_selector E r) (\<lambda>selector.
          Option.bind (Option.bind (get_contract_address A d selector) (\<lambda>a. a)) (\<lambda>address.
            Some (entry c systems address selector)))
      | Updated (ContractLocal c systems) (ContractRemote remote _) \<Rightarrow>
          map_option (entry c systems (cr_address remote)) (rd_dojo_selector E r)
      | Synced (ContractLocal c systems) (ContractRemote remote _) \<Rightarrow>
          map_option (entry c systems (cr_address remote)) (rd_dojo_selector E r)
      | _ \<Rightarrow> None)"

definition library_entry ::
  "('c \<Rightarrow> 'abi list) \<Rightarrow> string \<Rightarrow> string \<Rightarrow> 'c common_local_info \<Rightarrow> string list \<Rightarrow> felt \<Rightarrow> 'abi dojo_library" where
  "library_entry abi_of tag version c systems selector =
     \<lparr>dl_class_hash = cl_class_hash c, dl_abi = abi_of (cl_class c), dl_tag = tag, dl_selector = selector,
      dl_systems = systems, dl_version = version\<rparr>"

definition resource_diff_to_dojo_library ::
  "('c \<Rightarrow> 'abi list) \<Rightarrow> naming_env \<Rightarrow> 'c world_diff \<Rightarrow> 'c resource_diff \<Rightarrow> 'abi dojo_library option" where
  "resource_diff_to_dojo_library abi_of E d r =
     Option.bind (Option.bind (lib_versions (wd_profile_config d)) (\<lambda>vs. map_of vs (rd_tag r))) (\<lambda>version.
       let entry = library_entry abi_of (rd_tag r @ ''_v'' @ version) version in
       case r of
         Created (LibraryLocal c systems _) \<Rightarrow> map_option (entry c systems) (rd_dojo_selector E r)
       | Updated (LibraryLocal c systems _) (LibraryRemote _ _) \<Rightarrow> map_option (entry c systems) (rd_dojo_selector E r)
       | Synced (LibraryLocal c systems _) (LibraryRemote _ _) \<Rightarrow> map_option (entry c systems) (rd_dojo_selector E r)
       | _ \<Rightarrow> None)"

definition resource_diff_to_dojo_model :: "naming_env \<Rightarrow> 'c resource_diff \<Rightarrow> dojo_model option" where
  "resource_diff_to_dojo_model E r =
     (case diff_local r of
        ModelLocal c members \<Rightarrow>
          map_option (\<lambda>selector. \<lparr>dm_members = members, dm_class_hash = cl_class_hash c, dm_tag = rd_tag r, dm_selector = selector\<rparr>)
            (rd_dojo_selector E r)
      | _ \<Rightarrow> None)"

definition resource_diff_to_dojo_event :: "naming_env \<Rightarrow> 'c resource_diff \<Rightarrow> dojo_event option" where
  "resource_diff_to_dojo_event E r =
     (case diff_local r of
        EventLocal c members \<Rightarrow>
          map_option (\<lambda>selector. \<lparr>de_members = members, de_class_hash = cl_class_hash c, de_tag = rd_tag r, de_selector = selector\<rparr>)
            (rd_dojo_selector E r)
      | _ \<Rightarrow> None)"

section \<open>The manifest\<close>

text \<open>\<open>sort_by_key\<close> is stable, and strings are ordered by their bytes.\<close>

definition sort_by_tag :: "('a \<Rightarrow> string) \<Rightarrow> 'a list \<Rightarrow> 'a list" where
  "sort_by_tag key xs = sort_key (\<lambda>x. map (of_char :: char \<Rightarrow> nat) (key x)) xs"

definition of_type :: "resource_type \<Rightarrow> 'c world_diff \<Rightarrow> 'c resource_diff list" where
  "of_type ty d =
     filter (\<lambda>r. \<not> is_skipped (wd_profile_config d) (rd_tag r) \<and> rd_resource_type r = ty) (map snd (wd_resources d))"

definition external_entry ::
  "('c \<Rightarrow> 'abi list) \<Rightarrow> 'c world_diff \<Rightarrow> external_contract_diff \<Rightarrow> 'abi manifest_external" where
  "external_entry abi_of d x =
     (let c = contract_data x in
      \<lparr>me_class_hash = ec_class_hash c, me_contract_name = ec_contract_name c, me_instance_name = ec_instance_name c,
       me_address = ec_address c,
       me_abi = (case map_of (wd_external_contract_classes d) (ec_contract_name c) of
           None \<Rightarrow> [] | Some k \<Rightarrow> abi_of (ecl_class (class_data k))),
       me_constructor_calldata = ec_constructor_data c\<rparr>)"

text \<open>The loop visits the resources once; the entries of the four types do not interact, and any
  panic ends it.\<close>

definition new_manifest ::
  "('c \<Rightarrow> 'abi list) \<Rightarrow> naming_env \<Rightarrow> address_env \<Rightarrow> 'c world_diff \<Rightarrow> 'abi manifest option" where
  "new_manifest abi_of E A d =
     Option.bind (those (map (resource_diff_to_dojo_contract abi_of E A d) (of_type RT_Contract d))) (\<lambda>contracts.
     Option.bind (those (map (resource_diff_to_dojo_library abi_of E d) (of_type RT_Library d))) (\<lambda>libraries.
     Option.bind (those (map (resource_diff_to_dojo_model E) (of_type RT_Model d))) (\<lambda>models.
     map_option (\<lambda>events.
       \<lparr>mf_world = \<lparr>mw_class_hash = wi_class_hash (world_info d), mw_address = wi_address (world_info d),
          mw_seed = world_seed (wd_profile_config d), mw_name = world_name (wd_profile_config d),
          mw_entrypoints = wi_entrypoints (world_info d), mw_abi = abi_of (wi_class (world_info d))\<rparr>,
        mf_contracts = sort_by_tag dc_tag contracts,
        mf_libraries = sort_by_tag dl_tag libraries,
        mf_models = sort_by_tag dm_tag models,
        mf_events = sort_by_tag de_tag events,
        mf_external_contracts =
          sort_by_tag me_instance_name (map (\<lambda>(_, x). external_entry abi_of d x) (wd_external_contracts d))\<rparr>)
       (those (map (resource_diff_to_dojo_event E) (of_type RT_Event d))))))"

definition manifest_contract_address :: "'abi manifest \<Rightarrow> string \<Rightarrow> felt option" where
  "manifest_contract_address m tag = map_option dc_address (find (\<lambda>c. dc_tag c = tag) (mf_contracts m))"

section \<open>Lookup by tag\<close>

lemma those_Some_in: "those xs = Some ys \<Longrightarrow> y \<in> set ys \<longleftrightarrow> Some y \<in> set xs"
  by (induction xs arbitrary: ys) (auto split: option.splits)

lemma new_manifest_contracts:
  assumes "new_manifest abi_of E A d = Some m"
  shows "c \<in> set (mf_contracts m) \<longleftrightarrow>
    (\<exists>r \<in> set (of_type RT_Contract d). resource_diff_to_dojo_contract abi_of E A d r = Some c)"
proof -
  obtain cs where cs: "those (map (resource_diff_to_dojo_contract abi_of E A d) (of_type RT_Contract d)) = Some cs"
    and m: "mf_contracts m = sort_by_tag dc_tag cs"
    using assms by (auto simp: new_manifest_def bind_eq_Some_conv)
  have "c \<in> set (mf_contracts m) \<longleftrightarrow> c \<in> set cs" by (simp add: m sort_by_tag_def)
  then show ?thesis using those_Some_in [OF cs, of c] by force
qed

end
