(* ===== verification/World_Contract.thy ===== *)
theory World_Contract
  imports World_Events
begin

text \<open>
  The management half of the world contract (\<open>dojo/core/src/world/world_contract.cairo\<close>): registration
  and upgrade of resources, permissions, initialization and metadata, with the events each emits.

  The state is the storage of the contract with what the chain knows of classes and contracts: the
  declared classes and the class at every address.  A call that panics is reverted and gives \<open>None\<close>.
  Texts are byte arrays.  What the classes themselves answer is a parameter: the name a class returns
  from \<open>dojo_name\<close>, whether the layouts and schemas of two classes allow an upgrade, and what the
  initializer of a contract does, which may call the world again.
\<close>

section \<open>State\<close>

datatype permission = Writer | Owner

datatype world_resource =
    ResWorld
  | ResNamespace string
  | ResContract felt felt
  | ResModel felt felt
  | ResEvent felt felt
  | ResLibrary felt felt

text \<open>\<open>Resource::Unregistered\<close> is the absence of an entry.\<close>

record world_state =
  ws_resources :: "felt \<rightharpoonup> world_resource"
  ws_owners :: "(felt \<times> felt) set"
  ws_writers :: "(felt \<times> felt) set"
  ws_initialized :: "felt set"
  models_salt :: u32
  events_salt :: u32
  ws_declared :: "felt set"
  ws_class_at :: "felt \<rightharpoonup> felt"

record contract_env =
  ce_naming :: naming_env
  ce_addresses :: address_env
  ce_world :: felt
  dojo_name_of :: "felt \<Rightarrow> string option"
  upgradable :: "felt \<Rightarrow> felt \<Rightarrow> bool"
  dojo_init :: "felt \<Rightarrow> felt list \<Rightarrow> world_state \<Rightarrow> (world_state \<times> world_event list) option"

definition is_owner :: "world_state \<Rightarrow> felt \<Rightarrow> felt \<Rightarrow> bool" where
  "is_owner s resource address \<longleftrightarrow> (resource, address) \<in> ws_owners s"

definition is_writer :: "world_state \<Rightarrow> felt \<Rightarrow> felt \<Rightarrow> bool" where
  "is_writer s resource contract \<longleftrightarrow> (resource, contract) \<in> ws_writers s"

definition namespace_of_resource :: "world_resource \<Rightarrow> felt option" where
  "namespace_of_resource r =
     (case r of ResContract _ ns \<Rightarrow> Some ns | ResModel _ ns \<Rightarrow> Some ns | ResEvent _ ns \<Rightarrow> Some ns | _ \<Rightarrow> None)"

text \<open>Whether \<open>assert_caller_permissions\<close> returns.\<close>

definition assert_caller_permissions :: "felt \<Rightarrow> felt \<Rightarrow> permission \<Rightarrow> world_state \<Rightarrow> bool" where
  "assert_caller_permissions caller selector p s =
     (if p = Writer \<and> is_writer s selector caller then True
      else if is_owner s selector caller then True
      else if is_owner s WORLD caller then True
      else case Option.bind (ws_resources s selector) namespace_of_resource of
        None \<Rightarrow> False
      | Some namespace_hash \<Rightarrow>
          if p = Writer \<and> is_writer s namespace_hash caller then True
          else is_owner s namespace_hash caller)"

definition is_namespace_registered :: "world_state \<Rightarrow> felt \<Rightarrow> bool" where
  "is_namespace_registered s namespace_hash =
     (case ws_resources s namespace_hash of Some (ResNamespace _) \<Rightarrow> True | _ \<Rightarrow> False)"

text \<open>\<open>deploy_syscall\<close> without constructor data: the class must be declared and the address free.\<close>

definition deploy_syscall :: "contract_env \<Rightarrow> felt \<Rightarrow> felt \<Rightarrow> world_state \<Rightarrow> (felt \<times> world_state) option" where
  "deploy_syscall C class_hash salt s =
     (let address = contract_address_of (ce_addresses C) salt class_hash [] (ce_world C) in
      if class_hash \<in> ws_declared s \<and> ws_class_at s address = None
      then Some (address, s\<lparr>ws_class_at := (ws_class_at s)(address \<mapsto> class_hash)\<rparr>)
      else None)"

definition bump_salt :: "u32 \<Rightarrow> u32 option" where
  "bump_salt salt = (if salt + 1 = 0 then None else Some (salt + 1))"

definition salt_felt :: "u32 \<Rightarrow> felt" where
  "salt_felt salt = felt (unat salt)"

section \<open>The constructor\<close>

definition internal_namespace :: string where
  "internal_namespace = ''__DOJO__''"

definition world_constructor :: "contract_env \<Rightarrow> felt \<Rightarrow> felt \<Rightarrow> world_state \<Rightarrow> (world_state \<times> world_event list) option" where
  "world_constructor C creator world_class_hash s =
     Option.bind (compute_bytearray_hash (ce_naming C) internal_namespace) (\<lambda>ns_hash.
     map_option (\<lambda>name_hash.
       (s\<lparr>ws_resources := Map.empty(ns_hash \<mapsto> ResNamespace internal_namespace, WORLD \<mapsto> ResWorld,
            compute_selector_from_hashes (ce_naming C) ns_hash name_hash \<mapsto> ResModel 0 0),
          ws_owners := {(ns_hash, creator), (WORLD, creator)}, ws_writers := {}, ws_initialized := {},
          models_salt := 0, events_salt := 0\<rparr>,
        [WorldSpawned creator world_class_hash]))
     (compute_bytearray_hash (ce_naming C) ''ResourceMetadata''))"

section \<open>Registration and upgrade\<close>

text \<open>Models and events are registered in the same way, with a salt, a constructor of the resource and
  an event of their own.\<close>

definition register_stored ::
  "contract_env \<Rightarrow> felt \<Rightarrow> string \<Rightarrow> felt \<Rightarrow> felt \<Rightarrow> (felt \<Rightarrow> felt \<Rightarrow> world_resource) \<Rightarrow> (string \<Rightarrow> felt \<Rightarrow> world_event)
    \<Rightarrow> world_state \<Rightarrow> (world_state \<times> world_event list) option" where
  "register_stored C caller namespace class_hash salt mk ev s =
     Option.bind (compute_bytearray_hash (ce_naming C) namespace) (\<lambda>namespace_hash.
     Option.bind (deploy_syscall C class_hash salt s) (\<lambda>(address, s1).
     Option.bind (dojo_name_of C class_hash) (\<lambda>name.
     Option.bind (compute_bytearray_hash (ce_naming C) name) (\<lambda>name_hash.
       let selector = compute_selector_from_hashes (ce_naming C) namespace_hash name_hash in
       if is_name_valid name \<and> is_namespace_registered s1 namespace_hash
          \<and> assert_caller_permissions caller namespace_hash Owner s1 \<and> ws_resources s1 selector = None
       then Some (s1\<lparr>ws_resources := (ws_resources s1)(selector \<mapsto> mk address namespace_hash),
                    ws_owners := insert (selector, caller) (ws_owners s1)\<rparr>,
                  [ev name address])
       else None))))"

definition ws_register_model ::
  "contract_env \<Rightarrow> felt \<Rightarrow> string \<Rightarrow> felt \<Rightarrow> world_state \<Rightarrow> (world_state \<times> world_event list) option" where
  "ws_register_model C caller namespace class_hash s =
     Option.bind (bump_salt (models_salt s)) (\<lambda>salt.
       register_stored C caller namespace class_hash (salt_felt (models_salt s)) ResModel
         (\<lambda>name address. ModelRegistered name namespace class_hash address) (s\<lparr>models_salt := salt\<rparr>))"

definition ws_register_event ::
  "contract_env \<Rightarrow> felt \<Rightarrow> string \<Rightarrow> felt \<Rightarrow> world_state \<Rightarrow> (world_state \<times> world_event list) option" where
  "ws_register_event C caller namespace class_hash s =
     Option.bind (bump_salt (events_salt s)) (\<lambda>salt.
       register_stored C caller namespace class_hash (salt_felt (events_salt s)) ResEvent
         (\<lambda>name address. EventRegistered name namespace class_hash address) (s\<lparr>events_salt := salt\<rparr>))"

definition upgrade_stored ::
  "contract_env \<Rightarrow> felt \<Rightarrow> string \<Rightarrow> felt \<Rightarrow> felt \<Rightarrow> (world_resource \<Rightarrow> felt option) \<Rightarrow> (felt \<Rightarrow> felt \<Rightarrow> world_resource)
    \<Rightarrow> (felt \<Rightarrow> felt \<Rightarrow> felt \<Rightarrow> world_event) \<Rightarrow> world_state \<Rightarrow> (world_state \<times> world_event list) option" where
  "upgrade_stored C caller namespace class_hash salt dest mk ev s =
     Option.bind (deploy_syscall C class_hash salt s) (\<lambda>(new_address, s1).
     Option.bind (compute_bytearray_hash (ce_naming C) namespace) (\<lambda>namespace_hash.
     Option.bind (dojo_name_of C class_hash) (\<lambda>name.
     Option.bind (compute_bytearray_hash (ce_naming C) name) (\<lambda>name_hash.
       let selector = compute_selector_from_hashes (ce_naming C) namespace_hash name_hash in
       if is_namespace_registered s1 namespace_hash \<and> assert_caller_permissions caller selector Owner s1 then
         Option.bind (Option.bind (ws_resources s1 selector) dest) (\<lambda>prev_address.
         Option.bind (ws_class_at s1 prev_address) (\<lambda>prev_class.
           if upgradable C prev_class class_hash
           then Some (s1\<lparr>ws_resources := (ws_resources s1)(selector \<mapsto> mk new_address namespace_hash)\<rparr>,
                      [ev selector new_address prev_address])
           else None))
       else None))))"

definition ws_upgrade_model ::
  "contract_env \<Rightarrow> felt \<Rightarrow> string \<Rightarrow> felt \<Rightarrow> world_state \<Rightarrow> (world_state \<times> world_event list) option" where
  "ws_upgrade_model C caller namespace class_hash s =
     Option.bind (bump_salt (models_salt s)) (\<lambda>salt.
       upgrade_stored C caller namespace class_hash (salt_felt (models_salt s))
         (\<lambda>r. case r of ResModel a _ \<Rightarrow> Some a | _ \<Rightarrow> None) ResModel
         (\<lambda>selector address prev. ModelUpgraded selector class_hash address prev) (s\<lparr>models_salt := salt\<rparr>))"

definition ws_upgrade_event ::
  "contract_env \<Rightarrow> felt \<Rightarrow> string \<Rightarrow> felt \<Rightarrow> world_state \<Rightarrow> (world_state \<times> world_event list) option" where
  "ws_upgrade_event C caller namespace class_hash s =
     Option.bind (bump_salt (events_salt s)) (\<lambda>salt.
       upgrade_stored C caller namespace class_hash (salt_felt (events_salt s))
         (\<lambda>r. case r of ResEvent a _ \<Rightarrow> Some a | _ \<Rightarrow> None) ResEvent
         (\<lambda>selector address prev. EventUpgraded selector class_hash address prev) (s\<lparr>events_salt := salt\<rparr>))"

definition ws_register_namespace ::
  "contract_env \<Rightarrow> felt \<Rightarrow> string \<Rightarrow> world_state \<Rightarrow> (world_state \<times> world_event list) option" where
  "ws_register_namespace C caller namespace s =
     (if \<not> is_name_valid namespace then None
      else Option.bind (compute_bytearray_hash (ce_naming C) namespace) (\<lambda>hash.
        case ws_resources s hash of
          Some _ \<Rightarrow> None
        | None \<Rightarrow>
            Some (s\<lparr>ws_resources := (ws_resources s)(hash \<mapsto> ResNamespace namespace),
                    ws_owners := insert (hash, caller) (ws_owners s)\<rparr>,
                  [NamespaceRegistered namespace hash])))"

definition ws_register_contract ::
  "contract_env \<Rightarrow> felt \<Rightarrow> felt \<Rightarrow> string \<Rightarrow> felt \<Rightarrow> world_state \<Rightarrow> (world_state \<times> world_event list) option" where
  "ws_register_contract C caller salt namespace class_hash s =
     Option.bind (deploy_syscall C class_hash salt s) (\<lambda>(address, s1).
     Option.bind (compute_bytearray_hash (ce_naming C) namespace) (\<lambda>namespace_hash.
     Option.bind (dojo_name_of C class_hash) (\<lambda>name.
     Option.bind (compute_bytearray_hash (ce_naming C) name) (\<lambda>name_hash.
       let selector = compute_selector_from_hashes (ce_naming C) namespace_hash name_hash in
       if is_name_valid name \<and> ws_resources s1 selector = None \<and> is_namespace_registered s1 namespace_hash
          \<and> assert_caller_permissions caller namespace_hash Owner s1
       then Some (s1\<lparr>ws_owners := insert (selector, caller) (ws_owners s1),
                    ws_resources := (ws_resources s1)(selector \<mapsto> ResContract address namespace_hash)\<rparr>,
                  [ContractRegistered name namespace address class_hash salt])
       else None))))"

text \<open>The salt of the trial deployment of an upgrade is a hash of the transaction and the namespace.  The
  component of the contract checks that the new class is not zero and answers \<open>dojo_name\<close>.\<close>

definition ws_upgrade_contract ::
  "contract_env \<Rightarrow> felt \<Rightarrow> felt \<Rightarrow> string \<Rightarrow> felt \<Rightarrow> world_state \<Rightarrow> (world_state \<times> world_event list) option" where
  "ws_upgrade_contract C caller tx_hash namespace class_hash s =
     Option.bind (compute_bytearray_hash (ce_naming C) namespace) (\<lambda>namespace_hash.
     Option.bind (deploy_syscall C class_hash (poseidon_hash_many (ce_naming C) [tx_hash, namespace_hash]) s) (\<lambda>(_, s1).
     Option.bind (dojo_name_of C class_hash) (\<lambda>name.
     Option.bind (compute_bytearray_hash (ce_naming C) name) (\<lambda>name_hash.
       let selector = compute_selector_from_hashes (ce_naming C) namespace_hash name_hash in
       case ws_resources s1 selector of
         Some (ResContract address _) \<Rightarrow>
           if assert_caller_permissions caller selector Owner s1 \<and> class_hash \<noteq> 0
           then Some (s1\<lparr>ws_class_at := (ws_class_at s1)(address \<mapsto> class_hash)\<rparr>, [ContractUpgraded selector class_hash])
           else None
       | _ \<Rightarrow> None))))"

definition ws_register_library ::
  "contract_env \<Rightarrow> felt \<Rightarrow> string \<Rightarrow> felt \<Rightarrow> string \<Rightarrow> string \<Rightarrow> world_state \<Rightarrow> (world_state \<times> world_event list) option" where
  "ws_register_library C caller namespace class_hash name version s =
     (let contract_name = name @ ''_v'' @ version in
      Option.bind (compute_bytearray_hash (ce_naming C) namespace) (\<lambda>namespace_hash.
      Option.bind (compute_bytearray_hash (ce_naming C) contract_name) (\<lambda>name_hash.
        let selector = compute_selector_from_hashes (ce_naming C) namespace_hash name_hash in
        if is_name_valid contract_name \<and> ws_resources s selector = None \<and> is_namespace_registered s namespace_hash
           \<and> assert_caller_permissions caller namespace_hash Owner s
        then Some (s\<lparr>ws_owners := insert (selector, caller) (ws_owners s),
                     ws_resources := (ws_resources s)(selector \<mapsto> ResLibrary class_hash namespace_hash)\<rparr>,
                   [LibraryRegistered contract_name namespace class_hash])
        else None)))"

section \<open>Permissions, initialization, metadata, the world itself\<close>

definition grant_owner :: "felt \<Rightarrow> felt \<Rightarrow> felt \<Rightarrow> world_state \<Rightarrow> (world_state \<times> world_event list) option" where
  "grant_owner caller resource address s =
     (if ws_resources s resource = None \<or> \<not> assert_caller_permissions caller resource Owner s then None
      else Some (s\<lparr>ws_owners := insert (resource, address) (ws_owners s)\<rparr>, [OwnerUpdated resource address True]))"

definition revoke_owner :: "felt \<Rightarrow> felt \<Rightarrow> felt \<Rightarrow> world_state \<Rightarrow> (world_state \<times> world_event list) option" where
  "revoke_owner caller resource address s =
     (if ws_resources s resource = None \<or> \<not> assert_caller_permissions caller resource Owner s then None
      else Some (s\<lparr>ws_owners := ws_owners s - {(resource, address)}\<rparr>, [OwnerUpdated resource address False]))"

definition grant_writer :: "felt \<Rightarrow> felt \<Rightarrow> felt \<Rightarrow> world_state \<Rightarrow> (world_state \<times> world_event list) option" where
  "grant_writer caller resource contract s =
     (if ws_resources s resource = None \<or> \<not> assert_caller_permissions caller resource Owner s then None
      else Some (s\<lparr>ws_writers := insert (resource, contract) (ws_writers s)\<rparr>, [WriterUpdated resource contract True]))"

definition revoke_writer :: "felt \<Rightarrow> felt \<Rightarrow> felt \<Rightarrow> world_state \<Rightarrow> (world_state \<times> world_event list) option" where
  "revoke_writer caller resource contract s =
     (if ws_resources s resource = None \<or> \<not> assert_caller_permissions caller resource Owner s then None
      else Some (s\<lparr>ws_writers := ws_writers s - {(resource, contract)}\<rparr>, [WriterUpdated resource contract False]))"

definition init_contract ::
  "contract_env \<Rightarrow> felt \<Rightarrow> felt \<Rightarrow> felt list \<Rightarrow> world_state \<Rightarrow> (world_state \<times> world_event list) option" where
  "init_contract C caller selector init_calldata s =
     (case ws_resources s selector of
        Some (ResContract address _) \<Rightarrow>
          if selector \<in> ws_initialized s \<or> \<not> assert_caller_permissions caller selector Owner s then None
          else map_option (\<lambda>(s1, evs).
                 (s1\<lparr>ws_initialized := insert selector (ws_initialized s1)\<rparr>, evs @ [ContractInitialized selector init_calldata]))
               (dojo_init C address init_calldata s)
      | _ \<Rightarrow> None)"

definition ws_set_metadata :: "felt \<Rightarrow> felt \<Rightarrow> string \<Rightarrow> felt \<Rightarrow> world_state \<Rightarrow> (world_state \<times> world_event list) option" where
  "ws_set_metadata caller resource_id uri hash s =
     (if assert_caller_permissions caller resource_id Owner s then Some (s, [MetadataUpdate resource_id uri hash]) else None)"

definition upgrade_world :: "contract_env \<Rightarrow> felt \<Rightarrow> felt \<Rightarrow> world_state \<Rightarrow> (world_state \<times> world_event list) option" where
  "upgrade_world C caller new_class_hash s =
     (if new_class_hash = 0 \<or> \<not> is_owner s WORLD caller \<or> new_class_hash \<notin> ws_declared s then None
      else Some (s\<lparr>ws_class_at := (ws_class_at s)(ce_world C \<mapsto> new_class_hash)\<rparr>, [WorldUpgraded new_class_hash]))"

section \<open>Calls and transactions\<close>

datatype world_call =
    RegisterNamespace string
  | RegisterContract felt string felt
  | UpgradeContract string felt
  | RegisterModel string felt
  | UpgradeModel string felt
  | RegisterEvent string felt
  | UpgradeEvent string felt
  | RegisterLibrary string felt string string
  | GrantWriter felt felt
  | RevokeWriter felt felt
  | GrantOwner felt felt
  | RevokeOwner felt felt
  | InitContract felt "felt list"
  | SetMetadata felt string felt
  | UpgradeWorld felt

fun exec_call :: "contract_env \<Rightarrow> felt \<Rightarrow> felt \<Rightarrow> world_call \<Rightarrow> world_state \<Rightarrow> (world_state \<times> world_event list) option" where
  "exec_call C caller tx (RegisterNamespace ns) s = ws_register_namespace C caller ns s"
| "exec_call C caller tx (RegisterContract salt ns ch) s = ws_register_contract C caller salt ns ch s"
| "exec_call C caller tx (UpgradeContract ns ch) s = ws_upgrade_contract C caller tx ns ch s"
| "exec_call C caller tx (RegisterModel ns ch) s = ws_register_model C caller ns ch s"
| "exec_call C caller tx (UpgradeModel ns ch) s = ws_upgrade_model C caller ns ch s"
| "exec_call C caller tx (RegisterEvent ns ch) s = ws_register_event C caller ns ch s"
| "exec_call C caller tx (UpgradeEvent ns ch) s = ws_upgrade_event C caller ns ch s"
| "exec_call C caller tx (RegisterLibrary ns ch n v) s = ws_register_library C caller ns ch n v s"
| "exec_call C caller tx (GrantWriter r a) s = grant_writer caller r a s"
| "exec_call C caller tx (RevokeWriter r a) s = revoke_writer caller r a s"
| "exec_call C caller tx (GrantOwner r a) s = grant_owner caller r a s"
| "exec_call C caller tx (RevokeOwner r a) s = revoke_owner caller r a s"
| "exec_call C caller tx (InitContract r d) s = init_contract C caller r d s"
| "exec_call C caller tx (SetMetadata r u h) s = ws_set_metadata caller r u h s"
| "exec_call C caller tx (UpgradeWorld ch) s = upgrade_world C caller ch s"

text \<open>A transaction with several calls: all of them or none.\<close>

fun exec_calls :: "contract_env \<Rightarrow> felt \<Rightarrow> felt \<Rightarrow> world_call list \<Rightarrow> world_state \<Rightarrow> (world_state \<times> world_event list) option" where
  "exec_calls C caller tx [] s = Some (s, [])"
| "exec_calls C caller tx (c # cs) s =
     Option.bind (exec_call C caller tx c s) (\<lambda>(s1, evs).
     map_option (\<lambda>(s2, evs'). (s2, evs @ evs')) (exec_calls C caller tx cs s1))"

end
