(* ===== verification/Calldata.thy ===== *)
theory Calldata
  imports World_Local Felt_Conversion
begin

text \<open>
  The texts of call arguments in the configuration, decoded to field elements
  (\<open>dojo/world/src/config/calldata_decoder.rs\<close>): an item carries a prefix that names its type, or is a
  plain number.  The byte arrays, the short strings and the two readers of field elements come from
  libraries and are parameters.  Texts are ASCII.
\<close>

section \<open>Decoders\<close>

record calldata_env =
  cd_naming :: naming_env
  cd_addresses :: address_env
  felt_from_hex :: "string \<Rightarrow> felt option"
  felt_from_dec_str :: "string \<Rightarrow> felt option"

datatype calldata_decoder_error =
    ParseError string
  | FromStr
  | CairoSerde
  | Hex
  | FromStrInt
  | CairoShortStringToFelt
  | UnknownPrefix string

definition strip_prefix :: "string \<Rightarrow> string \<Rightarrow> string option" where
  "strip_prefix p s = (if take (length p) s = p then Some (drop (length p) s) else None)"

text \<open>\<open>hex::decode\<close>: pairs of digits of either case.\<close>

definition from_hex_digit :: "char \<Rightarrow> nat option" where
  "from_hex_digit c =
     (let n = of_char c :: nat in
      if 48 \<le> n \<and> n \<le> 57 then Some (n - 48)
      else if 97 \<le> n \<and> n \<le> 102 then Some (n - 87)
      else if 65 \<le> n \<and> n \<le> 70 then Some (n - 55)
      else None)"

fun hex_decode :: "string \<Rightarrow> bytes option" where
  "hex_decode [] = Some []"
| "hex_decode [c] = None"
| "hex_decode (c # d # cs) =
     (case (from_hex_digit c, from_hex_digit d) of
        (Some x, Some y) \<Rightarrow> map_option ((#) (of_nat (16 * x + y))) (hex_decode cs)
      | _ \<Rightarrow> None)"

definition u256_of_text :: "string \<Rightarrow> (nat, calldata_decoder_error) result" where
  "u256_of_text input =
     (case strip_prefix ''0x'' input of
        Some hex_str \<Rightarrow>
          map_ok from_be_bytes (ok_or (hex_decode (if length hex_str mod 2 = 0 then hex_str else CHR ''0'' # hex_str)) Hex)
      | None \<Rightarrow> ok_or (parse_nat 0 input) FromStrInt)"

definition decode_u256 :: "string \<Rightarrow> (felt list, calldata_decoder_error) result" where
  "decode_u256 input =
     and_then (u256_of_text input) (\<lambda>bigint.
       let high = bigint div 2 ^ 128 in
       if high \<ge> 2 ^ 128 then Err (ParseError ''u256 value out of range'')
       else Ok [felt (bigint mod 2 ^ 128), felt high])"

definition trim_matches :: "(char \<Rightarrow> bool) \<Rightarrow> string \<Rightarrow> string" where
  "trim_matches p s = rev (dropWhile p (rev (dropWhile p s)))"

definition decode_str :: "calldata_env \<Rightarrow> string \<Rightarrow> (felt list, calldata_decoder_error) result" where
  "decode_str E input = ok_or (byte_array_felts (cd_naming E) (trim_matches ((=) (CHR 0x22)) input)) CairoSerde"

definition decode_short_str :: "calldata_env \<Rightarrow> string \<Rightarrow> (felt list, calldata_decoder_error) result" where
  "decode_short_str E input =
     map_ok (\<lambda>f. [f]) (ok_or (short_string_felt (cd_addresses E) (trim_matches ((=) (CHR 0x22)) input)) CairoShortStringToFelt)"

text \<open>\<open>str::parse::<i128>\<close>.\<close>

definition parse_i128 :: "string \<Rightarrow> int option" where
  "parse_i128 s =
     (let in_range = (\<lambda>i. if - (2 ^ 127) \<le> i \<and> i < 2 ^ 127 then Some i else None) in
      case s of
        [] \<Rightarrow> None
      | c # cs \<Rightarrow>
          if c = CHR ''+'' \<or> c = CHR ''-'' then
            (if cs = [] then None
             else Option.bind (parse_nat 0 cs) (\<lambda>n. in_range (if c = CHR ''-'' then - int n else int n)))
          else Option.bind (parse_nat 0 s) (\<lambda>n. in_range (int n)))"

definition decode_signed_integer :: "string \<Rightarrow> (felt list, calldata_decoder_error) result" where
  "decode_signed_integer input =
     (case parse_i128 input of
        Some v \<Rightarrow> Ok [felt_of_int v]
      | None \<Rightarrow> Err (ParseError ''Invalid numeric string''))"

definition decode_default :: "calldata_env \<Rightarrow> string \<Rightarrow> (felt list, calldata_decoder_error) result" where
  "decode_default E input =
     map_ok (\<lambda>f. [f])
       (case strip_prefix ''0x'' input of
          Some hex_str \<Rightarrow> ok_or (felt_from_hex E hex_str) FromStr
        | None \<Rightarrow> ok_or (felt_from_dec_str E input) FromStr)"

fun decode_items :: "(string \<Rightarrow> (felt list, 'e) result) \<Rightarrow> string list \<Rightarrow> felt list \<Rightarrow> (felt list, 'e) result" where
  "decode_items dec [] decoded_items = Ok decoded_items"
| "decode_items dec (item # rest) decoded_items =
     and_then (dec item) (\<lambda>felts. decode_items dec rest (decoded_items @ felts))"

definition decode_dynamic_array :: "calldata_env \<Rightarrow> string \<Rightarrow> (felt list, calldata_decoder_error) result" where
  "decode_dynamic_array E input =
     (let items = split_on (CHR '','') input in decode_items (decode_default E) items [felt (length items)])"

definition decode_u256_dynamic_array :: "string \<Rightarrow> (felt list, calldata_decoder_error) result" where
  "decode_u256_dynamic_array input =
     (let items = split_on (CHR '','') input in decode_items decode_u256 items [felt (length items)])"

definition decode_fixed_size_array :: "calldata_env \<Rightarrow> string \<Rightarrow> (felt list, calldata_decoder_error) result" where
  "decode_fixed_size_array E input = decode_items (decode_default E) (split_on (CHR '','') input) []"

definition decode_u256_fixed_size_array :: "string \<Rightarrow> (felt list, calldata_decoder_error) result" where
  "decode_u256_fixed_size_array input = decode_items decode_u256 (split_on (CHR '','') input) []"

text \<open>\<open>str::trim\<close>, for ASCII.\<close>

definition is_whitespace :: "char \<Rightarrow> bool" where
  "is_whitespace c = (let n = of_char c :: nat in n = 32 \<or> (9 \<le> n \<and> n \<le> 13))"

definition decode_single_calldata :: "calldata_env \<Rightarrow> string \<Rightarrow> (felt list, calldata_decoder_error) result" where
  "decode_single_calldata E text =
     (let item = trim_matches is_whitespace text in
      case split_once (CHR '':'') item of
        None \<Rightarrow> decode_default E item
      | Some (prefix, value) \<Rightarrow>
          if prefix = ''u256'' then decode_u256 value
          else if prefix = ''str'' then decode_str E value
          else if prefix = ''sstr'' then decode_short_str E value
          else if prefix = ''int'' then decode_signed_integer value
          else if prefix = ''arr'' then decode_dynamic_array E value
          else if prefix = ''u256arr'' then decode_u256_dynamic_array value
          else if prefix = ''farr'' then decode_fixed_size_array E value
          else if prefix = ''u256farr'' then decode_u256_fixed_size_array value
          else Err (UnknownPrefix prefix))"

definition decode_calldata :: "calldata_env \<Rightarrow> string list \<Rightarrow> (felt list, calldata_decoder_error) result" where
  "decode_calldata E input = decode_items (decode_single_calldata E) input []"

section \<open>Items are independent\<close>

lemma decode_items_acc:
  "decode_items dec items acc = map_ok ((@) acc) (decode_items dec items [])"
proof (induction items arbitrary: acc)
  case (Cons x xs)
  show ?case
  proof (cases "dec x")
    case (Inr fs)
    then show ?thesis using Cons [of "acc @ fs"] Cons [of fs]
      by (cases "decode_items dec xs []") simp_all
  qed simp
qed simp

lemma decode_calldata_append:
  "decode_calldata E (xs @ ys) =
     and_then (decode_calldata E xs) (\<lambda>a. map_ok ((@) a) (decode_calldata E ys))"
proof (induction xs)
  case Nil
  then show ?case
    by (cases "decode_calldata E ys") (simp_all add: decode_calldata_def)
next
  case (Cons x xs)
  show ?case
  proof (cases "decode_single_calldata E x")
    case (Inr fs)
    then show ?thesis
      using Cons decode_items_acc [of "decode_single_calldata E" "xs @ ys" fs] decode_items_acc [of "decode_single_calldata E" xs fs]
      by (cases "decode_items (decode_single_calldata E) xs []"; cases "decode_items (decode_single_calldata E) ys []")
        (simp_all add: decode_calldata_def)
  qed (simp add: decode_calldata_def)
qed

section \<open>Numbers of 256 bits\<close>

lemma from_hex_digit_hex_digit: "d < 16 \<Longrightarrow> from_hex_digit (hex_digit d) = Some d"
  by (auto simp: from_hex_digit_def hex_digit_def of_char_of Let_def)

lemma from_hex_digit_bound: "from_hex_digit c = Some x \<Longrightarrow> x < 16"
  by (auto simp: from_hex_digit_def Let_def split: if_splits)

fun hex_value :: "nat \<Rightarrow> string \<Rightarrow> nat option" where
  "hex_value acc [] = Some acc"
| "hex_value acc (c # cs) = (case from_hex_digit c of None \<Rightarrow> None | Some d \<Rightarrow> hex_value (acc * 16 + d) cs)"

lemma hex_value_append: "hex_value acc (s @ t) = Option.bind (hex_value acc s) (\<lambda>a. hex_value a t)"
  by (induction acc s rule: hex_value.induct) (auto split: option.split)

lemma hex_value_shift: "hex_value acc s = map_option ((+) (acc * 16 ^ length s)) (hex_value 0 s)"
proof (induction s arbitrary: acc)
  case (Cons c cs)
  show ?case
  proof (cases "from_hex_digit c")
    case (Some d)
    then show ?thesis
      using Cons [of "acc * 16 + d"] Cons [of d]
      by (cases "hex_value 0 cs") (simp_all add: algebra_simps)
  qed simp
qed simp

lemma hex_value_lower_hex: "hex_value 0 (lower_hex n) = Some n"
proof (induction n rule: lower_hex.induct)
  case (1 n)
  then show ?case
    by (subst lower_hex.simps) (auto simp: hex_value_append from_hex_digit_hex_digit)
qed

lemma hex_decode_value:
  "length s mod 2 = 0 \<Longrightarrow> map_option from_be_bytes (hex_decode s) = hex_value 0 s \<and>
     (\<forall>bs. hex_decode s = Some bs \<longrightarrow> 2 * length bs = length s)"
proof (induction s rule: hex_decode.induct)
  case (3 c d cs)
  then have even: "length cs mod 2 = 0" by simp
  show ?case
  proof (cases "from_hex_digit c"; cases "from_hex_digit d")
    fix x y assume xy: "from_hex_digit c = Some x" "from_hex_digit d = Some y"
    then have lt: "16 * x + y < 256" using from_hex_digit_bound [of c x] from_hex_digit_bound [of d y] by simp
    have IH: "map_option from_be_bytes (hex_decode cs) = hex_value 0 cs" "\<And>bs. hex_decode cs = Some bs \<Longrightarrow> 2 * length bs = length cs"
      using "3.IH" [OF refl xy even] by auto
    show ?thesis
    proof (cases "hex_decode cs")
      case None
      then show ?thesis using IH(1) xy hex_value_shift [of "x * 16 + y" cs] by simp
    next
      case (Some bs)
      have p: "(256 :: nat) ^ length bs = 16 ^ length cs"
        using IH(2) [OF Some] power_mult [of "16 :: nat" 2 "length bs"] by simp
      have "unat (of_nat (16 * x + y) :: u8) = 16 * x + y" using lt unat_of_nat_u8 [of "16 * x + y"] by (simp only: mod_less)
      then show ?thesis
        using IH(1) [symmetric] IH(2) Some xy p hex_value_shift [of "x * 16 + y" cs]
        by (auto simp: from_be_bytes_Cons algebra_simps)
    qed
  qed (auto simp: hex_value_shift [of _ cs])
qed auto

lemma hex_text_value:
  "u256_of_text (''0x'' @ lower_hex n) = Ok n"
proof -
  let ?s = "if length (lower_hex n) mod 2 = 0 then lower_hex n else CHR ''0'' # lower_hex n"
  have "from_hex_digit (CHR ''0'') = Some 0" by (simp add: from_hex_digit_def)
  then have v: "hex_value 0 ?s = Some n" by (simp add: hex_value_lower_hex)
  have "length ?s mod 2 = 0" by (auto simp: mod_Suc)
  from hex_decode_value [OF this] v obtain bs where "hex_decode ?s = Some bs" "from_be_bytes bs = n" by auto
  then show ?thesis by (simp add: u256_of_text_def strip_prefix_def split: if_splits)
qed

lemma dec_string_digits: "c \<in> set (dec_string n) \<Longrightarrow> to_digit c \<noteq> None"
proof (induction n rule: dec_string.induct)
  case (1 n)
  then show ?case by (subst (asm) (2) dec_string.simps) (auto split: if_splits)
qed

lemma dec_text_value: "u256_of_text (dec_string n) = Ok n"
proof -
  have "strip_prefix ''0x'' (dec_string n) = None"
  proof (rule ccontr)
    assume "strip_prefix ''0x'' (dec_string n) \<noteq> None"
    then have "take 2 (dec_string n) = ''0x''" by (simp add: strip_prefix_def numeral_2_eq_2 split: if_splits)
    then have "CHR ''x'' \<in> set (take 2 (dec_string n))" by simp
    then have "CHR ''x'' \<in> set (dec_string n)" by (rule in_set_takeD)
    from dec_string_digits [OF this] show False by (simp add: to_digit_def)
  qed
  then show ?thesis by (simp add: u256_of_text_def parse_nat_dec_string)
qed

lemma trim_matches_id:
  assumes "s \<noteq> []" "\<not> p (hd s)" "\<not> p (last s)"
  shows "trim_matches p s = s"
proof -
  have "dropWhile p s = s" using assms(1,2) by (cases s) auto
  moreover have "dropWhile p (rev s) = rev s" using assms(1,3) by (cases "rev s") (auto simp: hd_rev [symmetric])
  ultimately show ?thesis by (simp add: trim_matches_def)
qed

lemma to_digit_not_space: "to_digit c \<noteq> None \<Longrightarrow> \<not> is_whitespace c"
  by (auto simp: to_digit_def is_whitespace_def Let_def)

lemma hex_digit_not_space: "from_hex_digit c \<noteq> None \<Longrightarrow> \<not> is_whitespace c"
  by (auto simp: from_hex_digit_def is_whitespace_def Let_def split: if_splits)

lemma decode_u256_item:
  assumes "value \<noteq> []" "\<not> is_whitespace (last value)"
  shows "decode_single_calldata E (''u256:'' @ value) = decode_u256 value"
proof -
  have "trim_matches is_whitespace (''u256:'' @ value) = ''u256:'' @ value"
    using assms by (intro trim_matches_id) (auto simp: is_whitespace_def)
  then show ?thesis by (simp add: decode_single_calldata_def split_once_def)
qed

lemma lower_hex_last: "lower_hex n \<noteq> [] \<and> from_hex_digit (last (lower_hex n)) \<noteq> None"
  by (subst (1 2) lower_hex.simps) (simp add: from_hex_digit_hex_digit)

lemma dec_string_last: "dec_string n \<noteq> [] \<and> to_digit (last (dec_string n)) \<noteq> None"
  by (subst (1 2) dec_string.simps) simp

lemma limb_no_wrap:
  assumes "k < 2 ^ 128"
  shows "nat_of_felt (felt k) = k"
proof -
  note assms
  also have "(2 :: nat) ^ 128 < stark_prime" by (simp add: stark_prime_def)
  finally show ?thesis by (simp add: nat_of_felt_felt)
qed

lemma decode_u256_limbs:
  assumes "u256_of_text s = Ok n"
  shows "map_ok (map nat_of_felt) (decode_u256 s) =
     (if n < 2 ^ 256 then Ok [n mod 2 ^ 128, n div 2 ^ 128] else Err (ParseError ''u256 value out of range''))"
proof -
  have range: "n div 2 ^ 128 \<ge> 2 ^ 128 \<longleftrightarrow> \<not> n < 2 ^ 256"
    by (simp add: less_eq_div_iff_mult_less_eq not_less)
  have low: "nat_of_felt (felt (n mod 2 ^ 128)) = n mod 2 ^ 128" by (rule limb_no_wrap) simp
  have high: "nat_of_felt (felt (n div 2 ^ 128)) = n div 2 ^ 128" if "n < 2 ^ 256"
    using that range by (intro limb_no_wrap) (simp add: not_le)
  show ?thesis
  proof (cases "n < 2 ^ 256")
    case True
    with range have "\<not> n div 2 ^ 128 \<ge> 2 ^ 128" by blast
    then show ?thesis using True assms low high by (simp add: decode_u256_def Let_def del: power_numeral)
  next
    case False
    with range have "n div 2 ^ 128 \<ge> 2 ^ 128" by blast
    then show ?thesis using False assms by (simp add: decode_u256_def Let_def del: power_numeral)
  qed
qed

text \<open>C40: A number written in decimal or in hexadecimal digits after \<open>u256:\<close> is decoded to its low and its high
  128 bits, neither of which wraps in the field, when it is below \<open>2^256\<close>, and is rejected otherwise.\<close>

theorem u256_item_decoded:
  "map_ok (map nat_of_felt) (decode_single_calldata E (''u256:'' @ dec_string n)) =
     (if n < 2 ^ 256 then Ok [n mod 2 ^ 128, n div 2 ^ 128] else Err (ParseError ''u256 value out of range'')) \<and>
   map_ok (map nat_of_felt) (decode_single_calldata E (''u256:0x'' @ lower_hex n)) =
     (if n < 2 ^ 256 then Ok [n mod 2 ^ 128, n div 2 ^ 128] else Err (ParseError ''u256 value out of range''))"
proof
  have "decode_single_calldata E (''u256:'' @ dec_string n) = decode_u256 (dec_string n)"
    using dec_string_last [of n] to_digit_not_space by (intro decode_u256_item) auto
  then show "map_ok (map nat_of_felt) (decode_single_calldata E (''u256:'' @ dec_string n)) =
     (if n < 2 ^ 256 then Ok [n mod 2 ^ 128, n div 2 ^ 128] else Err (ParseError ''u256 value out of range''))"
    using decode_u256_limbs [OF dec_text_value] by metis
  have "decode_single_calldata E (''u256:'' @ (''0x'' @ lower_hex n)) = decode_u256 (''0x'' @ lower_hex n)"
    using lower_hex_last [of n] hex_digit_not_space by (intro decode_u256_item) auto
  then have "decode_single_calldata E (''u256:0x'' @ lower_hex n) = decode_u256 (''0x'' @ lower_hex n)" by simp
  then show "map_ok (map nat_of_felt) (decode_single_calldata E (''u256:0x'' @ lower_hex n)) =
     (if n < 2 ^ 256 then Ok [n mod 2 ^ 128, n div 2 ^ 128] else Err (ParseError ''u256 value out of range''))"
    using decode_u256_limbs [OF hex_text_value] by metis
qed

end
