(* ===== verification/World_Migrate.thy ===== *)
theory World_Migrate
  imports World_Manifest World_Contract Calldata
begin

text \<open>
  The migration of a world (\<open>sozo/ops/src/migrate/mod.rs\<close>) with the invoker, the declarer and the
  deployer it sends transactions with (\<open>dojo/utils/src/tx\<close>).

  The chain is the state of the world contract with the classes and contracts the chain knows, and the
  events of the world so far.  A transaction that is sent is executed before the next one is; that the
  account or the node refuses it is a parameter.  An operation returns its result, \<open>None\<close> where it
  panics, with the chain as it leaves it, so that what was sent before an error stays.  The texts shown
  to the user are left out.
\<close>

section \<open>The chain\<close>

datatype chain_call = WorldCall world_call | UdcDeploy felt felt "felt list" felt

record chain_state =
  chain_world :: world_state
  chain_events :: "world_event list"

record ('c, 'f, 'x) chain_env =
  ch_contract :: contract_env
  ch_account :: felt
  ch_calldata :: calldata_env
  tx_hash_of :: "chain_state \<Rightarrow> chain_call list \<Rightarrow> felt"
  refused_calls :: "chain_state \<Rightarrow> chain_call list \<Rightarrow> 'x option"
  refused_class :: "felt \<Rightarrow> chain_state \<Rightarrow> 'f \<Rightarrow> 'x option"
  lookup_error :: "chain_state \<Rightarrow> felt \<Rightarrow> 'x option"
  already_declared :: "'x \<Rightarrow> bool"
  constructor_returns :: "felt \<Rightarrow> felt list \<Rightarrow> bool"
  flatten_class :: "'c \<Rightarrow> 'f option"
  sierra_class_hash :: "'f \<Rightarrow> felt"
  predeployed_accounts :: "felt list"

text \<open>The universal deployer at a fixed address deploys a declared class at a free address and runs its
  constructor: the one of the world at the address of the world.\<close>

fun exec_chain_call ::
  "('c, 'f, 'x) chain_env \<Rightarrow> felt \<Rightarrow> chain_call \<Rightarrow> world_state \<Rightarrow> (world_state \<times> world_event list) option" where
  "exec_chain_call E tx (WorldCall c) s =
     (if ws_class_at s (ce_world (ch_contract E)) = None then None
      else exec_call (ch_contract E) (ch_account E) tx c s)"
| "exec_chain_call E tx (UdcDeploy class_hash salt calldata deployer) s =
     (let address = contract_address_of (ce_addresses (ch_contract E)) salt class_hash calldata deployer;
          s1 = s\<lparr>ws_class_at := (ws_class_at s)(address \<mapsto> class_hash)\<rparr> in
      if class_hash \<notin> ws_declared s \<or> ws_class_at s address \<noteq> None then None
      else if address = ce_world (ch_contract E) then
        (case calldata of [h] \<Rightarrow> world_constructor (ch_contract E) (ch_account E) h s1 | _ \<Rightarrow> None)
      else if constructor_returns E class_hash calldata then Some (s1, [])
      else None)"

fun exec_chain_calls ::
  "('c, 'f, 'x) chain_env \<Rightarrow> felt \<Rightarrow> chain_call list \<Rightarrow> world_state \<Rightarrow> (world_state \<times> world_event list) option" where
  "exec_chain_calls E tx [] s = Some (s, [])"
| "exec_chain_calls E tx (c # cs) s =
     Option.bind (exec_chain_call E tx c s) (\<lambda>(s1, evs).
     map_option (\<lambda>(s2, evs'). (s2, evs @ evs')) (exec_chain_calls E tx cs s1))"

section \<open>Steps\<close>

datatype 'x tx_error = Reverted | Refused 'x | LookupError 'x

datatype 'x migration_error =
    ME_CairoSerde
  | ME_StarknetJson
  | ME_CairoShortStringToFelt
  | ME_InitCallArgs
  | ME_Transaction "'x tx_error"
  | ME_DeclareClassError "'x tx_error"

type_synonym ('a, 'e) step = "chain_state \<Rightarrow> ('a, 'e) result option \<times> chain_state"

definition step_ret :: "'a \<Rightarrow> ('a, 'e) step" where
  "step_ret a ch = (Some (Ok a), ch)"

definition step_err :: "'e \<Rightarrow> ('a, 'e) step" where
  "step_err e ch = (Some (Err e), ch)"

definition step_of :: "('a, 'e) result option \<Rightarrow> ('a, 'e) step" where
  "step_of r ch = (r, ch)"

definition step_then :: "('a, 'e) step \<Rightarrow> ('a \<Rightarrow> ('b, 'e) step) \<Rightarrow> ('b, 'e) step" where
  "step_then m f ch =
     (case m ch of
        (None, ch') \<Rightarrow> (None, ch')
      | (Some (Inl e), ch') \<Rightarrow> (Some (Err e), ch')
      | (Some (Inr a), ch') \<Rightarrow> f a ch')"

definition step_map_err :: "('e \<Rightarrow> 'e2) \<Rightarrow> ('a, 'e) step \<Rightarrow> ('a, 'e2) step" where
  "step_map_err g m ch =
     (case m ch of
        (None, ch') \<Rightarrow> (None, ch')
      | (Some (Inl e), ch') \<Rightarrow> (Some (Err (g e)), ch')
      | (Some (Inr a), ch') \<Rightarrow> (Some (Ok a), ch'))"

section \<open>Invoker\<close>

definition send_calls :: "('c, 'f, 'x) chain_env \<Rightarrow> chain_call list \<Rightarrow> (unit, 'x tx_error) step" where
  "send_calls E calls ch =
     (case refused_calls E ch calls of
        Some e \<Rightarrow> (Some (Err (Refused e)), ch)
      | None \<Rightarrow>
          (case exec_chain_calls E (tx_hash_of E ch calls) calls (chain_world ch) of
             None \<Rightarrow> (Some (Err Reverted), ch)
           | Some (s, evs) \<Rightarrow> (Some (Ok ()), ch\<lparr>chain_world := s, chain_events := chain_events ch @ evs\<rparr>)))"

definition add_call :: "'k \<Rightarrow> 'k list \<Rightarrow> 'k list" where
  "add_call call calls = calls @ [call]"

definition extend_calls :: "'k list \<Rightarrow> 'k list \<Rightarrow> 'k list" where
  "extend_calls new calls = calls @ new"

definition extends_ordered :: "'k list \<Rightarrow> 'k list \<Rightarrow> 'k list" where
  "extends_ordered ordered_calls calls = foldl (\<lambda>cs call. call # cs) calls (rev ordered_calls)"

definition invoke :: "('c, 'f, 'x) chain_env \<Rightarrow> chain_call \<Rightarrow> (unit, 'x tx_error) step" where
  "invoke E call = send_calls E [call]"

definition multicall :: "('c, 'f, 'x) chain_env \<Rightarrow> chain_call list \<Rightarrow> (unit, 'x tx_error) step" where
  "multicall E calls = (if calls = [] then step_ret () else send_calls E calls)"

fun invoke_all_sequentially :: "('c, 'f, 'x) chain_env \<Rightarrow> chain_call list \<Rightarrow> (unit, 'x tx_error) step" where
  "invoke_all_sequentially E [] = step_ret ()"
| "invoke_all_sequentially E (call # calls) =
     step_then (invoke E call) (\<lambda>_. invoke_all_sequentially E calls)"

section \<open>Declarer\<close>

record 'f labeled_class =
  lc_label :: string
  lc_casm_class_hash :: felt
  lc_class :: 'f

type_synonym 'f class_map = "(felt \<times> 'f labeled_class) list"

definition add_class :: "'f labeled_class \<Rightarrow> 'f class_map \<Rightarrow> 'f class_map" where
  "add_class c classes =
     (if lc_casm_class_hash c \<in> fst ` set classes then classes else classes @ [(lc_casm_class_hash c, c)])"

definition extend_classes :: "'f labeled_class list \<Rightarrow> 'f class_map \<Rightarrow> 'f class_map" where
  "extend_classes cs classes = fold add_class cs classes"

definition is_declared :: "('c, 'f, 'x) chain_env \<Rightarrow> felt \<Rightarrow> (bool, 'x tx_error) step" where
  "is_declared E class_hash ch =
     (case lookup_error E ch class_hash of
        Some e \<Rightarrow> (Some (Err (LookupError e)), ch)
      | None \<Rightarrow> (Some (Ok (class_hash \<in> ws_declared (chain_world ch))), ch))"

definition send_declaration :: "('c, 'f, 'x) chain_env \<Rightarrow> felt \<Rightarrow> 'f \<Rightarrow> (unit, 'x tx_error) step" where
  "send_declaration E account class ch =
     (case refused_class E account ch class of
        Some e \<Rightarrow> (Some (Err (Refused e)), ch)
      | None \<Rightarrow>
          (Some (Ok ()), ch\<lparr>chain_world := (chain_world ch)\<lparr>ws_declared :=
             insert (sierra_class_hash E class) (ws_declared (chain_world ch))\<rparr>\<rparr>))"

definition declare_class :: "('c, 'f, 'x) chain_env \<Rightarrow> felt \<Rightarrow> 'f labeled_class \<Rightarrow> (unit, 'x tx_error) step" where
  "declare_class E account c =
     step_then (is_declared E (sierra_class_hash E (lc_class c))) (\<lambda>declared.
       if declared then step_ret () else send_declaration E account (lc_class c))"

fun declare_all :: "('c, 'f, 'x) chain_env \<Rightarrow> felt \<Rightarrow> 'f labeled_class list \<Rightarrow> (unit, 'x tx_error) step" where
  "declare_all E account [] = step_ret ()"
| "declare_all E account (c # cs) = step_then (declare_class E account c) (\<lambda>_. declare_all E account cs)"

section \<open>Deployer\<close>

definition is_deployed :: "('c, 'f, 'x) chain_env \<Rightarrow> felt \<Rightarrow> (bool, 'x tx_error) step" where
  "is_deployed E address ch =
     (case lookup_error E ch address of
        Some e \<Rightarrow> (Some (Err (LookupError e)), ch)
      | None \<Rightarrow> (Some (Ok (ws_class_at (chain_world ch) address \<noteq> None)), ch))"

definition deploy_via_udc_getcall ::
  "('c, 'f, 'x) chain_env \<Rightarrow> felt \<Rightarrow> felt \<Rightarrow> felt list \<Rightarrow> felt \<Rightarrow> ((felt \<times> chain_call) option, 'x tx_error) step" where
  "deploy_via_udc_getcall E class_hash salt calldata deployer =
     (let address = contract_address_of (ce_addresses (ch_contract E)) salt class_hash calldata deployer in
      step_then (is_deployed E address) (\<lambda>deployed.
        step_ret (if deployed then None else Some (address, UdcDeploy class_hash salt calldata deployer))))"

text \<open>The result is whether a transaction was sent: \<open>TransactionResult::Noop\<close> otherwise.\<close>

definition deploy_via_udc ::
  "('c, 'f, 'x) chain_env \<Rightarrow> felt \<Rightarrow> felt \<Rightarrow> felt list \<Rightarrow> felt \<Rightarrow> (bool, 'x tx_error) step" where
  "deploy_via_udc E class_hash salt calldata deployer =
     step_then (deploy_via_udc_getcall E class_hash salt calldata deployer) (\<lambda>res.
       case res of
         None \<Rightarrow> step_ret False
       | Some (_, call) \<Rightarrow> step_then (send_calls E [call]) (\<lambda>_. step_ret True))"

section \<open>Migration\<close>

record 'c migration =
  mg_diff :: "'c world_diff"
  mg_profile :: profile_config
  mg_guest :: bool

definition do_multicall :: "'c migration \<Rightarrow> bool" where
  "do_multicall M =
     (case pc_migration (mg_profile M) of
        None \<Rightarrow> True
      | Some m \<Rightarrow> (case disable_multicall m of None \<Rightarrow> True | Some b \<Rightarrow> \<not> b))"

definition send_plan :: "('c, 'f, 'x) chain_env \<Rightarrow> 'c migration \<Rightarrow> chain_call list \<Rightarrow> (unit, 'x migration_error) step" where
  "send_plan E M calls =
     step_map_err ME_Transaction (if do_multicall M then multicall E calls else invoke_all_sequentially E calls)"

subsection \<open>Declaration of classes\<close>

definition distribute :: "'f labeled_class list \<Rightarrow> felt list \<Rightarrow> (felt \<times> 'f class_map) list" where
  "distribute cs accounts =
     foldl (\<lambda>ds (i, c). let k = i mod length ds in ds[k := (fst (ds ! k), add_class c (snd (ds ! k)))])
       (map (\<lambda>a. (a, [])) accounts) (enumerate 0 cs)"

text \<open>\<open>join_all\<close> runs the declarers at the same time.  A declaration only adds a class, so that they are
  modelled one after the other, each to its end or its first error.\<close>

fun run_declarers ::
  "('c, 'f, 'x) chain_env \<Rightarrow> (felt \<times> 'f class_map) list \<Rightarrow> chain_state \<Rightarrow> (unit, 'x tx_error) result option list \<times> chain_state" where
  "run_declarers E [] ch = ([], ch)"
| "run_declarers E ((account, classes) # rest) ch =
     (let (r, ch1) = declare_all E account (map snd classes) ch; (rs, ch2) = run_declarers E rest ch1 in (r # rs, ch2))"

definition error_says_declared :: "('c, 'f, 'x) chain_env \<Rightarrow> 'x tx_error \<Rightarrow> bool" where
  "error_says_declared E e = (case e of Refused x \<Rightarrow> already_declared E x | LookupError x \<Rightarrow> already_declared E x | Reverted \<Rightarrow> False)"

fun declarer_results ::
  "('c, 'f, 'x) chain_env \<Rightarrow> (unit, 'x tx_error) result option list \<Rightarrow> (unit, 'x migration_error) result option" where
  "declarer_results E [] = Some (Ok ())"
| "declarer_results E (r # rs) =
     (case r of
        None \<Rightarrow> None
      | Some (Inl e) \<Rightarrow> if error_says_declared E e then declarer_results E rs else Some (Err (ME_DeclareClassError e))
      | Some (Inr _) \<Rightarrow> declarer_results E rs)"

definition declare_classes :: "('c, 'f, 'x) chain_env \<Rightarrow> 'f class_map \<Rightarrow> (unit, 'x migration_error) step" where
  "declare_classes E classes ch =
     (if predeployed_accounts E = [] then
        step_map_err ME_Transaction (declare_all E (ch_account E) (map snd (extend_classes (map snd classes) []))) ch
      else
        let (rs, ch') = run_declarers E (distribute (map snd classes) (predeployed_accounts E)) ch
        in (declarer_results E rs, ch'))"

subsection \<open>Calls and classes of a resource\<close>

definition class_entry :: "('c, 'f, 'x) chain_env \<Rightarrow> string \<Rightarrow> 'c common_local_info \<Rightarrow> (felt \<times> 'f labeled_class, 'x migration_error) result" where
  "class_entry E tag c =
     map_ok (\<lambda>class. (cl_casm_class_hash c, \<lparr>lc_label = tag, lc_casm_class_hash = cl_casm_class_hash c, lc_class = class\<rparr>))
       (ok_or (flatten_class E (cl_class c)) ME_StarknetJson)"

type_synonym ('f, 'x) calls_classes = "(world_call list \<times> 'f class_map, 'x migration_error) result option"

definition with_class ::
  "('c, 'f, 'x) chain_env \<Rightarrow> 'c resource_diff \<Rightarrow> 'c common_local_info \<Rightarrow> world_call option \<Rightarrow> ('f, 'x) calls_classes" where
  "with_class E r c call =
     (case class_entry E (rd_tag r) c of
        Inl e \<Rightarrow> Some (Err e)
      | Inr entry \<Rightarrow> map_option (\<lambda>k. Ok ([k], [entry])) call)"

definition namespace_text :: "('c, 'f, 'x) chain_env \<Rightarrow> string \<Rightarrow> (unit, 'x migration_error) result" where
  "namespace_text E ns = map_ok (\<lambda>_. ()) (ok_or (byte_array_felts (ce_naming (ch_contract E)) ns) ME_CairoSerde)"

definition contracts_calls_classes :: "('c, 'f, 'x) chain_env \<Rightarrow> 'c resource_diff \<Rightarrow> ('f, 'x) calls_classes" where
  "contracts_calls_classes E r =
     (let namespace = rd_namespace r in
      case namespace_text E namespace of
        Inl e \<Rightarrow> Some (Err e)
      | Inr _ \<Rightarrow>
          (case r of
             Created (ContractLocal c systems) \<Rightarrow>
               with_class E r c
                 (map_option (\<lambda>selector. RegisterContract selector namespace (cl_class_hash c))
                   (rl_dojo_selector (ce_naming (ch_contract E)) (ContractLocal c systems)))
           | Updated (ContractLocal c _) (ContractRemote _ _) \<Rightarrow>
               with_class E r c (Some (UpgradeContract namespace (cl_class_hash c)))
           | _ \<Rightarrow> Some (Ok ([], []))))"

definition libraries_calls_classes :: "('c, 'f, 'x) chain_env \<Rightarrow> 'c resource_diff \<Rightarrow> ('f, 'x) calls_classes" where
  "libraries_calls_classes E r =
     (let namespace = rd_namespace r; bytes = byte_array_felts (ce_naming (ch_contract E)) in
      case namespace_text E namespace of
        Inl e \<Rightarrow> Some (Err e)
      | Inr _ \<Rightarrow>
          (case r of
             Created (LibraryLocal c _ version) \<Rightarrow>
               with_class E r c
                 (if bytes (cl_name c) = None \<or> bytes version = None then None
                  else Some (RegisterLibrary namespace (cl_class_hash c) (cl_name c) version))
           | Updated (LibraryLocal _ _ _) (LibraryRemote _ _) \<Rightarrow> None
           | _ \<Rightarrow> Some (Ok ([], []))))"

definition models_calls_classes :: "('c, 'f, 'x) chain_env \<Rightarrow> 'c resource_diff \<Rightarrow> ('f, 'x) calls_classes" where
  "models_calls_classes E r =
     (let namespace = rd_namespace r in
      case namespace_text E namespace of
        Inl e \<Rightarrow> Some (Err e)
      | Inr _ \<Rightarrow>
          (case r of
             Created (ModelLocal c _) \<Rightarrow> with_class E r c (Some (RegisterModel namespace (cl_class_hash c)))
           | Updated (ModelLocal c _) (ModelRemote _) \<Rightarrow> with_class E r c (Some (UpgradeModel namespace (cl_class_hash c)))
           | _ \<Rightarrow> Some (Ok ([], []))))"

definition events_calls_classes :: "('c, 'f, 'x) chain_env \<Rightarrow> 'c resource_diff \<Rightarrow> ('f, 'x) calls_classes" where
  "events_calls_classes E r =
     (let namespace = rd_namespace r in
      case namespace_text E namespace of
        Inl e \<Rightarrow> Some (Err e)
      | Inr _ \<Rightarrow>
          (case r of
             Created (EventLocal c _) \<Rightarrow> with_class E r c (Some (RegisterEvent namespace (cl_class_hash c)))
           | Updated (EventLocal c _) (EventRemote _) \<Rightarrow> with_class E r c (Some (UpgradeEvent namespace (cl_class_hash c)))
           | _ \<Rightarrow> Some (Ok ([], []))))"

definition resource_calls_classes :: "('c, 'f, 'x) chain_env \<Rightarrow> 'c resource_diff \<Rightarrow> ('f, 'x) calls_classes" where
  "resource_calls_classes E r =
     (case rd_resource_type r of
        RT_Contract \<Rightarrow> contracts_calls_classes E r
      | RT_Library \<Rightarrow> libraries_calls_classes E r
      | RT_Model \<Rightarrow> models_calls_classes E r
      | RT_Event \<Rightarrow> events_calls_classes E r
      | _ \<Rightarrow> Some (Ok ([], [])))"

subsection \<open>Resources\<close>

fun namespaces_getcalls ::
  "('c, 'f, 'x) chain_env \<Rightarrow> 'c world_diff \<Rightarrow> felt list \<Rightarrow> world_call list \<Rightarrow> (world_call list, 'x migration_error) result option" where
  "namespaces_getcalls E d [] calls = Some (Ok calls)"
| "namespaces_getcalls E d (selector # rest) calls =
     (case map_of (wd_resources d) selector of
        None \<Rightarrow> None
      | Some (Created (NamespaceLocal n)) \<Rightarrow>
          (case namespace_text E n of
             Inl e \<Rightarrow> Some (Err e)
           | Inr _ \<Rightarrow> namespaces_getcalls E d rest (add_call (RegisterNamespace n) calls))
      | Some _ \<Rightarrow> namespaces_getcalls E d rest calls)"

fun resources_getcalls ::
  "('c, 'f, 'x) chain_env \<Rightarrow> profile_config \<Rightarrow> (felt \<times> 'c resource_diff) list \<Rightarrow> world_call list \<Rightarrow> 'f class_map
    \<Rightarrow> ('f, 'x) calls_classes" where
  "resources_getcalls E conf [] calls classes = Some (Ok (calls, classes))"
| "resources_getcalls E conf ((_, r) # rest) calls classes =
     (if is_skipped conf (rd_tag r) then resources_getcalls E conf rest calls classes
      else case resource_calls_classes E r of
        None \<Rightarrow> None
      | Some (Inl e) \<Rightarrow> Some (Err e)
      | Some (Inr (cs, ks)) \<Rightarrow>
          resources_getcalls E conf rest (extend_calls cs calls) (AList.updates (map fst ks) (map snd ks) classes))"

definition sync_resources :: "('c, 'f, 'x) chain_env \<Rightarrow> 'c migration \<Rightarrow> (bool, 'x migration_error) step" where
  "sync_resources E M =
     step_then (step_of (namespaces_getcalls E (mg_diff M) (wd_namespaces (mg_diff M)) [])) (\<lambda>ns_calls.
     step_then (step_of (resources_getcalls E (mg_profile M) (wd_resources (mg_diff M)) ns_calls [])) (\<lambda>(calls, classes).
     step_then (declare_classes E classes) (\<lambda>_.
     step_then (send_plan E M (map WorldCall calls)) (\<lambda>_.
       step_ret (classes \<noteq> [] \<or> calls \<noteq> [])))))"

subsection \<open>Permissions\<close>

fun permissions_getcalls ::
  "('c, 'f, 'x) chain_env \<Rightarrow> 'c migration \<Rightarrow> (felt \<times> 'c resource_diff) list \<Rightarrow> world_call list \<Rightarrow> world_call list option" where
  "permissions_getcalls E M [] calls = Some calls"
| "permissions_getcalls E M ((selector, r) # rest) calls =
     (if is_skipped (mg_profile M) (rd_tag r) then permissions_getcalls E M rest calls
      else
        Option.bind (get_writers (ce_naming (ch_contract E)) (ce_addresses (ch_contract E)) (mg_diff M) selector) (\<lambda>writers.
        Option.bind (get_owners (ce_naming (ch_contract E)) (ce_addresses (ch_contract E)) (mg_diff M) selector) (\<lambda>owners.
          permissions_getcalls E M rest
            (calls @ map (\<lambda>p. GrantWriter selector (pg_address p)) (only_local writers)
                   @ map (\<lambda>p. GrantOwner selector (pg_address p)) (only_local owners)))))"

definition sync_permissions :: "('c, 'f, 'x) chain_env \<Rightarrow> 'c migration \<Rightarrow> (bool, 'x migration_error) step" where
  "sync_permissions E M =
     step_then (step_of (map_option Ok (permissions_getcalls E M (wd_resources (mg_diff M)) []))) (\<lambda>calls.
     step_then (send_plan E M (map WorldCall calls)) (\<lambda>_. step_ret (calls \<noteq> [])))"

subsection \<open>Initialization\<close>

definition do_init :: "'c resource_diff \<Rightarrow> bool" where
  "do_init r =
     (case r of
        Created (ContractLocal _ _) \<Rightarrow> True
      | Updated _ (ContractRemote _ is_initialized) \<Rightarrow> \<not> is_initialized
      | Synced _ (ContractRemote _ is_initialized) \<Rightarrow> \<not> is_initialized
      | _ \<Rightarrow> False)"

definition init_args :: "('c, 'f, 'x) chain_env \<Rightarrow> profile_config \<Rightarrow> string \<Rightarrow> (felt list, 'x migration_error) result" where
  "init_args E conf tag =
     (case init_call_args conf of
        None \<Rightarrow> Ok []
      | Some m \<Rightarrow>
          (case map_of m tag of
             None \<Rightarrow> Ok []
           | Some args \<Rightarrow>
               (case decode_calldata (ch_calldata E) args of Inl _ \<Rightarrow> Err ME_InitCallArgs | Inr fs \<Rightarrow> Ok fs)))"

definition ordered_init_tags :: "profile_config \<Rightarrow> string list" where
  "ordered_init_tags conf =
     (case pc_migration conf of None \<Rightarrow> [] | Some m \<Rightarrow> (case order_inits m of None \<Rightarrow> [] | Some tags \<Rightarrow> tags))"

definition position :: "('a \<Rightarrow> bool) \<Rightarrow> 'a list \<Rightarrow> nat option" where
  "position p xs = (let i = length (takeWhile (\<lambda>x. \<not> p x) xs) in if i < length xs then Some i else None)"

fun init_getcalls ::
  "('c, 'f, 'x) chain_env \<Rightarrow> profile_config \<Rightarrow> (felt \<times> 'c resource_diff) list \<Rightarrow> (nat \<times> world_call) list \<Rightarrow> world_call list
    \<Rightarrow> ((nat \<times> world_call) list \<times> world_call list, 'x migration_error) result" where
  "init_getcalls E conf [] ordered calls = Ok (ordered, calls)"
| "init_getcalls E conf ((selector, r) # rest) ordered calls =
     (if rd_resource_type r \<noteq> RT_Contract \<or> is_skipped conf (rd_tag r) \<or> \<not> do_init r
      then init_getcalls E conf rest ordered calls
      else and_then (init_args E conf (rd_tag r)) (\<lambda>args.
        case position (\<lambda>t. t = rd_tag r) (ordered_init_tags conf) of
          Some i \<Rightarrow> init_getcalls E conf rest (AList.update i (InitContract selector args) ordered) calls
        | None \<Rightarrow> init_getcalls E conf rest ordered (add_call (InitContract selector args) calls)))"

definition ordered_calls_of :: "(nat \<times> world_call) list \<Rightarrow> world_call list" where
  "ordered_calls_of ordered = map (\<lambda>k. the (map_of ordered k)) (sort (map fst ordered))"

definition init_plan :: "(nat \<times> world_call) list \<times> world_call list \<Rightarrow> world_call list" where
  "init_plan p = (case p of (ordered, calls) \<Rightarrow> if ordered = [] then calls else extends_ordered (ordered_calls_of ordered) calls)"

definition initialize_contracts :: "('c, 'f, 'x) chain_env \<Rightarrow> 'c migration \<Rightarrow> (bool, 'x migration_error) step" where
  "initialize_contracts E M =
     step_then (step_of (Some (map_ok init_plan (init_getcalls E (mg_profile M) (wd_resources (mg_diff M)) [] [])))) (\<lambda>calls.
       if calls = [] then step_ret False
       else step_then (send_plan E M (map WorldCall calls)) (\<lambda>_. step_ret True))"

subsection \<open>External contracts\<close>

text \<open>\<open>flatten().unwrap()\<close> panics.\<close>

fun external_contract_classes ::
  "('c, 'f, 'x) chain_env \<Rightarrow> (string \<times> 'c external_class_diff) list \<Rightarrow> 'f class_map \<Rightarrow> 'f class_map option" where
  "external_contract_classes E [] classes = Some classes"
| "external_contract_classes E ((_, ClassSynced _) # rest) classes = external_contract_classes E rest classes"
| "external_contract_classes E ((_, ClassCreated c) # rest) classes =
     Option.bind (flatten_class E (ecl_class c)) (\<lambda>class.
       external_contract_classes E rest
         (AList.update (ecl_casm_class_hash c)
            \<lparr>lc_label = ecl_contract_name c, lc_casm_class_hash = ecl_casm_class_hash c, lc_class = class\<rparr> classes))"

fun external_getcalls ::
  "('c, 'f, 'x) chain_env \<Rightarrow> (string \<times> external_contract_diff) list \<Rightarrow> chain_call list \<Rightarrow> (chain_call list, 'x migration_error) step" where
  "external_getcalls E [] calls = step_ret calls"
| "external_getcalls E ((_, ContractSynced _) # rest) calls = external_getcalls E rest calls"
| "external_getcalls E ((_, ContractCreated c) # rest) calls =
     step_then (step_map_err ME_Transaction
         (deploy_via_udc_getcall E (ec_class_hash c) (ec_salt c) (ec_raw_constructor_data c) 0)) (\<lambda>res.
       external_getcalls E rest (case res of None \<Rightarrow> calls | Some (_, call) \<Rightarrow> add_call call calls))"

definition sync_external_contracts :: "('c, 'f, 'x) chain_env \<Rightarrow> 'c migration \<Rightarrow> (bool, 'x migration_error) step" where
  "sync_external_contracts E M =
     step_then (step_of (map_option Ok (external_contract_classes E (wd_external_contract_classes (mg_diff M)) []))) (\<lambda>classes.
     step_then (declare_classes E classes) (\<lambda>_.
     step_then (external_getcalls E (wd_external_contracts (mg_diff M)) []) (\<lambda>calls.
     step_then (send_plan E M calls) (\<lambda>_. step_ret (calls \<noteq> [])))))"

subsection \<open>The world\<close>

definition world_labeled_class :: "('c, 'f, 'x) chain_env \<Rightarrow> 'c world_status_info \<Rightarrow> ('f labeled_class, 'x migration_error) result" where
  "world_labeled_class E i =
     map_ok (\<lambda>class. \<lparr>lc_label = ''world'', lc_casm_class_hash = wi_casm_class_hash i, lc_class = class\<rparr>)
       (ok_or (flatten_class E (wi_class i)) ME_StarknetJson)"

text \<open>A deployment that sends no transaction reaches \<open>unreachable!()\<close>.  The message with the number of the
  block is left out.\<close>

definition ensure_world :: "('c, 'f, 'x) chain_env \<Rightarrow> 'c migration \<Rightarrow> (bool, 'x migration_error) step" where
  "ensure_world E M =
     (let info = world_info (mg_diff M) in
      case wi_status info of
        WorldSynced \<Rightarrow> step_ret False
      | NotDeployed \<Rightarrow>
          step_then (step_of (Some (world_labeled_class E info))) (\<lambda>c.
          step_then (step_map_err ME_Transaction (declare_class E (ch_account E) c)) (\<lambda>_.
          step_then (step_of (Some (ok_or (world_salt (ce_addresses (ch_contract E)) (world_seed (mg_profile M)))
              ME_CairoShortStringToFelt))) (\<lambda>salt.
          step_then (step_map_err ME_Transaction (deploy_via_udc E (wi_class_hash info) salt [wi_class_hash info] 0)) (\<lambda>sent.
            step_of (if sent then Some (Ok True) else None)))))
      | NewVersion \<Rightarrow>
          step_then (step_of (Some (world_labeled_class E info))) (\<lambda>c.
          step_then (step_map_err ME_Transaction (declare_class E (ch_account E) c)) (\<lambda>_.
          step_then (step_map_err ME_Transaction (multicall E [WorldCall (UpgradeWorld (wi_class_hash info))])) (\<lambda>_.
            step_ret True))))"

definition migrate ::
  "('c \<Rightarrow> 'abi list) \<Rightarrow> ('c, 'f, 'x) chain_env \<Rightarrow> 'c migration \<Rightarrow> (bool \<times> 'abi manifest, 'x migration_error) step" where
  "migrate abi_of E M =
     step_then (if mg_guest M then step_ret False else ensure_world E M) (\<lambda>world_has_changed.
     step_then (if is_synced (mg_diff M) then step_ret False else sync_resources E M) (\<lambda>resources_have_changed.
     step_then (sync_permissions E M) (\<lambda>permissions_have_changed.
     step_then (initialize_contracts E M) (\<lambda>contracts_have_changed.
     step_then (sync_external_contracts E M) (\<lambda>external_contracts_have_changed.
     step_then (step_of (map_option Ok (new_manifest abi_of (ce_naming (ch_contract E)) (ce_addresses (ch_contract E)) (mg_diff M)))) (\<lambda>m.
       step_ret (world_has_changed \<or> resources_have_changed \<or> permissions_have_changed
         \<or> external_contracts_have_changed \<or> contracts_have_changed, m)))))))"

section \<open>A declaration that is lost\<close>

lemma distribute_single:
  assumes "distinct (map lc_casm_class_hash cs)"
  shows "map (map_prod id (map snd)) (distribute cs [account]) = [(account, cs)]"
proof -
  have "foldl (\<lambda>ds (i, c). let k = i mod length ds in ds[k := (fst (ds ! k), add_class c (snd (ds ! k)))]) [(account, m)] (enumerate n cs) =
      [(account, m @ map (\<lambda>c. (lc_casm_class_hash c, c)) cs)]"
    if "lc_casm_class_hash ` set cs \<inter> fst ` set m = {}" for m n
    using assms that
  proof (induction cs arbitrary: m n)
    case (Cons c cs)
    from Cons.IH [of "m @ [(lc_casm_class_hash c, c)]" "Suc n"] Cons.prems show ?case by (auto simp: add_class_def Let_def)
  qed simp
  from this [of "[]" 0] show ?thesis by (simp add: distribute_def comp_def)
qed

text \<open>C39: With predeployed accounts, an error that says a class is already declared is ignored.  It also ends
  the work of its declarer, so that the classes after it are not declared, and \<open>declare_classes\<close> returns
  without an error all the same.\<close>

theorem declarations_lost:
  assumes "predeployed_accounts E = [account]" "map snd classes = c # cs" "distinct (map lc_casm_class_hash (c # cs))"
    and "sierra_class_hash E (lc_class c) \<notin> ws_declared (chain_world ch)" "lookup_error E ch (sierra_class_hash E (lc_class c)) = None"
    and "refused_class E account ch (lc_class c) = Some x" "already_declared E x"
  shows "declare_classes E classes ch = (Some (Ok ()), ch)"
proof -
  have first: "declare_class E account c ch = (Some (Err (Refused x)), ch)"
    using assms(4-6) by (simp add: declare_class_def step_then_def is_declared_def send_declaration_def)
  obtain ks where ks: "distribute (c # cs) [account] = [(account, ks)]" "map snd ks = c # cs"
    using distribute_single [OF assms(3), of account] by (cases "distribute (c # cs) [account]") auto
  show ?thesis
    using first assms(1,2,7) ks
    by (simp add: declare_classes_def step_then_def error_says_declared_def)
qed

definition lost_env :: "(felt, felt, unit) chain_env" where
  "lost_env =
     \<lparr>ch_contract = \<lparr>ce_naming = \<lparr>byte_array_felts = (\<lambda>_. None), poseidon_hash_many = (\<lambda>_. 0)\<rparr>,
        ce_addresses = \<lparr>contract_address_of = (\<lambda>_ _ _ _. 0), short_string_felt = (\<lambda>_. None), poseidon_hash_single = (\<lambda>x. x)\<rparr>,
        ce_world = 0, dojo_name_of = (\<lambda>_. None), upgradable = (\<lambda>_ _. True), dojo_init = (\<lambda>_ _ _. None)\<rparr>,
      ch_account = 0,
      ch_calldata = \<lparr>cd_naming = \<lparr>byte_array_felts = (\<lambda>_. None), poseidon_hash_many = (\<lambda>_. 0)\<rparr>,
        cd_addresses = \<lparr>contract_address_of = (\<lambda>_ _ _ _. 0), short_string_felt = (\<lambda>_. None), poseidon_hash_single = (\<lambda>x. x)\<rparr>,
        felt_from_hex = (\<lambda>_. None), felt_from_dec_str = (\<lambda>_. None)\<rparr>,
      tx_hash_of = (\<lambda>_ _. 0), refused_calls = (\<lambda>_ _. None),
      refused_class = (\<lambda>_ _ f. if f = 1 then Some () else None), lookup_error = (\<lambda>_ _. None),
      already_declared = (\<lambda>_. True), constructor_returns = (\<lambda>_ _. True), flatten_class = Some,
      sierra_class_hash = (\<lambda>f. f), predeployed_accounts = [1]\<rparr>"

definition lost_chain :: chain_state where
  "lost_chain = \<lparr>chain_world = \<lparr>ws_resources = Map.empty, ws_owners = {}, ws_writers = {}, ws_initialized = {}, models_salt = 0,
     events_salt = 0, ws_declared = {}, ws_class_at = Map.empty\<rparr>, chain_events = []\<rparr>"

definition lost_class :: "felt \<Rightarrow> felt labeled_class" where
  "lost_class f = \<lparr>lc_label = ''c'', lc_casm_class_hash = f, lc_class = f\<rparr>"

theorem declarations_lost_witness:
  "declare_classes lost_env [(1, lost_class 1), (felt 2, lost_class (felt 2))] lost_chain = (Some (Ok ()), lost_chain) \<and>
   felt 2 \<notin> ws_declared (chain_world lost_chain) \<and> refused_class lost_env 1 lost_chain (felt 2) = None"
proof -
  have "felt 2 \<noteq> 1" "(1 :: felt) \<noteq> felt 2" by (simp_all add: one_felt_eq stark_prime_def)
  then show ?thesis
    using declarations_lost [of lost_env 1 "[(1, lost_class 1), (felt 2, lost_class (felt 2))]" "lost_class 1" "[lost_class (felt 2)]" lost_chain "()"]
    by (simp add: lost_env_def lost_class_def lost_chain_def)
qed

end
