(* ===== verification/World_Refinement.thy ===== *)
theory World_Refinement
  imports World_Contract
begin

text \<open>
  What the remote world built from the events (\<open>match_events\<close>) says is what the world contract holds:
  for every resource the contract registered with an event, its class, whether it is initialized and
  its writers; of its owners it knows those granted by an event.  The histories of the contract are an
  inductive relation, and the agreement is an invariant along them.
\<close>

section \<open>Histories of the contract\<close>

definition plain :: "world_resource \<Rightarrow> bool" where
  "plain r = (case r of ResNamespace _ \<Rightarrow> True | ResContract _ _ \<Rightarrow> True | ResModel _ _ \<Rightarrow> True | ResEvent _ _ \<Rightarrow> True | _ \<Rightarrow> False)"

text \<open>The resources the constructor registers without an event.\<close>

definition internal_selectors :: "contract_env \<Rightarrow> felt set" where
  "internal_selectors C = insert WORLD
     (set_option (compute_bytearray_hash (ce_naming C) internal_namespace) \<union>
      set_option (compute_selector_from_names (ce_naming C) internal_namespace ''ResourceMetadata''))"

definition known_resource :: "contract_env \<Rightarrow> world_state \<Rightarrow> felt \<Rightarrow> bool" where
  "known_resource C s selector \<longleftrightarrow>
     selector \<notin> internal_selectors C \<and> (\<exists>r. ws_resources s selector = Some r \<and> plain r)"

text \<open>
  The calls whose events can be read back: texts are UTF-8, metadata is only set for the world or a
  resource the events have announced, and a library is entered in the remote world under a selector of
  the set \<open>L\<close>, which no other resource has.
\<close>

fun readable_call :: "contract_env \<Rightarrow> (string \<Rightarrow> bool) \<Rightarrow> felt set \<Rightarrow> world_state \<Rightarrow> world_call \<Rightarrow> bool" where
  "readable_call C utf8 L s (SetMetadata r _ _) \<longleftrightarrow> r = WORLD \<or> known_resource C s r"
| "readable_call C utf8 L s (RegisterLibrary ns _ n v) \<longleftrightarrow>
     utf8 ns \<and> (case compute_selector_from_names (ce_naming C) ns (library_name (n @ ''_v'' @ v)) of None \<Rightarrow> False | Some l \<Rightarrow> l \<in> L)"
| "readable_call C utf8 L s (RegisterContract _ ns _) \<longleftrightarrow> utf8 ns"
| "readable_call C utf8 L s (RegisterModel ns _) \<longleftrightarrow> utf8 ns"
| "readable_call C utf8 L s (RegisterEvent ns _) \<longleftrightarrow> utf8 ns"
| "readable_call C utf8 L s _ \<longleftrightarrow> True"

inductive world_history ::
  "contract_env \<Rightarrow> (string \<Rightarrow> bool) \<Rightarrow> felt set \<Rightarrow> world_state \<Rightarrow> world_event list \<Rightarrow> bool" for C utf8 L where
  spawned: "world_constructor C creator class_hash s0 = Some (s, evs) \<Longrightarrow>
     ws_class_at s0 (ce_world C) = Some class_hash \<Longrightarrow> L \<inter> dom (ws_resources s) = {} \<Longrightarrow>
     world_history C utf8 L s evs"
| declared: "world_history C utf8 L s evs \<Longrightarrow> world_history C utf8 L (s\<lparr>ws_declared := insert h (ws_declared s)\<rparr>) evs"
| called: "world_history C utf8 L s evs \<Longrightarrow> exec_call C caller tx c s = Some (s', evs') \<Longrightarrow>
     readable_call C utf8 L s c \<Longrightarrow> L \<inter> dom (ws_resources s') = {} \<Longrightarrow>
     world_history C utf8 L s' (evs @ evs')"
| deployed: "world_history C utf8 L s evs \<Longrightarrow> ws_class_at s address = None \<Longrightarrow>
     world_history C utf8 L (s\<lparr>ws_class_at := (ws_class_at s)(address \<mapsto> h)\<rparr>) evs"

text \<open>What is assumed of the initializers of the contracts: they write records, but do not manage the
  world.\<close>

definition init_neutral :: "contract_env \<Rightarrow> bool" where
  "init_neutral C \<longleftrightarrow> (\<forall>a d s s' evs. dojo_init C a d s = Some (s', evs) \<longrightarrow> s' = s \<and> set evs \<subseteq> {ResourceEvent})"

section \<open>The effects of the calls\<close>

lemma deploy_effect:
  assumes "deploy_syscall C class_hash salt s = Some (address, s1)"
  shows "s1 = s\<lparr>ws_class_at := (ws_class_at s)(address \<mapsto> class_hash)\<rparr>" "ws_class_at s address = None"
    "address = contract_address_of (ce_addresses C) salt class_hash [] (ce_world C)" "class_hash \<in> ws_declared s"
  using assms by (auto simp: deploy_syscall_def Let_def split: if_splits)

lemma selector_from_names_hashes:
  assumes "compute_bytearray_hash E ns = Some nh" "compute_bytearray_hash E n = Some h"
  shows "compute_selector_from_names E ns n = Some (compute_selector_from_hashes E nh h)"
  using assms by (simp add: compute_selector_from_names_def)

text \<open>A registration adds one resource at a new address, owned by the caller.\<close>

definition registered ::
  "contract_env \<Rightarrow> felt \<Rightarrow> string \<Rightarrow> felt \<Rightarrow> (felt \<Rightarrow> felt \<Rightarrow> world_resource) \<Rightarrow> string \<Rightarrow> felt \<Rightarrow> felt \<Rightarrow> world_state \<Rightarrow> world_state \<Rightarrow> bool" where
  "registered C caller ns class_hash mk name selector address s s' \<longleftrightarrow>
     dojo_name_of C class_hash = Some name \<and> is_name_valid name \<and>
     compute_selector_from_names (ce_naming C) ns name = Some selector \<and>
     ws_resources s selector = None \<and> ws_class_at s address = None \<and>
     (\<exists>nh. ws_resources s' = (ws_resources s)(selector \<mapsto> mk address nh)) \<and>
     ws_owners s' = insert (selector, caller) (ws_owners s) \<and> ws_writers s' = ws_writers s \<and>
     ws_initialized s' = ws_initialized s \<and> ws_class_at s' = (ws_class_at s)(address \<mapsto> class_hash)"

lemma register_stored_effect:
  assumes "register_stored C caller ns class_hash salt mk ev s = Some (s', evs)"
  shows "\<exists>name selector address. registered C caller ns class_hash mk name selector address s s' \<and> evs = [ev name address]"
proof -
  obtain nh address s1 name h where
    b: "compute_bytearray_hash (ce_naming C) ns = Some nh" "deploy_syscall C class_hash salt s = Some (address, s1)"
      "dojo_name_of C class_hash = Some name" "compute_bytearray_hash (ce_naming C) name = Some h"
    and r: "(let selector = compute_selector_from_hashes (ce_naming C) nh h in
       if is_name_valid name \<and> is_namespace_registered s1 nh
          \<and> assert_caller_permissions caller nh Owner s1 \<and> ws_resources s1 selector = None
       then Some (s1\<lparr>ws_resources := (ws_resources s1)(selector \<mapsto> mk address nh),
                    ws_owners := insert (selector, caller) (ws_owners s1)\<rparr>, [ev name address])
       else None) = Some (s', evs)"
    using assms unfolding register_stored_def by (auto simp: bind_eq_Some_conv)
  note d = deploy_effect [OF b(2)]
  let ?sel = "compute_selector_from_hashes (ce_naming C) nh h"
  from r d have "registered C caller ns class_hash mk name ?sel address s s'" "evs = [ev name address]"
    using b selector_from_names_hashes [OF b(1,4)]
    by (auto simp: registered_def Let_def split: if_splits)
  then show ?thesis by blast
qed

lemma register_contract_effect:
  assumes "ws_register_contract C caller salt ns class_hash s = Some (s', evs)"
  shows "\<exists>name selector address. registered C caller ns class_hash ResContract name selector address s s' \<and>
    address = contract_address_of (ce_addresses C) salt class_hash [] (ce_world C) \<and>
    evs = [ContractRegistered name ns address class_hash salt]"
proof -
  obtain nh address s1 name h where
    b: "compute_bytearray_hash (ce_naming C) ns = Some nh" "deploy_syscall C class_hash salt s = Some (address, s1)"
      "dojo_name_of C class_hash = Some name" "compute_bytearray_hash (ce_naming C) name = Some h"
    and r: "(let selector = compute_selector_from_hashes (ce_naming C) nh h in
       if is_name_valid name \<and> ws_resources s1 selector = None \<and> is_namespace_registered s1 nh
          \<and> assert_caller_permissions caller nh Owner s1
       then Some (s1\<lparr>ws_owners := insert (selector, caller) (ws_owners s1),
                    ws_resources := (ws_resources s1)(selector \<mapsto> ResContract address nh)\<rparr>,
                  [ContractRegistered name ns address class_hash salt])
       else None) = Some (s', evs)"
    using assms unfolding ws_register_contract_def by (auto simp: bind_eq_Some_conv)
  note d = deploy_effect [OF b(2)]
  let ?sel = "compute_selector_from_hashes (ce_naming C) nh h"
  from r d have "registered C caller ns class_hash ResContract name ?sel address s s'"
      "evs = [ContractRegistered name ns address class_hash salt]"
    using b selector_from_names_hashes [OF b(1,4)]
    by (auto simp: registered_def Let_def split: if_splits)
  with d(3) show ?thesis by blast
qed

text \<open>An upgrade of a model or an event moves it to a new address with the new class.\<close>

definition moved ::
  "contract_env \<Rightarrow> string \<Rightarrow> felt \<Rightarrow> (world_resource \<Rightarrow> felt option) \<Rightarrow> (felt \<Rightarrow> felt \<Rightarrow> world_resource) \<Rightarrow> string \<Rightarrow> felt \<Rightarrow> felt \<Rightarrow> world_state \<Rightarrow> world_state \<Rightarrow> bool" where
  "moved C ns class_hash dest mk name selector address s s' \<longleftrightarrow>
     dojo_name_of C class_hash = Some name \<and> compute_selector_from_names (ce_naming C) ns name = Some selector \<and>
     (\<exists>r prev. ws_resources s selector = Some r \<and> dest r = Some prev) \<and> ws_class_at s address = None \<and>
     (\<exists>nh. ws_resources s' = (ws_resources s)(selector \<mapsto> mk address nh)) \<and>
     ws_owners s' = ws_owners s \<and> ws_writers s' = ws_writers s \<and>
     ws_initialized s' = ws_initialized s \<and> ws_class_at s' = (ws_class_at s)(address \<mapsto> class_hash)"

lemma upgrade_stored_effect:
  assumes "upgrade_stored C caller ns class_hash salt dest mk ev s = Some (s', evs)"
  shows "\<exists>name selector address prev. moved C ns class_hash dest mk name selector address s s' \<and> evs = [ev selector address prev]"
proof -
  obtain nh address s1 name h where
    b: "compute_bytearray_hash (ce_naming C) ns = Some nh" "deploy_syscall C class_hash salt s = Some (address, s1)"
      "dojo_name_of C class_hash = Some name" "compute_bytearray_hash (ce_naming C) name = Some h"
    and r: "(let selector = compute_selector_from_hashes (ce_naming C) nh h in
       if is_namespace_registered s1 nh \<and> assert_caller_permissions caller selector Owner s1 then
         Option.bind (Option.bind (ws_resources s1 selector) dest) (\<lambda>prev_address.
         Option.bind (ws_class_at s1 prev_address) (\<lambda>prev_class.
           if upgradable C prev_class class_hash
           then Some (s1\<lparr>ws_resources := (ws_resources s1)(selector \<mapsto> mk address nh)\<rparr>,
                      [ev selector address prev_address])
           else None))
       else None) = Some (s', evs)"
    using assms unfolding upgrade_stored_def by (auto simp: bind_eq_Some_conv)
  note d = deploy_effect [OF b(2)]
  let ?sel = "compute_selector_from_hashes (ce_naming C) nh h"
  from r obtain res prev where p: "ws_resources s1 ?sel = Some res" "dest res = Some prev"
    "s' = s1\<lparr>ws_resources := (ws_resources s1)(?sel \<mapsto> mk address nh)\<rparr>" "evs = [ev ?sel address prev]"
    by (auto simp: Let_def bind_eq_Some_conv split: if_splits)
  have "moved C ns class_hash dest mk name ?sel address s s'"
    unfolding moved_def using b(3) selector_from_names_hashes [OF b(1,4)] d p by auto
  with p(4) show ?thesis by blast
qed

lemma upgrade_contract_effect:
  assumes "ws_upgrade_contract C caller tx ns class_hash s = Some (s', evs)"
  shows "\<exists>name selector address nh trial. dojo_name_of C class_hash = Some name \<and>
    compute_selector_from_names (ce_naming C) ns name = Some selector \<and>
    ws_resources s selector = Some (ResContract address nh) \<and> ws_class_at s trial = None \<and>
    s' = s\<lparr>ws_class_at := (ws_class_at s)(trial \<mapsto> class_hash, address \<mapsto> class_hash)\<rparr> \<and>
    evs = [ContractUpgraded selector class_hash]"
proof -
  obtain nh trial s1 name h where
    b: "compute_bytearray_hash (ce_naming C) ns = Some nh"
      "deploy_syscall C class_hash (poseidon_hash_many (ce_naming C) [tx, nh]) s = Some (trial, s1)"
      "dojo_name_of C class_hash = Some name" "compute_bytearray_hash (ce_naming C) name = Some h"
    and r: "(let selector = compute_selector_from_hashes (ce_naming C) nh h in
       case ws_resources s1 selector of
         Some (ResContract address _) \<Rightarrow>
           if assert_caller_permissions caller selector Owner s1 \<and> class_hash \<noteq> 0
           then Some (s1\<lparr>ws_class_at := (ws_class_at s1)(address \<mapsto> class_hash)\<rparr>, [ContractUpgraded selector class_hash])
           else None
       | _ \<Rightarrow> None) = Some (s', evs)"
    using assms unfolding ws_upgrade_contract_def by (auto simp: bind_eq_Some_conv)
  note d = deploy_effect [OF b(2)]
  let ?sel = "compute_selector_from_hashes (ce_naming C) nh h"
  from r obtain address nh' where "ws_resources s1 ?sel = Some (ResContract address nh')"
    "s' = s1\<lparr>ws_class_at := (ws_class_at s1)(address \<mapsto> class_hash)\<rparr>" "evs = [ContractUpgraded ?sel class_hash]"
    by (auto simp: Let_def split: option.splits world_resource.splits if_splits)
  with d b(3) selector_from_names_hashes [OF b(1,4)] show ?thesis by auto
qed

section \<open>The invariants\<close>

definition resource_address :: "world_resource \<Rightarrow> felt option" where
  "resource_address r = (case r of ResContract a _ \<Rightarrow> Some a | ResModel a _ \<Rightarrow> Some a | ResEvent a _ \<Rightarrow> Some a | _ \<Rightarrow> None)"

text \<open>Registered addresses hold a class, a contract shares its address with no other resource, and
  permissions and initializations are of registered resources.\<close>

definition addresses_inv :: "contract_env \<Rightarrow> world_state \<Rightarrow> bool" where
  "addresses_inv C s \<longleftrightarrow>
     (\<forall>selector r a. ws_resources s selector = Some r \<longrightarrow> selector \<notin> internal_selectors C \<longrightarrow> resource_address r = Some a \<longrightarrow>
        ws_class_at s a \<noteq> None \<and> a \<noteq> ce_world C) \<and>
     (\<forall>selector selector' a nh r. ws_resources s selector = Some (ResContract a nh) \<longrightarrow> ws_resources s selector' = Some r \<longrightarrow>
        selector' \<notin> internal_selectors C \<longrightarrow> resource_address r = Some a \<longrightarrow> selector' = selector)"

definition state_inv :: "contract_env \<Rightarrow> world_state \<Rightarrow> bool" where
  "state_inv C s \<longleftrightarrow>
     ws_class_at s (ce_world C) \<noteq> None \<and>
     (\<forall>selector \<in> internal_selectors C. \<exists>r. ws_resources s selector = Some r \<and> (\<forall>a nh. r \<noteq> ResContract a nh)) \<and>
     addresses_inv C s \<and>
     (\<forall>selector x. (selector, x) \<in> ws_writers s \<longrightarrow> ws_resources s selector \<noteq> None) \<and>
     (\<forall>selector \<in> ws_initialized s. ws_resources s selector \<noteq> None)"

definition resource_matches :: "world_state \<Rightarrow> felt \<Rightarrow> world_resource \<Rightarrow> resource_remote \<Rightarrow> bool" where
  "resource_matches s selector r rr \<longleftrightarrow>
     (case (r, rr) of
        (ResNamespace n, NamespaceRemote n' _ _) \<Rightarrow> n' = n
      | (ResContract a _, ContractRemote c i) \<Rightarrow>
          cr_address c = a \<and> cr_current_class_hash c = ws_class_at s a \<and> (i \<longleftrightarrow> selector \<in> ws_initialized s)
      | (ResModel a _, ModelRemote c) \<Rightarrow> cr_current_class_hash c = ws_class_at s a
      | (ResEvent a _, EventRemote c) \<Rightarrow> cr_current_class_hash c = ws_class_at s a
      | _ \<Rightarrow> False) \<and>
     set (rr_writers rr) = {x. (selector, x) \<in> ws_writers s} \<and> set (rr_owners rr) \<subseteq> {x. (selector, x) \<in> ws_owners s}"

definition agrees :: "contract_env \<Rightarrow> world_state \<Rightarrow> world_remote \<Rightarrow> felt \<Rightarrow> bool" where
  "agrees C s w selector \<longleftrightarrow>
     (\<forall>r. ws_resources s selector = Some r \<longrightarrow> plain r \<longrightarrow> selector \<notin> internal_selectors C \<longrightarrow>
        (\<exists>rr. map_of (wr_resources w) selector = Some rr \<and> rr_dojo_selector (ce_naming C) rr = Some selector \<and>
           resource_matches s selector r rr))"

definition remote_inv :: "contract_env \<Rightarrow> felt set \<Rightarrow> world_state \<Rightarrow> world_remote \<Rightarrow> bool" where
  "remote_inv C L s w \<longleftrightarrow>
     (\<forall>selector. agrees C s w selector) \<and>
     (\<forall>selector. map_of (wr_resources w) selector \<noteq> None \<longrightarrow> selector \<in> L \<or> known_resource C s selector) \<and>
     wr_current_class_hash w = ws_class_at s (ce_world C)"

lemma resource_matches_frame:
  assumes "resource_matches s selector r rr"
    and "\<And>a. resource_address r = Some a \<Longrightarrow> ws_class_at s' a = ws_class_at s a"
    and "selector \<in> ws_initialized s' \<longleftrightarrow> selector \<in> ws_initialized s"
    and "\<And>x. (selector, x) \<in> ws_writers s' \<longleftrightarrow> (selector, x) \<in> ws_writers s"
    and "\<And>x. (selector, x) \<in> ws_owners s \<Longrightarrow> (selector, x) \<in> ws_owners s'"
  shows "resource_matches s' selector r rr"
  using assms by (auto simp: resource_matches_def resource_address_def split: world_resource.splits resource_remote.splits)

lemma agrees_frame:
  assumes "agrees C s w selector" "ws_resources s' selector = ws_resources s selector"
    and "map_of (wr_resources w') selector = map_of (wr_resources w) selector"
    and "\<And>r a. ws_resources s selector = Some r \<Longrightarrow> selector \<notin> internal_selectors C \<Longrightarrow> resource_address r = Some a \<Longrightarrow>
           ws_class_at s' a = ws_class_at s a"
    and "selector \<in> ws_initialized s' \<longleftrightarrow> selector \<in> ws_initialized s"
    and "\<And>x. (selector, x) \<in> ws_writers s' \<longleftrightarrow> (selector, x) \<in> ws_writers s"
    and "\<And>x. (selector, x) \<in> ws_owners s \<Longrightarrow> (selector, x) \<in> ws_owners s'"
  shows "agrees C s' w' selector"
  unfolding agrees_def
proof (intro allI impI)
  fix r assume r: "ws_resources s' selector = Some r" "plain r" "selector \<notin> internal_selectors C"
  then obtain rr where rr: "map_of (wr_resources w) selector = Some rr" "rr_dojo_selector (ce_naming C) rr = Some selector"
    "resource_matches s selector r rr"
    using assms(1,2) by (auto simp: agrees_def)
  have r': "ws_resources s selector = Some r" using r(1) assms(2) by simp
  have "resource_matches s' selector r rr"
    by (rule resource_matches_frame [OF rr(3) assms(4) [OF r' r(3)] assms(5-7)])
  with rr assms(3) show "\<exists>rr. map_of (wr_resources w') selector = Some rr \<and> rr_dojo_selector (ce_naming C) rr = Some selector \<and>
      resource_matches s' selector r rr"
    by auto
qed

lemma agreesD:
  assumes "agrees C s w selector" "known_resource C s selector"
  obtains r rr where "ws_resources s selector = Some r" "plain r" "map_of (wr_resources w) selector = Some rr"
    "rr_dojo_selector (ce_naming C) rr = Some selector" "resource_matches s selector r rr"
  using assms by (auto simp: agrees_def known_resource_def)

section \<open>Registration keeps the invariants\<close>

lemma fresh_not_internal: "state_inv C s \<Longrightarrow> ws_resources s selector = None \<Longrightarrow> selector \<notin> internal_selectors C"
  by (auto simp: state_inv_def)

lemma registered_addresses:
  assumes "registered C caller ns class_hash mk name selector address s s'" "state_inv C s"
    and mk: "\<And>nh. resource_address (mk address nh) = Some address"
  shows "addresses_inv C s'"
proof -
  obtain nh where r: "ws_resources s' = (ws_resources s)(selector \<mapsto> mk address nh)"
    and c: "ws_class_at s' = (ws_class_at s)(address \<mapsto> class_hash)"
    and new: "ws_class_at s address = None" "ws_resources s selector = None"
    using assms(1) by (auto simp: registered_def)
  have inv: "addresses_inv C s" and w: "ws_class_at s (ce_world C) \<noteq> None"
    and int: "\<And>sel. sel \<in> internal_selectors C \<Longrightarrow> \<exists>r. ws_resources s sel = Some r \<and> (\<forall>a nh. r \<noteq> ResContract a nh)"
    using assms(2) by (auto simp: state_inv_def)
  have old: "a \<noteq> address" if "ws_resources s sel = Some x" "sel \<notin> internal_selectors C" "resource_address x = Some a" for sel x a
    using inv that new(1) unfolding addresses_inv_def by metis
  have world: "address \<noteq> ce_world C" using w new(1) by auto
  have nint: "selector \<notin> internal_selectors C" using int new(2) by fastforce
  have contract: "sel \<notin> internal_selectors C" if "ws_resources s sel = Some (ResContract a nh)" for sel a nh
    using int [of sel] that by auto
  show ?thesis
    unfolding addresses_inv_def
  proof (intro conjI allI impI)
    fix sel x a assume x: "ws_resources s' sel = Some x" "sel \<notin> internal_selectors C" "resource_address x = Some a"
    show "ws_class_at s' a \<noteq> None"
      using x r c mk inv unfolding addresses_inv_def by (auto split: if_splits)
    show "a \<noteq> ce_world C"
      using x r mk inv world unfolding addresses_inv_def by (auto split: if_splits)
  next
    fix sel sel' a nh' x
    assume x: "ws_resources s' sel = Some (ResContract a nh')" "ws_resources s' sel' = Some x" "sel' \<notin> internal_selectors C"
      "resource_address x = Some a"
    show "sel' = sel"
    proof (cases "sel = selector")
      case True
      then have "a = address" using x(1) r mk [of nh] by (auto simp: resource_address_def)
      then show ?thesis using x(2-4) r True old by (auto split: if_splits)
    next
      case False
      then have s: "ws_resources s sel = Some (ResContract a nh')" using x(1) r by auto
      then have "a \<noteq> address" using old contract by (auto simp: resource_address_def)
      then have "sel' \<noteq> selector" using x(2,4) r mk by auto
      then have "ws_resources s sel' = Some x" using x(2) r by auto
      with s inv x(3,4) show ?thesis unfolding addresses_inv_def by metis
    qed
  qed
qed

lemma registered_state_inv:
  assumes "registered C caller ns class_hash mk name selector address s s'" "state_inv C s"
    and "\<And>nh. resource_address (mk address nh) = Some address"
  shows "state_inv C s'"
proof -
  have "selector \<notin> internal_selectors C"
    using assms(1,2) fresh_not_internal by (auto simp: registered_def)
  then show ?thesis
    using registered_addresses [OF assms] assms(1,2) unfolding state_inv_def registered_def by auto
qed

text \<open>What registering adds to the remote world: a new resource with the announced class and no
  permissions yet.\<close>

lemma add_resource_lookup:
  assumes "rr_dojo_selector E rr = Some selector"
  shows "\<exists>w'. add_resource E rr w = Some w' \<and> map_of (wr_resources w') = (map_of (wr_resources w))(selector \<mapsto> rr) \<and>
    wr_class_hashes w' = wr_class_hashes w"
  using assms by (auto simp: add_resource_def update_conv)

lemma registered_remote_inv:
  assumes reg: "registered C caller ns class_hash mk name selector address s s'"
    and inv: "state_inv C s" "remote_inv C L s w" and fresh: "L \<inter> dom (ws_resources s') = {}"
    and mk: "\<And>nh. resource_address (mk address nh) = Some address" "\<And>nh. plain (mk address nh)"
    and rr: "rr_dojo_selector (ce_naming C) rr = Some selector" "\<And>nh. resource_matches s' selector (mk address nh) rr"
  shows "\<exists>w'. add_resource (ce_naming C) rr w = Some w' \<and> remote_inv C L s' w'"
proof -
  obtain w' where w': "add_resource (ce_naming C) rr w = Some w'" "map_of (wr_resources w') = (map_of (wr_resources w))(selector \<mapsto> rr)"
    "wr_class_hashes w' = wr_class_hashes w"
    using add_resource_lookup [OF rr(1)] by blast
  obtain nh where r: "ws_resources s' = (ws_resources s)(selector \<mapsto> mk address nh)"
    and c: "ws_class_at s' = (ws_class_at s)(address \<mapsto> class_hash)"
    and new: "ws_class_at s address = None" "ws_resources s selector = None"
    and perm: "ws_owners s' = insert (selector, caller) (ws_owners s)" "ws_writers s' = ws_writers s"
      "ws_initialized s' = ws_initialized s"
    using reg by (auto simp: registered_def)
  have "agrees C s' w' sel" for sel
  proof (cases "sel = selector")
    case True
    then show ?thesis using r w' rr by (auto simp: agrees_def)
  next
    case False
    show ?thesis
    proof (rule agrees_frame)
      show "agrees C s w sel" using inv(2) by (simp add: remote_inv_def)
      fix x a assume "ws_resources s sel = Some x" "sel \<notin> internal_selectors C" "resource_address x = Some a"
      then have "ws_class_at s a \<noteq> None" using inv(1) by (auto simp: state_inv_def addresses_inv_def)
      then show "ws_class_at s' a = ws_class_at s a" using c new by auto
    qed (use r w' False perm in auto)
  qed
  moreover have "sel \<in> L \<or> known_resource C s' sel" if "map_of (wr_resources w') sel \<noteq> None" for sel
  proof (cases "sel = selector")
    case True
    then show ?thesis using r mk(2) fresh_not_internal [OF inv(1) new(2)] by (auto simp: known_resource_def)
  next
    case False
    then have "map_of (wr_resources w) sel \<noteq> None" using that w'(2) by auto
    then show ?thesis using inv(2) r False by (auto simp: remote_inv_def known_resource_def)
  qed
  moreover have "wr_current_class_hash w' = ws_class_at s' (ce_world C)"
    using inv c new(1) w'(3) by (auto simp: remote_inv_def wr_current_class_hash_def state_inv_def)
  ultimately show ?thesis using w'(1) by (auto simp: remote_inv_def)
qed

lemma new_common_remote_selector [simp]:
  "cr_dojo_selector E (new_common_remote ch ns n a) = compute_selector_from_names E ns n"
  by (simp add: cr_dojo_selector_def new_common_remote_def)

lemma registered_new_matches:
  assumes "registered C caller ns class_hash mk name selector address s s'" "state_inv C s"
  shows "mk = ResModel \<Longrightarrow> resource_matches s' selector (mk address nh) (ModelRemote (new_common_remote class_hash ns name address))"
    and "mk = ResEvent \<Longrightarrow> resource_matches s' selector (mk address nh) (EventRemote (new_common_remote class_hash ns name address))"
    and "mk = ResContract \<Longrightarrow> resource_matches s' selector (mk address nh) (ContractRemote (new_common_remote class_hash ns name address) False)"
  using assms
  by (auto simp: registered_def resource_matches_def new_common_remote_def cr_current_class_hash_def state_inv_def)

section \<open>Calls that change one resource\<close>

lemma remote_inv_step:
  assumes inv: "remote_inv C L s w"
    and other: "\<And>sel. sel \<noteq> selector \<Longrightarrow> ws_resources s' sel = ws_resources s sel"
      "\<And>sel. sel \<noteq> selector \<Longrightarrow> map_of (wr_resources w') sel = map_of (wr_resources w) sel"
      "\<And>sel r a. sel \<noteq> selector \<Longrightarrow> ws_resources s sel = Some r \<Longrightarrow> sel \<notin> internal_selectors C \<Longrightarrow> resource_address r = Some a \<Longrightarrow>
         ws_class_at s' a = ws_class_at s a"
      "\<And>sel. sel \<noteq> selector \<Longrightarrow> sel \<in> ws_initialized s' \<longleftrightarrow> sel \<in> ws_initialized s"
      "\<And>sel x. sel \<noteq> selector \<Longrightarrow> (sel, x) \<in> ws_writers s' \<longleftrightarrow> (sel, x) \<in> ws_writers s"
      "\<And>sel x. sel \<noteq> selector \<Longrightarrow> (sel, x) \<in> ws_owners s \<Longrightarrow> (sel, x) \<in> ws_owners s'"
    and here: "agrees C s' w' selector" "known_resource C s selector \<Longrightarrow> known_resource C s' selector"
      "map_of (wr_resources w') selector \<noteq> None \<Longrightarrow> map_of (wr_resources w) selector \<noteq> None"
    and world: "wr_class_hashes w' = wr_class_hashes w" "ws_class_at s' (ce_world C) = ws_class_at s (ce_world C)"
  shows "remote_inv C L s' w'"
proof -
  have "agrees C s' w' sel" for sel
  proof (cases "sel = selector")
    case False
    from inv have "agrees C s w sel" by (simp add: remote_inv_def)
    then show ?thesis by (rule agrees_frame) (use other [OF False] in auto)
  qed (use here in simp)
  moreover have "sel \<in> L \<or> known_resource C s' sel" if "map_of (wr_resources w') sel \<noteq> None" for sel
    using that inv here(2,3) other(1,2) [of sel]
    by (cases "sel = selector") (auto simp: remote_inv_def known_resource_def)
  moreover have "wr_current_class_hash w' = ws_class_at s' (ce_world C)"
    using inv world by (auto simp: remote_inv_def wr_current_class_hash_def split: if_splits)
  ultimately show ?thesis by (auto simp: remote_inv_def)
qed

lemma agrees_unknown: "\<not> known_resource C s selector \<Longrightarrow> agrees C s w selector"
  by (auto simp: agrees_def known_resource_def)

lemma known_in_remote:
  assumes "remote_inv C L s w" "known_resource C s selector"
  obtains r rr where "ws_resources s selector = Some r" "plain r" "map_of (wr_resources w) selector = Some rr"
    "rr_dojo_selector (ce_naming C) rr = Some selector" "resource_matches s selector r rr"
  using assms agreesD [of C s w selector] by (auto simp: remote_inv_def)

text \<open>A selector outside \<open>L\<close> is in the remote world exactly when the events have announced it.\<close>

lemma remote_lookup_iff:
  assumes "remote_inv C L s w" "selector \<notin> L"
  shows "map_of (wr_resources w) selector \<noteq> None \<longleftrightarrow> known_resource C s selector"
  using assms by (auto simp: remote_inv_def elim: known_in_remote [OF assms(1)])

lemma upgrade_resource_lookup:
  "map_of (wr_resources (upgrade_resource selector h w)) =
     (case map_of (wr_resources w) selector of
        None \<Rightarrow> map_of (wr_resources w)
      | Some rr \<Rightarrow> (map_of (wr_resources w))(selector \<mapsto> push_class_hash h rr))"
  "wr_class_hashes (upgrade_resource selector h w) = wr_class_hashes w"
  by (auto simp: upgrade_resource_def with_resource_def update_conv split: option.split)

lemma push_class_hash_simps [simp]:
  "rr_dojo_selector E (push_class_hash h rr) = rr_dojo_selector E rr"
  "rr_writers (push_class_hash h rr) = rr_writers rr" "rr_owners (push_class_hash h rr) = rr_owners rr"
  "cr_current_class_hash (cr_push_class_hash h c) = Some h" "cr_address (cr_push_class_hash h c) = cr_address c"
  "cr_writers (cr_push_class_hash h c) = cr_writers c" "cr_owners (cr_push_class_hash h c) = cr_owners c"
  by (cases rr; simp add: cr_dojo_selector_def cr_push_class_hash_def cr_current_class_hash_def)
    (cases rr; simp add: cr_push_class_hash_def cr_current_class_hash_def)+

lemma moved_inv:
  assumes m: "moved C ns class_hash dest mk name selector address s s'"
    and inv: "state_inv C s" "remote_inv C L s w"
    and mk: "(mk = ResModel \<and> dest = (\<lambda>r. case r of ResModel a _ \<Rightarrow> Some a | _ \<Rightarrow> None)) \<or>
      (mk = ResEvent \<and> dest = (\<lambda>r. case r of ResEvent a _ \<Rightarrow> Some a | _ \<Rightarrow> None))"
  shows "state_inv C s' \<and> remote_inv C L s' (upgrade_resource selector class_hash w)"
proof
  obtain nh old where r: "ws_resources s' = (ws_resources s)(selector \<mapsto> mk address nh)"
    and c: "ws_class_at s' = (ws_class_at s)(address \<mapsto> class_hash)" and new: "ws_class_at s address = None"
    and old: "ws_resources s selector = Some old" "dest old \<noteq> None"
    and perm: "ws_owners s' = ws_owners s" "ws_writers s' = ws_writers s" "ws_initialized s' = ws_initialized s"
    using m by (auto simp: moved_def)
  have nc: "mk address nh \<noteq> ResContract a nh'" for a nh' using mk by auto
  have addr: "resource_address (mk address nh) = Some address" using mk by (auto simp: resource_address_def)
  have world: "address \<noteq> ce_world C" using inv(1) new by (auto simp: state_inv_def)
  have keep: "ws_class_at s' a = ws_class_at s a" "a \<noteq> address"
    if "ws_resources s sel = Some x" "sel \<notin> internal_selectors C" "resource_address x = Some a" for sel x a
  proof -
    have "ws_class_at s a \<noteq> None" using inv(1) that by (auto simp: state_inv_def addresses_inv_def)
    then show "ws_class_at s' a = ws_class_at s a" "a \<noteq> address" using c new by auto
  qed
  have ai: "addresses_inv C s" using inv(1) by (simp add: state_inv_def)
  have "addresses_inv C s'"
    unfolding addresses_inv_def
  proof (intro conjI allI impI)
    fix sel x a assume x: "ws_resources s' sel = Some x" "sel \<notin> internal_selectors C" "resource_address x = Some a"
    show "ws_class_at s' a \<noteq> None"
      using x r c addr ai unfolding addresses_inv_def by (auto split: if_splits)
    show "a \<noteq> ce_world C"
      using x r addr ai world unfolding addresses_inv_def by (auto split: if_splits)
  next
    fix sel sel' a nh' x
    assume x: "ws_resources s' sel = Some (ResContract a nh')" "ws_resources s' sel' = Some x" "sel' \<notin> internal_selectors C"
      "resource_address x = Some a"
    from x(1) r nc have sel: "sel \<noteq> selector" "ws_resources s sel = Some (ResContract a nh')"
      by (auto split: if_splits)
    have "sel \<notin> internal_selectors C" using inv(1) sel(2) by (auto simp: state_inv_def)
    then have "a \<noteq> address" using keep(2) [OF sel(2)] by (simp add: resource_address_def)
    then have "sel' \<noteq> selector" using x(2,4) r addr by auto
    then have "ws_resources s sel' = Some x" using x(2) r by auto
    with sel(2) ai x(3,4) show "sel' = sel" unfolding addresses_inv_def by metis
  qed
  moreover have "old \<noteq> ResContract a nh'" for a nh' using mk old(2) by auto
  ultimately show "state_inv C s'"
    using inv(1) r c perm old(1) nc by (auto simp: state_inv_def)
  have plain: "plain old" "plain (mk address nh)" using mk old(2) by (auto simp: plain_def split: world_resource.splits)
  show "remote_inv C L s' (upgrade_resource selector class_hash w)"
  proof (rule remote_inv_step [OF inv(2), where selector = selector])
    show "agrees C s' (upgrade_resource selector class_hash w) selector"
    proof (cases "known_resource C s selector")
      case False
      then have "\<not> known_resource C s' selector" using r old(1) plain by (auto simp: known_resource_def)
      then show ?thesis by (rule agrees_unknown)
    next
      case True
      then obtain rr where rr: "map_of (wr_resources w) selector = Some rr" "rr_dojo_selector (ce_naming C) rr = Some selector"
        "resource_matches s selector old rr"
        using known_in_remote [OF inv(2) True] old(1) by auto
      have "resource_matches s' selector (mk address nh) (push_class_hash class_hash rr)"
        using rr(3) mk old(2) c perm
        by (cases rr) (auto simp: resource_matches_def split: world_resource.splits)
      with r rr show ?thesis
        by (auto simp: agrees_def upgrade_resource_lookup)
    qed
  qed (use r c perm keep world old(1) plain in \<open>auto simp: upgrade_resource_lookup known_resource_def split: option.splits\<close>)
qed

lemma upgraded_contract_inv:
  assumes r: "ws_resources s selector = Some (ResContract address nh)" and new: "ws_class_at s trial = None"
    and s': "s' = s\<lparr>ws_class_at := (ws_class_at s)(trial \<mapsto> class_hash, address \<mapsto> class_hash)\<rparr>"
    and inv: "state_inv C s" "remote_inv C L s w"
  shows "state_inv C s' \<and> remote_inv C L s' (upgrade_resource selector class_hash w)"
proof
  have ai: "addresses_inv C s" and int: "selector \<notin> internal_selectors C" and w0: "ws_class_at s (ce_world C) \<noteq> None"
    using inv(1) r by (auto simp: state_inv_def)
  have known: "known_resource C s selector" using r int by (simp add: known_resource_def plain_def)
  have here: "ws_class_at s address \<noteq> None" "address \<noteq> ce_world C"
    using ai r int unfolding addresses_inv_def by (fastforce simp: resource_address_def)+
  have world: "ws_class_at s' (ce_world C) = ws_class_at s (ce_world C)"
    using s' here(2) new w0 by auto
  have "addresses_inv C s'"
    using ai s' by (auto simp: addresses_inv_def)
  then show "state_inv C s'"
    using inv(1) s' world by (auto simp: state_inv_def)
  show "remote_inv C L s' (upgrade_resource selector class_hash w)"
  proof (rule remote_inv_step [OF inv(2), where selector = selector])
    fix sel x a
    assume x: "sel \<noteq> selector" "ws_resources s sel = Some x" "sel \<notin> internal_selectors C" "resource_address x = Some a"
    have "a \<noteq> address" using ai r x unfolding addresses_inv_def by metis
    moreover have "a \<noteq> trial" using ai x(2-4) new unfolding addresses_inv_def by metis
    ultimately show "ws_class_at s' a = ws_class_at s a" using s' by simp
  next
    obtain rr where rr: "map_of (wr_resources w) selector = Some rr" "rr_dojo_selector (ce_naming C) rr = Some selector"
      "resource_matches s selector (ResContract address nh) rr"
      using known_in_remote [OF inv(2) known] r by auto
    then have "resource_matches s' selector (ResContract address nh) (push_class_hash class_hash rr)"
      using s' by (cases rr) (auto simp: resource_matches_def)
    with r s' rr show "agrees C s' (upgrade_resource selector class_hash w) selector"
      by (auto simp: agrees_def upgrade_resource_lookup)
  qed (use s' world in \<open>auto simp: upgrade_resource_lookup known_resource_def split: option.splits\<close>)
qed

lemma cr_current_class_hash_updates [simp]:
  "cr_current_class_hash (c\<lparr>cr_writers := ws\<rparr>) = cr_current_class_hash c"
  "cr_current_class_hash (c\<lparr>cr_owners := os\<rparr>) = cr_current_class_hash c"
  "cr_current_class_hash (c\<lparr>cr_metadata_hash := h\<rparr>) = cr_current_class_hash c"
  by (simp_all add: cr_current_class_hash_def)

lemma set_permission_set [simp]:
  "set (set_permission a v xs) = (if v then insert a (set xs) else set xs - {a})"
  by (simp add: set_permission_def)

lemma update_permission_simps:
  "update_writer a v rr = Some rr' \<Longrightarrow> rr_dojo_selector E rr' = rr_dojo_selector E rr"
  "update_owner a v rr = Some rr' \<Longrightarrow> rr_dojo_selector E rr' = rr_dojo_selector E rr"
  by (cases rr; auto simp: cr_dojo_selector_def)+

lemma plain_updates:
  assumes "resource_matches s selector r rr"
  shows "\<exists>rr'. update_writer a v rr = Some rr'" "\<exists>rr'. update_owner a v rr = Some rr'"
  using assms by (cases rr; auto simp: resource_matches_def split: world_resource.splits)+

text \<open>Permissions: the same change on both sides.\<close>

lemma writer_updated_inv:
  assumes s': "s' = s\<lparr>ws_writers := (if v then insert (selector, a) (ws_writers s) else ws_writers s - {(selector, a)})\<rparr>"
    and reg: "ws_resources s selector \<noteq> None" and L: "selector \<notin> L" and inv: "state_inv C s" "remote_inv C L s w"
  shows "state_inv C s' \<and> (\<exists>w'. match_event (ce_naming C) utf8 None (WriterUpdated selector a v) w = Some (Ok w') \<and> remote_inv C L s' w')"
proof
  show "state_inv C s'"
    using inv(1) reg s' by (auto simp: state_inv_def addresses_inv_def)
  show "\<exists>w'. match_event (ce_naming C) utf8 None (WriterUpdated selector a v) w = Some (Ok w') \<and> remote_inv C L s' w'"
  proof (cases "known_resource C s selector")
    case True
    then obtain r rr where r: "ws_resources s selector = Some r" "map_of (wr_resources w) selector = Some rr"
      "rr_dojo_selector (ce_naming C) rr = Some selector" "resource_matches s selector r rr"
      using known_in_remote [OF inv(2)] by metis
    then obtain rr' where rr': "update_writer a v rr = Some rr'" using plain_updates by metis
    let ?w = "w\<lparr>wr_resources := AList.update selector rr' (wr_resources w)\<rparr>"
    have "resource_matches s' selector r rr'"
      using r(4) rr' s' by (cases rr) (auto simp: resource_matches_def split: world_resource.splits)
    then have "agrees C s' ?w selector"
      using r s' update_permission_simps(1) [OF rr'] by (auto simp: agrees_def update_conv)
    then have "remote_inv C L s' ?w"
      using r(2) by (intro remote_inv_step [OF inv(2), where selector = selector])
        (auto simp: s' known_resource_def update_conv split: if_splits)
    then show ?thesis using r(2) rr' by simp
  next
    case False
    then have none: "map_of (wr_resources w) selector = None" using remote_lookup_iff [OF inv(2) L] by simp
    let ?w = "w\<lparr>external_writers := update_external selector a v (external_writers w)\<rparr>"
    have "\<not> known_resource C s' selector" using False s' by (simp add: known_resource_def)
    then have "remote_inv C L s' ?w"
      by (intro remote_inv_step [OF inv(2), where selector = selector] agrees_unknown)
        (auto simp: s' known_resource_def split: if_splits)
    then show ?thesis using none by simp
  qed
qed

lemma owner_updated_inv:
  assumes s': "s' = s\<lparr>ws_owners := (if v then insert (selector, a) (ws_owners s) else ws_owners s - {(selector, a)})\<rparr>"
    and L: "selector \<notin> L" and inv: "state_inv C s" "remote_inv C L s w"
  shows "state_inv C s' \<and> (\<exists>w'. match_event (ce_naming C) utf8 None (OwnerUpdated selector a v) w = Some (Ok w') \<and> remote_inv C L s' w')"
proof
  show "state_inv C s'"
    using inv(1) s' by (auto simp: state_inv_def addresses_inv_def)
  show "\<exists>w'. match_event (ce_naming C) utf8 None (OwnerUpdated selector a v) w = Some (Ok w') \<and> remote_inv C L s' w'"
  proof (cases "known_resource C s selector")
    case True
    then obtain r rr where r: "ws_resources s selector = Some r" "map_of (wr_resources w) selector = Some rr"
      "rr_dojo_selector (ce_naming C) rr = Some selector" "resource_matches s selector r rr"
      using known_in_remote [OF inv(2)] by metis
    then obtain rr' where rr': "update_owner a v rr = Some rr'" using plain_updates by metis
    let ?w = "w\<lparr>wr_resources := AList.update selector rr' (wr_resources w)\<rparr>"
    have "resource_matches s' selector r rr'"
      using r(4) rr' s' by (cases rr) (auto simp: resource_matches_def split: world_resource.splits)
    then have "agrees C s' ?w selector"
      using r s' update_permission_simps(2) [OF rr'] by (auto simp: agrees_def update_conv)
    then have "remote_inv C L s' ?w"
      using r(2) by (intro remote_inv_step [OF inv(2), where selector = selector])
        (auto simp: s' known_resource_def update_conv split: if_splits)
    then show ?thesis using r(2) rr' by simp
  next
    case False
    then have none: "map_of (wr_resources w) selector = None" using remote_lookup_iff [OF inv(2) L] by simp
    let ?w = "w\<lparr>external_owners := update_external selector a v (external_owners w)\<rparr>"
    have "\<not> known_resource C s' selector" using False s' by (simp add: known_resource_def)
    then have "remote_inv C L s' ?w"
      by (intro remote_inv_step [OF inv(2), where selector = selector] agrees_unknown)
        (auto simp: s' known_resource_def split: if_splits)
    then show ?thesis using none by simp
  qed
qed

lemma initialized_inv:
  assumes r: "ws_resources s selector = Some (ResContract address nh)"
    and s': "s' = s\<lparr>ws_initialized := insert selector (ws_initialized s)\<rparr>" and inv: "state_inv C s" "remote_inv C L s w"
  shows "state_inv C s' \<and> (\<exists>w'. match_event (ce_naming C) utf8 None (ContractInitialized selector d) w = Some (Ok w') \<and> remote_inv C L s' w')"
proof
  show "state_inv C s'"
    using inv(1) r s' by (auto simp: state_inv_def addresses_inv_def)
  have int: "selector \<notin> internal_selectors C" using inv(1) r by (auto simp: state_inv_def)
  then have known: "known_resource C s selector" using r by (simp add: known_resource_def plain_def)
  obtain rr where rr: "map_of (wr_resources w) selector = Some rr" "rr_dojo_selector (ce_naming C) rr = Some selector"
    "resource_matches s selector (ResContract address nh) rr"
    using known_in_remote [OF inv(2) known] r by auto
  then obtain c i where c: "rr = ContractRemote c i" by (cases rr) (auto simp: resource_matches_def)
  let ?w = "w\<lparr>wr_resources := AList.update selector (ContractRemote c True) (wr_resources w)\<rparr>"
  have "resource_matches s' selector (ResContract address nh) (ContractRemote c True)"
    using rr(3) c s' by (auto simp: resource_matches_def)
  then have "agrees C s' ?w selector"
    using r rr(2) c s' by (auto simp: agrees_def update_conv)
  then have "remote_inv C L s' ?w"
    using rr(1) by (intro remote_inv_step [OF inv(2), where selector = selector])
      (auto simp: s' known_resource_def update_conv split: if_splits)
  then show "\<exists>w'. match_event (ce_naming C) utf8 None (ContractInitialized selector d) w = Some (Ok w') \<and> remote_inv C L s' w'"
    using rr(1) c by simp
qed

lemma metadata_inv:
  assumes "selector = WORLD \<or> known_resource C s selector" and inv: "remote_inv C L s w"
  shows "\<exists>w'. match_event (ce_naming C) utf8 None (MetadataUpdate selector uri h) w = Some (Ok w') \<and> remote_inv C L s w'"
proof (cases "selector = WORLD")
  case True
  let ?w = "w\<lparr>wr_metadata_hash := h\<rparr>"
  have "remote_inv C L s ?w"
    using inv by (auto simp: remote_inv_def agrees_def wr_current_class_hash_def split: if_splits)
  with True show ?thesis by simp
next
  case False
  with assms(1) have "known_resource C s selector" by simp
  from known_in_remote [OF inv this] obtain r rr where
    r: "ws_resources s selector = Some r" and rr: "map_of (wr_resources w) selector = Some rr"
      "rr_dojo_selector (ce_naming C) rr = Some selector" "resource_matches s selector r rr"
    by metis
  let ?w = "w\<lparr>wr_resources := AList.update selector (set_metadata_hash h rr) (wr_resources w)\<rparr>"
  have "resource_matches s selector r (set_metadata_hash h rr)" "rr_dojo_selector (ce_naming C) (set_metadata_hash h rr) = Some selector"
    using rr by (cases rr; auto simp: resource_matches_def cr_dojo_selector_def split: world_resource.splits)+
  then have "agrees C s ?w selector"
    using r by (auto simp: agrees_def update_conv)
  then have "remote_inv C L s ?w"
    using rr(1) by (intro remote_inv_step [OF inv, where selector = selector]) (auto simp: update_conv split: if_splits)
  with False rr(1) show ?thesis by (simp add: with_resource_def)
qed

lemma library_inv:
  assumes "ws_register_library C caller ns class_hash n v s = Some (s', evs)"
    and L: "compute_selector_from_names (ce_naming C) ns (library_name (n @ ''_v'' @ v)) = Some l" "l \<in> L"
    and fresh: "L \<inter> dom (ws_resources s') = {}" and utf8: "utf8 ns" "\<And>n. is_name_valid n \<Longrightarrow> utf8 n"
    and inv: "state_inv C s" "remote_inv C L s w"
  shows "state_inv C s' \<and> (\<exists>w'. match_events (ce_naming C) utf8 None (map Some evs) w = Some (Ok w') \<and> remote_inv C L s' w')"
proof -
  obtain selector nh where e: "ws_resources s selector = None" "is_name_valid (n @ ''_v'' @ v)"
    "s' = s\<lparr>ws_owners := insert (selector, caller) (ws_owners s), ws_resources := (ws_resources s)(selector \<mapsto> ResLibrary class_hash nh)\<rparr>"
    "evs = [LibraryRegistered (n @ ''_v'' @ v) ns class_hash]"
    using assms(1) by (auto simp: ws_register_library_def Let_def bind_eq_Some_conv split: if_splits)
  note int = fresh_not_internal [OF inv(1) e(1)]
  have "addresses_inv C s'"
    using inv(1) e(1,3) by (auto simp: state_inv_def addresses_inv_def resource_address_def split: if_splits)
  then have st: "state_inv C s'"
    using inv(1) int e(1,3) by (auto simp: state_inv_def)
  let ?rr = "LibraryRemote (new_common_remote class_hash ns (library_name (n @ ''_v'' @ v)) 0) (library_version (n @ ''_v'' @ v))"
  obtain w' where w': "add_resource (ce_naming C) ?rr w = Some w'" "map_of (wr_resources w') = (map_of (wr_resources w))(l \<mapsto> ?rr)"
    "wr_class_hashes w' = wr_class_hashes w"
    using add_resource_lookup [of "ce_naming C" ?rr l w] L(1) by auto
  have known: "known_resource C s' = known_resource C s"
    using e(1,3) by (auto simp: known_resource_def plain_def fun_eq_iff)
  have "agrees C s' w' sel" for sel
  proof (cases "sel = l \<or> sel = selector")
    case True
    then have "\<not> known_resource C s' sel"
      using known L(2) fresh e(1,3) by (auto simp: known_resource_def)
    then show ?thesis by (rule agrees_unknown)
  next
    case False
    have "agrees C s w sel" using inv(2) by (simp add: remote_inv_def)
    then show ?thesis by (rule agrees_frame) (use False e(3) w'(2) in auto)
  qed
  then have "remote_inv C L s' w'"
    using inv(2) known L(2) w'(2,3) e(3) by (auto simp: remote_inv_def wr_current_class_hash_def split: if_splits)
  moreover have "match_events (ce_naming C) utf8 None (map Some evs) w = Some (Ok w')"
    using e(2,4) utf8 w'(1) by (simp add: event_text_def is_whitelisted_def register_resource_def)
  ultimately show ?thesis using st by blast
qed

lemma namespace_inv:
  assumes "ws_register_namespace C caller ns s = Some (s', evs)"
    and fresh: "L \<inter> dom (ws_resources s') = {}" and utf8: "\<And>n. is_name_valid n \<Longrightarrow> utf8 n"
    and inv: "state_inv C s" "remote_inv C L s w"
  shows "state_inv C s' \<and> (\<exists>w'. match_events (ce_naming C) utf8 None (map Some evs) w = Some (Ok w') \<and> remote_inv C L s' w')"
proof -
  obtain hash where e: "is_name_valid ns" "compute_bytearray_hash (ce_naming C) ns = Some hash" "ws_resources s hash = None"
    "s' = s\<lparr>ws_resources := (ws_resources s)(hash \<mapsto> ResNamespace ns), ws_owners := insert (hash, caller) (ws_owners s)\<rparr>"
    "evs = [NamespaceRegistered ns hash]"
    using assms(1) by (auto simp: ws_register_namespace_def bind_eq_Some_conv split: if_splits option.splits)
  note int = fresh_not_internal [OF inv(1) e(3)]
  have "addresses_inv C s'"
    using inv(1) e(4) by (auto simp: state_inv_def addresses_inv_def resource_address_def split: if_splits)
  then have st: "state_inv C s'"
    using inv(1) int e(4) by (auto simp: state_inv_def)
  let ?rr = "new_namespace_remote ns"
  obtain w' where w': "add_resource (ce_naming C) ?rr w = Some w'" "map_of (wr_resources w') = (map_of (wr_resources w))(hash \<mapsto> ?rr)"
    "wr_class_hashes w' = wr_class_hashes w"
    using add_resource_lookup [of "ce_naming C" ?rr hash w] e(2) by (auto simp: new_namespace_remote_def)
  have "agrees C s' w' sel" for sel
  proof (cases "sel = hash")
    case True
    have "resource_matches s' hash (ResNamespace ns) ?rr"
      using inv(1) e(3,4) by (auto simp: resource_matches_def new_namespace_remote_def state_inv_def)
    then show ?thesis
      using True e(2,4) w'(2) by (auto simp: agrees_def new_namespace_remote_def)
  next
    case False
    have "agrees C s w sel" using inv(2) by (simp add: remote_inv_def)
    then show ?thesis by (rule agrees_frame) (use False e(4) w'(2) in auto)
  qed
  moreover have "sel \<in> L \<or> known_resource C s' sel" if "map_of (wr_resources w') sel \<noteq> None" for sel
    using that inv(2) w'(2) e(4) int
    by (cases "sel = hash") (auto simp: remote_inv_def known_resource_def plain_def)
  moreover have "wr_current_class_hash w' = ws_class_at s' (ce_world C)"
    using inv(2) w'(3) e(4) by (auto simp: remote_inv_def wr_current_class_hash_def split: if_splits)
  ultimately have "remote_inv C L s' w'" by (auto simp: remote_inv_def)
  moreover have "match_events (ce_naming C) utf8 None (map Some evs) w = Some (Ok w')"
    using e(1,5) utf8 w'(1) by (simp add: event_text_def is_whitelisted_def register_resource_def)
  ultimately show ?thesis using st by blast
qed

section \<open>Every call\<close>

lemma match_resource_events:
  "set evs \<subseteq> {ResourceEvent} \<Longrightarrow> match_events E utf8 wl (map Some evs @ rest) w = match_events E utf8 wl rest w"
  by (induction evs) auto

lemma match_events_append:
  "(match_events E utf8 wl (xs @ ys) w :: (world_remote, 'a remote_error) result option) =
     (case match_events E utf8 wl xs w of Some (Inr w') \<Rightarrow> match_events E utf8 wl ys w' | r \<Rightarrow> r)"
proof (induction xs arbitrary: w)
  case Nil
  then show ?case by simp
next
  case (Cons x xs)
  show ?case
  proof (cases x)
    case None
    then show ?thesis using Cons [of w] by simp
  next
    case (Some ev)
    show ?thesis
    proof (cases "match_event E utf8 wl ev w :: (world_remote, 'a remote_error) result option")
      case (Some r)
      then show ?thesis using Cons \<open>x = Some ev\<close> by (cases r) simp_all
    qed (simp add: Some)
  qed
qed

lemma match_one:
  "(match_events E utf8 wl [Some ev] w :: (world_remote, 'a remote_error) result option) = Some (Ok w') \<longleftrightarrow>
   (match_event E utf8 wl ev w :: (world_remote, 'a remote_error) result option) = Some (Ok w')"
  by (auto split: option.splits sum.splits)

lemma register_stored_inv:
  assumes "register_stored C caller ns class_hash salt mk ev s = Some (s', evs)"
    and mk: "(mk = ResModel \<and> ev = (\<lambda>n a. ModelRegistered n ns class_hash a)) \<or> (mk = ResEvent \<and> ev = (\<lambda>n a. EventRegistered n ns class_hash a))"
    and fresh: "L \<inter> dom (ws_resources s') = {}" and utf8: "utf8 ns" "\<And>n. is_name_valid n \<Longrightarrow> utf8 n"
    and inv: "state_inv C s" "remote_inv C L s w"
  shows "state_inv C s' \<and> (\<exists>w'. match_events (ce_naming C) utf8 None (map Some evs) w = Some (Ok w' :: (world_remote, 'e remote_error) result) \<and> remote_inv C L s' w')"
proof -
  obtain name selector address where reg: "registered C caller ns class_hash mk name selector address s s'"
    and evs: "evs = [ev name address]"
    using register_stored_effect [OF assms(1)] by blast
  have addr: "resource_address (mk address nh) = Some address" "plain (mk address nh)" for nh
    using mk by (auto simp: resource_address_def plain_def)
  have u: "utf8 name" and sel: "compute_selector_from_names (ce_naming C) ns name = Some selector"
    using reg utf8 by (auto simp: registered_def)
  let ?c = "new_common_remote class_hash ns name address"
  have "\<exists>w'. match_event (ce_naming C) utf8 None (ev name address) w = Some (Ok w' :: (world_remote, 'e remote_error) result) \<and> remote_inv C L s' w'"
    using mk
  proof
    assume m: "mk = ResModel \<and> ev = (\<lambda>n a. ModelRegistered n ns class_hash a)"
    from registered_remote_inv [OF reg inv fresh addr, of "ModelRemote ?c"] registered_new_matches(1) [OF reg inv(1)] m sel
    obtain w' where "add_resource (ce_naming C) (ModelRemote ?c) w = Some w'" "remote_inv C L s' w'" by auto
    then show ?thesis using m utf8(1) u by (simp add: event_text_def is_whitelisted_def register_resource_def)
  next
    assume m: "mk = ResEvent \<and> ev = (\<lambda>n a. EventRegistered n ns class_hash a)"
    from registered_remote_inv [OF reg inv fresh addr, of "EventRemote ?c"] registered_new_matches(2) [OF reg inv(1)] m sel
    obtain w' where "add_resource (ce_naming C) (EventRemote ?c) w = Some w'" "remote_inv C L s' w'" by auto
    then show ?thesis using m utf8(1) u by (simp add: event_text_def is_whitelisted_def register_resource_def)
  qed
  moreover have "state_inv C s'" by (rule registered_state_inv [OF reg inv(1) addr(1)])
  ultimately show ?thesis by (simp add: evs match_one del: match_events.simps match_event.simps)
qed

lemma register_contract_inv:
  assumes "ws_register_contract C caller salt ns class_hash s = Some (s', evs)"
    and fresh: "L \<inter> dom (ws_resources s') = {}" and utf8: "utf8 ns" "\<And>n. is_name_valid n \<Longrightarrow> utf8 n"
    and inv: "state_inv C s" "remote_inv C L s w"
  shows "state_inv C s' \<and> (\<exists>w'. match_events (ce_naming C) utf8 None (map Some evs) w = Some (Ok w' :: (world_remote, 'e remote_error) result) \<and> remote_inv C L s' w')"
proof -
  obtain name selector address where reg: "registered C caller ns class_hash ResContract name selector address s s'"
    and evs: "evs = [ContractRegistered name ns address class_hash salt]"
    using register_contract_effect [OF assms(1)] by blast
  have addr: "resource_address (ResContract address nh) = Some address" "plain (ResContract address nh)" for nh
    by (auto simp: resource_address_def plain_def)
  have u: "utf8 name" and sel: "compute_selector_from_names (ce_naming C) ns name = Some selector"
    using reg utf8 by (auto simp: registered_def)
  let ?rr = "ContractRemote (new_common_remote class_hash ns name address) False"
  from registered_remote_inv [OF reg inv fresh addr, of ?rr] registered_new_matches(3) [OF reg inv(1)] sel
  obtain w' where "add_resource (ce_naming C) ?rr w = Some w'" "remote_inv C L s' w'" by auto
  then have "match_event (ce_naming C) utf8 None (ContractRegistered name ns address class_hash salt) w = Some (Ok w' :: (world_remote, 'e remote_error) result) \<and> remote_inv C L s' w'"
    using utf8(1) u by (simp add: event_text_def is_whitelisted_def register_resource_def)
  moreover have "state_inv C s'" by (rule registered_state_inv [OF reg inv(1) addr(1)])
  ultimately show ?thesis by (auto simp: evs match_one simp del: match_events.simps match_event.simps)
qed

lemma upgrade_stored_inv:
  assumes "upgrade_stored C caller ns class_hash salt dest mk ev s = Some (s', evs)"
    and mk: "(mk = ResModel \<and> dest = (\<lambda>r. case r of ResModel a _ \<Rightarrow> Some a | _ \<Rightarrow> None) \<and> ev = (\<lambda>sel a p. ModelUpgraded sel class_hash a p)) \<or>
      (mk = ResEvent \<and> dest = (\<lambda>r. case r of ResEvent a _ \<Rightarrow> Some a | _ \<Rightarrow> None) \<and> ev = (\<lambda>sel a p. EventUpgraded sel class_hash a p))"
    and inv: "state_inv C s" "remote_inv C L s w"
  shows "state_inv C s' \<and> (\<exists>w'. match_events (ce_naming C) utf8 None (map Some evs) w = Some (Ok w' :: (world_remote, 'e remote_error) result) \<and> remote_inv C L s' w')"
proof -
  obtain name selector address prev where m: "moved C ns class_hash dest mk name selector address s s'"
    and evs: "evs = [ev selector address prev]"
    using upgrade_stored_effect [OF assms(1)] by blast
  from moved_inv [OF m inv] mk have "state_inv C s' \<and> remote_inv C L s' (upgrade_resource selector class_hash w)" by blast
  then show ?thesis using mk by (auto simp: evs match_one simp del: match_events.simps)
qed

lemma matches_irrelevant [simp]:
  "resource_matches (s\<lparr>models_salt := x\<rparr>) selector r rr = resource_matches s selector r rr"
  "resource_matches (s\<lparr>events_salt := x\<rparr>) selector r rr = resource_matches s selector r rr"
  "resource_matches (s\<lparr>ws_declared := h\<rparr>) selector r rr = resource_matches s selector r rr"
  by (auto simp: resource_matches_def split: world_resource.splits resource_remote.splits)

lemma salt_irrelevant [simp]:
  "state_inv C (s\<lparr>models_salt := x\<rparr>) = state_inv C s" "remote_inv C L (s\<lparr>models_salt := x\<rparr>) w = remote_inv C L s w"
  "state_inv C (s\<lparr>events_salt := x\<rparr>) = state_inv C s" "remote_inv C L (s\<lparr>events_salt := x\<rparr>) w = remote_inv C L s w"
  "state_inv C (s\<lparr>ws_declared := h\<rparr>) = state_inv C s" "remote_inv C L (s\<lparr>ws_declared := h\<rparr>) w = remote_inv C L s w"
  by (simp_all add: state_inv_def addresses_inv_def remote_inv_def agrees_def known_resource_def)

lemma exec_call_inv:
  assumes exec: "exec_call C caller tx c s = Some (s', evs)" and readable: "readable_call C utf8 L s c"
    and fresh: "L \<inter> dom (ws_resources s') = {}" "L \<inter> dom (ws_resources s) = {}"
    and utf8: "\<And>n. is_name_valid n \<Longrightarrow> utf8 n" and init: "init_neutral C"
    and inv: "state_inv C s" "remote_inv C L s w"
  shows "state_inv C s' \<and> (\<exists>w'. match_events (ce_naming C) utf8 None (map Some evs) w = Some (Ok w' :: (world_remote, 'e remote_error) result) \<and>
    remote_inv C L s' w')"
proof (cases c)
  case (RegisterNamespace ns)
  then show ?thesis using exec namespace_inv [OF _ fresh(1) utf8 inv] by simp
next
  case (RegisterContract salt ns ch)
  then show ?thesis using exec readable register_contract_inv [OF _ fresh(1) _ utf8 inv] by simp
next
  case (UpgradeContract ns ch)
  with exec upgrade_contract_effect [of C caller tx ns ch s s' evs] obtain selector address nh trial where
    u: "ws_resources s selector = Some (ResContract address nh)" "ws_class_at s trial = None"
      "s' = s\<lparr>ws_class_at := (ws_class_at s)(trial \<mapsto> ch, address \<mapsto> ch)\<rparr>" "evs = [ContractUpgraded selector ch]"
    by auto
  show ?thesis using upgraded_contract_inv [OF u(1-3) inv] by (simp add: u(4))
next
  case (RegisterModel ns ch)
  then obtain salt where "register_stored C caller ns ch (salt_felt (models_salt s)) ResModel
      (\<lambda>name address. ModelRegistered name ns ch address) (s\<lparr>models_salt := salt\<rparr>) = Some (s', evs)"
    using exec by (auto simp: ws_register_model_def bind_eq_Some_conv)
  from register_stored_inv [OF this _ fresh(1) _ utf8] show ?thesis
    using RegisterModel readable inv by simp
next
  case (UpgradeModel ns ch)
  then obtain salt where "upgrade_stored C caller ns ch (salt_felt (models_salt s))
      (\<lambda>r. case r of ResModel a _ \<Rightarrow> Some a | _ \<Rightarrow> None) ResModel
      (\<lambda>selector address prev. ModelUpgraded selector ch address prev) (s\<lparr>models_salt := salt\<rparr>) = Some (s', evs)"
    using exec by (auto simp: ws_upgrade_model_def bind_eq_Some_conv)
  from upgrade_stored_inv [OF this] show ?thesis using inv by simp
next
  case (RegisterEvent ns ch)
  then obtain salt where "register_stored C caller ns ch (salt_felt (events_salt s)) ResEvent
      (\<lambda>name address. EventRegistered name ns ch address) (s\<lparr>events_salt := salt\<rparr>) = Some (s', evs)"
    using exec by (auto simp: ws_register_event_def bind_eq_Some_conv)
  from register_stored_inv [OF this _ fresh(1) _ utf8] show ?thesis
    using RegisterEvent readable inv by simp
next
  case (UpgradeEvent ns ch)
  then obtain salt where "upgrade_stored C caller ns ch (salt_felt (events_salt s))
      (\<lambda>r. case r of ResEvent a _ \<Rightarrow> Some a | _ \<Rightarrow> None) ResEvent
      (\<lambda>selector address prev. EventUpgraded selector ch address prev) (s\<lparr>events_salt := salt\<rparr>) = Some (s', evs)"
    using exec by (auto simp: ws_upgrade_event_def bind_eq_Some_conv)
  from upgrade_stored_inv [OF this] show ?thesis using inv by simp
next
  case (RegisterLibrary ns ch n v)
  then show ?thesis
    using exec readable library_inv [of C caller ns ch n v s s' evs _ L utf8 w] fresh(1) utf8 inv
    by (auto split: option.splits)
next
  case (GrantWriter r a)
  then have "ws_resources s r \<noteq> None" "r \<notin> L" "evs = [WriterUpdated r a True]" "s' = s\<lparr>ws_writers := insert (r, a) (ws_writers s)\<rparr>"
    using exec fresh(2) by (auto simp: grant_writer_def split: if_splits)
  with writer_updated_inv [of s' True r a s L C w utf8] inv show ?thesis by (auto simp: match_one simp del: match_events.simps match_event.simps)
next
  case (RevokeWriter r a)
  then have "ws_resources s r \<noteq> None" "r \<notin> L" "evs = [WriterUpdated r a False]" "s' = s\<lparr>ws_writers := ws_writers s - {(r, a)}\<rparr>"
    using exec fresh(2) by (auto simp: revoke_writer_def split: if_splits)
  with writer_updated_inv [of s' False r a s L C w utf8] inv show ?thesis by (auto simp: match_one simp del: match_events.simps match_event.simps)
next
  case (GrantOwner r a)
  then have "r \<notin> L" "evs = [OwnerUpdated r a True]" "s' = s\<lparr>ws_owners := insert (r, a) (ws_owners s)\<rparr>"
    using exec fresh(2) by (auto simp: grant_owner_def split: if_splits)
  with owner_updated_inv [of s' True r a s L C w utf8] inv show ?thesis by (auto simp: match_one simp del: match_events.simps match_event.simps)
next
  case (RevokeOwner r a)
  then have "r \<notin> L" "evs = [OwnerUpdated r a False]" "s' = s\<lparr>ws_owners := ws_owners s - {(r, a)}\<rparr>"
    using exec fresh(2) by (auto simp: revoke_owner_def split: if_splits)
  with owner_updated_inv [of s' False r a s L C w utf8] inv show ?thesis by (auto simp: match_one simp del: match_events.simps match_event.simps)
next
  case (InitContract r d)
  then obtain address nh s1 evs1 where i: "ws_resources s r = Some (ResContract address nh)" "dojo_init C address d s = Some (s1, evs1)"
    "s' = s1\<lparr>ws_initialized := insert r (ws_initialized s1)\<rparr>" "evs = evs1 @ [ContractInitialized r d]"
    using exec by (auto simp: init_contract_def split: option.splits world_resource.splits if_splits)
  have n: "s1 = s" "set evs1 \<subseteq> {ResourceEvent}"
    using init i(2) unfolding init_neutral_def by blast+
  from initialized_inv [OF i(1) i(3) [unfolded n(1)] inv, of utf8 d] show ?thesis
    by (auto simp: i(4) match_resource_events [OF n(2)] match_one simp del: match_events.simps match_event.simps)
next
  case (SetMetadata r u h)
  then have e: "s' = s" "evs = [MetadataUpdate r u h]" and k: "r = WORLD \<or> known_resource C s r"
    using exec readable by (auto simp: ws_set_metadata_def split: if_splits)
  from metadata_inv [OF k inv(2), of utf8 u h] inv(1) show ?thesis
    by (auto simp: e match_one simp del: match_events.simps match_event.simps)
next
  case (UpgradeWorld ch)
  then have e: "s' = s\<lparr>ws_class_at := (ws_class_at s)(ce_world C \<mapsto> ch)\<rparr>" "evs = [WorldUpgraded ch]"
    using exec by (auto simp: upgrade_world_def split: if_splits)
  have "addresses_inv C s'" using inv(1) e(1) by (auto simp: state_inv_def addresses_inv_def)
  then have st: "state_inv C s'" using inv(1) e(1) by (auto simp: state_inv_def)
  let ?w = "w\<lparr>wr_class_hashes := wr_class_hashes w @ [ch]\<rparr>"
  have "agrees C s' ?w sel" for sel
  proof -
    have "agrees C s w sel" using inv(2) by (simp add: remote_inv_def)
    then show ?thesis
      by (rule agrees_frame) (use e(1) inv(1) in \<open>auto simp: state_inv_def addresses_inv_def\<close>)
  qed
  then have "remote_inv C L s' ?w"
    using inv(2) e(1) by (auto simp: remote_inv_def known_resource_def wr_current_class_hash_def)
  then show ?thesis using st by (simp add: e(2))
qed

text \<open>Transactions extend a history.  No call removes a resource.\<close>

lemma exec_call_dom:
  assumes "exec_call C caller tx c s = Some (s', evs)" "init_neutral C"
  shows "dom (ws_resources s) \<subseteq> dom (ws_resources s')"
proof (cases c)
  case (InitContract r d)
  then obtain address nh s1 evs1 where "dojo_init C address d s = Some (s1, evs1)"
    "s' = s1\<lparr>ws_initialized := insert r (ws_initialized s1)\<rparr>"
    using assms(1) by (auto simp: init_contract_def split: option.splits world_resource.splits if_splits)
  moreover from this(1) have "s1 = s" using assms(2) unfolding init_neutral_def by blast
  ultimately show ?thesis by simp
next
  case (RegisterModel ns ch)
  with assms(1) show ?thesis
    by (auto simp: ws_register_model_def registered_def bind_eq_Some_conv dest!: register_stored_effect)
next
  case (RegisterEvent ns ch)
  with assms(1) show ?thesis
    by (auto simp: ws_register_event_def registered_def bind_eq_Some_conv dest!: register_stored_effect)
next
  case (UpgradeModel ns ch)
  with assms(1) show ?thesis
    by (auto simp: ws_upgrade_model_def moved_def bind_eq_Some_conv dest!: upgrade_stored_effect)
next
  case (UpgradeEvent ns ch)
  with assms(1) show ?thesis
    by (auto simp: ws_upgrade_event_def moved_def bind_eq_Some_conv dest!: upgrade_stored_effect)
next
  case (RegisterContract salt ns ch)
  with assms(1) show ?thesis by (auto simp: registered_def dest!: register_contract_effect)
next
  case (UpgradeContract ns ch)
  with assms(1) show ?thesis by (auto dest!: upgrade_contract_effect)
next
  case (RegisterNamespace ns)
  with assms(1) show ?thesis by (auto simp: ws_register_namespace_def bind_eq_Some_conv split: if_splits option.splits)
next
  case (RegisterLibrary ns ch n v)
  with assms(1) show ?thesis by (auto simp: ws_register_library_def bind_eq_Some_conv Let_def split: if_splits)
qed (use assms(1) in \<open>auto simp: grant_writer_def revoke_writer_def grant_owner_def revoke_owner_def ws_set_metadata_def
    upgrade_world_def split: if_splits\<close>)

fun readable_calls :: "contract_env \<Rightarrow> (string \<Rightarrow> bool) \<Rightarrow> felt set \<Rightarrow> felt \<Rightarrow> felt \<Rightarrow> world_call list \<Rightarrow> world_state \<Rightarrow> bool" where
  "readable_calls C utf8 L caller tx [] s \<longleftrightarrow> True"
| "readable_calls C utf8 L caller tx (c # cs) s \<longleftrightarrow> readable_call C utf8 L s c \<and>
     (case exec_call C caller tx c s of None \<Rightarrow> True | Some (s', _) \<Rightarrow> readable_calls C utf8 L caller tx cs s')"

lemma exec_calls_dom:
  assumes "exec_calls C caller tx cs s = Some (s', evs)" "init_neutral C"
  shows "dom (ws_resources s) \<subseteq> dom (ws_resources s')"
  using assms(1)
proof (induction cs arbitrary: s evs)
  case (Cons c cs)
  then obtain s1 e1 e2 where e: "exec_call C caller tx c s = Some (s1, e1)" "exec_calls C caller tx cs s1 = Some (s', e2)"
    by (auto simp: bind_eq_Some_conv)
  from exec_call_dom [OF e(1) assms(2)] Cons.IH [OF e(2)] show ?case by blast
qed simp

lemma history_calls:
  assumes "world_history C utf8 L s evs" "exec_calls C caller tx cs s = Some (s', evs')"
    and "readable_calls C utf8 L caller tx cs s" "L \<inter> dom (ws_resources s') = {}" "init_neutral C"
  shows "world_history C utf8 L s' (evs @ evs')"
  using assms(1-3)
proof (induction cs arbitrary: s evs evs')
  case (Cons c cs)
  then obtain s1 e1 e2 where e: "exec_call C caller tx c s = Some (s1, e1)" "exec_calls C caller tx cs s1 = Some (s', e2)"
    "evs' = e1 @ e2"
    by (auto simp: bind_eq_Some_conv)
  have "L \<inter> dom (ws_resources s1) = {}" using exec_calls_dom [OF e(2) assms(5)] assms(4) by blast
  then have "world_history C utf8 L s1 (evs @ e1)"
    using Cons.prems e(1) by (intro called [of C utf8 L s evs]) auto
  from Cons.IH [OF this e(2)] Cons.prems(3) e show ?case by simp
qed simp

section \<open>The remote world of a history\<close>

lemma spawned_inv:
  assumes "world_constructor C creator class_hash s0 = Some (s, evs)" "ws_class_at s0 (ce_world C) = Some class_hash"
  shows "state_inv C s"
    and "\<exists>w. match_events (ce_naming C) utf8 None (map Some evs) (world_remote_default\<lparr>wr_address := a\<rparr>) =
        Some (Ok w :: (world_remote, 'e remote_error) result) \<and> remote_inv C L s w"
proof -
  obtain nh name_hash where h: "compute_bytearray_hash (ce_naming C) internal_namespace = Some nh"
    "compute_bytearray_hash (ce_naming C) ''ResourceMetadata'' = Some name_hash"
    and s: "s = s0\<lparr>ws_resources := Map.empty(nh \<mapsto> ResNamespace internal_namespace, WORLD \<mapsto> ResWorld,
            compute_selector_from_hashes (ce_naming C) nh name_hash \<mapsto> ResModel 0 0),
          ws_owners := {(nh, creator), (WORLD, creator)}, ws_writers := {}, ws_initialized := {},
          models_salt := 0, events_salt := 0\<rparr>"
    and evs: "evs = [WorldSpawned creator class_hash]"
    using assms(1) by (auto simp: world_constructor_def bind_eq_Some_conv)
  let ?sel = "compute_selector_from_hashes (ce_naming C) nh name_hash"
  have int: "internal_selectors C = {WORLD, nh, ?sel}"
    by (auto simp: internal_selectors_def h compute_selector_from_names_def)
  have dom: "selector \<in> internal_selectors C" if "ws_resources s selector = Some r" for selector r
    using that by (auto simp: s int split: if_splits)
  have "addresses_inv C s"
    unfolding addresses_inv_def
    by (intro conjI allI impI) (auto dest: dom)
  then show "state_inv C s"
    unfolding state_inv_def using assms(2) by (simp add: s int)
  let ?w = "world_remote_default\<lparr>wr_address := a, wr_class_hashes := [class_hash],
    external_owners := AList.update WORLD [creator] []\<rparr>"
  have "\<not> known_resource C s sel" for sel by (auto simp: known_resource_def dest: dom)
  then have "remote_inv C L s ?w"
    using assms(2) by (auto simp: remote_inv_def agrees_unknown world_remote_default_def wr_current_class_hash_def s)
  then show "\<exists>w. match_events (ce_naming C) utf8 None (map Some evs) (world_remote_default\<lparr>wr_address := a\<rparr>) =
      Some (Ok w :: (world_remote, 'e remote_error) result) \<and> remote_inv C L s w"
    by (simp add: evs world_remote_default_def)
qed

text \<open>A contract deployed beside the world at a free address changes nothing for it.\<close>

lemma deployed_inv:
  assumes "ws_class_at s address = None" "state_inv C s"
  shows "state_inv C (s\<lparr>ws_class_at := (ws_class_at s)(address \<mapsto> h)\<rparr>)" (is "state_inv C ?s")
    and "remote_inv C L s w \<Longrightarrow> remote_inv C L (s\<lparr>ws_class_at := (ws_class_at s)(address \<mapsto> h)\<rparr>) w"
proof -
  have inv: "addresses_inv C s" and w: "ws_class_at s (ce_world C) \<noteq> None" using assms(2) by (auto simp: state_inv_def)
  have "addresses_inv C ?s" using inv by (auto simp: addresses_inv_def)
  then show "state_inv C ?s" using assms(2) by (auto simp: state_inv_def)
  assume r: "remote_inv C L s w"
  have other: "a \<noteq> address" if "ws_resources s sel = Some x" "sel \<notin> internal_selectors C" "resource_address x = Some a" for sel x a
    using inv that assms(1) unfolding addresses_inv_def by metis
  have "agrees C ?s w sel" for sel
  proof -
    have "agrees C s w sel" using r by (simp add: remote_inv_def)
    then show ?thesis by (rule agrees_frame) (use other in auto)
  qed
  then show "remote_inv C L ?s w" using r w assms(1) by (auto simp: remote_inv_def known_resource_def)
qed

lemma history_fresh: "world_history C utf8 L s evs \<Longrightarrow> L \<inter> dom (ws_resources s) = {}"
  by (induction rule: world_history.induct) auto

lemma history_inv:
  assumes "world_history C utf8 L s evs"
    and "\<And>n. is_name_valid n \<Longrightarrow> utf8 n" "init_neutral C"
  shows "state_inv C s \<and> (\<exists>w. match_events (ce_naming C) utf8 None (map Some evs) (world_remote_default\<lparr>wr_address := a\<rparr>) =
      Some (Ok w :: (world_remote, 'e remote_error) result) \<and> remote_inv C L s w)"
  using assms(1)
proof (induction rule: world_history.induct)
  case (spawned creator class_hash s0 s evs)
  then show ?case using spawned_inv by metis
next
  case (declared s evs h)
  then show ?case by simp
next
  case (called s evs caller tx c s' evs')
  then obtain w where st: "state_inv C s" and w: "match_events (ce_naming C) utf8 None (map Some evs) (world_remote_default\<lparr>wr_address := a\<rparr>) =
      Some (Ok w :: (world_remote, 'e remote_error) result)" "remote_inv C L s w" by blast
  from exec_call_inv [OF called.hyps(2,3,4) history_fresh [OF called.hyps(1)] assms(2,3) st w(2)]
  show ?case using w(1) by (auto simp: match_events_append)
next
  case (deployed s evs address h)
  then show ?case using deployed_inv by metis
qed

text \<open>C6: The remote world read from the events of a world contract agrees with the contract.  Take any
  history of the contract whose calls can be read back.  Then applying its events to an empty remote
  world succeeds; the result names the current class of the world; every resource announced by an event
  is found under its selector with the class and the initialization the contract has, exactly its
  writers, and owners the contract knows; and apart from libraries there is nothing else in it.\<close>

theorem remote_world_refines:
  assumes "world_history C utf8 L s evs" "\<And>n. is_name_valid n \<Longrightarrow> utf8 n" "init_neutral C"
  shows "\<exists>w. match_events (ce_naming C) utf8 None (map Some evs) (world_remote_default\<lparr>wr_address := a\<rparr>) =
        Some (Ok w :: (world_remote, 'e remote_error) result) \<and>
      wr_current_class_hash w = ws_class_at s (ce_world C) \<and>
      (\<forall>selector. known_resource C s selector \<longrightarrow>
         (\<exists>r rr. ws_resources s selector = Some r \<and> map_of (wr_resources w) selector = Some rr \<and> resource_matches s selector r rr)) \<and>
      (\<forall>selector. selector \<notin> L \<longrightarrow> \<not> known_resource C s selector \<longrightarrow> map_of (wr_resources w) selector = None)"
proof -
  obtain w where w: "match_events (ce_naming C) utf8 None (map Some evs) (world_remote_default\<lparr>wr_address := a\<rparr>) =
      Some (Ok w :: (world_remote, 'e remote_error) result)" "remote_inv C L s w"
    using history_inv [OF assms] by blast
  have "\<exists>r rr. ws_resources s selector = Some r \<and> map_of (wr_resources w) selector = Some rr \<and> resource_matches s selector r rr"
    if "known_resource C s selector" for selector
    using known_in_remote [OF w(2) that] by metis
  with w remote_lookup_iff [OF w(2)] show ?thesis
    by (intro exI [of _ w]) (auto simp: remote_inv_def)
qed

text \<open>A small world: texts are hashed to small numbers, a selector adds two hashes and one hundred, and the
  only class is named \<open>c\<close>.\<close>

definition sample_text_hash :: "string \<Rightarrow> nat" where
  "sample_text_hash s = (if s = ''__DOJO__'' then 8 else if s = ''ResourceMetadata'' then 16 else if s = ''ns'' then 2 else 1)"

definition sample_naming :: naming_env where
  "sample_naming = \<lparr>byte_array_felts = (\<lambda>s. Some [felt (sample_text_hash s)]),
     poseidon_hash_many = (\<lambda>xs. case xs of [x] \<Rightarrow> x | [x, y] \<Rightarrow> felt 100 + x + y | _ \<Rightarrow> 0)\<rparr>"

definition sample_contract_env :: contract_env where
  "sample_contract_env = \<lparr>ce_naming = sample_naming,
     ce_addresses = \<lparr>contract_address_of = (\<lambda>salt class_hash _ _. salt + class_hash), short_string_felt = (\<lambda>_. Some 0),
       poseidon_hash_single = (\<lambda>x. x)\<rparr>,
     ce_world = felt 5000, dojo_name_of = (\<lambda>_. Some ''c''), upgradable = (\<lambda>_ _. True),
     dojo_init = (\<lambda>_ _ s. Some (s, [ResourceEvent]))\<rparr>"

definition sample_spawn :: world_state where
  "sample_spawn = \<lparr>ws_resources = Map.empty, ws_owners = {}, ws_writers = {}, ws_initialized = {}, models_salt = 0,
     events_salt = 0, ws_declared = {felt 60, felt 70}, ws_class_at = [felt 5000 \<mapsto> felt 60]\<rparr>"

lemma sample_hash: "compute_bytearray_hash sample_naming n = Some (felt (sample_text_hash n))"
  by (simp add: compute_bytearray_hash_def sample_naming_def)

lemma sample_selector: "compute_selector_from_hashes sample_naming x y = felt 100 + x + y"
  by (simp add: compute_selector_from_hashes_def sample_naming_def)

lemma felt_small_eq_zero: "n < stark_prime \<Longrightarrow> felt n = 0 \<longleftrightarrow> n = 0"
  unfolding zero_felt_eq by (simp del: zero_felt_eq)

lemmas sample_simps =
  sample_contract_env_def sample_hash sample_selector sample_text_hash_def felt_plus_felt WORLD_def internal_namespace_def
  is_name_valid_def is_name_char_def stark_prime_def

lemma sample_spawned:
  "\<exists>s. world_constructor sample_contract_env (felt 50) (felt 60) sample_spawn = Some (s, [WorldSpawned (felt 50) (felt 60)]) \<and>
     ws_resources s = [felt 8 \<mapsto> ResNamespace ''__DOJO__'', 0 \<mapsto> ResWorld, felt 124 \<mapsto> ResModel 0 0] \<and>
     ws_owners s = {(felt 8, felt 50), (0, felt 50)} \<and> ws_writers s = {} \<and> ws_initialized s = {} \<and>
     ws_class_at s = [felt 5000 \<mapsto> felt 60] \<and> ws_declared s = {felt 60, felt 70}"
  by (simp add: world_constructor_def sample_simps sample_spawn_def)

definition sample_calls :: "world_call list" where
  "sample_calls = [RegisterNamespace ''ns'', RegisterContract (felt 103) ''ns'' (felt 70),
     GrantWriter (felt 2) (felt 173), InitContract (felt 103) []]"

definition sample_events :: "world_event list" where
  "sample_events = [NamespaceRegistered ''ns'' (felt 2), ContractRegistered ''c'' ''ns'' (felt 173) (felt 70) (felt 103),
     WriterUpdated (felt 2) (felt 173) True, ResourceEvent, ContractInitialized (felt 103) []]"

lemma sample_run:
  assumes "ws_resources s = [felt 8 \<mapsto> ResNamespace ''__DOJO__'', 0 \<mapsto> ResWorld, felt 124 \<mapsto> ResModel 0 0]"
    "ws_owners s = {(felt 8, felt 50), (0, felt 50)}" "ws_class_at s = [felt 5000 \<mapsto> felt 60]" "ws_declared s = {felt 60, felt 70}"
    "ws_writers s = {}" "ws_initialized s = {}"
  shows "\<exists>s'. exec_calls sample_contract_env (felt 50) 1 sample_calls s = Some (s', sample_events) \<and>
    ws_resources s' (felt 103) = Some (ResContract (felt 173) (felt 2)) \<and> ws_resources s' (felt 2) = Some (ResNamespace ''ns'') \<and>
    ws_writers s' = {(felt 2, felt 173)} \<and> ws_class_at s' (felt 173) = Some (felt 70) \<and> ws_initialized s' = {felt 103}"
  using assms
  by (simp add: sample_calls_def sample_events_def ws_register_namespace_def ws_register_contract_def grant_writer_def
      init_contract_def deploy_syscall_def Let_def is_namespace_registered_def assert_caller_permissions_def is_owner_def
      is_writer_def sample_simps felt_small_eq_zero)

theorem remote_world_refines_witness:
  "\<exists>w c. match_events sample_naming (\<lambda>_. True) None (map Some (WorldSpawned (felt 50) (felt 60) # sample_events))
       (world_remote_default\<lparr>wr_address := felt 5000\<rparr>) = Some (Ok w :: (world_remote, unit remote_error) result) \<and>
     map_of (wr_resources w) (felt 103) = Some (ContractRemote c True) \<and> cr_address c = felt 173 \<and>
     cr_current_class_hash c = Some (felt 70) \<and>
     (\<exists>os ws. map_of (wr_resources w) (felt 2) = Some (NamespaceRemote ''ns'' os ws) \<and> set ws = {felt 173})"
proof -
  obtain s where s: "world_constructor sample_contract_env (felt 50) (felt 60) sample_spawn = Some (s, [WorldSpawned (felt 50) (felt 60)])"
    "ws_resources s = [felt 8 \<mapsto> ResNamespace ''__DOJO__'', 0 \<mapsto> ResWorld, felt 124 \<mapsto> ResModel 0 0]"
    "ws_owners s = {(felt 8, felt 50), (0, felt 50)}" "ws_class_at s = [felt 5000 \<mapsto> felt 60]" "ws_declared s = {felt 60, felt 70}"
    "ws_writers s = {}" "ws_initialized s = {}"
    using sample_spawned by blast
  from sample_run [OF s(2-7)] obtain s' where s': "exec_calls sample_contract_env (felt 50) 1 sample_calls s = Some (s', sample_events)"
    "ws_resources s' (felt 103) = Some (ResContract (felt 173) (felt 2))" "ws_resources s' (felt 2) = Some (ResNamespace ''ns'')"
    "ws_writers s' = {(felt 2, felt 173)}" "ws_class_at s' (felt 173) = Some (felt 70)" "ws_initialized s' = {felt 103}" by blast
  have init: "init_neutral sample_contract_env" by (auto simp: init_neutral_def sample_contract_env_def)
  have start: "world_history sample_contract_env (\<lambda>_. True) {} s [WorldSpawned (felt 50) (felt 60)]"
    by (rule spawned [OF s(1)]) (simp_all add: sample_contract_env_def sample_spawn_def)
  have "readable_calls sample_contract_env (\<lambda>_. True) {} (felt 50) 1 sample_calls s"
    by (simp add: sample_calls_def split: option.split)
  from history_calls [OF start s'(1) this _ init]
  have hist: "world_history sample_contract_env (\<lambda>_. True) {} s' ([WorldSpawned (felt 50) (felt 60)] @ sample_events)" by simp
  have ni: "felt 103 \<notin> internal_selectors sample_contract_env" "felt 2 \<notin> internal_selectors sample_contract_env"
    by (simp_all add: internal_selectors_def compute_selector_from_names_def sample_simps felt_small_eq_zero)
  then have known: "known_resource sample_contract_env s' (felt 103)" "known_resource sample_contract_env s' (felt 2)"
    using s'(2,3) by (simp_all add: known_resource_def plain_def)
  from remote_world_refines [OF hist _ init, where a = "felt 5000", where ?'e = unit] obtain w where
    w: "match_events sample_naming (\<lambda>_. True) None (map Some (WorldSpawned (felt 50) (felt 60) # sample_events))
       (world_remote_default\<lparr>wr_address := felt 5000\<rparr>) = Some (Ok w :: (world_remote, unit remote_error) result)"
    and m: "\<And>selector. known_resource sample_contract_env s' selector \<Longrightarrow>
       \<exists>r rr. ws_resources s' selector = Some r \<and> map_of (wr_resources w) selector = Some rr \<and> resource_matches s' selector r rr"
    by (auto simp: sample_contract_env_def simp del: match_events.simps)
  from m [OF known(1)] s'(2) obtain rr where rr: "map_of (wr_resources w) (felt 103) = Some rr" "resource_matches s' (felt 103) (ResContract (felt 173) (felt 2)) rr"
    by auto
  from m [OF known(2)] s'(3) obtain rr2 where rr2: "map_of (wr_resources w) (felt 2) = Some rr2" "resource_matches s' (felt 2) (ResNamespace ''ns'') rr2"
    by auto
  from rr(2) s'(5,6) obtain c where "rr = ContractRemote c True" "cr_address c = felt 173" "cr_current_class_hash c = Some (felt 70)"
    by (cases rr) (auto simp: resource_matches_def)
  moreover from rr2(2) s'(4) obtain os ws where "rr2 = NamespaceRemote ''ns'' os ws" "set ws = {felt 173}"
    by (cases rr2) (auto simp: resource_matches_def)
  ultimately show ?thesis using w rr(1) rr2(1) by blast
qed

section \<open>Metadata of unknown resources\<close>

text \<open>C38: The world contract lets a world owner set the metadata of a resource that was never registered;
  from then on no later event makes the events of the world readable again: applying them panics at that
  event, whatever follows.\<close>

theorem unknown_metadata_panics:
  assumes "world_history C utf8 L s evs" "\<And>n. is_name_valid n \<Longrightarrow> utf8 n" "init_neutral C"
    and "is_owner s WORLD caller" "resource \<noteq> WORLD" "ws_resources s resource = None" "resource \<notin> L"
  shows "\<exists>evs'. exec_call C caller tx (SetMetadata resource uri h) s = Some (s, evs') \<and>
     (match_events (ce_naming C) utf8 None (map Some (evs @ evs') @ later) (world_remote_default\<lparr>wr_address := a\<rparr>)
       :: (world_remote, 'e remote_error) result option) = None"
proof -
  obtain w where w: "match_events (ce_naming C) utf8 None (map Some evs) (world_remote_default\<lparr>wr_address := a\<rparr>) =
      Some (Ok w :: (world_remote, 'e remote_error) result)" "remote_inv C L s w"
    using history_inv [OF assms(1-3)] by blast
  have "\<not> known_resource C s resource" using assms(6) by (simp add: known_resource_def)
  then have "map_of (wr_resources w) resource = None" using remote_lookup_iff [OF w(2) assms(7)] by simp
  from metadata_unknown_panics [OF assms(5) this]
  have "(match_event (ce_naming C) utf8 None (MetadataUpdate resource uri h) w :: (world_remote, 'e remote_error) result option) = None" .
  moreover have "exec_call C caller tx (SetMetadata resource uri h) s = Some (s, [MetadataUpdate resource uri h])"
    using assms(4) by (simp add: ws_set_metadata_def assert_caller_permissions_def)
  ultimately show ?thesis
    using w(1) by (simp add: match_events_append del: match_event.simps)
qed

theorem unknown_metadata_panics_witness:
  "\<exists>s evs'. exec_call sample_contract_env (felt 50) 1 (SetMetadata (felt 999) ''u'' 1) s = Some (s, evs') \<and>
     (match_events sample_naming (\<lambda>_. True) None (map Some ([WorldSpawned (felt 50) (felt 60)] @ evs') @ [Some (WorldUpgraded 1)])
       (world_remote_default\<lparr>wr_address := felt 5000\<rparr>) :: (world_remote, unit remote_error) result option) = None"
proof -
  obtain s where s: "world_constructor sample_contract_env (felt 50) (felt 60) sample_spawn = Some (s, [WorldSpawned (felt 50) (felt 60)])"
    "ws_resources s = [felt 8 \<mapsto> ResNamespace ''__DOJO__'', 0 \<mapsto> ResWorld, felt 124 \<mapsto> ResModel 0 0]"
    "ws_owners s = {(felt 8, felt 50), (0, felt 50)}"
    using sample_spawned by blast
  have init: "init_neutral sample_contract_env" by (auto simp: init_neutral_def sample_contract_env_def)
  have hist: "world_history sample_contract_env (\<lambda>_. True) {} s [WorldSpawned (felt 50) (felt 60)]"
    by (rule spawned [OF s(1)]) (simp_all add: sample_contract_env_def sample_spawn_def)
  have o: "is_owner s WORLD (felt 50)" "felt 999 \<noteq> WORLD" "ws_resources s (felt 999) = None"
    using s(2,3) by (simp_all add: is_owner_def WORLD_def felt_small_eq_zero stark_prime_def)
  from unknown_metadata_panics [OF hist _ init o, where tx = 1 and uri = "''u''" and h = 1 and later = "[Some (WorldUpgraded 1)]"
      and a = "felt 5000", where ?'e = unit]
  show ?thesis by (auto simp: sample_contract_env_def simp del: match_events.simps exec_call.simps)
qed

end
