(* ===== verification/Migration.thy ===== *)
theory Migration
  imports World_Migrate World_Refinement
begin

text \<open>
  What a migration achieves.  The status of a local resource against the remote world is followed along
  the events of the calls the migration sends: a call changes the status of the one resource it is
  planned for, and makes it the current one; the calls for permissions, initialization and external
  contracts change none.
\<close>

section \<open>The difference, one resource at a time\<close>

datatype diff_status = NewResource | OldClass | Current

fun diff_kind :: "'c resource_diff \<Rightarrow> diff_status" where
  "diff_kind (Created _) = NewResource"
| "diff_kind (Updated _ _) = OldClass"
| "diff_kind (Synced _ _) = Current"

definition diff_one :: "'c resource_local \<Rightarrow> resource_remote option \<Rightarrow> 'c resource_diff option" where
  "diff_one l remote = (case remote of None \<Rightarrow> Some (Created l) | Some r \<Rightarrow> compare_resource l r)"

definition res_status :: "'c resource_local \<Rightarrow> resource_remote option \<Rightarrow> diff_status option" where
  "res_status l remote = map_option diff_kind (diff_one l remote)"

lemma diff_one_local: "diff_one l remote = Some d \<Longrightarrow> diff_local d = l"
  by (cases l) (auto simp: diff_one_def compare_class_def bind_eq_Some_conv split: option.splits if_splits prod.splits)

lemma diff_one_cases:
  assumes "diff_one l remote = Some d"
  shows "d = Created l \<or> (\<exists>r. remote = Some r \<and> (d = Updated l r \<or> d = Synced l r))"
  using assms
  by (cases l) (auto simp: diff_one_def compare_class_def bind_eq_Some_conv split: option.splits if_splits prod.splits)

text \<open>The loop takes each remote resource out of the map once it is compared; with distinct local selectors
  that is the comparison of each local resource on its own.\<close>

lemma diff_resources_pointwise:
  assumes "distinct (map fst ls)"
  shows "diff_resources ls remote = those (map (\<lambda>(selector, l). map_option (Pair selector) (diff_one l (map_of remote selector))) ls)"
  using assms
proof (induction ls arbitrary: remote)
  case (Cons x ls)
  obtain selector l where x: "x = (selector, l)" by (cases x)
  have d: "distinct (map fst ls)" "selector \<notin> fst ` set ls" using Cons.prems x by auto
  have "map_of (AList.delete selector remote) s = map_of remote s" if "s \<in> fst ` set ls" for s
    using that d(2) by (auto simp: delete_conv)
  then have "map (\<lambda>(s, l). map_option (Pair s) (diff_one l (map_of (AList.delete selector remote) s))) ls =
      map (\<lambda>(s, l). map_option (Pair s) (diff_one l (map_of remote s))) ls"
    by (intro map_cong) (auto, force)
  then have rest: "diff_resources ls (AList.delete selector remote) = diff_resources ls remote"
    using Cons.IH [OF d(1), of "AList.delete selector remote"] Cons.IH [OF d(1), of remote] by (simp only:)
  show ?case
  proof (cases "diff_one l (map_of remote selector)")
    case None
    then show ?thesis by (auto simp: x diff_one_def split: option.splits)
  next
    case (Some e)
    then have "diff_resources (x # ls) remote = map_option ((#) (selector, e)) (diff_resources ls remote)"
      using rest by (auto simp: x diff_one_def split: option.splits)
    then show ?thesis using Some Cons.IH [OF d(1), of remote] by (simp add: x split: option.splits)
  qed
qed simp

lemma those_map_eq_Some: "those (map f xs) = Some ys \<longleftrightarrow> map f xs = map Some ys"
  by (induction xs arbitrary: ys) (auto split: option.splits simp: Cons_eq_map_conv)

lemma diff_resources_status:
  assumes "distinct (map fst ls)" "diff_resources ls remote = Some ds"
  shows "map fst ds = map fst ls"
    and "(selector, d) \<in> set ds \<Longrightarrow> (selector, diff_local d) \<in> set ls \<and> res_status (diff_local d) (map_of remote selector) = Some (diff_kind d) \<and>
      diff_one (diff_local d) (map_of remote selector) = Some d"
    and "(selector, l) \<in> set ls \<Longrightarrow> \<exists>d. (selector, d) \<in> set ds \<and> diff_one l (map_of remote selector) = Some d"
proof -
  let ?f = "\<lambda>(selector, l). map_option (Pair selector) (diff_one l (map_of remote selector))"
  have m: "map ?f ls = map Some ds"
    using assms(2) unfolding diff_resources_pointwise [OF assms(1)] those_map_eq_Some .
  have len: "length ds = length ls" using m [THEN arg_cong, of length] by simp
  have nth: "?f (ls ! i) = Some (ds ! i)" if "i < length ls" for i
    using m [THEN arg_cong, of "\<lambda>xs. xs ! i"] that len by simp
  have nth': "fst (ds ! i) = fst (ls ! i) \<and> diff_one (snd (ls ! i)) (map_of remote (fst (ls ! i))) = Some (snd (ds ! i))"
    if "i < length ls" for i
    using nth [OF that] by (cases "ls ! i"; cases "ds ! i") auto
  show "map fst ds = map fst ls"
    using nth' len by (intro nth_equalityI) auto
  { assume "(selector, d) \<in> set ds"
    then obtain i where i: "i < length ls" "ds ! i = (selector, d)" using len by (metis in_set_conv_nth)
    with nth' [OF i(1)] obtain l where l: "ls ! i = (selector, l)" "diff_one l (map_of remote selector) = Some d"
      by (cases "ls ! i") auto
    from l(1) i(1) have "(selector, l) \<in> set ls" by (metis nth_mem)
    with l(2) diff_one_local [OF l(2)] show "(selector, diff_local d) \<in> set ls \<and>
        res_status (diff_local d) (map_of remote selector) = Some (diff_kind d) \<and> diff_one (diff_local d) (map_of remote selector) = Some d"
      by (simp add: res_status_def) }
  { assume "(selector, l) \<in> set ls"
    then obtain i where i: "i < length ls" "ls ! i = (selector, l)" by (metis in_set_conv_nth)
    with nth' [OF i(1)] len have "ds ! i = (selector, snd (ds ! i))" "diff_one l (map_of remote selector) = Some (snd (ds ! i))"
      by (auto simp: prod_eq_iff)
    moreover have "ds ! i \<in> set ds" using i(1) len by simp
    ultimately show "\<exists>d. (selector, d) \<in> set ds \<and> diff_one l (map_of remote selector) = Some d" by metis }
qed

lemma diff_resources_exists:
  assumes "distinct (map fst ls)" "\<And>selector l. (selector, l) \<in> set ls \<Longrightarrow> res_status l (map_of remote selector) \<noteq> None"
  shows "\<exists>ds. diff_resources ls remote = Some ds"
proof -
  have ex: "\<exists>ds. those (map f xs) = Some ds" if "\<And>x. x \<in> set xs \<Longrightarrow> f x \<noteq> None" for f :: "'x \<Rightarrow> 'y option" and xs
    using that by (induction xs) (auto split: option.splits)
  show ?thesis
    unfolding diff_resources_pointwise [OF assms(1)] by (rule ex) (use assms(2) in \<open>auto simp: res_status_def\<close>)
qed

section \<open>Events and the status\<close>

text \<open>The selectors whose class an event may change.\<close>

fun event_touches :: "naming_env \<Rightarrow> world_event \<Rightarrow> felt set" where
  "event_touches E (NamespaceRegistered ns _) = set_option (compute_bytearray_hash E ns)"
| "event_touches E (ModelRegistered n ns _ _) = set_option (compute_selector_from_names E ns n)"
| "event_touches E (EventRegistered n ns _ _) = set_option (compute_selector_from_names E ns n)"
| "event_touches E (ContractRegistered n ns _ _ _) = set_option (compute_selector_from_names E ns n)"
| "event_touches E (LibraryRegistered n ns _) = set_option (compute_selector_from_names E ns (library_name n))"
| "event_touches E (ModelUpgraded selector _ _ _) = {selector}"
| "event_touches E (EventUpgraded selector _ _ _) = {selector}"
| "event_touches E (ContractUpgraded selector _) = {selector}"
| "event_touches E _ = {}"

fun world_class_event :: "world_event \<Rightarrow> bool" where
  "world_class_event (WorldSpawned _ _) = True"
| "world_class_event (WorldUpgraded _) = True"
| "world_class_event _ = False"

text \<open>The status depends on the type, the class and the version only.\<close>

lemma res_status_cong:
  "cr_current_class_hash c = cr_current_class_hash c' \<Longrightarrow> res_status l (Some (ContractRemote c b)) = res_status l (Some (ContractRemote c' b'))"
  "cr_current_class_hash c = cr_current_class_hash c' \<Longrightarrow> res_status l (Some (ModelRemote c)) = res_status l (Some (ModelRemote c'))"
  "cr_current_class_hash c = cr_current_class_hash c' \<Longrightarrow> res_status l (Some (EventRemote c)) = res_status l (Some (EventRemote c'))"
  "cr_current_class_hash c = cr_current_class_hash c' \<Longrightarrow> res_status l (Some (LibraryRemote c ve)) = res_status l (Some (LibraryRemote c' ve))"
  "res_status l (Some (NamespaceRemote n os ws)) = res_status l (Some (NamespaceRemote n os' ws'))"
  by (cases l; cases "cr_current_class_hash c'"; simp add: res_status_def diff_one_def compare_class_def)+

lemma res_status_updates:
  "update_writer a v r = Some r' \<Longrightarrow> res_status l (Some r') = res_status l (Some r)"
  "update_owner a v r = Some r' \<Longrightarrow> res_status l (Some r') = res_status l (Some r)"
  "res_status l (Some (set_metadata_hash h r)) = res_status l (Some r)"
  by (cases r; auto intro: res_status_cong)+

lemma register_resource_lookup:
  assumes "(register_resource E None ns r w :: (world_remote, 'e remote_error) result option) = Some (Ok w')"
  shows "\<exists>selector. rr_dojo_selector E r = Some selector \<and> map_of (wr_resources w') = (map_of (wr_resources w))(selector \<mapsto> r) \<and>
    wr_class_hashes w' = wr_class_hashes w"
  using assms by (auto simp: register_resource_def is_whitelisted_def add_resource_def update_conv')

lemma match_event_untouched:
  assumes "(match_event E utf8 None ev w :: (world_remote, 'e remote_error) result option) = Some (Ok w')"
    and "selector \<notin> event_touches E ev"
  shows "res_status l (map_of (wr_resources w') selector) = res_status l (map_of (wr_resources w) selector)"
  using assms
  by (cases ev)
    (auto simp: event_text_def is_whitelisted_def with_resource_def update_conv upgrade_resource_lookup res_status_updates
        new_namespace_remote_def
      intro!: res_status_cong(1)
      dest!: register_resource_lookup
      split: if_splits option.splits sum.splits resource_remote.splits)

lemma match_event_world_class:
  assumes "(match_event E utf8 None ev w :: (world_remote, 'e remote_error) result option) = Some (Ok w')"
    and "\<not> world_class_event ev"
  shows "wr_class_hashes w' = wr_class_hashes w"
  using assms
  by (cases ev)
    (auto simp: event_text_def is_whitelisted_def with_resource_def upgrade_resource_lookup
      dest!: register_resource_lookup
      split: if_splits option.splits sum.splits resource_remote.splits)

lemma match_events_Cons_Ok:
  assumes "(match_events E utf8 wl (Some ev # evs) w :: (world_remote, 'e remote_error) result option) = Some (Ok w')"
  obtains w1 where "(match_event E utf8 wl ev w :: (world_remote, 'e remote_error) result option) = Some (Ok w1)"
    "(match_events E utf8 wl evs w1 :: (world_remote, 'e remote_error) result option) = Some (Ok w')"
  using assms by (auto simp del: match_event.simps split: option.splits sum.splits)

lemma match_events_append_Ok:
  assumes "(match_events E utf8 wl (xs @ ys) w :: (world_remote, 'e remote_error) result option) = Some (Ok w')"
  obtains w1 where "(match_events E utf8 wl xs w :: (world_remote, 'e remote_error) result option) = Some (Ok w1)"
    "(match_events E utf8 wl ys w1 :: (world_remote, 'e remote_error) result option) = Some (Ok w')"
  using assms by (auto simp: match_events_append split: option.splits sum.splits)

lemma match_events_untouched:
  assumes "(match_events E utf8 None (map Some evs) w :: (world_remote, 'e remote_error) result option) = Some (Ok w')"
    and "\<And>ev. ev \<in> set evs \<Longrightarrow> selector \<notin> event_touches E ev"
  shows "res_status l (map_of (wr_resources w') selector) = res_status l (map_of (wr_resources w) selector)"
  using assms
proof (induction evs arbitrary: w)
  case (Cons ev evs)
  from Cons.prems(1) obtain w1 where w1: "(match_event E utf8 None ev w :: (world_remote, 'e remote_error) result option) = Some (Ok w1)"
    "(match_events E utf8 None (map Some evs) w1 :: (world_remote, 'e remote_error) result option) = Some (Ok w')"
    unfolding list.map by (rule match_events_Cons_Ok)
  show ?case
    using Cons.IH [OF w1(2)] Cons.prems(2) match_event_untouched [OF w1(1), of selector l] by simp
qed simp

lemma match_events_world_class:
  assumes "(match_events E utf8 None (map Some evs) w :: (world_remote, 'e remote_error) result option) = Some (Ok w')"
    and "\<And>ev. ev \<in> set evs \<Longrightarrow> \<not> world_class_event ev"
  shows "wr_class_hashes w' = wr_class_hashes w"
  using assms
proof (induction evs arbitrary: w)
  case (Cons ev evs)
  from Cons.prems(1) obtain w1 where w1: "(match_event E utf8 None ev w :: (world_remote, 'e remote_error) result option) = Some (Ok w1)"
    "(match_events E utf8 None (map Some evs) w1 :: (world_remote, 'e remote_error) result option) = Some (Ok w')"
    unfolding list.map by (rule match_events_Cons_Ok)
  show ?case
    using Cons.IH [OF w1(2)] Cons.prems(2) match_event_world_class [OF w1(1)] by simp
qed simp

section \<open>Calls and the status\<close>

definition class_selector :: "contract_env \<Rightarrow> string \<Rightarrow> felt \<Rightarrow> felt set" where
  "class_selector C ns class_hash =
     set_option (Option.bind (dojo_name_of C class_hash) (compute_selector_from_names (ce_naming C) ns))"

fun call_touches :: "contract_env \<Rightarrow> world_call \<Rightarrow> felt set" where
  "call_touches C (RegisterNamespace ns) = set_option (compute_bytearray_hash (ce_naming C) ns)"
| "call_touches C (RegisterContract _ ns ch) = class_selector C ns ch"
| "call_touches C (UpgradeContract ns ch) = class_selector C ns ch"
| "call_touches C (RegisterModel ns ch) = class_selector C ns ch"
| "call_touches C (UpgradeModel ns ch) = class_selector C ns ch"
| "call_touches C (RegisterEvent ns ch) = class_selector C ns ch"
| "call_touches C (UpgradeEvent ns ch) = class_selector C ns ch"
| "call_touches C (RegisterLibrary ns ch n v) = set_option (compute_selector_from_names (ce_naming C) ns (library_name (n @ ''_v'' @ v)))"
| "call_touches C _ = {}"

lemma registered_selector:
  "registered C caller ns ch mk name selector address s s' \<Longrightarrow> class_selector C ns ch = {selector} \<and>
     compute_selector_from_names (ce_naming C) ns name = Some selector"
  by (auto simp: registered_def class_selector_def)

lemma moved_selector:
  "moved C ns ch dest mk name selector address s s' \<Longrightarrow> class_selector C ns ch = {selector}"
  by (auto simp: moved_def class_selector_def)

text \<open>The events of the calls, one lemma for every kind of call that has an event of its own.\<close>

lemma register_model_events:
  assumes "ws_register_model C caller ns ch s = Some (s', evs)"
  obtains name address selector where "evs = [ModelRegistered name ns ch address]" "class_selector C ns ch = {selector}"
    "compute_selector_from_names (ce_naming C) ns name = Some selector"
  using assms by (auto simp: ws_register_model_def bind_eq_Some_conv dest!: register_stored_effect registered_selector)

lemma register_event_events:
  assumes "ws_register_event C caller ns ch s = Some (s', evs)"
  obtains name address selector where "evs = [EventRegistered name ns ch address]" "class_selector C ns ch = {selector}"
    "compute_selector_from_names (ce_naming C) ns name = Some selector"
  using assms by (auto simp: ws_register_event_def bind_eq_Some_conv dest!: register_stored_effect registered_selector)

lemma register_contract_events:
  assumes "ws_register_contract C caller salt ns ch s = Some (s', evs)"
  obtains name address selector where "evs = [ContractRegistered name ns address ch salt]" "class_selector C ns ch = {selector}"
    "compute_selector_from_names (ce_naming C) ns name = Some selector"
  using assms by (auto dest!: register_contract_effect registered_selector)

lemma upgrade_model_events:
  assumes "ws_upgrade_model C caller ns ch s = Some (s', evs)"
  obtains selector address prev where "evs = [ModelUpgraded selector ch address prev]" "class_selector C ns ch = {selector}"
  using assms by (auto simp: ws_upgrade_model_def bind_eq_Some_conv dest!: upgrade_stored_effect moved_selector)

lemma upgrade_event_events:
  assumes "ws_upgrade_event C caller ns ch s = Some (s', evs)"
  obtains selector address prev where "evs = [EventUpgraded selector ch address prev]" "class_selector C ns ch = {selector}"
  using assms by (auto simp: ws_upgrade_event_def bind_eq_Some_conv dest!: upgrade_stored_effect moved_selector)

lemma upgrade_contract_events:
  assumes "ws_upgrade_contract C caller tx ns ch s = Some (s', evs)"
  obtains selector where "evs = [ContractUpgraded selector ch]" "class_selector C ns ch = {selector}"
  using assms by (auto simp: class_selector_def dest!: upgrade_contract_effect)

lemma register_namespace_events:
  assumes "ws_register_namespace C caller ns s = Some (s', evs)"
  obtains hash where "evs = [NamespaceRegistered ns hash]" "compute_bytearray_hash (ce_naming C) ns = Some hash"
  using assms by (auto simp: ws_register_namespace_def bind_eq_Some_conv split: if_splits option.splits)

lemma register_library_events:
  assumes "ws_register_library C caller ns ch n v s = Some (s', evs)"
  shows "evs = [LibraryRegistered (n @ ''_v'' @ v) ns ch]"
  using assms by (auto simp: ws_register_library_def bind_eq_Some_conv Let_def split: if_splits)

lemma init_contract_events:
  assumes "init_contract C caller r d s = Some (s', evs)" "init_neutral C"
  shows "set evs \<subseteq> {ResourceEvent, ContractInitialized r d}"
proof -
  obtain address s1 evs1 where i: "dojo_init C address d s = Some (s1, evs1)" "evs = evs1 @ [ContractInitialized r d]"
    using assms(1) by (auto simp: init_contract_def split: option.splits world_resource.splits if_splits)
  from assms(2) i(1) have "set evs1 \<subseteq> {ResourceEvent}" unfolding init_neutral_def by blast
  with i(2) show ?thesis by auto
qed

lemma call_events:
  assumes "exec_call C caller tx c s = Some (s', evs)" "init_neutral C" "ev \<in> set evs"
  shows "event_touches (ce_naming C) ev \<subseteq> call_touches C c \<and> (world_class_event ev \<longrightarrow> (\<exists>h. c = UpgradeWorld h))"
proof (cases c)
  case (RegisterNamespace ns)
  with assms show ?thesis by (auto elim!: register_namespace_events)
next
  case (RegisterContract salt ns ch)
  then have "ws_register_contract C caller salt ns ch s = Some (s', evs)" using assms(1) by simp
  then show ?thesis by (rule register_contract_events) (use RegisterContract assms(3) in simp)
next
  case (UpgradeContract ns ch)
  then have "ws_upgrade_contract C caller tx ns ch s = Some (s', evs)" using assms(1) by simp
  then show ?thesis by (rule upgrade_contract_events) (use UpgradeContract assms(3) in simp)
next
  case (RegisterModel ns ch)
  then have "ws_register_model C caller ns ch s = Some (s', evs)" using assms(1) by simp
  then show ?thesis by (rule register_model_events) (use RegisterModel assms(3) in simp)
next
  case (UpgradeModel ns ch)
  then have "ws_upgrade_model C caller ns ch s = Some (s', evs)" using assms(1) by simp
  then show ?thesis by (rule upgrade_model_events) (use UpgradeModel assms(3) in simp)
next
  case (RegisterEvent ns ch)
  then have "ws_register_event C caller ns ch s = Some (s', evs)" using assms(1) by simp
  then show ?thesis by (rule register_event_events) (use RegisterEvent assms(3) in simp)
next
  case (UpgradeEvent ns ch)
  then have "ws_upgrade_event C caller ns ch s = Some (s', evs)" using assms(1) by simp
  then show ?thesis by (rule upgrade_event_events) (use UpgradeEvent assms(3) in simp)
next
  case (RegisterLibrary ns ch n v)
  with assms show ?thesis by (auto dest!: register_library_events)
next
  case (InitContract r d)
  then have "ev \<in> {ResourceEvent, ContractInitialized r d}"
    using init_contract_events [of C caller r d s s' evs] assms by (auto simp del: One_nat_def)
  then show ?thesis by auto
qed (use assms in \<open>auto simp: grant_writer_def revoke_writer_def grant_owner_def revoke_owner_def ws_set_metadata_def
    upgrade_world_def split: if_splits\<close>)

section \<open>Planned calls\<close>

text \<open>The call of a local resource with a status.\<close>

fun planned_call :: "felt \<Rightarrow> 'c resource_local \<Rightarrow> diff_status \<Rightarrow> world_call option" where
  "planned_call selector (NamespaceLocal n) NewResource = Some (RegisterNamespace n)"
| "planned_call selector (ContractLocal c _) NewResource = Some (RegisterContract selector (cl_namespace c) (cl_class_hash c))"
| "planned_call selector (ContractLocal c _) OldClass = Some (UpgradeContract (cl_namespace c) (cl_class_hash c))"
| "planned_call selector (ModelLocal c _) NewResource = Some (RegisterModel (cl_namespace c) (cl_class_hash c))"
| "planned_call selector (ModelLocal c _) OldClass = Some (UpgradeModel (cl_namespace c) (cl_class_hash c))"
| "planned_call selector (EventLocal c _) NewResource = Some (RegisterEvent (cl_namespace c) (cl_class_hash c))"
| "planned_call selector (EventLocal c _) OldClass = Some (UpgradeEvent (cl_namespace c) (cl_class_hash c))"
| "planned_call selector _ _ = None"

text \<open>What the artifacts of a local resource must satisfy: its namespace is text, and its class answers the
  name the artifact has.  Libraries are left out, since the world registers them under another selector
  than the one they are read back with.\<close>

definition resource_fits :: "contract_env \<Rightarrow> (string \<Rightarrow> bool) \<Rightarrow> 'c resource_local \<Rightarrow> bool" where
  "resource_fits C utf8 l \<longleftrightarrow>
     (case l of
        NamespaceLocal _ \<Rightarrow> True
      | LibraryLocal _ _ _ \<Rightarrow> False
      | _ \<Rightarrow> utf8 (rl_namespace l) \<and> dojo_name_of C (rl_class_hash l) = Some (rl_name l))"

lemma planned_touches:
  assumes "resource_fits C utf8 l" "rl_dojo_selector (ce_naming C) l = Some selector" "planned_call selector l st = Some c"
  shows "call_touches C c = {selector}"
  using assms by (cases l; cases st) (auto simp: resource_fits_def rl_dojo_selector_def class_selector_def)

lemma planned_readable:
  assumes "resource_fits C utf8 l" "planned_call selector l st = Some c"
  shows "readable_call C utf8 L s c" "\<nexists>h. c = UpgradeWorld h"
  using assms by (cases l; cases st; auto simp: resource_fits_def)+

lemma new_remote_current:
  "res_status (ModelLocal c ms) (Some (ModelRemote (new_common_remote (cl_class_hash c) ns n a))) = Some Current"
  "res_status (EventLocal c ms) (Some (EventRemote (new_common_remote (cl_class_hash c) ns n a))) = Some Current"
  "res_status (ContractLocal c sys) (Some (ContractRemote (new_common_remote (cl_class_hash c) ns n a) b)) = Some Current"
  "res_status (NamespaceLocal n) (Some (new_namespace_remote n)) = Some Current"
  by (simp_all add: res_status_def diff_one_def compare_class_def new_common_remote_def cr_current_class_hash_def new_namespace_remote_def)

lemma pushed_current:
  assumes "res_status l remote = Some OldClass" "l \<noteq> NamespaceLocal n"
  shows "\<exists>r. remote = Some r \<and> res_status l (Some (push_class_hash (rl_class_hash l) r)) = Some Current"
proof -
  obtain r where r: "remote = Some r" using assms(1) by (cases remote) (auto simp: res_status_def diff_one_def)
  with assms(1) show ?thesis
    by (cases l; cases r)
      (auto simp: res_status_def diff_one_def compare_class_def cr_push_class_hash_def cr_current_class_hash_def split: if_splits)
qed

lemma upgraded_current:
  assumes "res_status l (map_of (wr_resources w) selector) = Some OldClass" "rl_class_hash l = h" "\<nexists>n. l = NamespaceLocal n"
  shows "res_status l (map_of (wr_resources (upgrade_resource selector h w)) selector) = Some Current"
  using pushed_current [OF assms(1)] assms(2,3) by (fastforce simp: upgrade_resource_lookup)

lemma registered_current:
  assumes "(register_resource E None ns r w :: (world_remote, 'e remote_error) result option) = Some (Ok w')"
    and "rr_dojo_selector E r = Some selector" "res_status l (Some r) = Some Current"
  shows "res_status l (map_of (wr_resources w') selector) = Some Current"
  using register_resource_lookup [OF assms(1)] assms(2,3) by auto

lemma planned_contract_syncs:
  assumes sel: "call_touches C c = {selector}" and c: "planned_call selector (ContractLocal k sys) st = Some c"
    and st: "res_status (ContractLocal k sys) (map_of (wr_resources w) selector) = Some st" and x: "exec_call C caller tx c s = Some (s', evs)"
    and m: "(match_events (ce_naming C) utf8 None (map Some evs) w :: (world_remote, 'e remote_error) result option) = Some (Ok w')"
  shows "res_status (ContractLocal k sys) (map_of (wr_resources w') selector) = Some Current"
proof (cases st)
  case NewResource
  then have c: "c = RegisterContract selector (cl_namespace k) (cl_class_hash k)" using c by auto
  with x have "ws_register_contract C caller selector (cl_namespace k) (cl_class_hash k) s = Some (s', evs)" by simp
  then obtain name address where e: "evs = [ContractRegistered name (cl_namespace k) address (cl_class_hash k) selector]"
    "compute_selector_from_names (ce_naming C) (cl_namespace k) name = Some selector"
    by (rule register_contract_events) (use sel c in auto)
  from m show ?thesis
    unfolding e(1)
    by (intro registered_current [OF _ _ new_remote_current(3)])
      (auto simp: match_one event_text_def is_whitelisted_def e(2) simp del: match_events.simps split: if_splits sum.splits)
next
  case OldClass
  then have c: "c = UpgradeContract (cl_namespace k) (cl_class_hash k)" using c by auto
  with x have "ws_upgrade_contract C caller tx (cl_namespace k) (cl_class_hash k) s = Some (s', evs)" by simp
  then have "evs = [ContractUpgraded selector (cl_class_hash k)]"
    by (rule upgrade_contract_events) (use sel c in auto)
  with m st OldClass show ?thesis by (auto intro!: upgraded_current)
qed (use c in auto)

lemma planned_model_syncs:
  assumes sel: "call_touches C c = {selector}" and c: "planned_call selector (ModelLocal k ms) st = Some c"
    and st: "res_status (ModelLocal k ms) (map_of (wr_resources w) selector) = Some st" and x: "exec_call C caller tx c s = Some (s', evs)"
    and m: "(match_events (ce_naming C) utf8 None (map Some evs) w :: (world_remote, 'e remote_error) result option) = Some (Ok w')"
  shows "res_status (ModelLocal k ms) (map_of (wr_resources w') selector) = Some Current"
proof (cases st)
  case NewResource
  then have c: "c = RegisterModel (cl_namespace k) (cl_class_hash k)" using c by auto
  with x have "ws_register_model C caller (cl_namespace k) (cl_class_hash k) s = Some (s', evs)" by simp
  then obtain name address where e: "evs = [ModelRegistered name (cl_namespace k) (cl_class_hash k) address]"
    "compute_selector_from_names (ce_naming C) (cl_namespace k) name = Some selector"
    by (rule register_model_events) (use sel c in auto)
  from m show ?thesis
    unfolding e(1)
    by (intro registered_current [OF _ _ new_remote_current(1)])
      (auto simp: match_one event_text_def is_whitelisted_def e(2) simp del: match_events.simps split: if_splits sum.splits)
next
  case OldClass
  then have c: "c = UpgradeModel (cl_namespace k) (cl_class_hash k)" using c by auto
  with x have "ws_upgrade_model C caller (cl_namespace k) (cl_class_hash k) s = Some (s', evs)" by simp
  then obtain a p where "evs = [ModelUpgraded selector (cl_class_hash k) a p]"
    by (rule upgrade_model_events) (use sel c in auto)
  with m st OldClass show ?thesis by (auto intro!: upgraded_current)
qed (use c in auto)

lemma planned_event_syncs:
  assumes sel: "call_touches C c = {selector}" and c: "planned_call selector (EventLocal k ms) st = Some c"
    and st: "res_status (EventLocal k ms) (map_of (wr_resources w) selector) = Some st" and x: "exec_call C caller tx c s = Some (s', evs)"
    and m: "(match_events (ce_naming C) utf8 None (map Some evs) w :: (world_remote, 'e remote_error) result option) = Some (Ok w')"
  shows "res_status (EventLocal k ms) (map_of (wr_resources w') selector) = Some Current"
proof (cases st)
  case NewResource
  then have c: "c = RegisterEvent (cl_namespace k) (cl_class_hash k)" using c by auto
  with x have "ws_register_event C caller (cl_namespace k) (cl_class_hash k) s = Some (s', evs)" by simp
  then obtain name address where e: "evs = [EventRegistered name (cl_namespace k) (cl_class_hash k) address]"
    "compute_selector_from_names (ce_naming C) (cl_namespace k) name = Some selector"
    by (rule register_event_events) (use sel c in auto)
  from m show ?thesis
    unfolding e(1)
    by (intro registered_current [OF _ _ new_remote_current(2)])
      (auto simp: match_one event_text_def is_whitelisted_def e(2) simp del: match_events.simps split: if_splits sum.splits)
next
  case OldClass
  then have c: "c = UpgradeEvent (cl_namespace k) (cl_class_hash k)" using c by auto
  with x have "ws_upgrade_event C caller (cl_namespace k) (cl_class_hash k) s = Some (s', evs)" by simp
  then obtain a p where "evs = [EventUpgraded selector (cl_class_hash k) a p]"
    by (rule upgrade_event_events) (use sel c in auto)
  with m st OldClass show ?thesis by (auto intro!: upgraded_current)
qed (use c in auto)

lemma planned_namespace_syncs:
  assumes sel: "call_touches C c = {selector}" and c: "planned_call selector (NamespaceLocal n) st = Some c"
    and x: "exec_call C caller tx c s = Some (s', evs)"
    and m: "(match_events (ce_naming C) utf8 None (map Some evs) w :: (world_remote, 'e remote_error) result option) = Some (Ok w')"
  shows "res_status (NamespaceLocal n) (map_of (wr_resources w') selector) = Some Current"
proof -
  have c: "c = RegisterNamespace n" using c by (cases st) auto
  with x have "ws_register_namespace C caller n s = Some (s', evs)" by simp
  then obtain hash where e: "evs = [NamespaceRegistered n hash]" "compute_bytearray_hash (ce_naming C) n = Some hash"
    by (rule register_namespace_events)
  from m sel c show ?thesis
    unfolding e(1)
    by (intro registered_current [OF _ _ new_remote_current(4)])
      (auto simp: match_one event_text_def new_namespace_remote_def e(2) simp del: match_events.simps split: if_splits sum.splits)
qed

lemma planned_syncs:
  assumes "resource_fits C utf8 l" "rl_dojo_selector (ce_naming C) l = Some selector" "planned_call selector l st = Some c"
    and "res_status l (map_of (wr_resources w) selector) = Some st" "exec_call C caller tx c s = Some (s', evs)"
    and "(match_events (ce_naming C) utf8 None (map Some evs) w :: (world_remote, 'e remote_error) result option) = Some (Ok w')"
  shows "res_status l (map_of (wr_resources w') selector) = Some Current"
proof -
  note sel = planned_touches [OF assms(1-3)]
  show ?thesis
    using assms(3-6) planned_contract_syncs [OF sel] planned_model_syncs [OF sel] planned_event_syncs [OF sel]
      planned_namespace_syncs [OF sel] assms(1)
    by (cases l) (auto simp: resource_fits_def simp del: match_events.simps)
qed

section \<open>Runs\<close>

text \<open>The calls of one or of several transactions, executed one after the other.\<close>

inductive run_calls ::
  "('c, 'f, 'x) chain_env \<Rightarrow> chain_call list \<Rightarrow> world_state \<Rightarrow> world_state \<Rightarrow> world_event list \<Rightarrow> bool" for E where
  run_nil: "run_calls E [] s s []"
| run_cons: "exec_chain_call E tx c s = Some (s1, evs) \<Longrightarrow> run_calls E cs s1 s2 evs' \<Longrightarrow> run_calls E (c # cs) s s2 (evs @ evs')"

inductive_cases run_nilE: "run_calls E [] s s' evs"
inductive_cases run_consE: "run_calls E (c # cs) s s' evs"

lemma run_worldE:
  assumes "run_calls E (WorldCall c # cs) s s' evs"
  obtains tx s1 e1 e2 where "exec_call (ch_contract E) (ch_account E) tx c s = Some (s1, e1)" "run_calls E cs s1 s' e2" "evs = e1 @ e2"
  using assms by (auto elim!: run_consE split: if_splits)

lemma exec_chain_calls_run:
  "exec_chain_calls E tx cs s = Some (s', evs) \<Longrightarrow> run_calls E cs s s' evs"
  by (induction cs arbitrary: s evs) (auto simp: bind_eq_Some_conv intro: run_nil run_cons simp del: exec_chain_call.simps)

lemma step_then_Ok:
  assumes "step_then m f ch = (Some (Ok b), ch'')"
  obtains a ch' where "m ch = (Some (Ok a), ch')" "f a ch' = (Some (Ok b), ch'')"
  using assms by (auto simp: step_then_def split: prod.splits option.splits sum.splits)

lemma step_simps [simp]:
  "step_ret a ch = (Some (Ok b), ch') \<longleftrightarrow> b = a \<and> ch' = ch"
  "step_of r ch = (Some (Ok b), ch') \<longleftrightarrow> r = Some (Ok b) \<and> ch' = ch"
  "step_map_err g m ch = (Some (Ok b), ch') \<longleftrightarrow> m ch = (Some (Ok b), ch')"
  by (auto simp: step_ret_def step_of_def step_map_err_def split: prod.splits option.splits sum.splits)

lemma send_calls_run:
  assumes "send_calls E calls ch = (Some (Ok u), ch')"
  shows "\<exists>evs. run_calls E calls (chain_world ch) (chain_world ch') evs \<and> chain_events ch' = chain_events ch @ evs"
  using assms exec_chain_calls_run [of E _ calls "chain_world ch"] by (auto simp: send_calls_def split: option.splits)

lemma invoke_all_run:
  assumes "invoke_all_sequentially E calls ch = (Some (Ok u), ch')"
  shows "\<exists>evs. run_calls E calls (chain_world ch) (chain_world ch') evs \<and> chain_events ch' = chain_events ch @ evs"
  using assms
proof (induction calls arbitrary: ch)
  case Nil
  then show ?case by (auto intro: run_nil)
next
  case (Cons c cs)
  then obtain ch1 where "send_calls E [c] ch = (Some (Ok ()), ch1)" and rest: "invoke_all_sequentially E cs ch1 = (Some (Ok u), ch')"
    by (auto simp: invoke_def elim!: step_then_Ok)
  from send_calls_run [OF this(1)] obtain e1 tx where e1: "exec_chain_call E tx c (chain_world ch) = Some (chain_world ch1, e1)"
    "chain_events ch1 = chain_events ch @ e1"
    by (auto elim!: run_consE run_nilE)
  from Cons.IH [OF rest] obtain e2 where "run_calls E cs (chain_world ch1) (chain_world ch') e2" "chain_events ch' = chain_events ch1 @ e2"
    by blast
  with e1 run_cons [OF e1(1)] show ?case by auto
qed

lemma send_plan_run:
  assumes "send_plan E M calls ch = (Some (Ok u), ch')"
  shows "\<exists>evs. run_calls E calls (chain_world ch) (chain_world ch') evs \<and> chain_events ch' = chain_events ch @ evs"
  using assms invoke_all_run [of E calls ch u ch'] send_calls_run [of E calls ch u ch']
  by (auto simp: send_plan_def multicall_def intro: run_nil split: if_splits)

lemma run_history:
  assumes "run_calls E (map WorldCall cs) s s' evs'" "world_history (ch_contract E) utf8 {} s evs"
    and "\<And>c s. c \<in> set cs \<Longrightarrow> readable_call (ch_contract E) utf8 {} s c"
  shows "world_history (ch_contract E) utf8 {} s' (evs @ evs')"
  using assms
proof (induction cs arbitrary: s evs evs')
  case Nil
  then show ?case by (auto elim: run_nilE)
next
  case (Cons c cs)
  from Cons.prems(1) obtain tx s1 e1 e2 where e: "exec_call (ch_contract E) (ch_account E) tx c s = Some (s1, e1)"
    "run_calls E (map WorldCall cs) s1 s' e2" "evs' = e1 @ e2"
    unfolding list.map by (rule run_worldE)
  have "world_history (ch_contract E) utf8 {} s1 (evs @ e1)"
    by (rule world_history.called [OF Cons.prems(2) e(1)]) (use Cons.prems(3) in auto)
  from Cons.IH [OF e(2) this] Cons.prems(3) e(3) show ?case by simp
qed

lemma run_events:
  assumes "run_calls E (map WorldCall cs) s s' evs" "init_neutral (ch_contract E)" "ev \<in> set evs"
  shows "\<exists>c \<in> set cs. event_touches (ce_naming (ch_contract E)) ev \<subseteq> call_touches (ch_contract E) c \<and>
    (world_class_event ev \<longrightarrow> (\<exists>h. c = UpgradeWorld h))"
  using assms(1,3)
proof (induction cs arbitrary: s evs)
  case Nil
  then show ?case by (auto elim: run_nilE)
next
  case (Cons c cs)
  from Cons.prems(1) obtain tx s1 e1 e2 where e: "exec_call (ch_contract E) (ch_account E) tx c s = Some (s1, e1)"
    "run_calls E (map WorldCall cs) s1 s' e2" "evs = e1 @ e2"
    unfolding list.map by (rule run_worldE)
  show ?case
  proof (cases "ev \<in> set e1")
    case True
    then show ?thesis using call_events [OF e(1) assms(2)] by auto
  next
    case False
    then show ?thesis using Cons.IH [OF e(2)] Cons.prems(2) e(3) by auto
  qed
qed

text \<open>A list of planned calls makes each of its resources current and leaves the others as they are.\<close>

lemma run_planned:
  assumes "run_calls E (map (WorldCall \<circ> snd) items) s s' evs" "init_neutral (ch_contract E)"
    and "(match_events (ce_naming (ch_contract E)) utf8 None (map Some evs) w :: (world_remote, 'e remote_error) result option) = Some (Ok w')"
    and "distinct (map fst items)"
    and "\<And>selector c. (selector, c) \<in> set items \<Longrightarrow> call_touches (ch_contract E) c = {selector}"
  shows "selector \<notin> fst ` set items \<Longrightarrow> res_status l (map_of (wr_resources w') selector) = res_status l (map_of (wr_resources w) selector)"
    and "(selector, c) \<in> set items \<Longrightarrow> resource_fits (ch_contract E) utf8 l \<Longrightarrow> rl_dojo_selector (ce_naming (ch_contract E)) l = Some selector \<Longrightarrow>
      res_status l (map_of (wr_resources w) selector) = Some st \<Longrightarrow> planned_call selector l st = Some c \<Longrightarrow>
      res_status l (map_of (wr_resources w') selector) = Some Current"
proof -
  have "(selector \<notin> fst ` set items \<longrightarrow> res_status l (map_of (wr_resources w') selector) = res_status l (map_of (wr_resources w) selector)) \<and>
    ((selector, c) \<in> set items \<longrightarrow> resource_fits (ch_contract E) utf8 l \<longrightarrow> rl_dojo_selector (ce_naming (ch_contract E)) l = Some selector \<longrightarrow>
      res_status l (map_of (wr_resources w) selector) = Some st \<longrightarrow> planned_call selector l st = Some c \<longrightarrow>
      res_status l (map_of (wr_resources w') selector) = Some Current)"
    using assms(1,3-5)
  proof (induction items arbitrary: s evs w)
    case Nil
    then show ?case by (auto elim!: run_nilE)
  next
    case (Cons x items)
    obtain sel0 c0 where x: "x = (sel0, c0)" by (cases x)
    from Cons.prems(1) obtain tx s1 e1 e2 where e: "exec_call (ch_contract E) (ch_account E) tx c0 s = Some (s1, e1)"
      "run_calls E (map (WorldCall \<circ> snd) items) s1 s' e2" "evs = e1 @ e2"
      unfolding x list.map comp_def snd_conv by (rule run_worldE)
    obtain w1 where w1: "(match_events (ce_naming (ch_contract E)) utf8 None (map Some e1) w :: (world_remote, 'e remote_error) result option) = Some (Ok w1)"
      "(match_events (ce_naming (ch_contract E)) utf8 None (map Some e2) w1 :: (world_remote, 'e remote_error) result option) = Some (Ok w')"
      using Cons.prems(2) unfolding e(3) map_append by (rule match_events_append_Ok)
    have touch: "call_touches (ch_contract E) c0 = {sel0}" using Cons.prems(4) x by auto
    have first: "res_status l (map_of (wr_resources w1) selector) = res_status l (map_of (wr_resources w) selector)" if "selector \<noteq> sel0"
      using that touch call_events [OF e(1) assms(2)] by (intro match_events_untouched [OF w1(1)]) blast
    have sync: "res_status l (map_of (wr_resources w1) selector) = Some Current" if "selector = sel0" "c = c0"
      "resource_fits (ch_contract E) utf8 l" "rl_dojo_selector (ce_naming (ch_contract E)) l = Some selector"
      "res_status l (map_of (wr_resources w) selector) = Some st" "planned_call selector l st = Some c"
      using planned_syncs [OF that(3,4,6,5) _ w1(1)] e(1) that(2) by blast
    have d: "sel0 \<notin> fst ` set items" "distinct (map fst items)" using Cons.prems(3) x by auto
    note IH = Cons.IH [OF e(2) w1(2) d(2)]
    show ?case
    proof (intro conjI impI)
      assume "selector \<notin> fst ` set (x # items)"
      then show "res_status l (map_of (wr_resources w') selector) = res_status l (map_of (wr_resources w) selector)"
        using IH first x Cons.prems(4) by auto
    next
      assume a: "(selector, c) \<in> set (x # items)" "resource_fits (ch_contract E) utf8 l" "rl_dojo_selector (ce_naming (ch_contract E)) l = Some selector"
        "res_status l (map_of (wr_resources w) selector) = Some st" "planned_call selector l st = Some c"
      show "res_status l (map_of (wr_resources w') selector) = Some Current"
      proof (cases "selector = sel0")
        case True
        then have "c = c0" using a(1) x d(1) by force
        then show ?thesis using sync [OF True _ a(2-5)] IH Cons.prems(4) d(1) True by auto
      next
        case False
        then show ?thesis using IH first a x Cons.prems(4) by auto
      qed
    qed
  qed
  then show "selector \<notin> fst ` set items \<Longrightarrow> res_status l (map_of (wr_resources w') selector) = res_status l (map_of (wr_resources w) selector)"
    "(selector, c) \<in> set items \<Longrightarrow> resource_fits (ch_contract E) utf8 l \<Longrightarrow> rl_dojo_selector (ce_naming (ch_contract E)) l = Some selector \<Longrightarrow>
      res_status l (map_of (wr_resources w) selector) = Some st \<Longrightarrow> planned_call selector l st = Some c \<Longrightarrow>
      res_status l (map_of (wr_resources w') selector) = Some Current"
    by blast+
qed

section \<open>The plan\<close>

definition plan_item :: "felt \<times> 'c resource_diff \<Rightarrow> (felt \<times> world_call) option" where
  "plan_item x = (case x of (selector, r) \<Rightarrow> map_option (Pair selector) (planned_call selector (diff_local r) (diff_kind r)))"

definition plan_items :: "(felt \<times> 'c resource_diff) list \<Rightarrow> (felt \<times> world_call) list" where
  "plan_items rs = List.map_filter plan_item rs"

definition plan_wf :: "contract_env \<Rightarrow> (string \<Rightarrow> bool) \<Rightarrow> world_remote \<Rightarrow> (felt \<times> 'c resource_diff) list \<Rightarrow> bool" where
  "plan_wf C utf8 w rs \<longleftrightarrow> distinct (map fst rs) \<and>
     (\<forall>(selector, r) \<in> set rs. resource_fits C utf8 (diff_local r) \<and> rl_dojo_selector (ce_naming C) (diff_local r) = Some selector \<and>
        diff_one (diff_local r) (map_of (wr_resources w) selector) = Some r)"

lemma plan_items_simps [simp]:
  "plan_items [] = []"
  "plan_items (x # rs) = (case plan_item x of None \<Rightarrow> plan_items rs | Some i \<Rightarrow> i # plan_items rs)"
  "plan_items (rs @ rs') = plan_items rs @ plan_items rs'"
  by (auto simp: plan_items_def List.map_filter_simps List.map_filter_def split: option.split)

lemma plan_items_set: "(selector, c) \<in> set (plan_items rs) \<longleftrightarrow>
    (\<exists>r. (selector, r) \<in> set rs \<and> planned_call selector (diff_local r) (diff_kind r) = Some c)"
  by (force simp: plan_items_def List.map_filter_def plan_item_def)

lemma plan_items_distinct: "distinct (map fst rs) \<Longrightarrow> distinct (map fst (plan_items rs))"
proof (induction rs)
  case (Cons x rs)
  obtain selector r where x: "x = (selector, r)" by (cases x)
  have "selector \<notin> fst ` set (plan_items rs)" using Cons.prems x by (force simp: plan_items_set)
  then show ?case using Cons x by (auto simp: plan_item_def split: option.split)
qed simp

lemma with_class_call: "with_class E r c k = Some (Ok (cs, ks)) \<Longrightarrow> \<exists>call. k = Some call \<and> cs = [call]"
  by (auto simp: with_class_def split: sum.splits)

lemma updated_types:
  "diff_one (ContractLocal c sys) remote = Some (Updated l r) \<Longrightarrow> \<exists>k b. r = ContractRemote k b"
  "diff_one (ModelLocal c ms) remote = Some (Updated l r) \<Longrightarrow> \<exists>k. r = ModelRemote k"
  "diff_one (EventLocal c ms) remote = Some (Updated l r) \<Longrightarrow> \<exists>k. r = EventRemote k"
  by (cases remote; cases r; auto simp: diff_one_def compare_class_def bind_eq_Some_conv split: if_splits
      elim!: as_contract_or_panic.elims as_model_or_panic.elims as_event_or_panic.elims)+

lemma contract_call_planned:
  assumes "contracts_calls_classes E r = Some (Ok (cs, ks))" "diff_local r = ContractLocal c sys"
    and "rl_dojo_selector (ce_naming (ch_contract E)) (diff_local r) = Some selector" "diff_one (diff_local r) remote = Some r"
  shows "cs = map snd (plan_items [(selector, r)])"
proof (cases r)
  case (Created l)
  with assms(1-3) show ?thesis
    by (auto simp: contracts_calls_classes_def rd_namespace_def plan_item_def Let_def dest!: with_class_call split: sum.splits)
next
  case (Updated l rr)
  with assms(2,4) updated_types(1) [of c sys remote l rr] obtain k b where "rr = ContractRemote k b" by auto
  with Updated assms(1-3) show ?thesis
    by (auto simp: contracts_calls_classes_def rd_namespace_def plan_item_def Let_def dest!: with_class_call split: sum.splits)
next
  case (Synced l rr)
  with assms(1,2) show ?thesis by (auto simp: contracts_calls_classes_def plan_item_def Let_def split: sum.splits)
qed

lemma model_call_planned:
  assumes "models_calls_classes E r = Some (Ok (cs, ks))" "diff_local r = ModelLocal c ms" "diff_one (diff_local r) remote = Some r"
  shows "cs = map snd (plan_items [(selector, r)])"
proof (cases r)
  case (Created l)
  with assms(1,2) show ?thesis
    by (auto simp: models_calls_classes_def rd_namespace_def plan_item_def Let_def dest!: with_class_call split: sum.splits)
next
  case (Updated l rr)
  with assms(2,3) updated_types(2) [of c ms remote l rr] obtain k where "rr = ModelRemote k" by auto
  with Updated assms(1,2) show ?thesis
    by (auto simp: models_calls_classes_def rd_namespace_def plan_item_def Let_def dest!: with_class_call split: sum.splits)
next
  case (Synced l rr)
  with assms(1,2) show ?thesis by (auto simp: models_calls_classes_def plan_item_def Let_def split: sum.splits)
qed

lemma event_call_planned:
  assumes "events_calls_classes E r = Some (Ok (cs, ks))" "diff_local r = EventLocal c ms" "diff_one (diff_local r) remote = Some r"
  shows "cs = map snd (plan_items [(selector, r)])"
proof (cases r)
  case (Created l)
  with assms(1,2) show ?thesis
    by (auto simp: events_calls_classes_def rd_namespace_def plan_item_def Let_def dest!: with_class_call split: sum.splits)
next
  case (Updated l rr)
  with assms(2,3) updated_types(3) [of c ms remote l rr] obtain k where "rr = EventRemote k" by auto
  with Updated assms(1,2) show ?thesis
    by (auto simp: events_calls_classes_def rd_namespace_def plan_item_def Let_def dest!: with_class_call split: sum.splits)
next
  case (Synced l rr)
  with assms(1,2) show ?thesis by (auto simp: events_calls_classes_def plan_item_def Let_def split: sum.splits)
qed

lemma resource_call_planned:
  assumes "resource_calls_classes E r = Some (Ok (cs, ks))" "resource_fits C utf8 (diff_local r)"
    and "rl_dojo_selector (ce_naming (ch_contract E)) (diff_local r) = Some selector"
    and "diff_one (diff_local r) remote = Some r" "rd_resource_type r \<noteq> RT_Namespace"
  shows "cs = map snd (plan_items [(selector, r)])"
proof (cases "diff_local r")
  case (ContractLocal c sys)
  then show ?thesis using assms(1) contract_call_planned [OF _ ContractLocal assms(3,4)]
    by (simp add: resource_calls_classes_def rd_resource_type_def)
next
  case (ModelLocal c ms)
  then show ?thesis using assms(1) model_call_planned [OF _ ModelLocal assms(4), of E cs ks selector]
    by (simp add: resource_calls_classes_def rd_resource_type_def)
next
  case (EventLocal c ms)
  then show ?thesis using assms(1) event_call_planned [OF _ EventLocal assms(4), of E cs ks selector]
    by (simp add: resource_calls_classes_def rd_resource_type_def)
qed (use assms(2,5) in \<open>auto simp: resource_fits_def rd_resource_type_def\<close>)

text \<open>The namespaces come first and are never skipped.\<close>

lemma namespaces_planned:
  assumes "namespaces_getcalls E d (map fst rs) calls = Some (Ok calls')"
    and "\<And>selector r. (selector, r) \<in> set rs \<Longrightarrow> map_of (wd_resources d) selector = Some r \<and> rd_resource_type r = RT_Namespace"
  shows "calls' = calls @ map snd (plan_items rs)"
  using assms
proof (induction rs arbitrary: calls)
  case (Cons x rs)
  obtain selector r where x: "x = (selector, r)" by (cases x)
  have r: "map_of (wd_resources d) selector = Some r" "rd_resource_type r = RT_Namespace" using Cons.prems(2) x by auto
  obtain n where n: "diff_local r = NamespaceLocal n" using r(2) by (cases "diff_local r") (auto simp: rd_resource_type_def)
  have rest: "namespaces_getcalls E d (map fst rs) cs = Some (Ok calls') \<Longrightarrow> calls' = cs @ map snd (plan_items rs)" for cs
    using Cons.IH Cons.prems(2) by auto
  show ?case
  proof (cases r)
    case (Created l)
    with n Cons.prems(1) r(1) x have "namespaces_getcalls E d (map fst rs) (calls @ [RegisterNamespace n]) = Some (Ok calls')"
      by (auto simp: add_call_def split: sum.splits)
    from rest [OF this] Created n x show ?thesis by (simp add: plan_item_def)
  qed (use n Cons.prems(1) r(1) x rest in \<open>auto simp: plan_item_def\<close>)
qed simp

definition class_part :: "profile_config \<Rightarrow> (felt \<times> 'c resource_diff) list \<Rightarrow> (felt \<times> 'c resource_diff) list" where
  "class_part conf rs = filter (\<lambda>(_, r). \<not> is_skipped conf (rd_tag r) \<and> rd_resource_type r \<noteq> RT_Namespace) rs"

definition namespace_part :: "(felt \<times> 'c resource_diff) list \<Rightarrow> (felt \<times> 'c resource_diff) list" where
  "namespace_part rs = filter (\<lambda>(_, r). rd_resource_type r = RT_Namespace) rs"

lemma resources_planned:
  assumes "resources_getcalls E conf rs calls classes = Some (Ok (calls', classes'))" "plan_wf (ch_contract E) utf8 w rs"
  shows "calls' = calls @ map snd (plan_items (class_part conf rs))"
  using assms
proof (induction rs arbitrary: calls classes)
  case Nil
  then show ?case by (simp add: class_part_def)
next
  case (Cons x rs)
  obtain selector r where x: "x = (selector, r)" by (cases x)
  have wf: "plan_wf (ch_contract E) utf8 w rs" using Cons.prems(2) by (auto simp: plan_wf_def)
  have r: "resource_fits (ch_contract E) utf8 (diff_local r)" "rl_dojo_selector (ce_naming (ch_contract E)) (diff_local r) = Some selector"
    "diff_one (diff_local r) (map_of (wr_resources w) selector) = Some r"
    using Cons.prems(2) x by (auto simp: plan_wf_def)
  show ?case
  proof (cases "is_skipped conf (rd_tag r)")
    case True
    then show ?thesis using Cons.IH [OF _ wf] Cons.prems(1) x by (simp add: class_part_def)
  next
    case False
    with Cons.prems(1) x obtain cs ks where k: "resource_calls_classes E r = Some (Ok (cs, ks))"
      "resources_getcalls E conf rs (calls @ cs) (AList.updates (map fst ks) (map snd ks) classes) = Some (Ok (calls', classes'))"
      by (auto simp: extend_calls_def split: option.splits sum.splits)
    have "cs = (if rd_resource_type r = RT_Namespace then [] else map snd (plan_items [(selector, r)]))"
      using k(1) resource_call_planned [OF k(1) r] by (auto simp: resource_calls_classes_def)
    with Cons.IH [OF k(2) wf] False x show ?thesis by (auto simp: class_part_def split: option.splits)
  qed
qed

end
