(* ===== verification/Migration_Outcome.thy ===== *)
theory Migration_Outcome
  imports Migration
begin

text \<open>
  The phases of a migration and what they leave: the chain stays a history of the world contract, the
  resources of the plan become current, and nothing else of the world changes status.
\<close>

section \<open>Steps that leave the world alone\<close>

definition chain_ok :: "('c, 'f, 'x) chain_env \<Rightarrow> (string \<Rightarrow> bool) \<Rightarrow> chain_state \<Rightarrow> bool" where
  "chain_ok E utf8 ch \<longleftrightarrow> world_history (ch_contract E) utf8 {} (chain_world ch) (chain_events ch)"

text \<open>The remote world read from the events of the chain.\<close>

definition chain_reads :: "('c, 'f, 'x) chain_env \<Rightarrow> (string \<Rightarrow> bool) \<Rightarrow> felt \<Rightarrow> chain_state \<Rightarrow> world_remote \<Rightarrow> bool" where
  "chain_reads E utf8 a ch w \<longleftrightarrow>
     match_events (ce_naming (ch_contract E)) utf8 None (map Some (chain_events ch)) (world_remote_default\<lparr>wr_address := a\<rparr>) =
       Some (Ok w :: (world_remote, unit remote_error) result)"

definition quiet :: "('c, 'f, 'x) chain_env \<Rightarrow> (string \<Rightarrow> bool) \<Rightarrow> ('a, 'e) step \<Rightarrow> bool" where
  "quiet E utf8 m \<longleftrightarrow> (\<forall>ch. chain_events (snd (m ch)) = chain_events ch \<and> (chain_ok E utf8 ch \<longrightarrow> chain_ok E utf8 (snd (m ch))) \<and>
     (\<exists>D. chain_world (snd (m ch)) = (chain_world ch)\<lparr>ws_declared := D\<rparr>))"

lemma state_declared_id: "\<exists>D. s = s\<lparr>ws_declared := D\<rparr>"
  by (rule exI [of _ "ws_declared s"]) simp

lemma quiet_basic [simp]:
  "quiet E utf8 (step_ret a)" "quiet E utf8 (step_err e)" "quiet E utf8 (step_of r)"
  by (simp_all add: quiet_def step_ret_def step_err_def step_of_def state_declared_id)

lemma quiet_map_err [simp]: "quiet E utf8 m \<Longrightarrow> quiet E utf8 (step_map_err g m)"
proof -
  have "snd (step_map_err g m ch) = snd (m ch)" for ch
    by (auto simp: step_map_err_def split: prod.splits option.splits sum.splits)
  then show "quiet E utf8 m \<Longrightarrow> quiet E utf8 (step_map_err g m)" by (simp add: quiet_def)
qed

lemma quiet_then [intro]:
  assumes "quiet E utf8 m" "\<And>a. quiet E utf8 (f a)"
  shows "quiet E utf8 (step_then m f)"
  unfolding quiet_def
proof
  fix ch
  obtain r ch1 where m: "m ch = (r, ch1)" by (cases "m ch")
  have m1: "chain_events ch1 = chain_events ch" "chain_ok E utf8 ch \<longrightarrow> chain_ok E utf8 ch1"
    "\<exists>D. chain_world ch1 = (chain_world ch)\<lparr>ws_declared := D\<rparr>"
    using assms(1) m by (auto simp: quiet_def dest!: spec [of _ ch])
  show "chain_events (snd (step_then m f ch)) = chain_events ch \<and>
    (chain_ok E utf8 ch \<longrightarrow> chain_ok E utf8 (snd (step_then m f ch))) \<and>
    (\<exists>D. chain_world (snd (step_then m f ch)) = (chain_world ch)\<lparr>ws_declared := D\<rparr>)"
  proof (cases "\<exists>a. r = Some (Ok a)")
    case True
    then obtain a where "step_then m f ch = f a ch1" using m by (auto simp: step_then_def)
    moreover have "chain_events (snd (f a ch1)) = chain_events ch1 \<and> (chain_ok E utf8 ch1 \<longrightarrow> chain_ok E utf8 (snd (f a ch1))) \<and>
      (\<exists>D. chain_world (snd (f a ch1)) = (chain_world ch1)\<lparr>ws_declared := D\<rparr>)"
      using assms(2) unfolding quiet_def by blast
    ultimately show ?thesis using m1 by auto
  next
    case False
    then have "snd (step_then m f ch) = ch1" using m by (auto simp: step_then_def split: option.splits sum.splits)
    then show ?thesis using m1 by simp
  qed
qed

lemma quiet_lookups [simp]: "quiet E utf8 (is_declared E h)" "quiet E utf8 (is_deployed E a)"
  by (auto simp: quiet_def is_declared_def is_deployed_def state_declared_id split: option.split)

lemma quiet_declare [simp]: "quiet E utf8 (declare_class E account c)"
proof -
  have "quiet E utf8 (send_declaration E account k)" for k
    using world_history.declared [of "ch_contract E" utf8 "{}"]
    by (auto simp: quiet_def send_declaration_def chain_ok_def state_declared_id split: option.split)
  then show ?thesis unfolding declare_class_def by (intro quiet_then) auto
qed

lemma quiet_declare_all [simp]: "quiet E utf8 (declare_all E account cs)"
  by (induction cs) auto

lemma quiet_run_declarers:
  "quiet E utf8 (\<lambda>ch. let (rs, ch') = run_declarers E ds ch in (declarer_results E rs, ch'))"
proof -
  have "chain_events (snd (run_declarers E ds ch)) = chain_events ch \<and> (chain_ok E utf8 ch \<longrightarrow> chain_ok E utf8 (snd (run_declarers E ds ch))) \<and>
     (\<exists>D. chain_world (snd (run_declarers E ds ch)) = (chain_world ch)\<lparr>ws_declared := D\<rparr>)" for ch
  proof (induction ds arbitrary: ch)
    case Nil
    then show ?case by (simp add: state_declared_id)
  next
    case (Cons d ds)
    obtain account classes where d: "d = (account, classes)" by (cases d)
    obtain r ch1 where m: "declare_all E account (map snd classes) ch = (r, ch1)" by (cases "declare_all E account (map snd classes) ch")
    have "chain_events ch1 = chain_events ch \<and> (chain_ok E utf8 ch \<longrightarrow> chain_ok E utf8 ch1) \<and>
      (\<exists>D. chain_world ch1 = (chain_world ch)\<lparr>ws_declared := D\<rparr>)"
      using quiet_declare_all [of E utf8 account "map snd classes"] m unfolding quiet_def by (metis snd_conv)
    with Cons.IH [of ch1] m d show ?case by (auto simp: Let_def split: prod.splits)
  qed
  then show ?thesis by (simp add: quiet_def split: prod.splits) (metis snd_conv)
qed

lemma quiet_declare_classes [simp]: "quiet E utf8 (declare_classes E classes)"
proof (cases "predeployed_accounts E = []")
  case True
  then have "declare_classes E classes = step_map_err ME_Transaction (declare_all E (ch_account E) (map snd (extend_classes (map snd classes) [])))"
    by (auto simp: declare_classes_def fun_eq_iff)
  then show ?thesis by simp
next
  case False
  then have "declare_classes E classes =
      (\<lambda>ch. let (rs, ch') = run_declarers E (distribute (map snd classes) (predeployed_accounts E)) ch in (declarer_results E rs, ch'))"
    by (auto simp: declare_classes_def fun_eq_iff)
  then show ?thesis using quiet_run_declarers by simp
qed

lemma quiet_external_getcalls [simp]: "quiet E utf8 (external_getcalls E cs calls)"
proof (induction cs arbitrary: calls)
  case (Cons c cs)
  have g: "quiet E utf8 (deploy_via_udc_getcall E h salt d p)" for h salt d p
    by (auto simp: deploy_via_udc_getcall_def Let_def)
  obtain name x where c: "c = (name, x)" by (cases c)
  then show ?case using Cons g by (cases x) auto
qed simp

lemma quietD:
  assumes "quiet E utf8 m" "m ch = (r, ch')"
  shows "chain_events ch' = chain_events ch" "chain_ok E utf8 ch \<Longrightarrow> chain_ok E utf8 ch'"
    "\<exists>D. chain_world ch' = (chain_world ch)\<lparr>ws_declared := D\<rparr>"
  using assms by (auto simp: quiet_def dest!: spec [of _ ch])

section \<open>Phases\<close>

lemma reads_extend:
  assumes "chain_reads E utf8 a ch w" "chain_events ch' = chain_events ch @ evs" "chain_ok E utf8 ch'"
    and utf8: "\<forall>n. is_name_valid n \<longrightarrow> utf8 n" and init: "init_neutral (ch_contract E)"
  shows "\<exists>w'. chain_reads E utf8 a ch' w' \<and>
    (match_events (ce_naming (ch_contract E)) utf8 None (map Some evs) w :: (world_remote, unit remote_error) result option) = Some (Ok w')"
proof -
  obtain w' where w': "chain_reads E utf8 a ch' w'"
    using history_inv [OF assms(3) [unfolded chain_ok_def] utf8 [rule_format] init, of a] unfolding chain_reads_def by blast
  then show ?thesis
    using assms(1,2) by (auto simp: chain_reads_def match_events_append simp del: match_events.simps)
qed

lemma chain_reads_unique: "chain_reads E utf8 a ch w \<Longrightarrow> chain_reads E utf8 a ch w' \<Longrightarrow> w' = w"
  by (simp add: chain_reads_def)

fun neutral_call :: "world_call \<Rightarrow> bool" where
  "neutral_call (GrantWriter _ _) = True"
| "neutral_call (GrantOwner _ _) = True"
| "neutral_call (InitContract _ _) = True"
| "neutral_call _ = False"

lemma neutral_call_simps:
  "neutral_call c \<Longrightarrow> call_touches C c = {}" "neutral_call c \<Longrightarrow> readable_call C utf8 L s c" "neutral_call c \<Longrightarrow> c \<noteq> UpgradeWorld h"
  by (cases c; simp)+

text \<open>What a phase leaves as it was: the class of the world and the status of every resource.\<close>

lemma neutral_phase:
  fixes l :: "'c resource_local"
  assumes run: "run_calls E (map WorldCall cs) (chain_world ch) (chain_world ch') evs" "chain_events ch' = chain_events ch @ evs"
    and ok: "chain_ok E utf8 ch" "chain_reads E utf8 a ch w" and neutral: "\<And>c. c \<in> set cs \<Longrightarrow> neutral_call c"
    and utf8: "\<forall>n. is_name_valid n \<longrightarrow> utf8 n" and init: "init_neutral (ch_contract E)"
  shows "\<exists>w'. chain_ok E utf8 ch' \<and> chain_reads E utf8 a ch' w' \<and> wr_class_hashes w' = wr_class_hashes w \<and>
    (\<forall>selector (l :: 'c resource_local). res_status l (map_of (wr_resources w') selector) = res_status l (map_of (wr_resources w) selector))"
proof -
  have ok': "chain_ok E utf8 ch'"
    unfolding chain_ok_def run(2) by (rule run_history [OF run(1) ok(1) [unfolded chain_ok_def]]) (use neutral neutral_call_simps in blast)
  from reads_extend [OF ok(2) run(2) ok' utf8 init] obtain w' where w': "chain_reads E utf8 a ch' w'"
    "(match_events (ce_naming (ch_contract E)) utf8 None (map Some evs) w :: (world_remote, unit remote_error) result option) = Some (Ok w')"
    by blast
  have ev: "event_touches (ce_naming (ch_contract E)) ev = {}" "\<not> world_class_event ev" if "ev \<in> set evs" for ev
    using run_events [OF run(1) init that] neutral neutral_call_simps by blast+
  have "res_status l (map_of (wr_resources w') selector) = res_status l (map_of (wr_resources w) selector)" for selector and l :: "'c resource_local"
    by (rule match_events_untouched [OF w'(2)]) (simp add: ev)
  with match_events_world_class [OF w'(2) ev(2)] ok' w'(1) show ?thesis by blast
qed

lemma permissions_neutral:
  "permissions_getcalls E M rs calls = Some calls' \<Longrightarrow> (\<And>c. c \<in> set calls \<Longrightarrow> neutral_call c) \<Longrightarrow> c \<in> set calls' \<Longrightarrow> neutral_call c"
proof (induction rs arbitrary: calls)
  case (Cons x rs)
  obtain selector r where x: "x = (selector, r)" by (cases x)
  show ?case
  proof (cases "is_skipped (mg_profile M) (rd_tag r)")
    case True
    then show ?thesis using Cons x by simp
  next
    case False
    with Cons.prems(1) x obtain ws os where "permissions_getcalls E M rs (calls @ map (\<lambda>p. GrantWriter selector (pg_address p)) (only_local ws)
        @ map (\<lambda>p. GrantOwner selector (pg_address p)) (only_local os)) = Some calls'"
      by (auto simp: bind_eq_Some_conv)
    then show ?thesis by (rule Cons.IH) (use Cons.prems(2,3) in auto)
  qed
qed simp

lemma init_getcalls_neutral:
  assumes "init_getcalls E conf rs ordered calls = Ok (ordered', calls')"
    and "\<And>c. c \<in> snd ` set ordered \<union> set calls \<Longrightarrow> neutral_call c"
  shows "c \<in> snd ` set ordered' \<union> set calls' \<Longrightarrow> neutral_call c"
  using assms
proof (induction rs arbitrary: ordered calls)
  case (Cons x rs)
  obtain selector r where x: "x = (selector, r)" by (cases x)
  show ?case
  proof (cases "rd_resource_type r \<noteq> RT_Contract \<or> is_skipped conf (rd_tag r) \<or> \<not> do_init r")
    case True
    then show ?thesis using Cons x by simp
  next
    case False
    with Cons.prems(2) x obtain args where "init_args E conf (rd_tag r) = Ok args" by (cases "init_args E conf (rd_tag r)") auto
    note a = this
    show ?thesis
    proof (cases "position (\<lambda>t. t = rd_tag r) (ordered_init_tags conf)")
      case None
      then have "init_getcalls E conf rs ordered (calls @ [InitContract selector args]) = Ok (ordered', calls')"
        using a Cons.prems(2) False x by (simp add: add_call_def)
      then show ?thesis by (rule Cons.IH [OF Cons.prems(1)]) (use Cons.prems(3) in auto)
    next
      case (Some i)
      then have "init_getcalls E conf rs (AList.update i (InitContract selector args) ordered) calls = Ok (ordered', calls')"
        using a Cons.prems(2) False x by simp
      from Cons.IH [OF Cons.prems(1) this] show ?thesis using Cons.prems(3) by (force dest!: set_alist_update)
    qed
  qed
qed auto

lemma extends_ordered_append: "extends_ordered ordered calls = ordered @ calls"
proof -
  have "foldl (\<lambda>cs c. c # cs) calls xs = rev xs @ calls" for xs :: "'a list"
    by (induction xs arbitrary: calls) auto
  then show ?thesis by (simp add: extends_ordered_def)
qed

lemma init_plan_set: "distinct (map fst ordered) \<Longrightarrow> set (init_plan (ordered, calls)) = snd ` set ordered \<union> set calls"
  by (force simp: init_plan_def extends_ordered_append ordered_calls_of_def image_iff)

lemma planned_none_current:
  assumes "planned_call selector (diff_local r) (diff_kind r) = None" "resource_fits C utf8 (diff_local r)"
    and "diff_one (diff_local r) remote = Some r"
  shows "diff_kind r = Current"
  using assms
  by (cases r; cases "diff_local r")
    (auto simp: resource_fits_def diff_one_def bind_eq_Some_conv split: option.splits if_splits)

lemma init_getcalls_distinct:
  assumes "init_getcalls E conf rs ordered calls = Ok (ordered', calls')" "distinct (map fst ordered)"
  shows "distinct (map fst ordered')"
  using assms
proof (induction rs arbitrary: ordered calls)
  case (Cons x rs)
  obtain selector r where x: "x = (selector, r)" by (cases x)
  show ?case
    using Cons x distinct_update [OF Cons.prems(2)]
    by (cases "init_args E conf (rd_tag r)") (auto split: if_splits option.splits)
qed auto

lemma plan_wf_subset:
  assumes "plan_wf C utf8 w rs" "distinct (map fst rs')" "set rs' \<subseteq> set rs"
  shows "plan_wf C utf8 w rs'"
  using assms unfolding plan_wf_def by blast

lemma plan_parts:
  assumes "distinct (map fst rs)"
  shows "distinct (map fst (namespace_part rs @ class_part conf rs))" "set (namespace_part rs @ class_part conf rs) \<subseteq> set rs"
proof -
  have inj: "inj_on fst (set rs)" "distinct rs" using assms by (auto simp: distinct_map)
  have "distinct (namespace_part rs @ class_part conf rs)"
    using inj(2) by (auto simp: namespace_part_def class_part_def)
  moreover show sub: "set (namespace_part rs @ class_part conf rs) \<subseteq> set rs"
    by (auto simp: namespace_part_def class_part_def)
  ultimately show "distinct (map fst (namespace_part rs @ class_part conf rs))"
    unfolding distinct_map using inj_on_subset [OF inj(1) sub] by blast
qed

lemma sync_phase:
  fixes rs :: "(felt \<times> 'c resource_diff) list"
  assumes run: "run_calls E (map (WorldCall \<circ> snd) (plan_items rs)) (chain_world ch) (chain_world ch') evs" "chain_events ch' = chain_events ch @ evs"
    and ok: "chain_ok E utf8 ch" "chain_reads E utf8 a ch w" and wf: "plan_wf (ch_contract E) utf8 w rs"
    and utf8: "\<forall>n. is_name_valid n \<longrightarrow> utf8 n" and init: "init_neutral (ch_contract E)"
  shows "\<exists>w'. chain_ok E utf8 ch' \<and> chain_reads E utf8 a ch' w' \<and> wr_class_hashes w' = wr_class_hashes w \<and>
    (\<forall>selector (l :: 'c resource_local). selector \<notin> fst ` set rs \<longrightarrow>
       res_status l (map_of (wr_resources w') selector) = res_status l (map_of (wr_resources w) selector)) \<and>
    (\<forall>(selector, r) \<in> set rs. res_status (diff_local r) (map_of (wr_resources w') selector) = Some Current)"
proof -
  let ?C = "ch_contract E"
  have fits: "resource_fits ?C utf8 (diff_local r)" "rl_dojo_selector (ce_naming ?C) (diff_local r) = Some selector"
    "diff_one (diff_local r) (map_of (wr_resources w) selector) = Some r" if "(selector, r) \<in> set rs" for selector r
    using wf that by (auto simp: plan_wf_def)
  have item: "\<exists>r. (selector, r) \<in> set rs \<and> planned_call selector (diff_local r) (diff_kind r) = Some c" if "(selector, c) \<in> set (plan_items rs)" for selector c
    using that by (simp add: plan_items_set)
  have touch: "call_touches ?C c = {selector}" if "(selector, c) \<in> set (plan_items rs)" for selector c
    using item [OF that] fits planned_touches by blast
  have calls: "run_calls E (map WorldCall (map snd (plan_items rs))) (chain_world ch) (chain_world ch') evs"
    using run(1) by simp
  have plain: "readable_call ?C utf8 {} s c" "c \<noteq> UpgradeWorld h" if "c \<in> set (map snd (plan_items rs))" for c s h
    using that item fits(1) planned_readable by fastforce+
  have ok': "chain_ok E utf8 ch'"
    unfolding chain_ok_def run(2) by (rule run_history [OF calls ok(1) [unfolded chain_ok_def] plain(1)])
  from reads_extend [OF ok(2) run(2) ok' utf8 init] obtain w' where w': "chain_reads E utf8 a ch' w'"
    "(match_events (ce_naming ?C) utf8 None (map Some evs) w :: (world_remote, unit remote_error) result option) = Some (Ok w')"
    by blast
  have "\<not> world_class_event ev" if "ev \<in> set evs" for ev
    using run_events [OF calls init that] plain(2) by blast
  note world = match_events_world_class [OF w'(2) this]
  have dist: "distinct (map fst (plan_items rs))" using wf by (intro plan_items_distinct) (simp add: plan_wf_def)
  note planned = run_planned [OF run(1) init w'(2) dist touch]
  have other: "res_status l (map_of (wr_resources w') selector) = res_status l (map_of (wr_resources w) selector)"
    if "selector \<notin> fst ` set (plan_items rs)" for selector and l :: "'c resource_local"
    by (rule planned(1) [OF _ that])
  have current: "res_status (diff_local r) (map_of (wr_resources w') selector) = Some Current" if r: "(selector, r) \<in> set rs" for selector r
  proof (cases "planned_call selector (diff_local r) (diff_kind r)")
    case (Some c)
    then have "(selector, c) \<in> set (plan_items rs)" using r by (auto simp: plan_items_set)
    from planned(2) [OF _ this fits(1,2) [OF r] _ Some] fits(3) [OF r] show ?thesis by (simp add: res_status_def)
  next
    case None
    have "selector \<notin> fst ` set (plan_items rs)"
    proof
      assume "selector \<in> fst ` set (plan_items rs)"
      then obtain r' where "(selector, r') \<in> set rs" "planned_call selector (diff_local r') (diff_kind r') \<noteq> None"
        using item by fastforce
      moreover have "r' = r" using eq_key_imp_eq_value [OF _ calculation(1) r] wf by (simp add: plan_wf_def)
      ultimately show False using None by simp
    qed
    moreover have "diff_kind r = Current"
      using None fits(1,3) [OF r] by (rule planned_none_current)
    ultimately show ?thesis using other fits(3) [OF r] by (simp add: res_status_def)
  qed
  have sub: "selector \<notin> fst ` set (plan_items rs)" if "selector \<notin> fst ` set rs" for selector
    using that item by force
  show ?thesis
    by (intro exI [of _ w'] conjI ok' w'(1) world allI impI other sub) (use current in auto)
qed

text \<open>Some phases leave every status as it is.\<close>

definition leaves_status :: "('c, 'f, 'x) chain_env \<Rightarrow> (string \<Rightarrow> bool) \<Rightarrow> felt \<Rightarrow> world_remote \<Rightarrow> chain_state \<Rightarrow> world_remote \<Rightarrow> bool" where
  "leaves_status E utf8 a w ch' w' \<longleftrightarrow> chain_ok E utf8 ch' \<and> chain_reads E utf8 a ch' w' \<and> wr_class_hashes w' = wr_class_hashes w \<and>
     (\<forall>selector (l :: 'c resource_local). res_status l (map_of (wr_resources w') selector) = res_status l (map_of (wr_resources w) selector))"

lemma quiet_leaves:
  assumes "quiet E utf8 m" "m ch = (r, ch')" "chain_ok E utf8 ch" "chain_reads E utf8 a ch w"
  shows "leaves_status E utf8 a w ch' w"
  using quietD [OF assms(1,2)] assms(3,4) by (simp add: leaves_status_def chain_reads_def)

lemma neutral_send:
  assumes "send_plan E M (map WorldCall cs) ch = (Some (Ok u), ch')" "chain_ok E utf8 ch" "chain_reads E utf8 a ch w"
    and "\<And>c. c \<in> set cs \<Longrightarrow> neutral_call c" "\<forall>n. is_name_valid n \<longrightarrow> utf8 n" "init_neutral (ch_contract E)"
  shows "\<exists>w'. leaves_status E utf8 a w ch' w'"
  using send_plan_run [OF assms(1)] neutral_phase [OF _ _ assms(2-6)] unfolding leaves_status_def by blast

lemma permissions_phase:
  assumes "sync_permissions E M ch = (Some (Ok b), ch')" "chain_ok E utf8 ch" "chain_reads E utf8 a ch w"
    and "\<forall>n. is_name_valid n \<longrightarrow> utf8 n" "init_neutral (ch_contract E)"
  shows "\<exists>w'. leaves_status E utf8 a w ch' w'"
proof -
  obtain calls ch1 u where c: "permissions_getcalls E M (wd_resources (mg_diff M)) [] = Some calls"
    "send_plan E M (map WorldCall calls) ch = (Some (Ok u), ch')"
    using assms(1) by (auto simp: sync_permissions_def elim!: step_then_Ok)
  show ?thesis
    by (rule neutral_send [OF c(2) assms(2,3) _ assms(4,5)]) (use permissions_neutral [OF c(1)] in auto)
qed

lemma initialize_phase:
  assumes "initialize_contracts E M ch = (Some (Ok b), ch')" "chain_ok E utf8 ch" "chain_reads E utf8 a ch w"
    and "\<forall>n. is_name_valid n \<longrightarrow> utf8 n" "init_neutral (ch_contract E)"
  shows "\<exists>w'. leaves_status E utf8 a w ch' w'"
proof -
  obtain ordered calls where p: "init_getcalls E (mg_profile M) (wd_resources (mg_diff M)) [] [] = Ok (ordered, calls)"
    and s: "(if init_plan (ordered, calls) = [] then step_ret False
       else step_then (send_plan E M (map WorldCall (init_plan (ordered, calls)))) (\<lambda>_. step_ret True)) ch = (Some (Ok b), ch')"
    using assms(1) by (cases "init_getcalls E (mg_profile M) (wd_resources (mg_diff M)) [] []") (auto simp: initialize_contracts_def elim!: step_then_Ok)
  have n: "neutral_call c" if "c \<in> set (init_plan (ordered, calls))" for c
    using init_getcalls_neutral [OF p, of c] init_getcalls_distinct [OF p] that by (simp add: init_plan_set)
  show ?thesis
  proof (cases "init_plan (ordered, calls) = []")
    case True
    then show ?thesis using s assms(2,3) by (auto simp: leaves_status_def)
  next
    case False
    then obtain u where "send_plan E M (map WorldCall (init_plan (ordered, calls))) ch = (Some (Ok u), ch')"
      using s by (auto elim!: step_then_Ok)
    then show ?thesis by (rule neutral_send [OF _ assms(2,3) n assms(4,5)])
  qed
qed

lemma sync_resources_calls:
  assumes "sync_resources E M ch = (Some (Ok b), ch')" and rs: "rs = wd_resources (mg_diff M)" "plan_wf (ch_contract E) utf8 w rs"
    and ns: "wd_namespaces (mg_diff M) = map fst (namespace_part rs)"
  obtains classes ch1 u u' where "declare_classes E classes ch = (Some (Ok u), ch1)"
    "send_plan E M (map (WorldCall \<circ> snd) (plan_items (namespace_part rs @ class_part (mg_profile M) rs))) ch1 = (Some (Ok u'), ch')"
proof -
  obtain ns_calls calls classes ch1 u u' where p: "namespaces_getcalls E (mg_diff M) (map fst (namespace_part rs)) [] = Some (Ok ns_calls)"
    "resources_getcalls E (mg_profile M) rs ns_calls [] = Some (Ok (calls, classes))"
    "declare_classes E classes ch = (Some (Ok u), ch1)" "send_plan E M (map WorldCall calls) ch1 = (Some (Ok u'), ch')"
    using assms(1) unfolding sync_resources_def ns rs(1) [symmetric] by (auto elim!: step_then_Ok)
  have d: "distinct (map fst rs)" using rs(2) by (simp add: plan_wf_def)
  have "ns_calls = [] @ map snd (plan_items (namespace_part rs))"
    by (rule namespaces_planned [OF p(1)]) (use d rs(1) in \<open>auto simp: namespace_part_def\<close>)
  then have "map WorldCall calls = map (WorldCall \<circ> snd) (plan_items (namespace_part rs @ class_part (mg_profile M) rs))"
    using resources_planned [OF p(2) rs(2)] by simp
  with p(3,4) that show ?thesis by simp
qed

lemma sync_resources_phase:
  fixes E :: "('c, 'f, 'x) chain_env"
  assumes "sync_resources E M ch = (Some (Ok b), ch')" and ok: "chain_ok E utf8 ch" "chain_reads E utf8 a ch w"
    and rs: "rs = wd_resources (mg_diff M)" "plan_wf (ch_contract E) utf8 w rs"
    and ns: "wd_namespaces (mg_diff M) = map fst (namespace_part rs)"
    and names: "\<forall>n. is_name_valid n \<longrightarrow> utf8 n" "init_neutral (ch_contract E)"
  shows "\<exists>w'. chain_ok E utf8 ch' \<and> chain_reads E utf8 a ch' w' \<and> wr_class_hashes w' = wr_class_hashes w \<and>
    (\<forall>(selector, r) \<in> set rs. res_status (diff_local r) (map_of (wr_resources w') selector) =
       (if rd_resource_type r = RT_Namespace \<or> \<not> is_skipped (mg_profile M) (rd_tag r) then Some Current else Some (diff_kind r)))"
proof -
  have d: "distinct (map fst rs)" using rs(2) by (simp add: plan_wf_def)
  let ?rs = "namespace_part rs @ class_part (mg_profile M) rs"
  obtain classes ch1 u u' where p: "declare_classes E classes ch = (Some (Ok u), ch1)"
    "send_plan E M (map (WorldCall \<circ> snd) (plan_items ?rs)) ch1 = (Some (Ok u'), ch')"
    using assms(1) rs ns by (rule sync_resources_calls)
  from quiet_leaves [OF quiet_declare_classes p(1) ok] have ok1: "chain_ok E utf8 ch1" "chain_reads E utf8 a ch1 w"
    by (auto simp: leaves_status_def)
  obtain evs where "run_calls E (map (WorldCall \<circ> snd) (plan_items ?rs)) (chain_world ch1) (chain_world ch') evs"
    "chain_events ch' = chain_events ch1 @ evs"
    using send_plan_run [OF p(2)] by blast
  note sync_phase [OF this ok1 plan_wf_subset [OF rs(2) plan_parts [OF d]] names]
  then obtain w' where w': "chain_ok E utf8 ch'" "chain_reads E utf8 a ch' w'" "wr_class_hashes w' = wr_class_hashes w"
    and o: "\<forall>selector (l :: 'c resource_local). selector \<notin> fst ` set ?rs \<longrightarrow>
       res_status l (map_of (wr_resources w') selector) = res_status l (map_of (wr_resources w) selector)"
    and c: "\<forall>(selector, r) \<in> set ?rs. res_status (diff_local r) (map_of (wr_resources w') selector) = Some Current"
    by (elim exE conjE)
  have other: "selector \<notin> fst ` set ?rs \<Longrightarrow> res_status l (map_of (wr_resources w') selector) = res_status l (map_of (wr_resources w) selector)"
    for selector and l :: "'c resource_local"
    using o by blast
  have current: "(selector, r) \<in> set ?rs \<Longrightarrow> res_status (diff_local r) (map_of (wr_resources w') selector) = Some Current" for selector r
    using c by blast
  have "res_status (diff_local r) (map_of (wr_resources w') selector) =
      (if rd_resource_type r = RT_Namespace \<or> \<not> is_skipped (mg_profile M) (rd_tag r) then Some Current else Some (diff_kind r))"
    if r: "(selector, r) \<in> set rs" for selector r
  proof (cases "(selector, r) \<in> set ?rs")
    case True
    moreover from True have "rd_resource_type r = RT_Namespace \<or> \<not> is_skipped (mg_profile M) (rd_tag r)"
      by (auto simp: namespace_part_def class_part_def)
    ultimately show ?thesis using current by simp
  next
    case False
    have "selector \<notin> fst ` set ?rs"
    proof
      assume "selector \<in> fst ` set ?rs"
      then obtain r' where "(selector, r') \<in> set ?rs" by force
      moreover from this have "r' = r" using eq_key_imp_eq_value [OF d _ r] plan_parts(2) [OF d] by blast
      ultimately show False using False by simp
    qed
    with other rs(2) r have "res_status (diff_local r) (map_of (wr_resources w') selector) = Some (diff_kind r)"
      by (auto simp: plan_wf_def res_status_def)
    then show ?thesis using False r by (auto simp: namespace_part_def class_part_def)
  qed
  then show ?thesis using w' by (intro exI [of _ w']) auto
qed

lemma upgrade_world_run:
  assumes "run_calls E [WorldCall (UpgradeWorld h)] s s' evs"
  shows "evs = [WorldUpgraded h]"
proof -
  obtain tx s1 e1 e2 where "exec_call (ch_contract E) (ch_account E) tx (UpgradeWorld h) s = Some (s1, e1)" "run_calls E [] s1 s' e2" "evs = e1 @ e2"
    using assms by (rule run_worldE)
  then show ?thesis by (auto simp: upgrade_world_def split: if_splits elim: run_nilE)
qed

lemma ensure_world_phase:
  assumes "ensure_world E M ch = (Some (Ok b), ch')" "wi_status (world_info (mg_diff M)) \<noteq> NotDeployed"
    and ok: "chain_ok E utf8 ch" "chain_reads E utf8 a ch w"
    and names: "\<forall>n. is_name_valid n \<longrightarrow> utf8 n" "init_neutral (ch_contract E)"
  shows "\<exists>w'. chain_ok E utf8 ch' \<and> chain_reads E utf8 a ch' w' \<and> wr_resources w' = wr_resources w \<and>
    wr_current_class_hash w' = (if wi_status (world_info (mg_diff M)) = NewVersion then Some (wi_class_hash (world_info (mg_diff M)))
      else wr_current_class_hash w)"
proof (cases "wi_status (world_info (mg_diff M))")
  case WorldSynced
  then have "ch' = ch" using assms(1) by (simp add: ensure_world_def)
  then show ?thesis using ok WorldSynced by auto
next
  case NewVersion
  let ?h = "wi_class_hash (world_info (mg_diff M))"
  obtain c u ch1 where d: "declare_class E (ch_account E) c ch = (Some (Ok u), ch1)"
    and m: "multicall E [WorldCall (UpgradeWorld ?h)] ch1 = (Some (Ok ()), ch')"
    using assms(1) NewVersion by (auto simp: ensure_world_def Let_def elim!: step_then_Ok)
  from quiet_leaves [OF quiet_declare d ok] have ok1: "chain_ok E utf8 ch1" "chain_reads E utf8 a ch1 w"
    by (auto simp: leaves_status_def)
  obtain evs where run: "run_calls E (map WorldCall [UpgradeWorld ?h]) (chain_world ch1) (chain_world ch') evs"
    "chain_events ch' = chain_events ch1 @ evs"
    using send_calls_run [of E "[WorldCall (UpgradeWorld ?h)]" ch1 "()" ch'] m by (auto simp: multicall_def)
  have evs: "evs = [WorldUpgraded ?h]" using upgrade_world_run run(1) by simp
  have ok': "chain_ok E utf8 ch'"
    unfolding chain_ok_def run(2) by (rule run_history [OF run(1) ok1(1) [unfolded chain_ok_def]]) simp
  from reads_extend [OF ok1(2) run(2) ok' names] obtain w' where "chain_reads E utf8 a ch' w'"
    "(match_events (ce_naming (ch_contract E)) utf8 None (map Some evs) w :: (world_remote, unit remote_error) result option) = Some (Ok w')"
    by blast
  then show ?thesis using ok' NewVersion by (intro exI [of _ w']) (auto simp: evs wr_current_class_hash_def)
qed (use assms(2) in simp)

lemma run_udc:
  assumes "run_calls E cs s s' evs'" "world_history (ch_contract E) utf8 {} s evs"
    and "\<And>c. c \<in> set cs \<Longrightarrow> \<exists>h salt d p. c = UdcDeploy h salt d p"
    and names: "\<forall>n. is_name_valid n \<longrightarrow> utf8 n" "init_neutral (ch_contract E)"
  shows "evs' = [] \<and> world_history (ch_contract E) utf8 {} s' evs"
  using assms(1-3)
proof (induction cs arbitrary: s evs')
  case Nil
  then show ?case by (auto elim: run_nilE)
next
  case (Cons c cs)
  from Cons.prems(3) [of c] obtain h salt d p where c: "c = UdcDeploy h salt d p" by auto
  from Cons.prems(1) obtain tx s1 e1 e2 where x: "exec_chain_call E tx c s = Some (s1, e1)" "run_calls E cs s1 s' e2" "evs' = e1 @ e2"
    by (auto elim: run_consE)
  let ?a = "contract_address_of (ce_addresses (ch_contract E)) salt h d p"
  have "ws_class_at s (ce_world (ch_contract E)) \<noteq> None"
    using history_inv [OF Cons.prems(2) names(1) [rule_format] names(2), of 0] by (auto simp: state_inv_def)
  with x(1) have "e1 = []" "ws_class_at s ?a = None" "s1 = s\<lparr>ws_class_at := (ws_class_at s)(?a \<mapsto> h)\<rparr>"
    unfolding c by (auto simp: Let_def split: if_splits)
  with Cons.IH [OF x(2)] world_history.deployed [OF Cons.prems(2)] Cons.prems(3) x(3) show ?case by auto
qed

lemma external_getcalls_udc:
  assumes "external_getcalls E cs calls ch = (Some (Ok calls'), ch')" "\<And>c. c \<in> set calls \<Longrightarrow> \<exists>h salt d p. c = UdcDeploy h salt d p"
  shows "c \<in> set calls' \<Longrightarrow> \<exists>h salt d p. c = UdcDeploy h salt d p"
  using assms
proof (induction cs arbitrary: calls ch)
  case (Cons x cs)
  obtain name k where x: "x = (name, k)" by (cases x)
  show ?case
  proof (cases k)
    case (ContractCreated e)
    with Cons.prems(2) x obtain res ch1 where
      r: "deploy_via_udc_getcall E (ec_class_hash e) (ec_salt e) (ec_raw_constructor_data e) 0 ch = (Some (Ok res), ch1)"
      "external_getcalls E cs (case res of None \<Rightarrow> calls | Some (_, call) \<Rightarrow> add_call call calls) ch1 = (Some (Ok calls'), ch')"
      by (auto elim!: step_then_Ok)
    have "\<exists>h salt d p. call = UdcDeploy h salt d p" if "res = Some (address, call)" for address call
      using r(1) that by (auto simp: deploy_via_udc_getcall_def Let_def elim!: step_then_Ok split: if_splits)
    then show ?thesis
      by (intro Cons.IH [OF Cons.prems(1) r(2)]) (use Cons.prems(3) in \<open>auto simp: add_call_def split: option.splits\<close>)
  qed (use Cons x in auto)
qed simp

lemma external_phase:
  assumes "sync_external_contracts E M ch = (Some (Ok b), ch')" and ok: "chain_ok E utf8 ch" "chain_reads E utf8 a ch w"
    and names: "\<forall>n. is_name_valid n \<longrightarrow> utf8 n" "init_neutral (ch_contract E)"
  shows "leaves_status E utf8 a w ch' w"
proof -
  obtain classes u ch1 calls ch2 u' where p: "declare_classes E classes ch = (Some (Ok u), ch1)"
    "external_getcalls E (wd_external_contracts (mg_diff M)) [] ch1 = (Some (Ok calls), ch2)"
    "send_plan E M calls ch2 = (Some (Ok u'), ch')"
    using assms(1) by (auto simp: sync_external_contracts_def elim!: step_then_Ok)
  from quiet_leaves [OF quiet_declare_classes p(1) ok] have ok1: "chain_ok E utf8 ch1" "chain_reads E utf8 a ch1 w"
    by (auto simp: leaves_status_def)
  from quiet_leaves [OF quiet_external_getcalls p(2) ok1] have ok2: "chain_ok E utf8 ch2" "chain_reads E utf8 a ch2 w"
    by (auto simp: leaves_status_def)
  obtain evs where run: "run_calls E calls (chain_world ch2) (chain_world ch') evs" "chain_events ch' = chain_events ch2 @ evs"
    using send_plan_run [OF p(3)] by blast
  have "evs = [] \<and> world_history (ch_contract E) utf8 {} (chain_world ch') (chain_events ch2)"
    by (rule run_udc [OF run(1) ok2(1) [unfolded chain_ok_def] _ names]) (use external_getcalls_udc [OF p(2)] in auto)
  then show ?thesis using run(2) ok2(2) by (simp add: leaves_status_def chain_ok_def chain_reads_def)
qed

lemma diff_resources_locals:
  assumes "distinct (map fst ls)" "diff_resources ls remote = Some ds"
  shows "map (\<lambda>(s, e). (s, diff_local e)) ds = ls"
proof -
  have "map (\<lambda>(selector, l). map_option (Pair selector) (diff_one l (map_of remote selector))) ls = map Some ds"
    using assms(2) unfolding diff_resources_pointwise [OF assms(1)] those_map_eq_Some .
  then show ?thesis
  proof (induction ls arbitrary: ds)
    case (Cons x ls)
    obtain s l where "x = (s, l)" by (cases x)
    then show ?case using Cons by (auto simp: Cons_eq_map_conv dest: diff_one_local)
  qed simp
qed

section \<open>A migration converges\<close>

text \<open>The difference with a remote world is a plan for it.\<close>

lemma local_namespace_type: "is_local_namespace (diff_local r) \<longleftrightarrow> rd_resource_type r = RT_Namespace"
  by (cases "diff_local r") (auto simp: is_local_namespace_def rd_resource_type_def)

lemma diff_new_plan:
  assumes "diff_new l w = Some d" "local_wf (ce_naming C) (wl_resources l)"
    and "\<forall>(selector, r) \<in> set (wl_resources l). resource_fits C utf8 r"
  shows "plan_wf C utf8 w (wd_resources d)" "wd_namespaces d = map fst (namespace_part (wd_resources d))"
    "wi_status (world_info d) \<noteq> NotDeployed" "wi_class_hash (world_info d) = wl_class_hash l"
    "wi_status (world_info d) = WorldSynced \<longleftrightarrow> wr_current_class_hash w = Some (wl_class_hash l)"
proof -
  obtain ds where ds: "diff_resources (wl_resources l) (wr_resources w) = Some ds" "wd_resources d = ds"
    and d: "wd_namespaces d = map fst (filter (\<lambda>(_, r). is_local_namespace r) (wl_resources l))"
      "wi_status (world_info d) \<noteq> NotDeployed" "wi_class_hash (world_info d) = wl_class_hash l"
      "wi_status (world_info d) = WorldSynced \<longleftrightarrow> wr_current_class_hash w = Some (wl_class_hash l)"
    using assms(1) by (auto simp: diff_new_def bind_eq_Some_conv)
  have dist: "distinct (map fst (wl_resources l))" using assms(2) by (simp add: local_wf_def)
  note st = diff_resources_status [OF dist ds(1)]
  show "plan_wf C utf8 w (wd_resources d)"
    unfolding plan_wf_def ds(2)
  proof (intro conjI ballI, simp add: st(1) dist, clarify)
    fix selector r assume "(selector, r) \<in> set ds"
    from st(2) [OF this] assms(2,3) show "resource_fits C utf8 (diff_local r) \<and> rl_dojo_selector (ce_naming C) (diff_local r) = Some selector \<and>
        diff_one (diff_local r) (map_of (wr_resources w) selector) = Some r"
      by (auto simp: local_wf_def)
  qed
  have "wl_resources l = map (\<lambda>(s, e). (s, diff_local e)) ds"
    by (rule diff_resources_locals [OF dist ds(1), symmetric])
  then have "filter (\<lambda>(_, r). is_local_namespace r) (wl_resources l) = map (\<lambda>(s, e). (s, diff_local e)) (namespace_part ds)"
    by (simp add: namespace_part_def filter_map comp_def case_prod_unfold local_namespace_type)
  then show "wd_namespaces d = map fst (namespace_part (wd_resources d))"
    unfolding d(1) ds(2) by (simp add: comp_def case_prod_beta)
  show "wi_status (world_info d) \<noteq> NotDeployed" "wi_class_hash (world_info d) = wl_class_hash l"
    "wi_status (world_info d) = WorldSynced \<longleftrightarrow> wr_current_class_hash w = Some (wl_class_hash l)"
    using d by simp_all
qed

lemma first_phase:
  assumes "(if mg_guest M then step_ret False else ensure_world E M) ch = (Some (Ok b), ch')"
    and ok: "chain_ok E utf8 ch" "chain_reads E utf8 a ch w" and names: "\<forall>n. is_name_valid n \<longrightarrow> utf8 n" "init_neutral (ch_contract E)"
    and diff: "diff_new l w = Some (mg_diff M)" "wi_status (world_info (mg_diff M)) \<noteq> NotDeployed"
      "wi_class_hash (world_info (mg_diff M)) = wl_class_hash l"
      "wi_status (world_info (mg_diff M)) = WorldSynced \<longleftrightarrow> wr_current_class_hash w = Some (wl_class_hash l)"
  shows "\<exists>w'. chain_ok E utf8 ch' \<and> chain_reads E utf8 a ch' w' \<and> wr_resources w' = wr_resources w \<and>
    wr_current_class_hash w' \<noteq> None \<and> (\<not> mg_guest M \<longrightarrow> wr_current_class_hash w' = Some (wl_class_hash l))"
proof (cases "mg_guest M")
  case True
  moreover have "wr_current_class_hash w \<noteq> None" using diff(1) by (auto simp: diff_new_def bind_eq_Some_conv)
  ultimately show ?thesis using assms(1) ok by (intro exI [of _ w]) auto
next
  case False
  then have "ensure_world E M ch = (Some (Ok b), ch')" using assms(1) by simp
  from ensure_world_phase [OF this diff(2) ok names] diff(2-4) show ?thesis
    by (cases "wi_status (world_info (mg_diff M))") auto
qed

lemma diff_new_entry:
  assumes "diff_new l w = Some d" "local_wf E (wl_resources l)" "(selector, k) \<in> set (wl_resources l)"
  shows "\<exists>r. (selector, r) \<in> set (wd_resources d) \<and> diff_local r = k"
proof -
  have dist: "distinct (map fst (wl_resources l))" using assms(2) by (simp add: local_wf_def)
  obtain ds where ds: "diff_resources (wl_resources l) (wr_resources w) = Some ds" "wd_resources d = ds"
    using assms(1) by (auto simp: diff_new_def bind_eq_Some_conv)
  from diff_resources_status(3) [OF dist ds(1) assms(3)] show ?thesis using diff_one_local ds(2) by blast
qed

lemma synced_sync:
  fixes E :: "('c, 'f, 'x) chain_env"
  assumes "(if is_synced (mg_diff M) then step_ret False else sync_resources E M) ch = (Some (Ok b), ch')"
    and ok: "chain_ok E utf8 ch" "chain_reads E utf8 a ch w"
    and rs: "plan_wf (ch_contract E) utf8 w (wd_resources (mg_diff M))"
    and ns: "wd_namespaces (mg_diff M) = map fst (namespace_part (wd_resources (mg_diff M)))"
    and names: "\<forall>n. is_name_valid n \<longrightarrow> utf8 n" "init_neutral (ch_contract E)"
  shows "\<exists>w'. chain_ok E utf8 ch' \<and> chain_reads E utf8 a ch' w' \<and> wr_class_hashes w' = wr_class_hashes w \<and>
    (\<forall>(selector, r) \<in> set (wd_resources (mg_diff M)). res_status (diff_local r) (map_of (wr_resources w') selector) =
       (if rd_resource_type r = RT_Namespace \<or> \<not> is_skipped (mg_profile M) (rd_tag r) then Some Current else Some (diff_kind r)))"
proof (cases "is_synced (mg_diff M)")
  case True
  have "diff_kind r = Current" if "(selector, r) \<in> set (wd_resources (mg_diff M))" for selector r
    using True that by (cases r) (auto simp: is_synced_def list_all_iff)
  then have "\<forall>(selector, r) \<in> set (wd_resources (mg_diff M)). res_status (diff_local r) (map_of (wr_resources w) selector) = Some Current \<and> diff_kind r = Current"
    using rs by (auto simp: plan_wf_def res_status_def)
  then show ?thesis using assms(1) True ok by (intro exI [of _ w]) auto
next
  case False
  then show ?thesis using sync_resources_phase [OF _ ok refl rs ns names] assms(1) by simp
qed

lemma migrate_phases:
  assumes "migrate abi_of E M ch = (Some (Ok outcome), ch')"
  obtains b1 ch1 b2 ch2 b3 ch3 b4 ch4 b5 where "(if mg_guest M then step_ret False else ensure_world E M) ch = (Some (Ok b1), ch1)"
    "(if is_synced (mg_diff M) then step_ret False else sync_resources E M) ch1 = (Some (Ok b2), ch2)"
    "sync_permissions E M ch2 = (Some (Ok b3), ch3)" "initialize_contracts E M ch3 = (Some (Ok b4), ch4)"
    "sync_external_contracts E M ch4 = (Some (Ok b5), ch')"
proof -
  from assms obtain b1 ch1 b2 ch2 b3 ch3 b4 ch4 b5 ch5 m where
    "(if mg_guest M then step_ret False else ensure_world E M) ch = (Some (Ok b1), ch1)"
    "(if is_synced (mg_diff M) then step_ret False else sync_resources E M) ch1 = (Some (Ok b2), ch2)"
    "sync_permissions E M ch2 = (Some (Ok b3), ch3)" "initialize_contracts E M ch3 = (Some (Ok b4), ch4)"
    "sync_external_contracts E M ch4 = (Some (Ok b5), ch5)"
    "step_of (map_option Ok (new_manifest abi_of (ce_naming (ch_contract E)) (ce_addresses (ch_contract E)) (mg_diff M))) ch5 = (Some (Ok m), ch')"
    unfolding migrate_def by (elim step_then_Ok) simp
  then show ?thesis using that by auto
qed

lemma leaves_status_trans:
  assumes "leaves_status E utf8 a w1 ch2 w2" "leaves_status E utf8 a w2 ch3 w3"
  shows "leaves_status E utf8 a w1 ch3 w3"
  using assms by (simp add: leaves_status_def)

lemma late_phases:
  assumes "sync_permissions E M ch2 = (Some (Ok b3), ch3)" "initialize_contracts E M ch3 = (Some (Ok b4), ch4)"
    "sync_external_contracts E M ch4 = (Some (Ok b5), ch')" and ok: "chain_ok E utf8 ch2" "chain_reads E utf8 a ch2 w"
    and names: "\<forall>n. is_name_valid n \<longrightarrow> utf8 n" "init_neutral (ch_contract E)"
  shows "\<exists>w'. leaves_status E utf8 a w ch' w'"
proof -
  obtain w3 where w3: "leaves_status E utf8 a w ch3 w3" using permissions_phase [OF assms(1) ok names] by blast
  then have ok3: "chain_ok E utf8 ch3" "chain_reads E utf8 a ch3 w3" by (auto simp: leaves_status_def)
  obtain w4 where w4: "leaves_status E utf8 a w3 ch4 w4" using initialize_phase [OF assms(2) ok3 names] by blast
  then have ok4: "chain_ok E utf8 ch4" "chain_reads E utf8 a ch4 w4" by (auto simp: leaves_status_def)
  show ?thesis using leaves_status_trans [OF leaves_status_trans [OF w3 w4] external_phase [OF assms(3) ok4 names]] by blast
qed

lemma new_diff_status:
  assumes "wr_current_class_hash w \<noteq> None" "distinct (map fst (wl_resources l))"
    and "\<And>selector r. (selector, r) \<in> set (wl_resources l) \<Longrightarrow> res_status r (map_of (wr_resources w) selector) \<noteq> None"
  shows "\<exists>d. diff_new l w = Some d \<and> (\<forall>(selector, r) \<in> set (wd_resources d). (selector, diff_local r) \<in> set (wl_resources l) \<and>
       res_status (diff_local r) (map_of (wr_resources w) selector) = Some (diff_kind r))"
proof -
  obtain ds where ds: "diff_resources (wl_resources l) (wr_resources w) = Some ds"
    using diff_resources_exists [OF assms(2,3)] by blast
  from assms(1) ds obtain d where d: "diff_new l w = Some d" "wd_resources d = ds"
    by (auto simp: diff_new_def)
  show ?thesis
    using diff_resources_status(2) [OF assms(2) ds] d by auto
qed

lemma rediff:
  assumes "diff_new l w = Some d" "local_wf E (wl_resources l)" "wr_current_class_hash w' \<noteq> None"
    and st: "\<And>selector r. (selector, r) \<in> set (wd_resources d) \<Longrightarrow> res_status (diff_local r) (map_of (wr_resources w') selector) = Some (g r)"
  shows "\<exists>d'. diff_new l w' = Some d' \<and> (\<forall>(selector, r') \<in> set (wd_resources d'). \<exists>r. (selector, r) \<in> set (wd_resources d) \<and>
    diff_local r' = diff_local r \<and> diff_kind r' = g r)"
proof -
  have dist: "distinct (map fst (wl_resources l))" using assms(2) by (simp add: local_wf_def)
  note entry = diff_new_entry [OF assms(1,2)]
  have some: "res_status k (map_of (wr_resources w') selector) \<noteq> None" if "(selector, k) \<in> set (wl_resources l)" for selector k
    using entry [OF that] st by fastforce
  obtain d' where d': "diff_new l w' = Some d'"
    and kinds: "\<And>selector r. (selector, r) \<in> set (wd_resources d') \<Longrightarrow> (selector, diff_local r) \<in> set (wl_resources l) \<and>
       res_status (diff_local r) (map_of (wr_resources w') selector) = Some (diff_kind r)"
    using new_diff_status [of w' l] assms(3) dist some by blast
  have "\<exists>r. (selector, r) \<in> set (wd_resources d) \<and> diff_local r' = diff_local r \<and> diff_kind r' = g r"
    if "(selector, r') \<in> set (wd_resources d')" for selector r'
  proof -
    from kinds [OF that] obtain r where r: "(selector, r) \<in> set (wd_resources d)" "diff_local r = diff_local r'"
      using entry by blast
    from st [OF r(1)] kinds [OF that] have "diff_kind r' = g r" unfolding r(2) by simp
    with r show ?thesis by (intro exI [of _ r]) simp
  qed
  then show ?thesis using d' by blast
qed

text \<open>C4: A migration that returns leaves the world in the state the project describes.  Take a chain that
  is a history of the world contract, and the difference between a local world and what is read from
  the events.  After the migration the events can be read again, and in the new difference every
  namespace and every other resource that is not skipped is synced, while the skipped ones are as they
  were; the world itself is synced unless the migration was one of a guest.\<close>

theorem migration_converges:
  assumes chain: "chain_ok E utf8 ch" "chain_reads E utf8 a ch w"
    and names: "\<forall>n. is_name_valid n \<longrightarrow> utf8 n" "init_neutral (ch_contract E)"
    and local: "local_wf (ce_naming (ch_contract E)) (wl_resources l)"
      "\<forall>(selector, r) \<in> set (wl_resources l). resource_fits (ch_contract E) utf8 r"
    and diff: "diff_new l w = Some (mg_diff M)" and result: "migrate abi_of E M ch = (Some (Ok outcome), ch')"
  shows "\<exists>w' d'. chain_reads E utf8 a ch' w' \<and> diff_new l w' = Some d' \<and>
    (\<forall>(selector, r') \<in> set (wd_resources d'). \<exists>r. (selector, r) \<in> set (wd_resources (mg_diff M)) \<and> diff_local r' = diff_local r \<and>
       diff_kind r' = (if rd_resource_type r = RT_Namespace \<or> \<not> is_skipped (mg_profile M) (rd_tag r) then Current else diff_kind r)) \<and>
    (\<not> mg_guest M \<longrightarrow> wi_status (world_info d') = WorldSynced)"
proof -
  let ?d = "mg_diff M" and ?C = "ch_contract E"
  note plan = diff_new_plan [OF diff local]
  obtain b1 ch1 b2 ch2 b3 ch3 b4 ch4 b5 where p: "(if mg_guest M then step_ret False else ensure_world E M) ch = (Some (Ok b1), ch1)"
    "(if is_synced ?d then step_ret False else sync_resources E M) ch1 = (Some (Ok b2), ch2)"
    and late: "sync_permissions E M ch2 = (Some (Ok b3), ch3)" "initialize_contracts E M ch3 = (Some (Ok b4), ch4)"
      "sync_external_contracts E M ch4 = (Some (Ok b5), ch')"
    using result by (rule migrate_phases)
  obtain w1 where w1: "chain_ok E utf8 ch1" "chain_reads E utf8 a ch1 w1" "wr_resources w1 = wr_resources w"
    "wr_current_class_hash w1 \<noteq> None" "\<not> mg_guest M \<longrightarrow> wr_current_class_hash w1 = Some (wl_class_hash l)"
    using first_phase [OF p(1) chain names diff plan(3-5)] by blast
  have "plan_wf ?C utf8 w1 (wd_resources ?d)" using plan(1) w1(3) by (simp add: plan_wf_def)
  from synced_sync [OF p(2) w1(1,2) this plan(2) names] obtain w2 where w2: "chain_ok E utf8 ch2" "chain_reads E utf8 a ch2 w2"
    "wr_class_hashes w2 = wr_class_hashes w1"
    and st: "\<forall>(selector, r) \<in> set (wd_resources ?d). res_status (diff_local r) (map_of (wr_resources w2) selector) =
       (if rd_resource_type r = RT_Namespace \<or> \<not> is_skipped (mg_profile M) (rd_tag r) then Some Current else Some (diff_kind r))"
    by blast
  obtain w' where w': "leaves_status E utf8 a w2 ch' w'" using late_phases [OF late w2(1,2) names] by blast
  have st': "res_status (diff_local r) (map_of (wr_resources w') selector) =
       Some (if rd_resource_type r = RT_Namespace \<or> \<not> is_skipped (mg_profile M) (rd_tag r) then Current else diff_kind r)"
    if "(selector, r) \<in> set (wd_resources ?d)" for selector r
    using st w' that by (auto simp: leaves_status_def)
  have cls: "wr_current_class_hash w' = wr_current_class_hash w1"
    using w2(3) w' by (simp add: wr_current_class_hash_def leaves_status_def)
  obtain d' where d': "diff_new l w' = Some d'"
    "\<forall>(selector, r') \<in> set (wd_resources d'). \<exists>r. (selector, r) \<in> set (wd_resources ?d) \<and> diff_local r' = diff_local r \<and>
      diff_kind r' = (if rd_resource_type r = RT_Namespace \<or> \<not> is_skipped (mg_profile M) (rd_tag r) then Current else diff_kind r)"
    using rediff [OF diff local(1) _ st'] cls w1(4) by auto
  moreover have "\<not> mg_guest M \<longrightarrow> wi_status (world_info d') = WorldSynced"
    using diff_new_plan(5) [OF d'(1) local] cls w1(5) by simp
  moreover have "chain_reads E utf8 a ch' w'" using w' by (simp add: leaves_status_def)
  ultimately show ?thesis by blast
qed

section \<open>A migration of a small world\<close>

text \<open>A project with a namespace and a contract that is a writer of it, migrated to a world that has just
  been deployed.\<close>

definition sample_chain_env :: "(unit, unit, unit) chain_env" where
  "sample_chain_env =
     \<lparr>ch_contract = sample_contract_env, ch_account = felt 50,
      ch_calldata = \<lparr>cd_naming = sample_naming, cd_addresses = ce_addresses sample_contract_env,
        felt_from_hex = (\<lambda>_. None), felt_from_dec_str = (\<lambda>_. None)\<rparr>,
      tx_hash_of = (\<lambda>_ _. 1), refused_calls = (\<lambda>_ _. None), refused_class = (\<lambda>_ _ _. None), lookup_error = (\<lambda>_ _. None),
      already_declared = (\<lambda>_. False), constructor_returns = (\<lambda>_ _. True), flatten_class = Some,
      sierra_class_hash = (\<lambda>_. felt 70), predeployed_accounts = []\<rparr>"

definition sample_state :: world_state where
  "sample_state = sample_spawn\<lparr>ws_resources := [felt 8 \<mapsto> ResNamespace ''__DOJO__'', 0 \<mapsto> ResWorld, felt 124 \<mapsto> ResModel 0 0],
     ws_owners := {(felt 8, felt 50), (0, felt 50)}\<rparr>"

definition sample_chain :: chain_state where
  "sample_chain = \<lparr>chain_world = sample_state, chain_events = [WorldSpawned (felt 50) (felt 60)]\<rparr>"

definition sample_profile :: profile_config where
  "sample_profile =
     \<lparr>world_name = ''w'', world_seed = ''w'', pc_external_contracts = None, pc_namespace = \<lparr>ns_default = ''ns'', mappings = None\<rparr>,
      pc_migration = None, pc_writers = Some [(''ns'', [''ns-c''])], pc_owners = None, init_call_args = None, lib_versions = None\<rparr>"

definition sample_contract :: "unit common_local_info" where
  "sample_contract = \<lparr>cl_name = ''c'', cl_namespace = ''ns'', cl_class = (), cl_class_hash = felt 70, cl_casm_class_hash = felt 1\<rparr>"

definition sample_local :: "unit world_local" where
  "sample_local =
     \<lparr>wl_class = (), wl_class_hash = felt 60, wl_casm_class_hash = felt 2,
      wl_resources = [(felt 2, NamespaceLocal ''ns''), (felt 103, ContractLocal sample_contract [''act''])],
      wl_external_contract_classes = [], wl_external_contracts = [], wl_profile_config = sample_profile, wl_entrypoints = []\<rparr>"

definition sample_remote :: world_remote where
  "sample_remote = world_remote_default\<lparr>wr_address := felt 5000, wr_class_hashes := [felt 60], external_owners := [(0, [felt 50])]\<rparr>"

definition sample_migration :: "unit migration" where
  "sample_migration =
     \<lparr>mg_diff =
        \<lparr>world_info = \<lparr>wi_address = felt 5000, wi_metadata_hash = 0, wi_class_hash = felt 60, wi_casm_class_hash = felt 2, wi_class = (),
           wi_status = WorldSynced, wi_entrypoints = []\<rparr>,
         wd_namespaces = [felt 2],
         wd_resources = [(felt 2, Created (NamespaceLocal ''ns'')), (felt 103, Created (ContractLocal sample_contract [''act'']))],
         wd_profile_config = sample_profile, wd_external_writers = [], wd_external_owners = [(0, [felt 50])],
         wd_external_contract_classes = [], wd_external_contracts = []\<rparr>,
      mg_profile = sample_profile, mg_guest = False\<rparr>"

lemma sample_env_simps [simp]:
  "ch_contract sample_chain_env = sample_contract_env" "ch_account sample_chain_env = felt 50"
  "tx_hash_of sample_chain_env ch cs = 1" "refused_calls sample_chain_env ch cs = None" "lookup_error sample_chain_env ch x = None"
  "flatten_class sample_chain_env c = Some ()" "sierra_class_hash sample_chain_env f = felt 70" "predeployed_accounts sample_chain_env = []"
  by (simp_all add: sample_chain_env_def)

lemma sample_contract_simps [simp]:
  "ce_naming sample_contract_env = sample_naming" "ce_world sample_contract_env = felt 5000"
  "contract_address_of (ce_addresses sample_contract_env) salt h d p = salt + h" "dojo_name_of sample_contract_env h = Some ''c''"
  "dojo_init sample_contract_env x d s = Some (s, [ResourceEvent])"
  "byte_array_felts sample_naming t = Some [felt (sample_text_hash t)]"
  by (simp_all add: sample_contract_env_def sample_naming_def)

lemma sample_local_simps [simp]:
  "cl_name sample_contract = ''c''" "cl_namespace sample_contract = ''ns''" "cl_class sample_contract = ()"
  "cl_class_hash sample_contract = felt 70" "cl_casm_class_hash sample_contract = felt 1"
  "mg_profile sample_migration = sample_profile" "\<not> mg_guest sample_migration" "is_skipped sample_profile tag = False"
  "wd_resources (mg_diff sample_migration) = [(felt 2, Created (NamespaceLocal ''ns'')), (felt 103, Created (ContractLocal sample_contract [''act'']))]"
  "wd_namespaces (mg_diff sample_migration) = [felt 2]" "wi_status (world_info (mg_diff sample_migration)) = WorldSynced"
  "wd_profile_config (mg_diff sample_migration) = sample_profile" "wi_address (world_info (mg_diff sample_migration)) = felt 5000"
  "wd_external_contract_classes (mg_diff sample_migration) = []" "wd_external_contracts (mg_diff sample_migration) = []"
  "pc_writers sample_profile = Some [(''ns'', [''ns-c''])]" "pc_owners sample_profile = None" "init_call_args sample_profile = None"
  "pc_migration sample_profile = None"
  by (simp_all add: sample_contract_def sample_migration_def is_skipped_def sample_profile_def)

lemma sample_world_felts [simp]:
  "felt 2 = felt 103 \<longleftrightarrow> False" "felt 103 = felt 2 \<longleftrightarrow> False" "felt 103 + felt 70 = felt 173"
  "compute_bytearray_hash sample_naming ''ns'' = Some (felt 2)" "compute_selector_from_names sample_naming ''ns'' ''c'' = Some (felt 103)"
  by (simp_all add: compute_selector_from_names_def sample_simps)

lemma sample_diff: "diff_new sample_local sample_remote = Some (mg_diff sample_migration)"
  by (simp add: diff_new_def wr_current_class_hash_def is_local_namespace_def world_remote_default_def sample_local_def sample_remote_def
      sample_migration_def)

lemma sample_namespace_plan:
  "namespaces_getcalls sample_chain_env (mg_diff sample_migration) [felt 2] [] = Some (Ok [RegisterNamespace ''ns''])"
  by (simp add: namespace_text_def add_call_def)

lemma sample_contract_calls:
  "resource_calls_classes sample_chain_env (Created (ContractLocal sample_contract [''act''])) =
     Some (Ok ([RegisterContract (felt 103) ''ns'' (felt 70)], [(felt 1, \<lparr>lc_label = ''ns-c'', lc_casm_class_hash = felt 1, lc_class = ()\<rparr>)]))"
  by (simp add: resource_calls_classes_def contracts_calls_classes_def rd_resource_type_def rd_namespace_def rd_tag_def rl_tag_def
      get_tag_def namespace_text_def with_class_def class_entry_def rl_dojo_selector_def)

lemma sample_resource_plan:
  "resources_getcalls sample_chain_env sample_profile (wd_resources (mg_diff sample_migration)) [RegisterNamespace ''ns''] [] =
     Some (Ok ([RegisterNamespace ''ns'', RegisterContract (felt 103) ''ns'' (felt 70)],
       [(felt 1, \<lparr>lc_label = ''ns-c'', lc_casm_class_hash = felt 1, lc_class = ()\<rparr>)]))"
  by (simp add: sample_contract_calls resource_calls_classes_def [of _ "Created (NamespaceLocal _)"] rd_resource_type_def extend_calls_def)

lemma sample_tag: "compute_selector_from_tag sample_naming ''ns-c'' = Some (felt 103)"
  by (simp add: compute_selector_from_tag_def split_tag_def)

lemma sample_contract_address: "get_contract_address (ce_addresses sample_contract_env) (mg_diff sample_migration) (felt 103) = Some (Some (felt 173))"
  by (simp add: get_contract_address_def rd_resource_type_def compute_dojo_contract_address_def)

lemma sample_permission_plan:
  "permissions_getcalls sample_chain_env sample_migration (wd_resources (mg_diff sample_migration)) [] = Some [GrantWriter (felt 2) (felt 173)]"
  by (simp add: get_writers_def get_owners_def get_local_writers_def get_local_owners_def tags_for_def rd_tag_def rl_tag_def
      get_tag_def diff_permissions_of_def resolve_local_grantee_def sample_tag sample_contract_address only_local_def)

lemma sample_init_plan:
  "init_getcalls sample_chain_env sample_profile (wd_resources (mg_diff sample_migration)) [] [] = Ok ([], [InitContract (felt 103) []])"
  by (simp add: rd_resource_type_def do_init_def init_args_def position_def ordered_init_tags_def add_call_def)


definition sample_state_2 :: world_state where
  "sample_state_2 = sample_state\<lparr>
     ws_resources := (ws_resources sample_state)(felt 2 \<mapsto> ResNamespace ''ns'', felt 103 \<mapsto> ResContract (felt 173) (felt 2)),
     ws_owners := insert (felt 103, felt 50) (insert (felt 2, felt 50) (ws_owners sample_state)),
     ws_class_at := (ws_class_at sample_state)(felt 173 \<mapsto> felt 70)\<rparr>"

definition sample_state_3 :: world_state where
  "sample_state_3 = sample_state_2\<lparr>ws_writers := {(felt 2, felt 173)}\<rparr>"

definition sample_state_4 :: world_state where
  "sample_state_4 = sample_state_3\<lparr>ws_initialized := {felt 103}\<rparr>"

definition sample_events_2 :: "world_event list" where
  "sample_events_2 = [NamespaceRegistered ''ns'' (felt 2), ContractRegistered ''c'' ''ns'' (felt 173) (felt 70) (felt 103)]"

lemmas sample_exec_simps = ws_register_namespace_def ws_register_contract_def grant_writer_def init_contract_def deploy_syscall_def Let_def
  is_namespace_registered_def assert_caller_permissions_def is_owner_def is_writer_def sample_state_def sample_spawn_def sample_selector
  sample_text_hash_def felt_plus_felt WORLD_def is_name_valid_def is_name_char_def stark_prime_def felt_small_eq_zero sample_hash

lemma sample_exec_2:
  "exec_chain_calls sample_chain_env 1 [WorldCall (RegisterNamespace ''ns''), WorldCall (RegisterContract (felt 103) ''ns'' (felt 70))] sample_state =
     Some (sample_state_2, sample_events_2)"
  by (simp add: sample_state_2_def sample_events_2_def sample_exec_simps)

lemma sample_exec_3:
  "exec_chain_calls sample_chain_env 1 [WorldCall (GrantWriter (felt 2) (felt 173))] sample_state_2 =
     Some (sample_state_3, [WriterUpdated (felt 2) (felt 173) True])"
  by (simp add: sample_state_3_def sample_state_2_def sample_exec_simps)

lemma sample_exec_4:
  "exec_chain_calls sample_chain_env 1 [WorldCall (InitContract (felt 103) [])] sample_state_3 =
     Some (sample_state_4, [ResourceEvent, ContractInitialized (felt 103) []])"
  by (simp add: sample_state_4_def sample_state_3_def sample_state_2_def sample_exec_simps)

lemma sample_plan_send:
  "send_plan sample_chain_env sample_migration calls ch =
     (if calls = [] then (Some (Ok ()), ch) else step_map_err ME_Transaction (send_calls sample_chain_env calls) ch)"
  by (simp add: send_plan_def do_multicall_def multicall_def step_map_err_def step_ret_def)

lemma sample_manifest: "\<exists>m. new_manifest (\<lambda>_. [] :: unit list) sample_naming (ce_addresses sample_contract_env) (mg_diff sample_migration) = Some m"
  by (simp add: new_manifest_def of_type_def rd_resource_type_def resource_diff_to_dojo_contract_def rd_dojo_selector_def rl_dojo_selector_def
      sample_contract_address Let_def)

lemma sample_send:
  "exec_chain_calls sample_chain_env 1 (c # cs) (chain_world ch) = Some (s, evs) \<Longrightarrow>
     send_plan sample_chain_env sample_migration (c # cs) ch = (Some (Ok ()), \<lparr>chain_world = s, chain_events = chain_events ch @ evs\<rparr>)"
  by (simp add: sample_plan_send send_calls_def step_map_err_def del: exec_chain_calls.simps)

definition sample_chain_2 :: chain_state where
  "sample_chain_2 = \<lparr>chain_world = sample_state_2, chain_events = chain_events sample_chain @ sample_events_2\<rparr>"

definition sample_chain_3 :: chain_state where
  "sample_chain_3 = \<lparr>chain_world = sample_state_3, chain_events = chain_events sample_chain_2 @ [WriterUpdated (felt 2) (felt 173) True]\<rparr>"

definition sample_end :: chain_state where
  "sample_end = \<lparr>chain_world = sample_state_4, chain_events = chain_events sample_chain_3 @ [ResourceEvent, ContractInitialized (felt 103) []]\<rparr>"

lemma sample_phase_2: "sync_resources sample_chain_env sample_migration sample_chain = (Some (Ok True), sample_chain_2)"
proof -
  have declared: "declare_classes sample_chain_env [(felt 1, \<lparr>lc_label = ''ns-c'', lc_casm_class_hash = felt 1, lc_class = ()\<rparr>)] sample_chain =
      (Some (Ok ()), sample_chain)"
    by (simp add: declare_classes_def extend_classes_def add_class_def declare_class_def is_declared_def step_then_def step_map_err_def step_ret_def
        sample_chain_def sample_state_def sample_spawn_def)
  have send: "send_plan sample_chain_env sample_migration [WorldCall (RegisterNamespace ''ns''), WorldCall (RegisterContract (felt 103) ''ns'' (felt 70))] sample_chain =
      (Some (Ok ()), sample_chain_2)"
    unfolding sample_chain_2_def by (rule sample_send) (simp add: sample_exec_2 sample_chain_def del: exec_chain_calls.simps)
  show ?thesis
    by (simp add: sync_resources_def sample_namespace_plan [simplified] sample_resource_plan [simplified] declared [simplified] send step_then_def
        step_of_def step_ret_def)
qed

lemma sample_phase_3: "sync_permissions sample_chain_env sample_migration sample_chain_2 = (Some (Ok True), sample_chain_3)"
proof -
  have send: "send_plan sample_chain_env sample_migration [WorldCall (GrantWriter (felt 2) (felt 173))] sample_chain_2 = (Some (Ok ()), sample_chain_3)"
    unfolding sample_chain_3_def by (rule sample_send) (simp add: sample_exec_3 sample_chain_2_def del: exec_chain_calls.simps)
  show ?thesis
    by (simp add: sync_permissions_def sample_permission_plan [simplified] send step_then_def step_of_def step_ret_def)
qed

lemma sample_phase_4: "initialize_contracts sample_chain_env sample_migration sample_chain_3 = (Some (Ok True), sample_end)"
proof -
  have send: "send_plan sample_chain_env sample_migration [WorldCall (InitContract (felt 103) [])] sample_chain_3 =
      (Some (Ok ()), sample_end)"
    unfolding sample_end_def by (rule sample_send) (simp add: sample_exec_4 sample_chain_3_def del: exec_chain_calls.simps)
  show ?thesis
    by (simp add: initialize_contracts_def sample_init_plan [simplified] init_plan_def send step_then_def step_of_def step_ret_def)
qed

lemma sample_phase_5: "sync_external_contracts sample_chain_env sample_migration sample_end = (Some (Ok False), sample_end)"
  by (simp add: sync_external_contracts_def declare_classes_def extend_classes_def sample_plan_send step_then_def step_of_def step_ret_def
      step_map_err_def)

lemma sample_migrated: "\<exists>m. migrate (\<lambda>_. [] :: unit list) sample_chain_env sample_migration sample_chain = (Some (Ok (True, m)), sample_end)"
proof -
  obtain m where m: "new_manifest (\<lambda>_. [] :: unit list) sample_naming (ce_addresses sample_contract_env) (mg_diff sample_migration) = Some m"
    using sample_manifest by blast
  have "\<not> is_synced (mg_diff sample_migration)" by (simp add: is_synced_def)
  moreover have "ensure_world sample_chain_env sample_migration sample_chain = (Some (Ok False), sample_chain)"
    by (simp add: ensure_world_def step_ret_def)
  ultimately show ?thesis
    by (simp add: migrate_def sample_phase_2 sample_phase_3 sample_phase_4 sample_phase_5 m step_then_def step_of_def step_ret_def)
qed

lemma sample_migration_chain_ok: "chain_ok sample_chain_env (\<lambda>_. True) sample_chain"
  unfolding chain_ok_def sample_chain_def chain_state.simps
proof (rule spawned)
  show "world_constructor (ch_contract sample_chain_env) (felt 50) (felt 60) sample_spawn = Some (sample_state, [WorldSpawned (felt 50) (felt 60)])"
    by (simp add: world_constructor_def sample_simps sample_spawn_def sample_state_def)
qed (simp_all add: sample_spawn_def)

lemma sample_chain_reads: "chain_reads sample_chain_env (\<lambda>_. True) (felt 5000) sample_chain sample_remote"
  by (simp add: chain_reads_def sample_chain_def sample_remote_def world_remote_default_def WORLD_def)

lemma sample_local_ok:
  "local_wf sample_naming (wl_resources sample_local)"
  "\<forall>(selector, r) \<in> set (wl_resources sample_local). resource_fits sample_contract_env (\<lambda>_. True) r"
  "distinct (map (rl_tag \<circ> snd) (wl_resources sample_local))"
  by (simp_all add: local_wf_def sample_local_def rl_dojo_selector_def resource_fits_def rl_tag_def get_tag_def)

lemma sample_init_neutral: "init_neutral sample_contract_env"
  by (auto simp: init_neutral_def)

theorem migration_converges_witness:
  "\<exists>m w' d'. migrate (\<lambda>_. [] :: unit list) sample_chain_env sample_migration sample_chain = (Some (Ok (True, m)), sample_end) \<and>
    chain_reads sample_chain_env (\<lambda>_. True) (felt 5000) sample_end w' \<and> diff_new sample_local w' = Some d' \<and> is_synced d'"
proof -
  obtain m where m: "migrate (\<lambda>_. [] :: unit list) sample_chain_env sample_migration sample_chain = (Some (Ok (True, m)), sample_end)"
    using sample_migrated by blast
  from migration_converges [OF sample_migration_chain_ok sample_chain_reads _ _ _ _ sample_diff m] sample_local_ok(1,2) sample_init_neutral
  obtain w' d' where w': "chain_reads sample_chain_env (\<lambda>_. True) (felt 5000) sample_end w'" "diff_new sample_local w' = Some d'"
    "\<forall>(selector, r') \<in> set (wd_resources d'). diff_kind r' = Current" "wi_status (world_info d') = WorldSynced"
    by (simp del: split_paired_Ex) (elim exE conjE, fastforce)
  have "case r of Synced _ _ \<Rightarrow> True | _ \<Rightarrow> False" if "(selector, r) \<in> set (wd_resources d')" for selector r
    using w'(3) that by (cases r) auto
  then have "is_synced d'" using w'(4) by (auto simp: is_synced_def list_all_iff)
  with m w'(1,2) show ?thesis by blast
qed

end
