(* ===== verification/Migration_Rights.thy ===== *)
theory Migration_Rights
  imports Migration_Outcome
begin

text \<open>
  What a migration leaves in the storage of the world contract: the permissions of the configuration,
  initialized contracts, and contracts at the addresses the difference and the manifest name.
\<close>

section \<open>Nothing is taken back\<close>

definition grows :: "world_state \<Rightarrow> world_state \<Rightarrow> bool" where
  "grows s s' \<longleftrightarrow> ws_owners s \<subseteq> ws_owners s' \<and> ws_writers s \<subseteq> ws_writers s' \<and> ws_initialized s \<subseteq> ws_initialized s' \<and>
     (\<forall>selector a nh. ws_resources s selector = Some (ResContract a nh) \<longrightarrow> ws_resources s' selector = Some (ResContract a nh))"

lemma grows_refl [simp]: "grows s s"
  by (simp add: grows_def)

lemma grows_trans: "grows s1 s2 \<Longrightarrow> grows s2 s3 \<Longrightarrow> grows s1 s3"
  by (auto simp: grows_def)

fun revoke_call :: "world_call \<Rightarrow> bool" where
  "revoke_call (RevokeWriter _ _) = True"
| "revoke_call (RevokeOwner _ _) = True"
| "revoke_call _ = False"

lemma registered_grows: "registered C caller ns ch mk name selector address s s' \<Longrightarrow> grows s s'"
  by (auto simp: registered_def grows_def)

lemma moved_grows:
  assumes "moved C ns ch dest mk name selector address s s'" "\<And>a nh. dest (ResContract a nh) = None"
  shows "grows s s'"
  using assms by (auto simp: moved_def grows_def)

lemma grows_salts [simp]:
  "grows (s\<lparr>models_salt := x\<rparr>) s' = grows s s'" "grows (s\<lparr>events_salt := x\<rparr>) s' = grows s s'"
  by (simp_all add: grows_def)

lemma exec_call_grows:
  assumes "exec_call C caller tx c s = Some (s', evs)" "init_neutral C" "\<not> revoke_call c"
  shows "grows s s'"
proof (cases c)
  case (InitContract r d)
  then obtain address nh s1 evs1 where "dojo_init C address d s = Some (s1, evs1)" "s' = s1\<lparr>ws_initialized := insert r (ws_initialized s1)\<rparr>"
    using assms(1) by (auto simp: init_contract_def split: option.splits world_resource.splits if_splits)
  moreover from this(1) have "s1 = s" using assms(2) unfolding init_neutral_def by blast
  ultimately show ?thesis by (auto simp: grows_def)
next
  case (RegisterModel ns ch)
  with assms(1) show ?thesis
    by (auto simp: ws_register_model_def bind_eq_Some_conv dest!: register_stored_effect registered_grows)
next
  case (RegisterEvent ns ch)
  with assms(1) show ?thesis
    by (auto simp: ws_register_event_def bind_eq_Some_conv dest!: register_stored_effect registered_grows)
next
  case (UpgradeModel ns ch)
  with assms(1) show ?thesis
    by (auto simp: ws_upgrade_model_def bind_eq_Some_conv dest!: upgrade_stored_effect moved_grows)
next
  case (UpgradeEvent ns ch)
  with assms(1) show ?thesis
    by (auto simp: ws_upgrade_event_def bind_eq_Some_conv dest!: upgrade_stored_effect moved_grows)
next
  case (RegisterContract salt ns ch)
  with assms(1) show ?thesis by (auto dest!: register_contract_effect registered_grows)
next
  case (UpgradeContract ns ch)
  with assms(1) show ?thesis by (auto simp: grows_def dest!: upgrade_contract_effect)
next
  case (RegisterNamespace ns)
  with assms(1) show ?thesis
    by (auto simp: ws_register_namespace_def grows_def bind_eq_Some_conv split: if_splits option.splits)
next
  case (RegisterLibrary ns ch n v)
  with assms(1) show ?thesis by (auto simp: ws_register_library_def grows_def bind_eq_Some_conv Let_def split: if_splits)
qed (use assms(1,3) in \<open>auto simp: grant_writer_def grant_owner_def ws_set_metadata_def upgrade_world_def grows_def split: if_splits\<close>)

lemma run_grows:
  assumes "run_calls E (map WorldCall cs) s s' evs" "init_neutral (ch_contract E)" "\<And>c. c \<in> set cs \<Longrightarrow> \<not> revoke_call c"
  shows "grows s s'"
  using assms(1,3)
proof (induction cs arbitrary: s evs)
  case Nil
  then show ?case by (auto elim: run_nilE)
next
  case (Cons c cs)
  from Cons.prems(1) obtain tx s1 e1 e2 where e: "exec_call (ch_contract E) (ch_account E) tx c s = Some (s1, e1)"
    "run_calls E (map WorldCall cs) s1 s' e2" "evs = e1 @ e2"
    unfolding list.map by (rule run_worldE)
  show ?case using exec_call_grows [OF e(1) assms(2)] Cons.IH [OF e(2)] Cons.prems(2) by (auto intro: grows_trans)
qed

lemma run_call_effect:
  assumes "run_calls E (map WorldCall cs) s s' evs" "init_neutral (ch_contract E)" "\<And>c. c \<in> set cs \<Longrightarrow> \<not> revoke_call c" "c \<in> set cs"
  shows "\<exists>tx s1 s2 e. exec_call (ch_contract E) (ch_account E) tx c s1 = Some (s2, e) \<and> grows s2 s'"
  using assms(1,3,4)
proof (induction cs arbitrary: s evs)
  case (Cons d cs)
  from Cons.prems(1) obtain tx s1 e1 e2 where e: "exec_call (ch_contract E) (ch_account E) tx d s = Some (s1, e1)"
    "run_calls E (map WorldCall cs) s1 s' e2" "evs = e1 @ e2"
    unfolding list.map by (rule run_worldE)
  show ?case
  proof (cases "c = d")
    case True
    with run_grows [OF e(2) assms(2)] Cons.prems(2) e(1) show ?thesis by auto
  next
    case False
    then show ?thesis using Cons.IH [OF e(2)] Cons.prems(2,3) by auto
  qed
qed simp

text \<open>What a granted permission, an initialization and a registration leave for good.\<close>

lemma run_grant_writer:
  assumes "run_calls E (map WorldCall cs) s s' evs" "init_neutral (ch_contract E)" "\<And>c. c \<in> set cs \<Longrightarrow> \<not> revoke_call c"
    and "GrantWriter selector x \<in> set cs"
  shows "is_writer s' selector x"
  using run_call_effect [OF assms(1-4)] by (auto simp: grant_writer_def grows_def is_writer_def split: if_splits)

lemma run_grant_owner:
  assumes "run_calls E (map WorldCall cs) s s' evs" "init_neutral (ch_contract E)" "\<And>c. c \<in> set cs \<Longrightarrow> \<not> revoke_call c"
    and "GrantOwner selector x \<in> set cs"
  shows "is_owner s' selector x"
  using run_call_effect [OF assms(1-4)] by (auto simp: grant_owner_def grows_def is_owner_def split: if_splits)

lemma run_init:
  assumes "run_calls E (map WorldCall cs) s s' evs" "init_neutral (ch_contract E)" "\<And>c. c \<in> set cs \<Longrightarrow> \<not> revoke_call c"
    and "InitContract selector args \<in> set cs"
  shows "selector \<in> ws_initialized s'"
proof -
  obtain s1 s2 e where x: "init_contract (ch_contract E) (ch_account E) selector args s1 = Some (s2, e)" "grows s2 s'"
    using run_call_effect [OF assms(1-4)] by auto
  from x(1) have "selector \<in> ws_initialized s2"
    by (auto simp: init_contract_def split: option.splits world_resource.splits if_splits)
  with x(2) show ?thesis by (auto simp: grows_def)
qed

lemma run_register:
  assumes "run_calls E (map WorldCall cs) s s' evs" "init_neutral (ch_contract E)" "\<And>c. c \<in> set cs \<Longrightarrow> \<not> revoke_call c"
    and "RegisterContract salt ns ch \<in> set cs" "class_selector (ch_contract E) ns ch = {selector}"
  shows "\<exists>nh. ws_resources s' selector = Some (ResContract (contract_address_of (ce_addresses (ch_contract E)) salt ch [] (ce_world (ch_contract E))) nh)"
proof -
  obtain s1 s2 e where x: "ws_register_contract (ch_contract E) (ch_account E) salt ns ch s1 = Some (s2, e)" "grows s2 s'"
    using run_call_effect [OF assms(1-4)] by auto
  obtain name sel where r: "registered (ch_contract E) (ch_account E) ns ch ResContract name sel
      (contract_address_of (ce_addresses (ch_contract E)) salt ch [] (ce_world (ch_contract E))) s1 s2"
    using register_contract_effect [OF x(1)] by blast
  with registered_selector [OF r] assms(5) x(2) show ?thesis by (auto simp: registered_def grows_def)
qed

section \<open>What the plans contain\<close>

definition grants_planned :: "('c, 'f, 'x) chain_env \<Rightarrow> 'c migration \<Rightarrow> felt \<Rightarrow> world_call set \<Rightarrow> bool" where
  "grants_planned E M selector calls \<longleftrightarrow>
     (\<exists>ws os. get_writers (ce_naming (ch_contract E)) (ce_addresses (ch_contract E)) (mg_diff M) selector = Some ws \<and>
        get_owners (ce_naming (ch_contract E)) (ce_addresses (ch_contract E)) (mg_diff M) selector = Some os \<and>
        (\<forall>g \<in> set (only_local ws). GrantWriter selector (pg_address g) \<in> calls) \<and>
        (\<forall>g \<in> set (only_local os). GrantOwner selector (pg_address g) \<in> calls))"

lemma permissions_step:
  assumes "permissions_getcalls E M ((selector, r) # rs) calls = Some calls'"
  obtains calls1 where "permissions_getcalls E M rs calls1 = Some calls'" "set calls \<subseteq> set calls1"
    "\<not> is_skipped (mg_profile M) (rd_tag r) \<longrightarrow> grants_planned E M selector (set calls1)"
proof (cases "is_skipped (mg_profile M) (rd_tag r)")
  case True
  then show ?thesis using assms that by auto
next
  case False
  with assms obtain ws os where g:
    "get_writers (ce_naming (ch_contract E)) (ce_addresses (ch_contract E)) (mg_diff M) selector = Some ws"
    "get_owners (ce_naming (ch_contract E)) (ce_addresses (ch_contract E)) (mg_diff M) selector = Some os"
    "permissions_getcalls E M rs (calls @ map (\<lambda>p. GrantWriter selector (pg_address p)) (only_local ws)
      @ map (\<lambda>p. GrantOwner selector (pg_address p)) (only_local os)) = Some calls'"
    by (auto simp: bind_eq_Some_conv)
  show ?thesis by (rule that [OF g(3)]) (use g(1,2) in \<open>auto simp: grants_planned_def\<close>)
qed

lemma permissions_keep: "permissions_getcalls E M rs calls = Some calls' \<Longrightarrow> set calls \<subseteq> set calls'"
proof (induction rs arbitrary: calls)
  case (Cons x rs)
  obtain selector r where x: "x = (selector, r)" by (cases x)
  from Cons.prems obtain calls1 where "permissions_getcalls E M rs calls1 = Some calls'" "set calls \<subseteq> set calls1"
    unfolding x by (rule permissions_step)
  with Cons.IH show ?case by blast
qed simp

lemma permissions_plan:
  assumes "permissions_getcalls E M rs calls = Some calls'" "(selector, r) \<in> set rs" "\<not> is_skipped (mg_profile M) (rd_tag r)"
  shows "grants_planned E M selector (set calls')"
  using assms(1,2)
proof (induction rs arbitrary: calls)
  case (Cons x rs)
  obtain sel0 r0 where x: "x = (sel0, r0)" by (cases x)
  from Cons.prems(1) obtain calls1 where c: "permissions_getcalls E M rs calls1 = Some calls'"
    "\<not> is_skipped (mg_profile M) (rd_tag r0) \<longrightarrow> grants_planned E M sel0 (set calls1)"
    unfolding x by (rule permissions_step)
  show ?case
  proof (cases "x = (selector, r)")
    case True
    then have "grants_planned E M selector (set calls1)" using c(2) x assms(3) by simp
    with permissions_keep [OF c(1)] show ?thesis unfolding grants_planned_def by blast
  next
    case False
    then show ?thesis using Cons.IH [OF c(1)] Cons.prems(2) by simp
  qed
qed simp

lemma position_tag: "position (\<lambda>t. t = tag) tags = Some i \<Longrightarrow> i < length tags \<and> tags ! i = tag"
proof -
  assume p: "position (\<lambda>t. t = tag) tags = Some i"
  then have i: "i = length (takeWhile (\<lambda>t. t \<noteq> tag) tags)" "i < length tags"
    by (auto simp: position_def Let_def split: if_splits)
  then show ?thesis using nth_length_takeWhile [of "\<lambda>t. t \<noteq> tag" tags] by simp
qed

text \<open>With distinct tags no initialization of an ordered contract replaces another.\<close>

lemma init_plan_keeps:
  assumes "init_getcalls E conf rs ordered calls = Ok (ordered', calls')"
  shows "set calls \<subseteq> set calls' \<and> (\<forall>i c. map_of ordered i = Some c \<longrightarrow>
    (\<forall>(s, r) \<in> set rs. position (\<lambda>t. t = rd_tag r) (ordered_init_tags conf) \<noteq> Some i) \<longrightarrow> map_of ordered' i = Some c)"
  using assms
proof (induction rs arbitrary: ordered calls)
  case (Cons x rs)
  obtain selector r where x: "x = (selector, r)" by (cases x)
  show ?case
  proof (cases "rd_resource_type r \<noteq> RT_Contract \<or> is_skipped conf (rd_tag r) \<or> \<not> do_init r")
    case True
    then show ?thesis using Cons x by auto
  next
    case False
    with Cons.prems x obtain args where a: "init_args E conf (rd_tag r) = Ok args" by (cases "init_args E conf (rd_tag r)") auto
    show ?thesis
    proof (cases "position (\<lambda>t. t = rd_tag r) (ordered_init_tags conf)")
      case None
      then have "init_getcalls E conf rs ordered (calls @ [InitContract selector args]) = Ok (ordered', calls')"
        using a Cons.prems False x by (simp add: add_call_def)
      from Cons.IH [OF this] show ?thesis by auto
    next
      case (Some i)
      then have "init_getcalls E conf rs (AList.update i (InitContract selector args) ordered) calls = Ok (ordered', calls')"
        using a Cons.prems False x by simp
      from Cons.IH [OF this] show ?thesis using Some x by (auto simp: update_conv')
    qed
  qed
qed auto

lemma init_plan_contains:
  assumes "init_getcalls E conf rs ordered calls = Ok (ordered', calls')" "distinct (map (rd_tag \<circ> snd) rs)"
    and "(selector, r) \<in> set rs" "rd_resource_type r = RT_Contract" "\<not> is_skipped conf (rd_tag r)" "do_init r"
  shows "\<exists>args. InitContract selector args \<in> snd ` set ordered' \<union> set calls'"
  using assms(1-3)
proof (induction rs arbitrary: ordered calls)
  case (Cons x rs)
  show ?case
  proof (cases "x = (selector, r)")
    case True
    with Cons.prems(1) assms(4-6) obtain args where a: "init_args E conf (rd_tag r) = Ok args" by (cases "init_args E conf (rd_tag r)") auto
    show ?thesis
    proof (cases "position (\<lambda>t. t = rd_tag r) (ordered_init_tags conf)")
      case None
      then have "init_getcalls E conf rs ordered (calls @ [InitContract selector args]) = Ok (ordered', calls')"
        using a Cons.prems(1) assms(4-6) True by (simp add: add_call_def)
      from init_plan_keeps [OF this] show ?thesis by auto
    next
      case (Some i)
      then have n: "init_getcalls E conf rs (AList.update i (InitContract selector args) ordered) calls = Ok (ordered', calls')"
        using a Cons.prems(1) assms(4-6) True by simp
      have "position (\<lambda>t. t = rd_tag r') (ordered_init_tags conf) \<noteq> Some i" if "(s', r') \<in> set rs" for s' r'
      proof
        assume "position (\<lambda>t. t = rd_tag r') (ordered_init_tags conf) = Some i"
        with position_tag [OF this] position_tag [OF Some] have "rd_tag r' = rd_tag r" by simp
        then show False using that Cons.prems(2) True by force
      qed
      then have "\<forall>(s', r') \<in> set rs. position (\<lambda>t. t = rd_tag r') (ordered_init_tags conf) \<noteq> Some i" by blast
      with init_plan_keeps [OF n, THEN conjunct2, THEN spec, THEN spec, of i "InitContract selector args"]
      have "map_of ordered' i = Some (InitContract selector args)" by (simp add: update_conv')
      then show ?thesis by (force dest: map_of_SomeD)
    qed
  next
    case False
    then have rest: "(selector, r) \<in> set rs" "distinct (map (rd_tag \<circ> snd) rs)" using Cons.prems by (auto simp: comp_def)
    obtain ordered1 calls1 where "init_getcalls E conf rs ordered1 calls1 = Ok (ordered', calls')"
      using Cons.prems(1) by (cases x; cases "init_args E conf (rd_tag (snd x))") (auto split: if_splits option.splits)
    then show ?thesis by (rule Cons.IH [OF _ rest(2,1)])
  qed
qed simp

section \<open>The phases\<close>

lemma quiet_grows: "quiet E utf8 m \<Longrightarrow> m ch = (r, ch') \<Longrightarrow> grows (chain_world ch) (chain_world ch')"
  using quietD(3) [of E utf8 m ch r ch'] by (auto simp: grows_def)

lemma plan_items_no_revoke: "c \<in> set (map snd (plan_items rs)) \<Longrightarrow> \<not> revoke_call c"
proof
  assume "c \<in> set (map snd (plan_items rs))" "revoke_call c"
  then obtain selector r where "planned_call selector (diff_local r) (diff_kind r) = Some c" "r \<in> snd ` set rs" by (force simp: plan_items_set)
  with \<open>revoke_call c\<close> show False by (cases "diff_local r"; cases "diff_kind r") auto
qed

lemma neutral_no_revoke: "neutral_call c \<Longrightarrow> \<not> revoke_call c"
  by (cases c) auto

lemma world_phase_grows:
  assumes "(if mg_guest M then step_ret False else ensure_world E M) ch = (Some (Ok b), ch')"
    and "wi_status (world_info (mg_diff M)) \<noteq> NotDeployed" "init_neutral (ch_contract E)"
  shows "grows (chain_world ch) (chain_world ch')"
proof (cases "mg_guest M \<or> wi_status (world_info (mg_diff M)) = WorldSynced")
  case True
  then show ?thesis using assms(1) by (auto simp: ensure_world_def split: if_splits)
next
  case False
  let ?h = "wi_class_hash (world_info (mg_diff M))"
  have "wi_status (world_info (mg_diff M)) = NewVersion" using False assms(2) by (cases "wi_status (world_info (mg_diff M))") auto
  with assms(1) False obtain c u ch1 where d: "declare_class E (ch_account E) c ch = (Some (Ok u), ch1)"
    and m: "send_calls E [WorldCall (UpgradeWorld ?h)] ch1 = (Some (Ok ()), ch')"
    by (auto simp: ensure_world_def Let_def multicall_def elim!: step_then_Ok)
  from send_calls_run [OF m] have "grows (chain_world ch1) (chain_world ch')"
    using run_grows [of E "[UpgradeWorld ?h]"] assms(3) by auto
  with quiet_grows [OF quiet_declare d] show ?thesis by (blast intro: grows_trans)
qed

lemma udc_grows:
  assumes "run_calls E cs s s' evs'" "\<And>c. c \<in> set cs \<Longrightarrow> \<exists>h salt d p. c = UdcDeploy h salt d p"
    and "ws_class_at s (ce_world (ch_contract E)) \<noteq> None"
  shows "grows s s'"
  using assms
proof (induction cs arbitrary: s evs')
  case Nil
  then show ?case by (auto elim: run_nilE)
next
  case (Cons c cs)
  from Cons.prems(2) [of c] obtain h salt d p where c: "c = UdcDeploy h salt d p" by auto
  from Cons.prems(1) obtain tx s1 e1 e2 where x: "exec_chain_call E tx c s = Some (s1, e1)" "run_calls E cs s1 s' e2"
    by (auto elim: run_consE)
  from x(1) Cons.prems(3) have "grows s s1" "ws_class_at s1 (ce_world (ch_contract E)) \<noteq> None"
    unfolding c by (auto simp: Let_def grows_def split: if_splits)
  with Cons.IH [OF x(2)] Cons.prems(2) show ?case by (auto intro: grows_trans)
qed

lemma external_grows:
  assumes "sync_external_contracts E M ch = (Some (Ok b), ch')" "chain_ok E utf8 ch"
    and names: "\<forall>n. is_name_valid n \<longrightarrow> utf8 n" "init_neutral (ch_contract E)"
  shows "grows (chain_world ch) (chain_world ch')"
proof -
  obtain classes u ch1 calls ch2 u' where p: "declare_classes E classes ch = (Some (Ok u), ch1)"
    "external_getcalls E (wd_external_contracts (mg_diff M)) [] ch1 = (Some (Ok calls), ch2)"
    "send_plan E M calls ch2 = (Some (Ok u'), ch')"
    using assms(1) by (auto simp: sync_external_contracts_def elim!: step_then_Ok)
  have ok: "chain_ok E utf8 ch2" using quietD(2) [OF quiet_external_getcalls p(2)] quietD(2) [OF quiet_declare_classes p(1)] assms(2) by blast
  have "ws_class_at (chain_world ch2) (ce_world (ch_contract E)) \<noteq> None"
    using history_inv [OF ok [unfolded chain_ok_def] names(1) [rule_format] names(2), of 0] by (auto simp: state_inv_def)
  moreover obtain evs where "run_calls E calls (chain_world ch2) (chain_world ch') evs"
    using send_plan_run [OF p(3)] by blast
  ultimately have "grows (chain_world ch2) (chain_world ch')"
    using external_getcalls_udc [OF p(2)] by (intro udc_grows) auto
  with quiet_grows [OF quiet_declare_classes p(1)] quiet_grows [OF quiet_external_getcalls p(2)] show ?thesis
    by (blast intro: grows_trans)
qed

text \<open>An entry that was found on the chain says what the storage holds.\<close>

lemma found_entry:
  assumes "chain_ok E utf8 ch" "chain_reads E utf8 a ch w" "map_of (wr_resources w) selector = Some rr"
    and names: "\<forall>n. is_name_valid n \<longrightarrow> utf8 n" "init_neutral (ch_contract E)"
  shows "\<exists>r. ws_resources (chain_world ch) selector = Some r \<and> resource_matches (chain_world ch) selector r rr"
proof -
  obtain w' where w': "chain_reads E utf8 a ch w'" "remote_inv (ch_contract E) {} (chain_world ch) w'"
    using history_inv [OF assms(1) [unfolded chain_ok_def] names(1) [rule_format] names(2), of a] unfolding chain_reads_def by blast
  have "w' = w" using chain_reads_unique [OF assms(2) w'(1)] .
  with w'(2) assms(3) have "known_resource (ch_contract E) (chain_world ch) selector"
    using remote_lookup_iff [of "ch_contract E" "{}" "chain_world ch" w selector] by simp
  with known_in_remote [OF w'(2)] assms(3) \<open>w' = w\<close> show ?thesis by (metis option.inject)
qed

lemma those_map_in: "those (map f xs) = Some ys \<Longrightarrow> x \<in> set xs \<Longrightarrow> \<exists>y \<in> set ys. f x = Some y"
  by (auto simp: those_map_eq_Some) (metis (no_types, lifting) imageE image_eqI list.set_map)

lemma resolved_remote_address: "resolve_remote_grantee A d x = Some g \<Longrightarrow> pg_address g = x"
  by (auto simp: resolve_remote_grantee_def bind_eq_Some_conv split: option.splits)

lemma permissions_split:
  assumes "diff_permissions_of N A d tags addresses = Some p"
  shows "tag \<in> set tags \<Longrightarrow> \<exists>g \<in> set (dp_local p). resolve_local_grantee N A d tag = Some g"
    "g \<in> set (dp_remote p) \<Longrightarrow> pg_address g \<in> set addresses"
proof -
  obtain ls rs where p: "those (map (resolve_local_grantee N A d) tags) = Some ls"
    "those (map (resolve_remote_grantee A d) addresses) = Some rs" "p = \<lparr>dp_local = ls, dp_remote = rs\<rparr>"
    using assms by (auto simp: diff_permissions_of_def bind_eq_Some_conv)
  show "tag \<in> set tags \<Longrightarrow> \<exists>g \<in> set (dp_local p). resolve_local_grantee N A d tag = Some g"
    using those_map_in [OF p(1)] p(3) by auto
  assume "g \<in> set (dp_remote p)"
  then have "Some g \<in> set (map (resolve_remote_grantee A d) addresses)" using p(2,3) those_Some_in by fastforce
  then obtain x where x: "x \<in> set addresses" "resolve_remote_grantee A d x = Some g" by auto
  with resolved_remote_address [OF x(2)] show "pg_address g \<in> set addresses" by simp
qed

lemma only_local_cases: "g \<in> set (dp_local p) \<Longrightarrow> g \<in> set (only_local p) \<or> g \<in> set (dp_remote p)"
  by (auto simp: only_local_def)

section \<open>A migration applies the configuration\<close>

fun diff_remote :: "'c resource_diff \<Rightarrow> resource_remote option" where
  "diff_remote (Created _) = None"
| "diff_remote (Updated _ rr) = Some rr"
| "diff_remote (Synced _ rr) = Some rr"

lemma get_writers_of:
  assumes "get_writers N A d selector = Some p" "map_of (wd_resources d) selector = Some r"
  obtains addresses where "diff_permissions_of N A d (get_local_writers (wd_profile_config d) (rd_tag r)) addresses = Some p"
    "\<forall>x \<in> set addresses. \<exists>rr. diff_remote r = Some rr \<and> x \<in> set (rr_writers rr)"
  using assms by (cases r) (auto simp: get_writers_def Let_def bind_eq_Some_conv rr_get_writers_def)

lemma get_owners_of:
  assumes "get_owners N A d selector = Some p" "map_of (wd_resources d) selector = Some r"
  obtains addresses where "diff_permissions_of N A d (get_local_owners (wd_profile_config d) (rd_tag r)) addresses = Some p"
    "\<forall>x \<in> set addresses. \<exists>rr. diff_remote r = Some rr \<and> x \<in> set (rr_owners rr)"
  using assms by (cases r) (auto simp: get_owners_def Let_def bind_eq_Some_conv rr_get_owners_def)

lemma grantee_holds:
  assumes "diff_permissions_of N A d tags addresses = Some p" "tag \<in> set tags"
    and "\<forall>x \<in> set (only_local p). P (pg_address x)" "\<forall>x \<in> set addresses. P x"
  shows "\<exists>g. resolve_local_grantee N A d tag = Some g \<and> P (pg_address g)"
proof -
  from permissions_split(1) [OF assms(1,2)] obtain x where x: "x \<in> set (dp_local p)" "resolve_local_grantee N A d tag = Some x" by blast
  have "P (pg_address x)"
    using only_local_cases [OF x(1)] permissions_split(2) [OF assms(1)] assms(3,4) by blast
  with x(2) show ?thesis by blast
qed

lemma permissions_hold:
  assumes "sync_permissions E M ch = (Some (Ok b), ch')" "init_neutral (ch_contract E)"
    and r: "(selector, r) \<in> set (wd_resources (mg_diff M))" "distinct (map fst (wd_resources (mg_diff M)))" "\<not> is_skipped (mg_profile M) (rd_tag r)"
    and old: "\<forall>rr x. diff_remote r = Some rr \<longrightarrow> x \<in> set (rr_writers rr) \<longrightarrow> is_writer (chain_world ch) selector x"
      "\<forall>rr x. diff_remote r = Some rr \<longrightarrow> x \<in> set (rr_owners rr) \<longrightarrow> is_owner (chain_world ch) selector x"
  defines "N \<equiv> ce_naming (ch_contract E)" and "A \<equiv> ce_addresses (ch_contract E)"
  shows "grows (chain_world ch) (chain_world ch')"
    and "tag \<in> set (get_local_writers (wd_profile_config (mg_diff M)) (rd_tag r)) \<Longrightarrow>
      \<exists>g. resolve_local_grantee N A (mg_diff M) tag = Some g \<and> is_writer (chain_world ch') selector (pg_address g)"
    and "tag \<in> set (get_local_owners (wd_profile_config (mg_diff M)) (rd_tag r)) \<Longrightarrow>
      \<exists>g. resolve_local_grantee N A (mg_diff M) tag = Some g \<and> is_owner (chain_world ch') selector (pg_address g)"
proof -
  obtain calls u where c: "permissions_getcalls E M (wd_resources (mg_diff M)) [] = Some calls"
    "send_plan E M (map WorldCall calls) ch = (Some (Ok u), ch')"
    using assms(1) by (auto simp: sync_permissions_def elim!: step_then_Ok)
  obtain evs where run: "run_calls E (map WorldCall calls) (chain_world ch) (chain_world ch') evs"
    using send_plan_run [OF c(2)] by blast
  have nr: "\<not> revoke_call k" if "k \<in> set calls" for k
    using permissions_neutral [OF c(1)] neutral_no_revoke that by auto
  show g: "grows (chain_world ch) (chain_world ch')" by (rule run_grows [OF run assms(2) nr])
  have look: "map_of (wd_resources (mg_diff M)) selector = Some r" using r(1,2) by simp
  from permissions_plan [OF c(1) r(1,3)] obtain ws os where p: "get_writers N A (mg_diff M) selector = Some ws"
    "get_owners N A (mg_diff M) selector = Some os"
    "\<And>x. x \<in> set (only_local ws) \<Longrightarrow> GrantWriter selector (pg_address x) \<in> set calls"
    "\<And>x. x \<in> set (only_local os) \<Longrightarrow> GrantOwner selector (pg_address x) \<in> set calls"
    unfolding grants_planned_def N_def A_def by blast
  have old': "is_writer (chain_world ch') selector x" if "diff_remote r = Some rr" "x \<in> set (rr_writers rr)" for rr x
    using old(1) that g by (auto simp: grows_def is_writer_def)
  have old'': "is_owner (chain_world ch') selector x" if "diff_remote r = Some rr" "x \<in> set (rr_owners rr)" for rr x
    using old(2) that g by (auto simp: grows_def is_owner_def)
  { assume t: "tag \<in> set (get_local_writers (wd_profile_config (mg_diff M)) (rd_tag r))"
    obtain addresses where a: "diff_permissions_of N A (mg_diff M) (get_local_writers (wd_profile_config (mg_diff M)) (rd_tag r)) addresses = Some ws"
      "\<forall>x \<in> set addresses. \<exists>rr. diff_remote r = Some rr \<and> x \<in> set (rr_writers rr)"
      using p(1) look by (rule get_writers_of)
    show "\<exists>g. resolve_local_grantee N A (mg_diff M) tag = Some g \<and> is_writer (chain_world ch') selector (pg_address g)"
      by (rule grantee_holds [OF a(1) t]) (use run_grant_writer [OF run assms(2)] nr p(3) old' a(2) in blast)+ }
  { assume t: "tag \<in> set (get_local_owners (wd_profile_config (mg_diff M)) (rd_tag r))"
    obtain addresses where a: "diff_permissions_of N A (mg_diff M) (get_local_owners (wd_profile_config (mg_diff M)) (rd_tag r)) addresses = Some os"
      "\<forall>x \<in> set addresses. \<exists>rr. diff_remote r = Some rr \<and> x \<in> set (rr_owners rr)"
      using p(2) look by (rule get_owners_of)
    show "\<exists>g. resolve_local_grantee N A (mg_diff M) tag = Some g \<and> is_owner (chain_world ch') selector (pg_address g)"
      by (rule grantee_holds [OF a(1) t]) (use run_grant_owner [OF run assms(2)] nr p(4) old'' a(2) in blast)+ }
qed

lemma initialize_hold:
  assumes "initialize_contracts E M ch = (Some (Ok b), ch')" "init_neutral (ch_contract E)"
  shows "grows (chain_world ch) (chain_world ch')"
    and "(selector, r) \<in> set (wd_resources (mg_diff M)) \<Longrightarrow> distinct (map (rd_tag \<circ> snd) (wd_resources (mg_diff M))) \<Longrightarrow>
      rd_resource_type r = RT_Contract \<Longrightarrow> \<not> is_skipped (mg_profile M) (rd_tag r) \<Longrightarrow> do_init r \<Longrightarrow> selector \<in> ws_initialized (chain_world ch')"
proof -
  obtain ordered calls where p: "init_getcalls E (mg_profile M) (wd_resources (mg_diff M)) [] [] = Ok (ordered, calls)"
    and s: "(if init_plan (ordered, calls) = [] then step_ret False
       else step_then (send_plan E M (map WorldCall (init_plan (ordered, calls)))) (\<lambda>_. step_ret True)) ch = (Some (Ok b), ch')"
    using assms(1) by (cases "init_getcalls E (mg_profile M) (wd_resources (mg_diff M)) [] []") (auto simp: initialize_contracts_def elim!: step_then_Ok)
  have set: "set (init_plan (ordered, calls)) = snd ` set ordered \<union> set calls"
    using init_getcalls_distinct [OF p] by (simp add: init_plan_set)
  have nr: "\<not> revoke_call c" if "c \<in> set (init_plan (ordered, calls))" for c
    using init_getcalls_neutral [OF p, of c] neutral_no_revoke that set by simp
  obtain evs where run: "run_calls E (map WorldCall (init_plan (ordered, calls))) (chain_world ch) (chain_world ch') evs"
  proof (cases "init_plan (ordered, calls) = []")
    case True
    then show ?thesis using that s run_nil by auto
  next
    case False
    then show ?thesis using that s send_plan_run by (fastforce elim!: step_then_Ok)
  qed
  show "grows (chain_world ch) (chain_world ch')" by (rule run_grows [OF run assms(2) nr])
  assume r: "(selector, r) \<in> set (wd_resources (mg_diff M))" "distinct (map (rd_tag \<circ> snd) (wd_resources (mg_diff M)))"
    "rd_resource_type r = RT_Contract" "\<not> is_skipped (mg_profile M) (rd_tag r)" "do_init r"
  from init_plan_contains [OF p r(2,1,3-5)] obtain args where "InitContract selector args \<in> set (init_plan (ordered, calls))"
    using set by blast
  from run_init [OF run assms(2) nr this] show "selector \<in> ws_initialized (chain_world ch')" .
qed

text \<open>A contract that is registered gets the address computed for it beforehand.\<close>

lemma sync_hold:
  assumes "(if is_synced (mg_diff M) then step_ret False else sync_resources E M) ch = (Some (Ok b), ch')" "init_neutral (ch_contract E)"
    and rs: "plan_wf (ch_contract E) utf8 w (wd_resources (mg_diff M))"
    and ns: "wd_namespaces (mg_diff M) = map fst (namespace_part (wd_resources (mg_diff M)))"
  shows "grows (chain_world ch) (chain_world ch')"
    and "(selector, Created (ContractLocal c sys)) \<in> set (wd_resources (mg_diff M)) \<Longrightarrow>
      \<not> is_skipped (mg_profile M) (rd_tag (Created (ContractLocal c sys))) \<Longrightarrow>
      \<exists>nh. ws_resources (chain_world ch') selector =
        Some (ResContract (contract_address_of (ce_addresses (ch_contract E)) selector (cl_class_hash c) [] (ce_world (ch_contract E))) nh)"
proof -
  have "grows (chain_world ch) (chain_world ch') \<and> ((selector, Created (ContractLocal c sys)) \<in> set (wd_resources (mg_diff M)) \<longrightarrow>
      \<not> is_skipped (mg_profile M) (rd_tag (Created (ContractLocal c sys))) \<longrightarrow>
      (\<exists>nh. ws_resources (chain_world ch') selector =
        Some (ResContract (contract_address_of (ce_addresses (ch_contract E)) selector (cl_class_hash c) [] (ce_world (ch_contract E))) nh)))"
  proof (cases "is_synced (mg_diff M)")
    case True
    then show ?thesis using assms(1) by (auto simp: is_synced_def list_all_iff)
  next
    case False
    let ?rs = "namespace_part (wd_resources (mg_diff M)) @ class_part (mg_profile M) (wd_resources (mg_diff M))"
    have "sync_resources E M ch = (Some (Ok b), ch')" using assms(1) False by simp
    then obtain classes ch1 u u' where p: "declare_classes E classes ch = (Some (Ok u), ch1)"
      "send_plan E M (map (WorldCall \<circ> snd) (plan_items ?rs)) ch1 = (Some (Ok u'), ch')"
      using refl rs ns by (rule sync_resources_calls)
    obtain evs where run: "run_calls E (map WorldCall (map snd (plan_items ?rs))) (chain_world ch1) (chain_world ch') evs"
      using send_plan_run [OF p(2)] by auto
    have "grows (chain_world ch1) (chain_world ch')" by (rule run_grows [OF run assms(2) plan_items_no_revoke])
    with quiet_grows [OF quiet_declare_classes p(1)] have g: "grows (chain_world ch) (chain_world ch')" by (blast intro: grows_trans)
    have "\<exists>nh. ws_resources (chain_world ch') selector =
        Some (ResContract (contract_address_of (ce_addresses (ch_contract E)) selector (cl_class_hash c) [] (ce_world (ch_contract E))) nh)"
      if r: "(selector, Created (ContractLocal c sys)) \<in> set (wd_resources (mg_diff M))" "\<not> is_skipped (mg_profile M) (rd_tag (Created (ContractLocal c sys)))"
    proof -
      have fits: "resource_fits (ch_contract E) utf8 (ContractLocal c sys)" "rl_dojo_selector (ce_naming (ch_contract E)) (ContractLocal c sys) = Some selector"
        using rs r(1) by (auto simp: plan_wf_def)
      have "(selector, Created (ContractLocal c sys)) \<in> set ?rs" using r by (auto simp: class_part_def rd_resource_type_def)
      then have "(selector, RegisterContract selector (cl_namespace c) (cl_class_hash c)) \<in> set (plan_items ?rs)"
        unfolding plan_items_set by (intro exI [of _ "Created (ContractLocal c sys)"] conjI) simp_all
      then have "RegisterContract selector (cl_namespace c) (cl_class_hash c) \<in> set (map snd (plan_items ?rs))" by force
      moreover have "class_selector (ch_contract E) (cl_namespace c) (cl_class_hash c) = {selector}"
        using planned_touches [OF fits, of NewResource] by simp
      ultimately show ?thesis by (intro run_register [OF run assms(2)]) (use plan_items_no_revoke in blast)+
    qed
    with g show ?thesis by blast
  qed
  then show "grows (chain_world ch) (chain_world ch')" "(selector, Created (ContractLocal c sys)) \<in> set (wd_resources (mg_diff M)) \<Longrightarrow>
      \<not> is_skipped (mg_profile M) (rd_tag (Created (ContractLocal c sys))) \<Longrightarrow>
      \<exists>nh. ws_resources (chain_world ch') selector =
        Some (ResContract (contract_address_of (ce_addresses (ch_contract E)) selector (cl_class_hash c) [] (ce_world (ch_contract E))) nh)"
    by blast+
qed

lemma phases_ok:
  assumes "(if mg_guest M then step_ret False else ensure_world E M) ch = (Some (Ok b1), ch1)"
    "(if is_synced (mg_diff M) then step_ret False else sync_resources E M) ch1 = (Some (Ok b2), ch2)"
    "sync_permissions E M ch2 = (Some (Ok b3), ch3)" "initialize_contracts E M ch3 = (Some (Ok b4), ch4)"
    and chain: "chain_ok E utf8 ch" "chain_reads E utf8 a ch w" and names: "\<forall>n. is_name_valid n \<longrightarrow> utf8 n" "init_neutral (ch_contract E)"
    and diff: "diff_new l w = Some (mg_diff M)"
    and plan: "plan_wf (ch_contract E) utf8 w (wd_resources (mg_diff M))"
      "wd_namespaces (mg_diff M) = map fst (namespace_part (wd_resources (mg_diff M)))"
      "wi_status (world_info (mg_diff M)) \<noteq> NotDeployed" "wi_class_hash (world_info (mg_diff M)) = wl_class_hash l"
      "wi_status (world_info (mg_diff M)) = WorldSynced \<longleftrightarrow> wr_current_class_hash w = Some (wl_class_hash l)"
  shows "chain_ok E utf8 ch4"
proof -
  obtain w1 where w1: "chain_ok E utf8 ch1" "chain_reads E utf8 a ch1 w1" "wr_resources w1 = wr_resources w"
    using first_phase [OF assms(1) chain names diff plan(3-5)] by blast
  have "plan_wf (ch_contract E) utf8 w1 (wd_resources (mg_diff M))" using plan(1) w1(3) by (simp add: plan_wf_def)
  from synced_sync [OF assms(2) w1(1,2) this plan(2) names] obtain w2 where w2: "chain_ok E utf8 ch2" "chain_reads E utf8 a ch2 w2" by blast
  from permissions_phase [OF assms(3) w2 names] obtain w3 where "chain_ok E utf8 ch3" "chain_reads E utf8 a ch3 w3"
    by (auto simp: leaves_status_def)
  from initialize_phase [OF assms(4) this names] show ?thesis by (auto simp: leaves_status_def)
qed

lemma diff_tags_distinct:
  assumes "diff_new l w = Some d" "local_wf E (wl_resources l)" "distinct (map (rl_tag \<circ> snd) (wl_resources l))"
  shows "distinct (map (rd_tag \<circ> snd) (wd_resources d))"
proof -
  have dist: "distinct (map fst (wl_resources l))" using assms(2) by (simp add: local_wf_def)
  obtain ds where ds: "diff_resources (wl_resources l) (wr_resources w) = Some ds" "wd_resources d = ds"
    using assms(1) by (auto simp: diff_new_def bind_eq_Some_conv)
  have "map (rl_tag \<circ> snd) (wl_resources l) = map (rd_tag \<circ> snd) ds"
    unfolding diff_resources_locals [OF dist ds(1), symmetric] by (simp add: rd_tag_def comp_def case_prod_beta)
  then show ?thesis using assms(3) ds(2) by simp
qed

text \<open>The address of a contract, in the difference and in the storage after the resources are synced.\<close>

lemma contract_address_hold:
  assumes plan: "plan_wf (ch_contract E) utf8 w (wd_resources (mg_diff M))" and r: "(selector, r) \<in> set (wd_resources (mg_diff M))"
    "rd_resource_type r = RT_Contract" "\<not> is_skipped (mg_profile M) (rd_tag r)"
    and world: "wi_address (world_info (mg_diff M)) = ce_world (ch_contract E)"
    and new: "\<And>c sys. r = Created (ContractLocal c sys) \<Longrightarrow> \<exists>nh. ws_resources s selector =
        Some (ResContract (contract_address_of (ce_addresses (ch_contract E)) selector (cl_class_hash c) [] (ce_world (ch_contract E))) nh)"
    and old: "\<And>rr. diff_remote r = Some rr \<Longrightarrow> \<exists>x. ws_resources s0 selector = Some x \<and> resource_matches s0 selector x rr"
    and grows: "grows s0 s"
  shows "\<exists>x nh. get_contract_address (ce_addresses (ch_contract E)) (mg_diff M) selector = Some (Some x) \<and> ws_resources s selector = Some (ResContract x nh)"
    and "\<not> do_init r \<Longrightarrow> selector \<in> ws_initialized s"
proof -
  have look: "map_of (wd_resources (mg_diff M)) selector = Some r" using plan r(1) by (simp add: plan_wf_def)
  obtain c sys where l: "diff_local r = ContractLocal c sys" using r(2) by (cases "diff_local r") (auto simp: rd_resource_type_def)
  have one: "diff_one (ContractLocal c sys) (map_of (wr_resources w) selector) = Some r" using plan r(1) l by (auto simp: plan_wf_def)
  have remote: "\<exists>k i. rr = ContractRemote k i" if "diff_remote r = Some rr" for rr
    using one that by (cases r; cases rr) (auto simp: diff_one_def compare_class_def bind_eq_Some_conv split: option.splits if_splits)
  have "(\<exists>x nh. get_contract_address (ce_addresses (ch_contract E)) (mg_diff M) selector = Some (Some x) \<and> ws_resources s selector = Some (ResContract x nh)) \<and>
    (\<not> do_init r \<longrightarrow> selector \<in> ws_initialized s)"
  proof (cases "diff_remote r")
    case None
    then have "r = Created (ContractLocal c sys)" using l by (cases r) auto
    then show ?thesis using new look r(2) world by (auto simp: get_contract_address_def do_init_def compute_dojo_contract_address_def)
  next
    case (Some rr)
    with remote obtain k i where rr: "rr = ContractRemote k i" by blast
    from old [OF Some] obtain x where x: "ws_resources s0 selector = Some x" "resource_matches s0 selector x (ContractRemote k i)"
      unfolding rr by blast
    then obtain nh where m: "ws_resources s0 selector = Some (ResContract (cr_address k) nh)" "i \<longleftrightarrow> selector \<in> ws_initialized s0"
      by (cases x) (auto simp: resource_matches_def)
    have "get_contract_address (ce_addresses (ch_contract E)) (mg_diff M) selector = Some (Some (cr_address k))"
      using look r(2) Some rr by (cases r) (auto simp: get_contract_address_def)
    moreover have "\<not> do_init r \<longrightarrow> i" using Some rr by (cases r) (auto simp: do_init_def)
    ultimately show ?thesis using m grows by (auto simp: grows_def)
  qed
  then show "\<exists>x nh. get_contract_address (ce_addresses (ch_contract E)) (mg_diff M) selector = Some (Some x) \<and> ws_resources s selector = Some (ResContract x nh)"
    "\<not> do_init r \<Longrightarrow> selector \<in> ws_initialized s" by blast+
qed

text \<open>C10: A migration that returns leaves the world configured as the profile says.  For every resource that
  is not skipped, the contracts listed as its writers and owners hold these rights in the storage of the
  world contract, whether they were granted before or by this migration; every contract that is not
  skipped is initialized, and is registered at the address the difference computes for it.\<close>

theorem migration_configures:
  assumes chain: "chain_ok E utf8 ch" "chain_reads E utf8 a ch w"
    and names: "\<forall>n. is_name_valid n \<longrightarrow> utf8 n" "init_neutral (ch_contract E)"
    and local: "local_wf (ce_naming (ch_contract E)) (wl_resources l)"
      "\<forall>(selector, r) \<in> set (wl_resources l). resource_fits (ch_contract E) utf8 r"
      "distinct (map (rl_tag \<circ> snd) (wl_resources l))"
    and diff: "diff_new l w = Some (mg_diff M)" "wi_address (world_info (mg_diff M)) = ce_world (ch_contract E)"
    and result: "migrate abi_of E M ch = (Some (Ok outcome), ch')"
    and r: "(selector, r) \<in> set (wd_resources (mg_diff M))" "\<not> is_skipped (mg_profile M) (rd_tag r)"
  shows "(\<forall>tag \<in> set (get_local_writers (wd_profile_config (mg_diff M)) (rd_tag r)).
      \<exists>g. resolve_local_grantee (ce_naming (ch_contract E)) (ce_addresses (ch_contract E)) (mg_diff M) tag = Some g \<and> is_writer (chain_world ch') selector (pg_address g)) \<and>
    (\<forall>tag \<in> set (get_local_owners (wd_profile_config (mg_diff M)) (rd_tag r)).
      \<exists>g. resolve_local_grantee (ce_naming (ch_contract E)) (ce_addresses (ch_contract E)) (mg_diff M) tag = Some g \<and> is_owner (chain_world ch') selector (pg_address g)) \<and>
    (rd_resource_type r = RT_Contract \<longrightarrow> selector \<in> ws_initialized (chain_world ch') \<and>
      (\<exists>x nh. get_contract_address (ce_addresses (ch_contract E)) (mg_diff M) selector = Some (Some x) \<and>
        ws_resources (chain_world ch') selector = Some (ResContract x nh)))"
proof -
  note plan = diff_new_plan [OF diff(1) local(1,2)]
  obtain b1 ch1 b2 ch2 b3 ch3 b4 ch4 b5 where p: "(if mg_guest M then step_ret False else ensure_world E M) ch = (Some (Ok b1), ch1)"
    "(if is_synced (mg_diff M) then step_ret False else sync_resources E M) ch1 = (Some (Ok b2), ch2)"
    "sync_permissions E M ch2 = (Some (Ok b3), ch3)" "initialize_contracts E M ch3 = (Some (Ok b4), ch4)"
    "sync_external_contracts E M ch4 = (Some (Ok b5), ch')"
    using result by (rule migrate_phases)
  have dist: "distinct (map fst (wd_resources (mg_diff M)))" using plan(1) by (simp add: plan_wf_def)
  have found: "\<exists>x. ws_resources (chain_world ch) selector = Some x \<and> resource_matches (chain_world ch) selector x rr"
    if "diff_remote r = Some rr" for rr
  proof -
    have "diff_one (diff_local r) (map_of (wr_resources w) selector) = Some r" using plan(1) r(1) by (auto simp: plan_wf_def)
    from diff_one_cases [OF this] that have "map_of (wr_resources w) selector = Some rr" by (cases r) auto
    from found_entry [OF chain this names] show ?thesis .
  qed
  have g1: "grows (chain_world ch) (chain_world ch1)" by (rule world_phase_grows [OF p(1) plan(3) names(2)])
  note s2 = sync_hold [OF p(2) names(2) plan(1,2)]
  have g2: "grows (chain_world ch) (chain_world ch2)" using g1 s2(1) by (rule grows_trans)
  have old_w: "\<forall>rr x. diff_remote r = Some rr \<longrightarrow> x \<in> set (rr_writers rr) \<longrightarrow> is_writer (chain_world ch2) selector x"
    using found g2 by (fastforce simp: resource_matches_def grows_def is_writer_def)
  have old_o: "\<forall>rr x. diff_remote r = Some rr \<longrightarrow> x \<in> set (rr_owners rr) \<longrightarrow> is_owner (chain_world ch2) selector x"
    using found g2 by (fastforce simp: resource_matches_def grows_def is_owner_def)
  note s3 = permissions_hold [OF p(3) names(2) r(1) dist r(2) old_w old_o]
  note s4 = initialize_hold [OF p(4) names(2)]
  have ok4: "chain_ok E utf8 ch4" using phases_ok [OF p(1-4) chain names diff(1) plan] .
  have g4: "grows (chain_world ch4) (chain_world ch')" by (rule external_grows [OF p(5) ok4 names])
  have g3: "grows (chain_world ch3) (chain_world ch')" using s4(1) g4 by (rule grows_trans)
  have g2': "grows (chain_world ch2) (chain_world ch')" using s3(1) g3 by (rule grows_trans)
  have "selector \<in> ws_initialized (chain_world ch') \<and>
      (\<exists>x nh. get_contract_address (ce_addresses (ch_contract E)) (mg_diff M) selector = Some (Some x) \<and>
        ws_resources (chain_world ch') selector = Some (ResContract x nh))" if ty: "rd_resource_type r = RT_Contract"
  proof -
    have new: "\<exists>nh. ws_resources (chain_world ch2) selector =
        Some (ResContract (contract_address_of (ce_addresses (ch_contract E)) selector (cl_class_hash c) [] (ce_world (ch_contract E))) nh)"
      if "r = Created (ContractLocal c sys)" for c sys
      using s2(2) r that by blast
    have "\<exists>x nh. get_contract_address (ce_addresses (ch_contract E)) (mg_diff M) selector = Some (Some x) \<and>
        ws_resources (chain_world ch2) selector = Some (ResContract x nh)"
      by (rule contract_address_hold(1) [OF plan(1) r(1) ty r(2) diff(2) _ _ g2]) (erule new, erule found)
    moreover have "selector \<in> ws_initialized (chain_world ch2)" if "\<not> do_init r"
      by (rule contract_address_hold(2) [OF plan(1) r(1) ty r(2) diff(2) _ _ g2 that]) (erule new, erule found)
    moreover have "selector \<in> ws_initialized (chain_world ch4)" if "do_init r"
      by (rule s4(2) [OF r(1) diff_tags_distinct [OF diff(1) local(1,3)] ty r(2) that])
    ultimately show ?thesis using g2' g4 unfolding grows_def by blast
  qed
  moreover have "is_writer (chain_world ch') selector x" if "is_writer (chain_world ch3) selector x" for x
    using that g3 by (auto simp: grows_def is_writer_def)
  moreover have "is_owner (chain_world ch') selector x" if "is_owner (chain_world ch3) selector x" for x
    using that g3 by (auto simp: grows_def is_owner_def)
  ultimately show ?thesis using s3(2,3) by blast
qed

theorem migration_configures_witness:
  "\<exists>m. migrate (\<lambda>_. [] :: unit list) sample_chain_env sample_migration sample_chain = (Some (Ok (True, m)), sample_end) \<and>
    is_writer (chain_world sample_end) (felt 2) (felt 173) \<and>
    felt 103 \<in> ws_initialized (chain_world sample_end) \<and> (\<exists>nh. ws_resources (chain_world sample_end) (felt 103) = Some (ResContract (felt 173) nh))"
proof -
  obtain m where m: "migrate (\<lambda>_. [] :: unit list) sample_chain_env sample_migration sample_chain = (Some (Ok (True, m)), sample_end)"
    using sample_migrated by blast
  note configured = migration_configures [OF sample_migration_chain_ok sample_chain_reads _ _ _ _ _ sample_diff _ m]
  have "is_writer (chain_world sample_end) (felt 2) (felt 173)"
    using configured [of "felt 2" "Created (NamespaceLocal ''ns'')"] sample_local_ok sample_init_neutral
    by (simp add: rd_tag_def rl_tag_def get_local_writers_def tags_for_def resolve_local_grantee_def sample_tag sample_contract_address)
  moreover have "felt 103 \<in> ws_initialized (chain_world sample_end) \<and> (\<exists>nh. ws_resources (chain_world sample_end) (felt 103) = Some (ResContract (felt 173) nh))"
    using configured [of "felt 103" "Created (ContractLocal sample_contract [''act''])"] sample_local_ok sample_init_neutral
    by (simp add: rd_resource_type_def sample_contract_address)
  ultimately show ?thesis using m by blast
qed

end
