(* ===== verification/Spec2Isabelle.thy ===== *)
theory Spec2Isabelle
  imports Block_Refinement Trie_Writer Tx_Pool Stages Da_Blob Torii_Sql Token_Ledger Migration_Rights
begin

text \<open>
  Verification of the cores of Katana (a Starknet sequencer), Torii (an indexer of Dojo worlds) and of
  the migration of Dojo worlds.

  \<^bold>\<open>The program and its parts.\<close>  The repository holds four programs that work on the same chain.
  Katana takes transactions into a pool, executes them into blocks and keeps the blocks and the
  state they produce in a key-value database; it can also fill that database from another node, by
  a pipeline of stages that download blocks and classes from the feeder gateway, and it can publish
  the state differences of its blocks as data availability blobs.  Torii follows the events of a
  world contract, reads the models of the world with the schemas of the dojo types crate and keeps
  them in SQL tables, and books token transfers into a table of balances.  Sozo and the dojo crates
  compile a project to classes and bring it to a chain: they read the deployed world from its events,
  compare it with the project and send the transactions that make up the difference.

  The theories below model the pool, the storage, the tries, the sync pipeline and the data
  availability format of Katana, the schemas, the SQL writer and the token balances of Torii, and the
  reading, comparison and migration of worlds.
  Paths are relative to \<open>src/crates/\<close>.

  \<^bold>\<open>Foundations.\<close>
  \<^item> \<open>Prelude\<close>: names of the machine types (\<open>w word\<close>), Rust's \<open>Result\<close>, panics as the value \<open>None\<close> of an
    option, and the lemmas on lists, words and folds the components share.
  \<^item> \<open>Felt\<close>: the field element of the Starknet types crate, the residues of the prime.
  \<^item> \<open>Ordered_Map\<close>: \<open>BTreeMap\<close> and the byte-ordered tables as lists sorted by key.

  \<^bold>\<open>Database\<close> (\<open>katana/storage/db\<close>).
  \<^item> \<open>Block_List\<close>: \<open>models/list.rs\<close>; \<open>recent_change_from_block\<close> finds the last change at or before a block.
  \<^item> \<open>Codec\<close>: keys and hand-written values as bytes (\<open>codecs/mod.rs\<close>, \<open>models/*.rs\<close>, \<open>version.rs\<close>).  The
    locales \<open>table_key\<close> and \<open>codec\<close> state what the tables rely on: encodings are read back, and the
    order of the bytes is the order of the keys.
  \<^item> \<open>Kv_Table\<close>: \<open>DbTx\<close>, \<open>DbTxMut\<close> and the cursors of \<open>abstraction/\<close> and \<open>mdbx/\<close>, for plain and for
    dupsort tables; the locale \<open>subkeyed\<close> gives the laws of dupsort entries addressed by a subkey.
  \<^item> \<open>Trie_Db\<close>: \<open>trie/mod.rs\<close> and \<open>trie/snapshot.rs\<close>.

  \<^bold>\<open>Primitives\<close> (\<open>katana/primitives\<close>).
  \<^item> \<open>Version\<close> (\<open>version.rs\<close>), \<open>Primitives\<close> (\<open>block.rs\<close>, \<open>state.rs\<close>, \<open>contract.rs\<close>), \<open>Tx\<close> (\<open>transaction.rs\<close>,
    \<open>utils/transaction.rs\<close>, \<open>chain.rs\<close>), \<open>Receipt\<close> (\<open>receipt.rs\<close>, \<open>fee.rs\<close>, \<open>trace.rs\<close>).  The hash inputs of
    headers, state differences and transactions determine what they are computed from.
  \<^item> \<open>Da_Encoding\<close> (\<open>da/encoding.rs\<close>) and \<open>Da_Blob\<close> (\<open>da/math.rs\<close>, \<open>da/blob.rs\<close>): the words of a state
    difference are decoded to it, and \<open>ifft\<close> inverts the evaluation at the roots of unity.

  \<^bold>\<open>Storage provider\<close> (\<open>katana/storage/provider\<close>, \<open>katana/trie\<close>).
  \<^item> \<open>Db_Provider\<close>: the schema of \<open>tables.rs\<close> as one record \<open>db\<close> and every read of \<open>providers/db/mod.rs\<close>.
  \<^item> \<open>Block_Writer\<close>: \<open>insert_block_with_states_and_receipts\<close>, loop by loop, and the checkpoints.
  \<^item> \<open>Db_State\<close>: \<open>providers/db/state.rs\<close>, the state writers and the latest and historical readers.
  \<^item> \<open>Trie_Writer\<close>: \<open>providers/db/trie.rs\<close> over the shims of the trie crate; the bonsai library is a
    parameter.
  \<^item> \<open>Change_Log\<close>: the locale of a change log (a set of changed blocks per key and the values before
    the change), whose lemma says what a read as of a block returns.  It is interpreted for storage,
    nonces and classes in \<open>State_Refinement\<close> and for the trie in \<open>Trie_Db\<close>.
  \<^item> \<open>State_Refinement\<close>: the state tables refine a versioned state of plain maps.
  \<^item> \<open>Block_Refinement\<close>: the block tables refine an append-only chain.

  \<^bold>\<open>Transaction pool\<close> (\<open>katana/pool\<close>).
  \<^item> \<open>Pool_Tx\<close> (\<open>tx.rs\<close>, \<open>ordering.rs\<close>; the locale \<open>pool_ord\<close> is what the pool needs of an ordering and is
    interpreted for both), \<open>Validation\<close> and \<open>Tx_Validator\<close> (\<open>validation/\<close>), \<open>Pool\<close> (\<open>pool.rs\<close>,
    \<open>subscription.rs\<close>, \<open>pending.rs\<close>), \<open>Tx_Pool\<close> (the two composed).
  \<^item> \<open>Pool_Refinement\<close>: the step relation of the pool, its sortedness invariant, and its refinement of
    a queue (first come, first served) and of a stable sort (by tip).

  \<^bold>\<open>Sync\<close> (\<open>katana/sync\<close>, \<open>katana/feeder-gateway\<close>).
  \<^item> \<open>Gateway\<close>: the types of the gateway and their conversion.
  \<^item> \<open>Pipeline\<close>: \<open>run_once_until\<close> and \<open>run\<close>, with the locale \<open>checkpoint_store\<close>.
  \<^item> \<open>Stages\<close>: the blocks and the classes stage, composed with the block writer.

  \<^bold>\<open>Schemas\<close> (\<open>dojo/types\<close>).
  \<^item> \<open>Felt_Conversion\<close> (\<open>primitive_conversion.rs\<close>), \<open>Cairo_Primitive\<close> (\<open>primitive.rs\<close>), \<open>Cairo_Ty\<close>
    (\<open>schema.rs\<close>: names, iteration, printing, felts), \<open>Ty_Json\<close> (\<open>schema.rs\<close>: JSON) and \<open>Ty_Diff\<close>
    (\<open>schema.rs\<close>: \<open>Ty::diff\<close>, with the processors \<open>upgrade_model.rs\<close> and \<open>upgrade_event.rs\<close> of
    \<open>torii/indexer\<close>).  Values are read back from felts and from JSON, reading keeps the type, and the
    processors ignore an upgrade exactly when the old schema is a part of the new one.

  \<^bold>\<open>Torii\<close> (\<open>torii/sqlite\<close>).
  \<^item> \<open>Int256\<close> (\<open>I256\<close> of \<open>utils.rs\<close>), \<open>Torii_Query\<close> (the messages of \<open>executor/mod.rs\<close>), \<open>Token_Balance\<close>
    (\<open>erc.rs\<close>, \<open>executor/erc.rs\<close>) and \<open>Token_Ledger\<close>: the batched balances agree with a ledger.
  \<^item> \<open>Model_Table\<close> and \<open>Torii_Sql\<close> (\<open>lib.rs\<close>, \<open>cache.rs\<close>): the statements of every operation; every column a
    value is written to was declared, and an upgrade declares none.

  \<^bold>\<open>Worlds\<close> (\<open>dojo/types\<close>, \<open>dojo/world\<close>, \<open>dojo/utils\<close>, \<open>sozo/ops\<close>, and the contract of \<open>dojo/core\<close>).
  \<^item> \<open>Dojo_Naming\<close> (\<open>naming.rs\<close>): tags and selectors.
  \<^item> \<open>World_Local\<close> (\<open>config/\<close>, \<open>local/\<close>): the profile and the resources of a project.  \<open>World_Remote\<close> and
    \<open>World_Events\<close> (\<open>remote/\<close>): the resources of a deployed world, rebuilt from its events, which are
    fetched in pages over ranges of blocks; every event is applied once and in order.
  \<^item> \<open>World_Diff\<close> (\<open>diff/\<close>) compares the two; \<open>World_Manifest\<close> (\<open>diff/manifest.rs\<close>) is the file written from
    the difference; \<open>Calldata\<close> (\<open>config/calldata_decoder.rs\<close>) reads the arguments of initializers.
  \<^item> \<open>World_Contract\<close>: the management half of \<open>world_contract.cairo\<close>, the state the events speak of.
    \<open>World_Refinement\<close>: along every history of the contract the remote world agrees with its storage.
  \<^item> \<open>World_Migrate\<close> (\<open>sozo/ops/src/migrate\<close>, \<open>dojo/utils/src/tx\<close>): the phases of a migration with the
    transactions they send, their errors and panics.  \<open>Migration\<close> follows the status of each resource
    along the events of the calls, \<open>Migration_Outcome\<close> composes the phases: after a migration the world
    read back is in sync with the project.  \<open>Migration_Rights\<close>: the configured permissions are held,
    contracts are initialized and at their computed addresses.

  In these theories the provider, the byte arrays, the answers of classes to \<open>dojo_name\<close> and to the
  comparison of layouts, and the initializers of contracts are parameters.  The lemmas on migrations
  assume that initializers write records only, that a class answers the name its artifact has, and that
  the world has no libraries: these are registered under a selector with their version and read back
  under one without it.  A transaction is executed before the next one is sent.

  \<^bold>\<open>Conventions.\<close>  A struct is a record or a one-constructor datatype, an enum a datatype with the
  constructors of the source, a fallible function returns \<open>result\<close>, and a panic (\<open>unwrap\<close>, an index out
  of range, an overflow the build checks) is \<open>None\<close>.  Machine integers are words; field elements are
  \<open>felt\<close>.  Code that is not part of the repository is a parameter: the Poseidon and Pedersen hashes,
  the postcard and JSON codecs, the bonsai trie, the blockifier, channels, the HTTP client, sqlx and
  the texts of felts.  What the lemmas need of a parameter is a named hypothesis of the lemma (a codec
  is read back, an encoding has a fixed length), and the witness of the property instantiates it.

  \<^bold>\<open>Bounds and loops.\<close>  Loops are structural recursion or functions with a measure.  The pipeline loop
  may run forever; it is a partial function into \<open>option\<close>, and both its end (for faithful stages and a
  positive chunk size) and its running on (for chunk size zero) are proved.  The order numbers of the
  pool are 64 bit words: its refinements hold for fewer than \<open>2^64\<close> operations.  Block numbers are 64
  bit words throughout.  Balances of the ledger stay below \<open>2^256\<close>.

  \<^bold>\<open>Not modelled.\<close>  Failures of the database itself (\<open>DatabaseError\<close>); the execution of transactions
  (blockifier); RPC, GraphQL and gRPC servers, HTTP and command lines, which are glue over their
  libraries; the SQL engine and what reads from it; the Cairo compiler plugins and the binding
  generators, which transform syntax trees of the compiler; the forked provider, which proxies a
  remote node; the download of token metadata; the upload of resource metadata, and the storage of
  records in the world contract.
\<close>

end
